(* ===== verification/Prelude.thy ===== *)
theory Prelude
  imports
    Main
    "HOL-Library.Sublist"
    "HOL-Library.Signed_Division"
    "HOL-Library.Char_ord"
    "HOL-Library.List_Lexorder"
    "HOL-Library.Multiset"
begin

text \<open>
  Shared base of the development: the result type of a Go call (a value, a returned
  \<open>error\<close> or a panic), Go's fixed-width integers and truncated division,
  \<open>time.Time\<close> and \<open>time.Duration\<close>, byte strings, the order-by-comparison sort that
  \<open>sort.Slice\<close> performs, loops that may fail, and the general lemmas the component
  theories use.
\<close>

section \<open>Results of a call\<close>

text \<open>
  An error value of the program. \<open>Registered m n\<close> is \<open>errors.Register(m, n, _)\<close> of a module
  (wrapping keeps it), \<open>SdkError\<close> a registered error of the SDK, \<open>FmtError\<close> an
  \<open>errors.New\<close> or \<open>fmt.Errorf\<close> of the source, \<open>LibError\<close> an error a library call
  returned, \<open>GrpcError\<close> a \<open>status.Error\<close> with its code.
\<close>

datatype error =
    Registered string nat
  | SdkError string
  | FmtError string
  | LibError string
  | GrpcError string

datatype 'a outcome = Ok 'a | Err error | Panic

named_theorems outcome_simps \<open>rules that compute and invert sequenced calls\<close>

fun obind :: "'a outcome \<Rightarrow> ('a \<Rightarrow> 'b outcome) \<Rightarrow> 'b outcome" where
  "obind (Ok x) f = f x"
| "obind (Err e) f = Err e"
| "obind Panic f = Panic"

fun is_ok :: "'a outcome \<Rightarrow> bool" where
  "is_ok (Ok _) = True"
| "is_ok _ = False"

text \<open>A \<open>Must\<close> call, or an \<open>if err != nil then panic\<close>: the error becomes a panic.\<close>

fun must :: "'a outcome \<Rightarrow> 'a outcome" where
  "must (Ok x) = Ok x"
| "must (Err _) = Panic"
| "must Panic = Panic"

lemma obind_eq_Ok [outcome_simps]: "obind m f = Ok y \<longleftrightarrow> (\<exists>x. m = Ok x \<and> f x = Ok y)"
  by (cases m) auto

lemma obind_eq_Err [outcome_simps]:
  "obind m f = Err e \<longleftrightarrow> m = Err e \<or> (\<exists>x. m = Ok x \<and> f x = Err e)"
  by (cases m) auto

lemma obind_eq_Panic [outcome_simps]:
  "obind m f = Panic \<longleftrightarrow> m = Panic \<or> (\<exists>x. m = Ok x \<and> f x = Panic)"
  by (cases m) auto

text \<open>A check that returns only an error.\<close>

lemma obind_unit_Ok: "obind (m :: unit outcome) (\<lambda>_. n) = Ok y \<longleftrightarrow> m = Ok () \<and> n = Ok y"
  by (cases m) auto

lemma must_eq_Ok [outcome_simps, simp]: "must m = Ok x \<longleftrightarrow> m = Ok x"
  by (cases m) auto

lemma must_not_Err [simp]: "must m \<noteq> Err e"
  by (cases m) auto

lemma obind_assoc: "obind (obind m f) g = obind m (\<lambda>x. obind (f x) g)"
  by (cases m) auto

lemma obind_cong [fundef_cong]:
  "m = n \<Longrightarrow> (\<And>x. n = Ok x \<Longrightarrow> f x = g x) \<Longrightarrow> obind m f = obind n g"
  by (cases n) auto

lemma is_ok_iff: "is_ok m \<longleftrightarrow> (\<exists>x. m = Ok x)"
  by (cases m) auto

text \<open>A \<open>for range\<close> loop whose body may return early with an error or panic.\<close>

fun ofold :: "('a \<Rightarrow> 's \<Rightarrow> 's outcome) \<Rightarrow> 'a list \<Rightarrow> 's \<Rightarrow> 's outcome" where
  "ofold f [] s = Ok s"
| "ofold f (x # xs) s = obind (f x s) (ofold f xs)"

lemma ofold_append: "ofold f (xs @ ys) s = obind (ofold f xs s) (ofold f ys)"
  by (induction xs arbitrary: s) (auto simp: obind_assoc intro: obind_cong)

lemma ofold_invariant:
  assumes "ofold f xs s = Ok t" and "P s"
    and "\<And>x s t. x \<in> set xs \<Longrightarrow> P s \<Longrightarrow> f x s = Ok t \<Longrightarrow> P t"
  shows "P t"
  using assms by (induction xs arbitrary: s) (auto simp: outcome_simps)

lemma ofold_Ok:
  assumes "\<And>x s. x \<in> set xs \<Longrightarrow> P s \<Longrightarrow> \<exists>t. f x s = Ok t \<and> P t" and "P s"
  shows "\<exists>t. ofold f xs s = Ok t \<and> P t"
  using assms
proof (induction xs arbitrary: s)
  case (Cons x xs)
  then obtain t where "f x s = Ok t" "P t" by (meson list.set_intros(1))
  with Cons show ?case by simp
qed simp

text \<open>A loop that appends one result per element.\<close>

fun omap :: "('a \<Rightarrow> 'b outcome) \<Rightarrow> 'a list \<Rightarrow> 'b list outcome" where
  "omap f [] = Ok []"
| "omap f (x # xs) = obind (f x) (\<lambda>y. obind (omap f xs) (\<lambda>ys. Ok (y # ys)))"

lemma omap_Ok: "(\<And>x. x \<in> set xs \<Longrightarrow> f x = Ok (g x)) \<Longrightarrow> omap f xs = Ok (map g xs)"
  by (induction xs) simp_all

section \<open>Go integers\<close>

text \<open>
  A Go \<open>int64\<close> (and \<open>int\<close>) is an \<^typ>\<open>int\<close> in \<open>[-2^63, 2^63)\<close>; conversions and
  arithmetic wrap through \<open>i64\<close>. A \<open>uint64\<close> is an int in \<open>[0, 2^64)\<close>.
\<close>

definition i64 :: "int \<Rightarrow> int" where
  "i64 x = (x + 2 ^ 63) mod 2 ^ 64 - 2 ^ 63"

definition u64 :: "int \<Rightarrow> int" where
  "u64 x = x mod 2 ^ 64"

definition i32 :: "int \<Rightarrow> int" where
  "i32 x = (x + 2 ^ 31) mod 2 ^ 32 - 2 ^ 31"

definition is_i64 :: "int \<Rightarrow> bool" where
  "is_i64 x \<longleftrightarrow> - (2 ^ 63) \<le> x \<and> x < 2 ^ 63"

definition is_i32 :: "int \<Rightarrow> bool" where
  "is_i32 x \<longleftrightarrow> - (2 ^ 31) \<le> x \<and> x < 2 ^ 31"

lemma i64_id [simp]: "is_i64 x \<Longrightarrow> i64 x = x"
  by (simp add: i64_def is_i64_def)

lemma i64_range: "is_i64 (i64 x)"
proof -
  have "0 \<le> (x + 2 ^ 63) mod 2 ^ 64" "(x + 2 ^ 63) mod 2 ^ 64 < 2 ^ 64" by simp_all
  then show ?thesis by (simp add: i64_def is_i64_def)
qed

lemma i32_range: "is_i32 (i32 x)"
proof -
  have "0 \<le> (x + 2 ^ 31) mod 2 ^ 32" "(x + 2 ^ 31) mod 2 ^ 32 < 2 ^ 32" by simp_all
  then show ?thesis by (simp add: i32_def is_i32_def)
qed

lemma i32_id [simp]: "is_i32 x \<Longrightarrow> i32 x = x"
  by (simp add: i32_def is_i32_def)

lemma u64_range: "0 \<le> u64 x" "u64 x < 2 ^ 64"
  by (simp_all add: u64_def)

lemma i64_u64 [simp]: "i64 (u64 x) = i64 x"
proof -
  have "(x mod 2 ^ 64 + 2 ^ 63) mod 2 ^ 64 = (x + 2 ^ 63) mod (2 ^ 64 :: int)"
    by (simp only: mod_add_left_eq)
  then show ?thesis by (simp only: i64_def u64_def)
qed

lemma u64_i64 [simp]: "u64 (i64 x) = u64 x"
  by (simp add: u64_def i64_def mod_diff_left_eq)

text \<open>
  Go's \<open>/\<close> and \<open>%\<close> truncate towards zero and panic on a zero divisor; the quotient of
  the smallest \<open>int64\<close> by \<open>-1\<close> wraps.
\<close>

definition go_div :: "int \<Rightarrow> int \<Rightarrow> int outcome" where
  "go_div a b = (if b = 0 then Panic else Ok (i64 (a sdiv b)))"

definition go_mod :: "int \<Rightarrow> int \<Rightarrow> int outcome" where
  "go_mod a b = (if b = 0 then Panic else Ok (a smod b))"

lemma sdiv_nonneg: "0 \<le> a \<Longrightarrow> 0 < (b::int) \<Longrightarrow> a sdiv b = a div b"
  by (simp add: signed_divide_int_def sgn_if)

lemma smod_nonneg: "0 \<le> a \<Longrightarrow> 0 < (b::int) \<Longrightarrow> a smod b = a mod b"
  by (cases "a = 0") (simp_all add: signed_modulo_int_def)

section \<open>Byte strings\<close>

text \<open>
  Go's \<open>string\<close> and \<open>[]byte\<close> are both sequences of bytes; HOL's \<^typ>\<open>char\<close> is an
  eight-bit value, so both are \<^typ>\<open>string\<close> and the conversions \<open>[]byte(s)\<close> and
  \<open>string(b)\<close> are the identity. The order on them is Go's (bytewise, a prefix first).
\<close>

type_synonym bytes = string

definition byte :: "int \<Rightarrow> char" where
  "byte n = char_of (nat (n mod 256))"

definition byte_val :: "char \<Rightarrow> int" where
  "byte_val c = int (of_char c)"

lemma byte_val_range: "0 \<le> byte_val c" "byte_val c < 256"
  by (simp_all add: byte_val_def)

lemma byte_val_byte [simp]: "byte_val (byte n) = n mod 256"
  by (simp add: byte_val_def byte_def)

lemma byte_byte_val [simp]: "byte (byte_val c) = c"
  by (simp add: byte_val_def byte_def)

lemma byte_val_inject [simp]: "byte_val c = byte_val d \<longleftrightarrow> c = d"
  by (metis byte_byte_val)

lemma byte_inject: "0 \<le> m \<Longrightarrow> m < 256 \<Longrightarrow> 0 \<le> n \<Longrightarrow> n < 256 \<Longrightarrow> byte m = byte n \<longleftrightarrow> m = n"
  by (metis byte_val_byte mod_pos_pos_trivial)

lemma byte_eq_iff [simp]: "byte m = byte n \<longleftrightarrow> m mod 256 = n mod 256"
  by (metis byte_byte_val byte_val_byte byte_val_inject)

text \<open>\<open>regexp.MustCompile(`^[A-Z0-9]+:[A-Z0-9]+$`).MatchString\<close>.\<close>

definition upper_alnum :: "char \<Rightarrow> bool" where
  "upper_alnum c \<longleftrightarrow> (65 \<le> byte_val c \<and> byte_val c \<le> 90) \<or> (48 \<le> byte_val c \<and> byte_val c \<le> 57)"

definition base_quote :: "string \<Rightarrow> bool" where
  "base_quote s \<longleftrightarrow> takeWhile upper_alnum s \<noteq> [] \<and>
     (case dropWhile upper_alnum s of
        [] \<Rightarrow> False
      | c # quote \<Rightarrow> c = CHR '':'' \<and> quote \<noteq> [] \<and> list_all upper_alnum quote)"

section \<open>Time\<close>

text \<open>
  A \<open>time.Time\<close> is the number of nanoseconds since the Unix epoch (UTC), unbounded; a
  \<open>time.Duration\<close> is an \<open>int64\<close> number of nanoseconds. \<open>Sub\<close> saturates, the
  product of durations wraps, \<open>UnixNano\<close> wraps. The zero \<open>Time\<close> is year 1.
\<close>

type_synonym time = int
type_synonym duration = int

definition Second :: duration where
  "Second = 1000000000"

definition Hour :: duration where
  "Hour = 3600 * Second"

definition zero_time :: time where
  "zero_time = -62135596800 * 1000000000"

definition time_sub :: "time \<Rightarrow> time \<Rightarrow> duration" where
  "time_sub t u = (if t - u < - (2 ^ 63) then - (2 ^ 63)
     else if t - u \<ge> 2 ^ 63 then 2 ^ 63 - 1 else t - u)"

definition dur_mul :: "duration \<Rightarrow> duration \<Rightarrow> duration" where
  "dur_mul d e = i64 (d * e)"

definition UnixNano :: "time \<Rightarrow> int" where
  "UnixNano t = i64 t"

lemma time_sub_small: "is_i64 (t - u) \<Longrightarrow> time_sub t u = t - u"
  by (simp add: time_sub_def is_i64_def)

lemma time_sub_mono: "t \<le> t' \<Longrightarrow> time_sub t u \<le> time_sub t' u"
  by (simp add: time_sub_def)

lemma time_sub_range: "is_i64 (time_sub t u)"
  by (simp add: time_sub_def is_i64_def)

lemma time_sub_le: "time_sub t u \<le> d \<Longrightarrow> d < 2 ^ 63 - 1 \<Longrightarrow> t - u \<le> d"
  by (simp add: time_sub_def split: if_splits)

lemma time_sub_nonneg: "u \<le> t \<Longrightarrow> 0 \<le> time_sub t u"
  by (simp add: time_sub_def)

section \<open>Sorting with a comparison\<close>

text \<open>
  \<open>sort.Slice(xs, less)\<close>: the elements in an order in which no later one is \<open>less\<close>
  than an earlier one. Where \<open>less\<close> leaves two elements unordered Go promises no order
  for them; the model keeps the input order, and no property below depends on it.
\<close>

fun insert_by :: "('a \<Rightarrow> 'a \<Rightarrow> bool) \<Rightarrow> 'a \<Rightarrow> 'a list \<Rightarrow> 'a list" where
  "insert_by lt x [] = [x]"
| "insert_by lt x (y # ys) = (if lt y x then y # insert_by lt x ys else x # y # ys)"

definition sort_slice :: "('a \<Rightarrow> 'a \<Rightarrow> bool) \<Rightarrow> 'a list \<Rightarrow> 'a list" where
  "sort_slice lt xs = foldr (insert_by lt) xs []"

lemma mset_insert_by [simp]: "mset (insert_by lt x xs) = add_mset x (mset xs)"
  by (induction xs) auto

lemma mset_sort_slice [simp]: "mset (sort_slice lt xs) = mset xs"
  unfolding sort_slice_def by (induction xs) auto

lemma set_sort_slice [simp]: "set (sort_slice lt xs) = set xs"
  by (metis mset_sort_slice set_mset_mset)

lemma length_sort_slice [simp]: "length (sort_slice lt xs) = length xs"
  by (metis mset_sort_slice size_mset)

lemma set_insert_by [simp]: "set (insert_by lt x xs) = insert x (set xs)"
  by (induction xs) auto

text \<open>The comparison functions of the program all compare a key in a linear order.\<close>

lemma sorted_insert_by:
  assumes "\<And>x y. lt x y \<longleftrightarrow> f x < (f y :: 'k :: linorder)" and "sorted (map f xs)"
  shows "sorted (map f (insert_by lt x xs))"
  using assms(2)
proof (induction xs)
  case (Cons y ys)
  then show ?case using assms(1) by (auto simp: not_less)
qed simp

lemma sorted_sort_slice:
  assumes "\<And>x y. lt x y \<longleftrightarrow> f x < (f y :: 'k :: linorder)"
  shows "sorted (map f (sort_slice lt xs))"
  unfolding sort_slice_def
  by (induction xs) (auto intro: sorted_insert_by [OF assms])

lemma sort_slice_eq_sort:
  assumes "\<And>x y. lt x y \<longleftrightarrow> x < (y :: 'k :: linorder)"
  shows "sort_slice lt xs = sort xs"
  using sorted_sort_slice [of lt "\<lambda>x. x" xs, OF assms]
  by (simp add: properties_for_sort [symmetric])

section \<open>Lists\<close>

lemma sorted_nth_le_count:
  assumes "sorted xs" and "k < length xs"
  shows "k < length (filter (\<lambda>y. y \<le> xs ! k) xs)"
proof -
  have "filter (\<lambda>y. y \<le> xs ! k) (take (Suc k) xs) = take (Suc k) xs"
    using assms by (auto simp: filter_id_conv in_set_conv_nth sorted_nth_mono)
  then have "Suc k \<le> length (filter (\<lambda>y. y \<le> xs ! k) (take (Suc k) xs))"
    using assms(2) by (metis Suc_leI length_take min.absorb2 order_refl)
  also have "\<dots> \<le> length (filter (\<lambda>y. y \<le> xs ! k) xs)"
    by (metis append_take_drop_id filter_append le_add1 length_append)
  finally show ?thesis by simp
qed

lemma sorted_nth_ge_count:
  assumes "sorted xs" and "k < length xs"
  shows "length xs - k \<le> length (filter (\<lambda>y. xs ! k \<le> y) xs)"
proof -
  have "filter (\<lambda>y. xs ! k \<le> y) (drop k xs) = drop k xs"
    using assms by (auto simp: filter_id_conv in_set_conv_nth sorted_nth_mono)
  then have "length xs - k \<le> length (filter (\<lambda>y. xs ! k \<le> y) (drop k xs))"
    by (metis length_drop order_refl)
  also have "\<dots> \<le> length (filter (\<lambda>y. xs ! k \<le> y) xs)"
    by (metis append_take_drop_id filter_append le_add2 length_append)
  finally show ?thesis .
qed

section \<open>Big-endian integers\<close>

text \<open>\<open>encoding/binary\<close>: the eight bytes of a \<open>uint64\<close>, most significant first.\<close>

fun be_bytes :: "nat \<Rightarrow> int \<Rightarrow> bytes" where
  "be_bytes 0 v = []"
| "be_bytes (Suc n) v = byte (v div 256 ^ n) # be_bytes n v"

definition PutUint64 :: "int \<Rightarrow> bytes" where
  "PutUint64 v = be_bytes 8 v"

definition Uint64 :: "bytes \<Rightarrow> int outcome" where
  "Uint64 bz = (if length bz < 8 then Panic
     else Ok (foldl (\<lambda>v b. v * 256 + byte_val b) 0 (take 8 bz)))"

lemma length_be_bytes [simp]: "length (be_bytes n v) = n"
  by (induction n) auto

lemma length_PutUint64 [simp]: "length (PutUint64 v) = 8"
  by (simp add: PutUint64_def)

lemma be_bytes_mod: "be_bytes n (v mod 256 ^ k) = be_bytes n v" if "n \<le> k"
  using that
proof (induction n)
  case (Suc n)
  have "(v mod 256 ^ k) div 256 ^ n mod 256 = v div 256 ^ n mod (256 :: int)"
  proof -
    have k: "(256 :: int) ^ k = 256 ^ n * 256 ^ (k - n)"
      using Suc.prems by (simp add: power_add [symmetric])
    have "(v mod 256 ^ k) div 256 ^ n = (v div 256 ^ n) mod 256 ^ (k - n)"
      unfolding k by (simp add: zmod_zmult2_eq)
    moreover have "(256 :: int) dvd 256 ^ (k - n)" using Suc.prems by (simp add: dvd_power)
    ultimately show ?thesis by (simp add: mod_mod_cancel)
  qed
  then have "byte ((v mod 256 ^ k) div 256 ^ n) = byte (v div 256 ^ n)"
    by (simp add: byte_def)
  with Suc show ?case by simp
qed simp

lemma foldl_be_bytes:
  "0 \<le> v \<Longrightarrow> v < 256 ^ n \<Longrightarrow> foldl (\<lambda>v b. v * 256 + byte_val b) a (be_bytes n v) = a * 256 ^ n + v"
proof (induction n arbitrary: a v)
  case (Suc n)
  have d0: "0 \<le> v div 256 ^ n" using Suc.prems by (simp add: pos_imp_zdiv_nonneg_iff)
  have d: "v div 256 ^ n < 256"
  proof (rule ccontr)
    assume "\<not> v div 256 ^ n < 256"
    then have "256 * 256 ^ n \<le> v div 256 ^ n * 256 ^ n" by (intro mult_right_mono) auto
    also have "\<dots> \<le> v" by (simp add: minus_mod_eq_div_mult [symmetric])
    finally show False using Suc.prems by simp
  qed
  have "be_bytes n v = be_bytes n (v mod 256 ^ n)" by (simp add: be_bytes_mod)
  then have "foldl (\<lambda>v b. v * 256 + byte_val b) (a * 256 + v div 256 ^ n) (be_bytes n v) =
      (a * 256 + v div 256 ^ n) * 256 ^ n + v mod 256 ^ n"
    using Suc.IH [of "v mod 256 ^ n"] by simp
  then show ?case using d0 d by (simp add: algebra_simps)
qed simp

lemma Uint64_PutUint64: "0 \<le> v \<Longrightarrow> v < 2 ^ 64 \<Longrightarrow> Uint64 (PutUint64 v) = Ok v"
  using foldl_be_bytes [of v 8 0] by (simp add: Uint64_def PutUint64_def)

text \<open>Big-endian bytes order like the numbers.\<close>

lemma byte_less: "0 \<le> m \<Longrightarrow> m < 256 \<Longrightarrow> 0 \<le> n \<Longrightarrow> n < 256 \<Longrightarrow> byte m < byte n \<longleftrightarrow> m < n"
  by (auto simp: byte_def less_char_def)

lemma append_less_append [simp]: "xs @ ys < xs @ zs \<longleftrightarrow> ys < (zs :: 'a :: linorder list)"
  by (induction xs) simp_all

lemma div_power_range:
  assumes "0 \<le> v" and "v < 256 ^ Suc n"
  shows "0 \<le> v div 256 ^ n" and "v div 256 ^ n < (256 :: int)"
proof -
  show "0 \<le> v div 256 ^ n" using assms by (simp add: pos_imp_zdiv_nonneg_iff)
  have "v div 256 ^ n * 256 ^ n \<le> v" by (simp add: minus_mod_eq_div_mult [symmetric])
  also have "v < 256 * 256 ^ n" using assms by simp
  finally show "v div 256 ^ n < 256" by (simp only: mult_less_cancel_right_pos zero_less_power zero_less_numeral)
qed

lemma be_bytes_less:
  assumes "0 \<le> a" and "a < b" and "b < 256 ^ n"
  shows "be_bytes n a < be_bytes n b"
  using assms
proof (induction n arbitrary: a b)
  case (Suc n)
  have a: "a < 256 ^ Suc n" and b0: "0 \<le> b" using Suc.prems by simp_all
  note ra = div_power_range [OF Suc.prems(1) a] and rb = div_power_range [OF b0 Suc.prems(3)]
  have "a div 256 ^ n \<le> b div 256 ^ n" using Suc.prems by (simp add: zdiv_mono1)
  then consider "a div 256 ^ n < b div 256 ^ n" | "a div 256 ^ n = b div 256 ^ n" by linarith
  then show ?case
  proof cases
    case 1
    then have "byte (a div 256 ^ n) < byte (b div 256 ^ n)" using ra rb by (simp add: byte_less)
    then show ?thesis by simp
  next
    case 2
    have "a mod 256 ^ n < b mod 256 ^ n"
      using Suc.prems(2) 2 by (metis add_less_cancel_left mult_div_mod_eq)
    then have "be_bytes n (a mod 256 ^ n) < be_bytes n (b mod 256 ^ n)" by (intro Suc.IH) simp_all
    then show ?thesis by (simp add: 2 be_bytes_mod)
  qed
qed simp

lemma PutUint64_less: "0 \<le> a \<Longrightarrow> a < b \<Longrightarrow> b < 2 ^ 64 \<Longrightarrow> PutUint64 a < PutUint64 b"
  using be_bytes_less [of a b 8] by (simp add: PutUint64_def)

lemma base_quote_no_slash:
  assumes "base_quote s"
  shows "CHR ''/'' \<notin> set s"
proof -
  have no: "\<not> upper_alnum CHR ''/''" by (simp add: upper_alnum_def byte_val_def)
  have "s = takeWhile upper_alnum s @ dropWhile upper_alnum s" by simp
  moreover have "CHR ''/'' \<notin> set (takeWhile upper_alnum s)" using no by (meson set_takeWhileD)
  moreover have "CHR ''/'' \<notin> set (dropWhile upper_alnum s)"
    using assms no by (auto simp: base_quote_def list_all_iff split: list.splits)
  ultimately show ?thesis by (metis UnE set_append)
qed

lemma sorted_by_unique:
  fixes f :: "'a \<Rightarrow> 'b::linorder"
  assumes "sorted_wrt (<) (map f xs)" and "sorted_wrt (<) (map f ys)" and "set xs = set ys"
  shows "xs = ys"
proof -
  have "map f xs = map f ys" using assms by (intro strict_sorted_equal) simp_all
  moreover have "inj_on f (set xs \<union> set ys)"
    using assms by (metis distinct_map strict_sorted_iff sup.idem)
  ultimately show ?thesis by (simp add: inj_on_map_eq_map)
qed

lemma sort_slice_unique:
  assumes lt: "\<And>x y. lt x y \<longleftrightarrow> f x < (f y :: 'k :: linorder)" and "distinct (map f xs)"
    and "sorted_wrt (<) (map f ys)" and "set xs = set ys"
  shows "sort_slice lt xs = ys"
proof (rule sorted_by_unique [where f = f])
  have "mset (map f (sort_slice lt xs)) = mset (map f xs)" by simp
  then have "distinct (map f (sort_slice lt xs))" using assms(2) by (metis mset_eq_imp_distinct_iff)
  then show "sorted_wrt (<) (map f (sort_slice lt xs))"
    using sorted_sort_slice [of lt f xs, OF lt] by (simp add: strict_sorted_iff)
qed (use assms in simp_all)

end
