(* ===== verification/Sdk.thy ===== *)
theory Sdk
  imports Prelude
begin

text \<open>
  The code the modules call and do not contain: \<open>cosmossdk.io/math\<close>, Bech32 addresses,
  the key/value store, the standard-time codec of \<open>gogoproto\<close>, and the staking, slashing,
  bank, account and distribution keepers. Each is a record of operations that the
  definitions of the modules take as an argument, never a definition of ours. What a
  theorem relies on is one of the predicates \<open>math_laws\<close>, \<open>addr_laws\<close>, \<open>time_laws\<close>,
  \<open>kv_laws\<close> and \<open>bank_laws\<close>, which state the documented behaviour.
\<close>

section \<open>cosmossdk.io/math\<close>

text \<open>
  A \<open>LegacyDec\<close> is a decimal with 18 fractional digits; a value of type \<open>dec\<close> is its
  mantissa (the decimal times \<open>10^18\<close>), so comparisons, \<open>Abs\<close>, \<open>IsZero\<close>,
  \<open>IsPositive\<close> and \<open>IsNegative\<close> are those of \<^typ>\<open>int\<close>. A \<open>math.Int\<close> is an int.
  Whatever parses, prints, rounds or may overflow is an operation of the library.
\<close>

type_synonym dec = int

record math_lib =
  LegacyNewDecFromStr :: "string \<Rightarrow> dec outcome"
  dec_String :: "dec \<Rightarrow> string"
  LegacyNewDec :: "int \<Rightarrow> dec"
  LegacyNewDecFromInt :: "int \<Rightarrow> dec"
  LegacyNewDecWithPrec :: "int \<Rightarrow> int \<Rightarrow> dec"
  dec_Add :: "dec \<Rightarrow> dec \<Rightarrow> dec outcome"
  dec_Sub :: "dec \<Rightarrow> dec \<Rightarrow> dec outcome"
  dec_Mul :: "dec \<Rightarrow> dec \<Rightarrow> dec outcome"
  dec_Quo :: "dec \<Rightarrow> dec \<Rightarrow> dec outcome"
  dec_QuoInt64 :: "dec \<Rightarrow> int \<Rightarrow> dec outcome"
  dec_TruncateInt :: "dec \<Rightarrow> int outcome"
  NewIntFromString :: "string \<Rightarrow> int option"
  int_String :: "int \<Rightarrow> string"
  int_Add :: "int \<Rightarrow> int \<Rightarrow> int outcome"
  int_Sub :: "int \<Rightarrow> int \<Rightarrow> int outcome"
  int_Int64 :: "int \<Rightarrow> int outcome"
  int_Marshal :: "int \<Rightarrow> bytes outcome"
  int_Unmarshal :: "bytes \<Rightarrow> int outcome"

definition dec_unit :: int where
  "dec_unit = 10 ^ 18"

definition dec_fits :: "dec \<Rightarrow> bool" where
  "dec_fits d \<longleftrightarrow> \<bar>d\<bar> < 2 ^ 315"

definition int_fits :: "int \<Rightarrow> bool" where
  "int_fits n \<longleftrightarrow> \<bar>n\<bar> < 2 ^ 256"

text \<open>An operation of the library that panics when its result is too wide.\<close>

definition checked_dec :: "dec \<Rightarrow> dec outcome" where
  "checked_dec r = (if dec_fits r then Ok r else Panic)"

definition checked_int :: "int \<Rightarrow> int outcome" where
  "checked_int r = (if int_fits r then Ok r else Panic)"

definition dec_text_laws :: "math_lib \<Rightarrow> bool" where
  "dec_text_laws M \<longleftrightarrow>
     (\<forall>d. dec_fits d \<longrightarrow> LegacyNewDecFromStr M (dec_String M d) = Ok d) \<and>
     (\<forall>d. dec_fits d \<longrightarrow> length (dec_String M d) < 128) \<and>
     (\<forall>s d. LegacyNewDecFromStr M s = Ok d \<longrightarrow> dec_fits d) \<and>
     (\<forall>s. LegacyNewDecFromStr M s \<noteq> Panic)"

text \<open>A decimal literal \<open>ddd.ddd\<close> with at most 18 fractional digits parses to its value.\<close>

definition is_digit :: "char \<Rightarrow> bool" where
  "is_digit c \<longleftrightarrow> 48 \<le> byte_val c \<and> byte_val c \<le> 57"

definition digits_val :: "string \<Rightarrow> int" where
  "digits_val s = foldl (\<lambda>v c. v * 10 + (byte_val c - 48)) 0 s"

definition dec_literal_laws :: "math_lib \<Rightarrow> bool" where
  "dec_literal_laws M \<longleftrightarrow>
     (\<forall>w f. w \<noteq> [] \<and> list_all is_digit w \<and> length w \<le> 60 \<and> f \<noteq> [] \<and> list_all is_digit f \<and> length f \<le> 18 \<longrightarrow>
        LegacyNewDecFromStr M (w @ ''.'' @ f) =
          Ok (digits_val w * dec_unit + digits_val f * 10 ^ (18 - length f)))"

definition dec_arith_laws :: "math_lib \<Rightarrow> bool" where
  "dec_arith_laws M \<longleftrightarrow>
     (\<forall>n. LegacyNewDec M n = n * dec_unit) \<and>
     (\<forall>n. LegacyNewDecFromInt M n = n * dec_unit) \<and>
     (\<forall>n p. 0 \<le> p \<and> p \<le> 18 \<longrightarrow> LegacyNewDecWithPrec M n p = n * 10 ^ nat (18 - p)) \<and>
     (\<forall>a b. dec_Add M a b = checked_dec (a + b)) \<and>
     (\<forall>a b. dec_Sub M a b = checked_dec (a - b)) \<and>
     (\<forall>a n. n \<noteq> 0 \<longrightarrow> dec_QuoInt64 M a n = Ok (a sdiv n)) \<and>
     (\<forall>a. dec_TruncateInt M a = checked_int (a sdiv dec_unit))"

text \<open>
  \<open>Mul\<close> is off by at most half a unit in the last place; \<open>Quo\<close> truncates a quotient with
  36 fractional digits and then rounds it to 18.
\<close>

definition dec_round_laws :: "math_lib \<Rightarrow> bool" where
  "dec_round_laws M \<longleftrightarrow>
     (\<forall>a b. \<exists>r. 2 * \<bar>r * dec_unit - a * b\<bar> \<le> dec_unit \<and> dec_Mul M a b = checked_dec r) \<and>
     (\<forall>a. dec_Quo M a 0 = Panic) \<and>
     (\<forall>a b. b \<noteq> 0 \<longrightarrow>
        (\<exists>r. \<bar>r * b * dec_unit - a * dec_unit * dec_unit\<bar> < \<bar>b\<bar> * (dec_unit div 2 + 1) \<and>
             dec_Quo M a b = checked_dec r))"

definition int_laws :: "math_lib \<Rightarrow> bool" where
  "int_laws M \<longleftrightarrow>
     (\<forall>n. int_fits n \<longrightarrow> NewIntFromString M (int_String M n) = Some n) \<and>
     (\<forall>n. int_fits n \<longrightarrow> length (int_String M n) < 128) \<and>
     (\<forall>s n. NewIntFromString M s = Some n \<longrightarrow> int_fits n) \<and>
     (\<forall>a b. int_Add M a b = checked_int (a + b)) \<and>
     (\<forall>a b. int_Sub M a b = checked_int (a - b)) \<and>
     (\<forall>a. int_Int64 M a = (if is_i64 a then Ok a else Panic)) \<and>
     (\<forall>n. int_fits n \<longrightarrow> (\<exists>bz. int_Marshal M n = Ok bz \<and> length bz < 128 \<and> int_Unmarshal M bz = Ok n))"

definition math_laws :: "math_lib \<Rightarrow> bool" where
  "math_laws M \<longleftrightarrow> dec_text_laws M \<and> dec_literal_laws M \<and> dec_arith_laws M \<and> dec_round_laws M \<and> int_laws M"

lemma dec_roundtrip: "math_laws M \<Longrightarrow> dec_fits d \<Longrightarrow> LegacyNewDecFromStr M (dec_String M d) = Ok d"
  unfolding math_laws_def dec_text_laws_def by blast

lemma dec_String_short: "math_laws M \<Longrightarrow> dec_fits d \<Longrightarrow> length (dec_String M d) < 128"
  unfolding math_laws_def dec_text_laws_def by blast

lemma int_String_short: "math_laws M \<Longrightarrow> int_fits n \<Longrightarrow> length (int_String M n) < 128"
  unfolding math_laws_def int_laws_def by blast

lemma dec_from_str_fits: "math_laws M \<Longrightarrow> LegacyNewDecFromStr M s = Ok d \<Longrightarrow> dec_fits d"
  unfolding math_laws_def dec_text_laws_def by blast

lemma dec_from_str_no_panic: "math_laws M \<Longrightarrow> LegacyNewDecFromStr M s \<noteq> Panic"
  unfolding math_laws_def dec_text_laws_def by blast

lemma dec_literal:
  assumes "math_laws M" and "w \<noteq> []" and "list_all is_digit w" and "length w \<le> 60"
    and "f \<noteq> []" and "list_all is_digit f" and "length f \<le> 18"
  shows "LegacyNewDecFromStr M (w @ ''.'' @ f) =
    Ok (digits_val w * dec_unit + digits_val f * 10 ^ (18 - length f))"
  using assms by (simp add: math_laws_def dec_literal_laws_def)

lemma LegacyNewDec_eq: "math_laws M \<Longrightarrow> LegacyNewDec M n = n * dec_unit"
  unfolding math_laws_def dec_arith_laws_def by blast

lemma LegacyNewDecFromInt_eq: "math_laws M \<Longrightarrow> LegacyNewDecFromInt M n = n * dec_unit"
  unfolding math_laws_def dec_arith_laws_def by blast

lemma LegacyNewDecWithPrec_eq: "math_laws M \<Longrightarrow> 0 \<le> p \<Longrightarrow> p \<le> 18 \<Longrightarrow> LegacyNewDecWithPrec M n p = n * 10 ^ nat (18 - p)"
  unfolding math_laws_def dec_arith_laws_def by blast

lemma dec_Add_eq: "math_laws M \<Longrightarrow> dec_Add M a b = checked_dec (a + b)"
  unfolding math_laws_def dec_arith_laws_def by blast

lemma dec_Sub_eq: "math_laws M \<Longrightarrow> dec_Sub M a b = checked_dec (a - b)"
  unfolding math_laws_def dec_arith_laws_def by blast

lemma dec_QuoInt64_eq: "math_laws M \<Longrightarrow> n \<noteq> 0 \<Longrightarrow> dec_QuoInt64 M a n = Ok (a sdiv n)"
  unfolding math_laws_def dec_arith_laws_def by blast

lemma dec_TruncateInt_eq: "math_laws M \<Longrightarrow> dec_TruncateInt M a = checked_int (a sdiv dec_unit)"
  unfolding math_laws_def dec_arith_laws_def by blast

lemma int_roundtrip: "math_laws M \<Longrightarrow> int_fits n \<Longrightarrow> NewIntFromString M (int_String M n) = Some n"
  unfolding math_laws_def int_laws_def by blast

lemma NewIntFromString_fits: "math_laws M \<Longrightarrow> NewIntFromString M s = Some n \<Longrightarrow> int_fits n"
  unfolding math_laws_def int_laws_def by blast

lemma int_Add_eq: "math_laws M \<Longrightarrow> int_Add M a b = checked_int (a + b)"
  unfolding math_laws_def int_laws_def by blast

lemma int_Sub_eq: "math_laws M \<Longrightarrow> int_Sub M a b = checked_int (a - b)"
  unfolding math_laws_def int_laws_def by blast

lemma int_Int64_eq: "math_laws M \<Longrightarrow> int_Int64 M a = (if is_i64 a then Ok a else Panic)"
  unfolding math_laws_def int_laws_def by blast

lemma int_Marshal_roundtrip: "math_laws M \<Longrightarrow> int_fits n \<Longrightarrow> \<exists>bz. int_Marshal M n = Ok bz \<and> length bz < 128 \<and> int_Unmarshal M bz = Ok n"
  unfolding math_laws_def int_laws_def by blast

lemma dec_Quo_0: "math_laws M \<Longrightarrow> dec_Quo M a 0 = Panic"
  by (simp add: math_laws_def dec_round_laws_def)

lemma dec_Mul_rounds:
  assumes "math_laws M"
  obtains r where "2 * \<bar>r * dec_unit - a * b\<bar> \<le> dec_unit" and "dec_Mul M a b = checked_dec r"
  using assms unfolding math_laws_def dec_round_laws_def by blast

lemma dec_Quo_rounds:
  assumes "math_laws M" and "b \<noteq> 0"
  obtains r where "\<bar>r * b * dec_unit - a * dec_unit * dec_unit\<bar> < \<bar>b\<bar> * (dec_unit div 2 + 1)"
    and "dec_Quo M a b = checked_dec r"
  using assms unfolding math_laws_def dec_round_laws_def by blast

lemma dec_unit_pos [simp]: "0 < dec_unit"
  by (simp add: dec_unit_def)

lemma dec_unit_nonzero [simp]: "dec_unit \<noteq> 0"
  by (simp add: dec_unit_def)

lemma dec_unit_nonneg [simp]: "0 \<le> dec_unit"
  by (simp add: dec_unit_def)

lemma abs_dec_unit [simp]: "\<bar>dec_unit\<bar> = dec_unit"
  by (simp add: dec_unit_def)

lemma checked_dec_eq_Ok [simp]: "checked_dec r = Ok s \<longleftrightarrow> s = r \<and> dec_fits r"
  by (auto simp: checked_dec_def)

lemma checked_int_eq_Ok [simp]: "checked_int r = Ok s \<longleftrightarrow> s = r \<and> int_fits r"
  by (auto simp: checked_int_def)

lemma checked_dec_not_Err [simp]: "checked_dec r \<noteq> Err e"
  by (simp add: checked_dec_def)

lemma checked_int_not_Err [simp]: "checked_int r \<noteq> Err e"
  by (simp add: checked_int_def)

text \<open>An integer times a decimal is exact: no digit is rounded away.\<close>

lemma dec_Mul_exact:
  assumes M: "math_laws M"
  shows "dec_Mul M (n * dec_unit) b = checked_dec (n * b)"
proof (rule dec_Mul_rounds [OF M, of "n * dec_unit" b])
  fix r
  assume r: "2 * \<bar>r * dec_unit - n * dec_unit * b\<bar> \<le> dec_unit"
    and eq: "dec_Mul M (n * dec_unit) b = checked_dec r"
  have "r * dec_unit - n * dec_unit * b = (r - n * b) * dec_unit"
    by (simp add: algebra_simps)
  with r have "2 * (\<bar>r - n * b\<bar> * dec_unit) \<le> dec_unit"
    by (simp add: abs_mult)
  then have "\<bar>r - n * b\<bar> * dec_unit < 1 * dec_unit"
    using dec_unit_pos by linarith
  then have "\<bar>r - n * b\<bar> < 1"
    by (simp only: mult_less_cancel_right_pos dec_unit_pos)
  then have "r = n * b" by linarith
  with eq show ?thesis by simp
qed

lemma dec_Mul_commute_exact:
  assumes M: "math_laws M"
  shows "dec_Mul M b (n * dec_unit) = checked_dec (b * n)"
proof (rule dec_Mul_rounds [OF M, of b "n * dec_unit"])
  fix r
  assume r: "2 * \<bar>r * dec_unit - b * (n * dec_unit)\<bar> \<le> dec_unit"
    and eq: "dec_Mul M b (n * dec_unit) = checked_dec r"
  have "r * dec_unit - b * (n * dec_unit) = (r - b * n) * dec_unit" by (simp add: algebra_simps)
  with r have "2 * (\<bar>r - b * n\<bar> * dec_unit) \<le> dec_unit" by (simp add: abs_mult)
  then have "\<bar>r - b * n\<bar> * dec_unit < 1 * dec_unit" using dec_unit_pos by linarith
  then have "\<bar>r - b * n\<bar> < 1" by (simp only: mult_less_cancel_right_pos dec_unit_pos)
  then have "r = b * n" by linarith
  with eq show ?thesis by simp
qed

text \<open>A quotient of equal multiples is exact.\<close>

lemma dec_Quo_exact:
  assumes M: "math_laws M" and b: "0 < b"
  shows "dec_Quo M (k * b) b = checked_dec (k * dec_unit)"
proof (rule dec_Quo_rounds [OF M, of b "k * b"])
  fix r
  assume r: "\<bar>r * b * dec_unit - k * b * dec_unit * dec_unit\<bar> < \<bar>b\<bar> * (dec_unit div 2 + 1)"
    and eq: "dec_Quo M (k * b) b = checked_dec r"
  have "r * b * dec_unit - k * b * dec_unit * dec_unit = b * ((r - k * dec_unit) * dec_unit)"
    by (simp add: algebra_simps)
  with r b have "b * (\<bar>r - k * dec_unit\<bar> * dec_unit) < b * (dec_unit div 2 + 1)"
    by (simp add: abs_mult)
  with b have "\<bar>r - k * dec_unit\<bar> * dec_unit < dec_unit div 2 + 1"
    by simp
  moreover have "dec_unit div 2 + 1 \<le> dec_unit"
    by (simp add: dec_unit_def)
  ultimately have "\<bar>r - k * dec_unit\<bar> * dec_unit < 1 * dec_unit"
    by linarith
  then have "\<bar>r - k * dec_unit\<bar> < 1"
    by (simp only: mult_less_cancel_right_pos dec_unit_pos)
  then have "r = k * dec_unit" by linarith
  with eq show ?thesis by simp
qed (use b in simp)

text \<open>\<open>Quo\<close> is off by less than one unit in the last place, so it respects decimal bounds.\<close>

lemma dec_Quo_within:
  assumes M: "math_laws M" and b: "0 < b"
  obtains r where "dec_Quo M a b = checked_dec r"
    and "\<And>k. k * b \<le> a * dec_unit \<Longrightarrow> k \<le> r" and "\<And>k. a * dec_unit \<le> k * b \<Longrightarrow> r \<le> k"
    and "(r - 1) * b < a * dec_unit" and "a * dec_unit < (r + 1) * b"
proof (rule dec_Quo_rounds [OF M, of b a])
  show "b \<noteq> 0" using b by simp
next
  fix r
  assume r: "\<bar>r * b * dec_unit - a * dec_unit * dec_unit\<bar> < \<bar>b\<bar> * (dec_unit div 2 + 1)"
    and eq: "dec_Quo M a b = checked_dec r"
  have "r * b * dec_unit - a * dec_unit * dec_unit = (r * b - a * dec_unit) * dec_unit"
    by (simp add: algebra_simps)
  then have "\<bar>r * b - a * dec_unit\<bar> * dec_unit < b * (dec_unit div 2 + 1)"
    using r b by (simp add: abs_mult)
  moreover have "b * (dec_unit div 2 + 1) \<le> b * dec_unit"
    using b by (intro mult_left_mono) (simp_all add: dec_unit_def)
  ultimately have "\<bar>r * b - a * dec_unit\<bar> * dec_unit < b * dec_unit" by linarith
  then have near: "\<bar>r * b - a * dec_unit\<bar> < b"
    by (simp only: mult_less_cancel_right_pos dec_unit_pos)
  have lo: "k \<le> r" if "k * b \<le> a * dec_unit" for k
  proof -
    have "k * b < (r + 1) * b" using near that by (simp add: distrib_right)
    then show ?thesis using b by simp
  qed
  have hi: "r \<le> k" if "a * dec_unit \<le> k * b" for k
  proof -
    have "r * b < (k + 1) * b" using near that by (simp add: distrib_right)
    then show ?thesis using b by simp
  qed
  have "(r - 1) * b < a * dec_unit" "a * dec_unit < (r + 1) * b"
    using near by (simp_all add: distrib_right left_diff_distrib)
  then show thesis using that eq lo hi by blast
qed

text \<open>
  \<open>n, _ := math.NewIntFromString(s)\<close> with the flag ignored leaves a nil \<open>Int\<close> when the
  text is no integer; the first use of it panics.
\<close>

definition use_int :: "int option \<Rightarrow> int outcome" where
  "use_int r = (case r of Some n \<Rightarrow> Ok n | None \<Rightarrow> Panic)"

lemma use_int_eq_Ok [simp]: "use_int r = Ok n \<longleftrightarrow> r = Some n"
  by (cases r) (auto simp: use_int_def)

lemma use_int_Some [simp]: "use_int (Some n) = Ok n"
  by simp

section \<open>Addresses\<close>

type_synonym addr = bytes

record addr_lib =
  ValAddressFromBech32 :: "string \<Rightarrow> addr outcome"
  AccAddressFromBech32 :: "string \<Rightarrow> addr outcome"
  ValAddress_String :: "addr \<Rightarrow> string"
  AccAddress_String :: "addr \<Rightarrow> string"
  MustLengthPrefix :: "bytes \<Rightarrow> bytes outcome"
  NewModuleAddress :: "string \<Rightarrow> addr"

definition valid_addr :: "addr \<Rightarrow> bool" where
  "valid_addr a \<longleftrightarrow> a \<noteq> [] \<and> length a \<le> 255"

definition addr_laws :: "addr_lib \<Rightarrow> bool" where
  "addr_laws A \<longleftrightarrow>
     (\<forall>a. valid_addr a \<longrightarrow> ValAddressFromBech32 A (ValAddress_String A a) = Ok a) \<and>
     (\<forall>a. valid_addr a \<longrightarrow> AccAddressFromBech32 A (AccAddress_String A a) = Ok a) \<and>
     (\<forall>s a. ValAddressFromBech32 A s = Ok a \<longrightarrow> valid_addr a) \<and>
     (\<forall>s a. AccAddressFromBech32 A s = Ok a \<longrightarrow> valid_addr a) \<and>
     (\<forall>s. ValAddressFromBech32 A s \<noteq> Panic) \<and>
     (\<forall>s. AccAddressFromBech32 A s \<noteq> Panic) \<and>
     (\<forall>a. valid_addr a \<longrightarrow> MustLengthPrefix A a = Ok (byte (int (length a)) # a))"

definition ErrInvalidAddress :: error where
  "ErrInvalidAddress = SdkError ''invalid address''"

text \<open>\<open>if _, err := f(s); err != nil then return ErrInvalidAddress.Wrap\<close>.\<close>

definition require_address :: "addr outcome \<Rightarrow> unit outcome" where
  "require_address r = (case r of Ok _ \<Rightarrow> Ok () | Err _ \<Rightarrow> Err ErrInvalidAddress | Panic \<Rightarrow> Panic)"

lemma require_address_Ok [simp]: "require_address r = Ok u \<longleftrightarrow> (\<exists>a. r = Ok a)"
  by (cases r) (auto simp: require_address_def)

lemma val_addr_roundtrip: "addr_laws A \<Longrightarrow> valid_addr a \<Longrightarrow> ValAddressFromBech32 A (ValAddress_String A a) = Ok a"
  unfolding addr_laws_def by blast

lemma acc_addr_roundtrip: "addr_laws A \<Longrightarrow> valid_addr a \<Longrightarrow> AccAddressFromBech32 A (AccAddress_String A a) = Ok a"
  unfolding addr_laws_def by blast

lemma val_addr_valid: "addr_laws A \<Longrightarrow> ValAddressFromBech32 A s = Ok a \<Longrightarrow> valid_addr a"
  unfolding addr_laws_def by blast

lemma acc_addr_valid: "addr_laws A \<Longrightarrow> AccAddressFromBech32 A s = Ok a \<Longrightarrow> valid_addr a"
  unfolding addr_laws_def by blast

lemma val_addr_no_panic: "addr_laws A \<Longrightarrow> ValAddressFromBech32 A s \<noteq> Panic"
  unfolding addr_laws_def by blast

lemma acc_addr_no_panic: "addr_laws A \<Longrightarrow> AccAddressFromBech32 A s \<noteq> Panic"
  unfolding addr_laws_def by blast

lemma MustLengthPrefix_eq: "addr_laws A \<Longrightarrow> valid_addr a \<Longrightarrow> MustLengthPrefix A a = Ok (byte (int (length a)) # a)"
  unfolding addr_laws_def by blast

section \<open>The standard-time codec\<close>

record time_lib =
  StdTimeMarshalTo :: "time \<Rightarrow> bytes outcome"
  SizeOfStdTime :: "time \<Rightarrow> nat"
  StdTimeUnmarshal :: "bytes \<Rightarrow> time outcome"

text \<open>The times a protobuf timestamp can hold: years 1 to 9999.\<close>

definition valid_time :: "time \<Rightarrow> bool" where
  "valid_time t \<longleftrightarrow> zero_time \<le> t \<and> t < 253402300800 * 1000000000"

definition time_laws :: "time_lib \<Rightarrow> bool" where
  "time_laws T \<longleftrightarrow>
     (\<forall>t. valid_time t \<longrightarrow> (\<exists>bz. StdTimeMarshalTo T t = Ok bz \<and> length bz = SizeOfStdTime T t \<and>
        length bz < 128 \<and> StdTimeUnmarshal T bz = Ok t))"

lemma time_lawsD:
  assumes "time_laws T" and "valid_time t"
  obtains bz where "StdTimeMarshalTo T t = Ok bz" and "length bz = SizeOfStdTime T t"
    and "length bz < 128" and "StdTimeUnmarshal T bz = Ok t"
  using assms unfolding time_laws_def by blast

section \<open>The key/value store\<close>

text \<open>
  \<open>'s\<close> is the state of one module's store. \<open>Iterator\<close> and \<open>ReverseIterator\<close> are given by
  the entries they visit, in order.
\<close>

record 's kv_lib =
  StoreGet :: "'s \<Rightarrow> bytes \<Rightarrow> bytes option outcome"
  StoreHas :: "'s \<Rightarrow> bytes \<Rightarrow> bool outcome"
  StoreSet :: "'s \<Rightarrow> bytes \<Rightarrow> bytes \<Rightarrow> 's outcome"
  StoreDelete :: "'s \<Rightarrow> bytes \<Rightarrow> 's outcome"
  StoreIterator :: "'s \<Rightarrow> bytes \<Rightarrow> bytes \<Rightarrow> (bytes \<times> bytes) list outcome"
  StoreReverseIterator :: "'s \<Rightarrow> bytes \<Rightarrow> bytes \<Rightarrow> (bytes \<times> bytes) list outcome"
  PrefixEndBytes :: "bytes \<Rightarrow> bytes"

text \<open>The entries of a store whose keys have a prefix, in ascending key order.\<close>

definition prefix_entries :: "(bytes \<rightharpoonup> bytes) \<Rightarrow> bytes \<Rightarrow> (bytes \<times> bytes) list" where
  "prefix_entries m p =
     map (\<lambda>k. (k, the (m k))) (sorted_list_of_set {k \<in> dom m. prefix p k})"

text \<open>The store refuses (by a panic) an empty key and keys or values beyond its size limits.\<close>

definition valid_key :: "bytes \<Rightarrow> bool" where
  "valid_key k \<longleftrightarrow> k \<noteq> [] \<and> length k < 2 ^ 17"

definition valid_value :: "bytes \<Rightarrow> bool" where
  "valid_value v \<longleftrightarrow> length v < 2 ^ 31"

definition kv_laws :: "'s kv_lib \<Rightarrow> ('s \<Rightarrow> bytes \<rightharpoonup> bytes) \<Rightarrow> bool" where
  "kv_laws K view \<longleftrightarrow>
     (\<forall>s k. valid_key k \<longrightarrow> StoreGet K s k = Ok (view s k)) \<and>
     (\<forall>s k. valid_key k \<longrightarrow> StoreHas K s k = Ok (view s k \<noteq> None)) \<and>
     (\<forall>s k v. valid_key k \<longrightarrow> valid_value v \<longrightarrow>
        (\<exists>s'. StoreSet K s k v = Ok s' \<and> view s' = (view s)(k \<mapsto> v))) \<and>
     (\<forall>s k. valid_key k \<longrightarrow> (\<exists>s'. StoreDelete K s k = Ok s' \<and> view s' = (view s)(k := None))) \<and>
     (\<forall>s. finite (dom (view s))) \<and>
     (\<forall>s. \<forall>k\<in>dom (view s). valid_key k) \<and>
     (\<forall>s p. p \<noteq> [] \<longrightarrow>
        StoreIterator K s p (PrefixEndBytes K p) = Ok (prefix_entries (view s) p)) \<and>
     (\<forall>s p. p \<noteq> [] \<longrightarrow>
        StoreReverseIterator K s p (PrefixEndBytes K p) = Ok (rev (prefix_entries (view s) p)))"

lemma StoreGet_eq: "kv_laws K view \<Longrightarrow> valid_key k \<Longrightarrow> StoreGet K s k = Ok (view s k)"
  by (simp add: kv_laws_def)

lemma StoreHas_eq: "kv_laws K view \<Longrightarrow> valid_key k \<Longrightarrow> StoreHas K s k = Ok (view s k \<noteq> None)"
  by (simp add: kv_laws_def)

lemma StoreSet_ex: "kv_laws K view \<Longrightarrow> valid_key k \<Longrightarrow> valid_value v \<Longrightarrow>
    \<exists>s'. StoreSet K s k v = Ok s' \<and> view s' = (view s)(k \<mapsto> v)"
  by (simp add: kv_laws_def)

lemma StoreDelete_ex: "kv_laws K view \<Longrightarrow> valid_key k \<Longrightarrow>
    \<exists>s'. StoreDelete K s k = Ok s' \<and> view s' = (view s)(k := None)"
  by (simp add: kv_laws_def)

lemma view_finite: "kv_laws K view \<Longrightarrow> finite (dom (view s))"
  by (simp add: kv_laws_def)

lemma view_valid_key:
  assumes "kv_laws K view" and "view s k = Some v"
  shows "valid_key k"
proof -
  have "\<forall>s. \<forall>k\<in>dom (view s). valid_key k" using assms(1) by (simp add: kv_laws_def)
  then show ?thesis using assms(2) by (blast intro: domI)
qed

lemma StoreIterator_eq: "kv_laws K view \<Longrightarrow> p \<noteq> [] \<Longrightarrow> StoreIterator K s p (PrefixEndBytes K p) = Ok (prefix_entries (view s) p)"
  by (simp add: kv_laws_def)

lemma StoreReverseIterator_eq: "kv_laws K view \<Longrightarrow> p \<noteq> [] \<Longrightarrow> StoreReverseIterator K s p (PrefixEndBytes K p) = Ok (rev (prefix_entries (view s) p))"
  by (simp add: kv_laws_def)

lemma prefix_entries_iff:
  "finite (dom m) \<Longrightarrow> (k, v) \<in> set (prefix_entries m p) \<longleftrightarrow> m k = Some v \<and> prefix p k"
  by (auto simp: prefix_entries_def)

lemma prefix_entries_keys: "finite (dom m) \<Longrightarrow> fst ` set (prefix_entries m p) = {k \<in> dom m. prefix p k}"
  by (simp add: prefix_entries_def image_image)

lemma prefix_entries_sorted: "sorted_wrt (<) (map fst (prefix_entries m p))"
  by (simp add: prefix_entries_def comp_def)

lemma prefix_entries_distinct: "distinct (map fst (prefix_entries m p))"
  by (simp add: prefix_entries_def comp_def)

section \<open>Keepers of other modules\<close>

text \<open>
  \<open>'x\<close> is the state of the SDK modules (staking, slashing, bank, distribution). The bank's
  \<open>SendCoins\<close> family runs the send restriction appended in \<open>app.go\<close>, passed as an
  argument: from the sender, the recipient and the coins it gives the recipient to use or
  an error. A call that returns an error leaves the state as it was.
\<close>

datatype bond_status = Unspecified | Unbonded | Unbonding | Bonded

record validator =
  OperatorAddress :: string
  val_Status :: bond_status
  ConsensusPubkey :: bytes

type_synonym coin = "string \<times> int"
type_synonym send_restriction = "addr \<Rightarrow> addr \<Rightarrow> coin list \<Rightarrow> addr outcome"

record 'x ext_lib =
  GetValidator :: "'x \<Rightarrow> addr \<Rightarrow> validator outcome"
  GetLastValidatorPower :: "'x \<Rightarrow> addr \<Rightarrow> int outcome"
  GetBondedValidatorsByPower :: "'x \<Rightarrow> validator list outcome"
  GetLastTotalPower :: "'x \<Rightarrow> int outcome"
  GetConsAddr :: "validator \<Rightarrow> addr option outcome"
  Slash :: "'x \<Rightarrow> addr \<Rightarrow> dec \<Rightarrow> int \<Rightarrow> int \<Rightarrow> 'x outcome"
  GetModuleAddress :: "string \<Rightarrow> addr"
  GetBalance :: "'x \<Rightarrow> addr \<Rightarrow> string \<Rightarrow> int"
  GetSupply :: "'x \<Rightarrow> string \<Rightarrow> int"
  MintCoins :: "'x \<Rightarrow> string \<Rightarrow> coin list \<Rightarrow> 'x outcome"
  BurnCoins :: "'x \<Rightarrow> string \<Rightarrow> coin list \<Rightarrow> 'x outcome"
  SendCoins :: "send_restriction \<Rightarrow> 'x \<Rightarrow> addr \<Rightarrow> addr \<Rightarrow> coin list \<Rightarrow> 'x outcome"
  SendCoinsFromAccountToModule ::
    "send_restriction \<Rightarrow> 'x \<Rightarrow> addr \<Rightarrow> string \<Rightarrow> coin list \<Rightarrow> 'x outcome"
  SendCoinsFromModuleToAccount ::
    "send_restriction \<Rightarrow> 'x \<Rightarrow> string \<Rightarrow> addr \<Rightarrow> coin list \<Rightarrow> 'x outcome"
  SendCoinsFromModuleToModule ::
    "send_restriction \<Rightarrow> 'x \<Rightarrow> string \<Rightarrow> string \<Rightarrow> coin list \<Rightarrow> 'x outcome"
  FundCommunityPool :: "send_restriction \<Rightarrow> 'x \<Rightarrow> coin list \<Rightarrow> addr \<Rightarrow> 'x outcome"
  NewCoin :: "string \<Rightarrow> int \<Rightarrow> coin outcome"
  NewCoins :: "coin list \<Rightarrow> coin list outcome"
  coins_String :: "coin list \<Rightarrow> string"

text \<open>
  What the bank documents. \<open>moved\<close> is a transfer of one coin; a send asks the restriction
  first, which may redirect it. The module accounts are those of \<open>app_config.go\<close>
  that the program uses.
\<close>

definition module_accounts :: "string list" where
  "module_accounts = [''fee_collector'', ''distribution'', ''fees'', ''rwa'']"

definition moved :: "'x ext_lib \<Rightarrow> 'x \<Rightarrow> 'x \<Rightarrow> addr \<Rightarrow> addr \<Rightarrow> string \<Rightarrow> int \<Rightarrow> bool" where
  "moved B x x' from to d a \<longleftrightarrow> a \<le> GetBalance B x from d \<and>
     (\<forall>k e. GetBalance B x' k e = GetBalance B x k e
        - (if k = from \<and> e = d then a else 0) + (if k = to \<and> e = d then a else 0)) \<and>
     (\<forall>e. GetSupply B x' e = GetSupply B x e)"

text \<open>\<open>issued B x x' k d a\<close>: the account \<open>k\<close> and the supply of \<open>d\<close> grew by \<open>a\<close> (shrank if negative).\<close>

definition issued :: "'x ext_lib \<Rightarrow> 'x \<Rightarrow> 'x \<Rightarrow> addr \<Rightarrow> string \<Rightarrow> int \<Rightarrow> bool" where
  "issued B x x' k d a \<longleftrightarrow>
     (\<forall>i e. GetBalance B x' i e = GetBalance B x i e + (if i = k \<and> e = d then a else 0)) \<and>
     (\<forall>e. GetSupply B x' e = GetSupply B x e + (if e = d then a else 0))"

definition coin_laws :: "'x ext_lib \<Rightarrow> bool" where
  "coin_laws B \<longleftrightarrow>
     (\<forall>d a c. NewCoin B d a = Ok c \<longrightarrow> c = (d, a) \<and> 0 \<le> a) \<and>
     (\<forall>a. 0 \<le> a \<longrightarrow> NewCoin B ''uvtx'' a = Ok (''uvtx'', a)) \<and>
     (\<forall>d a cs. NewCoins B [(d, a)] = Ok cs \<longrightarrow> cs = (if a = 0 then [] else [(d, a)])) \<and>
     (\<forall>a. 0 \<le> a \<longrightarrow> NewCoins B [(''uvtx'', a)] = Ok (if a = 0 then [] else [(''uvtx'', a)])) \<and>
     (\<forall>x k d. 0 \<le> GetBalance B x k d \<and> GetBalance B x k d \<le> GetSupply B x d) \<and>
     (\<forall>m\<in>set module_accounts. \<forall>n\<in>set module_accounts.
        GetModuleAddress B m = GetModuleAddress B n \<longrightarrow> m = n)"

definition send_laws :: "'x ext_lib \<Rightarrow> bool" where
  "send_laws B \<longleftrightarrow>
     (\<forall>r x from to d a x'. SendCoins B r x from to [(d, a)] = Ok x' \<longrightarrow>
        (\<exists>to'. r from to [(d, a)] = Ok to' \<and> moved B x x' from to' d a)) \<and>
     (\<forall>r x from n d a x'. SendCoinsFromAccountToModule B r x from n [(d, a)] = Ok x' \<longrightarrow>
        (\<exists>to'. r from (GetModuleAddress B n) [(d, a)] = Ok to' \<and> moved B x x' from to' d a)) \<and>
     (\<forall>r x n to d a x'. SendCoinsFromModuleToAccount B r x n to [(d, a)] = Ok x' \<longrightarrow>
        (\<exists>to'. r (GetModuleAddress B n) to [(d, a)] = Ok to' \<and> moved B x x' (GetModuleAddress B n) to' d a)) \<and>
     (\<forall>r x m n d a x'. SendCoinsFromModuleToModule B r x m n [(d, a)] = Ok x' \<longrightarrow>
        (\<exists>to'. r (GetModuleAddress B m) (GetModuleAddress B n) [(d, a)] = Ok to' \<and>
               moved B x x' (GetModuleAddress B m) to' d a)) \<and>
     (\<forall>r x m n d a to'. m \<in> set module_accounts \<longrightarrow> n \<in> set module_accounts \<longrightarrow> 0 < a \<longrightarrow>
        a \<le> GetBalance B x (GetModuleAddress B m) d \<longrightarrow>
        r (GetModuleAddress B m) (GetModuleAddress B n) [(d, a)] = Ok to' \<longrightarrow>
        (\<exists>x'. SendCoinsFromModuleToModule B r x m n [(d, a)] = Ok x')) \<and>
     (\<forall>r x from d a x'. FundCommunityPool B r x [(d, a)] from = Ok x' \<longrightarrow>
        (\<exists>to'. r from (GetModuleAddress B ''distribution'') [(d, a)] = Ok to' \<and> moved B x x' from to' d a))"

definition issue_laws :: "'x ext_lib \<Rightarrow> bool" where
  "issue_laws B \<longleftrightarrow>
     (\<forall>x n d a x'. MintCoins B x n [(d, a)] = Ok x' \<longrightarrow> issued B x x' (GetModuleAddress B n) d a) \<and>
     (\<forall>x n d a x'. BurnCoins B x n [(d, a)] = Ok x' \<longrightarrow>
        a \<le> GetBalance B x (GetModuleAddress B n) d \<and> issued B x x' (GetModuleAddress B n) d (- a)) \<and>
     (\<forall>x d a. 0 < a \<longrightarrow> a \<le> GetBalance B x (GetModuleAddress B ''fees'') d \<longrightarrow>
        (\<exists>x'. BurnCoins B x ''fees'' [(d, a)] = Ok x'))"

definition bank_laws :: "'x ext_lib \<Rightarrow> bool" where
  "bank_laws B \<longleftrightarrow> coin_laws B \<and> send_laws B \<and> issue_laws B"

lemma bank_lawsD:
  assumes "bank_laws B"
  shows bank_coin: "coin_laws B" and bank_send: "send_laws B" and bank_issue: "issue_laws B"
  using assms by (simp_all add: bank_laws_def)

lemma NewCoin_eq:
  assumes "bank_laws B" and "NewCoin B d a = Ok c"
  shows "c = (d, a) \<and> 0 \<le> a"
proof -
  have "\<forall>d a c. NewCoin B d a = Ok c \<longrightarrow> c = (d, a) \<and> 0 \<le> a"
    using bank_coin [OF assms(1)] unfolding coin_laws_def by (elim conjE)
  then show ?thesis using assms(2-) by blast
qed

lemma NewCoin_uvtx:
  assumes "bank_laws B" and "0 \<le> a"
  shows "NewCoin B ''uvtx'' a = Ok (''uvtx'', a)"
proof -
  have "\<forall>a. 0 \<le> a \<longrightarrow> NewCoin B ''uvtx'' a = Ok (''uvtx'', a)"
    using bank_coin [OF assms(1)] unfolding coin_laws_def by (elim conjE)
  then show ?thesis using assms(2-) by blast
qed

lemma NewCoins_eq:
  assumes "bank_laws B" and "NewCoins B [(d, a)] = Ok cs"
  shows "cs = (if a = 0 then [] else [(d, a)])"
proof -
  have "\<forall>d a cs. NewCoins B [(d, a)] = Ok cs \<longrightarrow> cs = (if a = 0 then [] else [(d, a)])"
    using bank_coin [OF assms(1)] unfolding coin_laws_def by (elim conjE)
  then show ?thesis using assms(2-) by blast
qed

lemma NewCoins_uvtx:
  assumes "bank_laws B" and "0 \<le> a"
  shows "NewCoins B [(''uvtx'', a)] = Ok (if a = 0 then [] else [(''uvtx'', a)])"
proof -
  have "\<forall>a. 0 \<le> a \<longrightarrow> NewCoins B [(''uvtx'', a)] = Ok (if a = 0 then [] else [(''uvtx'', a)])"
    using bank_coin [OF assms(1)] unfolding coin_laws_def by (elim conjE)
  then show ?thesis using assms(2-) by blast
qed

lemma GetBalance_range:
  assumes "bank_laws B"
  shows "0 \<le> GetBalance B x k d" "GetBalance B x k d \<le> GetSupply B x d"
proof -
  have *: "\<forall>x k d. 0 \<le> GetBalance B x k d \<and> GetBalance B x k d \<le> GetSupply B x d"
    using bank_coin [OF assms(1)] unfolding coin_laws_def by (elim conjE)
  show "0 \<le> GetBalance B x k d" "GetBalance B x k d \<le> GetSupply B x d" using * by blast+
qed

lemma module_address_inject:
  assumes "bank_laws B" and "m \<in> set module_accounts" and "n \<in> set module_accounts"
  shows "GetModuleAddress B m = GetModuleAddress B n \<longleftrightarrow> m = n"
proof -
  have "\<forall>m\<in>set module_accounts. \<forall>n\<in>set module_accounts.
      GetModuleAddress B m = GetModuleAddress B n \<longrightarrow> m = n"
    using bank_coin [OF assms(1)] unfolding coin_laws_def by (elim conjE)
  then show ?thesis using assms(2-) by blast
qed

lemma SendCoins_moved:
  assumes "bank_laws B" and "SendCoins B r x from to [(d, a)] = Ok x'"
  obtains to' where "r from to [(d, a)] = Ok to'" and "moved B x x' from to' d a"
proof -
  have "\<forall>r x from to d a x'. SendCoins B r x from to [(d, a)] = Ok x' \<longrightarrow>
      (\<exists>to'. r from to [(d, a)] = Ok to' \<and> moved B x x' from to' d a)"
    using bank_send [OF assms(1)] unfolding send_laws_def by (rule conjunct1)
  then show thesis using assms(2) that by blast
qed

lemma SendCoinsFromAccountToModule_moved:
  assumes "bank_laws B" and "SendCoinsFromAccountToModule B r x from n [(d, a)] = Ok x'"
  obtains to' where "r from (GetModuleAddress B n) [(d, a)] = Ok to'" and "moved B x x' from to' d a"
proof -
  have "\<forall>r x from n d a x'. SendCoinsFromAccountToModule B r x from n [(d, a)] = Ok x' \<longrightarrow>
      (\<exists>to'. r from (GetModuleAddress B n) [(d, a)] = Ok to' \<and> moved B x x' from to' d a)"
    using bank_send [OF assms(1)] unfolding send_laws_def by (elim conjE)
  then show thesis using assms(2) that by blast
qed

lemma SendCoinsFromModuleToAccount_moved:
  assumes "bank_laws B" and "SendCoinsFromModuleToAccount B r x n to [(d, a)] = Ok x'"
  obtains to' where "r (GetModuleAddress B n) to [(d, a)] = Ok to'"
    and "moved B x x' (GetModuleAddress B n) to' d a"
proof -
  have "\<forall>r x n to d a x'. SendCoinsFromModuleToAccount B r x n to [(d, a)] = Ok x' \<longrightarrow>
      (\<exists>to'. r (GetModuleAddress B n) to [(d, a)] = Ok to' \<and> moved B x x' (GetModuleAddress B n) to' d a)"
    using bank_send [OF assms(1)] unfolding send_laws_def by (elim conjE)
  then show thesis using assms(2) that by blast
qed

lemma SendCoinsFromModuleToModule_moved:
  assumes "bank_laws B" and "SendCoinsFromModuleToModule B r x m n [(d, a)] = Ok x'"
  obtains to' where "r (GetModuleAddress B m) (GetModuleAddress B n) [(d, a)] = Ok to'"
    and "moved B x x' (GetModuleAddress B m) to' d a"
proof -
  have "\<forall>r x m n d a x'. SendCoinsFromModuleToModule B r x m n [(d, a)] = Ok x' \<longrightarrow>
      (\<exists>to'. r (GetModuleAddress B m) (GetModuleAddress B n) [(d, a)] = Ok to' \<and>
        moved B x x' (GetModuleAddress B m) to' d a)"
    using bank_send [OF assms(1)] unfolding send_laws_def by (elim conjE)
  then show thesis using assms(2) that by blast
qed

lemma SendCoinsFromModuleToModule_succeeds:
  assumes "bank_laws B" and "m \<in> set module_accounts" and "n \<in> set module_accounts" and "0 < a"
    and "a \<le> GetBalance B x (GetModuleAddress B m) d"
    and "r (GetModuleAddress B m) (GetModuleAddress B n) [(d, a)] = Ok to'"
  shows "\<exists>x'. SendCoinsFromModuleToModule B r x m n [(d, a)] = Ok x'"
proof -
  have "\<forall>r x m n d a to'. m \<in> set module_accounts \<longrightarrow> n \<in> set module_accounts \<longrightarrow> 0 < a \<longrightarrow>
        a \<le> GetBalance B x (GetModuleAddress B m) d \<longrightarrow>
        r (GetModuleAddress B m) (GetModuleAddress B n) [(d, a)] = Ok to' \<longrightarrow>
        (\<exists>x'. SendCoinsFromModuleToModule B r x m n [(d, a)] = Ok x')"
    using bank_send [OF assms(1)] unfolding send_laws_def by (elim conjE)
  then show ?thesis using assms(2-) by blast
qed

lemma FundCommunityPool_moved:
  assumes "bank_laws B" and "FundCommunityPool B r x [(d, a)] from = Ok x'"
  obtains to' where "r from (GetModuleAddress B ''distribution'') [(d, a)] = Ok to'"
    and "moved B x x' from to' d a"
proof -
  have "\<forall>r x from d a x'. FundCommunityPool B r x [(d, a)] from = Ok x' \<longrightarrow>
      (\<exists>to'. r from (GetModuleAddress B ''distribution'') [(d, a)] = Ok to' \<and> moved B x x' from to' d a)"
    using bank_send [OF assms(1)] unfolding send_laws_def by (elim conjE)
  then show thesis using assms(2) that by blast
qed

lemma MintCoins_issued:
  assumes "bank_laws B" and "MintCoins B x n [(d, a)] = Ok x'"
  shows "issued B x x' (GetModuleAddress B n) d a"
proof -
  have "\<forall>x n d a x'. MintCoins B x n [(d, a)] = Ok x' \<longrightarrow> issued B x x' (GetModuleAddress B n) d a"
    using bank_issue [OF assms(1)] unfolding issue_laws_def by (elim conjE)
  then show ?thesis using assms(2-) by blast
qed

lemma BurnCoins_issued:
  assumes "bank_laws B" and "BurnCoins B x n [(d, a)] = Ok x'"
  shows "a \<le> GetBalance B x (GetModuleAddress B n) d \<and> issued B x x' (GetModuleAddress B n) d (- a)"
proof -
  have "\<forall>x n d a x'. BurnCoins B x n [(d, a)] = Ok x' \<longrightarrow>
      a \<le> GetBalance B x (GetModuleAddress B n) d \<and> issued B x x' (GetModuleAddress B n) d (- a)"
    using bank_issue [OF assms(1)] unfolding issue_laws_def by (elim conjE)
  then show ?thesis using assms(2-) by blast
qed

lemma BurnCoins_fees_succeeds:
  assumes "bank_laws B" and "0 < a" and "a \<le> GetBalance B x (GetModuleAddress B ''fees'') d"
  shows "\<exists>x'. BurnCoins B x ''fees'' [(d, a)] = Ok x'"
proof -
  have "\<forall>x d a. 0 < a \<longrightarrow> a \<le> GetBalance B x (GetModuleAddress B ''fees'') d \<longrightarrow>
      (\<exists>x'. BurnCoins B x ''fees'' [(d, a)] = Ok x')"
    using bank_issue [OF assms(1)] unfolding issue_laws_def by (elim conjE)
  then show ?thesis using assms(2-) by blast
qed

text \<open>
  What staking and slashing document. \<open>LastValidatorPower\<close> is a snapshot that staking takes at
  the end of a block: slashing does not change it, and the total is at least the sum of any
  distinct validators' powers.
\<close>

definition power_of :: "'x ext_lib \<Rightarrow> 'x \<Rightarrow> addr \<Rightarrow> int" where
  "power_of B x a = (case GetLastValidatorPower B x a of Ok p \<Rightarrow> p | _ \<Rightarrow> 0)"

definition staking_state :: "'x ext_lib \<Rightarrow> 'x \<Rightarrow> int \<Rightarrow> bool" where
  "staking_state B x t \<longleftrightarrow> GetLastTotalPower B x = Ok t \<and> t < 2 ^ 63 \<and>
     (\<forall>a. 0 \<le> power_of B x a) \<and>
     (\<forall>as. distinct as \<longrightarrow> sum_list (map (power_of B x) as) \<le> t)"

definition slash_laws :: "'x ext_lib \<Rightarrow> bool" where
  "slash_laws B \<longleftrightarrow>
     (\<forall>x a. GetLastValidatorPower B x a \<noteq> Panic) \<and>
     (\<forall>v. GetConsAddr B v \<noteq> Panic) \<and>
     (\<forall>x k r p h. 0 \<le> r \<longrightarrow> Slash B x k r p h \<noteq> Panic) \<and>
     (\<forall>x k r p h x'. Slash B x k r p h = Ok x' \<longrightarrow>
        GetLastValidatorPower B x' = GetLastValidatorPower B x \<and> GetLastTotalPower B x' = GetLastTotalPower B x)"

lemma slash_power:
  assumes "slash_laws B" and "Slash B x k r p h = Ok x'"
  shows "GetLastValidatorPower B x' = GetLastValidatorPower B x" "GetLastTotalPower B x' = GetLastTotalPower B x"
  using assms unfolding slash_laws_def by blast+

lemma slash_no_panic: "slash_laws B \<Longrightarrow> 0 \<le> r \<Longrightarrow> Slash B x k r p h \<noteq> Panic"
  unfolding slash_laws_def by blast

lemma power_no_panic: "slash_laws B \<Longrightarrow> GetLastValidatorPower B x a \<noteq> Panic"
  unfolding slash_laws_def by blast

lemma cons_no_panic: "slash_laws B \<Longrightarrow> GetConsAddr B v \<noteq> Panic"
  unfolding slash_laws_def by blast

lemma staking_stateD:
  assumes "staking_state B x t"
  shows staking_total: "GetLastTotalPower B x = Ok t" and staking_total_bound: "t < 2 ^ 63"
    and staking_power_nonneg: "0 \<le> power_of B x a"
    and staking_power_sum: "distinct as \<Longrightarrow> sum_list (map (power_of B x) as) \<le> t"
  using assms by (auto simp: staking_state_def)

lemma staking_state_cong:
  assumes "GetLastValidatorPower B x' = GetLastValidatorPower B x" and "GetLastTotalPower B x' = GetLastTotalPower B x"
  shows "staking_state B x' t \<longleftrightarrow> staking_state B x t"
proof -
  have "power_of B x' = power_of B x" by (rule ext) (simp add: power_of_def assms(1))
  then show ?thesis by (simp add: staking_state_def assms(2))
qed

text \<open>
  What \<open>x/rwa\<close> relies on of the interface \<open>OracleKeeper\<close>
  (\<open>x/rwa/types/expected_keepers.go\<close>): a price that is answered is a decimal of the library.
\<close>

locale price_feed =
  fixes M :: math_lib and getPrice :: "string \<Rightarrow> 'c \<Rightarrow> dec outcome"
  assumes price_fits: "math_laws M \<Longrightarrow> getPrice pair c = Ok p \<Longrightarrow> dec_fits p"
begin

lemma price_text: "math_laws M \<Longrightarrow> getPrice pair c = Ok p \<Longrightarrow>
    length (dec_String M p) < 128 \<and> LegacyNewDecFromStr M (dec_String M p) = Ok p"
  using price_fits dec_String_short dec_roundtrip by blast

end

section \<open>The context and the environment of a keeper\<close>

datatype event = Event string "(string \<times> string) list"

record ('s, 'x) ctx =
  multistore :: "string \<Rightarrow> 's"
  ext :: 'x
  BlockHeight :: int
  BlockTime :: time
  events :: "event list"

definition OpenKVStore :: "('s, 'x) ctx \<Rightarrow> string \<Rightarrow> 's" where
  "OpenKVStore c key = multistore c key"

definition set_store :: "string \<Rightarrow> 's \<Rightarrow> ('s, 'x) ctx \<Rightarrow> ('s, 'x) ctx" where
  "set_store key s c = c\<lparr>multistore := (multistore c)(key := s)\<rparr>"

definition EmitEvent :: "event \<Rightarrow> ('s, 'x) ctx \<Rightarrow> ('s, 'x) ctx" where
  "EmitEvent e c = c\<lparr>events := events c @ [e]\<rparr>"

record ('s, 'x) env =
  env_math :: math_lib
  env_addr :: addr_lib
  env_time :: time_lib
  env_kv :: "'s kv_lib"
  env_keepers :: "'x ext_lib"
  env_authority :: string
  env_has_staking :: bool

text \<open>
  \<open>store := k.storeService.OpenKVStore(ctx)\<close> followed by one call on \<open>store\<close>: the calls
  every keeper is made of. \<open>store_scan\<close> is \<open>store.Iterator(p, PrefixEndBytes(p))\<close>.
\<close>

definition store_get :: "('s, 'x) env \<Rightarrow> string \<Rightarrow> bytes \<Rightarrow> ('s, 'x) ctx \<Rightarrow> bytes option outcome" where
  "store_get L name key c = StoreGet (env_kv L) (OpenKVStore c name) key"

definition store_has :: "('s, 'x) env \<Rightarrow> string \<Rightarrow> bytes \<Rightarrow> ('s, 'x) ctx \<Rightarrow> bool outcome" where
  "store_has L name key c = StoreHas (env_kv L) (OpenKVStore c name) key"

definition store_set :: "('s, 'x) env \<Rightarrow> string \<Rightarrow> bytes \<Rightarrow> bytes \<Rightarrow> ('s, 'x) ctx \<Rightarrow> ('s, 'x) ctx outcome" where
  "store_set L name key bz c =
     obind (StoreSet (env_kv L) (OpenKVStore c name) key bz) (\<lambda>s. Ok (set_store name s c))"

definition store_delete :: "('s, 'x) env \<Rightarrow> string \<Rightarrow> bytes \<Rightarrow> ('s, 'x) ctx \<Rightarrow> ('s, 'x) ctx outcome" where
  "store_delete L name key c =
     obind (StoreDelete (env_kv L) (OpenKVStore c name) key) (\<lambda>s. Ok (set_store name s c))"

definition store_scan :: "('s, 'x) env \<Rightarrow> string \<Rightarrow> bytes \<Rightarrow> ('s, 'x) ctx \<Rightarrow> (bytes \<times> bytes) list outcome" where
  "store_scan L name p c = StoreIterator (env_kv L) (OpenKVStore c name) p (PrefixEndBytes (env_kv L) p)"

definition store_scan_rev :: "('s, 'x) env \<Rightarrow> string \<Rightarrow> bytes \<Rightarrow> ('s, 'x) ctx \<Rightarrow> (bytes \<times> bytes) list outcome" where
  "store_scan_rev L name p c =
     StoreReverseIterator (env_kv L) (OpenKVStore c name) p (PrefixEndBytes (env_kv L) p)"

definition sdk_laws :: "('s, 'x) env \<Rightarrow> ('s \<Rightarrow> bytes \<rightharpoonup> bytes) \<Rightarrow> bool" where
  "sdk_laws L view \<longleftrightarrow> math_laws (env_math L) \<and> addr_laws (env_addr L) \<and>
     time_laws (env_time L) \<and> kv_laws (env_kv L) view"

lemma sdk_lawsD:
  assumes "sdk_laws L view"
  shows sdk_math: "math_laws (env_math L)" and sdk_addr: "addr_laws (env_addr L)"
    and sdk_time: "time_laws (env_time L)" and sdk_kv: "kv_laws (env_kv L) view"
  using assms by (auto simp: sdk_laws_def)

text \<open>What one module's store holds.\<close>

definition store_view :: "('s \<Rightarrow> bytes \<rightharpoonup> bytes) \<Rightarrow> string \<Rightarrow> ('s, 'x) ctx \<Rightarrow> bytes \<rightharpoonup> bytes" where
  "store_view view key c = view (OpenKVStore c key)"

lemma store_view_set_store [simp]:
  "store_view view key (set_store key' s c) = (if key = key' then view s else store_view view key c)"
  by (simp add: store_view_def set_store_def OpenKVStore_def)

lemma store_view_EmitEvent [simp]: "store_view view key (EmitEvent e c) = store_view view key c"
  by (simp add: store_view_def EmitEvent_def OpenKVStore_def)

lemma store_view_ext_update [simp]: "store_view view key (c\<lparr>ext := x\<rparr>) = store_view view key c"
  by (simp add: store_view_def OpenKVStore_def)

lemma set_store_fields [simp]:
  "ext (set_store key s c) = ext c" "BlockHeight (set_store key s c) = BlockHeight c"
  "BlockTime (set_store key s c) = BlockTime c" "events (set_store key s c) = events c"
  by (simp_all add: set_store_def)

lemma EmitEvent_fields [simp]:
  "ext (EmitEvent e c) = ext c" "BlockHeight (EmitEvent e c) = BlockHeight c"
  "BlockTime (EmitEvent e c) = BlockTime c" "events (EmitEvent e c) = events c @ [e]"
  by (simp_all add: EmitEvent_def)

text \<open>\<open>frame name c c'\<close>: from \<open>c\<close> to \<open>c'\<close> nothing changed but the store \<open>name\<close>.\<close>

definition frame :: "string \<Rightarrow> ('s, 'x) ctx \<Rightarrow> ('s, 'x) ctx \<Rightarrow> bool" where
  "frame name c c' \<longleftrightarrow> (\<forall>n. n \<noteq> name \<longrightarrow> multistore c' n = multistore c n) \<and> ext c' = ext c \<and>
     BlockHeight c' = BlockHeight c \<and> BlockTime c' = BlockTime c \<and> events c' = events c"

lemma frame_refl [simp]: "frame name c c"
  by (simp add: frame_def)

lemma frame_trans: "frame name c c' \<Longrightarrow> frame name c' c'' \<Longrightarrow> frame name c c''"
  by (simp add: frame_def)

lemma frame_set_store [simp]: "frame name c (set_store name s c)"
  by (simp add: frame_def set_store_def)

lemma frame_fields:
  assumes "frame name c c'"
  shows "ext c' = ext c" "BlockHeight c' = BlockHeight c" "BlockTime c' = BlockTime c"
    "events c' = events c"
  using assms by (simp_all add: frame_def)

lemma frame_store_view: "frame name c c' \<Longrightarrow> n \<noteq> name \<Longrightarrow> store_view view n c' = store_view view n c"
  by (simp add: frame_def store_view_def OpenKVStore_def)

lemma store_get_eq: "sdk_laws L view \<Longrightarrow> valid_key k \<Longrightarrow> store_get L name k c = Ok (store_view view name c k)"
  by (simp add: store_get_def store_view_def StoreGet_eq [OF sdk_kv])

lemma store_has_eq: "sdk_laws L view \<Longrightarrow> valid_key k \<Longrightarrow> store_has L name k c = Ok (store_view view name c k \<noteq> None)"
  by (simp add: store_has_def store_view_def StoreHas_eq [OF sdk_kv])

lemma store_set_ex:
  assumes "sdk_laws L view" and "valid_key k" and "valid_value v"
  shows "\<exists>c'. store_set L name k v c = Ok c' \<and> frame name c c' \<and>
    store_view view name c' = (store_view view name c)(k \<mapsto> v)"
proof -
  obtain s' where "StoreSet (env_kv L) (OpenKVStore c name) k v = Ok s'"
    and "view s' = (view (OpenKVStore c name))(k \<mapsto> v)"
    using StoreSet_ex [OF sdk_kv [OF assms(1)] assms(2,3)] by blast
  then show ?thesis by (simp add: store_set_def, simp add: store_view_def)
qed

lemma store_delete_ex:
  assumes "sdk_laws L view" and "valid_key k"
  shows "\<exists>c'. store_delete L name k c = Ok c' \<and> frame name c c' \<and>
    store_view view name c' = (store_view view name c)(k := None)"
proof -
  obtain s' where "StoreDelete (env_kv L) (OpenKVStore c name) k = Ok s'"
    and "view s' = (view (OpenKVStore c name))(k := None)"
    using StoreDelete_ex [OF sdk_kv [OF assms(1)] assms(2)] by blast
  then show ?thesis by (simp add: store_delete_def, simp add: store_view_def)
qed

lemma store_scan_eq: "sdk_laws L view \<Longrightarrow> p \<noteq> [] \<Longrightarrow> store_scan L name p c = Ok (prefix_entries (store_view view name c) p)"
  by (simp add: store_scan_def store_view_def StoreIterator_eq [OF sdk_kv])

lemma store_scan_rev_eq: "sdk_laws L view \<Longrightarrow> p \<noteq> [] \<Longrightarrow> store_scan_rev L name p c = Ok (rev (prefix_entries (store_view view name c) p))"
  by (simp add: store_scan_rev_def store_view_def StoreReverseIterator_eq [OF sdk_kv])

lemma store_view_finite: "sdk_laws L view \<Longrightarrow> finite (dom (store_view view name c))"
  by (simp add: store_view_def view_finite [OF sdk_kv])

lemma store_view_valid_key: "sdk_laws L view \<Longrightarrow> store_view view name c k = Some v \<Longrightarrow> valid_key k"
  unfolding store_view_def by (rule view_valid_key [OF sdk_kv])

lemma store_delete_all:
  assumes L: "sdk_laws L view" and keys: "\<And>k. k \<in> set keys \<Longrightarrow> valid_key k"
  shows "\<exists>c'. ofold (\<lambda>key. store_delete L name key) keys c = Ok c' \<and> frame name c c' \<and>
    store_view view name c' = (\<lambda>k. if k \<in> set keys then None else store_view view name c k)"
  using keys
proof (induction keys arbitrary: c)
  case (Cons k ks)
  obtain c1 where c1: "store_delete L name k c = Ok c1" "frame name c c1"
      "store_view view name c1 = (store_view view name c)(k := None)"
    using store_delete_ex [OF L] Cons.prems by (meson list.set_intros(1))
  obtain c2 where c2: "ofold (\<lambda>key. store_delete L name key) ks c1 = Ok c2" "frame name c1 c2"
      "store_view view name c2 = (\<lambda>k. if k \<in> set ks then None else store_view view name c1 k)"
    using Cons.IH Cons.prems by (meson list.set_intros(2))
  have "store_view view name c2 = (\<lambda>i. if i \<in> set (k # ks) then None else store_view view name c i)"
    by (rule ext) (simp add: c2(3) c1(3))
  then show ?case using c1 c2 frame_trans by fastforce
qed simp

text \<open>Scanning a prefix and deleting every key found empties it.\<close>

definition drop_prefix :: "bytes \<Rightarrow> (bytes \<rightharpoonup> 'v) \<Rightarrow> bytes \<rightharpoonup> 'v" where
  "drop_prefix p m = (\<lambda>k. if prefix p k then None else m k)"

lemma store_clear_prefix:
  assumes L: "sdk_laws L view" and p: "p \<noteq> []"
  shows "\<exists>c'. obind (store_scan L name p c) (\<lambda>es. ofold (\<lambda>key. store_delete L name key) (map fst es) c) = Ok c' \<and>
    frame name c c' \<and> store_view view name c' = drop_prefix p (store_view view name c)"
proof -
  define es where "es = prefix_entries (store_view view name c) p"
  have fin: "finite (dom (store_view view name c))" by (rule store_view_finite [OF L])
  have es: "set (map fst es) = {k \<in> dom (store_view view name c). prefix p k}"
    unfolding es_def set_map by (rule prefix_entries_keys [OF fin])
  have valid: "valid_key k" if "k \<in> set (map fst es)" for k
  proof -
    from that obtain v where "store_view view name c k = Some v" unfolding es by blast
    then show ?thesis by (rule store_view_valid_key [OF L])
  qed
  obtain c' where c': "ofold (\<lambda>key. store_delete L name key) (map fst es) c = Ok c'" "frame name c c'"
      "store_view view name c' = (\<lambda>k. if k \<in> set (map fst es) then None else store_view view name c k)"
    using store_delete_all [OF L valid, of "map fst es" name c] by blast
  have "store_view view name c' = drop_prefix p (store_view view name c)"
    unfolding c'(3) es drop_prefix_def by (rule ext) (simp, blast)
  then show ?thesis using c' by (simp add: store_scan_eq [OF L p] flip: es_def)
qed

end
