(* ===== verification/Reference.thy ===== *)
theory Reference
  imports Sdk
begin

text \<open>
  One concrete instance of every library the modules take as an argument, with the proof
  that it satisfies the documented laws: decimal arithmetic with real parsing and printing,
  prefix-tagged addresses, a fixed-width time codec, an association-list store and a small
  bank and staking state. It shows that the laws can hold together, and the concrete
  examples of the other theories run on it.
\<close>

section \<open>Decimal text\<close>

definition digit :: "nat \<Rightarrow> char" where
  "digit n = byte (48 + int (n mod 10))"

fun nat_digits :: "nat \<Rightarrow> string" where
  "nat_digits n = (if n < 10 then [digit n] else nat_digits (n div 10) @ [digit (n mod 10)])"

declare nat_digits.simps [simp del]

fun fixed_digits :: "nat \<Rightarrow> nat \<Rightarrow> string" where
  "fixed_digits 0 n = []"
| "fixed_digits (Suc k) n = fixed_digits k (n div 10) @ [digit (n mod 10)]"

lemma digits_val_append [simp]: "digits_val (xs @ [c]) = digits_val xs * 10 + (byte_val c - 48)"
  by (simp add: digits_val_def)

lemma byte_val_digit [simp]: "byte_val (digit n) = 48 + int (n mod 10)"
proof -
  have "n mod 10 < 10" by simp
  then have "(48 + int (n mod 10)) mod 256 = 48 + int (n mod 10)" by (intro mod_pos_pos_trivial) linarith+
  then show ?thesis by (simp only: digit_def byte_val_byte)
qed

lemma is_digit_digit [simp]: "is_digit (digit n)"
proof -
  have "n mod 10 < 10" by simp
  then show ?thesis by (simp add: is_digit_def)
qed

lemma digits_val_nat_digits: "digits_val (nat_digits n) = int n"
proof (induction n rule: nat_digits.induct)
  case (1 n)
  show ?case
  proof (cases "n < 10")
    case True
    then show ?thesis by (simp add: nat_digits.simps [of n] digits_val_def)
  next
    case False
    have "int (n div 10) * 10 + int (n mod 10) = int n"
      by (simp add: zdiv_int zmod_int)
    then show ?thesis using 1 False by (simp add: nat_digits.simps [of n])
  qed
qed

lemma nat_digits_all: "list_all is_digit (nat_digits n)"
proof (induction n rule: nat_digits.induct)
  case (1 n)
  then show ?case by (subst nat_digits.simps) simp
qed

lemma nat_digits_ne [simp]: "nat_digits n \<noteq> []"
  by (subst nat_digits.simps) simp

lemma length_nat_digits: "n < 10 ^ k \<Longrightarrow> 0 < k \<Longrightarrow> length (nat_digits n) \<le> k"
proof (induction k arbitrary: n)
  case (Suc k)
  show ?case
  proof (cases "n < 10")
    case False
    then have "0 < k" using Suc.prems by (cases k) auto
    moreover have "n div 10 < 10 ^ k" using Suc.prems by (simp add: div_less_iff_less_mult mult.commute)
    ultimately show ?thesis using Suc.IH False by (simp add: nat_digits.simps [of n])
  qed (simp add: nat_digits.simps [of n])
qed simp

lemma nat_digits_short:
  assumes "n < 2 ^ 315"
  shows "length (nat_digits n) \<le> 95"
proof -
  have "(2 :: nat) ^ 315 < 10 ^ 95" by simp
  then show ?thesis using assms length_nat_digits [of n 95] by linarith
qed

lemma length_fixed_digits [simp]: "length (fixed_digits k n) = k"
  by (induction k arbitrary: n) auto

lemma fixed_digits_ne: "0 < k \<Longrightarrow> fixed_digits k n \<noteq> []"
  by (cases k) auto

lemma fixed_digits_all: "list_all is_digit (fixed_digits k n)"
  by (induction k arbitrary: n) auto

lemma digits_val_fixed: "n < 10 ^ k \<Longrightarrow> digits_val (fixed_digits k n) = int n"
proof (induction k arbitrary: n)
  case (Suc k)
  then have "n div 10 < 10 ^ k" by (simp add: div_less_iff_less_mult mult.commute)
  moreover have "int (n div 10) * 10 + int (n mod 10) = int n"
    by (simp add: zdiv_int zmod_int)
  ultimately show ?case using Suc.IH by simp
qed (simp add: digits_val_def)

lemma digits_val_nonneg: "list_all is_digit s \<Longrightarrow> 0 \<le> digits_val s"
  by (induction s rule: rev_induct) (auto simp: digits_val_def is_digit_def)

lemma digits_val_bound: "list_all is_digit s \<Longrightarrow> digits_val s < 10 ^ length s"
  by (induction s rule: rev_induct) (auto simp: digits_val_def is_digit_def)

section \<open>cosmossdk.io/math\<close>

definition ref_dec_String :: "dec \<Rightarrow> string" where
  "ref_dec_String d =
     (if d < 0 then ''-'' else '''') @ nat_digits (nat \<bar>d\<bar> div 10 ^ 18) @ ''.'' @
     fixed_digits 18 (nat \<bar>d\<bar> mod 10 ^ 18)"

definition ref_parse_unsigned :: "string \<Rightarrow> dec option" where
  "ref_parse_unsigned s =
     (let w = takeWhile is_digit s
      in if w = [] then None
         else case dropWhile is_digit s of
                [] \<Rightarrow> Some (digits_val w * dec_unit)
              | c # f \<Rightarrow>
                  if c = CHR ''.'' \<and> f \<noteq> [] \<and> list_all is_digit f \<and> length f \<le> 18
                  then Some (digits_val w * dec_unit + digits_val f * 10 ^ (18 - length f))
                  else None)"

definition ref_parse :: "string \<Rightarrow> dec option" where
  "ref_parse s =
     (case s of
        c # rest \<Rightarrow> if c = CHR ''-'' then map_option uminus (ref_parse_unsigned rest) else ref_parse_unsigned s
      | [] \<Rightarrow> None)"

definition ref_dec_from_str :: "string \<Rightarrow> dec outcome" where
  "ref_dec_from_str s =
     (case ref_parse s of
        Some d \<Rightarrow> if dec_fits d then Ok d else Err (LibError ''decimal out of range'')
      | None \<Rightarrow> Err (LibError ''invalid decimal string''))"

definition ref_int_String :: "int \<Rightarrow> string" where
  "ref_int_String n = (if n < 0 then ''-'' else '''') @ nat_digits (nat \<bar>n\<bar>)"

definition ref_int_from_string :: "string \<Rightarrow> int option" where
  "ref_int_from_string s =
     (let (neg, ds) = (case s of c # rest \<Rightarrow> if c = CHR ''-'' then (True, rest) else (False, s) | [] \<Rightarrow> (False, s));
          n = (if neg then - digits_val ds else digits_val ds)
      in if ds \<noteq> [] \<and> list_all is_digit ds \<and> int_fits n then Some n else None)"

definition ref_round_div :: "int \<Rightarrow> int \<Rightarrow> int" where
  "ref_round_div a b = (2 * a + b) div (2 * b)"

definition ref_math :: math_lib where
  "ref_math = \<lparr>
     LegacyNewDecFromStr = ref_dec_from_str,
     dec_String = ref_dec_String,
     LegacyNewDec = (\<lambda>n. n * dec_unit),
     LegacyNewDecFromInt = (\<lambda>n. n * dec_unit),
     LegacyNewDecWithPrec = (\<lambda>n p. n * 10 ^ nat (18 - p)),
     dec_Add = (\<lambda>a b. checked_dec (a + b)),
     dec_Sub = (\<lambda>a b. checked_dec (a - b)),
     dec_Mul = (\<lambda>a b. checked_dec (ref_round_div (a * b) dec_unit)),
     dec_Quo = (\<lambda>a b. if b = 0 then Panic
                 else if 0 < b then checked_dec (ref_round_div (a * dec_unit) b)
                 else checked_dec (ref_round_div (- (a * dec_unit)) (- b))),
     dec_QuoInt64 = (\<lambda>a n. if n = 0 then Panic else Ok (a sdiv n)),
     dec_TruncateInt = (\<lambda>a. checked_int (a sdiv dec_unit)),
     NewIntFromString = ref_int_from_string,
     int_String = ref_int_String,
     int_Add = (\<lambda>a b. checked_int (a + b)),
     int_Sub = (\<lambda>a b. checked_int (a - b)),
     int_Int64 = (\<lambda>a. if is_i64 a then Ok a else Panic),
     int_Marshal = (\<lambda>n. Ok (ref_int_String n)),
     int_Unmarshal = (\<lambda>bz. case ref_int_from_string bz of Some n \<Rightarrow> Ok n | None \<Rightarrow> Err (LibError ''int''))\<rparr>"

lemma takeWhile_digits: "list_all is_digit w \<Longrightarrow> \<not> is_digit c \<Longrightarrow> takeWhile is_digit (w @ c # f) = w"
  by (induction w) auto

lemma dropWhile_digits: "list_all is_digit w \<Longrightarrow> \<not> is_digit c \<Longrightarrow> dropWhile is_digit (w @ c # f) = c # f"
  by (induction w) auto

lemma dot_not_digit [simp]: "\<not> is_digit CHR ''.''" and minus_not_digit [simp]: "\<not> is_digit CHR ''-''"
  by (simp_all add: is_digit_def byte_val_def)

lemma ref_parse_unsigned_literal:
  assumes "w \<noteq> []" and "list_all is_digit w" and "f \<noteq> []" and "list_all is_digit f" and "length f \<le> 18"
  shows "ref_parse_unsigned (w @ ''.'' @ f) = Some (digits_val w * dec_unit + digits_val f * 10 ^ (18 - length f))"
  using assms by (simp add: ref_parse_unsigned_def takeWhile_digits dropWhile_digits)

lemma ref_parse_digits:
  assumes "w \<noteq> []" and "list_all is_digit w"
  shows "ref_parse (w @ rest) = ref_parse_unsigned (w @ rest)"
  using assms by (cases w) (auto simp: ref_parse_def)

lemma ref_round_div_near:
  assumes "0 < b"
  shows "2 * \<bar>ref_round_div a b * b - a\<bar> \<le> b"
proof -
  define q where "q = (2 * a + b) div (2 * b)"
  define m where "m = (2 * a + b) mod (2 * b)"
  have "q * (2 * b) + m = 2 * a + b" unfolding q_def m_def by (rule div_mult_mod_eq)
  moreover have "0 \<le> m" "m < 2 * b" using assms by (simp_all add: m_def)
  ultimately have "2 * (q * b) \<le> 2 * a + b" "2 * a - b \<le> 2 * (q * b)" by (simp_all add: mult.left_commute)
  then show ?thesis unfolding ref_round_div_def q_def [symmetric] by (auto simp: abs_if)
qed

lemma ref_dec_roundtrip:
  assumes "dec_fits d"
  shows "ref_dec_from_str (ref_dec_String d) = Ok d"
proof -
  define n where "n = nat \<bar>d\<bar>"
  define s where "s = nat_digits (n div 10 ^ 18) @ ''.'' @ fixed_digits 18 (n mod 10 ^ 18)"
  have "ref_parse_unsigned s = Some (digits_val (nat_digits (n div 10 ^ 18)) * dec_unit +
      digits_val (fixed_digits 18 (n mod 10 ^ 18)) * 10 ^ (18 - length (fixed_digits 18 (n mod 10 ^ 18))))"
    unfolding s_def
    by (rule ref_parse_unsigned_literal) (simp_all add: nat_digits_all fixed_digits_all fixed_digits_ne)
  also have "\<dots> = Some (int n)"
    by (simp add: digits_val_nat_digits digits_val_fixed dec_unit_def zdiv_int zmod_int)
  finally have u: "ref_parse_unsigned s = Some \<bar>d\<bar>" by (simp add: n_def)
  have "ref_parse (ref_dec_String d) = Some d"
  proof (cases "d < 0")
    case True
    then have "ref_dec_String d = CHR ''-'' # s" by (simp add: ref_dec_String_def s_def n_def)
    then show ?thesis using True u by (simp add: ref_parse_def)
  next
    case False
    then have "ref_dec_String d = s" by (simp add: ref_dec_String_def s_def n_def)
    then show ?thesis using False u by (simp add: s_def ref_parse_digits nat_digits_all)
  qed
  then show ?thesis using assms by (simp add: ref_dec_from_str_def)
qed

lemma ref_int_roundtrip:
  assumes "int_fits n"
  shows "ref_int_from_string (ref_int_String n) = Some n"
proof (cases "n < 0")
  case True
  then show ?thesis using assms nat_digits_all
    by (simp add: ref_int_from_string_def ref_int_String_def digits_val_nat_digits)
next
  case False
  obtain c cs where c: "nat_digits (nat n) = c # cs" using nat_digits_ne by (metis neq_Nil_conv)
  then have "is_digit c" using nat_digits_all [of "nat n"] by simp
  then have "c \<noteq> CHR ''-''" by auto
  then show ?thesis using False assms nat_digits_all [of "nat n"] digits_val_nat_digits [of "nat n"]
    by (simp add: ref_int_from_string_def ref_int_String_def c)
qed

lemma ref_dec_text_laws: "dec_text_laws ref_math"
proof -
  have "ref_dec_from_str s = Ok d \<Longrightarrow> dec_fits d" "ref_dec_from_str s \<noteq> Panic" for s d
    by (auto simp: ref_dec_from_str_def split: option.splits if_splits)
  moreover have "length (ref_dec_String d) < 128" if "dec_fits d" for d
  proof -
    have "nat \<bar>d\<bar> < 2 ^ 315" using that by (simp add: dec_fits_def nat_less_iff)
    then have "nat \<bar>d\<bar> div 10 ^ 18 < 2 ^ 315" by (rule order.strict_trans1 [OF div_le_dividend])
    then have "length (nat_digits (nat \<bar>d\<bar> div 10 ^ 18)) \<le> 95" by (rule nat_digits_short)
    then show ?thesis by (cases "d < 0") (simp_all add: ref_dec_String_def)
  qed
  ultimately show ?thesis by (simp add: dec_text_laws_def ref_math_def ref_dec_roundtrip)
qed

lemma ref_literal_fits:
  assumes "list_all is_digit w" and "length w \<le> 60" and "list_all is_digit f" and "length f \<le> 18"
  shows "dec_fits (digits_val w * dec_unit + digits_val f * 10 ^ (18 - length f))"
proof -
  have "digits_val w < 10 ^ 60"
    using digits_val_bound [OF assms(1)] power_increasing [OF assms(2), of "10 :: int"] by simp
  moreover have "digits_val f * 10 ^ (18 - length f) \<le> 10 ^ 18 * 10 ^ 18"
    using digits_val_bound [OF assms(3)] digits_val_nonneg [OF assms(3)]
      power_increasing [OF assms(4), of "10 :: int"] power_increasing [of "18 - length f" 18 "10 :: int"]
    by (intro mult_mono) auto
  moreover have "0 \<le> digits_val w" "0 \<le> digits_val f * 10 ^ (18 - length f)"
    using assms digits_val_nonneg by simp_all
  ultimately show ?thesis by (simp add: dec_fits_def dec_unit_def)
qed

lemma ref_dec_literal_laws: "dec_literal_laws ref_math"
proof -
  have "ref_dec_from_str (w @ ''.'' @ f) = Ok (digits_val w * dec_unit + digits_val f * 10 ^ (18 - length f))"
    if "w \<noteq> []" "list_all is_digit w" "length w \<le> 60" "f \<noteq> []" "list_all is_digit f" "length f \<le> 18" for w f
    using ref_parse_unsigned_literal [OF that(1,2,4,5,6)] ref_literal_fits [OF that(2,3,5,6)] that(1,2)
    by (simp add: ref_dec_from_str_def ref_parse_digits)
  then show ?thesis by (simp add: dec_literal_laws_def ref_math_def)
qed

lemma ref_dec_arith_laws: "dec_arith_laws ref_math"
  by (simp add: dec_arith_laws_def ref_math_def)

lemma ref_dec_round_laws: "dec_round_laws ref_math"
proof -
  have "\<exists>r. 2 * \<bar>r * dec_unit - a * b\<bar> \<le> dec_unit \<and> dec_Mul ref_math a b = checked_dec r" for a b
    using ref_round_div_near [of dec_unit "a * b"] by (auto simp: ref_math_def)
  moreover have "\<exists>r. \<bar>r * b * dec_unit - a * dec_unit * dec_unit\<bar> < \<bar>b\<bar> * (dec_unit div 2 + 1) \<and>
      dec_Quo ref_math a b = checked_dec r" if "b \<noteq> 0" for a b
  proof -
    define r where "r = (if 0 < b then ref_round_div (a * dec_unit) b else ref_round_div (- (a * dec_unit)) (- b))"
    have "2 * \<bar>r * b - a * dec_unit\<bar> \<le> \<bar>b\<bar>"
    proof (cases "0 < b")
      case True
      then show ?thesis using ref_round_div_near [of b "a * dec_unit"] by (simp add: r_def)
    next
      case False
      then have "2 * \<bar>r * (- b) - - (a * dec_unit)\<bar> \<le> - b"
        using that ref_round_div_near [of "- b" "- (a * dec_unit)"] by (simp add: r_def)
      moreover have "r * (- b) - - (a * dec_unit) = - (r * b - a * dec_unit)" by simp
      ultimately have "2 * \<bar>r * b - a * dec_unit\<bar> \<le> - b" by (simp only: abs_minus_cancel)
      then show ?thesis using False by simp
    qed
    then have "2 * \<bar>r * b - a * dec_unit\<bar> * dec_unit \<le> \<bar>b\<bar> * dec_unit" by (intro mult_right_mono) simp_all
    also have "\<dots> < 2 * (\<bar>b\<bar> * (dec_unit div 2 + 1))" using that by (simp add: dec_unit_def)
    finally have "2 * (\<bar>r * b - a * dec_unit\<bar> * dec_unit) < 2 * (\<bar>b\<bar> * (dec_unit div 2 + 1))" by (simp only: mult.assoc)
    then have "\<bar>r * b - a * dec_unit\<bar> * dec_unit < \<bar>b\<bar> * (dec_unit div 2 + 1)" by simp
    moreover have "r * b * dec_unit - a * dec_unit * dec_unit = (r * b - a * dec_unit) * dec_unit"
      by (simp add: left_diff_distrib)
    ultimately have "\<bar>r * b * dec_unit - a * dec_unit * dec_unit\<bar> < \<bar>b\<bar> * (dec_unit div 2 + 1)"
      by (simp only: abs_mult abs_dec_unit)
    then show ?thesis using that by (auto simp: ref_math_def r_def)
  qed
  moreover have "dec_Quo ref_math a 0 = Panic" for a by (simp add: ref_math_def)
  ultimately show ?thesis unfolding dec_round_laws_def by blast
qed

lemma ref_int_laws: "int_laws ref_math"
proof -
  have "ref_int_from_string s = Some n \<Longrightarrow> int_fits n" for s n
    by (auto simp: ref_int_from_string_def Let_def split: prod.splits if_splits)
  moreover have "length (ref_int_String n) < 128" if "int_fits n" for n
  proof -
    have "nat \<bar>n\<bar> < 2 ^ 256" using that by (simp add: int_fits_def nat_less_iff)
    also have "\<dots> < 2 ^ 315" by simp
    finally have "length (nat_digits (nat \<bar>n\<bar>)) \<le> 95" by (rule nat_digits_short)
    then show ?thesis by (cases "n < 0") (simp_all add: ref_int_String_def)
  qed
  ultimately show ?thesis by (simp add: int_laws_def ref_math_def ref_int_roundtrip)
qed

lemma ref_math_laws: "math_laws ref_math"
  by (simp add: math_laws_def ref_dec_text_laws ref_dec_literal_laws ref_dec_arith_laws
      ref_dec_round_laws ref_int_laws)

section \<open>Addresses and time\<close>

definition ref_from_bech32 :: "string \<Rightarrow> string \<Rightarrow> addr outcome" where
  "ref_from_bech32 hrp s =
     (if prefix hrp s \<and> valid_addr (drop (length hrp) s) then Ok (drop (length hrp) s)
      else Err (LibError ''bech32''))"

definition ref_addr :: addr_lib where
  "ref_addr = \<lparr>
     ValAddressFromBech32 = ref_from_bech32 ''vtxvaloper1'',
     AccAddressFromBech32 = ref_from_bech32 ''vtx1'',
     ValAddress_String = (\<lambda>a. ''vtxvaloper1'' @ a),
     AccAddress_String = (\<lambda>a. ''vtx1'' @ a),
     MustLengthPrefix = (\<lambda>a. if length a \<le> 255 then Ok (byte (int (length a)) # a) else Panic),
     NewModuleAddress = (\<lambda>n. ''module:'' @ n)\<rparr>"

lemma ref_addr_laws: "addr_laws ref_addr"
  by (auto simp: addr_laws_def ref_addr_def ref_from_bech32_def valid_addr_def)

definition ref_time :: time_lib where
  "ref_time = \<lparr>
     StdTimeMarshalTo = (\<lambda>t. Ok (fixed_digits 30 (nat (t - zero_time)))),
     SizeOfStdTime = (\<lambda>t. 30),
     StdTimeUnmarshal = (\<lambda>bz. Ok (digits_val bz + zero_time))\<rparr>"

lemma ref_time_laws: "time_laws ref_time"
proof -
  have "digits_val (fixed_digits 30 (nat (t - zero_time))) = t - zero_time" if "valid_time t" for t
  proof -
    have "0 \<le> t - zero_time" "t - zero_time < 10 ^ 30"
      using that by (simp_all add: valid_time_def zero_time_def)
    then have "nat (t - zero_time) < 10 ^ 30" by (simp add: nat_less_iff)
    then show ?thesis using \<open>0 \<le> t - zero_time\<close> by (simp only: digits_val_fixed int_nat_eq if_True)
  qed
  then show ?thesis unfolding time_laws_def ref_time_def by (simp del: fixed_digits.simps)
qed

section \<open>The store\<close>

type_synonym ref_store = "(bytes \<times> bytes) list"

definition ref_view :: "ref_store \<Rightarrow> bytes \<rightharpoonup> bytes" where
  "ref_view s = map_of (filter (\<lambda>kv. valid_key (fst kv)) s)"

definition ref_scan :: "ref_store \<Rightarrow> bytes \<Rightarrow> (bytes \<times> bytes) list" where
  "ref_scan s p =
     map (\<lambda>k. (k, the (ref_view s k)))
       (sort (remdups (filter (prefix p) (map fst (filter (\<lambda>kv. valid_key (fst kv)) s)))))"

definition ref_kv :: "ref_store kv_lib" where
  "ref_kv = \<lparr>
     StoreGet = (\<lambda>s k. if valid_key k then Ok (ref_view s k) else Panic),
     StoreHas = (\<lambda>s k. if valid_key k then Ok (ref_view s k \<noteq> None) else Panic),
     StoreSet = (\<lambda>s k v. if valid_key k \<and> valid_value v then Ok ((k, v) # s) else Panic),
     StoreDelete = (\<lambda>s k. if valid_key k then Ok (filter (\<lambda>kv. fst kv \<noteq> k) s) else Panic),
     StoreIterator = (\<lambda>s p _. Ok (ref_scan s p)),
     StoreReverseIterator = (\<lambda>s p _. Ok (rev (ref_scan s p))),
     PrefixEndBytes = (\<lambda>p. p)\<rparr>"

lemma ref_scan_eq: "ref_scan s p = prefix_entries (ref_view s) p"
proof -
  have "{k \<in> dom (ref_view s). prefix p k} =
      set (filter (prefix p) (map fst (filter (\<lambda>kv. valid_key (fst kv)) s)))"
    by (auto simp: ref_view_def dom_map_of_conv_image_fst)
  then show ?thesis
    by (simp only: ref_scan_def prefix_entries_def sorted_list_of_set_sort_remdups)
qed

lemma ref_view_delete: "ref_view (filter (\<lambda>kv. fst kv \<noteq> k) s) = (ref_view s)(k := None)"
  by (induction s) (auto simp: ref_view_def fun_eq_iff)

lemma ref_kv_laws: "kv_laws ref_kv ref_view"
proof -
  have "valid_key k" if "k \<in> dom (ref_view s)" for s k
    using that by (auto simp: ref_view_def dom_map_of_conv_image_fst)
  moreover have "finite (dom (ref_view s))" for s
    by (simp add: ref_view_def finite_dom_map_of)
  moreover have "ref_view ((k, v) # s) = (ref_view s)(k \<mapsto> v)" if "valid_key k" for s k v
    using that by (simp add: ref_view_def)
  ultimately show ?thesis
    by (simp add: kv_laws_def ref_kv_def ref_view_delete flip: ref_scan_eq)
qed

section \<open>Bank and staking\<close>

record ref_chain =
  rc_coins :: "(addr \<times> string \<times> nat) list"
  rc_validators :: "validator list"
  rc_powers :: "(addr \<times> int) list"

fun ref_balance :: "(addr \<times> string \<times> nat) list \<Rightarrow> addr \<Rightarrow> string \<Rightarrow> nat" where
  "ref_balance [] k d = 0"
| "ref_balance ((i, e, n) # es) k d = (if i = k \<and> e = d then n else 0) + ref_balance es k d"

fun ref_supply :: "(addr \<times> string \<times> nat) list \<Rightarrow> string \<Rightarrow> nat" where
  "ref_supply [] d = 0"
| "ref_supply ((_, e, n) # es) d = (if e = d then n else 0) + ref_supply es d"

fun ref_withdraw :: "addr \<Rightarrow> string \<Rightarrow> nat \<Rightarrow> (addr \<times> string \<times> nat) list \<Rightarrow> (addr \<times> string \<times> nat) list" where
  "ref_withdraw k d a [] = []"
| "ref_withdraw k d a ((i, e, n) # es) =
     (if i = k \<and> e = d
      then if a \<le> n then (i, e, n - a) # es else ref_withdraw k d (a - n) es
      else (i, e, n) # ref_withdraw k d a es)"

lemma ref_balance_supply: "ref_balance es k d \<le> ref_supply es d"
  by (induction es) auto

lemma ref_withdraw_balance:
  "a \<le> ref_balance es k d \<Longrightarrow>
   ref_balance (ref_withdraw k d a es) i e = ref_balance es i e - (if i = k \<and> e = d then a else 0)"
  by (induction es arbitrary: a) auto

lemma ref_withdraw_supply:
  "a \<le> ref_balance es k d \<Longrightarrow>
   ref_supply (ref_withdraw k d a es) e = ref_supply es e - (if e = d then a else 0)"
proof (induction es arbitrary: a)
  case (Cons c es)
  then show ?case using ref_balance_supply [of es k d] by (cases c) auto
qed simp

definition ref_move :: "send_restriction \<Rightarrow> ref_chain \<Rightarrow> addr \<Rightarrow> addr \<Rightarrow> coin list \<Rightarrow> ref_chain outcome" where
  "ref_move r x from to amt =
     obind (r from to amt) (\<lambda>to'.
       case amt of
         [(d, a)] \<Rightarrow>
           if 0 < a \<and> nat a \<le> ref_balance (rc_coins x) from d
           then Ok (x\<lparr>rc_coins := (to', d, nat a) # ref_withdraw from d (nat a) (rc_coins x)\<rparr>)
           else Err (SdkError ''insufficient funds'')
       | _ \<Rightarrow> Err (SdkError ''invalid coins''))"

definition ref_mint :: "ref_chain \<Rightarrow> addr \<Rightarrow> coin list \<Rightarrow> ref_chain outcome" where
  "ref_mint x k amt =
     (case amt of
        [(d, a)] \<Rightarrow> if 0 < a then Ok (x\<lparr>rc_coins := (k, d, nat a) # rc_coins x\<rparr>) else Err (SdkError ''invalid coins'')
      | _ \<Rightarrow> Err (SdkError ''invalid coins''))"

definition ref_burn :: "ref_chain \<Rightarrow> addr \<Rightarrow> coin list \<Rightarrow> ref_chain outcome" where
  "ref_burn x k amt =
     (case amt of
        [(d, a)] \<Rightarrow>
          if 0 < a \<and> nat a \<le> ref_balance (rc_coins x) k d
          then Ok (x\<lparr>rc_coins := ref_withdraw k d (nat a) (rc_coins x)\<rparr>)
          else Err (SdkError ''insufficient funds'')
      | _ \<Rightarrow> Err (SdkError ''invalid coins''))"

definition ref_module :: "string \<Rightarrow> addr" where
  "ref_module n = ''module:'' @ n"

text \<open>Slashing burns that fraction of the validator's stake from the pool of bonded tokens.\<close>

definition ref_slash :: "ref_chain \<Rightarrow> addr \<Rightarrow> dec \<Rightarrow> int \<Rightarrow> int \<Rightarrow> ref_chain outcome" where
  "ref_slash x cons rate pw h =
     (let amount = pw * rate div dec_unit
      in if amount = 0 then Ok x else ref_burn x (ref_module ''bonded_tokens_pool'') [(''uvtx'', amount)])"

definition ref_keepers :: "ref_chain ext_lib" where
  "ref_keepers = \<lparr>
     GetValidator = (\<lambda>x a. case find (\<lambda>v. OperatorAddress v = ''vtxvaloper1'' @ a) (rc_validators x) of
                           Some v \<Rightarrow> Ok v | None \<Rightarrow> Err (SdkError ''validator does not exist'')),
     GetLastValidatorPower = (\<lambda>x a. Ok (case map_of (rc_powers x) a of Some p \<Rightarrow> p | None \<Rightarrow> 0)),
     GetBondedValidatorsByPower = (\<lambda>x. Ok (filter (\<lambda>v. val_Status v = Bonded) (rc_validators x))),
     GetLastTotalPower = (\<lambda>x. Ok (sum_list (map snd (rc_powers x)))),
     GetConsAddr = (\<lambda>v. Ok (Some (ConsensusPubkey v))),
     Slash = ref_slash,
     GetModuleAddress = ref_module,
     GetBalance = (\<lambda>x k d. int (ref_balance (rc_coins x) k d)),
     GetSupply = (\<lambda>x d. int (ref_supply (rc_coins x) d)),
     MintCoins = (\<lambda>x n amt. ref_mint x (ref_module n) amt),
     BurnCoins = (\<lambda>x n amt. ref_burn x (ref_module n) amt),
     SendCoins = ref_move,
     SendCoinsFromAccountToModule = (\<lambda>r x from n amt. ref_move r x from (ref_module n) amt),
     SendCoinsFromModuleToAccount = (\<lambda>r x n to amt. ref_move r x (ref_module n) to amt),
     SendCoinsFromModuleToModule = (\<lambda>r x m n amt. ref_move r x (ref_module m) (ref_module n) amt),
     FundCommunityPool = (\<lambda>r x amt from. ref_move r x from (ref_module ''distribution'') amt),
     NewCoin = (\<lambda>d a. if 0 \<le> a then Ok (d, a) else Panic),
     NewCoins = (\<lambda>cs. Ok (filter (\<lambda>c. snd c \<noteq> 0) cs)),
     coins_String = (\<lambda>cs. concat (map (\<lambda>c. ref_int_String (snd c) @ fst c) cs))\<rparr>"

lemma ref_move_moved:
  assumes "ref_move r x from to [(d, a)] = Ok x'"
  shows "\<exists>to'. r from to [(d, a)] = Ok to' \<and> moved ref_keepers x x' from to' d a"
proof -
  obtain to' where to': "r from to [(d, a)] = Ok to'"
    and a: "0 < a" "nat a \<le> ref_balance (rc_coins x) from d"
    and x': "x' = x\<lparr>rc_coins := (to', d, nat a) # ref_withdraw from d (nat a) (rc_coins x)\<rparr>"
    using assms by (auto simp: ref_move_def outcome_simps split: if_splits)
  have "moved ref_keepers x x' from to' d a"
    using a ref_balance_supply [of "rc_coins x" "from" d]
    by (auto simp: moved_def ref_keepers_def x' ref_withdraw_balance ref_withdraw_supply)
  with to' show ?thesis by blast
qed

lemma ref_coin_laws: "coin_laws ref_keepers"
  by (auto simp: coin_laws_def ref_keepers_def ref_balance_supply ref_module_def split: if_splits)

lemma ref_send_laws: "send_laws ref_keepers"
proof -
  have s: "SendCoins ref_keepers = ref_move"
    "SendCoinsFromAccountToModule ref_keepers = (\<lambda>r x from n amt. ref_move r x from (ref_module n) amt)"
    "SendCoinsFromModuleToAccount ref_keepers = (\<lambda>r x n to amt. ref_move r x (ref_module n) to amt)"
    "SendCoinsFromModuleToModule ref_keepers = (\<lambda>r x m n amt. ref_move r x (ref_module m) (ref_module n) amt)"
    "FundCommunityPool ref_keepers = (\<lambda>r x amt from. ref_move r x from (ref_module ''distribution'') amt)"
    "GetModuleAddress ref_keepers = ref_module"
    "GetBalance ref_keepers = (\<lambda>x k d. int (ref_balance (rc_coins x) k d))"
    by (simp_all add: ref_keepers_def)
  have ok: "\<exists>x'. ref_move r x src to [(d, a)] = Ok x'"
    if "0 < a" "a \<le> int (ref_balance (rc_coins x) src d)" "r src to [(d, a)] = Ok to'" for r x src to d a to'
    using that by (simp add: ref_move_def nat_le_iff)
  show ?thesis unfolding send_laws_def s using ref_move_moved ok by blast
qed

lemma ref_issue_laws: "issue_laws ref_keepers"
proof -
  have "issued ref_keepers x x' (ref_module n) d a" if "ref_mint x (ref_module n) [(d, a)] = Ok x'" for x n d a x'
    using that by (auto simp: ref_mint_def issued_def ref_keepers_def split: if_splits)
  moreover have "a \<le> int (ref_balance (rc_coins x) (ref_module n) d) \<and>
      issued ref_keepers x x' (ref_module n) d (- a)" if "ref_burn x (ref_module n) [(d, a)] = Ok x'" for x n d a x'
    using that ref_balance_supply [of "rc_coins x" "ref_module n" d]
    by (auto simp: ref_burn_def issued_def ref_keepers_def ref_withdraw_balance ref_withdraw_supply split: if_splits)
  moreover have "\<exists>x'. ref_burn x (ref_module ''fees'') [(d, a)] = Ok x'"
    if "0 < a" "a \<le> int (ref_balance (rc_coins x) (ref_module ''fees'') d)" for x d a
    using that by (simp add: ref_burn_def nat_le_iff)
  ultimately show ?thesis by (simp add: issue_laws_def ref_keepers_def)
qed

lemma ref_bank_laws: "bank_laws ref_keepers"
  by (simp add: bank_laws_def ref_coin_laws ref_send_laws ref_issue_laws)

lemma ref_slash_laws: "slash_laws ref_keepers"
proof -
  have "ref_slash x k r p h \<noteq> Panic" for x k r p h
    by (simp add: ref_slash_def ref_burn_def Let_def split: list.splits prod.splits)
  moreover have "rc_powers x' = rc_powers x" if "ref_slash x k r p h = Ok x'" for x k r p h x'
    using that by (auto simp: ref_slash_def ref_burn_def Let_def split: list.splits prod.splits if_splits)
  ultimately show ?thesis by (auto simp: slash_laws_def ref_keepers_def)
qed

section \<open>The environment\<close>

definition ref_env :: "(ref_store, ref_chain) env" where
  "ref_env = \<lparr>env_math = ref_math, env_addr = ref_addr, env_time = ref_time, env_kv = ref_kv,
     env_keepers = ref_keepers, env_authority = ''vtx1module:gov'', env_has_staking = True\<rparr>"

lemma ref_env_fields [simp]:
  "env_math ref_env = ref_math" "env_addr ref_env = ref_addr" "env_time ref_env = ref_time"
  "env_kv ref_env = ref_kv" "env_keepers ref_env = ref_keepers"
  "env_authority ref_env = ''vtx1module:gov''" "env_has_staking ref_env = True"
  by (simp_all add: ref_env_def)

lemma ref_sdk_laws: "sdk_laws ref_env ref_view"
  by (simp add: sdk_laws_def ref_math_laws ref_addr_laws ref_time_laws ref_kv_laws)

text \<open>A context with every store empty, at height 10 on 2026-01-01.\<close>

definition ref_now :: time where
  "ref_now = 1767225600 * Second"

definition ref_ctx :: "ref_chain \<Rightarrow> (ref_store, ref_chain) ctx" where
  "ref_ctx x = \<lparr>multistore = (\<lambda>_. []), ext = x, BlockHeight = 10, BlockTime = ref_now, events = []\<rparr>"

lemma ref_ctx_fields [simp]:
  "ext (ref_ctx x) = x" "BlockHeight (ref_ctx x) = 10" "BlockTime (ref_ctx x) = ref_now"
  "events (ref_ctx x) = []"
  by (simp_all add: ref_ctx_def)

lemma ref_ctx_store [simp]: "store_view ref_view name (ref_ctx x) = Map.empty"
  by (simp add: store_view_def OpenKVStore_def ref_ctx_def ref_view_def)

end
