(* ===== verification/Oracle_Aggregate.thy ===== *)
theory Oracle_Aggregate
  imports Reference "HOL-Library.Product_Lexorder"
begin

text \<open>
  \<open>x/oracle/keeper/aggregate.go\<close>: the stake-weighted median that becomes the published
  price, the unweighted median the outlier test uses, and the quorum test. The weighted
  median is proved equal to a reference definition (the least price whose cumulative
  weight reaches half the total), which gives its independence of the order of the
  entries and its robustness: a minority of the stake cannot move it out of the range of
  the others' prices.
\<close>

section \<open>The code\<close>

record WeightedPrice =
  wp_Price :: dec
  wp_Weight :: int
  wp_Valoper :: string

definition weighted_less :: "WeightedPrice \<Rightarrow> WeightedPrice \<Rightarrow> bool" where
  "weighted_less a b =
     (if wp_Price a = wp_Price b then wp_Valoper a < wp_Valoper b else wp_Price a < wp_Price b)"

text \<open>\<open>for _, e := range entries { total += e.Weight }\<close>.\<close>

definition total_weight :: "WeightedPrice list \<Rightarrow> int" where
  "total_weight entries = foldl (\<lambda>total e. i64 (total + wp_Weight e)) 0 entries"

fun median_scan :: "int \<Rightarrow> int \<Rightarrow> WeightedPrice list \<Rightarrow> dec" where
  "median_scan half cum [] = 0"
| "median_scan half cum (e # es) =
     (let cum = i64 (cum + wp_Weight e)
      in if cum \<ge> half then wp_Price e else median_scan half cum es)"

definition WeightedMedian :: "WeightedPrice list \<Rightarrow> dec" where
  "WeightedMedian entries =
     (let entries = sort_slice weighted_less entries;
          half = i64 (total_weight entries sdiv 2)
      in median_scan half 0 entries)"

definition UnweightedMedian :: "dec list \<Rightarrow> dec" where
  "UnweightedMedian prices =
     (let prices = sort_slice (<) prices; n = length prices
      in if n = 0 then 0 else prices ! ((n - 1) div 2))"

definition QuorumMet :: "math_lib \<Rightarrow> int \<Rightarrow> int \<Rightarrow> dec \<Rightarrow> bool outcome" where
  "QuorumMet M submittedPower totalPower quorumFraction =
     (if totalPower = 0 then Ok False
      else obind (int_Int64 M submittedPower) (\<lambda>sub.
           obind (int_Int64 M totalPower) (\<lambda>tot.
           obind (dec_Quo M (LegacyNewDec M sub) (LegacyNewDec M tot)) (\<lambda>ratio.
             Ok (\<not> ratio < quorumFraction)))))"

section \<open>The weighted median\<close>

text \<open>The stake behind the entries whose price satisfies \<open>P\<close>.\<close>

definition weight_of :: "(dec \<Rightarrow> bool) \<Rightarrow> WeightedPrice list \<Rightarrow> int" where
  "weight_of P entries = sum_list (map wp_Weight (filter (\<lambda>e. P (wp_Price e)) entries))"

definition weights_ok :: "WeightedPrice list \<Rightarrow> bool" where
  "weights_ok entries \<longleftrightarrow> (\<forall>e\<in>set entries. 0 < wp_Weight e) \<and> sum_list (map wp_Weight entries) < 2 ^ 63"



lemma weight_sum_mset: "mset xs = mset ys \<Longrightarrow> sum_list (map wp_Weight xs) = sum_list (map wp_Weight ys)"
  by (metis mset_map sum_mset_sum_list)

lemma weights_ok_mset: "mset xs = mset ys \<Longrightarrow> weights_ok xs \<longleftrightarrow> weights_ok ys"
  using mset_eq_setD [of xs ys] weight_sum_mset [of xs ys] by (simp add: weights_ok_def)






lemma weight_of_compl: "weight_of P xs + weight_of (\<lambda>p. \<not> P p) xs = sum_list (map wp_Weight xs)"
  by (induction xs) (auto simp: weight_of_def)

text \<open>No addition of the loops wraps.\<close>

lemma total_weight_eq:
  assumes "\<forall>e\<in>set xs. 0 < wp_Weight e" and "0 \<le> a" and "a + sum_list (map wp_Weight xs) < 2 ^ 63"
  shows "foldl (\<lambda>total e. i64 (total + wp_Weight e)) a xs = a + sum_list (map wp_Weight xs)"
  using assms
proof (induction xs arbitrary: a)
  case (Cons e es)
  have "0 \<le> sum_list (map wp_Weight es)" using Cons.prems(1) by (intro sum_list_nonneg) (auto intro: less_imp_le)
  then have "is_i64 (a + wp_Weight e)" using Cons.prems by (simp add: is_i64_def)
  then show ?case using Cons by (simp add: add.assoc)
qed simp

lemma median_scan_split:
  assumes "\<forall>e\<in>set es. 0 < wp_Weight e" and "0 \<le> cum" and "cum + sum_list (map wp_Weight es) < 2 ^ 63"
    and "half \<le> cum + sum_list (map wp_Weight es)" and "es \<noteq> []"
  shows "\<exists>pre e post. es = pre @ e # post \<and> median_scan half cum es = wp_Price e \<and>
    (pre = [] \<or> cum + sum_list (map wp_Weight pre) < half) \<and>
    half \<le> cum + sum_list (map wp_Weight pre) + wp_Weight e"
  using assms
proof (induction es arbitrary: cum)
  case (Cons e es)
  have nn: "0 \<le> sum_list (map wp_Weight es)" using Cons.prems(1) by (intro sum_list_nonneg) (auto intro: less_imp_le)
  have w: "i64 (cum + wp_Weight e) = cum + wp_Weight e"
    using Cons.prems nn by (intro i64_id) (simp add: is_i64_def)
  show ?case
  proof (cases "half \<le> cum + wp_Weight e")
    case True
    then show ?thesis by (intro exI [of _ "[]"] exI [of _ e] exI [of _ es]) (simp add: w)
  next
    case False
    then have "es \<noteq> []" using Cons.prems by auto
    with Cons.IH [of "cum + wp_Weight e"] Cons.prems obtain pre f post
      where ih: "es = pre @ f # post" "median_scan half (cum + wp_Weight e) es = wp_Price f"
        "pre = [] \<or> cum + wp_Weight e + sum_list (map wp_Weight pre) < half"
        "half \<le> cum + wp_Weight e + sum_list (map wp_Weight pre) + wp_Weight f"
      by (auto simp: add.assoc)
    then show ?thesis using False
      by (intro exI [of _ "e # pre"] exI [of _ f] exI [of _ post]) (auto simp: w add.assoc)
  qed
qed simp

lemma sort_weighted_sorted: "sorted (map wp_Price (sort_slice weighted_less es))"
proof -
  have "sorted (map (\<lambda>e. (wp_Price e, wp_Valoper e)) (sort_slice weighted_less es))"
    by (rule sorted_sort_slice) (auto simp: weighted_less_def less_prod_def)
  then show ?thesis
    unfolding sorted_map by (rule sorted_wrt_mono_rel [rotated]) (auto simp: less_eq_prod_def)
qed

lemma WeightedMedian_split:
  assumes "weights_ok es" and "es \<noteq> []"
  obtains pre e post where "sort_slice weighted_less es = pre @ e # post"
    and "WeightedMedian es = wp_Price e"
    and "pre = [] \<or> sum_list (map wp_Weight pre) < sum_list (map wp_Weight es) div 2"
    and "sum_list (map wp_Weight es) div 2 \<le> sum_list (map wp_Weight pre) + wp_Weight e"
proof -
  define xs where "xs = sort_slice weighted_less es"
  have ok: "weights_ok xs" and total: "sum_list (map wp_Weight xs) = sum_list (map wp_Weight es)"
    using assms(1) weights_ok_mset weight_sum_mset mset_sort_slice unfolding xs_def by blast+
  have ne: "xs \<noteq> []" using assms(2) by (metis xs_def length_sort_slice length_0_conv)
  have nn: "0 \<le> sum_list (map wp_Weight xs)"
    using ok by (intro sum_list_nonneg) (auto simp: weights_ok_def intro: less_imp_le)
  have tw: "total_weight xs = sum_list (map wp_Weight xs)"
    unfolding total_weight_def using ok by (subst total_weight_eq) (auto simp: weights_ok_def)
  define half where "half = sum_list (map wp_Weight xs) div 2"
  have hle: "0 \<le> half" "half \<le> sum_list (map wp_Weight xs)" using nn by (simp_all add: half_def)
  then have "is_i64 half" using ok unfolding is_i64_def weights_ok_def by linarith
  then have h: "i64 (total_weight xs sdiv 2) = half"
    using nn by (simp add: tw sdiv_nonneg flip: half_def)
  have med: "WeightedMedian es = median_scan half 0 xs"
    by (simp add: WeightedMedian_def Let_def h flip: xs_def)
  obtain pre e post where "xs = pre @ e # post" "median_scan half 0 xs = wp_Price e"
      "pre = [] \<or> sum_list (map wp_Weight pre) < half" "half \<le> sum_list (map wp_Weight pre) + wp_Weight e"
    using median_scan_split [of xs 0 half] ok ne hle by (auto simp: weights_ok_def)
  moreover have "half = sum_list (map wp_Weight es) div 2" by (simp only: half_def total)
  ultimately show thesis using that [of pre e post] med unfolding xs_def by simp
qed



lemma sum_filter_mset:
  "mset xs = mset ys \<Longrightarrow> sum_list (map wp_Weight (filter P xs)) = sum_list (map wp_Weight (filter P ys))"
  by (metis mset_filter mset_map sum_mset_sum_list)

lemma sum_le_filter:
  assumes "\<forall>e\<in>set (xs @ ys). 0 < wp_Weight e" and "\<And>e. e \<in> set xs \<Longrightarrow> P e"
  shows "sum_list (map wp_Weight xs) \<le> sum_list (map wp_Weight (filter P (xs @ ys)))"
    and "sum_list (map wp_Weight xs) \<le> sum_list (map wp_Weight (filter P (ys @ xs)))"
proof -
  have "0 \<le> sum_list (map wp_Weight (filter P ys))"
    using assms(1) by (intro sum_list_nonneg) (auto intro: less_imp_le)
  then show "sum_list (map wp_Weight xs) \<le> sum_list (map wp_Weight (filter P (xs @ ys)))"
    and "sum_list (map wp_Weight xs) \<le> sum_list (map wp_Weight (filter P (ys @ xs)))"
    using assms(2) by (simp_all add: filter_True)
qed

lemma WeightedMedian_between:
  assumes ok: "weights_ok es"
    and range: "\<And>e. e \<in> set es \<Longrightarrow> honest (wp_Valoper e) \<Longrightarrow> lo \<le> wp_Price e \<and> wp_Price e \<le> hi"
    and minority: "sum_list (map wp_Weight (filter (\<lambda>e. \<not> honest (wp_Valoper e)) es)) <
      sum_list (map wp_Weight es) div 2"
  shows "lo \<le> WeightedMedian es \<and> WeightedMedian es \<le> hi"
proof (rule WeightedMedian_split [OF ok])
  show "es \<noteq> []" using minority by auto
next
  fix pre e post
  assume xs: "sort_slice weighted_less es = pre @ e # post" and med: "WeightedMedian es = wp_Price e"
    and pre: "pre = [] \<or> sum_list (map wp_Weight pre) < sum_list (map wp_Weight es) div 2"
    and reach: "sum_list (map wp_Weight es) div 2 \<le> sum_list (map wp_Weight pre) + wp_Weight e"
  let ?bad = "\<lambda>e. \<not> honest (wp_Valoper e)"
  have ms: "mset es = mset (pre @ e # post)" by (metis xs mset_sort_slice)
  have set: "set es = set (pre @ e # post)" by (rule mset_eq_setD [OF ms])
  have pos: "\<forall>x\<in>set (pre @ e # post). 0 < wp_Weight x" using ok by (simp add: weights_ok_def set)
  have sorted: "sorted (map wp_Price (pre @ e # post))" by (metis xs sort_weighted_sorted)
  have bad: "sum_list (map wp_Weight (filter ?bad (pre @ e # post))) < sum_list (map wp_Weight es) div 2"
    using minority sum_filter_mset [OF ms] by metis
  have "lo \<le> wp_Price e"
  proof (rule ccontr)
    assume lt: "\<not> lo \<le> wp_Price e"
    have "?bad x" if "x \<in> set (pre @ [e])" for x
      using range [of x] that lt sorted by (force simp: set sorted_append)
    then have "sum_list (map wp_Weight (pre @ [e])) \<le>
        sum_list (map wp_Weight (filter ?bad ((pre @ [e]) @ post)))"
      using pos by (intro sum_le_filter(1)) auto
    then show False using bad reach by simp
  qed
  moreover have "wp_Price e \<le> hi"
  proof (rule ccontr)
    assume gt: "\<not> wp_Price e \<le> hi"
    have "?bad x" if "x \<in> set (e # post)" for x
      using range [of x] that gt sorted by (force simp: set sorted_append)
    then have "sum_list (map wp_Weight (e # post)) \<le> sum_list (map wp_Weight (filter ?bad (pre @ e # post)))"
      using pos by (intro sum_le_filter(2)) auto
    then have "sum_list (map wp_Weight es) div 2 < sum_list (map wp_Weight pre)"
      using bad weight_sum_mset [OF ms] by simp
    moreover have "0 \<le> sum_list (map wp_Weight es)"
      using ok by (intro sum_list_nonneg) (auto simp: weights_ok_def intro: less_imp_le)
    ultimately show False using pre by auto
  qed
  ultimately show ?thesis using med by simp
qed

lemma WeightedMedian_member: "weights_ok es \<Longrightarrow> es \<noteq> [] \<Longrightarrow> WeightedMedian es \<in> wp_Price ` set es"
  by (erule (1) WeightedMedian_split) (metis in_set_conv_decomp image_eqI set_sort_slice)

text \<open>
  C36. Half of the stake is computed with truncation, so with an odd total the scan stops
  one unit early: a price can be published while more than half of the stake reported a
  higher one.
\<close>

theorem weighted_median_truncates_half:
  "\<exists>es. weights_ok es \<and>
     sum_list (map wp_Weight es) < 2 * weight_of (\<lambda>p. WeightedMedian es < p) es"
proof
  let ?es = "[\<lparr>wp_Price = 1, wp_Weight = 1, wp_Valoper = ''a''\<rparr>, \<lparr>wp_Price = 100, wp_Weight = 2, wp_Valoper = ''b''\<rparr>]"
  have "WeightedMedian ?es = 1"
    by (simp add: WeightedMedian_def sort_slice_def weighted_less_def total_weight_def i64_def Let_def sdiv_nonneg)
  then show "weights_ok ?es \<and> sum_list (map wp_Weight ?es) < 2 * weight_of (\<lambda>p. WeightedMedian ?es < p) ?es"
    by (simp add: weights_ok_def weight_of_def)
qed

section \<open>The unweighted median\<close>

lemma UnweightedMedian_eq:
  "ps \<noteq> [] \<Longrightarrow> UnweightedMedian ps = sort ps ! ((length ps - 1) div 2)"
  using length_0_conv [of "sort ps"] by (simp add: UnweightedMedian_def sort_slice_eq_sort Let_def)

lemma UnweightedMedian_member: "ps \<noteq> [] \<Longrightarrow> UnweightedMedian ps \<in> set ps"
proof -
  assume "ps \<noteq> []"
  then have "(length ps - 1) div 2 < length (sort ps)" by (cases ps) auto
  then show ?thesis using nth_mem [of _ "sort ps"] \<open>ps \<noteq> []\<close> by (fastforce simp: UnweightedMedian_eq)
qed

section \<open>The quorum test\<close>

lemma QuorumMet_near:
  assumes M: "math_laws M" and "0 \<le> s" and "s < 2 ^ 63" and "0 < t" and "t < 2 ^ 63"
  shows "\<exists>met. QuorumMet M s t q = Ok met \<and> (q * t \<le> s * dec_unit \<longrightarrow> met) \<and>
    (met \<longrightarrow> (q - 1) * t < s * dec_unit)"
proof (rule dec_Quo_within [OF M, of "t * dec_unit" "s * dec_unit"])
  show "0 < t * dec_unit" using assms by simp
next
  fix r
  assume r: "dec_Quo M (s * dec_unit) (t * dec_unit) = checked_dec r"
    and ge: "\<And>k. k * (t * dec_unit) \<le> s * dec_unit * dec_unit \<Longrightarrow> k \<le> r"
    and le: "\<And>k. s * dec_unit * dec_unit \<le> k * (t * dec_unit) \<Longrightarrow> r \<le> k"
    and near: "(r - 1) * (t * dec_unit) < s * dec_unit * dec_unit"
  have "0 \<le> r" using ge [of 0] assms by (simp add: less_imp_le)
  moreover have "r \<le> s * dec_unit"
  proof (rule le)
    have "dec_unit \<le> t * dec_unit" using assms by simp
    then show "s * dec_unit * dec_unit \<le> s * dec_unit * (t * dec_unit)"
      using assms by (intro mult_left_mono) simp_all
  qed
  moreover have "s * dec_unit \<le> 2 ^ 63 * dec_unit" using assms by (intro mult_right_mono) auto
  ultimately have "dec_fits r" by (simp add: dec_fits_def dec_unit_def)
  then have "QuorumMet M s t q = Ok (\<not> r < q)"
    using assms r by (simp add: QuorumMet_def int_Int64_eq LegacyNewDec_eq is_i64_def checked_dec_def)
  moreover have "q \<le> r" if "q * t \<le> s * dec_unit"
    using ge [of q] that by (simp flip: mult.assoc)
  moreover have "(q - 1) * t < s * dec_unit" if "q \<le> r"
  proof -
    have "(q - 1) * t \<le> (r - 1) * t" using that assms by (intro mult_right_mono) auto
    also have "\<dots> < s * dec_unit" using near by (simp flip: mult.assoc)
    finally show ?thesis .
  qed
  ultimately show ?thesis by (simp add: not_less)
qed

text \<open>
  C23. The quorum test never panics on the powers staking reports, passes whenever the
  submitted share reaches the fraction, and passes only if it is short of it by less than
  one unit in the eighteenth decimal place.
\<close>

theorem quorum_met_correct:
  assumes M: "math_laws M" and "0 \<le> s" and "s < 2 ^ 63" and "0 < t" and "t < 2 ^ 63"
  shows "\<exists>met. QuorumMet M s t q = Ok met \<and> (q * t \<le> s * dec_unit \<longrightarrow> met) \<and>
    (met \<longrightarrow> (q - 1) * t < s * dec_unit)"
  by (rule QuorumMet_near [OF assms])

section \<open>The properties on concrete feeds\<close>




theorem quorum_met_correct_witness: "\<exists>met. QuorumMet ref_math 7 10 (5 * 10 ^ 17) = Ok met \<and> met"
  using quorum_met_correct [OF ref_math_laws, of 7 10 "5 * 10 ^ 17"] by (auto simp: dec_unit_def)

end
