(* ===== verification/Wire.thy ===== *)
theory Wire
  imports Prelude
begin

text \<open>
  The protobuf wire format as the generated \<open>*.pb.go\<close> files of the modules implement it:
  variable-length integers, their size, skipping an unknown field, and the loop every
  generated \<open>Unmarshal\<close> runs, with one handler per message for the body of its
  \<open>switch fieldNum\<close>. The lemmas show that what the \<open>Marshal\<close> code writes for a field is
  read back by the loop, one field at a time.
\<close>

unbundle bit_operations_syntax

section \<open>Variable-length integers\<close>

definition ErrIntOverflow :: error where
  "ErrIntOverflow = FmtError ''proto: integer overflow''"

definition ErrInvalidLength :: error where
  "ErrInvalidLength = FmtError ''proto: negative length found during unmarshaling''"

definition ErrUnexpectedEndOfGroup :: error where
  "ErrUnexpectedEndOfGroup = FmtError ''proto: unexpected end of group''"

definition ErrUnexpectedEOF :: error where
  "ErrUnexpectedEOF = LibError ''unexpected EOF''"

definition ErrWireType :: error where
  "ErrWireType = FmtError ''proto: wrong wireType''"

definition ErrIllegalTag :: error where
  "ErrIllegalTag = FmtError ''proto: illegal tag''"

function encodeVarint :: "int \<Rightarrow> bytes" where
  "encodeVarint v =
     (if 128 \<le> v then byte ((v AND 127) OR 128) # encodeVarint (v div 128) else [byte v])"
  by pat_completeness auto
termination
  by (relation "measure nat") auto

declare encodeVarint.simps [simp del]

text \<open>\<open>math/bits.Len64\<close>: the number of bits of \<open>x\<close>.\<close>

function Len64 :: "int \<Rightarrow> nat" where
  "Len64 x = (if x \<le> 0 then 0 else Suc (Len64 (x div 2)))"
  by pat_completeness auto
termination
  by (relation "measure nat") auto

declare Len64.simps [simp del]

definition sov :: "int \<Rightarrow> nat" where
  "sov x = (Len64 (x OR 1) + 6) div 7"

text \<open>
  The inlined loop \<open>for shift := uint(0); ; shift += 7\<close> of the generated code, on the value
  read so far, the index and the bytes from the index on. The result is the value, the
  index after it and the bytes from there on.
\<close>

fun read_varint :: "nat \<Rightarrow> int \<Rightarrow> int \<Rightarrow> bytes \<Rightarrow> (int \<times> int \<times> bytes) outcome" where
  "read_varint shift acc i [] =
     (if 64 \<le> shift then Err ErrIntOverflow else Err ErrUnexpectedEOF)"
| "read_varint shift acc i (b # bs) =
     (if 64 \<le> shift then Err ErrIntOverflow
      else let acc' = u64 (acc OR push_bit shift (byte_val b AND 127))
           in if byte_val b < 128 then Ok (acc', i + 1, bs)
              else read_varint (shift + 7) acc' (i + 1) bs)"

lemma read_varint_length:
  "read_varint shift acc i bs = Ok (v, i', bs') \<Longrightarrow> length bs' < length bs"
  by (induction shift acc i bs rule: read_varint.induct)
    (auto simp: Let_def split: if_splits)

lemma and_127: "(x :: int) AND 127 = x mod 128"
proof -
  have "x AND mask 7 = x mod 2 ^ 7" by (simp only: take_bit_eq_mask [symmetric] take_bit_eq_mod)
  then show ?thesis by (simp add: mask_eq_exp_minus_1)
qed

lemma or_push_bit:
  assumes "0 \<le> a" and "a < 2 ^ n"
  shows "a OR push_bit n x = a + x * (2 :: int) ^ n"
proof -
  have "take_bit n a = a" using assms by (simp add: take_bit_int_eq_self)
  then have "\<not> bit a k \<or> \<not> bit (push_bit n x) k" for k
    by (metis bit_push_bit_iff bit_take_bit_iff linorder_not_less)
  then have "a + push_bit n x = a OR push_bit n x" by (rule disjunctive_add)
  then show ?thesis by (simp add: push_bit_eq_mult)
qed

lemma or_128: "0 \<le> x \<Longrightarrow> x < 128 \<Longrightarrow> (x :: int) OR 128 = x + 128"
  using or_push_bit [of x 7 1] by (simp add: push_bit_eq_mult)

lemma or_1: "(x :: int) OR 1 = (if even x then x + 1 else x)"
  by (simp add: or_one_eq)

lemma encodeVarint_step:
  "128 \<le> v \<Longrightarrow> encodeVarint v = byte (v mod 128 + 128) # encodeVarint (v div 128)"
  by (simp add: encodeVarint.simps [of v] and_127 or_128)

lemma encodeVarint_small: "v < 128 \<Longrightarrow> encodeVarint v = [byte v]"
  by (simp add: encodeVarint.simps [of v])

lemma read_varint_more:
  "shift < 64 \<Longrightarrow> 128 \<le> byte_val b \<Longrightarrow> u64 (acc OR push_bit shift (byte_val b mod 128)) = acc' \<Longrightarrow>
   read_varint shift acc i (b # bs) = read_varint (shift + 7) acc' (i + 1) bs"
  by (simp add: Let_def and_127)

lemma read_varint_last:
  "shift < 64 \<Longrightarrow> byte_val b < 128 \<Longrightarrow> u64 (acc OR push_bit shift (byte_val b mod 128)) = acc' \<Longrightarrow>
   read_varint shift acc i (b # bs) = Ok (acc', i + 1, bs)"
  by (simp add: Let_def and_127)

lemma read_varint_encode_gen:
  assumes "0 \<le> v" and "0 \<le> acc" and "acc < 2 ^ shift" and "shift < 64" and "acc + v * 2 ^ shift < 2 ^ 64"
  shows "read_varint shift acc i (encodeVarint v @ rest) =
           Ok (acc + v * 2 ^ shift, i + int (length (encodeVarint v)), rest)"
  using assms
proof (induction v arbitrary: shift acc i rule: encodeVarint.induct)
  case (1 v)
  let ?acc = "acc + (v mod 128) * 2 ^ shift"
  have le: "?acc \<le> acc + v * 2 ^ shift"
    using \<open>0 \<le> v\<close> by (simp add: zmod_le_nonneg_dividend)
  have acc0: "0 \<le> ?acc" using "1.prems" by simp
  have orv: "acc OR push_bit shift (v mod 128) = ?acc"
    using "1.prems" by (simp add: or_push_bit)
  have "?acc < 2 ^ 64" using le "1.prems" by linarith
  with acc0 have u: "u64 ?acc = ?acc"
    unfolding u64_def by (rule mod_pos_pos_trivial)
  show ?case
  proof (cases "128 \<le> v")
    case True
    have bv: "byte_val (byte (v mod 128 + 128)) = v mod 128 + 128"
      by (simp add: mod_pos_pos_trivial)
    have b7: "(v mod 128 + 128) mod 128 = v mod (128::int)" by simp
    have total: "?acc + (v div 128) * 2 ^ (shift + 7) = acc + v * 2 ^ shift"
    proof -
      have "v * 2 ^ shift = ((v div 128) * 128 + v mod 128) * 2 ^ shift" by simp
      also have "\<dots> = (v div 128) * 2 ^ (shift + 7) + (v mod 128) * 2 ^ shift"
        by (simp only: distrib_right power_add) simp
      finally show ?thesis by simp
    qed
    have sh: "shift + 7 < 64"
    proof -
      have "(2::int) ^ (shift + 7) \<le> v * 2 ^ shift"
        using True by (simp add: power_add)
      then have "(2::int) ^ (shift + 7) < 2 ^ 64" using "1.prems" by linarith
      then show ?thesis by (rule power_less_imp_less_exp [rotated]) simp
    qed
    have accb: "?acc < 2 ^ (shift + 7)"
    proof -
      have "(v mod 128) * 2 ^ shift \<le> 127 * (2 ^ shift :: int)"
        by (intro mult_right_mono) auto
      then have "?acc < 128 * 2 ^ shift" using "1.prems"(3) by linarith
      then show ?thesis by (simp add: power_add)
    qed
    have d0: "0 \<le> v div 128" using \<open>0 \<le> v\<close> by simp
    have lt: "?acc + (v div 128) * 2 ^ (shift + 7) < 2 ^ 64"
      unfolding total by (rule "1.prems"(5))
    have IH: "read_varint (shift + 7) ?acc (i + 1) (encodeVarint (v div 128) @ rest) =
        Ok (?acc + (v div 128) * 2 ^ (shift + 7),
            i + 1 + int (length (encodeVarint (v div 128))), rest)"
      by (rule "1.IH" [OF True d0 acc0 accb sh lt])
    have "read_varint shift acc i (encodeVarint v @ rest) =
        read_varint (shift + 7) ?acc (i + 1) (encodeVarint (v div 128) @ rest)"
      unfolding encodeVarint_step [OF True] append_Cons
    proof (rule read_varint_more)
      show "shift < 64" by (rule "1.prems"(4))
      show "128 \<le> byte_val (byte (v mod 128 + 128))" unfolding bv by simp
      show "u64 (acc OR push_bit shift (byte_val (byte (v mod 128 + 128)) mod 128)) = ?acc"
        unfolding bv b7 orv by (rule u)
    qed
    also note IH
    also have "i + 1 + int (length (encodeVarint (v div 128))) = i + int (length (encodeVarint v))"
      by (simp add: encodeVarint_step [OF True])
    finally show ?thesis unfolding total .
  next
    case False
    then have v: "v < 128" by simp
    have m: "v mod 128 = v" using False \<open>0 \<le> v\<close> by simp
    have bv: "byte_val (byte v) = v" using False \<open>0 \<le> v\<close> by simp
    have "read_varint shift acc i (byte v # rest) = Ok (?acc, i + 1, rest)"
    proof (rule read_varint_last)
      show "shift < 64" by (rule "1.prems"(4))
      show "byte_val (byte v) < 128" unfolding bv by (rule v)
      show "u64 (acc OR push_bit shift (byte_val (byte v) mod 128)) = ?acc"
        unfolding bv orv by (rule u)
    qed
    then show ?thesis unfolding encodeVarint_small [OF v] m by (simp del: read_varint.simps)
  qed
qed

lemma read_varint_encode:
  "0 \<le> v \<Longrightarrow> v < 2 ^ 64 \<Longrightarrow> read_varint 0 0 i (encodeVarint v @ rest) =
     Ok (v, i + int (length (encodeVarint v)), rest)"
  using read_varint_encode_gen [of v 0 0 i rest] by simp

lemma Len64_pow: "2 ^ k \<le> v \<Longrightarrow> Len64 v = Len64 (v div 2 ^ k) + k"
proof (induction k)
  case (Suc k)
  have "(2::int) ^ k \<le> 2 ^ Suc k" by simp
  then have "2 ^ k \<le> v" using Suc.prems by (rule order_trans)
  then have "Len64 v = Len64 (v div 2 ^ k) + k" by (rule Suc.IH)
  moreover have "0 < v div 2 ^ k" using \<open>2 ^ k \<le> v\<close> by (simp add: pos_imp_zdiv_pos_iff)
  then have "Len64 (v div 2 ^ k) = Suc (Len64 (v div 2 ^ k div 2))"
    by (simp add: Len64.simps [of "v div 2 ^ k"])
  moreover have "v div 2 ^ k div 2 = v div 2 ^ Suc k"
    by (simp add: zdiv_zmult2_eq [symmetric] mult.commute)
  ultimately show ?case by simp
qed simp

lemma Len64_128: "128 \<le> v \<Longrightarrow> Len64 v = Len64 (v div 128) + 7"
  using Len64_pow [of 7 v] by simp

lemma Len64_pos: "0 < x \<Longrightarrow> 0 < Len64 x"
  by (simp add: Len64.simps [of x])

lemma Len64_bound: "x < 2 ^ n \<Longrightarrow> Len64 x \<le> n"
proof (induction n arbitrary: x)
  case 0
  then show ?case by (simp add: Len64.simps)
next
  case (Suc n)
  then have "Len64 (x div 2) \<le> n" by simp
  then show ?case by (simp add: Len64.simps [of x])
qed

lemma sov_small: "0 \<le> v \<Longrightarrow> v < 128 \<Longrightarrow> sov v = 1"
proof -
  assume v: "0 \<le> v" "v < 128"
  then have "(if even v then v + 1 else v) < 128" by presburger
  then have "Len64 (v OR 1) \<le> 7" using Len64_bound [of "v OR 1" 7] by (simp add: or_1)
  moreover have "Len64 (v OR 1) > 0" using v by (intro Len64_pos) (auto simp: or_1 elim: oddE)
  ultimately show ?thesis by (simp add: sov_def)
qed

lemma Len64_Suc: "0 < x \<Longrightarrow> Len64 x = Suc (Len64 (x div 2))"
  by (simp add: Len64.simps [of x])

lemma Len64_or_1: "0 < x \<Longrightarrow> Len64 (x OR 1) = Len64 x"
proof (cases "even x")
  case True
  assume "0 < x"
  from True have "(x + 1) div 2 = x div 2" by simp
  with True \<open>0 < x\<close> show ?thesis
    by (simp add: or_1 Len64_Suc [of "x + 1"] Len64_Suc [of x])
qed (simp add: or_1)

lemma sov_step: "128 \<le> v \<Longrightarrow> sov v = Suc (sov (v div 128))"
proof -
  assume v: "128 \<le> v"
  then have "0 < v div 128" by (simp add: pos_imp_zdiv_pos_iff)
  with v show ?thesis by (simp add: sov_def Len64_or_1 Len64_128)
qed

lemma length_encodeVarint: "0 \<le> v \<Longrightarrow> length (encodeVarint v) = sov v"
proof (induction v rule: encodeVarint.induct)
  case (1 v)
  show ?case
  proof (cases "128 \<le> v")
    case True
    then have "length (encodeVarint (v div 128)) = sov (v div 128)" using 1 by simp
    then show ?thesis using True by (simp add: encodeVarint_step sov_step)
  next
    case False
    then show ?thesis using "1.prems" by (simp add: encodeVarint_small sov_small)
  qed
qed

section \<open>Reading fields\<close>

text \<open>
  A length-delimited value: its length (negative, or past the largest \<open>int\<close>, is an error),
  then that many bytes. The result is the bytes and the index after them.
\<close>

definition read_len :: "int \<Rightarrow> bytes \<Rightarrow> (bytes \<times> int) outcome" where
  "read_len i rest =
     obind (read_varint 0 0 i rest) (\<lambda>(n, i1, rest1).
       let len = i64 n; postIndex = i64 (i1 + len)
       in if len < 0 then Err ErrInvalidLength
          else if postIndex < 0 then Err ErrInvalidLength
          else if postIndex > i1 + int (length rest1) then Err ErrUnexpectedEOF
          else Ok (take (nat len) rest1, postIndex))"

text \<open>
  \<open>skipTypes\<close>: the index after one field of any wire type, groups nested.
\<close>

function skip_loop :: "nat \<Rightarrow> int \<Rightarrow> bytes \<Rightarrow> int outcome" where
  "skip_loop depth i rest =
     (if rest = [] then Err ErrUnexpectedEOF
      else obind (read_varint 0 0 i rest) (\<lambda>(wire, i1, rest1).
        let after = (\<lambda>depth' i' rest'.
              if i' < 0 then Err ErrInvalidLength
              else if depth' = (0::nat) then Ok i'
              else skip_loop depth' i' (drop (length rest1 - length rest') rest1));
            wireType = wire AND 7
        in if wireType = 0 then
             obind (read_varint 0 0 i1 rest1) (\<lambda>(_, i2, rest2). after depth i2 rest2)
           else if wireType = 1 then after depth (i64 (i1 + 8)) (drop 8 rest1)
           else if wireType = 2 then
             obind (read_varint 0 0 i1 rest1) (\<lambda>(n, i2, rest2).
               let len = i64 n
               in if len < 0 then Err ErrInvalidLength
                  else after depth (i64 (i2 + len)) (drop (nat len) rest2))
           else if wireType = 3 then after (Suc depth) i1 rest1
           else if wireType = 4 then
             (if depth = 0 then Err ErrUnexpectedEndOfGroup else after (depth - 1) i1 rest1)
           else if wireType = 5 then after depth (i64 (i1 + 4)) (drop 4 rest1)
           else Err ErrWireType))"
  by pat_completeness auto
termination
proof (relation "measure (\<lambda>(d, i, rest). length rest)", goal_cases)
  case 1
  show ?case by simp
qed (auto dest!: read_varint_length)

declare skip_loop.simps [simp del]

definition skip :: "bytes \<Rightarrow> int outcome" where
  "skip dAtA = skip_loop 0 0 dAtA"

section \<open>The unmarshal loop\<close>

text \<open>
  A handler is the body of \<open>switch fieldNum\<close>: from the field number, the wire type, the index
  and bytes at the field's tag, the index and bytes after it, and the message so far, it
  gives the new message and index.
\<close>

type_synonym 'm handler =
  "int \<Rightarrow> int \<Rightarrow> int \<times> bytes \<Rightarrow> int \<times> bytes \<Rightarrow> 'm \<Rightarrow> ('m \<times> int) outcome"

function unmarshal_loop :: "'m handler \<Rightarrow> 'm \<Rightarrow> int \<Rightarrow> bytes \<Rightarrow> 'm outcome" where
  "unmarshal_loop h m i rest =
     (if rest = [] then Ok m
      else obind (read_varint 0 0 i rest) (\<lambda>(wire, i1, rest1).
        let fieldNum = i32 (wire div 8); wireType = wire AND 7
        in if wireType = 4 then Err ErrUnexpectedEndOfGroup
           else if fieldNum \<le> 0 then Err ErrIllegalTag
           else obind (h fieldNum wireType (i, rest) (i1, rest1) m) (\<lambda>(m', i2).
             unmarshal_loop h m' i2 (drop (nat (i2 - i1)) rest1))))"
  by pat_completeness auto
termination
proof (relation "measure (\<lambda>(h, m, i, rest). length rest)", goal_cases)
  case 1
  show ?case by simp
qed (auto dest!: read_varint_length)

declare unmarshal_loop.simps [simp del]

text \<open>The \<open>default\<close> branch: the field is skipped from its tag on.\<close>

definition field_skip :: "int \<times> bytes \<Rightarrow> 'm \<Rightarrow> ('m \<times> int) outcome" where
  "field_skip pre m = (case pre of (preIndex, rest) \<Rightarrow>
     obind (skip rest) (\<lambda>skippy.
       if skippy < 0 \<or> i64 (preIndex + skippy) < 0 then Err ErrInvalidLength
       else if preIndex + skippy > preIndex + int (length rest) then Err ErrUnexpectedEOF
       else Ok (m, preIndex + skippy)))"

definition field_string ::
    "int \<Rightarrow> int \<times> bytes \<Rightarrow> (string \<Rightarrow> 'm \<Rightarrow> 'm) \<Rightarrow> 'm \<Rightarrow> ('m \<times> int) outcome" where
  "field_string wireType cur put m =
     (if wireType \<noteq> 2 then Err ErrWireType
      else obind (read_len (fst cur) (snd cur)) (\<lambda>(s, i). Ok (put s m, i)))"

definition field_int64 ::
    "int \<Rightarrow> int \<times> bytes \<Rightarrow> (int \<Rightarrow> 'm \<Rightarrow> 'm) \<Rightarrow> 'm \<Rightarrow> ('m \<times> int) outcome" where
  "field_int64 wireType cur put m =
     (if wireType \<noteq> 0 then Err ErrWireType
      else obind (read_varint 0 0 (fst cur) (snd cur)) (\<lambda>(n, i, _). Ok (put (i64 n) m, i)))"

definition field_enum ::
    "int \<Rightarrow> int \<times> bytes \<Rightarrow> (int \<Rightarrow> 'm \<Rightarrow> 'm) \<Rightarrow> 'm \<Rightarrow> ('m \<times> int) outcome" where
  "field_enum wireType cur put m =
     (if wireType \<noteq> 0 then Err ErrWireType
      else obind (read_varint 0 0 (fst cur) (snd cur)) (\<lambda>(n, i, _). Ok (put (i32 n) m, i)))"

definition field_bool ::
    "int \<Rightarrow> int \<times> bytes \<Rightarrow> (bool \<Rightarrow> 'm \<Rightarrow> 'm) \<Rightarrow> 'm \<Rightarrow> ('m \<times> int) outcome" where
  "field_bool wireType cur put m =
     (if wireType \<noteq> 0 then Err ErrWireType
      else obind (read_varint 0 0 (fst cur) (snd cur)) (\<lambda>(n, i, _). Ok (put (i64 n \<noteq> 0) m, i)))"

text \<open>An embedded message (or a \<open>StdTime\<close>), decoded by a function of its own.\<close>

definition field_msg ::
    "int \<Rightarrow> int \<times> bytes \<Rightarrow> (bytes \<Rightarrow> 'v outcome) \<Rightarrow> ('v \<Rightarrow> 'm \<Rightarrow> 'm) \<Rightarrow> 'm \<Rightarrow> ('m \<times> int) outcome" where
  "field_msg wireType cur dec put m =
     (if wireType \<noteq> 2 then Err ErrWireType
      else obind (read_len (fst cur) (snd cur)) (\<lambda>(bz, i).
        obind (dec bz) (\<lambda>v. Ok (put v m, i))))"

section \<open>What decoding yields\<close>

text \<open>Whatever the bytes, an invariant of the handler's message holds of the result.\<close>

lemma unmarshal_loop_keeps:
  assumes keeps: "\<And>fieldNum wireType pre cur m m' i. h fieldNum wireType pre cur m = Ok (m', i) \<Longrightarrow> I m \<Longrightarrow> I m'"
    and "unmarshal_loop h m i rest = Ok r" and "I m"
  shows "I r"
  using assms(2,3)
proof (induction "length rest" arbitrary: m i rest rule: less_induct)
  case less
  show ?case
  proof (cases "rest = []")
    case True
    then show ?thesis using less.prems by (simp add: unmarshal_loop.simps)
  next
    case False
    then obtain wire i1 rest1 m' i2 where tag: "read_varint 0 0 i rest = Ok (wire, i1, rest1)"
      and field: "h (i32 (wire div 8)) (wire AND 7) (i, rest) (i1, rest1) m = Ok (m', i2)"
      and rest': "unmarshal_loop h m' i2 (drop (nat (i2 - i1)) rest1) = Ok r"
      using less.prems(1) by (subst (asm) unmarshal_loop.simps) (auto simp: obind_eq_Ok Let_def split: if_splits prod.splits)
    have "length (drop (nat (i2 - i1)) rest1) < length rest" using read_varint_length [OF tag] by auto
    then show ?thesis by (rule less.hyps [OF _ rest' keeps [OF field less.prems(2)]])
  qed
qed

lemma field_keeps:
  "field_string wireType cur put m = Ok (m', i) \<Longrightarrow> (\<And>v. I (put v m)) \<Longrightarrow> I m'"
  "field_bool wireType cur putb m = Ok (m', i) \<Longrightarrow> (\<And>v. I (putb v m)) \<Longrightarrow> I m'"
  "field_int64 wireType cur puti m = Ok (m', i) \<Longrightarrow> (\<And>v. is_i64 v \<Longrightarrow> I (puti v m)) \<Longrightarrow> I m'"
  "field_enum wireType cur puti m = Ok (m', i) \<Longrightarrow> (\<And>v. is_i32 v \<Longrightarrow> I (puti v m)) \<Longrightarrow> I m'"
  "field_msg wireType cur dec putm m = Ok (m', i) \<Longrightarrow> (\<And>v. I (putm v m)) \<Longrightarrow> I m'"
  "field_skip pre m = Ok (m', i) \<Longrightarrow> m' = m"
  by (auto simp: field_string_def field_bool_def field_int64_def field_enum_def field_msg_def field_skip_def obind_eq_Ok i64_range i32_range
      split: if_splits prod.splits)

section \<open>Writing fields\<close>

text \<open>
  \<open>MarshalToSizedBuffer\<close> fills its buffer from the end; here each step puts a field before
  the bytes written so far. A field with its zero value is not written.
\<close>

definition put_bytes :: "int \<Rightarrow> bytes \<Rightarrow> bytes \<Rightarrow> bytes" where
  "put_bytes tag bz acc = byte tag # encodeVarint (int (length bz)) @ bz @ acc"

definition put_string :: "int \<Rightarrow> string \<Rightarrow> bytes \<Rightarrow> bytes" where
  "put_string tag s acc = (if 0 < length s then put_bytes tag s acc else acc)"

definition put_int64 :: "int \<Rightarrow> int \<Rightarrow> bytes \<Rightarrow> bytes" where
  "put_int64 tag x acc = (if x \<noteq> 0 then byte tag # encodeVarint (u64 x) @ acc else acc)"

definition put_bool :: "int \<Rightarrow> bool \<Rightarrow> bytes \<Rightarrow> bytes" where
  "put_bool tag b acc = (if b then byte tag # byte 1 # acc else acc)"

definition size_bytes :: "nat \<Rightarrow> nat" where
  "size_bytes l = 1 + l + sov (int l)"

definition size_string :: "string \<Rightarrow> nat" where
  "size_string s = (if 0 < length s then size_bytes (length s) else 0)"

definition size_int64 :: "int \<Rightarrow> nat" where
  "size_int64 x = (if x \<noteq> 0 then 1 + sov (u64 x) else 0)"

definition size_bool :: "bool \<Rightarrow> nat" where
  "size_bool b = (if b then 2 else 0)"

text \<open>
  \<open>Marshal\<close> allocates \<open>Size()\<close> bytes, lets \<open>MarshalToSizedBuffer\<close> write its \<open>n\<close> bytes at the
  end of them and returns the first \<open>n\<close>; writing past the start panics.
\<close>

definition sized_buffer :: "nat \<Rightarrow> bytes outcome \<Rightarrow> bytes outcome" where
  "sized_buffer n written =
     obind written (\<lambda>bz. if n < length bz then Panic
       else Ok (take (length bz) (replicate (n - length bz) (byte 0) @ bz)))"

lemma sized_buffer_exact: "length bz = n \<Longrightarrow> sized_buffer n (Ok bz) = Ok bz"
  by (simp add: sized_buffer_def)

lemma length_put [simp]:
  "length (put_bytes tag bz acc) = size_bytes (length bz) + length acc"
  "length (put_string tag s acc) = size_string s + length acc"
  "length (put_int64 tag x acc) = size_int64 x + length acc"
  "length (put_bool tag b acc) = size_bool b + length acc"
  by (simp_all add: put_bytes_def put_string_def put_int64_def put_bool_def size_bytes_def
      size_string_def size_int64_def size_bool_def length_encodeVarint u64_range)

text \<open>How much the framing of a field adds to its content.\<close>

lemma encodeVarint_length_le: "v < 128 ^ Suc n \<Longrightarrow> length (encodeVarint v) \<le> Suc n"
proof (induction n arbitrary: v)
  case 0
  then show ?case by (simp add: encodeVarint_small)
next
  case (Suc n)
  show ?case
  proof (cases "128 \<le> v")
    case True
    have "v div 128 < 128 ^ Suc n" using Suc.prems by (simp add: div_less_iff_less_mult mult.commute)
    then show ?thesis using Suc.IH True by (simp add: encodeVarint_step)
  qed (simp add: encodeVarint_small)
qed

lemma sov_le:
  assumes "0 \<le> v" and "v < 2 ^ 64"
  shows "sov v \<le> 10"
proof -
  have "v < 128 ^ Suc 9" using assms(2) by simp
  then have "length (encodeVarint v) \<le> Suc 9" by (rule encodeVarint_length_le)
  then show ?thesis using assms(1) by (simp add: length_encodeVarint)
qed

lemma size_bytes_le: "l < 2 ^ 60 \<Longrightarrow> size_bytes l \<le> l + 11"
  using sov_le [of "int l"] by (simp add: size_bytes_def)

lemma size_string_le: "length s < 2 ^ 60 \<Longrightarrow> size_string s \<le> length s + 11"
  using size_bytes_le by (simp add: size_string_def)

lemma size_int64_le: "size_int64 x \<le> 11"
  using sov_le [OF u64_range, of x] by (simp add: size_int64_def)

section \<open>What is written is read back\<close>

text \<open>No index of a buffer overflows an \<open>int\<close>.\<close>

definition fits_int :: "int \<Rightarrow> bytes \<Rightarrow> bool" where
  "fits_int i bs \<longleftrightarrow> 0 \<le> i \<and> i + int (length bs) < 2 ^ 63"

lemma read_varint_small:
  "0 \<le> n \<Longrightarrow> n < 128 \<Longrightarrow> read_varint 0 0 i (byte n # bs) = Ok (n, i + 1, bs)"
  using read_varint_encode [of n i bs] by (simp add: encodeVarint_small)

lemma and_7: "(x :: int) AND 7 = x mod 8"
proof -
  have "x AND mask 3 = x mod 2 ^ 3" by (simp only: take_bit_eq_mask [symmetric] take_bit_eq_mod)
  then show ?thesis by (simp add: mask_eq_exp_minus_1)
qed

lemma loop_tag:
  assumes "0 < f" and "f < 16" and "0 \<le> w" and "w < 8" and "w \<noteq> 4"
  shows "unmarshal_loop h m i (byte (8 * f + w) # bs) =
     obind (h f w (i, byte (8 * f + w) # bs) (i + 1, bs) m) (\<lambda>(m', i2).
       unmarshal_loop h m' i2 (drop (nat (i2 - (i + 1))) bs))"
proof -
  have r: "read_varint 0 0 i (byte (8 * f + w) # bs) = Ok (8 * f + w, i + 1, bs)"
    using assms by (intro read_varint_small) auto
  have d: "(8 * f + w) div 8 = f" and m: "(8 * f + w) mod 8 = w" using assms by auto
  have "is_i32 f" using assms by (simp add: is_i32_def)
  then show ?thesis
    using assms by (subst unmarshal_loop.simps) (simp add: r d m and_7 Let_def del: read_varint.simps)
qed

lemma read_len_encode:
  assumes "fits_int i (encodeVarint (int (length s)) @ s @ rest)"
  shows "read_len i (encodeVarint (int (length s)) @ s @ rest) =
           Ok (s, i + int (sov (int (length s)) + length s))"
proof -
  have len: "int (length s) < 2 ^ 63" using assms by (simp add: fits_int_def)
  then have r: "read_varint 0 0 i (encodeVarint (int (length s)) @ s @ rest) =
      Ok (int (length s), i + int (sov (int (length s))), s @ rest)"
    by (simp add: read_varint_encode length_encodeVarint)
  have i1: "i64 (int (length s)) = int (length s)" using len by (simp add: is_i64_def)
  have i2: "i64 (i + int (sov (int (length s))) + int (length s)) =
      i + int (sov (int (length s))) + int (length s)"
    using assms by (intro i64_id) (simp add: fits_int_def is_i64_def length_encodeVarint)
  show ?thesis
    using assms by (simp add: read_len_def r i1 i2 Let_def fits_int_def)
qed

lemma loop_bytes:
  assumes h: "\<And>pre. h f 2 pre (i + 1, encodeVarint (int (length s)) @ s @ rest) m =
        obind (read_len (i + 1) (encodeVarint (int (length s)) @ s @ rest)) (\<lambda>(s, i). obind (upd s) (\<lambda>m. Ok (m, i)))"
    and u: "upd s = Ok m'" and f: "0 < f" "f < 16" and fits: "fits_int i (put_bytes (8 * f + 2) s rest)"
  shows "unmarshal_loop h m i (put_bytes (8 * f + 2) s rest) =
           unmarshal_loop h m' (i + int (size_bytes (length s))) rest"
proof -
  have "fits_int (i + 1) (encodeVarint (int (length s)) @ s @ rest)"
    using fits by (simp add: fits_int_def put_bytes_def)
  note r = read_len_encode [OF this]
  have n: "nat (int (sov (int (length s))) + int (length s)) = sov (int (length s)) + length s"
    by simp
  have "unmarshal_loop h m i (put_bytes (8 * f + 2) s rest) =
      unmarshal_loop h m' (i + 1 + int (sov (int (length s)) + length s)) rest"
    unfolding put_bytes_def using f
    by (subst loop_tag) (simp_all add: h r u n length_encodeVarint)
  then show ?thesis by (simp add: size_bytes_def algebra_simps)
qed

lemma loop_string:
  assumes h: "\<And>pre cur m. h f 2 pre cur m = field_string 2 cur put m"
    and t: "tag = 8 * f + 2" and f: "0 < f" "f < 16" and fits: "fits_int i (put_string tag s rest)"
    and z: "s = [] \<Longrightarrow> put s m = m"
  shows "unmarshal_loop h m i (put_string tag s rest) =
           unmarshal_loop h (put s m) (i + int (size_string s)) rest"
proof (cases "s = []")
  case True
  then show ?thesis using z by (simp add: put_string_def size_string_def)
next
  case False
  then have "fits_int i (put_bytes (8 * f + 2) s rest)" using fits by (simp add: t put_string_def)
  then have "unmarshal_loop h m i (put_bytes (8 * f + 2) s rest) =
      unmarshal_loop h (put s m) (i + int (size_bytes (length s))) rest"
    by (intro loop_bytes [where upd = "\<lambda>s. Ok (put s m)"])
      (use f in \<open>simp_all add: h field_string_def split_beta\<close>)
  with False show ?thesis by (simp add: t put_string_def size_string_def)
qed

lemma loop_msg:
  assumes h: "\<And>pre cur m. h f 2 pre cur m = field_msg 2 cur dec put m"
    and t: "tag = 8 * f + 2" and f: "0 < f" "f < 16" and fits: "fits_int i (put_bytes tag s rest)"
    and d: "dec s = Ok v"
  shows "unmarshal_loop h m i (put_bytes tag s rest) =
           unmarshal_loop h (put v m) (i + int (size_bytes (length s))) rest"
  using f fits d unfolding t
  by (intro loop_bytes [where upd = "\<lambda>s. obind (dec s) (\<lambda>v. Ok (put v m))"])
    (simp_all add: h field_msg_def split_beta obind_assoc)

lemma loop_varint:
  assumes h: "\<And>pre. h f 0 pre (i + 1, encodeVarint n @ rest) m =
        obind (read_varint 0 0 (i + 1) (encodeVarint n @ rest)) (\<lambda>(n, i, _). Ok (upd n, i))"
    and f: "0 < f" "f < 16" and n: "0 \<le> n" "n < 2 ^ 64"
  shows "unmarshal_loop h m i (byte (8 * f) # encodeVarint n @ rest) =
           unmarshal_loop h (upd n) (i + 1 + int (sov n)) rest"
proof -
  have t: "byte (8 * f) = byte (8 * f + 0)" by simp
  show ?thesis
    unfolding t using f n
    by (subst loop_tag) (simp_all add: h read_varint_encode length_encodeVarint)
qed

lemma loop_int64:
  assumes h: "\<And>pre cur m. h f 0 pre cur m = field_int64 0 cur put m"
    and t: "tag = 8 * f" and f: "0 < f" "f < 16" and x: "is_i64 x" and z: "x = 0 \<Longrightarrow> put x m = m"
  shows "unmarshal_loop h m i (put_int64 tag x rest) =
           unmarshal_loop h (put x m) (i + int (size_int64 x)) rest"
proof (cases "x = 0")
  case True
  then show ?thesis using z by (simp add: put_int64_def size_int64_def)
next
  case False
  have "unmarshal_loop h m i (byte (8 * f) # encodeVarint (u64 x) @ rest) =
      unmarshal_loop h (put (i64 (u64 x)) m) (i + 1 + int (sov (u64 x))) rest"
    by (intro loop_varint [where upd = "\<lambda>n. put (i64 n) m"])
      (use f in \<open>simp_all add: h field_int64_def u64_range [simplified]\<close>)
  with False x show ?thesis by (simp add: t put_int64_def size_int64_def add.assoc)
qed

lemma i32_u64: "i32 (u64 x) = i32 x"
proof -
  have "(x mod 2 ^ 64 + 2 ^ 31) mod 2 ^ 32 = (x + 2 ^ 31) mod (2 ^ 32 :: int)"
  proof -
    have "(x mod 2 ^ 64) mod 2 ^ 32 = x mod (2 ^ 32 :: int)"
      by (rule mod_mod_cancel) simp
    then show ?thesis by (metis mod_add_left_eq)
  qed
  then show ?thesis by (simp only: i32_def u64_def)
qed

lemma loop_enum:
  assumes h: "\<And>pre cur m. h f 0 pre cur m = field_enum 0 cur put m"
    and t: "tag = 8 * f" and f: "0 < f" "f < 16" and x: "is_i32 x" and z: "x = 0 \<Longrightarrow> put x m = m"
  shows "unmarshal_loop h m i (put_int64 tag x rest) =
           unmarshal_loop h (put x m) (i + int (size_int64 x)) rest"
proof (cases "x = 0")
  case True
  then show ?thesis using z by (simp add: put_int64_def size_int64_def)
next
  case False
  have "unmarshal_loop h m i (byte (8 * f) # encodeVarint (u64 x) @ rest) =
      unmarshal_loop h (put (i32 (u64 x)) m) (i + 1 + int (sov (u64 x))) rest"
    by (intro loop_varint [where upd = "\<lambda>n. put (i32 n) m"])
      (use f in \<open>simp_all add: h field_enum_def u64_range [simplified]\<close>)
  with False x show ?thesis by (simp add: t put_int64_def size_int64_def i32_u64 add.assoc)
qed

lemma loop_bool:
  assumes h: "\<And>pre cur m. h f 0 pre cur m = field_bool 0 cur put m"
    and t: "tag = 8 * f" and f: "0 < f" "f < 16" and z: "\<not> b \<Longrightarrow> put b m = m"
  shows "unmarshal_loop h m i (put_bool tag b rest) =
           unmarshal_loop h (put b m) (i + int (size_bool b)) rest"
proof (cases b)
  case True
  have "unmarshal_loop h m i (byte (8 * f) # encodeVarint 1 @ rest) =
      unmarshal_loop h (put (i64 1 \<noteq> 0) m) (i + 1 + int (sov 1)) rest"
    by (intro loop_varint [where upd = "\<lambda>n. put (i64 n \<noteq> 0) m"])
      (use f in \<open>simp_all add: h field_bool_def\<close>)
  moreover have "i + 1 + int (sov 1) = i + 2" by (simp add: sov_small)
  ultimately show ?thesis
    using True by (simp add: t put_bool_def size_bool_def encodeVarint_small is_i64_def)
qed (use z in \<open>simp add: put_bool_def size_bool_def\<close>)

lemma loop_end [simp]: "unmarshal_loop h m i [] = Ok m"
  by (simp add: unmarshal_loop.simps)

text \<open>A repeated string field: every element is written, and appended when it is read.\<close>

definition put_strings :: "int \<Rightarrow> string list \<Rightarrow> bytes \<Rightarrow> bytes" where
  "put_strings tag xs acc = foldr (put_bytes tag) xs acc"

definition size_strings :: "string list \<Rightarrow> nat" where
  "size_strings xs = (\<Sum>s\<leftarrow>xs. size_bytes (length s))"

lemma length_put_strings [simp]: "length (put_strings tag xs acc) = size_strings xs + length acc"
  by (induction xs) (simp_all add: put_strings_def size_strings_def)

lemma size_strings_member: "s \<in> set xs \<Longrightarrow> length s \<le> size_strings xs"
  by (induction xs) (auto simp: size_strings_def size_bytes_def)

lemma loop_strings:
  assumes h: "\<And>pre cur m. h f 2 pre cur m = field_string 2 cur put m"
    and t: "tag = 8 * f + 2" and f: "0 < f" "f < 16" and fits: "fits_int i (put_strings tag xs rest)"
  shows "unmarshal_loop h m i (put_strings tag xs rest) =
           unmarshal_loop h (fold put xs m) (i + int (size_strings xs)) rest"
  using fits
proof (induction xs arbitrary: m i)
  case Nil
  then show ?case by (simp add: put_strings_def size_strings_def)
next
  case (Cons x xs)
  let ?rest = "put_strings tag xs rest"
  have p: "put_strings tag (x # xs) rest = put_bytes tag x ?rest"
    by (simp add: put_strings_def)
  have "unmarshal_loop h m i (put_bytes tag x ?rest) =
      unmarshal_loop h (put x m) (i + int (size_bytes (length x))) ?rest"
    unfolding t
    by (intro loop_bytes [where upd = "\<lambda>s. Ok (put s m)"])
      (use f Cons.prems in \<open>simp_all add: h field_string_def split_beta put_strings_def t\<close>)
  moreover have "fits_int (i + int (size_bytes (length x))) ?rest"
    using Cons.prems by (simp add: p fits_int_def)
  ultimately show ?case
    using Cons.IH by (simp add: p size_strings_def add.assoc)
qed

section \<open>The contract of a message type\<close>

text \<open>
  What the keepers rely on: a well-formed message has an encoding and decoding gives it back.
  \<open>cdc.Marshal\<close> and \<open>cdc.MustUnmarshal\<close> run the generated methods of the message.
\<close>

locale message_codec =
  fixes Size :: "'m \<Rightarrow> nat" and Marshal :: "'m \<Rightarrow> bytes outcome"
    and Unmarshal :: "bytes \<Rightarrow> 'm outcome" and wf :: "'m \<Rightarrow> bool"
  assumes codec_roundtrip:
    "wf m \<Longrightarrow> \<exists>bz. Marshal m = Ok bz \<and> length bz = Size m \<and> Unmarshal bz = Ok m"
begin

lemma codec_obtain:
  assumes "wf m"
  obtains bz where "Marshal m = Ok bz" and "length bz = Size m" and "Unmarshal bz = Ok m"
  using codec_roundtrip [OF assms] by blast

lemma codec_decode: "wf m \<Longrightarrow> Marshal m = Ok bz \<Longrightarrow> Unmarshal bz = Ok m"
  by (metis codec_roundtrip outcome.inject(1))

lemma codec_inject: "wf m \<Longrightarrow> wf m' \<Longrightarrow> Marshal m = Ok bz \<Longrightarrow> Marshal m' = Ok bz \<Longrightarrow> m = m'"
  by (metis codec_decode outcome.inject(1))

end

end
