(* ===== verification/Oracle_Messages.thy ===== *)
theory Oracle_Messages
  imports Sdk Wire
begin

text \<open>
  The messages \<open>x/oracle\<close> stores (\<open>x/oracle/types/types.pb.go\<close>): a validator's feed, an
  aggregated price, one sample of the TWAP history and the module's parameters, each with
  its generated \<open>Size\<close>, \<open>MarshalToSizedBuffer\<close>, \<open>Marshal\<close> and \<open>Unmarshal\<close>. Each
  \<open>_roundtrip\<close> lemma shows that decoding the encoding of a well-formed message gives it
  back; it discharges the contract \<open>message_codec\<close> for that message.
\<close>

section \<open>Stored messages\<close>

subsection \<open>OracleFeed\<close>

record OracleFeed =
  feed_Validator :: string
  feed_Pair :: string
  feed_Price :: string
  feed_BlockHeight :: int

definition zero_OracleFeed :: OracleFeed where
  "zero_OracleFeed = \<lparr>feed_Validator = [], feed_Pair = [], feed_Price = [], feed_BlockHeight = 0\<rparr>"

definition OracleFeed_Size :: "OracleFeed \<Rightarrow> nat" where
  "OracleFeed_Size m =
     size_string (feed_Validator m) +
     size_string (feed_Pair m) +
     size_string (feed_Price m) +
     size_int64 (feed_BlockHeight m)"

definition OracleFeed_MarshalToSizedBuffer :: "OracleFeed \<Rightarrow> bytes outcome" where
  "OracleFeed_MarshalToSizedBuffer m =
     Ok (put_string 10 (feed_Validator m)
       (put_string 18 (feed_Pair m)
       (put_string 26 (feed_Price m)
       (put_int64 32 (feed_BlockHeight m)
       []))))"

definition OracleFeed_Marshal :: "OracleFeed \<Rightarrow> bytes outcome" where
  "OracleFeed_Marshal m = sized_buffer (OracleFeed_Size m) (OracleFeed_MarshalToSizedBuffer m)"

definition OracleFeed_field :: "OracleFeed handler" where
  "OracleFeed_field fieldNum wireType pre cur m =
     (if fieldNum = 1 then field_string wireType cur (\<lambda>v m. m\<lparr>feed_Validator := v\<rparr>) m
      else if fieldNum = 2 then field_string wireType cur (\<lambda>v m. m\<lparr>feed_Pair := v\<rparr>) m
      else if fieldNum = 3 then field_string wireType cur (\<lambda>v m. m\<lparr>feed_Price := v\<rparr>) m
      else if fieldNum = 4 then field_int64 wireType cur (\<lambda>v m. m\<lparr>feed_BlockHeight := v\<rparr>) m
      else field_skip pre m)"

definition OracleFeed_Unmarshal :: "bytes \<Rightarrow> OracleFeed outcome" where
  "OracleFeed_Unmarshal dAtA = unmarshal_loop (OracleFeed_field) zero_OracleFeed 0 dAtA"

text \<open>The values a OracleFeed of the program holds: Go integers and encodable times.\<close>

definition OracleFeed_wf :: "OracleFeed \<Rightarrow> bool" where
  "OracleFeed_wf m \<longleftrightarrow> is_i64 (feed_BlockHeight m) \<and> OracleFeed_Size m < 2 ^ 63"

lemma OracleFeed_handler:
  "OracleFeed_field 1 2 pre cur m = field_string 2 cur (\<lambda>v m. m\<lparr>feed_Validator := v\<rparr>) m"
  "OracleFeed_field 2 2 pre cur m = field_string 2 cur (\<lambda>v m. m\<lparr>feed_Pair := v\<rparr>) m"
  "OracleFeed_field 3 2 pre cur m = field_string 2 cur (\<lambda>v m. m\<lparr>feed_Price := v\<rparr>) m"
  "OracleFeed_field 4 0 pre cur m = field_int64 0 cur (\<lambda>v m. m\<lparr>feed_BlockHeight := v\<rparr>) m"
  by (simp_all add: OracleFeed_field_def)

lemmas OracleFeed_steps =
  loop_string [where h = "OracleFeed_field", OF OracleFeed_handler(1)]
  loop_string [where h = "OracleFeed_field", OF OracleFeed_handler(2)]
  loop_string [where h = "OracleFeed_field", OF OracleFeed_handler(3)]
  loop_int64 [where h = "OracleFeed_field", OF OracleFeed_handler(4)]

lemma OracleFeed_roundtrip:
  assumes wf: "OracleFeed_wf m"
  shows "\<exists>bz. OracleFeed_Marshal m = Ok bz \<and> length bz = OracleFeed_Size m \<and> OracleFeed_Unmarshal bz = Ok m"
proof -
  define bz where "bz = put_string 10 (feed_Validator m)
       (put_string 18 (feed_Pair m)
       (put_string 26 (feed_Price m)
       (put_int64 32 (feed_BlockHeight m)
       [])))"
  have w: "OracleFeed_MarshalToSizedBuffer m = Ok bz"
    by (simp add: OracleFeed_MarshalToSizedBuffer_def bz_def )
  have len: "length bz = OracleFeed_Size m"
    by (simp add: bz_def OracleFeed_Size_def )
  have lt: "length bz < 2 ^ 63" using wf by (simp add: len OracleFeed_wf_def)
  have "OracleFeed_Marshal m = Ok bz"
    by (simp add: OracleFeed_Marshal_def w len sized_buffer_exact)
  moreover have "OracleFeed_Unmarshal bz = Ok m"
    using wf lt
    by (simp add: OracleFeed_Unmarshal_def bz_def OracleFeed_wf_def OracleFeed_steps fits_int_def zero_OracleFeed_def  )
  ultimately show ?thesis using len by blast
qed

interpretation feed_codec: message_codec OracleFeed_Size OracleFeed_Marshal OracleFeed_Unmarshal OracleFeed_wf
  by unfold_locales (rule OracleFeed_roundtrip)

subsection \<open>AggregatedPrice\<close>

record AggregatedPrice =
  ap_Pair :: string
  ap_Price :: string
  ap_BlockHeight :: int
  ap_BlockTime :: time

definition zero_AggregatedPrice :: AggregatedPrice where
  "zero_AggregatedPrice = \<lparr>ap_Pair = [], ap_Price = [], ap_BlockHeight = 0, ap_BlockTime = zero_time\<rparr>"

definition AggregatedPrice_Size :: "time_lib \<Rightarrow> AggregatedPrice \<Rightarrow> nat" where
  "AggregatedPrice_Size T m =
     size_string (ap_Pair m) +
     size_string (ap_Price m) +
     size_int64 (ap_BlockHeight m) +
     size_bytes (SizeOfStdTime T (ap_BlockTime m))"

definition AggregatedPrice_MarshalToSizedBuffer :: "time_lib \<Rightarrow> AggregatedPrice \<Rightarrow> bytes outcome" where
  "AggregatedPrice_MarshalToSizedBuffer T m =
     obind (StdTimeMarshalTo T (ap_BlockTime m)) (\<lambda>bz_BlockTime.
     Ok (put_string 10 (ap_Pair m)
       (put_string 18 (ap_Price m)
       (put_int64 24 (ap_BlockHeight m)
       (put_bytes 34 bz_BlockTime [])))))"

definition AggregatedPrice_Marshal :: "time_lib \<Rightarrow> AggregatedPrice \<Rightarrow> bytes outcome" where
  "AggregatedPrice_Marshal T m = sized_buffer (AggregatedPrice_Size T m) (AggregatedPrice_MarshalToSizedBuffer T m)"

definition AggregatedPrice_field :: "time_lib \<Rightarrow> AggregatedPrice handler" where
  "AggregatedPrice_field T fieldNum wireType pre cur m =
     (if fieldNum = 1 then field_string wireType cur (\<lambda>v m. m\<lparr>ap_Pair := v\<rparr>) m
      else if fieldNum = 2 then field_string wireType cur (\<lambda>v m. m\<lparr>ap_Price := v\<rparr>) m
      else if fieldNum = 3 then field_int64 wireType cur (\<lambda>v m. m\<lparr>ap_BlockHeight := v\<rparr>) m
      else if fieldNum = 4 then field_msg wireType cur (StdTimeUnmarshal T) (\<lambda>v m. m\<lparr>ap_BlockTime := v\<rparr>) m
      else field_skip pre m)"

definition AggregatedPrice_Unmarshal :: "time_lib \<Rightarrow> bytes \<Rightarrow> AggregatedPrice outcome" where
  "AggregatedPrice_Unmarshal T dAtA = unmarshal_loop (AggregatedPrice_field T) zero_AggregatedPrice 0 dAtA"

text \<open>The values a AggregatedPrice of the program holds: Go integers and encodable times.\<close>

definition AggregatedPrice_wf :: "time_lib \<Rightarrow> AggregatedPrice \<Rightarrow> bool" where
  "AggregatedPrice_wf T m \<longleftrightarrow> is_i64 (ap_BlockHeight m) \<and> valid_time (ap_BlockTime m) \<and> AggregatedPrice_Size T m < 2 ^ 63"

lemma AggregatedPrice_handler:
  "AggregatedPrice_field T 1 2 pre cur m = field_string 2 cur (\<lambda>v m. m\<lparr>ap_Pair := v\<rparr>) m"
  "AggregatedPrice_field T 2 2 pre cur m = field_string 2 cur (\<lambda>v m. m\<lparr>ap_Price := v\<rparr>) m"
  "AggregatedPrice_field T 3 0 pre cur m = field_int64 0 cur (\<lambda>v m. m\<lparr>ap_BlockHeight := v\<rparr>) m"
  "AggregatedPrice_field T 4 2 pre cur m = field_msg 2 cur (StdTimeUnmarshal T) (\<lambda>v m. m\<lparr>ap_BlockTime := v\<rparr>) m"
  by (simp_all add: AggregatedPrice_field_def)

lemmas AggregatedPrice_steps =
  loop_string [where h = "AggregatedPrice_field T", OF AggregatedPrice_handler(1)]
  loop_string [where h = "AggregatedPrice_field T", OF AggregatedPrice_handler(2)]
  loop_int64 [where h = "AggregatedPrice_field T", OF AggregatedPrice_handler(3)]
  loop_msg [where h = "AggregatedPrice_field T", OF AggregatedPrice_handler(4)]
  for T

lemma AggregatedPrice_roundtrip:
  assumes T: "time_laws T" and wf: "AggregatedPrice_wf T m"
  shows "\<exists>bz. AggregatedPrice_Marshal T m = Ok bz \<and> length bz = AggregatedPrice_Size T m \<and> AggregatedPrice_Unmarshal T bz = Ok m"
proof -
  from wf have "valid_time (ap_BlockTime m)" by (simp add: AggregatedPrice_wf_def)
  with T obtain bz_BlockTime where tBlockTime: "StdTimeMarshalTo T (ap_BlockTime m) = Ok bz_BlockTime"
      "SizeOfStdTime T (ap_BlockTime m) = length bz_BlockTime" "StdTimeUnmarshal T bz_BlockTime = Ok (ap_BlockTime m)"
    by (metis time_lawsD)
  define bz where "bz = put_string 10 (ap_Pair m)
       (put_string 18 (ap_Price m)
       (put_int64 24 (ap_BlockHeight m)
       (put_bytes 34 bz_BlockTime [])))"
  have w: "AggregatedPrice_MarshalToSizedBuffer T m = Ok bz"
    by (simp add: AggregatedPrice_MarshalToSizedBuffer_def bz_def tBlockTime)
  have len: "length bz = AggregatedPrice_Size T m"
    by (simp add: bz_def AggregatedPrice_Size_def tBlockTime)
  have lt: "length bz < 2 ^ 63" using wf by (simp add: len AggregatedPrice_wf_def)
  have "AggregatedPrice_Marshal T m = Ok bz"
    by (simp add: AggregatedPrice_Marshal_def w len sized_buffer_exact)
  moreover have "AggregatedPrice_Unmarshal T bz = Ok m"
    using wf lt
    by (simp add: AggregatedPrice_Unmarshal_def bz_def AggregatedPrice_wf_def AggregatedPrice_steps fits_int_def zero_AggregatedPrice_def tBlockTime )
  ultimately show ?thesis using len by blast
qed

interpretation price_codec: message_codec "AggregatedPrice_Size T" "AggregatedPrice_Marshal T" "AggregatedPrice_Unmarshal T" "\<lambda>m. time_laws T \<and> AggregatedPrice_wf T m" for T
  by unfold_locales (blast intro: AggregatedPrice_roundtrip)

subsection \<open>TWAPEntry\<close>

record TWAPEntry =
  te_Pair :: string
  te_Price :: string
  te_BlockTime :: time

definition zero_TWAPEntry :: TWAPEntry where
  "zero_TWAPEntry = \<lparr>te_Pair = [], te_Price = [], te_BlockTime = zero_time\<rparr>"

definition TWAPEntry_Size :: "time_lib \<Rightarrow> TWAPEntry \<Rightarrow> nat" where
  "TWAPEntry_Size T m =
     size_string (te_Pair m) +
     size_string (te_Price m) +
     size_bytes (SizeOfStdTime T (te_BlockTime m))"

definition TWAPEntry_MarshalToSizedBuffer :: "time_lib \<Rightarrow> TWAPEntry \<Rightarrow> bytes outcome" where
  "TWAPEntry_MarshalToSizedBuffer T m =
     obind (StdTimeMarshalTo T (te_BlockTime m)) (\<lambda>bz_BlockTime.
     Ok (put_string 10 (te_Pair m)
       (put_string 18 (te_Price m)
       (put_bytes 26 bz_BlockTime []))))"

definition TWAPEntry_Marshal :: "time_lib \<Rightarrow> TWAPEntry \<Rightarrow> bytes outcome" where
  "TWAPEntry_Marshal T m = sized_buffer (TWAPEntry_Size T m) (TWAPEntry_MarshalToSizedBuffer T m)"

definition TWAPEntry_field :: "time_lib \<Rightarrow> TWAPEntry handler" where
  "TWAPEntry_field T fieldNum wireType pre cur m =
     (if fieldNum = 1 then field_string wireType cur (\<lambda>v m. m\<lparr>te_Pair := v\<rparr>) m
      else if fieldNum = 2 then field_string wireType cur (\<lambda>v m. m\<lparr>te_Price := v\<rparr>) m
      else if fieldNum = 3 then field_msg wireType cur (StdTimeUnmarshal T) (\<lambda>v m. m\<lparr>te_BlockTime := v\<rparr>) m
      else field_skip pre m)"

definition TWAPEntry_Unmarshal :: "time_lib \<Rightarrow> bytes \<Rightarrow> TWAPEntry outcome" where
  "TWAPEntry_Unmarshal T dAtA = unmarshal_loop (TWAPEntry_field T) zero_TWAPEntry 0 dAtA"

text \<open>The values a TWAPEntry of the program holds: Go integers and encodable times.\<close>

definition TWAPEntry_wf :: "time_lib \<Rightarrow> TWAPEntry \<Rightarrow> bool" where
  "TWAPEntry_wf T m \<longleftrightarrow> valid_time (te_BlockTime m) \<and> TWAPEntry_Size T m < 2 ^ 63"

lemma TWAPEntry_handler:
  "TWAPEntry_field T 1 2 pre cur m = field_string 2 cur (\<lambda>v m. m\<lparr>te_Pair := v\<rparr>) m"
  "TWAPEntry_field T 2 2 pre cur m = field_string 2 cur (\<lambda>v m. m\<lparr>te_Price := v\<rparr>) m"
  "TWAPEntry_field T 3 2 pre cur m = field_msg 2 cur (StdTimeUnmarshal T) (\<lambda>v m. m\<lparr>te_BlockTime := v\<rparr>) m"
  by (simp_all add: TWAPEntry_field_def)

lemmas TWAPEntry_steps =
  loop_string [where h = "TWAPEntry_field T", OF TWAPEntry_handler(1)]
  loop_string [where h = "TWAPEntry_field T", OF TWAPEntry_handler(2)]
  loop_msg [where h = "TWAPEntry_field T", OF TWAPEntry_handler(3)]
  for T

lemma TWAPEntry_roundtrip:
  assumes T: "time_laws T" and wf: "TWAPEntry_wf T m"
  shows "\<exists>bz. TWAPEntry_Marshal T m = Ok bz \<and> length bz = TWAPEntry_Size T m \<and> TWAPEntry_Unmarshal T bz = Ok m"
proof -
  from wf have "valid_time (te_BlockTime m)" by (simp add: TWAPEntry_wf_def)
  with T obtain bz_BlockTime where tBlockTime: "StdTimeMarshalTo T (te_BlockTime m) = Ok bz_BlockTime"
      "SizeOfStdTime T (te_BlockTime m) = length bz_BlockTime" "StdTimeUnmarshal T bz_BlockTime = Ok (te_BlockTime m)"
    by (metis time_lawsD)
  define bz where "bz = put_string 10 (te_Pair m)
       (put_string 18 (te_Price m)
       (put_bytes 26 bz_BlockTime []))"
  have w: "TWAPEntry_MarshalToSizedBuffer T m = Ok bz"
    by (simp add: TWAPEntry_MarshalToSizedBuffer_def bz_def tBlockTime)
  have len: "length bz = TWAPEntry_Size T m"
    by (simp add: bz_def TWAPEntry_Size_def tBlockTime)
  have lt: "length bz < 2 ^ 63" using wf by (simp add: len TWAPEntry_wf_def)
  have "TWAPEntry_Marshal T m = Ok bz"
    by (simp add: TWAPEntry_Marshal_def w len sized_buffer_exact)
  moreover have "TWAPEntry_Unmarshal T bz = Ok m"
    using wf lt
    by (simp add: TWAPEntry_Unmarshal_def bz_def TWAPEntry_wf_def TWAPEntry_steps fits_int_def zero_TWAPEntry_def tBlockTime )
  ultimately show ?thesis using len by blast
qed

interpretation twap_codec: message_codec "TWAPEntry_Size T" "TWAPEntry_Marshal T" "TWAPEntry_Unmarshal T" "\<lambda>m. time_laws T \<and> TWAPEntry_wf T m" for T
  by unfold_locales (blast intro: TWAPEntry_roundtrip)

subsection \<open>OracleParams\<close>

record OracleParams =
  op_VoteWindow :: int
  op_MissThreshold :: string
  op_MissSlashRate :: string
  op_OutlierSlashRate :: string
  op_OutlierThreshold :: string
  op_MissWindowSize :: int
  op_QuorumFraction :: string
  op_MaxPriceAge :: int
  op_AcceptList :: "string list"

definition zero_OracleParams :: OracleParams where
  "zero_OracleParams = \<lparr>op_VoteWindow = 0, op_MissThreshold = [], op_MissSlashRate = [], op_OutlierSlashRate = [], op_OutlierThreshold = [], op_MissWindowSize = 0, op_QuorumFraction = [], op_MaxPriceAge = 0, op_AcceptList = []\<rparr>"

definition OracleParams_Size :: "OracleParams \<Rightarrow> nat" where
  "OracleParams_Size m =
     size_int64 (op_VoteWindow m) +
     size_string (op_MissThreshold m) +
     size_string (op_MissSlashRate m) +
     size_string (op_OutlierSlashRate m) +
     size_string (op_OutlierThreshold m) +
     size_int64 (op_MissWindowSize m) +
     size_string (op_QuorumFraction m) +
     size_int64 (op_MaxPriceAge m) +
     size_strings (op_AcceptList m)"

definition OracleParams_MarshalToSizedBuffer :: "OracleParams \<Rightarrow> bytes outcome" where
  "OracleParams_MarshalToSizedBuffer m =
     Ok (put_int64 8 (op_VoteWindow m)
       (put_string 18 (op_MissThreshold m)
       (put_string 26 (op_MissSlashRate m)
       (put_string 34 (op_OutlierSlashRate m)
       (put_string 42 (op_OutlierThreshold m)
       (put_int64 48 (op_MissWindowSize m)
       (put_string 58 (op_QuorumFraction m)
       (put_int64 64 (op_MaxPriceAge m)
       (put_strings 74 (op_AcceptList m)
       [])))))))))"

definition OracleParams_Marshal :: "OracleParams \<Rightarrow> bytes outcome" where
  "OracleParams_Marshal m = sized_buffer (OracleParams_Size m) (OracleParams_MarshalToSizedBuffer m)"

definition OracleParams_field :: "OracleParams handler" where
  "OracleParams_field fieldNum wireType pre cur m =
     (if fieldNum = 1 then field_int64 wireType cur (\<lambda>v m. m\<lparr>op_VoteWindow := v\<rparr>) m
      else if fieldNum = 2 then field_string wireType cur (\<lambda>v m. m\<lparr>op_MissThreshold := v\<rparr>) m
      else if fieldNum = 3 then field_string wireType cur (\<lambda>v m. m\<lparr>op_MissSlashRate := v\<rparr>) m
      else if fieldNum = 4 then field_string wireType cur (\<lambda>v m. m\<lparr>op_OutlierSlashRate := v\<rparr>) m
      else if fieldNum = 5 then field_string wireType cur (\<lambda>v m. m\<lparr>op_OutlierThreshold := v\<rparr>) m
      else if fieldNum = 6 then field_int64 wireType cur (\<lambda>v m. m\<lparr>op_MissWindowSize := v\<rparr>) m
      else if fieldNum = 7 then field_string wireType cur (\<lambda>v m. m\<lparr>op_QuorumFraction := v\<rparr>) m
      else if fieldNum = 8 then field_int64 wireType cur (\<lambda>v m. m\<lparr>op_MaxPriceAge := v\<rparr>) m
      else if fieldNum = 9 then field_string wireType cur (\<lambda>v m. m\<lparr>op_AcceptList := op_AcceptList m @ [v]\<rparr>) m
      else field_skip pre m)"

definition OracleParams_Unmarshal :: "bytes \<Rightarrow> OracleParams outcome" where
  "OracleParams_Unmarshal dAtA = unmarshal_loop (OracleParams_field) zero_OracleParams 0 dAtA"

text \<open>The values a OracleParams of the program holds: Go integers and encodable times.\<close>

definition OracleParams_wf :: "OracleParams \<Rightarrow> bool" where
  "OracleParams_wf m \<longleftrightarrow> is_i64 (op_VoteWindow m) \<and> is_i64 (op_MissWindowSize m) \<and> is_i64 (op_MaxPriceAge m) \<and> OracleParams_Size m < 2 ^ 63"

lemma OracleParams_handler:
  "OracleParams_field 1 0 pre cur m = field_int64 0 cur (\<lambda>v m. m\<lparr>op_VoteWindow := v\<rparr>) m"
  "OracleParams_field 2 2 pre cur m = field_string 2 cur (\<lambda>v m. m\<lparr>op_MissThreshold := v\<rparr>) m"
  "OracleParams_field 3 2 pre cur m = field_string 2 cur (\<lambda>v m. m\<lparr>op_MissSlashRate := v\<rparr>) m"
  "OracleParams_field 4 2 pre cur m = field_string 2 cur (\<lambda>v m. m\<lparr>op_OutlierSlashRate := v\<rparr>) m"
  "OracleParams_field 5 2 pre cur m = field_string 2 cur (\<lambda>v m. m\<lparr>op_OutlierThreshold := v\<rparr>) m"
  "OracleParams_field 6 0 pre cur m = field_int64 0 cur (\<lambda>v m. m\<lparr>op_MissWindowSize := v\<rparr>) m"
  "OracleParams_field 7 2 pre cur m = field_string 2 cur (\<lambda>v m. m\<lparr>op_QuorumFraction := v\<rparr>) m"
  "OracleParams_field 8 0 pre cur m = field_int64 0 cur (\<lambda>v m. m\<lparr>op_MaxPriceAge := v\<rparr>) m"
  "OracleParams_field 9 2 pre cur m = field_string 2 cur (\<lambda>v m. m\<lparr>op_AcceptList := op_AcceptList m @ [v]\<rparr>) m"
  by (simp_all add: OracleParams_field_def)

lemmas OracleParams_steps =
  loop_int64 [where h = "OracleParams_field", OF OracleParams_handler(1)]
  loop_string [where h = "OracleParams_field", OF OracleParams_handler(2)]
  loop_string [where h = "OracleParams_field", OF OracleParams_handler(3)]
  loop_string [where h = "OracleParams_field", OF OracleParams_handler(4)]
  loop_string [where h = "OracleParams_field", OF OracleParams_handler(5)]
  loop_int64 [where h = "OracleParams_field", OF OracleParams_handler(6)]
  loop_string [where h = "OracleParams_field", OF OracleParams_handler(7)]
  loop_int64 [where h = "OracleParams_field", OF OracleParams_handler(8)]
  loop_strings [where h = "OracleParams_field", OF OracleParams_handler(9)]

lemma fold_append_op_AcceptList: "fold (\<lambda>v m. m\<lparr>op_AcceptList := op_AcceptList m @ [v]\<rparr>) xs m = m\<lparr>op_AcceptList := op_AcceptList m @ xs\<rparr>"
  by (induction xs arbitrary: m) simp_all

lemma OracleParams_roundtrip:
  assumes wf: "OracleParams_wf m"
  shows "\<exists>bz. OracleParams_Marshal m = Ok bz \<and> length bz = OracleParams_Size m \<and> OracleParams_Unmarshal bz = Ok m"
proof -
  define bz where "bz = put_int64 8 (op_VoteWindow m)
       (put_string 18 (op_MissThreshold m)
       (put_string 26 (op_MissSlashRate m)
       (put_string 34 (op_OutlierSlashRate m)
       (put_string 42 (op_OutlierThreshold m)
       (put_int64 48 (op_MissWindowSize m)
       (put_string 58 (op_QuorumFraction m)
       (put_int64 64 (op_MaxPriceAge m)
       (put_strings 74 (op_AcceptList m)
       []))))))))"
  have w: "OracleParams_MarshalToSizedBuffer m = Ok bz"
    by (simp add: OracleParams_MarshalToSizedBuffer_def bz_def )
  have len: "length bz = OracleParams_Size m"
    by (simp add: bz_def OracleParams_Size_def )
  have lt: "length bz < 2 ^ 63" using wf by (simp add: len OracleParams_wf_def)
  have "OracleParams_Marshal m = Ok bz"
    by (simp add: OracleParams_Marshal_def w len sized_buffer_exact)
  moreover have "OracleParams_Unmarshal bz = Ok m"
    using wf lt
    by (simp add: OracleParams_Unmarshal_def bz_def OracleParams_wf_def OracleParams_steps fits_int_def zero_OracleParams_def  fold_append_op_AcceptList)
  ultimately show ?thesis using len by blast
qed

interpretation params_codec: message_codec OracleParams_Size OracleParams_Marshal OracleParams_Unmarshal OracleParams_wf
  by unfold_locales (rule OracleParams_roundtrip)

end
