(* ===== verification/Stores.thy ===== *)
theory Stores
  imports Sdk Wire
begin

text \<open>
  Typed views of a module's store. A keeper files its values in families: all keys of a
  family start with the same byte and the rest of the key determines what is looked up.
  \<open>typed_at\<close> reads a family through its decoder; the locale \<open>key_family\<close> is the contract
  of the key functions, and its lemmas say what a write to one family does to the
  views of this and of every other one.
\<close>

section \<open>Reading a family\<close>

definition typed_at :: "('k \<Rightarrow> bool) \<Rightarrow> ('k \<Rightarrow> bytes) \<Rightarrow> (bytes \<Rightarrow> 'v outcome) \<Rightarrow> (bytes \<rightharpoonup> bytes) \<Rightarrow> 'k \<rightharpoonup> 'v" where
  "typed_at ok key decode m k =
     (if ok k
      then (case m (key k) of
              None \<Rightarrow> None
            | Some bz \<Rightarrow> (case decode bz of Ok x \<Rightarrow> Some x | _ \<Rightarrow> None))
      else None)"

lemma typed_at_SomeI: "ok k \<Longrightarrow> m (key k) = Some bz \<Longrightarrow> decode bz = Ok x \<Longrightarrow> typed_at ok key decode m k = Some x"
  by (simp add: typed_at_def)

lemma typed_at_None: "m (key k) = None \<Longrightarrow> typed_at ok key decode m k = None"
  by (simp add: typed_at_def)

lemma typed_at_SomeE:
  assumes "typed_at ok key decode m k = Some x"
  obtains bz where "ok k" and "m (key k) = Some bz" and "decode bz = Ok x"
  using assms by (auto simp: typed_at_def split: option.splits outcome.splits if_splits)

lemma typed_at_cong: "(\<And>k. m' (key k) = m (key k)) \<Longrightarrow> typed_at ok key decode m' = typed_at ok key decode m"
  by (rule ext) (simp add: typed_at_def)

text \<open>Every entry of the store whose key starts with the byte \<open>t\<close> satisfies \<open>P\<close>.\<close>

definition family_inv :: "char \<Rightarrow> (bytes \<Rightarrow> bytes \<Rightarrow> bool) \<Rightarrow> (bytes \<rightharpoonup> bytes) \<Rightarrow> bool" where
  "family_inv t P m \<longleftrightarrow> (\<forall>r v. m (t # r) = Some v \<longrightarrow> P (t # r) v)"

lemma family_invD: "family_inv t P m \<Longrightarrow> m k = Some v \<Longrightarrow> prefix [t] k \<Longrightarrow> P k v"
  by (auto simp: family_inv_def prefix_def)

lemma family_inv_scan:
  "family_inv t P m \<Longrightarrow> finite (dom m) \<Longrightarrow> prefix [t] p \<Longrightarrow> (k, v) \<in> set (prefix_entries m p) \<Longrightarrow> P k v"
  using prefix_order.trans family_invD by (fastforce simp: prefix_entries_iff)

lemma family_inv_empty [simp]: "family_inv t P Map.empty"
  by (simp add: family_inv_def)

lemma family_inv_put: "family_inv t P m \<Longrightarrow> P k v \<Longrightarrow> family_inv t P (m(k \<mapsto> v))"
  by (simp add: family_inv_def)

lemma family_inv_delete: "family_inv t P m \<Longrightarrow> family_inv t P (m(k := None))"
  by (simp add: family_inv_def)

lemma family_inv_clear: "family_inv t P m \<Longrightarrow> family_inv t P (drop_prefix p m)"
  by (simp add: family_inv_def drop_prefix_def)

lemma family_inv_subset: "family_inv t P m \<Longrightarrow> m' \<subseteq>\<^sub>m m \<Longrightarrow> family_inv t P m'"
  unfolding family_inv_def by (metis domI map_le_def)

lemma dropped_le: "(\<lambda>k. if k \<in> D then None else m k) \<subseteq>\<^sub>m m"
  by (auto simp: map_le_def split: if_splits)

lemma family_inv_other: "\<not> prefix [t] k \<Longrightarrow> family_inv t P (m(k := y)) \<longleftrightarrow> family_inv t P m"
  by (auto simp: family_inv_def prefix_def)

section \<open>The contract of a family's keys\<close>

locale key_family =
  fixes tag :: char and key :: "'k \<Rightarrow> bytes" and ok :: "'k \<Rightarrow> bool"
  assumes key_tag: "\<exists>r. key k = tag # r"
    and key_inject: "ok k \<Longrightarrow> ok k' \<Longrightarrow> key k = key k' \<Longrightarrow> k = k'"
    and key_bound: "ok k \<Longrightarrow> length (key k) < 2 ^ 17"
begin

lemma key_nonempty: "key k \<noteq> []"
  using key_tag [of k] by auto

lemma key_valid: "ok k \<Longrightarrow> valid_key (key k)"
  using key_bound by (simp add: valid_key_def key_nonempty)

lemma key_prefix: "prefix [tag] (key k)"
  using key_tag [of k] by auto

lemma at_put:
  assumes "ok k" and "decode bz = Ok x"
  shows "typed_at ok key decode (m(key k \<mapsto> bz)) = (typed_at ok key decode m)(k \<mapsto> x)"
proof
  fix k'
  show "typed_at ok key decode (m(key k \<mapsto> bz)) k' = ((typed_at ok key decode m)(k \<mapsto> x)) k'"
    using assms key_inject [of k k'] by (auto simp: typed_at_def)
qed

lemma at_delete:
  assumes "ok k"
  shows "typed_at ok key decode (m(key k := None)) = (typed_at ok key decode m)(k := None)"
proof
  fix k'
  show "typed_at ok key decode (m(key k := None)) k' = ((typed_at ok key decode m)(k := None)) k'"
    using assms key_inject [of k k'] by (auto simp: typed_at_def)
qed

lemma at_other:
  assumes "\<not> prefix [tag] b"
  shows "typed_at ok key decode (m(b := y)) = typed_at ok key decode m"
proof
  fix k
  show "typed_at ok key decode (m(b := y)) k = typed_at ok key decode m k"
    using assms key_prefix [of k] by (auto simp: typed_at_def)
qed

lemma at_clear: "typed_at ok key decode (drop_prefix [tag] m) = Map.empty"
  by (rule ext) (simp add: typed_at_def drop_prefix_def key_prefix del: prefix_Cons)

lemma at_clear_other:
  assumes "t \<noteq> tag"
  shows "typed_at ok key decode (drop_prefix [t] m) = typed_at ok key decode m"
proof
  fix k
  have "\<not> prefix [t] (key k)" using key_tag [of k] assms by auto
  then show "typed_at ok key decode (drop_prefix [t] m) k = typed_at ok key decode m k"
    by (simp add: typed_at_def drop_prefix_def)
qed

end

end
