(* ===== verification/Oracle_Types.thy ===== *)
theory Oracle_Types
  imports Oracle_Messages Stores
begin

text \<open>
  \<open>x/oracle/types\<close>: the module's errors and store keys, the validation of its parameters,
  messages and genesis state. The lemmas show that the keys of the different families never
  meet and that each family's key determines what it was built from.
\<close>

section \<open>Names and errors\<close>

definition ModuleName :: string where
  "ModuleName = ''oracle''"

definition StoreKey :: string where
  "StoreKey = ModuleName"

definition ErrInvalidSigner :: error where "ErrInvalidSigner = Registered ModuleName 2"
definition ErrUnauthorized :: error where "ErrUnauthorized = Registered ModuleName 3"
definition ErrInvalidPrice :: error where "ErrInvalidPrice = Registered ModuleName 4"
definition ErrPairNotAccepted :: error where "ErrPairNotAccepted = Registered ModuleName 5"
definition ErrNoPrice :: error where "ErrNoPrice = Registered ModuleName 6"
definition ErrStalePrice :: error where "ErrStalePrice = Registered ModuleName 7"
definition ErrNoTWAPData :: error where "ErrNoTWAPData = Registered ModuleName 8"
definition ErrNotBondedValidator :: error where "ErrNotBondedValidator = Registered ModuleName 9"
definition ErrFeederNotAuthorized :: error where "ErrFeederNotAuthorized = Registered ModuleName 10"
definition ErrFeederAlreadyBound :: error where "ErrFeederAlreadyBound = Registered ModuleName 11"
definition ErrInvalidParams :: error where "ErrInvalidParams = Registered ModuleName 12"
definition ErrInvalidPairFormat :: error where "ErrInvalidPairFormat = Registered ModuleName 13"

section \<open>Store keys\<close>

definition KeyPrefixFeed :: bytes where "KeyPrefixFeed = [byte 1]"
definition KeyPrefixAggregatedPrice :: bytes where "KeyPrefixAggregatedPrice = [byte 2]"
definition KeyPrefixTWAP :: bytes where "KeyPrefixTWAP = [byte 3]"
definition KeyPrefixMissCounter :: bytes where "KeyPrefixMissCounter = [byte 4]"
definition KeyPrefixTotalWindows :: bytes where "KeyPrefixTotalWindows = [byte 5]"
definition KeyParams :: bytes where "KeyParams = [byte 6]"
definition KeyPrefixFeederToValoper :: bytes where "KeyPrefixFeederToValoper = [byte 7]"
definition KeyPrefixValoperToFeeder :: bytes where "KeyPrefixValoperToFeeder = [byte 8]"

lemmas key_prefix_defs =
  KeyPrefixFeed_def KeyPrefixAggregatedPrice_def KeyPrefixTWAP_def KeyPrefixMissCounter_def
  KeyPrefixTotalWindows_def KeyParams_def KeyPrefixFeederToValoper_def KeyPrefixValoperToFeeder_def

definition FeedKey :: "addr_lib \<Rightarrow> addr \<Rightarrow> string \<Rightarrow> bytes outcome" where
  "FeedKey A val pair =
     obind (MustLengthPrefix A val) (\<lambda>prefixed. Ok (KeyPrefixFeed @ prefixed @ ''/'' @ pair))"

definition ParseFeedKey :: "bytes \<Rightarrow> (addr \<times> string) outcome" where
  "ParseFeedKey key =
     (if length key < length KeyPrefixFeed + 2 \<or> key ! 0 \<noteq> KeyPrefixFeed ! 0
      then Err (FmtError ''invalid feed key'')
      else let rest = drop (length KeyPrefixFeed) key
           in if length rest < 1 then Err (FmtError ''invalid feed key: missing validator'')
              else let addrLen = nat (byte_val (rest ! 0))
                   in if length rest < 1 + addrLen
                      then Err (FmtError ''invalid feed key: truncated validator'')
                      else let valBytes = take addrLen (drop 1 rest); rest = drop (1 + addrLen) rest
                           in if length rest = 0 \<or> rest ! 0 \<noteq> CHR ''/''
                              then Err (FmtError ''invalid feed key: missing pair'')
                              else Ok (valBytes, drop 1 rest))"

definition AggregatedPriceKey :: "string \<Rightarrow> bytes" where
  "AggregatedPriceKey pair = KeyPrefixAggregatedPrice @ pair"

definition TWAPPrefix :: "string \<Rightarrow> bytes" where
  "TWAPPrefix pair = KeyPrefixTWAP @ pair @ ''/''"

definition TWAPKey :: "string \<Rightarrow> time \<Rightarrow> bytes" where
  "TWAPKey pair ts = KeyPrefixTWAP @ pair @ ''/'' @ PutUint64 (u64 (UnixNano ts))"

definition FeedKeyPrefix :: bytes where
  "FeedKeyPrefix = KeyPrefixFeed"

definition MissCounterKey :: "addr \<Rightarrow> bytes" where
  "MissCounterKey val = KeyPrefixMissCounter @ val"

definition TotalWindowsKey :: "addr \<Rightarrow> bytes" where
  "TotalWindowsKey val = KeyPrefixTotalWindows @ val"

definition FeederToValoperKey :: "addr \<Rightarrow> bytes" where
  "FeederToValoperKey feeder = KeyPrefixFeederToValoper @ feeder"

definition ValoperToFeederKey :: "addr \<Rightarrow> bytes" where
  "ValoperToFeederKey val = KeyPrefixValoperToFeeder @ val"

lemmas key_defs =
  AggregatedPriceKey_def TWAPPrefix_def TWAPKey_def FeedKeyPrefix_def MissCounterKey_def
  TotalWindowsKey_def FeederToValoperKey_def ValoperToFeederKey_def

section \<open>Parameters\<close>

definition pairRegex :: "string \<Rightarrow> bool" where
  "pairRegex s = base_quote s"

definition DefaultParams :: OracleParams where
  "DefaultParams = \<lparr>
     op_VoteWindow = 10,
     op_MissThreshold = ''0.05'',
     op_MissSlashRate = ''0.005'',
     op_OutlierSlashRate = ''0.01'',
     op_OutlierThreshold = ''0.05'',
     op_MissWindowSize = 500,
     op_QuorumFraction = ''0.667'',
     op_MaxPriceAge = 300,
     op_AcceptList = [''VTX:USD'', ''BTC:USD'', ''ETH:USD'', ''ATOM:USD'', ''USDC:USD'']\<rparr>"

definition validateDecOpenClosed :: "math_lib \<Rightarrow> string \<Rightarrow> unit outcome" where
  "validateDecOpenClosed M s =
     (case LegacyNewDecFromStr M s of
        Err _ \<Rightarrow> Err ErrInvalidParams
      | Panic \<Rightarrow> Panic
      | Ok d \<Rightarrow> if d \<le> 0 \<or> d > LegacyNewDec M 1 then Err ErrInvalidParams else Ok ())"

definition validateSlashRate :: "math_lib \<Rightarrow> string \<Rightarrow> unit outcome" where
  "validateSlashRate M s =
     (case LegacyNewDecFromStr M s of
        Err _ \<Rightarrow> Err ErrInvalidParams
      | Panic \<Rightarrow> Panic
      | Ok d \<Rightarrow> let ceiling = LegacyNewDecWithPrec M 5 2
                in if d < 0 \<or> d \<ge> ceiling then Err ErrInvalidParams else Ok ())"

fun validate_accept_list :: "string list \<Rightarrow> string list \<Rightarrow> unit outcome" where
  "validate_accept_list seen [] = Ok ()"
| "validate_accept_list seen (pair # pairs) =
     (if \<not> pairRegex pair then Err ErrInvalidPairFormat
      else if pair \<in> set seen then Err ErrInvalidParams
      else validate_accept_list (pair # seen) pairs)"

definition OracleParams_Validate :: "math_lib \<Rightarrow> OracleParams \<Rightarrow> unit outcome" where
  "OracleParams_Validate M p =
     (if op_VoteWindow p \<le> 0 then Err ErrInvalidParams
      else if op_MissWindowSize p \<le> 0 then Err ErrInvalidParams
      else if op_MaxPriceAge p \<le> 0 then Err ErrInvalidParams
      else obind (validateDecOpenClosed M (op_MissThreshold p)) (\<lambda>_.
           obind (validateDecOpenClosed M (op_OutlierThreshold p)) (\<lambda>_.
           obind (validateDecOpenClosed M (op_QuorumFraction p)) (\<lambda>_.
           obind (validateSlashRate M (op_MissSlashRate p)) (\<lambda>_.
           obind (validateSlashRate M (op_OutlierSlashRate p)) (\<lambda>_.
             if op_AcceptList p = [] then Err ErrInvalidParams
             else validate_accept_list [] (op_AcceptList p)))))))"

definition AcceptListChanged :: "OracleParams \<Rightarrow> OracleParams \<Rightarrow> bool" where
  "AcceptListChanged p other =
     (if length (op_AcceptList p) \<noteq> length (op_AcceptList other) then True
      else list_ex (\<lambda>i. op_AcceptList p ! i \<noteq> op_AcceptList other ! i) [0..<length (op_AcceptList p)])"

definition PairAccepted :: "OracleParams \<Rightarrow> string \<Rightarrow> bool" where
  "PairAccepted p pair = list_ex (\<lambda>ap. ap = pair) (op_AcceptList p)"

section \<open>Messages\<close>

record MsgSetFeeder =
  msf_Validator :: string
  msf_Feeder :: string

record MsgSubmitFeed =
  msb_Feeder :: string
  msb_Validator :: string
  msb_Pair :: string
  msb_Price :: string

record MsgUpdateParams =
  mup_Authority :: string
  mup_Params :: OracleParams

definition MsgSetFeeder_ValidateBasic :: "addr_lib \<Rightarrow> MsgSetFeeder \<Rightarrow> unit outcome" where
  "MsgSetFeeder_ValidateBasic A m =
     obind (require_address (ValAddressFromBech32 A (msf_Validator m))) (\<lambda>_.
     require_address (AccAddressFromBech32 A (msf_Feeder m)))"

definition MsgSubmitFeed_ValidateBasic ::
    "math_lib \<Rightarrow> addr_lib \<Rightarrow> MsgSubmitFeed \<Rightarrow> unit outcome" where
  "MsgSubmitFeed_ValidateBasic M A m =
     obind (require_address (AccAddressFromBech32 A (msb_Feeder m))) (\<lambda>_.
     obind (require_address (ValAddressFromBech32 A (msb_Validator m))) (\<lambda>_.
       if msb_Pair m = '''' then Err ErrInvalidPairFormat
       else case LegacyNewDecFromStr M (msb_Price m) of
              Err _ \<Rightarrow> Err ErrInvalidPrice
            | Panic \<Rightarrow> Panic
            | Ok price \<Rightarrow> if \<not> price > 0 then Err ErrInvalidPrice else Ok ()))"

definition MsgUpdateParams_ValidateBasic ::
    "math_lib \<Rightarrow> addr_lib \<Rightarrow> MsgUpdateParams \<Rightarrow> unit outcome" where
  "MsgUpdateParams_ValidateBasic M A m =
     obind (require_address (AccAddressFromBech32 A (mup_Authority m))) (\<lambda>_.
     OracleParams_Validate M (mup_Params m))"

section \<open>Genesis\<close>

record FeederDelegation =
  fd_Validator :: string
  fd_Feeder :: string

record GenesisState =
  gs_Params :: OracleParams
  gs_Prices :: "AggregatedPrice list"
  gs_Feeders :: "FeederDelegation list"

definition DefaultGenesis :: GenesisState where
  "DefaultGenesis = \<lparr>gs_Params = DefaultParams, gs_Prices = [], gs_Feeders = []\<rparr>"

fun validate_prices :: "math_lib \<Rightarrow> OracleParams \<Rightarrow> string list \<Rightarrow> AggregatedPrice list \<Rightarrow> unit outcome" where
  "validate_prices M params seen [] = Ok ()"
| "validate_prices M params seen (p # ps) =
     (if \<not> PairAccepted params (ap_Pair p) then Err (FmtError ''pair not in accept_list'')
      else if ap_Pair p \<in> set seen then Err (FmtError ''duplicate pair'')
      else case LegacyNewDecFromStr M (ap_Price p) of
             Err _ \<Rightarrow> Err (FmtError ''invalid price'')
           | Panic \<Rightarrow> Panic
           | Ok price \<Rightarrow>
               if \<not> price > 0 then Err (FmtError ''price must be positive'')
               else if ap_BlockTime p = zero_time then Err (FmtError ''block_time must be set'')
               else validate_prices M params (ap_Pair p # seen) ps)"

fun validate_feeders :: "addr_lib \<Rightarrow> string list \<Rightarrow> FeederDelegation list \<Rightarrow> unit outcome" where
  "validate_feeders A seen [] = Ok ()"
| "validate_feeders A seen (fd # fds) =
     (case ValAddressFromBech32 A (fd_Validator fd) of
        Err _ \<Rightarrow> Err (FmtError ''invalid validator'')
      | Panic \<Rightarrow> Panic
      | Ok _ \<Rightarrow>
          (case AccAddressFromBech32 A (fd_Feeder fd) of
             Err _ \<Rightarrow> Err (FmtError ''invalid feeder'')
           | Panic \<Rightarrow> Panic
           | Ok _ \<Rightarrow>
               if fd_Feeder fd \<in> set seen then Err (FmtError ''duplicate feeder'')
               else validate_feeders A (fd_Feeder fd # seen) fds))"

definition GenesisState_Validate :: "math_lib \<Rightarrow> addr_lib \<Rightarrow> GenesisState \<Rightarrow> unit outcome" where
  "GenesisState_Validate M A gs =
     obind (OracleParams_Validate M (gs_Params gs)) (\<lambda>_.
     obind (validate_prices M (gs_Params gs) [] (gs_Prices gs)) (\<lambda>_.
     validate_feeders A [] (gs_Feeders gs)))"

definition ValidatePriceBlockTime :: "time \<Rightarrow> time \<Rightarrow> unit outcome" where
  "ValidatePriceBlockTime blockTime chainTime =
     (if blockTime > chainTime then Err (FmtError ''block_time is in the future'') else Ok ())"

section \<open>Events\<close>

definition EventTypeFeederSet :: string where "EventTypeFeederSet = ''oracle_feeder_set''"
definition EventTypeFeedSubmitted :: string where "EventTypeFeedSubmitted = ''oracle_feed_submitted''"
definition EventTypePriceAggregated :: string where "EventTypePriceAggregated = ''oracle_price_aggregated''"
definition EventTypeSlash :: string where "EventTypeSlash = ''oracle_slash''"
definition EventTypeParamsUpdated :: string where "EventTypeParamsUpdated = ''oracle_params_updated''"

section \<open>Properties of the keys\<close>

text \<open>The key of a feed when \<open>MustLengthPrefix\<close> does not panic.\<close>

definition feed_key :: "addr \<times> string \<Rightarrow> bytes" where
  "feed_key vp = KeyPrefixFeed @ byte (int (length (fst vp))) # fst vp @ ''/'' @ snd vp"

definition short :: "string \<Rightarrow> bool" where
  "short s \<longleftrightarrow> length s < 2 ^ 16"

definition feed_ok :: "addr \<times> string \<Rightarrow> bool" where
  "feed_ok vp \<longleftrightarrow> valid_addr (fst vp) \<and> short (snd vp)"

definition twap_key :: "string \<times> time \<Rightarrow> bytes" where
  "twap_key pt = TWAPKey (fst pt) (snd pt)"

definition twap_ok :: "string \<times> time \<Rightarrow> bool" where
  "twap_ok pt \<longleftrightarrow> short (fst pt) \<and> is_i64 (snd pt)"

lemma FeedKey_eq: "addr_laws A \<Longrightarrow> valid_addr val \<Longrightarrow> FeedKey A val pair = Ok (feed_key (val, pair))"
  by (simp add: FeedKey_def feed_key_def MustLengthPrefix_eq)

lemma ParseFeedKey_feed_key:
  assumes "valid_addr val"
  shows "ParseFeedKey (feed_key (val, pair)) = Ok (val, pair)"
proof -
  have "int (length val) mod 256 = int (length val)"
    using assms by (simp add: valid_addr_def)
  then show ?thesis
    using assms by (simp add: ParseFeedKey_def feed_key_def KeyPrefixFeed_def)
qed

lemma feed_key_inject: "valid_addr (fst k) \<Longrightarrow> valid_addr (fst k') \<Longrightarrow> feed_key k = feed_key k' \<Longrightarrow> k = k'"
  by (metis ParseFeedKey_feed_key outcome.inject(1) prod.collapse)

lemma ParseFeedKey_sound:
  assumes "ParseFeedKey key = Ok (val, pair)"
  shows "key = feed_key (val, pair) \<and> length val \<le> 255"
proof -
  have len: "\<not> length key < length KeyPrefixFeed + 2"
    using assms by (auto simp: ParseFeedKey_def)
  then obtain t n rest where key: "key = t # n # rest"
    by (cases key rule: remdups_adj.cases) (auto simp: KeyPrefixFeed_def)
  define addrLen where "addrLen = nat (byte_val n)"
  have t: "t = byte 1" and n: "addrLen \<le> length rest"
    and sep: "drop addrLen rest \<noteq> []" "drop addrLen rest ! 0 = CHR ''/''"
    and val: "val = take addrLen rest" and pair: "pair = drop 1 (drop addrLen rest)"
    using assms len
    by (simp_all add: ParseFeedKey_def key KeyPrefixFeed_def Let_def flip: addrLen_def split: if_splits)
  have "drop addrLen rest = CHR ''/'' # pair"
    using sep pair by (cases "drop addrLen rest") auto
  then have rest: "rest = val @ ''/'' @ pair"
    using append_take_drop_id [of addrLen rest] val by simp
  have "length val = addrLen" using val n by simp
  moreover have "byte (int addrLen) = n" "addrLen \<le> 255"
    using byte_val_range [of n] by (simp_all add: addrLen_def)
  ultimately show ?thesis
    by (simp add: key t rest feed_key_def KeyPrefixFeed_def)
qed

lemma PutUint64_inject:
  assumes "is_i64 a" and "is_i64 b" and "PutUint64 (u64 a) = PutUint64 (u64 b)"
  shows "a = b"
proof -
  have a: "Uint64 (PutUint64 (u64 a)) = Ok (u64 a)" by (rule Uint64_PutUint64 [OF u64_range])
  have b: "Uint64 (PutUint64 (u64 b)) = Ok (u64 b)" by (rule Uint64_PutUint64 [OF u64_range])
  have "u64 a = u64 b" using a b unfolding assms(3) by simp
  then have "i64 (u64 a) = i64 (u64 b)" by (rule arg_cong)
  then show ?thesis by (simp only: i64_u64 i64_id assms(1,2))
qed

lemma TWAPKey_inject:
  assumes "is_i64 t" and "is_i64 t'" and "TWAPKey pair t = TWAPKey pair' t'"
  shows "pair = pair' \<and> t = t'"
proof -
  have eq: "(pair @ ''/'') @ PutUint64 (u64 t) = (pair' @ ''/'') @ PutUint64 (u64 t')"
    using assms by (simp add: TWAPKey_def UnixNano_def)
  then have "pair @ ''/'' = pair' @ ''/''" and "PutUint64 (u64 t) = PutUint64 (u64 t')"
    by (simp_all add: append_eq_append_conv)
  then show ?thesis using PutUint64_inject [OF assms(1,2)] by simp
qed

interpretation params_keys: key_family "byte 6" "\<lambda>_ :: unit. KeyParams" "\<lambda>_. True"
  by unfold_locales (simp_all add: KeyParams_def)

interpretation price_keys: key_family "byte 2" AggregatedPriceKey short
  by unfold_locales (simp_all add: AggregatedPriceKey_def KeyPrefixAggregatedPrice_def short_def)

interpretation feed_keys: key_family "byte 1" feed_key feed_ok
proof unfold_locales
  fix k k' assume "feed_ok k" "feed_ok k'" "feed_key k = feed_key k'"
  then show "k = k'" by (simp add: feed_ok_def feed_key_inject)
qed (auto simp: feed_key_def KeyPrefixFeed_def feed_ok_def short_def valid_addr_def)

interpretation twap_keys: key_family "byte 3" twap_key twap_ok
proof unfold_locales
  fix k k' assume "twap_ok k" "twap_ok k'" "twap_key k = twap_key k'"
  then show "k = k'"
    using TWAPKey_inject [of "snd k" "snd k'" "fst k" "fst k'"]
    by (simp add: twap_ok_def twap_key_def prod_eq_iff)
qed (auto simp: twap_key_def TWAPKey_def KeyPrefixTWAP_def twap_ok_def short_def)

interpretation miss_keys: key_family "byte 4" MissCounterKey valid_addr
  by unfold_locales (auto simp: MissCounterKey_def KeyPrefixMissCounter_def valid_addr_def)

interpretation window_keys: key_family "byte 5" TotalWindowsKey valid_addr
  by unfold_locales (auto simp: TotalWindowsKey_def KeyPrefixTotalWindows_def valid_addr_def)

interpretation feeder_keys: key_family "byte 7" FeederToValoperKey valid_addr
  by unfold_locales (auto simp: FeederToValoperKey_def KeyPrefixFeederToValoper_def valid_addr_def)

interpretation valoper_keys: key_family "byte 8" ValoperToFeederKey valid_addr
  by unfold_locales (auto simp: ValoperToFeederKey_def KeyPrefixValoperToFeeder_def valid_addr_def)

section \<open>What the validation accepts\<close>

lemma validateDecOpenClosed_iff:
  assumes "math_laws M"
  shows "validateDecOpenClosed M s = Ok () \<longleftrightarrow> (\<exists>d. LegacyNewDecFromStr M s = Ok d \<and> 0 < d \<and> d \<le> dec_unit)"
  by (auto simp: validateDecOpenClosed_def LegacyNewDec_eq [OF assms] split: outcome.splits)

lemma validateSlashRate_iff:
  assumes "math_laws M"
  shows "validateSlashRate M s = Ok () \<longleftrightarrow> (\<exists>d. LegacyNewDecFromStr M s = Ok d \<and> 0 \<le> d \<and> 20 * d < dec_unit)"
  by (auto simp: validateSlashRate_def LegacyNewDecWithPrec_eq [OF assms] dec_unit_def Let_def split: outcome.splits)

lemma validate_accept_list_iff:
  "validate_accept_list seen ps = Ok () \<longleftrightarrow> list_all pairRegex ps \<and> distinct ps \<and> set ps \<inter> set seen = {}"
  by (induction ps arbitrary: seen) auto

text \<open>The parameters a chain can be given.\<close>

definition params_valid :: "math_lib \<Rightarrow> OracleParams \<Rightarrow> bool" where
  "params_valid M p \<longleftrightarrow>
     0 < op_VoteWindow p \<and> 0 < op_MissWindowSize p \<and> 0 < op_MaxPriceAge p \<and>
     (\<forall>s\<in>{op_MissThreshold p, op_OutlierThreshold p, op_QuorumFraction p}.
        \<exists>d. LegacyNewDecFromStr M s = Ok d \<and> 0 < d \<and> d \<le> dec_unit) \<and>
     (\<forall>s\<in>{op_MissSlashRate p, op_OutlierSlashRate p}.
        \<exists>d. LegacyNewDecFromStr M s = Ok d \<and> 0 \<le> d \<and> 20 * d < dec_unit) \<and>
     op_AcceptList p \<noteq> [] \<and> list_all pairRegex (op_AcceptList p) \<and> distinct (op_AcceptList p)"

lemma OracleParams_Validate_iff:
  assumes "math_laws M"
  shows "OracleParams_Validate M p = Ok () \<longleftrightarrow> params_valid M p"
  by (simp add: OracleParams_Validate_def params_valid_def obind_unit_Ok validateDecOpenClosed_iff [OF assms]
      validateSlashRate_iff [OF assms] validate_accept_list_iff not_le conj_ac)

lemma PairAccepted_iff: "PairAccepted p pair \<longleftrightarrow> pair \<in> set (op_AcceptList p)"
  by (auto simp: PairAccepted_def list_ex_iff)

lemma AcceptListChanged_iff: "AcceptListChanged p q \<longleftrightarrow> op_AcceptList p \<noteq> op_AcceptList q"
  unfolding AcceptListChanged_def list_eq_iff_nth_eq [of "op_AcceptList p" "op_AcceptList q"]
  by (simp add: list_ex_iff Bex_def)

lemma default_literals:
  assumes "math_laws M"
  shows "LegacyNewDecFromStr M ''0.05'' = Ok (5 * 10 ^ 16)" "LegacyNewDecFromStr M ''0.005'' = Ok (5 * 10 ^ 15)"
    "LegacyNewDecFromStr M ''0.01'' = Ok (10 ^ 16)" "LegacyNewDecFromStr M ''0.667'' = Ok (667 * 10 ^ 15)"
  using dec_literal [OF assms, of "''0''" "''05''"] dec_literal [OF assms, of "''0''" "''005''"]
    dec_literal [OF assms, of "''0''" "''01''"] dec_literal [OF assms, of "''0''" "''667''"]
  by (simp_all add: is_digit_def digits_val_def byte_val_def)

lemma DefaultParams_valid: "math_laws M \<Longrightarrow> OracleParams_Validate M DefaultParams = Ok ()"
  by (simp add: OracleParams_Validate_iff params_valid_def DefaultParams_def default_literals dec_unit_def
      pairRegex_def base_quote_def upper_alnum_def byte_val_def)

end
