(* ===== verification/Oracle_Keeper.thy ===== *)
theory Oracle_Keeper
  imports Oracle_Types
begin

text \<open>
  \<open>x/oracle/keeper/keeper.go\<close> and \<open>feeder.go\<close>: the accessors of the module's store. The
  lemmas give each operation's effect on the typed views of the store and that it
  keeps the store's invariant \<open>oracle_inv\<close>.
\<close>

section \<open>Parameters\<close>

definition GetParams :: "('s, 'x) env \<Rightarrow> ('s, 'x) ctx \<Rightarrow> OracleParams outcome" where
  "GetParams L c =
     obind (store_get L StoreKey KeyParams c) (\<lambda>bz.
       case bz of
         None \<Rightarrow> Ok DefaultParams
       | Some bz \<Rightarrow> must (OracleParams_Unmarshal bz))"

definition SetParams :: "('s, 'x) env \<Rightarrow> OracleParams \<Rightarrow> ('s, 'x) ctx \<Rightarrow> ('s, 'x) ctx outcome" where
  "SetParams L p c =
     obind (OracleParams_Validate (env_math L) p) (\<lambda>_.
     obind (OracleParams_Marshal p) (\<lambda>bz.
     store_set L StoreKey KeyParams bz c))"

section \<open>Prices\<close>

definition SetAggregatedPrice :: "('s, 'x) env \<Rightarrow> AggregatedPrice \<Rightarrow> ('s, 'x) ctx \<Rightarrow> ('s, 'x) ctx outcome" where
  "SetAggregatedPrice L ap c =
     obind (AggregatedPrice_Marshal (env_time L) ap) (\<lambda>bz.
     store_set L StoreKey (AggregatedPriceKey (ap_Pair ap)) bz c)"

definition GetAggregatedPrice :: "('s, 'x) env \<Rightarrow> string \<Rightarrow> ('s, 'x) ctx \<Rightarrow> AggregatedPrice outcome" where
  "GetAggregatedPrice L pair c =
     obind (GetParams L c) (\<lambda>params.
       if \<not> PairAccepted params pair then Err ErrPairNotAccepted
       else obind (store_get L StoreKey (AggregatedPriceKey pair) c) (\<lambda>bz.
         case bz of
           None \<Rightarrow> Err ErrNoPrice
         | Some bz \<Rightarrow>
             obind (must (AggregatedPrice_Unmarshal (env_time L) bz)) (\<lambda>ap.
               let age = time_sub (BlockTime c) (ap_BlockTime ap)
               in if age > dur_mul (op_MaxPriceAge params) Second then Err ErrStalePrice
                  else Ok ap)))"

definition GetPrice :: "('s, 'x) env \<Rightarrow> string \<Rightarrow> ('s, 'x) ctx \<Rightarrow> dec outcome" where
  "GetPrice L pair c =
     obind (GetAggregatedPrice L pair c) (\<lambda>ap. LegacyNewDecFromStr (env_math L) (ap_Price ap))"

interpretation oracle_feed: price_feed "env_math L" "GetPrice L" for L
  by unfold_locales (auto simp: GetPrice_def obind_eq_Ok intro: dec_from_str_fits)

section \<open>Feeds\<close>

definition SetFeed :: "('s, 'x) env \<Rightarrow> OracleFeed \<Rightarrow> ('s, 'x) ctx \<Rightarrow> ('s, 'x) ctx outcome" where
  "SetFeed L feed c =
     obind (ValAddressFromBech32 (env_addr L) (feed_Validator feed)) (\<lambda>val.
     obind (OracleFeed_Marshal feed) (\<lambda>bz.
     obind (FeedKey (env_addr L) val (feed_Pair feed)) (\<lambda>key.
     store_set L StoreKey key bz c)))"

definition GetFeed :: "('s, 'x) env \<Rightarrow> addr \<Rightarrow> string \<Rightarrow> ('s, 'x) ctx \<Rightarrow> OracleFeed option outcome" where
  "GetFeed L val pair c =
     obind (FeedKey (env_addr L) val pair) (\<lambda>key.
     obind (store_get L StoreKey key c) (\<lambda>bz.
       case bz of
         None \<Rightarrow> Ok None
       | Some bz \<Rightarrow> obind (must (OracleFeed_Unmarshal bz)) (\<lambda>feed. Ok (Some feed))))"

text \<open>
  The callback gets what it accumulates as an extra argument and says whether to go on;
  a key that does not parse is skipped.
\<close>

type_synonym 'a feed_callback = "addr \<Rightarrow> string \<Rightarrow> string \<Rightarrow> 'a \<Rightarrow> (bool \<times> 'a) outcome"

fun iterate_feeds :: "'a feed_callback \<Rightarrow> (bytes \<times> bytes) list \<Rightarrow> 'a \<Rightarrow> 'a outcome" where
  "iterate_feeds fn [] acc = Ok acc"
| "iterate_feeds fn ((key, value) # es) acc =
     (case ParseFeedKey key of
        Err _ \<Rightarrow> iterate_feeds fn es acc
      | Panic \<Rightarrow> Panic
      | Ok (val, pair) \<Rightarrow>
          obind (must (OracleFeed_Unmarshal value)) (\<lambda>feed.
          obind (fn val pair (feed_Price feed) acc) (\<lambda>(go, acc).
            if \<not> go then Ok acc else iterate_feeds fn es acc)))"

definition IterateAllFeeds :: "('s, 'x) env \<Rightarrow> ('s, 'x) ctx \<Rightarrow> 'a feed_callback \<Rightarrow> 'a \<Rightarrow> 'a outcome" where
  "IterateAllFeeds L c fn acc =
     obind (store_scan L StoreKey FeedKeyPrefix c) (\<lambda>entries. iterate_feeds fn entries acc)"

definition deleteAllWithPrefix :: "('s, 'x) env \<Rightarrow> bytes \<Rightarrow> ('s, 'x) ctx \<Rightarrow> ('s, 'x) ctx outcome" where
  "deleteAllWithPrefix L p c =
     obind (store_scan L StoreKey p c) (\<lambda>entries.
     ofold (\<lambda>key. store_delete L StoreKey key) (map fst entries) c)"

definition DeleteAllFeeds :: "('s, 'x) env \<Rightarrow> ('s, 'x) ctx \<Rightarrow> ('s, 'x) ctx outcome" where
  "DeleteAllFeeds L c =
     obind (store_scan L StoreKey FeedKeyPrefix c) (\<lambda>entries.
     ofold (\<lambda>key. store_delete L StoreKey key) (map fst entries) c)"

text \<open>The Go map with empty values is the list of its keys.\<close>

definition GetValidatorSubmittedPairs :: "('s, 'x) env \<Rightarrow> addr \<Rightarrow> ('s, 'x) ctx \<Rightarrow> string list outcome" where
  "GetValidatorSubmittedPairs L val c =
     IterateAllFeeds L c
       (\<lambda>v pair _ pairs. Ok (True, if v = val then List.insert pair pairs else pairs)) []"

section \<open>Miss counters\<close>

definition IncMissCounter :: "('s, 'x) env \<Rightarrow> addr \<Rightarrow> ('s, 'x) ctx \<Rightarrow> (int \<times> ('s, 'x) ctx) outcome" where
  "IncMissCounter L val c =
     (let key = MissCounterKey val
      in obind (store_get L StoreKey key c) (\<lambda>bz.
         obind (case bz of None \<Rightarrow> Ok 0 | Some bz \<Rightarrow> obind (Uint64 bz) (\<lambda>u. Ok (i64 u))) (\<lambda>count.
           let count = i64 (count + 1)
           in obind (store_set L StoreKey key (PutUint64 (u64 count)) c) (\<lambda>c. Ok (count, c)))))"

definition IncTotalWindows :: "('s, 'x) env \<Rightarrow> addr \<Rightarrow> ('s, 'x) ctx \<Rightarrow> (int \<times> ('s, 'x) ctx) outcome" where
  "IncTotalWindows L val c =
     (let key = TotalWindowsKey val
      in obind (store_get L StoreKey key c) (\<lambda>bz.
         obind (case bz of None \<Rightarrow> Ok 0 | Some bz \<Rightarrow> obind (Uint64 bz) (\<lambda>u. Ok (i64 u))) (\<lambda>count.
           let count = i64 (count + 1)
           in obind (store_set L StoreKey key (PutUint64 (u64 count)) c) (\<lambda>c. Ok (count, c)))))"

definition GetMissCounter :: "('s, 'x) env \<Rightarrow> addr \<Rightarrow> ('s, 'x) ctx \<Rightarrow> int outcome" where
  "GetMissCounter L val c =
     obind (store_get L StoreKey (MissCounterKey val) c) (\<lambda>bz.
       case bz of None \<Rightarrow> Ok 0 | Some bz \<Rightarrow> obind (Uint64 bz) (\<lambda>u. Ok (i64 u)))"

definition GetTotalWindows :: "('s, 'x) env \<Rightarrow> addr \<Rightarrow> ('s, 'x) ctx \<Rightarrow> int outcome" where
  "GetTotalWindows L val c =
     obind (store_get L StoreKey (TotalWindowsKey val) c) (\<lambda>bz.
       case bz of None \<Rightarrow> Ok 0 | Some bz \<Rightarrow> obind (Uint64 bz) (\<lambda>u. Ok (i64 u)))"

definition ResetMissCounters :: "('s, 'x) env \<Rightarrow> ('s, 'x) ctx \<Rightarrow> ('s, 'x) ctx outcome" where
  "ResetMissCounters L c =
     obind (deleteAllWithPrefix L KeyPrefixMissCounter c) (\<lambda>c.
     deleteAllWithPrefix L KeyPrefixTotalWindows c)"

definition ResetValidatorWindows :: "('s, 'x) env \<Rightarrow> addr \<Rightarrow> ('s, 'x) ctx \<Rightarrow> ('s, 'x) ctx outcome" where
  "ResetValidatorWindows L val c =
     obind (store_delete L StoreKey (MissCounterKey val) c) (\<lambda>c.
     store_delete L StoreKey (TotalWindowsKey val) c)"

section \<open>Feeder delegation\<close>

definition SetFeederDelegation :: "('s, 'x) env \<Rightarrow> addr \<Rightarrow> addr \<Rightarrow> ('s, 'x) ctx \<Rightarrow> ('s, 'x) ctx outcome" where
  "SetFeederDelegation L val feeder c =
     obind (store_get L StoreKey (FeederToValoperKey feeder) c) (\<lambda>existing.
       if existing \<noteq> None \<and> existing \<noteq> Some val then Err ErrFeederAlreadyBound
       else obind (store_set L StoreKey (FeederToValoperKey feeder) val c) (\<lambda>c.
            store_set L StoreKey (ValoperToFeederKey val) feeder c))"

definition GetFeederForValidator :: "('s, 'x) env \<Rightarrow> addr \<Rightarrow> ('s, 'x) ctx \<Rightarrow> addr option outcome" where
  "GetFeederForValidator L val c = store_get L StoreKey (ValoperToFeederKey val) c"

definition ResolveAuthorizedFeeder :: "('s, 'x) env \<Rightarrow> addr \<Rightarrow> ('s, 'x) ctx \<Rightarrow> addr outcome" where
  "ResolveAuthorizedFeeder L val c =
     obind (GetFeederForValidator L val c) (\<lambda>feeder.
       case feeder of Some feeder \<Rightarrow> Ok feeder | None \<Rightarrow> Ok val)"

section \<open>What the store represents\<close>

text \<open>The tables the keeper sees in the store.\<close>

record oracle_state =
  os_params :: OracleParams
  os_feeds :: "addr \<times> string \<rightharpoonup> OracleFeed"
  os_prices :: "string \<rightharpoonup> AggregatedPrice"
  os_twap :: "string \<times> time \<rightharpoonup> TWAPEntry"
  os_miss :: "addr \<rightharpoonup> int"
  os_windows :: "addr \<rightharpoonup> int"
  os_valoper :: "addr \<rightharpoonup> addr"
  os_feeder :: "addr \<rightharpoonup> addr"

definition decode_counter :: "bytes \<Rightarrow> int outcome" where
  "decode_counter bz = obind (Uint64 bz) (\<lambda>u. Ok (i64 u))"

definition oracle_abs :: "time_lib \<Rightarrow> (bytes \<rightharpoonup> bytes) \<Rightarrow> oracle_state" where
  "oracle_abs T m = \<lparr>
     os_params = (case typed_at (\<lambda>_. True) (\<lambda>_ :: unit. KeyParams) OracleParams_Unmarshal m () of
                    Some p \<Rightarrow> p | None \<Rightarrow> DefaultParams),
     os_feeds = typed_at feed_ok feed_key OracleFeed_Unmarshal m,
     os_prices = typed_at short AggregatedPriceKey (AggregatedPrice_Unmarshal T) m,
     os_twap = typed_at twap_ok twap_key (TWAPEntry_Unmarshal T) m,
     os_miss = typed_at valid_addr MissCounterKey decode_counter m,
     os_windows = typed_at valid_addr TotalWindowsKey decode_counter m,
     os_valoper = typed_at valid_addr FeederToValoperKey Ok m,
     os_feeder = typed_at valid_addr ValoperToFeederKey Ok m\<rparr>"

definition oracle_of :: "('s, 'x) env \<Rightarrow> ('s \<Rightarrow> bytes \<rightharpoonup> bytes) \<Rightarrow> ('s, 'x) ctx \<Rightarrow> oracle_state" where
  "oracle_of L view c = oracle_abs (env_time L) (store_view view StoreKey c)"

lemma key_tags:
  "prefix [t] KeyParams \<longleftrightarrow> t = byte 6" "prefix [t] (feed_key k) \<longleftrightarrow> t = byte 1"
  "prefix [t] (AggregatedPriceKey p) \<longleftrightarrow> t = byte 2" "prefix [t] (twap_key pt) \<longleftrightarrow> t = byte 3"
  "prefix [t] (MissCounterKey a) \<longleftrightarrow> t = byte 4" "prefix [t] (TotalWindowsKey a) \<longleftrightarrow> t = byte 5"
  "prefix [t] (FeederToValoperKey a) \<longleftrightarrow> t = byte 7" "prefix [t] (ValoperToFeederKey a) \<longleftrightarrow> t = byte 8"
  by (simp_all add: key_prefix_defs key_defs feed_key_def twap_key_def)

lemmas family_at_other =
  params_keys.at_other feed_keys.at_other price_keys.at_other twap_keys.at_other
  miss_keys.at_other window_keys.at_other feeder_keys.at_other valoper_keys.at_other

lemmas family_at_clear_other =
  params_keys.at_clear_other feed_keys.at_clear_other price_keys.at_clear_other twap_keys.at_clear_other
  miss_keys.at_clear_other window_keys.at_clear_other feeder_keys.at_clear_other valoper_keys.at_clear_other

lemma abs_put:
  "OracleParams_Unmarshal bz = Ok p \<Longrightarrow> oracle_abs T (m(KeyParams \<mapsto> bz)) = (oracle_abs T m)\<lparr>os_params := p\<rparr>"
  "feed_ok k \<Longrightarrow> OracleFeed_Unmarshal bz = Ok f \<Longrightarrow>
     oracle_abs T (m(feed_key k \<mapsto> bz)) = (oracle_abs T m)\<lparr>os_feeds := (os_feeds (oracle_abs T m))(k \<mapsto> f)\<rparr>"
  "short pair \<Longrightarrow> AggregatedPrice_Unmarshal T bz = Ok ap \<Longrightarrow>
     oracle_abs T (m(AggregatedPriceKey pair \<mapsto> bz)) =
       (oracle_abs T m)\<lparr>os_prices := (os_prices (oracle_abs T m))(pair \<mapsto> ap)\<rparr>"
  "twap_ok pt \<Longrightarrow> TWAPEntry_Unmarshal T bz = Ok e \<Longrightarrow>
     oracle_abs T (m(twap_key pt \<mapsto> bz)) = (oracle_abs T m)\<lparr>os_twap := (os_twap (oracle_abs T m))(pt \<mapsto> e)\<rparr>"
  "valid_addr a \<Longrightarrow> decode_counter bz = Ok n \<Longrightarrow>
     oracle_abs T (m(MissCounterKey a \<mapsto> bz)) = (oracle_abs T m)\<lparr>os_miss := (os_miss (oracle_abs T m))(a \<mapsto> n)\<rparr>"
  "valid_addr a \<Longrightarrow> decode_counter bz = Ok n \<Longrightarrow>
     oracle_abs T (m(TotalWindowsKey a \<mapsto> bz)) = (oracle_abs T m)\<lparr>os_windows := (os_windows (oracle_abs T m))(a \<mapsto> n)\<rparr>"
  "valid_addr a \<Longrightarrow>
     oracle_abs T (m(FeederToValoperKey a \<mapsto> bz)) = (oracle_abs T m)\<lparr>os_valoper := (os_valoper (oracle_abs T m))(a \<mapsto> bz)\<rparr>"
  "valid_addr a \<Longrightarrow>
     oracle_abs T (m(ValoperToFeederKey a \<mapsto> bz)) = (oracle_abs T m)\<lparr>os_feeder := (os_feeder (oracle_abs T m))(a \<mapsto> bz)\<rparr>"
  by (simp_all add: oracle_abs_def family_at_other key_tags feed_keys.at_put price_keys.at_put twap_keys.at_put
      miss_keys.at_put window_keys.at_put feeder_keys.at_put valoper_keys.at_put typed_at_SomeI)

lemma abs_delete:
  "twap_ok pt \<Longrightarrow> oracle_abs T (m(twap_key pt := None)) = (oracle_abs T m)\<lparr>os_twap := (os_twap (oracle_abs T m))(pt := None)\<rparr>"
  "valid_addr a \<Longrightarrow> oracle_abs T (m(MissCounterKey a := None)) = (oracle_abs T m)\<lparr>os_miss := (os_miss (oracle_abs T m))(a := None)\<rparr>"
  "valid_addr a \<Longrightarrow> oracle_abs T (m(TotalWindowsKey a := None)) =
     (oracle_abs T m)\<lparr>os_windows := (os_windows (oracle_abs T m))(a := None)\<rparr>"
  by (simp_all add: oracle_abs_def family_at_other key_tags twap_keys.at_delete miss_keys.at_delete window_keys.at_delete)

lemma abs_clear:
  "oracle_abs T (drop_prefix KeyPrefixFeed m) = (oracle_abs T m)\<lparr>os_feeds := Map.empty\<rparr>"
  "oracle_abs T (drop_prefix KeyPrefixMissCounter m) = (oracle_abs T m)\<lparr>os_miss := Map.empty\<rparr>"
  "oracle_abs T (drop_prefix KeyPrefixTotalWindows m) = (oracle_abs T m)\<lparr>os_windows := Map.empty\<rparr>"
  by (simp_all add: oracle_abs_def KeyPrefixFeed_def KeyPrefixMissCounter_def KeyPrefixTotalWindows_def family_at_clear_other
      feed_keys.at_clear miss_keys.at_clear window_keys.at_clear)

lemma abs_agree_but_twap:
  assumes "\<And>k. \<not> prefix [byte 3] k \<Longrightarrow> m' k = m k"
  shows "oracle_abs T m' = (oracle_abs T m)\<lparr>os_twap := os_twap (oracle_abs T m')\<rparr>"
proof -
  have eq: "m' (feed_key k) = m (feed_key k)" "m' (AggregatedPriceKey p) = m (AggregatedPriceKey p)" "m' KeyParams = m KeyParams"
    "m' (MissCounterKey a) = m (MissCounterKey a)" "m' (TotalWindowsKey a) = m (TotalWindowsKey a)"
    "m' (FeederToValoperKey a) = m (FeederToValoperKey a)" "m' (ValoperToFeederKey a) = m (ValoperToFeederKey a)" for k p a
    by (rule assms, simp add: key_tags)+
  show ?thesis by (simp add: oracle_abs_def typed_at_cong [of m' _ m] eq)
qed

section \<open>The invariant of the store\<close>

definition pair_ok :: "string \<Rightarrow> bool" where
  "pair_ok p \<longleftrightarrow> pairRegex p \<and> short p"

definition price_ok :: "math_lib \<Rightarrow> string \<Rightarrow> bool" where
  "price_ok M s \<longleftrightarrow> (case LegacyNewDecFromStr M s of Ok d \<Rightarrow> 0 < d | _ \<Rightarrow> False)"

definition params_ok :: "math_lib \<Rightarrow> OracleParams \<Rightarrow> bool" where
  "params_ok M p \<longleftrightarrow> OracleParams_Validate M p = Ok () \<and> OracleParams_wf p \<and> OracleParams_Size p < 2 ^ 16"

definition params_entry :: "math_lib \<Rightarrow> bytes \<Rightarrow> bytes \<Rightarrow> bool" where
  "params_entry M k v \<longleftrightarrow> (case OracleParams_Unmarshal v of Ok p \<Rightarrow> params_ok M p | _ \<Rightarrow> False)"

definition feed_entry :: "math_lib \<Rightarrow> addr_lib \<Rightarrow> bytes \<Rightarrow> bytes \<Rightarrow> bool" where
  "feed_entry M A k v \<longleftrightarrow>
     (case OracleFeed_Unmarshal v of
        Ok f \<Rightarrow> (case ValAddressFromBech32 A (feed_Validator f) of
                   Ok val \<Rightarrow> k = feed_key (val, feed_Pair f) \<and> feed_ok (val, feed_Pair f) \<and> price_ok M (feed_Price f)
                 | _ \<Rightarrow> False)
      | _ \<Rightarrow> False)"

definition price_entry :: "math_lib \<Rightarrow> time_lib \<Rightarrow> bytes \<Rightarrow> bytes \<Rightarrow> bool" where
  "price_entry M T k v \<longleftrightarrow>
     (case AggregatedPrice_Unmarshal T v of
        Ok ap \<Rightarrow> k = AggregatedPriceKey (ap_Pair ap) \<and> pair_ok (ap_Pair ap) \<and> price_ok M (ap_Price ap)
      | _ \<Rightarrow> False)"

definition twap_entry :: "math_lib \<Rightarrow> time_lib \<Rightarrow> bytes \<Rightarrow> bytes \<Rightarrow> bool" where
  "twap_entry M T k v \<longleftrightarrow>
     (case TWAPEntry_Unmarshal T v of
        Ok e \<Rightarrow> k = twap_key (te_Pair e, te_BlockTime e) \<and> pair_ok (te_Pair e) \<and>
                0 \<le> te_BlockTime e \<and> te_BlockTime e < 2 ^ 63 \<and> price_ok M (te_Price e)
      | _ \<Rightarrow> False)"

definition counter_entry :: "(addr \<Rightarrow> bytes) \<Rightarrow> bytes \<Rightarrow> bytes \<Rightarrow> bool" where
  "counter_entry key k v \<longleftrightarrow> (\<exists>a n. k = key a \<and> valid_addr a \<and> 0 \<le> n \<and> n < 2 ^ 63 \<and> v = PutUint64 n)"

definition address_entry :: "(addr \<Rightarrow> bytes) \<Rightarrow> bytes \<Rightarrow> bytes \<Rightarrow> bool" where
  "address_entry key k v \<longleftrightarrow> (\<exists>a. k = key a \<and> valid_addr a) \<and> valid_addr v"

text \<open>
  Every entry decodes to a record that belongs under its key and is acceptable; a
  validator's feeder is bound to that validator, and no validator has missed more windows
  than were counted.
\<close>

definition families_ok :: "('s, 'x) env \<Rightarrow> (bytes \<rightharpoonup> bytes) \<Rightarrow> bool" where
  "families_ok L m \<longleftrightarrow>
     family_inv (byte 1) (feed_entry (env_math L) (env_addr L)) m \<and>
     family_inv (byte 2) (price_entry (env_math L) (env_time L)) m \<and>
     family_inv (byte 3) (twap_entry (env_math L) (env_time L)) m \<and>
     family_inv (byte 4) (counter_entry MissCounterKey) m \<and>
     family_inv (byte 5) (counter_entry TotalWindowsKey) m \<and>
     family_inv (byte 6) (params_entry (env_math L)) m \<and>
     family_inv (byte 7) (address_entry FeederToValoperKey) m \<and>
     family_inv (byte 8) (address_entry ValoperToFeederKey) m"

definition feeders_linked :: "oracle_state \<Rightarrow> bool" where
  "feeders_linked S \<longleftrightarrow> (\<forall>val feeder. os_feeder S val = Some feeder \<longrightarrow> os_valoper S feeder = Some val)"

definition counts :: "(addr \<rightharpoonup> int) \<Rightarrow> addr \<Rightarrow> int" where
  "counts m a = (case m a of Some n \<Rightarrow> n | None \<Rightarrow> 0)"

definition misses_counted :: "oracle_state \<Rightarrow> bool" where
  "misses_counted S \<longleftrightarrow> (\<forall>a. counts (os_miss S) a \<le> counts (os_windows S) a)"

definition oracle_inv :: "('s, 'x) env \<Rightarrow> ('s \<Rightarrow> bytes \<rightharpoonup> bytes) \<Rightarrow> ('s, 'x) ctx \<Rightarrow> bool" where
  "oracle_inv L view c \<longleftrightarrow> families_ok L (store_view view StoreKey c) \<and>
     feeders_linked (oracle_of L view c) \<and> misses_counted (oracle_of L view c)"

lemma families_put:
  "families_ok L m \<Longrightarrow> params_entry (env_math L) KeyParams bz \<Longrightarrow> families_ok L (m(KeyParams \<mapsto> bz))"
  "families_ok L m \<Longrightarrow> feed_entry (env_math L) (env_addr L) (feed_key k) bz \<Longrightarrow> families_ok L (m(feed_key k \<mapsto> bz))"
  "families_ok L m \<Longrightarrow> price_entry (env_math L) (env_time L) (AggregatedPriceKey pair) bz \<Longrightarrow>
     families_ok L (m(AggregatedPriceKey pair \<mapsto> bz))"
  "families_ok L m \<Longrightarrow> twap_entry (env_math L) (env_time L) (twap_key pt) bz \<Longrightarrow> families_ok L (m(twap_key pt \<mapsto> bz))"
  "families_ok L m \<Longrightarrow> counter_entry MissCounterKey (MissCounterKey a) bz \<Longrightarrow> families_ok L (m(MissCounterKey a \<mapsto> bz))"
  "families_ok L m \<Longrightarrow> counter_entry TotalWindowsKey (TotalWindowsKey a) bz \<Longrightarrow> families_ok L (m(TotalWindowsKey a \<mapsto> bz))"
  "families_ok L m \<Longrightarrow> address_entry FeederToValoperKey (FeederToValoperKey a) bz \<Longrightarrow>
     families_ok L (m(FeederToValoperKey a \<mapsto> bz))"
  "families_ok L m \<Longrightarrow> address_entry ValoperToFeederKey (ValoperToFeederKey a) bz \<Longrightarrow>
     families_ok L (m(ValoperToFeederKey a \<mapsto> bz))"
  by (simp_all add: families_ok_def family_inv_other key_tags family_inv_put)

lemma families_subset: "families_ok L m \<Longrightarrow> m' \<subseteq>\<^sub>m m \<Longrightarrow> families_ok L m'"
  unfolding families_ok_def by (blast intro: family_inv_subset)

lemma families_delete: "families_ok L m \<Longrightarrow> families_ok L (m(k := None))"
  by (simp add: families_ok_def family_inv_delete)

lemma families_clear: "families_ok L m \<Longrightarrow> families_ok L (drop_prefix p m)"
  by (simp add: families_ok_def family_inv_clear)

section \<open>Reading\<close>

lemma DefaultParams_ok:
  assumes "math_laws M"
  shows "params_ok M DefaultParams"
proof -
  have "OracleParams_Size DefaultParams < 2 ^ 16"
    using size_int64_le [of 500] size_int64_le [of 300] size_int64_le [of 10]
    by (simp add: OracleParams_Size_def DefaultParams_def size_string_def size_strings_def size_bytes_def sov_small)
  then show ?thesis
    by (simp add: params_ok_def DefaultParams_valid [OF assms] OracleParams_wf_def)
      (simp add: DefaultParams_def is_i64_def)
qed

lemma params_ok_pairs: "params_ok M p \<Longrightarrow> math_laws M \<Longrightarrow> pair \<in> set (op_AcceptList p) \<Longrightarrow> pair_ok pair"
  using size_strings_member [of pair "op_AcceptList p"]
  by (auto simp: params_ok_def OracleParams_Validate_iff params_valid_def list_all_iff pair_ok_def short_def OracleParams_Size_def)

lemma oracle_invD:
  assumes "oracle_inv L view c"
  shows inv_families: "families_ok L (store_view view StoreKey c)"
    and inv_linked: "feeders_linked (oracle_of L view c)"
    and inv_counted: "misses_counted (oracle_of L view c)"
  using assms by (simp_all add: oracle_inv_def)

lemma families_okD:
  assumes "families_ok L m"
  shows "m (feed_key k) = Some v \<Longrightarrow> feed_entry (env_math L) (env_addr L) (feed_key k) v"
    and "m (AggregatedPriceKey pair) = Some v \<Longrightarrow> price_entry (env_math L) (env_time L) (AggregatedPriceKey pair) v"
    and "m (twap_key pt) = Some v \<Longrightarrow> twap_entry (env_math L) (env_time L) (twap_key pt) v"
    and "m (MissCounterKey a) = Some v \<Longrightarrow> counter_entry MissCounterKey (MissCounterKey a) v"
    and "m (TotalWindowsKey a) = Some v \<Longrightarrow> counter_entry TotalWindowsKey (TotalWindowsKey a) v"
    and "m KeyParams = Some v \<Longrightarrow> params_entry (env_math L) KeyParams v"
    and "m (FeederToValoperKey a) = Some v \<Longrightarrow> address_entry FeederToValoperKey (FeederToValoperKey a) v"
    and "m (ValoperToFeederKey a) = Some v \<Longrightarrow> address_entry ValoperToFeederKey (ValoperToFeederKey a) v"
  using assms unfolding families_ok_def by (blast intro: family_invD key_tags [THEN iffD2])+

lemma GetParams_eq:
  assumes L: "sdk_laws L view" and inv: "oracle_inv L view c"
  shows "GetParams L c = Ok (os_params (oracle_of L view c))"
    and "params_ok (env_math L) (os_params (oracle_of L view c))"
proof -
  have get: "store_get L StoreKey KeyParams c = Ok (store_view view StoreKey c KeyParams)"
    by (rule store_get_eq [OF L params_keys.key_valid]) simp
  have "GetParams L c = Ok (os_params (oracle_of L view c)) \<and> params_ok (env_math L) (os_params (oracle_of L view c))"
  proof (cases "store_view view StoreKey c KeyParams")
    case None
    then show ?thesis
      by (simp add: GetParams_def get oracle_of_def oracle_abs_def typed_at_def DefaultParams_ok [OF sdk_math [OF L]])
  next
    case (Some bz)
    with families_okD(6) [OF inv_families [OF inv]] obtain p
      where "OracleParams_Unmarshal bz = Ok p" "params_ok (env_math L) p"
      by (auto simp: params_entry_def split: outcome.splits)
    with Some show ?thesis by (simp add: GetParams_def get oracle_of_def oracle_abs_def typed_at_def)
  qed
  then show "GetParams L c = Ok (os_params (oracle_of L view c))"
    and "params_ok (env_math L) (os_params (oracle_of L view c))" by simp_all
qed

lemma oracle_of_fields:
  "os_feeds (oracle_of L view c) = typed_at feed_ok feed_key OracleFeed_Unmarshal (store_view view StoreKey c)"
  "os_prices (oracle_of L view c) =
     typed_at short AggregatedPriceKey (AggregatedPrice_Unmarshal (env_time L)) (store_view view StoreKey c)"
  "os_twap (oracle_of L view c) = typed_at twap_ok twap_key (TWAPEntry_Unmarshal (env_time L)) (store_view view StoreKey c)"
  "os_miss (oracle_of L view c) = typed_at valid_addr MissCounterKey decode_counter (store_view view StoreKey c)"
  "os_windows (oracle_of L view c) = typed_at valid_addr TotalWindowsKey decode_counter (store_view view StoreKey c)"
  "os_valoper (oracle_of L view c) = typed_at valid_addr FeederToValoperKey Ok (store_view view StoreKey c)"
  "os_feeder (oracle_of L view c) = typed_at valid_addr ValoperToFeederKey Ok (store_view view StoreKey c)"
  by (simp_all add: oracle_of_def oracle_abs_def)

lemma GetAggregatedPrice_eq:
  assumes L: "sdk_laws L view" and inv: "oracle_inv L view c"
  shows "GetAggregatedPrice L pair c =
    (let S = oracle_of L view c
     in if pair \<notin> set (op_AcceptList (os_params S)) then Err ErrPairNotAccepted
        else case os_prices S pair of
               None \<Rightarrow> Err ErrNoPrice
             | Some ap \<Rightarrow>
                 if time_sub (BlockTime c) (ap_BlockTime ap) > dur_mul (op_MaxPriceAge (os_params S)) Second
                 then Err ErrStalePrice else Ok ap)"
proof (cases "pair \<in> set (op_AcceptList (os_params (oracle_of L view c)))")
  case True
  have short: "short pair"
    using params_ok_pairs [OF GetParams_eq(2) [OF L inv] sdk_math [OF L] True] by (simp add: pair_ok_def)
  have get: "store_get L StoreKey (AggregatedPriceKey pair) c = Ok (store_view view StoreKey c (AggregatedPriceKey pair))"
    by (rule store_get_eq [OF L price_keys.key_valid [OF short]])
  show ?thesis
  proof (cases "store_view view StoreKey c (AggregatedPriceKey pair)")
    case None
    then show ?thesis
      by (simp add: GetAggregatedPrice_def GetParams_eq(1) [OF L inv] PairAccepted_iff True get oracle_of_fields typed_at_None)
  next
    case (Some bz)
    from families_okD(2) [OF inv_families [OF inv] Some] obtain ap where ap: "AggregatedPrice_Unmarshal (env_time L) bz = Ok ap"
      by (auto simp: price_entry_def split: outcome.splits)
    have "os_prices (oracle_of L view c) pair = Some ap"
      by (simp add: oracle_of_fields typed_at_def short Some ap)
    then show ?thesis
      by (simp add: GetAggregatedPrice_def GetParams_eq(1) [OF L inv] PairAccepted_iff True get Some ap Let_def)
  qed
qed (simp add: GetAggregatedPrice_def GetParams_eq(1) [OF L inv] PairAccepted_iff)

lemma inv_price:
  assumes inv: "oracle_inv L view c" and ap: "os_prices (oracle_of L view c) pair = Some ap"
  shows "ap_Pair ap = pair" and "pair_ok pair" and "price_ok (env_math L) (ap_Price ap)"
proof -
  from ap obtain bz where bz: "store_view view StoreKey c (AggregatedPriceKey pair) = Some bz"
    "AggregatedPrice_Unmarshal (env_time L) bz = Ok ap"
    unfolding oracle_of_fields by (rule typed_at_SomeE)
  have "AggregatedPriceKey pair = AggregatedPriceKey (ap_Pair ap)" "pair_ok (ap_Pair ap)" "price_ok (env_math L) (ap_Price ap)"
    using families_okD(2) [OF inv_families [OF inv] bz(1)] by (simp_all add: price_entry_def bz(2))
  then show "ap_Pair ap = pair" "pair_ok pair" "price_ok (env_math L) (ap_Price ap)"
    by (simp_all add: AggregatedPriceKey_def)
qed

lemma inv_feed:
  assumes inv: "oracle_inv L view c" and f: "os_feeds (oracle_of L view c) (val, pair) = Some f"
  shows "feed_Pair f = pair" and "ValAddressFromBech32 (env_addr L) (feed_Validator f) = Ok val"
    and "price_ok (env_math L) (feed_Price f)" and "valid_addr val"
proof -
  from f obtain bz where ok: "feed_ok (val, pair)" and bz: "store_view view StoreKey c (feed_key (val, pair)) = Some bz"
      "OracleFeed_Unmarshal bz = Ok f"
    unfolding oracle_of_fields by (rule typed_at_SomeE)
  from families_okD(1) [OF inv_families [OF inv] bz(1)] obtain val'
    where val': "ValAddressFromBech32 (env_addr L) (feed_Validator f) = Ok val'"
      "feed_key (val, pair) = feed_key (val', feed_Pair f)" "feed_ok (val', feed_Pair f)" "price_ok (env_math L) (feed_Price f)"
    using bz(2) by (auto simp: feed_entry_def split: outcome.splits)
  have "(val, pair) = (val', feed_Pair f)" by (rule feed_keys.key_inject [OF ok val'(3,2)])
  then show "feed_Pair f = pair" "ValAddressFromBech32 (env_addr L) (feed_Validator f) = Ok val"
    "price_ok (env_math L) (feed_Price f)" "valid_addr val"
    using val' ok by (simp_all add: feed_ok_def)
qed

lemma GetFeed_eq:
  assumes L: "sdk_laws L view" and inv: "oracle_inv L view c" and ok: "feed_ok (val, pair)"
  shows "GetFeed L val pair c = Ok (os_feeds (oracle_of L view c) (val, pair))"
proof -
  have key: "FeedKey (env_addr L) val pair = Ok (feed_key (val, pair))"
    using ok by (intro FeedKey_eq [OF sdk_addr [OF L]]) (simp add: feed_ok_def)
  have get: "store_get L StoreKey (feed_key (val, pair)) c = Ok (store_view view StoreKey c (feed_key (val, pair)))"
    by (rule store_get_eq [OF L feed_keys.key_valid [OF ok]])
  show ?thesis
  proof (cases "store_view view StoreKey c (feed_key (val, pair))")
    case (Some bz)
    from families_okD(1) [OF inv_families [OF inv] Some] obtain f where f: "OracleFeed_Unmarshal bz = Ok f"
      by (auto simp: feed_entry_def split: outcome.splits)
    then show ?thesis
      by (simp add: GetFeed_def key get Some oracle_of_fields typed_at_def ok Some f)
  qed (simp add: GetFeed_def key get oracle_of_fields typed_at_None)
qed

lemma ResolveAuthorizedFeeder_eq:
  assumes L: "sdk_laws L view" and val: "valid_addr val"
  shows "ResolveAuthorizedFeeder L val c = Ok (case os_feeder (oracle_of L view c) val of Some f \<Rightarrow> f | None \<Rightarrow> val)"
proof -
  have "store_get L StoreKey (ValoperToFeederKey val) c = Ok (store_view view StoreKey c (ValoperToFeederKey val))"
    by (rule store_get_eq [OF L valoper_keys.key_valid [OF val]])
  then show ?thesis
    using val by (simp add: ResolveAuthorizedFeeder_def GetFeederForValidator_def oracle_of_fields typed_at_def split: option.splits)
qed

lemma decode_PutUint64: "0 \<le> n \<Longrightarrow> n < 2 ^ 63 \<Longrightarrow> decode_counter (PutUint64 n) = Ok n"
  by (simp add: decode_counter_def Uint64_PutUint64 is_i64_def)

lemma counter_read:
  assumes L: "sdk_laws L view" and a: "valid_addr a" and key: "valid_key (key a)"
    and entry: "\<And>v. store_view view StoreKey c (key a) = Some v \<Longrightarrow> counter_entry key (key a) v"
  shows "obind (store_get L StoreKey (key a) c) (\<lambda>bz. case bz of None \<Rightarrow> Ok 0 | Some bz \<Rightarrow> obind (Uint64 bz) (\<lambda>u. Ok (i64 u))) =
      Ok (counts (typed_at valid_addr key decode_counter (store_view view StoreKey c)) a)"
    and "0 \<le> counts (typed_at valid_addr key decode_counter (store_view view StoreKey c)) a"
    and "counts (typed_at valid_addr key decode_counter (store_view view StoreKey c)) a < 2 ^ 63"
proof -
  have get: "store_get L StoreKey (key a) c = Ok (store_view view StoreKey c (key a))"
    by (rule store_get_eq [OF L key])
  have "obind (store_get L StoreKey (key a) c) (\<lambda>bz. case bz of None \<Rightarrow> Ok 0 | Some bz \<Rightarrow> obind (Uint64 bz) (\<lambda>u. Ok (i64 u))) =
      Ok (counts (typed_at valid_addr key decode_counter (store_view view StoreKey c)) a) \<and>
    0 \<le> counts (typed_at valid_addr key decode_counter (store_view view StoreKey c)) a \<and>
    counts (typed_at valid_addr key decode_counter (store_view view StoreKey c)) a < 2 ^ 63"
  proof (cases "store_view view StoreKey c (key a)")
    case (Some v)
    from entry [OF Some] obtain n where n: "0 \<le> n" "n < 2 ^ 63" "v = PutUint64 n" by (auto simp: counter_entry_def)
    then have "decode_counter v = Ok n" by (simp add: decode_PutUint64)
    then show ?thesis using n by (simp add: get Some counts_def typed_at_def a, simp add: decode_counter_def)
  qed (simp add: get counts_def typed_at_None)
  then show "obind (store_get L StoreKey (key a) c) (\<lambda>bz. case bz of None \<Rightarrow> Ok 0 | Some bz \<Rightarrow> obind (Uint64 bz) (\<lambda>u. Ok (i64 u))) =
      Ok (counts (typed_at valid_addr key decode_counter (store_view view StoreKey c)) a)"
    and "0 \<le> counts (typed_at valid_addr key decode_counter (store_view view StoreKey c)) a"
    and "counts (typed_at valid_addr key decode_counter (store_view view StoreKey c)) a < 2 ^ 63" by simp_all
qed

lemma GetMissCounter_eq:
  assumes L: "sdk_laws L view" and inv: "oracle_inv L view c" and a: "valid_addr a"
  shows "GetMissCounter L a c = Ok (counts (os_miss (oracle_of L view c)) a)"
  unfolding GetMissCounter_def oracle_of_fields
  by (rule counter_read(1) [OF L a miss_keys.key_valid [OF a] families_okD(4) [OF inv_families [OF inv]]])

lemma GetTotalWindows_eq:
  assumes L: "sdk_laws L view" and inv: "oracle_inv L view c" and a: "valid_addr a"
  shows "GetTotalWindows L a c = Ok (counts (os_windows (oracle_of L view c)) a)"
  unfolding GetTotalWindows_def oracle_of_fields
  by (rule counter_read(1) [OF L a window_keys.key_valid [OF a] families_okD(5) [OF inv_families [OF inv]]])

lemma counts_range:
  assumes L: "sdk_laws L view" and inv: "oracle_inv L view c" and a: "valid_addr a"
  shows "0 \<le> counts (os_miss (oracle_of L view c)) a"
    and "counts (os_miss (oracle_of L view c)) a \<le> counts (os_windows (oracle_of L view c)) a"
    and "counts (os_windows (oracle_of L view c)) a < 2 ^ 63"
proof -
  show "0 \<le> counts (os_miss (oracle_of L view c)) a"
    unfolding oracle_of_fields
    by (rule counter_read(2) [OF L a miss_keys.key_valid [OF a] families_okD(4) [OF inv_families [OF inv]]])
  show "counts (os_miss (oracle_of L view c)) a \<le> counts (os_windows (oracle_of L view c)) a"
    using inv_counted [OF inv] by (simp add: misses_counted_def)
  show "counts (os_windows (oracle_of L view c)) a < 2 ^ 63"
    unfolding oracle_of_fields
    by (rule counter_read(3) [OF L a window_keys.key_valid [OF a] families_okD(5) [OF inv_families [OF inv]]])
qed

section \<open>Writing\<close>

text \<open>
  \<open>oracle_step L view c c' S\<close>: from \<open>c\<close> to \<open>c'\<close> only the oracle's store changed, and it now
  represents \<open>S\<close> and satisfies the invariant.
\<close>

definition oracle_step :: "('s, 'x) env \<Rightarrow> ('s \<Rightarrow> bytes \<rightharpoonup> bytes) \<Rightarrow> ('s, 'x) ctx \<Rightarrow> ('s, 'x) ctx \<Rightarrow> oracle_state \<Rightarrow> bool" where
  "oracle_step L view c c' S \<longleftrightarrow> frame StoreKey c c' \<and> oracle_of L view c' = S \<and> oracle_inv L view c'"

lemma oracle_put:
  assumes L: "sdk_laws L view" and key: "valid_key k" and bz: "valid_value bz"
    and fam: "families_ok L ((store_view view StoreKey c)(k \<mapsto> bz))"
    and S: "oracle_abs (env_time L) ((store_view view StoreKey c)(k \<mapsto> bz)) = S"
    and linked: "feeders_linked S" and counted: "misses_counted S"
  shows "\<exists>c'. store_set L StoreKey k bz c = Ok c' \<and> oracle_step L view c c' S"
proof -
  obtain c' where "store_set L StoreKey k bz c = Ok c'" "frame StoreKey c c'"
    "store_view view StoreKey c' = (store_view view StoreKey c)(k \<mapsto> bz)"
    using store_set_ex [OF L key bz] by blast
  then show ?thesis using fam S linked counted by (simp add: oracle_step_def oracle_inv_def oracle_of_def)
qed

lemma oracle_stepI:
  assumes "frame StoreKey c c'" and "families_ok L (store_view view StoreKey c')"
    and "oracle_abs (env_time L) (store_view view StoreKey c') = S" and "feeders_linked S" and "misses_counted S"
  shows "oracle_step L view c c' S"
  using assms by (simp add: oracle_step_def oracle_inv_def oracle_of_def)

lemma oracle_stepD:
  assumes "oracle_step L view c c' S"
  shows step_frame: "frame StoreKey c c'" and step_state: "oracle_of L view c' = S" and step_inv: "oracle_inv L view c'"
  using assms by (simp_all add: oracle_step_def)

text \<open>Updates that touch neither the feeders nor the counters keep the two cross conditions.\<close>

lemma cross_conditions:
  "feeders_linked (S\<lparr>os_params := p\<rparr>) = feeders_linked S" "misses_counted (S\<lparr>os_params := p\<rparr>) = misses_counted S"
  "feeders_linked (S\<lparr>os_feeds := f\<rparr>) = feeders_linked S" "misses_counted (S\<lparr>os_feeds := f\<rparr>) = misses_counted S"
  "feeders_linked (S\<lparr>os_prices := q\<rparr>) = feeders_linked S" "misses_counted (S\<lparr>os_prices := q\<rparr>) = misses_counted S"
  "feeders_linked (S\<lparr>os_twap := t\<rparr>) = feeders_linked S" "misses_counted (S\<lparr>os_twap := t\<rparr>) = misses_counted S"
  "feeders_linked (S\<lparr>os_miss := n\<rparr>) = feeders_linked S" "feeders_linked (S\<lparr>os_windows := n\<rparr>) = feeders_linked S"
  "misses_counted (S\<lparr>os_valoper := a\<rparr>) = misses_counted S" "misses_counted (S\<lparr>os_feeder := a\<rparr>) = misses_counted S"
  by (simp_all add: feeders_linked_def misses_counted_def)

lemma SetParams_step:
  assumes L: "sdk_laws L view" and inv: "oracle_inv L view c" and ok: "params_ok (env_math L) p"
  shows "\<exists>c'. SetParams L p c = Ok c' \<and> oracle_step L view c c' ((oracle_of L view c)\<lparr>os_params := p\<rparr>)"
proof -
  obtain bz where bz: "OracleParams_Marshal p = Ok bz" "length bz = OracleParams_Size p" "OracleParams_Unmarshal bz = Ok p"
    using ok by (meson params_codec.codec_obtain params_ok_def)
  have "valid_value bz" using bz(2) ok by (simp add: valid_value_def params_ok_def)
  moreover have "params_entry (env_math L) KeyParams bz" by (simp add: params_entry_def bz(3) ok)
  ultimately have "\<exists>c'. store_set L StoreKey KeyParams bz c = Ok c' \<and> oracle_step L view c c' ((oracle_of L view c)\<lparr>os_params := p\<rparr>)"
    using inv by (intro oracle_put [OF L params_keys.key_valid])
      (simp_all add: families_put(1) inv_families abs_put(1) [OF bz(3)] oracle_of_def cross_conditions
        inv_linked [unfolded oracle_of_def] inv_counted [unfolded oracle_of_def])
  then show ?thesis using ok by (simp add: SetParams_def bz(1) params_ok_def)
qed

lemma SetAggregatedPrice_step:
  assumes L: "sdk_laws L view" and inv: "oracle_inv L view c"
    and pair: "pair_ok (ap_Pair ap)" and price: "price_ok (env_math L) (ap_Price ap)" "length (ap_Price ap) < 2 ^ 20"
    and wf: "is_i64 (ap_BlockHeight ap)" "valid_time (ap_BlockTime ap)"
  shows "\<exists>c'. SetAggregatedPrice L ap c = Ok c' \<and>
    oracle_step L view c c' ((oracle_of L view c)\<lparr>os_prices := (os_prices (oracle_of L view c))(ap_Pair ap \<mapsto> ap)\<rparr>)"
proof -
  let ?T = "env_time L"
  have short: "short (ap_Pair ap)" using pair by (simp add: pair_ok_def)
  have T: "time_laws ?T" by (rule sdk_time [OF L])
  have "SizeOfStdTime ?T (ap_BlockTime ap) < 128" by (metis time_lawsD [OF T wf(2)])
  then have size_: "AggregatedPrice_Size ?T ap < 2 ^ 30"
    using size_string_le [of "ap_Pair ap"] size_string_le [of "ap_Price ap"] size_int64_le [of "ap_BlockHeight ap"]
      size_bytes_le [of "SizeOfStdTime ?T (ap_BlockTime ap)"] short price(2)
    by (simp add: AggregatedPrice_Size_def short_def)
  then have "time_laws ?T \<and> AggregatedPrice_wf ?T ap" using wf T by (simp add: AggregatedPrice_wf_def)
  then obtain bz where bz: "AggregatedPrice_Marshal ?T ap = Ok bz" "length bz = AggregatedPrice_Size ?T ap"
      "AggregatedPrice_Unmarshal ?T bz = Ok ap"
    by (rule price_codec.codec_obtain)
  have "valid_value bz" using bz(2) size_ by (simp add: valid_value_def)
  moreover have "price_entry (env_math L) ?T (AggregatedPriceKey (ap_Pair ap)) bz"
    by (simp add: price_entry_def bz(3) pair price)
  ultimately have "\<exists>c'. store_set L StoreKey (AggregatedPriceKey (ap_Pair ap)) bz c = Ok c' \<and>
      oracle_step L view c c' ((oracle_of L view c)\<lparr>os_prices := (os_prices (oracle_of L view c))(ap_Pair ap \<mapsto> ap)\<rparr>)"
    using inv by (intro oracle_put [OF L price_keys.key_valid [OF short]])
      (simp_all add: families_put(3) inv_families abs_put(3) [OF short bz(3)] oracle_of_def cross_conditions
        inv_linked [unfolded oracle_of_def] inv_counted [unfolded oracle_of_def])
  then show ?thesis by (simp add: SetAggregatedPrice_def bz(1))
qed

lemma SetFeed_step:
  assumes L: "sdk_laws L view" and inv: "oracle_inv L view c"
    and val: "ValAddressFromBech32 (env_addr L) (feed_Validator f) = Ok val"
    and small: "short (feed_Validator f)" "short (feed_Pair f)" "short (feed_Price f)"
    and price: "price_ok (env_math L) (feed_Price f)" and height: "is_i64 (feed_BlockHeight f)"
  shows "\<exists>c'. SetFeed L f c = Ok c' \<and>
    oracle_step L view c c' ((oracle_of L view c)\<lparr>os_feeds := (os_feeds (oracle_of L view c))((val, feed_Pair f) \<mapsto> f)\<rparr>)"
proof -
  have ok: "feed_ok (val, feed_Pair f)" and key: "FeedKey (env_addr L) val (feed_Pair f) = Ok (feed_key (val, feed_Pair f))"
    using val_addr_valid [OF sdk_addr [OF L] val] small by (simp_all add: feed_ok_def FeedKey_eq [OF sdk_addr [OF L]])
  have size_: "OracleFeed_Size f < 2 ^ 30"
    using size_string_le [of "feed_Validator f"] size_string_le [of "feed_Pair f"] size_string_le [of "feed_Price f"]
      size_int64_le [of "feed_BlockHeight f"] small
    by (simp add: OracleFeed_Size_def short_def)
  then have "OracleFeed_wf f" using height by (simp add: OracleFeed_wf_def)
  then obtain bz where bz: "OracleFeed_Marshal f = Ok bz" "length bz = OracleFeed_Size f" "OracleFeed_Unmarshal bz = Ok f"
    by (rule feed_codec.codec_obtain)
  have "valid_value bz" using bz(2) size_ by (simp add: valid_value_def)
  moreover have "feed_entry (env_math L) (env_addr L) (feed_key (val, feed_Pair f)) bz"
    by (simp add: feed_entry_def bz(3) val price ok)
  ultimately have "\<exists>c'. store_set L StoreKey (feed_key (val, feed_Pair f)) bz c = Ok c' \<and>
      oracle_step L view c c' ((oracle_of L view c)\<lparr>os_feeds := (os_feeds (oracle_of L view c))((val, feed_Pair f) \<mapsto> f)\<rparr>)"
    using inv by (intro oracle_put [OF L feed_keys.key_valid [OF ok]])
      (simp_all add: families_put(2) inv_families abs_put(2) [OF ok bz(3)] oracle_of_def cross_conditions
        inv_linked [unfolded oracle_of_def] inv_counted [unfolded oracle_of_def])
  then show ?thesis by (simp add: SetFeed_def val bz(1) key)
qed

lemma DeleteAllFeeds_step:
  assumes L: "sdk_laws L view" and inv: "oracle_inv L view c"
  shows "\<exists>c'. DeleteAllFeeds L c = Ok c' \<and> oracle_step L view c c' ((oracle_of L view c)\<lparr>os_feeds := Map.empty\<rparr>)"
proof -
  have "FeedKeyPrefix \<noteq> []" by (simp add: FeedKeyPrefix_def KeyPrefixFeed_def)
  then obtain c' where c': "DeleteAllFeeds L c = Ok c'" "frame StoreKey c c'"
      "store_view view StoreKey c' = drop_prefix KeyPrefixFeed (store_view view StoreKey c)"
    unfolding DeleteAllFeeds_def FeedKeyPrefix_def using store_clear_prefix [OF L] by blast
  have "oracle_step L view c c' ((oracle_of L view c)\<lparr>os_feeds := Map.empty\<rparr>)"
    using inv by (intro oracle_stepI [OF c'(2)])
      (simp_all add: c'(3) families_clear inv_families abs_clear(1) oracle_of_def cross_conditions
        inv_linked [unfolded oracle_of_def] inv_counted [unfolded oracle_of_def])
  with c'(1) show ?thesis by blast
qed

lemma deleteAllWithPrefix_clear:
  assumes "sdk_laws L view" and "p \<noteq> []"
  shows "\<exists>c'. deleteAllWithPrefix L p c = Ok c' \<and> frame StoreKey c c' \<and>
    store_view view StoreKey c' = drop_prefix p (store_view view StoreKey c)"
  unfolding deleteAllWithPrefix_def by (rule store_clear_prefix [OF assms])

lemma ResetMissCounters_step:
  assumes L: "sdk_laws L view" and inv: "oracle_inv L view c"
  shows "\<exists>c'. ResetMissCounters L c = Ok c' \<and>
    oracle_step L view c c' ((oracle_of L view c)\<lparr>os_miss := Map.empty, os_windows := Map.empty\<rparr>)"
proof -
  obtain c1 where c1: "deleteAllWithPrefix L KeyPrefixMissCounter c = Ok c1" "frame StoreKey c c1"
      "store_view view StoreKey c1 = drop_prefix KeyPrefixMissCounter (store_view view StoreKey c)"
    using deleteAllWithPrefix_clear [OF L, of KeyPrefixMissCounter c] by (auto simp: KeyPrefixMissCounter_def)
  obtain c2 where c2: "deleteAllWithPrefix L KeyPrefixTotalWindows c1 = Ok c2" "frame StoreKey c1 c2"
      "store_view view StoreKey c2 = drop_prefix KeyPrefixTotalWindows (store_view view StoreKey c1)"
    using deleteAllWithPrefix_clear [OF L, of KeyPrefixTotalWindows c1] by (auto simp: KeyPrefixTotalWindows_def)
  have "oracle_step L view c c2 ((oracle_of L view c)\<lparr>os_miss := Map.empty, os_windows := Map.empty\<rparr>)"
    using inv by (intro oracle_stepI [OF frame_trans [OF c1(2) c2(2)]])
      (simp_all add: c1(3) c2(3) families_clear inv_families abs_clear oracle_of_def cross_conditions
        inv_linked [unfolded oracle_of_def] misses_counted_def counts_def)
  with c1(1) c2(1) show ?thesis by (simp add: ResetMissCounters_def)
qed

lemma ResetValidatorWindows_step:
  assumes L: "sdk_laws L view" and inv: "oracle_inv L view c" and a: "valid_addr a"
  shows "\<exists>c'. ResetValidatorWindows L a c = Ok c' \<and>
    oracle_step L view c c' ((oracle_of L view c)\<lparr>os_miss := (os_miss (oracle_of L view c))(a := None),
      os_windows := (os_windows (oracle_of L view c))(a := None)\<rparr>)"
proof -
  obtain c1 where c1: "store_delete L StoreKey (MissCounterKey a) c = Ok c1" "frame StoreKey c c1"
      "store_view view StoreKey c1 = (store_view view StoreKey c)(MissCounterKey a := None)"
    using store_delete_ex [OF L miss_keys.key_valid [OF a]] by blast
  obtain c2 where c2: "store_delete L StoreKey (TotalWindowsKey a) c1 = Ok c2" "frame StoreKey c1 c2"
      "store_view view StoreKey c2 = (store_view view StoreKey c1)(TotalWindowsKey a := None)"
    using store_delete_ex [OF L window_keys.key_valid [OF a]] by blast
  have counted: "misses_counted (oracle_abs (env_time L) (store_view view StoreKey c))"
    using inv_counted [OF inv] by (simp add: oracle_of_def)
  have "oracle_step L view c c2 ((oracle_of L view c)\<lparr>os_miss := (os_miss (oracle_of L view c))(a := None),
      os_windows := (os_windows (oracle_of L view c))(a := None)\<rparr>)"
    using inv counted by (intro oracle_stepI [OF frame_trans [OF c1(2) c2(2)]])
      (simp_all add: c1(3) c2(3) families_delete inv_families abs_delete a oracle_of_def cross_conditions
        inv_linked [unfolded oracle_of_def] misses_counted_def counts_def)
  with c1(1) c2(1) show ?thesis by (simp add: ResetValidatorWindows_def)
qed

text \<open>Both counters are incremented by the same code.\<close>

lemma counter_put:
  assumes "0 \<le> n" and "n < 2 ^ 63 - 1" and "valid_addr a"
  shows "u64 (n + 1) = n + 1" and "i64 (n + 1) = n + 1" and "decode_counter (PutUint64 (n + 1)) = Ok (n + 1)"
    and "counter_entry key (key a) (PutUint64 (n + 1))" and "valid_value (PutUint64 (n + 1))"
  using assms decode_PutUint64 [of "n + 1"]
  by (auto simp: is_i64_def u64_def counter_entry_def valid_value_def intro!: exI [of _ a] exI [of _ "n + 1"])

lemma counts_upd: "counts (m(a \<mapsto> n)) b = (if b = a then n else counts m b)"
  by (simp add: counts_def)

lemma IncTotalWindows_step:
  assumes L: "sdk_laws L view" and inv: "oracle_inv L view c" and a: "valid_addr a"
    and n: "counts (os_windows (oracle_of L view c)) a < 2 ^ 63 - 1"
  shows "\<exists>c'. IncTotalWindows L a c = Ok (counts (os_windows (oracle_of L view c)) a + 1, c') \<and>
    oracle_step L view c c' ((oracle_of L view c)\<lparr>os_windows :=
      (os_windows (oracle_of L view c))(a \<mapsto> counts (os_windows (oracle_of L view c)) a + 1)\<rparr>)"
proof -
  let ?m = "store_view view StoreKey c"
  define t where "t = counts (os_windows (oracle_of L view c)) a"
  have t: "0 \<le> t" "t < 2 ^ 63 - 1" using counts_range [OF L inv a] n by (simp_all add: t_def)
  note put = counter_put [OF t a]
  have "misses_counted ((oracle_of L view c)\<lparr>os_windows := (os_windows (oracle_of L view c))(a \<mapsto> t + 1)\<rparr>)"
    using inv_counted [OF inv] by (simp add: misses_counted_def counts_upd less_imp_le order.strict_trans1 t_def)
  then obtain c' where c': "store_set L StoreKey (TotalWindowsKey a) (PutUint64 (t + 1)) c = Ok c'"
      "oracle_step L view c c' ((oracle_of L view c)\<lparr>os_windows := (os_windows (oracle_of L view c))(a \<mapsto> t + 1)\<rparr>)"
    using oracle_put [OF L window_keys.key_valid [OF a] put(5), of c]
    by (auto simp: families_put(6) [OF inv_families [OF inv] put(4)] abs_put(6) [OF a put(3)] oracle_of_def
        cross_conditions inv_linked [OF inv, unfolded oracle_of_def])
  have "obind (store_get L StoreKey (TotalWindowsKey a) c)
      (\<lambda>bz. case bz of None \<Rightarrow> Ok 0 | Some bz \<Rightarrow> obind (Uint64 bz) (\<lambda>u. Ok (i64 u))) = Ok t"
    using GetTotalWindows_eq [OF L inv a] by (simp add: GetTotalWindows_def t_def)
  then have "IncTotalWindows L a c = Ok (t + 1, c')"
    using c'(1) by (simp add: IncTotalWindows_def Let_def put(1) put(2) flip: obind_assoc)
  with c'(2) show ?thesis by (simp add: t_def)
qed

lemma IncMissCounter_step:
  assumes L: "sdk_laws L view" and inv: "oracle_inv L view c" and a: "valid_addr a"
    and lt: "counts (os_miss (oracle_of L view c)) a < counts (os_windows (oracle_of L view c)) a"
  shows "\<exists>c'. IncMissCounter L a c = Ok (counts (os_miss (oracle_of L view c)) a + 1, c') \<and>
    oracle_step L view c c' ((oracle_of L view c)\<lparr>os_miss :=
      (os_miss (oracle_of L view c))(a \<mapsto> counts (os_miss (oracle_of L view c)) a + 1)\<rparr>)"
proof -
  define t where "t = counts (os_miss (oracle_of L view c)) a"
  have t: "0 \<le> t" "t < 2 ^ 63 - 1" using counts_range [OF L inv a] lt by (simp_all add: t_def)
  note put = counter_put [OF t a]
  have "misses_counted ((oracle_of L view c)\<lparr>os_miss := (os_miss (oracle_of L view c))(a \<mapsto> t + 1)\<rparr>)"
    using inv_counted [OF inv] lt by (simp add: misses_counted_def counts_upd t_def)
  then obtain c' where c': "store_set L StoreKey (MissCounterKey a) (PutUint64 (t + 1)) c = Ok c'"
      "oracle_step L view c c' ((oracle_of L view c)\<lparr>os_miss := (os_miss (oracle_of L view c))(a \<mapsto> t + 1)\<rparr>)"
    using oracle_put [OF L miss_keys.key_valid [OF a] put(5), of c]
    by (auto simp: families_put(5) [OF inv_families [OF inv] put(4)] abs_put(5) [OF a put(3)] oracle_of_def
        cross_conditions inv_linked [OF inv, unfolded oracle_of_def])
  have "obind (store_get L StoreKey (MissCounterKey a) c)
      (\<lambda>bz. case bz of None \<Rightarrow> Ok 0 | Some bz \<Rightarrow> obind (Uint64 bz) (\<lambda>u. Ok (i64 u))) = Ok t"
    using GetMissCounter_eq [OF L inv a] by (simp add: GetMissCounter_def t_def)
  then have "IncMissCounter L a c = Ok (t + 1, c')"
    using c'(1) by (simp add: IncMissCounter_def Let_def put(1) put(2) flip: obind_assoc)
  with c'(2) show ?thesis by (simp add: t_def)
qed

lemma SetFeederDelegation_step:
  assumes L: "sdk_laws L view" and inv: "oracle_inv L view c" and val: "valid_addr val" and feeder: "valid_addr feeder"
    and free: "os_valoper (oracle_of L view c) feeder \<in> {None, Some val}"
  shows "\<exists>c'. SetFeederDelegation L val feeder c = Ok c' \<and>
    oracle_step L view c c' ((oracle_of L view c)\<lparr>os_valoper := (os_valoper (oracle_of L view c))(feeder \<mapsto> val),
      os_feeder := (os_feeder (oracle_of L view c))(val \<mapsto> feeder)\<rparr>)"
proof -
  let ?S = "oracle_of L view c"
  have get: "store_get L StoreKey (FeederToValoperKey feeder) c = Ok (os_valoper ?S feeder)"
    using store_get_eq [OF L feeder_keys.key_valid [OF feeder]] feeder
    by (simp add: oracle_of_fields typed_at_def split: option.splits)
  have vv: "valid_value val" "valid_value feeder" using val feeder by (simp_all add: valid_value_def valid_addr_def)
  obtain c1 where c1: "store_set L StoreKey (FeederToValoperKey feeder) val c = Ok c1" "frame StoreKey c c1"
      "store_view view StoreKey c1 = (store_view view StoreKey c)(FeederToValoperKey feeder \<mapsto> val)"
    using store_set_ex [OF L feeder_keys.key_valid [OF feeder] vv(1)] by blast
  obtain c2 where c2: "store_set L StoreKey (ValoperToFeederKey val) feeder c1 = Ok c2" "frame StoreKey c1 c2"
      "store_view view StoreKey c2 = (store_view view StoreKey c1)(ValoperToFeederKey val \<mapsto> feeder)"
    using store_set_ex [OF L valoper_keys.key_valid [OF val] vv(2)] by blast
  let ?S' = "?S\<lparr>os_valoper := (os_valoper ?S)(feeder \<mapsto> val), os_feeder := (os_feeder ?S)(val \<mapsto> feeder)\<rparr>"
  have fam: "families_ok L (store_view view StoreKey c2)"
    unfolding c1(3) c2(3) using inv val feeder
    by (intro families_put(7,8) inv_families) (auto simp: address_entry_def)
  have S': "oracle_abs (env_time L) (store_view view StoreKey c2) = ?S'"
    by (simp add: c1(3) c2(3) abs_put(7) [OF feeder] abs_put(8) [OF val] oracle_of_def)
  have "feeders_linked ?S'"
    using inv_linked [OF inv] free by (auto simp: feeders_linked_def)
  moreover have "misses_counted ?S'" using inv_counted [OF inv] by (simp add: cross_conditions)
  ultimately have "oracle_step L view c c2 ?S'"
    using fam S' by (intro oracle_stepI [OF frame_trans [OF c1(2) c2(2)]])
  moreover have "SetFeederDelegation L val feeder c = Ok c2"
    using free c1(1) c2(1) by (auto simp: SetFeederDelegation_def get)
  ultimately show ?thesis by blast
qed

lemma SetFeederDelegation_taken:
  assumes L: "sdk_laws L view" and feeder: "valid_addr feeder"
    and taken: "os_valoper (oracle_of L view c) feeder = Some val'" "val' \<noteq> val"
  shows "SetFeederDelegation L val feeder c = Err ErrFeederAlreadyBound"
  using store_get_eq [OF L feeder_keys.key_valid [OF feeder], of StoreKey c] feeder taken
  by (simp add: SetFeederDelegation_def oracle_of_fields typed_at_def split: option.splits)

section \<open>Iterating over the feeds\<close>

definition stored_feeds :: "(bytes \<rightharpoonup> bytes) \<Rightarrow> ((addr \<times> string) \<times> OracleFeed) list" where
  "stored_feeds m =
     map (\<lambda>(k, v). (case ParseFeedKey k of Ok vp \<Rightarrow> vp | _ \<Rightarrow> ([], []),
                     case OracleFeed_Unmarshal v of Ok f \<Rightarrow> f | _ \<Rightarrow> zero_OracleFeed))
       (prefix_entries m FeedKeyPrefix)"

lemma feed_entry_parse:
  assumes "addr_laws A" and "feed_entry M A k v"
  obtains val f where "ParseFeedKey k = Ok (val, feed_Pair f)" and "OracleFeed_Unmarshal v = Ok f"
    and "k = feed_key (val, feed_Pair f)" and "feed_ok (val, feed_Pair f)"
proof -
  from assms(2) obtain val f where f: "OracleFeed_Unmarshal v = Ok f" "ValAddressFromBech32 A (feed_Validator f) = Ok val"
      "k = feed_key (val, feed_Pair f)" "feed_ok (val, feed_Pair f)"
    by (auto simp: feed_entry_def split: outcome.splits)
  have "ParseFeedKey k = Ok (val, feed_Pair f)"
    unfolding f(3) by (rule ParseFeedKey_feed_key [OF val_addr_valid [OF assms(1) f(2)]])
  then show thesis using that f by blast
qed

lemma feed_scan_entries:
  assumes L: "sdk_laws L view" and inv: "oracle_inv L view c"
    and e: "(k, v) \<in> set (prefix_entries (store_view view StoreKey c) FeedKeyPrefix)"
  shows "feed_entry (env_math L) (env_addr L) k v"
proof -
  have "family_inv (byte 1) (feed_entry (env_math L) (env_addr L)) (store_view view StoreKey c)"
    using inv_families [OF inv] by (simp add: families_ok_def)
  then show ?thesis
    by (rule family_inv_scan [OF _ store_view_finite [OF L] _ e]) (simp add: FeedKeyPrefix_def KeyPrefixFeed_def)
qed

lemma iterate_feeds_eq:
  assumes A: "addr_laws A" and fn: "\<And>val pair price acc. fn val pair price acc = obind (g val pair price acc) (\<lambda>a. Ok (True, a))"
    and es: "\<And>k v. (k, v) \<in> set es \<Longrightarrow> feed_entry M A k v"
  shows "iterate_feeds fn es acc =
    ofold (\<lambda>((val, pair), f). g val pair (feed_Price f))
      (map (\<lambda>(k, v). (case ParseFeedKey k of Ok vp \<Rightarrow> vp | _ \<Rightarrow> ([], []),
                       case OracleFeed_Unmarshal v of Ok f \<Rightarrow> f | _ \<Rightarrow> zero_OracleFeed)) es) acc"
  using es
proof (induction es arbitrary: acc)
  case (Cons e es)
  obtain k v where e: "e = (k, v)" by (cases e)
  have "feed_entry M A k v" using Cons.prems [of k v] by (simp add: e)
  then obtain val f where "ParseFeedKey k = Ok (val, feed_Pair f)" "OracleFeed_Unmarshal v = Ok f"
    by (rule feed_entry_parse [OF A])
  then show ?case using Cons by (simp add: e fn obind_assoc)
qed simp

lemma IterateAllFeeds_eq:
  assumes L: "sdk_laws L view" and inv: "oracle_inv L view c"
    and fn: "\<And>val pair price acc. fn val pair price acc = obind (g val pair price acc) (\<lambda>a. Ok (True, a))"
  shows "IterateAllFeeds L c fn acc =
    ofold (\<lambda>((val, pair), f). g val pair (feed_Price f)) (stored_feeds (store_view view StoreKey c)) acc"
proof -
  have "store_scan L StoreKey FeedKeyPrefix c = Ok (prefix_entries (store_view view StoreKey c) FeedKeyPrefix)"
    by (rule store_scan_eq [OF L]) (simp add: FeedKeyPrefix_def KeyPrefixFeed_def)
  then show ?thesis
    using iterate_feeds_eq [OF sdk_addr [OF L] fn feed_scan_entries [OF L inv]]
    by (simp add: IterateAllFeeds_def stored_feeds_def)
qed

lemma stored_feeds_iff:
  assumes L: "sdk_laws L view" and inv: "oracle_inv L view c"
  shows "((val, pair), f) \<in> set (stored_feeds (store_view view StoreKey c)) \<longleftrightarrow>
    os_feeds (oracle_of L view c) (val, pair) = Some f"
proof
  assume "((val, pair), f) \<in> set (stored_feeds (store_view view StoreKey c))"
  then obtain k v where kv: "(k, v) \<in> set (prefix_entries (store_view view StoreKey c) FeedKeyPrefix)"
    and p: "(val, pair) = (case ParseFeedKey k of Ok vp \<Rightarrow> vp | _ \<Rightarrow> ([], []))"
      "f = (case OracleFeed_Unmarshal v of Ok f \<Rightarrow> f | _ \<Rightarrow> zero_OracleFeed)"
    by (auto simp: stored_feeds_def)
  from kv have m: "store_view view StoreKey c k = Some v"
    by (simp add: prefix_entries_iff [OF store_view_finite [OF L]])
  obtain val' f' where "ParseFeedKey k = Ok (val', feed_Pair f')" "OracleFeed_Unmarshal v = Ok f'"
      "k = feed_key (val', feed_Pair f')" "feed_ok (val', feed_Pair f')"
    by (rule feed_entry_parse [OF sdk_addr [OF L] feed_scan_entries [OF L inv kv]])
  then show "os_feeds (oracle_of L view c) (val, pair) = Some f"
    using m p by (simp add: oracle_of_fields typed_at_def)
next
  assume "os_feeds (oracle_of L view c) (val, pair) = Some f"
  then obtain bz where ok: "feed_ok (val, pair)" and m: "store_view view StoreKey c (feed_key (val, pair)) = Some bz"
      "OracleFeed_Unmarshal bz = Ok f"
    unfolding oracle_of_fields by (rule typed_at_SomeE)
  have "(feed_key (val, pair), bz) \<in> set (prefix_entries (store_view view StoreKey c) FeedKeyPrefix)"
    using m(1) by (simp add: prefix_entries_iff [OF store_view_finite [OF L]] feed_key_def FeedKeyPrefix_def)
  moreover have "ParseFeedKey (feed_key (val, pair)) = Ok (val, pair)"
    using ok by (simp add: ParseFeedKey_feed_key feed_ok_def)
  ultimately show "((val, pair), f) \<in> set (stored_feeds (store_view view StoreKey c))"
    using m(2) by (force simp: stored_feeds_def)
qed

lemma stored_feeds_distinct:
  assumes L: "sdk_laws L view" and inv: "oracle_inv L view c"
  shows "distinct (map fst (stored_feeds (store_view view StoreKey c)))"
proof -
  let ?es = "prefix_entries (store_view view StoreKey c) FeedKeyPrefix"
  let ?parse = "\<lambda>k. case ParseFeedKey k of Ok vp \<Rightarrow> vp | _ \<Rightarrow> ([], [])"
  have "inj_on ?parse (set (map fst ?es))"
  proof (rule inj_onI)
    fix k k' assume "k \<in> set (map fst ?es)" "k' \<in> set (map fst ?es)" and eq: "?parse k = ?parse k'"
    then obtain v v' where kv: "(k, v) \<in> set ?es" and kv': "(k', v') \<in> set ?es" by auto
    obtain val f where "ParseFeedKey k = Ok (val, feed_Pair f)" "OracleFeed_Unmarshal v = Ok f"
        "k = feed_key (val, feed_Pair f)" "feed_ok (val, feed_Pair f)"
      by (rule feed_entry_parse [OF sdk_addr [OF L] feed_scan_entries [OF L inv kv]])
    moreover obtain val' f' where "ParseFeedKey k' = Ok (val', feed_Pair f')" "OracleFeed_Unmarshal v' = Ok f'"
        "k' = feed_key (val', feed_Pair f')" "feed_ok (val', feed_Pair f')"
      by (rule feed_entry_parse [OF sdk_addr [OF L] feed_scan_entries [OF L inv kv']])
    ultimately show "k = k'" using eq by simp
  qed
  then have "distinct (map ?parse (map fst ?es))"
    using prefix_entries_distinct by (simp only: distinct_map)
  moreover have "map fst (stored_feeds (store_view view StoreKey c)) = map ?parse (map fst ?es)"
    by (simp add: stored_feeds_def split_beta)
  ultimately show ?thesis by simp
qed

lemma GetValidatorSubmittedPairs_eq:
  assumes L: "sdk_laws L view" and inv: "oracle_inv L view c"
  shows "\<exists>pairs. GetValidatorSubmittedPairs L val c = Ok pairs \<and>
    set pairs = {pair. os_feeds (oracle_of L view c) (val, pair) \<noteq> None}"
proof -
  have loop: "\<exists>pairs. ofold (\<lambda>((v, pair), f) pairs. Ok (if v = val then List.insert pair pairs else pairs)) es acc = Ok pairs \<and>
      set pairs = set acc \<union> {pair. \<exists>f. ((val, pair), f) \<in> set es}" for es :: "((addr \<times> string) \<times> OracleFeed) list" and acc
  proof (induction es arbitrary: acc)
    case (Cons e es)
    obtain v pair f where e: "e = ((v, pair), f)" by (metis prod.collapse)
    obtain pairs where "ofold (\<lambda>((v, pair), f) pairs. Ok (if v = val then List.insert pair pairs else pairs)) es
        (if v = val then List.insert pair acc else acc) = Ok pairs"
        "set pairs = set (if v = val then List.insert pair acc else acc) \<union> {pair. \<exists>f. ((val, pair), f) \<in> set es}"
      using Cons.IH by blast
    then show ?case by (auto simp: e)
  qed simp
  have "GetValidatorSubmittedPairs L val c =
      ofold (\<lambda>((v, pair), f) pairs. Ok (if v = val then List.insert pair pairs else pairs))
        (stored_feeds (store_view view StoreKey c)) []"
    unfolding GetValidatorSubmittedPairs_def
    using IterateAllFeeds_eq [OF L inv, of "\<lambda>v pair _ pairs. Ok (True, if v = val then List.insert pair pairs else pairs)"
        "\<lambda>v pair _ pairs. Ok (if v = val then List.insert pair pairs else pairs)" "[]"]
    by simp
  with loop [of "stored_feeds (store_view view StoreKey c)" "[]"] show ?thesis
    by (simp add: stored_feeds_iff [OF L inv])
qed

text \<open>The state of a new chain.\<close>

definition empty_oracle :: oracle_state where
  "empty_oracle = \<lparr>os_params = DefaultParams, os_feeds = Map.empty, os_prices = Map.empty, os_twap = Map.empty,
     os_miss = Map.empty, os_windows = Map.empty, os_valoper = Map.empty, os_feeder = Map.empty\<rparr>"

lemma typed_at_empty: "typed_at ok key decode Map.empty = Map.empty"
  by (rule ext) (simp add: typed_at_def)

lemma oracle_empty:
  assumes "store_view view StoreKey c = Map.empty"
  shows "oracle_inv L view c" and "oracle_of L view c = empty_oracle"
  by (simp_all add: oracle_inv_def families_ok_def oracle_of_def oracle_abs_def assms typed_at_empty empty_oracle_def
      feeders_linked_def misses_counted_def counts_def)

end
