(* ===== verification/Oracle_Twap.thy ===== *)
theory Oracle_Twap
  imports Oracle_Keeper Reference
begin

text \<open>
  \<open>x/oracle/keeper/twap.go\<close>: the history of published prices, its pruning and the
  time-weighted average over it.
\<close>

section \<open>The code\<close>

definition AppendTWAPEntry :: "('s, 'x) env \<Rightarrow> string \<Rightarrow> dec \<Rightarrow> time \<Rightarrow> ('s, 'x) ctx \<Rightarrow> ('s, 'x) ctx outcome" where
  "AppendTWAPEntry L pair price blockTime c =
     (let entry = \<lparr>te_Pair = pair, te_Price = dec_String (env_math L) price, te_BlockTime = blockTime\<rparr>
      in obind (TWAPEntry_Marshal (env_time L) entry) (\<lambda>bz.
         store_set L StoreKey (TWAPKey pair blockTime) bz c))"

text \<open>The keys to delete: the scan stops at the first entry that is not before the cutoff.\<close>

fun prune_scan :: "time_lib \<Rightarrow> time \<Rightarrow> (bytes \<times> bytes) list \<Rightarrow> bytes list outcome" where
  "prune_scan T cutoff [] = Ok []"
| "prune_scan T cutoff ((key, value) # es) =
     obind (must (TWAPEntry_Unmarshal T value)) (\<lambda>e.
       if te_BlockTime e < cutoff
       then obind (prune_scan T cutoff es) (\<lambda>keys. Ok (key # keys))
       else Ok [])"

definition PruneTWAPOlderThan :: "('s, 'x) env \<Rightarrow> string \<Rightarrow> time \<Rightarrow> ('s, 'x) ctx \<Rightarrow> ('s, 'x) ctx outcome" where
  "PruneTWAPOlderThan L pair cutoff c =
     obind (store_scan L StoreKey (TWAPPrefix pair) c) (\<lambda>entries.
     obind (prune_scan (env_time L) cutoff entries) (\<lambda>toDelete.
     ofold (\<lambda>key. store_delete L StoreKey key) toDelete c))"

text \<open>The reverse scan of \<open>GetTWAP\<close>: newest first, up to the first entry not after the window's start.\<close>

fun twap_scan :: "time_lib \<Rightarrow> time \<Rightarrow> time \<Rightarrow> (bytes \<times> bytes) list \<Rightarrow> TWAPEntry list outcome" where
  "twap_scan T now windowStart [] = Ok []"
| "twap_scan T now windowStart ((_, value) # es) =
     obind (must (TWAPEntry_Unmarshal T value)) (\<lambda>e.
       if te_BlockTime e > now then twap_scan T now windowStart es
       else if \<not> te_BlockTime e > windowStart then Ok [e]
       else obind (twap_scan T now windowStart es) (\<lambda>entries. Ok (e # entries)))"

text \<open>The summation loop over the entries in ascending order.\<close>

fun twap_sum :: "math_lib \<Rightarrow> time \<Rightarrow> TWAPEntry list \<Rightarrow> dec \<Rightarrow> dec \<Rightarrow> (dec \<times> dec) outcome" where
  "twap_sum M now [] weightedSum totalWeight = Ok (weightedSum, totalWeight)"
| "twap_sum M now (e # es) weightedSum totalWeight =
     obind (LegacyNewDecFromStr M (te_Price e)) (\<lambda>price.
       let start = te_BlockTime e;
           stop = (case es of [] \<Rightarrow> now | e' # _ \<Rightarrow> te_BlockTime e');
           w = LegacyNewDec M (time_sub stop start)
       in obind (dec_Mul M price w) (\<lambda>pw.
          obind (dec_Add M weightedSum pw) (\<lambda>weightedSum.
          obind (dec_Add M totalWeight w) (\<lambda>totalWeight.
          twap_sum M now es weightedSum totalWeight))))"

definition GetTWAP :: "('s, 'x) env \<Rightarrow> string \<Rightarrow> duration \<Rightarrow> ('s, 'x) ctx \<Rightarrow> dec outcome" where
  "GetTWAP L pair window c =
     obind (GetParams L c) (\<lambda>params.
       if \<not> PairAccepted params pair then Err ErrPairNotAccepted
       else let now = BlockTime c; windowStart = now + i64 (- window)
            in obind (store_scan_rev L StoreKey (TWAPPrefix pair) c) (\<lambda>iter.
               obind (twap_scan (env_time L) now windowStart iter) (\<lambda>entries.
                 if entries = [] then Err ErrNoTWAPData
                 else let entries = rev entries
                      in if time_sub now (te_BlockTime (last entries)) > dur_mul (op_MaxPriceAge params) Second
                         then Err ErrStalePrice
                         else if length entries = 1
                         then LegacyNewDecFromStr (env_math L) (te_Price (hd entries))
                         else obind (twap_sum (env_math L) now entries 0 0) (\<lambda>(weightedSum, totalWeight).
                                if totalWeight = 0 then Err ErrNoTWAPData
                                else dec_Quo (env_math L) weightedSum totalWeight))))"

section \<open>The history of a pair\<close>

text \<open>The entries a scan of the pair's prefix yields, oldest first.\<close>

definition twap_of :: "time_lib \<Rightarrow> bytes \<Rightarrow> TWAPEntry" where
  "twap_of T v = (case TWAPEntry_Unmarshal T v of Ok e \<Rightarrow> e | _ \<Rightarrow> zero_TWAPEntry)"

definition twap_history :: "time_lib \<Rightarrow> (bytes \<rightharpoonup> bytes) \<Rightarrow> string \<Rightarrow> TWAPEntry list" where
  "twap_history T m pair = map (\<lambda>(k, v). twap_of T v) (prefix_entries m (TWAPPrefix pair))"

lemma TWAPPrefix_key:
  assumes "pair_ok pair" and "pair_ok pair'"
  shows "prefix (TWAPPrefix pair) (twap_key (pair', t)) \<longleftrightarrow> pair' = pair"
proof
  assume "prefix (TWAPPrefix pair) (twap_key (pair', t))"
  then obtain r where "pair' @ CHR ''/'' # PutUint64 (u64 (UnixNano t)) = pair @ CHR ''/'' # r"
    by (auto simp: TWAPPrefix_def twap_key_def TWAPKey_def KeyPrefixTWAP_def prefix_def)
  then have "takeWhile (\<lambda>c. c \<noteq> CHR ''/'') (pair' @ CHR ''/'' # PutUint64 (u64 (UnixNano t))) =
      takeWhile (\<lambda>c. c \<noteq> CHR ''/'') (pair @ CHR ''/'' # r)" by simp
  moreover have cut: "takeWhile (\<lambda>c. c \<noteq> CHR ''/'') (p @ CHR ''/'' # xs) = p" if "pair_ok p" for p xs
  proof -
    have "CHR ''/'' \<notin> set p" using that base_quote_no_slash by (auto simp: pair_ok_def pairRegex_def)
    then have "\<And>x. x \<in> set p \<Longrightarrow> x \<noteq> CHR ''/''" by auto
    then show ?thesis by (simp add: takeWhile_append2)
  qed
  ultimately show "pair' = pair" by (simp add: cut assms)
qed (simp add: TWAPPrefix_def twap_key_def TWAPKey_def)

lemma twap_key_less:
  assumes "0 \<le> t" and "t < 2 ^ 63" and "0 \<le> t'" and "t' < 2 ^ 63"
  shows "twap_key (pair, t) < twap_key (pair, t') \<longleftrightarrow> t < t'"
proof -
  have u: "u64 (UnixNano t) = t" "u64 (UnixNano t') = t'"
    using assms by (simp_all add: UnixNano_def is_i64_def u64_def)
  have big: "t < 2 ^ 64" "t' < 2 ^ 64" using assms by simp_all
  have "PutUint64 t < PutUint64 t' \<longleftrightarrow> t < t'"
  proof
    assume "PutUint64 t < PutUint64 t'"
    then show "t < t'"
      using PutUint64_less [OF assms(3) _ big(1)] by (cases t t' rule: linorder_cases) (simp_all add: order.asym)
  qed (rule PutUint64_less [OF assms(1) _ big(2)])
  then show ?thesis by (simp add: twap_key_def TWAPKey_def u)
qed

lemma twap_entry_of:
  assumes "twap_entry M T k v"
  shows "TWAPEntry_Unmarshal T v = Ok (twap_of T v)" and "k = twap_key (te_Pair (twap_of T v), te_BlockTime (twap_of T v))"
    and "pair_ok (te_Pair (twap_of T v))" and "0 \<le> te_BlockTime (twap_of T v)" and "te_BlockTime (twap_of T v) < 2 ^ 63"
    and "price_ok M (te_Price (twap_of T v))"
  using assms by (auto simp: twap_entry_def twap_of_def split: outcome.splits)

lemma twap_scan_entries:
  assumes L: "sdk_laws L view" and inv: "oracle_inv L view c" and pair: "pair_ok pair"
    and e: "(k, v) \<in> set (prefix_entries (store_view view StoreKey c) (TWAPPrefix pair))"
  shows "twap_entry (env_math L) (env_time L) k v" and "te_Pair (twap_of (env_time L) v) = pair"
    and "store_view view StoreKey c k = Some v"
proof -
  have "family_inv (byte 3) (twap_entry (env_math L) (env_time L)) (store_view view StoreKey c)"
    using inv_families [OF inv] by (simp add: families_ok_def)
  then show entry: "twap_entry (env_math L) (env_time L) k v"
    by (rule family_inv_scan [OF _ store_view_finite [OF L] _ e]) (simp add: TWAPPrefix_def KeyPrefixTWAP_def)
  have m: "store_view view StoreKey c k = Some v" "prefix (TWAPPrefix pair) k"
    using e by (simp_all add: prefix_entries_iff [OF store_view_finite [OF L]])
  then show "store_view view StoreKey c k = Some v" by simp
  have "prefix (TWAPPrefix pair) (twap_key (te_Pair (twap_of (env_time L) v), te_BlockTime (twap_of (env_time L) v)))"
    using m(2) twap_entry_of(2) [OF entry] by simp
  then show "te_Pair (twap_of (env_time L) v) = pair"
    by (simp add: TWAPPrefix_key [OF pair twap_entry_of(3) [OF entry]])
qed

lemma os_twap_iff:
  assumes L: "sdk_laws L view" and inv: "oracle_inv L view c" and pair: "pair_ok pair"
  shows "os_twap (oracle_of L view c) (pair, t) = Some e \<longleftrightarrow>
    (\<exists>v. (twap_key (pair, t), v) \<in> set (prefix_entries (store_view view StoreKey c) (TWAPPrefix pair)) \<and>
         e = twap_of (env_time L) v \<and> te_BlockTime e = t \<and> is_i64 t)"
    (is "_ \<longleftrightarrow> (\<exists>v. ?P v)")
proof
  assume "os_twap (oracle_of L view c) (pair, t) = Some e"
  then obtain v where ok: "twap_ok (pair, t)" and m: "store_view view StoreKey c (twap_key (pair, t)) = Some v"
    and d: "TWAPEntry_Unmarshal (env_time L) v = Ok e"
    unfolding oracle_of_fields by (rule typed_at_SomeE)
  have scan: "(twap_key (pair, t), v) \<in> set (prefix_entries (store_view view StoreKey c) (TWAPPrefix pair))"
    using m by (simp add: prefix_entries_iff [OF store_view_finite [OF L]] TWAPPrefix_key pair)
  have e: "e = twap_of (env_time L) v" by (simp add: twap_of_def d)
  note entry = twap_entry_of [OF twap_scan_entries(1) [OF L inv pair scan], folded e]
  have "twap_ok (te_Pair e, te_BlockTime e)"
    using entry(3-5) by (simp add: twap_ok_def pair_ok_def is_i64_def)
  then have "(te_Pair e, te_BlockTime e) = (pair, t)"
    using twap_keys.key_inject [OF _ ok] entry(2) by simp
  then have "?P v" using scan e ok by (simp add: twap_ok_def)
  then show "\<exists>v. ?P v" ..
next
  assume "\<exists>v. ?P v"
  then obtain v where scan: "(twap_key (pair, t), v) \<in> set (prefix_entries (store_view view StoreKey c) (TWAPPrefix pair))"
    and e: "e = twap_of (env_time L) v" and t: "is_i64 t" by blast
  have "TWAPEntry_Unmarshal (env_time L) v = Ok e" "twap_ok (pair, t)"
    using twap_entry_of(1) [OF twap_scan_entries(1) [OF L inv pair scan]] pair t e by (simp_all add: twap_ok_def pair_ok_def)
  then show "os_twap (oracle_of L view c) (pair, t) = Some e"
    using twap_scan_entries(3) [OF L inv pair scan] by (simp add: oracle_of_fields typed_at_def)
qed

lemma twap_history_iff:
  assumes L: "sdk_laws L view" and inv: "oracle_inv L view c" and pair: "pair_ok pair"
  shows "e \<in> set (twap_history (env_time L) (store_view view StoreKey c) pair) \<longleftrightarrow>
    os_twap (oracle_of L view c) (pair, te_BlockTime e) = Some e"
proof
  assume "e \<in> set (twap_history (env_time L) (store_view view StoreKey c) pair)"
  then obtain k v where scan: "(k, v) \<in> set (prefix_entries (store_view view StoreKey c) (TWAPPrefix pair))"
    and e: "e = twap_of (env_time L) v" by (auto simp: twap_history_def)
  note entry = twap_entry_of [OF twap_scan_entries(1) [OF L inv pair scan], folded e]
  have "k = twap_key (pair, te_BlockTime e)"
    using entry(2) twap_scan_entries(2) [OF L inv pair scan] e by simp
  then show "os_twap (oracle_of L view c) (pair, te_BlockTime e) = Some e"
    unfolding os_twap_iff [OF L inv pair] using scan e entry(4,5) by (auto simp: is_i64_def)
next
  assume "os_twap (oracle_of L view c) (pair, te_BlockTime e) = Some e"
  then show "e \<in> set (twap_history (env_time L) (store_view view StoreKey c) pair)"
    unfolding os_twap_iff [OF L inv pair] by (force simp: twap_history_def)
qed

lemma twap_history_entry:
  assumes L: "sdk_laws L view" and inv: "oracle_inv L view c" and pair: "pair_ok pair"
    and e: "e \<in> set (twap_history (env_time L) (store_view view StoreKey c) pair)"
  shows "te_Pair e = pair" and "0 \<le> te_BlockTime e" and "te_BlockTime e < 2 ^ 63" and "price_ok (env_math L) (te_Price e)"
proof -
  from e obtain k v where scan: "(k, v) \<in> set (prefix_entries (store_view view StoreKey c) (TWAPPrefix pair))"
    and e: "e = twap_of (env_time L) v" by (auto simp: twap_history_def)
  note entry = twap_entry_of [OF twap_scan_entries(1) [OF L inv pair scan], folded e]
  show "te_Pair e = pair" using twap_scan_entries(2) [OF L inv pair scan] e by simp
  show "0 \<le> te_BlockTime e" "te_BlockTime e < 2 ^ 63" "price_ok (env_math L) (te_Price e)" using entry by simp_all
qed

lemma twap_scan_sorted:
  assumes L: "sdk_laws L view" and inv: "oracle_inv L view c" and pair: "pair_ok pair"
  shows "sorted_wrt (\<lambda>x y. te_BlockTime (twap_of (env_time L) (snd x)) < te_BlockTime (twap_of (env_time L) (snd y)))
    (prefix_entries (store_view view StoreKey c) (TWAPPrefix pair))"
proof -
  have "sorted_wrt (\<lambda>x y. fst x < fst y) (prefix_entries (store_view view StoreKey c) (TWAPPrefix pair))"
    using prefix_entries_sorted by (simp add: sorted_wrt_map)
  moreover have "te_BlockTime (twap_of (env_time L) (snd x)) < te_BlockTime (twap_of (env_time L) (snd y))"
    if "x \<in> set (prefix_entries (store_view view StoreKey c) (TWAPPrefix pair))"
      "y \<in> set (prefix_entries (store_view view StoreKey c) (TWAPPrefix pair))" "fst x < fst y" for x y
  proof -
    obtain k v k' v' where xy: "x = (k, v)" "y = (k', v')" by (metis prod.collapse)
    note ex = twap_scan_entries [OF L inv pair that(1) [unfolded xy]] and ey = twap_scan_entries [OF L inv pair that(2) [unfolded xy]]
    show ?thesis
      using that(3) twap_entry_of(2,4,5) [OF ex(1)] twap_entry_of(2,4,5) [OF ey(1)]
      by (simp add: xy ex(2) ey(2) twap_key_less)
  qed
  ultimately show ?thesis by (rule sorted_wrt_mono_rel [rotated])
qed

lemma twap_history_sorted:
  assumes "sdk_laws L view" and "oracle_inv L view c" and "pair_ok pair"
  shows "sorted_wrt (<) (map te_BlockTime (twap_history (env_time L) (store_view view StoreKey c) pair))"
  using twap_scan_sorted [OF assms] by (simp add: twap_history_def sorted_wrt_map split_beta)

section \<open>Appending and pruning\<close>

lemma valid_time_nonneg: "0 \<le> t \<Longrightarrow> t < 2 ^ 63 \<Longrightarrow> valid_time t"
  by (simp add: valid_time_def zero_time_def)

lemma price_ok_String: "math_laws M \<Longrightarrow> dec_fits d \<Longrightarrow> 0 < d \<Longrightarrow> price_ok M (dec_String M d)"
  by (simp add: price_ok_def dec_roundtrip)

lemma AppendTWAPEntry_step:
  assumes L: "sdk_laws L view" and inv: "oracle_inv L view c" and pair: "pair_ok pair"
    and price: "dec_fits price" "0 < price" and t: "0 \<le> t" "t < 2 ^ 63"
  shows "\<exists>c'. AppendTWAPEntry L pair price t c = Ok c' \<and>
    oracle_step L view c c' ((oracle_of L view c)\<lparr>os_twap := (os_twap (oracle_of L view c))((pair, t) \<mapsto>
      \<lparr>te_Pair = pair, te_Price = dec_String (env_math L) price, te_BlockTime = t\<rparr>)\<rparr>)"
proof -
  let ?T = "env_time L" and ?e = "\<lparr>te_Pair = pair, te_Price = dec_String (env_math L) price, te_BlockTime = t\<rparr>"
  have ok: "twap_ok (pair, t)" using pair t by (simp add: twap_ok_def pair_ok_def is_i64_def)
  have T: "time_laws ?T" by (rule sdk_time [OF L])
  have "SizeOfStdTime ?T t < 128" by (metis time_lawsD [OF T valid_time_nonneg [OF t]])
  moreover have "length (dec_String (env_math L) price) < 128" by (rule dec_String_short [OF sdk_math [OF L] price(1)])
  ultimately have size_: "TWAPEntry_Size ?T ?e < 2 ^ 30"
    using size_string_le [of pair] size_string_le [of "dec_String (env_math L) price"] size_bytes_le [of "SizeOfStdTime ?T t"] pair
    by (simp add: TWAPEntry_Size_def pair_ok_def short_def)
  then have "time_laws ?T \<and> TWAPEntry_wf ?T ?e" using T valid_time_nonneg [OF t] by (simp add: TWAPEntry_wf_def)
  then obtain bz where bz: "TWAPEntry_Marshal ?T ?e = Ok bz" "length bz = TWAPEntry_Size ?T ?e" "TWAPEntry_Unmarshal ?T bz = Ok ?e"
    by (rule twap_codec.codec_obtain)
  have "valid_value bz" using bz(2) size_ by (simp add: valid_value_def)
  moreover have "twap_entry (env_math L) ?T (twap_key (pair, t)) bz"
    using t by (simp add: twap_entry_def bz(3) pair price_ok_String [OF sdk_math [OF L] price])
  ultimately have "\<exists>c'. store_set L StoreKey (twap_key (pair, t)) bz c = Ok c' \<and>
      oracle_step L view c c' ((oracle_of L view c)\<lparr>os_twap := (os_twap (oracle_of L view c))((pair, t) \<mapsto> ?e)\<rparr>)"
    using inv by (intro oracle_put [OF L twap_keys.key_valid [OF ok]])
      (simp_all add: families_put(4) inv_families abs_put(4) [OF ok bz(3)] oracle_of_def cross_conditions
        inv_linked [unfolded oracle_of_def] inv_counted [unfolded oracle_of_def])
  then show ?thesis by (simp add: AppendTWAPEntry_def bz(1) twap_key_def)
qed

lemma takeWhile_eq_filter_sorted:
  "sorted_wrt (\<lambda>x y. f x < (f y :: int)) xs \<Longrightarrow> takeWhile (\<lambda>x. f x < b) xs = filter (\<lambda>x. f x < b) xs"
proof (induction xs)
  case (Cons x xs)
  have "filter (\<lambda>x. f x < b) xs = []" if "\<not> f x < b"
    using Cons.prems that by (fastforce simp: filter_empty_conv)
  then show ?case using Cons by simp
qed simp

lemma prune_scan_eq:
  assumes "\<And>k v. (k, v) \<in> set es \<Longrightarrow> TWAPEntry_Unmarshal T v = Ok (twap_of T v)"
  shows "prune_scan T cutoff es = Ok (map fst (takeWhile (\<lambda>x. te_BlockTime (twap_of T (snd x)) < cutoff) es))"
  using assms
proof (induction es)
  case (Cons e es)
  obtain k v where e: "e = (k, v)" by (cases e)
  have "TWAPEntry_Unmarshal T v = Ok (twap_of T v)" using Cons.prems [of k v] by (simp add: e)
  moreover have "prune_scan T cutoff es = Ok (map fst (takeWhile (\<lambda>x. te_BlockTime (twap_of T (snd x)) < cutoff) es))"
  proof (rule Cons.IH)
    show "TWAPEntry_Unmarshal T v = Ok (twap_of T v)" if "(k, v) \<in> set es" for k v
      using Cons.prems [of k v] that by simp
  qed
  ultimately show ?case by (simp add: e)
qed simp

lemma PruneTWAPOlderThan_step:
  assumes L: "sdk_laws L view" and inv: "oracle_inv L view c" and pair: "pair_ok pair"
  shows "\<exists>c'. PruneTWAPOlderThan L pair cutoff c = Ok c' \<and>
    oracle_step L view c c' ((oracle_of L view c)\<lparr>os_twap := (\<lambda>(p, t).
      if p = pair \<and> t < cutoff then None else os_twap (oracle_of L view c) (p, t))\<rparr>)"
proof -
  let ?T = "env_time L" and ?m = "store_view view StoreKey c" and ?S = "oracle_of L view c"
  let ?es = "prefix_entries ?m (TWAPPrefix pair)"
  let ?old = "filter (\<lambda>x. te_BlockTime (twap_of ?T (snd x)) < cutoff) ?es"
  let ?S' = "?S\<lparr>os_twap := (\<lambda>(p, t). if p = pair \<and> t < cutoff then None else os_twap ?S (p, t))\<rparr>"
  have scan: "store_scan L StoreKey (TWAPPrefix pair) c = Ok ?es"
    by (rule store_scan_eq [OF L]) (simp add: TWAPPrefix_def)
  have keys: "prune_scan ?T cutoff ?es = Ok (map fst ?old)"
    using prune_scan_eq [of ?es ?T cutoff] twap_entry_of(1) [OF twap_scan_entries(1) [OF L inv pair]]
      takeWhile_eq_filter_sorted [OF twap_scan_sorted [OF L inv pair], of cutoff] by simp
  have entry: "?m k \<noteq> None \<and> (\<exists>t. k = twap_key (pair, t) \<and> twap_ok (pair, t) \<and> t < cutoff)" if "k \<in> set (map fst ?old)" for k
  proof -
    from that obtain v where kv: "(k, v) \<in> set ?es" and lt: "te_BlockTime (twap_of ?T v) < cutoff" by auto
    note e = twap_entry_of [OF twap_scan_entries(1) [OF L inv pair kv]] and s = twap_scan_entries(2,3) [OF L inv pair kv]
    have "twap_ok (pair, te_BlockTime (twap_of ?T v))" using e pair by (simp add: twap_ok_def pair_ok_def is_i64_def)
    then show ?thesis using e(2) s lt by auto
  qed
  obtain c' where c': "ofold (\<lambda>key. store_delete L StoreKey key) (map fst ?old) c = Ok c'" "frame StoreKey c c'"
      "store_view view StoreKey c' = (\<lambda>k. if k \<in> set (map fst ?old) then None else ?m k)"
    using store_delete_all [OF L, of "map fst ?old" StoreKey c] entry store_view_valid_key [OF L, of StoreKey c] by blast
  have sub: "store_view view StoreKey c' \<subseteq>\<^sub>m ?m" 
    unfolding c'(3) by (rule dropped_le)
  have other: "store_view view StoreKey c' k = ?m k" if "\<not> prefix [byte 3] k" for k
  proof -
    have "k \<notin> set (map fst ?old)" using that entry [of k] key_tags(4) [of "byte 3"] by blast
    then show ?thesis by (simp only: c'(3) if_False)
  qed
  have "os_twap (oracle_abs ?T (store_view view StoreKey c')) (p, t) = os_twap ?S' (p, t)" for p t
  proof (cases "p = pair \<and> t < cutoff \<and> ?m (twap_key (p, t)) \<noteq> None \<and> twap_ok (p, t)")
    case True
    then obtain v where v: "?m (twap_key (pair, t)) = Some v" by auto
    have kv: "(twap_key (pair, t), v) \<in> set ?es"
      using v pair by (simp add: prefix_entries_iff [OF store_view_finite [OF L]] TWAPPrefix_key)
    note e = twap_entry_of [OF twap_scan_entries(1) [OF L inv pair kv]] and s = twap_scan_entries(2) [OF L inv pair kv]
    have "twap_ok (pair, te_BlockTime (twap_of ?T v))" using e pair by (simp add: twap_ok_def pair_ok_def is_i64_def)
    then have "(pair, t) = (pair, te_BlockTime (twap_of ?T v))"
      using True e(2) s by (intro twap_keys.key_inject) auto
    then have "twap_key (pair, t) \<in> set (map fst ?old)" using kv True by force
    then show ?thesis using True by (simp add: oracle_abs_def typed_at_def c'(3))
  next
    case False
    then have "twap_ok (p, t) \<Longrightarrow> twap_key (p, t) \<in> set (map fst ?old) \<Longrightarrow> False"
      using entry [of "twap_key (p, t)"] twap_keys.key_inject [of "(p, t)"] by blast
    with False show ?thesis by (auto simp: oracle_of_fields oracle_abs_def typed_at_def c'(3))
  qed
  then have twap: "os_twap (oracle_abs ?T (store_view view StoreKey c')) = os_twap ?S'" by auto
  have "oracle_abs ?T (store_view view StoreKey c') = ?S'"
    using abs_agree_but_twap [where T = ?T and m = ?m and m' = "store_view view StoreKey c'", OF other] twap
    by (simp add: oracle_of_def)
  then have "oracle_step L view c c' ?S'"
    using inv by (intro oracle_stepI [OF c'(2)])
      (simp_all add: families_subset [OF inv_families sub] cross_conditions inv_linked inv_counted)
  then show ?thesis using c'(1) by (auto simp: PruneTWAPOlderThan_def scan keys)
qed

section \<open>The average\<close>

text \<open>
  The entries the reverse scan keeps: the last one at or before the start of the window and
  all later ones, none after the block time.
\<close>

definition twap_window :: "time \<Rightarrow> time \<Rightarrow> TWAPEntry list \<Rightarrow> TWAPEntry list" where
  "twap_window now start h =
     (let past = filter (\<lambda>e. te_BlockTime e \<le> now) h; before = filter (\<lambda>e. te_BlockTime e \<le> start) past
      in (if before = [] then [] else [last before]) @ filter (\<lambda>e. start < te_BlockTime e) past)"

lemma twap_scan_eq:
  assumes "\<And>k v. (k, v) \<in> set es \<Longrightarrow> TWAPEntry_Unmarshal T v = Ok (twap_of T v)"
    and "sorted_wrt (\<lambda>x y. te_BlockTime (twap_of T (snd x)) < te_BlockTime (twap_of T (snd y))) es"
  shows "twap_scan T now start (rev es) = Ok (rev (twap_window now start (map (\<lambda>(k, v). twap_of T v) es)))"
  using assms
proof (induction es rule: rev_induct)
  case Nil
  then show ?case by (simp add: twap_window_def)
next
  case (snoc x es)
  obtain k v where x: "x = (k, v)" by (cases x)
  let ?e = "twap_of T v" and ?h = "map (\<lambda>(k, v). twap_of T v) es"
  have dec: "TWAPEntry_Unmarshal T v = Ok ?e" using snoc.prems(1) [of k v] by (simp add: x)
  have IH: "twap_scan T now start (rev es) = Ok (rev (twap_window now start ?h))"
    using snoc.prems(2) by (intro snoc.IH) (use snoc.prems(1) in \<open>auto simp: sorted_wrt_append\<close>)
  have lt: "te_BlockTime e < te_BlockTime ?e" if "e \<in> set ?h" for e
    using snoc.prems(2) that by (auto simp: sorted_wrt_append x)
  consider "now < te_BlockTime ?e" | "te_BlockTime ?e \<le> now" "te_BlockTime ?e \<le> start"
    | "te_BlockTime ?e \<le> now" "start < te_BlockTime ?e" by linarith
  then show ?case
  proof cases
    case 1
    then show ?thesis using IH by (simp add: x dec twap_window_def Let_def)
  next
    case 2
    have "filter (\<lambda>e. start < te_BlockTime e) (filter (\<lambda>e. te_BlockTime e \<le> now) ?h) = []"
      using lt 2 by (fastforce simp: filter_empty_conv)
    then show ?thesis using 2 by (simp add: x dec twap_window_def Let_def)
  next
    case 3
    then have "twap_window now start (?h @ [?e]) = twap_window now start ?h @ [?e]"
      by (simp add: twap_window_def Let_def)
    then show ?thesis using IH 3 by (simp add: x dec)
  qed
qed

lemma twap_window_subset: "set (twap_window now start h) \<subseteq> {e \<in> set h. te_BlockTime e \<le> now}"
  using last_in_set [of "filter (\<lambda>e. te_BlockTime e \<le> start) (filter (\<lambda>e. te_BlockTime e \<le> now) h)"]
  by (auto simp: twap_window_def Let_def simp del: filter_filter)

lemma twap_window_sorted:
  assumes "sorted_wrt (<) (map te_BlockTime h)"
  shows "sorted_wrt (<) (map te_BlockTime (twap_window now start h))"
proof -
  have "sorted_wrt (\<lambda>x y. te_BlockTime x < te_BlockTime y) (filter P h)" for P
    using assms by (simp add: sorted_wrt_map sorted_wrt_filter)
  then show ?thesis
    using last_in_set [of "filter (\<lambda>e. te_BlockTime e \<le> start) (filter (\<lambda>e. te_BlockTime e \<le> now) h)"]
    by (auto simp: twap_window_def Let_def sorted_wrt_map simp del: filter_filter) (auto simp: filter_filter)
qed

definition price_of :: "math_lib \<Rightarrow> string \<Rightarrow> dec" where
  "price_of M s = (case LegacyNewDecFromStr M s of Ok d \<Rightarrow> d | _ \<Rightarrow> 0)"

lemma price_ok_parse: "price_ok M s \<Longrightarrow> LegacyNewDecFromStr M s = Ok (price_of M s) \<and> 0 < price_of M s"
  by (simp add: price_ok_def price_of_def split: outcome.splits)

text \<open>The area under the step function of the entries, each price counting until the next entry.\<close>

fun twap_area :: "math_lib \<Rightarrow> time \<Rightarrow> TWAPEntry list \<Rightarrow> int" where
  "twap_area M now [] = 0"
| "twap_area M now (e # es) =
     price_of M (te_Price e) * ((case es of [] \<Rightarrow> now | e' # _ \<Rightarrow> te_BlockTime e') - te_BlockTime e) + twap_area M now es"

definition twap_span :: "time \<Rightarrow> TWAPEntry list \<Rightarrow> int" where
  "twap_span now es = (case es of [] \<Rightarrow> 0 | e # _ \<Rightarrow> now - te_BlockTime e)"

lemma twap_span_step:
  "twap_span now (e # es) = ((case es of [] \<Rightarrow> now | e' # _ \<Rightarrow> te_BlockTime e') - te_BlockTime e) + twap_span now es"
  by (simp add: twap_span_def split: list.splits)

definition entries_within :: "math_lib \<Rightarrow> time \<Rightarrow> dec \<Rightarrow> dec \<Rightarrow> TWAPEntry list \<Rightarrow> bool" where
  "entries_within M now lo hi es \<longleftrightarrow> sorted_wrt (<) (map te_BlockTime es) \<and>
     (\<forall>e\<in>set es. 0 \<le> te_BlockTime e \<and> te_BlockTime e \<le> now \<and> price_ok M (te_Price e) \<and>
        lo \<le> price_of M (te_Price e) \<and> price_of M (te_Price e) \<le> hi)"

lemma entries_within_Cons:
  assumes "entries_within M now lo hi (e # es)"
  shows "entries_within M now lo hi es" and "te_BlockTime e \<le> now"
    and "te_BlockTime e \<le> (case es of [] \<Rightarrow> now | e' # _ \<Rightarrow> te_BlockTime e')"
    and "(case es of [] \<Rightarrow> now | e' # _ \<Rightarrow> te_BlockTime e') \<le> now"
    and "0 \<le> te_BlockTime e" and "price_ok M (te_Price e)"
    and "lo \<le> price_of M (te_Price e)" and "price_of M (te_Price e) \<le> hi"
  using assms by (auto simp: entries_within_def split: list.splits)

lemma twap_span_nonneg: "entries_within M now lo hi es \<Longrightarrow> 0 \<le> twap_span now es"
  by (auto simp: twap_span_def entries_within_def split: list.splits)

lemma twap_area_bounds:
  assumes "entries_within M now lo hi es"
  shows "lo * twap_span now es \<le> twap_area M now es \<and> twap_area M now es \<le> hi * twap_span now es"
  using assms
proof (induction es)
  case Nil
  then show ?case by (simp add: twap_span_def)
next
  case (Cons e es)
  define d where "d = (case es of [] \<Rightarrow> now | e' # _ \<Rightarrow> te_BlockTime e') - te_BlockTime e"
  note w = entries_within_Cons [OF Cons.prems]
  have "0 \<le> d" using w(3) by (simp add: d_def)
  then have "lo * d \<le> price_of M (te_Price e) * d" "price_of M (te_Price e) * d \<le> hi * d"
    using w(7,8) by (simp_all add: mult_right_mono)
  then show ?case using Cons.IH [OF w(1)] by (simp add: twap_span_step d_def [symmetric] distrib_left)
qed

lemma dec_fits_bound: "0 \<le> d \<Longrightarrow> d < 2 ^ 315 \<Longrightarrow> dec_fits d"
  by (simp add: dec_fits_def)

lemma twap_sum_eq:
  assumes M: "math_laws M" and now: "now < 2 ^ 63" and w: "entries_within M now lo hi es"
    and s: "0 \<le> s" "s + hi * twap_span now es < 2 ^ 315" and t: "0 \<le> t" "t + twap_span now es * dec_unit < 2 ^ 315"
  shows "twap_sum M now es s t = Ok (s + twap_area M now es, t + twap_span now es * dec_unit)"
  using w s t
proof (induction es arbitrary: s t)
  case Nil
  then show ?case by (simp add: twap_span_def)
next
  case (Cons e es)
  define stop where "stop = (case es of [] \<Rightarrow> now | e' # _ \<Rightarrow> te_BlockTime e')"
  define d where "d = stop - te_BlockTime e"
  define p where "p = price_of M (te_Price e)"
  note w = entries_within_Cons [OF Cons.prems(1)]
  have d: "0 \<le> d" "d < 2 ^ 63" using w(3,4,5) now by (simp_all add: d_def stop_def)
  have ts: "time_sub stop (te_BlockTime e) = d"
    using d by (simp add: d_def time_sub_def)
  have span: "twap_span now (e # es) = d + twap_span now es" by (simp add: twap_span_step d_def stop_def)
  have span0: "0 \<le> twap_span now es" by (rule twap_span_nonneg [OF w(1)])
  have parse: "LegacyNewDecFromStr M (te_Price e) = Ok p" and p: "0 < p" "p \<le> hi"
    using price_ok_parse [OF w(6)] w(8) by (simp_all add: p_def)
  have hi0: "0 \<le> hi * twap_span now es" using span0 p by simp
  have pd: "0 \<le> p * d" "p * d \<le> hi * d" using d p by (simp_all add: mult_right_mono)
  have b1: "s + p * d + hi * twap_span now es < 2 ^ 315" using Cons.prems(3) pd by (simp add: span distrib_left)
  have b2: "t + d * dec_unit + twap_span now es * dec_unit < 2 ^ 315" using Cons.prems(5) by (simp add: span distrib_right add.assoc)
  have du: "0 \<le> d * dec_unit" "0 \<le> twap_span now es * dec_unit" using d span0 by simp_all
  have "d * dec_unit < 2 ^ 315" "p * d < 2 ^ 315" "s + p * d < 2 ^ 315" "t + d * dec_unit < 2 ^ 315"
    using b1 b2 hi0 du Cons.prems(2,4) pd by linarith+
  then have fits: "dec_fits (p * d)" "dec_fits (s + p * d)" "dec_fits (t + d * dec_unit)"
    using Cons.prems(2,4) pd du by (simp_all add: dec_fits_bound)
  have mul: "dec_Mul M p (d * dec_unit) = Ok (p * d)"
    using dec_Mul_commute_exact [OF M, of p d] fits(1) by simp
  have "twap_sum M now (e # es) s t = twap_sum M now es (s + p * d) (t + d * dec_unit)"
    using fits by (simp add: parse stop_def [symmetric] ts Let_def mul dec_Add_eq [OF M] LegacyNewDec_eq [OF M] checked_dec_def)
  also have "\<dots> = Ok (s + p * d + twap_area M now es, t + d * dec_unit + twap_span now es * dec_unit)"
    using Cons.prems(2,4) pd du b1 b2 by (intro Cons.IH [OF w(1)]) simp_all
  finally show ?case by (simp add: span distrib_right p_def d_def stop_def algebra_simps)
qed

lemma dec_Quo_average:
  assumes M: "math_laws M" and D: "0 < D" and A: "lo * D \<le> A" "A \<le> hi * D" and fits: "0 \<le> A" "hi < 2 ^ 315"
  shows "\<exists>q. dec_Quo M A (D * dec_unit) = Ok q \<and> lo \<le> q \<and> q \<le> hi \<and> \<bar>q * D - A\<bar> \<le> D"
proof (rule dec_Quo_within [OF M, of "D * dec_unit" A])
  show "0 < D * dec_unit" using D by simp
next
  fix q
  assume q: "dec_Quo M A (D * dec_unit) = checked_dec q"
    and lo_q: "\<And>k. k * (D * dec_unit) \<le> A * dec_unit \<Longrightarrow> k \<le> q"
    and hi_q: "\<And>k. A * dec_unit \<le> k * (D * dec_unit) \<Longrightarrow> q \<le> k"
    and near: "(q - 1) * (D * dec_unit) < A * dec_unit" "A * dec_unit < (q + 1) * (D * dec_unit)"
  have bounds: "lo \<le> q" "q \<le> hi" "0 \<le> q"
    using A fits(1) lo_q [of lo] hi_q [of hi] lo_q [of 0] by (simp_all flip: mult.assoc)
  moreover have "(q - 1) * D < A" "A < (q + 1) * D" using near by (simp_all flip: mult.assoc)
  ultimately show ?thesis
    using q fits(2) by (simp add: checked_dec_def dec_fits_bound abs_le_iff algebra_simps)
qed

lemma GetTWAP_eq:
  assumes L: "sdk_laws L view" and inv: "oracle_inv L view c"
    and pair: "pair \<in> set (op_AcceptList (os_params (oracle_of L view c)))"
    and es: "es = twap_window (BlockTime c) (BlockTime c + i64 (- window)) (twap_history (env_time L) (store_view view StoreKey c) pair)"
  shows "GetTWAP L pair window c =
    (if es = [] then Err ErrNoTWAPData
     else if time_sub (BlockTime c) (te_BlockTime (last es)) > dur_mul (op_MaxPriceAge (os_params (oracle_of L view c))) Second
     then Err ErrStalePrice
     else if length es = 1 then LegacyNewDecFromStr (env_math L) (te_Price (hd es))
     else obind (twap_sum (env_math L) (BlockTime c) es 0 0) (\<lambda>(weightedSum, totalWeight).
            if totalWeight = 0 then Err ErrNoTWAPData else dec_Quo (env_math L) weightedSum totalWeight))"
proof -
  have ok: "pair_ok pair" by (rule params_ok_pairs [OF GetParams_eq(2) [OF L inv] sdk_math [OF L] pair])
  let ?es = "prefix_entries (store_view view StoreKey c) (TWAPPrefix pair)"
  have scan: "store_scan_rev L StoreKey (TWAPPrefix pair) c = Ok (rev ?es)"
    by (rule store_scan_rev_eq [OF L]) (simp add: TWAPPrefix_def)
  have "twap_scan (env_time L) (BlockTime c) (BlockTime c + i64 (- window)) (rev ?es) = Ok (rev es)"
    unfolding es twap_history_def
    by (rule twap_scan_eq [OF twap_entry_of(1) [OF twap_scan_entries(1) [OF L inv ok]] twap_scan_sorted [OF L inv ok]])
  then show ?thesis
    using pair by (simp add: GetTWAP_def GetParams_eq(1) [OF L inv] PairAccepted_iff scan Let_def)
qed

lemma GetTWAP_within:
  assumes L: "sdk_laws L view" and inv: "oracle_inv L view c" and now: "BlockTime c < 2 ^ 63"
    and pair: "pair \<in> set (op_AcceptList (os_params (oracle_of L view c)))"
    and es: "es = twap_window (BlockTime c) (BlockTime c + i64 (- window)) (twap_history (env_time L) (store_view view StoreKey c) pair)"
    and nonempty: "es \<noteq> []"
    and fresh: "BlockTime c - te_BlockTime (last es) \<le> dur_mul (op_MaxPriceAge (os_params (oracle_of L view c))) Second"
    and prices: "\<And>e. e \<in> set es \<Longrightarrow> lo \<le> price_of (env_math L) (te_Price e) \<and> price_of (env_math L) (te_Price e) \<le> hi"
    and hi: "hi < 2 ^ 250"
  shows "\<exists>p. GetTWAP L pair window c = Ok p \<and> lo \<le> p \<and> p \<le> hi \<and>
    \<bar>p * twap_span (BlockTime c) es - twap_area (env_math L) (BlockTime c) es\<bar> \<le> twap_span (BlockTime c) es"
proof -
  let ?M = "env_math L" and ?now = "BlockTime c"
  have M: "math_laws ?M" by (rule sdk_math [OF L])
  have ok: "pair_ok pair" by (rule params_ok_pairs [OF GetParams_eq(2) [OF L inv] M pair])
  have sub: "e \<in> set (twap_history (env_time L) (store_view view StoreKey c) pair) \<and> te_BlockTime e \<le> ?now" if "e \<in> set es" for e
    using that twap_window_subset es by blast
  have w: "entries_within ?M ?now lo hi es"
    unfolding entries_within_def
    using twap_window_sorted [OF twap_history_sorted [OF L inv ok]] es sub prices twap_history_entry [OF L inv ok] by blast
  have last: "0 \<le> te_BlockTime (last es)" "te_BlockTime (last es) \<le> ?now"
    using w last_in_set [OF nonempty] by (auto simp: entries_within_def)
  have "time_sub ?now (te_BlockTime (last es)) = ?now - te_BlockTime (last es)"
    using last now by (simp add: time_sub_def)
  with fresh have not_stale: "\<not> time_sub ?now (te_BlockTime (last es)) > dur_mul (op_MaxPriceAge (os_params (oracle_of L view c))) Second"
    by simp
  note eq = GetTWAP_eq [OF L inv pair es]
  obtain e r where er: "es = e # r" using nonempty by (cases es) auto
  note we = entries_within_Cons [OF w [unfolded er]]
  show ?thesis
  proof (cases "r = []")
    case True
    have "GetTWAP L pair window c = Ok (price_of ?M (te_Price e))"
      using not_stale price_ok_parse [OF we(6)] by (simp add: eq er True)
    then show ?thesis using we(2,7,8) by (simp add: er True twap_span_def)
  next
    case False
    define D where "D = twap_span ?now es"
    have "te_BlockTime e < te_BlockTime (last es)"
      using w er False last_in_set [OF False] by (simp add: entries_within_def)
    then have D: "0 < D" "D < 2 ^ 63" using last we(5) now by (simp_all add: D_def er twap_span_def)
    have hi0: "0 < hi" using price_ok_parse [OF we(6)] we(8) by simp
    have "hi * D < 2 ^ 250 * 2 ^ 63" using hi D hi0 by (intro mult_strict_mono) simp_all
    then have b1: "hi * D < 2 ^ 315" by (rule order.strict_trans) simp
    have "D * dec_unit < 2 ^ 63 * 2 ^ 60" using D by (intro mult_strict_mono) (simp_all add: dec_unit_def)
    then have b2: "D * dec_unit < 2 ^ 315" by (rule order.strict_trans) simp
    have s: "twap_sum ?M ?now es 0 0 = Ok (twap_area ?M ?now es, D * dec_unit)"
      using twap_sum_eq [OF M now w, of 0 0] b1 b2 by (simp add: D_def)
    have area: "lo * D \<le> twap_area ?M ?now es" "twap_area ?M ?now es \<le> hi * D"
      using twap_area_bounds [OF w] by (simp_all add: D_def)
    have "0 \<le> twap_area ?M ?now es" using twap_area_bounds [of ?M ?now 0 hi es] w D
      by (auto simp: entries_within_def D_def dest: price_ok_parse intro: less_imp_le)
    then obtain q where q: "dec_Quo ?M (twap_area ?M ?now es) (D * dec_unit) = Ok q" "lo \<le> q" "q \<le> hi"
        "\<bar>q * D - twap_area ?M ?now es\<bar> \<le> D"
      using dec_Quo_average [OF M D(1) area] hi by auto
    then have "GetTWAP L pair window c = Ok q"
      using not_stale False D by (simp add: eq s) (simp add: er)
    with q show ?thesis by (auto simp: D_def)
  qed
qed


section \<open>A concrete history\<close>

text \<open>The price was 1 for a long time and became 2 ten seconds ago.\<close>

definition sample_old :: TWAPEntry where
  "sample_old = \<lparr>te_Pair = ''VTX:USD'', te_Price = dec_String ref_math dec_unit, te_BlockTime = ref_now - 1000 * Second\<rparr>"

definition sample_new :: TWAPEntry where
  "sample_new = \<lparr>te_Pair = ''VTX:USD'', te_Price = dec_String ref_math (2 * dec_unit), te_BlockTime = ref_now - 10 * Second\<rparr>"

lemma VTX_USD_ok: "pair_ok ''VTX:USD''"
  by (simp add: pair_ok_def pairRegex_def base_quote_def upper_alnum_def byte_val_def short_def)

lemma sample_times: "0 \<le> te_BlockTime sample_old" "te_BlockTime sample_old < 2 ^ 63" "0 \<le> te_BlockTime sample_new"
  "te_BlockTime sample_new < 2 ^ 63" "te_BlockTime sample_old < te_BlockTime sample_new"
  by (simp_all add: sample_old_def sample_new_def ref_now_def Second_def)

lemma unit_fits: "dec_fits dec_unit" "dec_fits (2 * dec_unit)"
  by (simp_all add: dec_fits_def dec_unit_def)

lemma sample_entries:
  "\<lparr>te_Pair = ''VTX:USD'', te_Price = dec_String (env_math ref_env) dec_unit, te_BlockTime = te_BlockTime sample_old\<rparr> = sample_old"
  "\<lparr>te_Pair = ''VTX:USD'', te_Price = dec_String (env_math ref_env) (2 * dec_unit), te_BlockTime = te_BlockTime sample_new\<rparr> = sample_new"
  by (simp_all add: sample_old_def sample_new_def)

lemma sample_history:
  "\<exists>c. oracle_inv ref_env ref_view c \<and> BlockTime c = ref_now \<and> os_params (oracle_of ref_env ref_view c) = DefaultParams \<and>
     twap_history ref_time (store_view ref_view StoreKey c) ''VTX:USD'' = [sample_old, sample_new]"
proof -
  define c0 where "c0 = ref_ctx \<lparr>rc_coins = [], rc_validators = [], rc_powers = []\<rparr>"
  have "store_view ref_view StoreKey c0 = Map.empty" by (simp add: c0_def)
  note c0 = oracle_empty [OF this, of ref_env]
  have t0: "BlockTime c0 = ref_now" by (simp add: c0_def)
  obtain c1 where c1: "oracle_step ref_env ref_view c0 c1 ((oracle_of ref_env ref_view c0)\<lparr>os_twap :=
      (os_twap (oracle_of ref_env ref_view c0))((''VTX:USD'', te_BlockTime sample_old) \<mapsto> sample_old)\<rparr>)"
    using AppendTWAPEntry_step [OF ref_sdk_laws c0(1) VTX_USD_ok unit_fits(1) dec_unit_pos sample_times(1,2), unfolded sample_entries]
    by blast
  have pos: "0 < 2 * dec_unit" by simp
  obtain c2 where c2: "oracle_step ref_env ref_view c1 c2 ((oracle_of ref_env ref_view c1)\<lparr>os_twap :=
      (os_twap (oracle_of ref_env ref_view c1))((''VTX:USD'', te_BlockTime sample_new) \<mapsto> sample_new)\<rparr>)"
    using AppendTWAPEntry_step [OF ref_sdk_laws step_inv [OF c1] VTX_USD_ok unit_fits(2) pos sample_times(3,4), unfolded sample_entries]
    by blast
  have twap: "os_twap (oracle_of ref_env ref_view c2) =
      [(''VTX:USD'', te_BlockTime sample_old) \<mapsto> sample_old, (''VTX:USD'', te_BlockTime sample_new) \<mapsto> sample_new]"
    by (simp add: step_state [OF c2] step_state [OF c1] c0(2) empty_oracle_def)
  let ?h = "twap_history ref_time (store_view ref_view StoreKey c2) ''VTX:USD''"
  have iff: "e \<in> set ?h \<longleftrightarrow> os_twap (oracle_of ref_env ref_view c2) (''VTX:USD'', te_BlockTime e) = Some e" for e
    using twap_history_iff [OF ref_sdk_laws step_inv [OF c2] VTX_USD_ok] by simp
  have "set ?h = set [sample_old, sample_new]"
    using sample_times(5) by (auto simp: iff twap split: if_splits)
  moreover have "sorted_wrt (<) (map te_BlockTime ?h)"
    using twap_history_sorted [OF ref_sdk_laws step_inv [OF c2] VTX_USD_ok] by simp
  ultimately have "?h = [sample_old, sample_new]"
    using sample_times(5) by (intro sorted_by_unique [where f = te_BlockTime]) simp_all
  moreover have "BlockTime c2 = ref_now"
    using frame_fields(3) [OF step_frame [OF c2]] frame_fields(3) [OF step_frame [OF c1]] t0 by simp
  moreover have "os_params (oracle_of ref_env ref_view c2) = DefaultParams"
    by (simp add: step_state [OF c2] step_state [OF c1] c0(2) empty_oracle_def)
  ultimately show ?thesis using step_inv [OF c2] by blast
qed

lemma twap_sample_prices: "price_of ref_math (te_Price sample_old) = dec_unit" "price_of ref_math (te_Price sample_new) = 2 * dec_unit"
  by (simp_all add: price_of_def sample_old_def sample_new_def dec_roundtrip [OF ref_math_laws] unit_fits)

lemma twap_sample_window:
  "twap_window ref_now (ref_now + i64 (- (20 * Second))) [sample_old, sample_new] = [sample_old, sample_new]"
  by (simp add: twap_window_def Let_def sample_old_def sample_new_def Second_def i64_def)

lemma VTX_USD_accepted: "''VTX:USD'' \<in> set (op_AcceptList DefaultParams)"
  by (simp add: DefaultParams_def)

lemma sample_fresh: "ref_now - te_BlockTime (last [sample_old, sample_new]) \<le> dur_mul (op_MaxPriceAge DefaultParams) Second"
  by (simp add: sample_new_def DefaultParams_def dur_mul_def Second_def i64_def)


text \<open>The average over the window itself: the entry before the window counts from the window's start on.\<close>

definition twap_clamp :: "time \<Rightarrow> TWAPEntry list \<Rightarrow> TWAPEntry list" where
  "twap_clamp start es =
     (case es of [] \<Rightarrow> [] | e # r \<Rightarrow> e\<lparr>te_BlockTime := max start (te_BlockTime e)\<rparr> # r)"

text \<open>
  C35. The entry before the window is not clamped to the window's start: for some stored
  history, over a window of 20 seconds in which the price was 1 and then 2 for ten seconds
  each, the query returns less than 1.02, while the average over the window is 1.5.
\<close>

theorem GetTWAP_not_clamped:
  "\<exists>c p es. oracle_inv ref_env ref_view c \<and>
     es = twap_window (BlockTime c) (BlockTime c - 20 * Second) (twap_history ref_time (store_view ref_view StoreKey c) ''VTX:USD'') \<and>
     GetTWAP ref_env ''VTX:USD'' (20 * Second) c = Ok p \<and> 100 * p < 102 * dec_unit \<and>
     2 * twap_area ref_math (BlockTime c) (twap_clamp (BlockTime c - 20 * Second) es) =
       3 * dec_unit * twap_span (BlockTime c) (twap_clamp (BlockTime c - 20 * Second) es)"
proof -
  obtain c where c: "oracle_inv ref_env ref_view c" "BlockTime c = ref_now"
      "os_params (oracle_of ref_env ref_view c) = DefaultParams"
      "twap_history ref_time (store_view ref_view StoreKey c) ''VTX:USD'' = [sample_old, sample_new]"
    using sample_history by blast
  have start: "ref_now + i64 (- (20 * Second)) = ref_now - 20 * Second" by (simp add: Second_def i64_def)
  have "\<exists>p. GetTWAP ref_env ''VTX:USD'' (20 * Second) c = Ok p \<and> dec_unit \<le> p \<and> p \<le> 2 * dec_unit \<and>
      \<bar>p * twap_span (BlockTime c) [sample_old, sample_new] - twap_area (env_math ref_env) (BlockTime c) [sample_old, sample_new]\<bar>
        \<le> twap_span (BlockTime c) [sample_old, sample_new]"
    by (rule GetTWAP_within [OF ref_sdk_laws c(1)])
      (use sample_fresh twap_sample_window VTX_USD_accepted in \<open>auto simp: c twap_sample_prices ref_now_def Second_def dec_unit_def\<close>)
  then obtain p where p: "GetTWAP ref_env ''VTX:USD'' (20 * Second) c = Ok p"
      "\<bar>p * twap_span ref_now [sample_old, sample_new] - twap_area ref_math ref_now [sample_old, sample_new]\<bar>
        \<le> twap_span ref_now [sample_old, sample_new]"
    unfolding c(2) ref_env_fields by blast
  have "twap_area ref_math ref_now [sample_old, sample_new] = 1010 * (dec_unit * Second)"
    by (simp add: twap_sample_prices) (simp add: sample_old_def sample_new_def algebra_simps)
  moreover have "twap_span ref_now [sample_old, sample_new] = 1000 * Second"
    by (simp add: twap_span_def sample_old_def)
  ultimately have "100 * p < 102 * dec_unit" using p(2) by (simp add: Second_def dec_unit_def)
  moreover have "2 * twap_area ref_math ref_now (twap_clamp (ref_now - 20 * Second) [sample_old, sample_new]) =
      3 * dec_unit * twap_span ref_now (twap_clamp (ref_now - 20 * Second) [sample_old, sample_new])"
    by (simp add: twap_clamp_def twap_span_def twap_sample_prices)
      (simp add: sample_old_def sample_new_def Second_def dec_unit_def)
  ultimately show ?thesis
    using c p(1) twap_sample_window by (intro exI [of _ c] exI [of _ p] exI [of _ "[sample_old, sample_new]"]) (simp add: start)
qed

end
