(* ===== verification/Oracle_EndBlock.thy ===== *)
theory Oracle_EndBlock
  imports Oracle_Aggregate Oracle_Twap
begin

text \<open>
  \<open>x/oracle/keeper/abci.go\<close>: the work at the end of a vote window. For each accepted pair
  the feeds of bonded validators are collected, and with a quorum the median is published,
  appended to the history and outliers are slashed; then each bonded validator's
  participation is counted and, at the end of its miss window, judged; at last all feeds
  are deleted.
\<close>

section \<open>Collecting the feeds of a pair\<close>

text \<open>
  The variables the callback of \<open>IterateAllFeeds\<close> appends to; \<open>validFeeds\<close> holds the same
  validators as \<open>weighted\<close> and the same prices as \<open>rawPrices\<close>.
\<close>

record collected =
  weighted :: "WeightedPrice list"
  rawPrices :: "dec list"
  validFeeds :: "(string \<times> dec) list"
  submittedPower :: int

definition collect_feed ::
    "('s, 'x) env \<Rightarrow> ('s, 'x) ctx \<Rightarrow> (string \<rightharpoonup> validator) \<Rightarrow> string \<Rightarrow> collected feed_callback" where
  "collect_feed L c valByOper pair val feedPair priceStr acc =
     (if feedPair \<noteq> pair then Ok (True, acc)
      else case LegacyNewDecFromStr (env_math L) priceStr of
             Panic \<Rightarrow> Panic
           | Err _ \<Rightarrow> Ok (True, acc)
           | Ok price \<Rightarrow>
               if \<not> price > 0 then Ok (True, acc)
               else let oper = ValAddress_String (env_addr L) val
                    in case valByOper oper of
                         None \<Rightarrow> Ok (True, acc)
                       | Some v \<Rightarrow>
                           if val_Status v \<noteq> Bonded then Ok (True, acc)
                           else (case GetLastValidatorPower (env_keepers L) (ext c) val of
                                   Panic \<Rightarrow> Panic
                                 | Err _ \<Rightarrow> Ok (True, acc)
                                 | Ok pw \<Rightarrow>
                                     if pw = 0 then Ok (True, acc)
                                     else obind (int_Add (env_math L) (submittedPower acc) pw) (\<lambda>sub.
                                       Ok (True,
                                         \<lparr>weighted = weighted acc @ [\<lparr>wp_Price = price, wp_Weight = pw, wp_Valoper = oper\<rparr>],
                                          rawPrices = rawPrices acc @ [price],
                                          validFeeds = validFeeds acc @ [(oper, price)],
                                          submittedPower = sub\<rparr>))))"

definition no_feeds :: collected where
  "no_feeds = \<lparr>weighted = [], rawPrices = [], validFeeds = [], submittedPower = 0\<rparr>"

section \<open>Slashing\<close>

text \<open>\<open>slashValidator\<close> returns silently when anything it needs is missing or \<open>Slash\<close> fails.\<close>

definition slashValidator ::
    "('s, 'x) env \<Rightarrow> validator \<Rightarrow> dec \<Rightarrow> string \<Rightarrow> ('s, 'x) ctx \<Rightarrow> ('s, 'x) ctx outcome" where
  "slashValidator L v rate reason c =
     (case GetConsAddr (env_keepers L) v of
        Panic \<Rightarrow> Panic
      | Err _ \<Rightarrow> Ok c
      | Ok None \<Rightarrow> Ok c
      | Ok (Some consAddr) \<Rightarrow>
          (case ValAddressFromBech32 (env_addr L) (OperatorAddress v) of
             Panic \<Rightarrow> Panic
           | Err _ \<Rightarrow> Ok c
           | Ok valAddr \<Rightarrow>
               (case GetLastValidatorPower (env_keepers L) (ext c) valAddr of
                  Panic \<Rightarrow> Panic
                | Err _ \<Rightarrow> Ok c
                | Ok pw \<Rightarrow>
                    if pw = 0 then Ok c
                    else (case Slash (env_keepers L) (ext c) consAddr rate pw (BlockHeight c) of
                            Panic \<Rightarrow> Panic
                          | Err _ \<Rightarrow> Ok c
                          | Ok x \<Rightarrow>
                              Ok (EmitEvent (Event EventTypeSlash
                                    [(''validator'', OperatorAddress v), (''slash_reason'', reason),
                                     (''slash_fraction'', dec_String (env_math L) rate)])
                                  (c\<lparr>ext := x\<rparr>))))))"

text \<open>The zero \<open>Validator\<close> a lookup in the Go map yields for a missing key.\<close>

definition zero_validator :: validator where
  "zero_validator = \<lparr>OperatorAddress = [], val_Status = Unspecified, ConsensusPubkey = []\<rparr>"

definition slash_outlier ::
    "('s, 'x) env \<Rightarrow> (string \<rightharpoonup> validator) \<Rightarrow> dec \<Rightarrow> dec \<Rightarrow> dec \<Rightarrow> string \<times> dec \<Rightarrow> ('s, 'x) ctx \<Rightarrow> ('s, 'x) ctx outcome" where
  "slash_outlier L valByOper refMedian outlierThreshold outlierSlashRate f c =
     obind (dec_Sub (env_math L) (snd f) refMedian) (\<lambda>d.
     obind (dec_Quo (env_math L) \<bar>d\<bar> refMedian) (\<lambda>dev.
       if dev > outlierThreshold
       then slashValidator L (case valByOper (fst f) of Some v \<Rightarrow> v | None \<Rightarrow> zero_validator)
              outlierSlashRate ''outlier'' c
       else Ok c))"

section \<open>One pair\<close>

definition aggregate_pair ::
    "('s, 'x) env \<Rightarrow> (string \<rightharpoonup> validator) \<Rightarrow> int \<Rightarrow> dec \<Rightarrow> dec \<Rightarrow> dec \<Rightarrow> string \<Rightarrow>
     string list \<times> ('s, 'x) ctx \<Rightarrow> (string list \<times> ('s, 'x) ctx) outcome" where
  "aggregate_pair L valByOper totalPower quorumFraction outlierThreshold outlierSlashRate pair =
     (\<lambda>(quorumLive, c).
       obind (IterateAllFeeds L c (collect_feed L c valByOper pair) no_feeds) (\<lambda>fs.
         if weighted fs = [] then Ok (quorumLive, c)
         else obind (QuorumMet (env_math L) (submittedPower fs) totalPower quorumFraction) (\<lambda>met.
           if \<not> met then Ok (quorumLive, c)
           else let median = WeightedMedian (weighted fs);
                    refMedian = UnweightedMedian (rawPrices fs);
                    price = dec_String (env_math L) median
                in obind (SetAggregatedPrice L \<lparr>ap_Pair = pair, ap_Price = price,
                      ap_BlockHeight = BlockHeight c, ap_BlockTime = BlockTime c\<rparr> c) (\<lambda>c.
                   obind (AppendTWAPEntry L pair median (BlockTime c) c) (\<lambda>c.
                   obind (PruneTWAPOlderThan L pair (BlockTime c + (- 24 * Hour)) c) (\<lambda>c.
                   let c = EmitEvent (Event EventTypePriceAggregated [(''pair'', pair), (''price'', price)]) c
                   in obind (if refMedian > 0
                             then ofold (slash_outlier L valByOper refMedian outlierThreshold outlierSlashRate) (validFeeds fs) c
                             else Ok c) (\<lambda>c.
                      Ok (quorumLive @ [pair], c))))))))"

section \<open>One validator\<close>

definition judge_validator ::
    "('s, 'x) env \<Rightarrow> OracleParams \<Rightarrow> string list \<Rightarrow> dec \<Rightarrow> dec \<Rightarrow> validator \<Rightarrow> ('s, 'x) ctx \<Rightarrow> ('s, 'x) ctx outcome" where
  "judge_validator L params quorumLive missThreshold missSlashRate v c =
     (case ValAddressFromBech32 (env_addr L) (OperatorAddress v) of
        Panic \<Rightarrow> Panic
      | Err _ \<Rightarrow> Ok c
      | Ok valAddr \<Rightarrow>
          obind (GetValidatorSubmittedPairs L valAddr c) (\<lambda>submitted.
          let submittedAllLive = list_all (\<lambda>pair. pair \<in> set submitted) quorumLive
          in obind (IncTotalWindows L valAddr c) (\<lambda>(total, c).
             obind (if \<not> submittedAllLive then IncMissCounter L valAddr c
                    else obind (GetMissCounter L valAddr c) (\<lambda>miss. Ok (miss, c))) (\<lambda>(miss, c).
               if total \<ge> op_MissWindowSize params
               then obind (dec_Quo (env_math L) (LegacyNewDec (env_math L) miss)
                             (LegacyNewDec (env_math L) total)) (\<lambda>missRate.
                    obind (if missRate > missThreshold then slashValidator L v missSlashRate ''miss'' c
                           else Ok c) (\<lambda>c.
                    ResetValidatorWindows L valAddr c))
               else Ok c))))"

section \<open>The end blocker\<close>

text \<open>\<open>for _, v := range vals { valByOper[v.OperatorAddress] = v }\<close>.\<close>

definition validators_by_operator :: "validator list \<Rightarrow> string \<rightharpoonup> validator" where
  "validators_by_operator vals = foldl (\<lambda>m v. m(OperatorAddress v \<mapsto> v)) Map.empty vals"

definition EndBlocker :: "('s, 'x) env \<Rightarrow> ('s, 'x) ctx \<Rightarrow> ('s, 'x) ctx outcome" where
  "EndBlocker L c =
     obind (GetParams L c) (\<lambda>params.
     obind (go_mod (BlockHeight c) (op_VoteWindow params)) (\<lambda>m.
       if m \<noteq> 0 then Ok c
       else
         obind (GetBondedValidatorsByPower (env_keepers L) (ext c)) (\<lambda>vals.
         let valByOper = validators_by_operator vals
         in obind (GetLastTotalPower (env_keepers L) (ext c)) (\<lambda>totalPower.
         obind (LegacyNewDecFromStr (env_math L) (op_QuorumFraction params)) (\<lambda>quorumFraction.
         obind (LegacyNewDecFromStr (env_math L) (op_OutlierThreshold params)) (\<lambda>outlierThreshold.
         obind (LegacyNewDecFromStr (env_math L) (op_OutlierSlashRate params)) (\<lambda>outlierSlashRate.
         obind (LegacyNewDecFromStr (env_math L) (op_MissThreshold params)) (\<lambda>missThreshold.
         obind (LegacyNewDecFromStr (env_math L) (op_MissSlashRate params)) (\<lambda>missSlashRate.
         obind (ofold (aggregate_pair L valByOper totalPower quorumFraction outlierThreshold outlierSlashRate)
                  (op_AcceptList params) ([], c)) (\<lambda>(quorumLive, c).
         obind (ofold (judge_validator L params quorumLive missThreshold missSlashRate) vals c) (\<lambda>c.
         DeleteAllFeeds L c)))))))))))"

section \<open>The votes for a pair\<close>

text \<open>
  What counts for a pair: the stored feeds of bonded validators with power, in the order of
  the store, each with its price and its validator's power.
\<close>

definition counted :: "('s, 'x) env \<Rightarrow> 'x \<Rightarrow> (string \<rightharpoonup> validator) \<Rightarrow> string \<Rightarrow> (addr \<times> string) \<times> OracleFeed \<Rightarrow> bool" where
  "counted L x valByOper pair = (\<lambda>((val, p), f).
     p = pair \<and> price_ok (env_math L) (feed_Price f) \<and>
     (case valByOper (ValAddress_String (env_addr L) val) of Some v \<Rightarrow> val_Status v = Bonded | None \<Rightarrow> False) \<and>
     power_of (env_keepers L) x val \<noteq> 0)"

definition vote_of :: "('s, 'x) env \<Rightarrow> 'x \<Rightarrow> (addr \<times> string) \<times> OracleFeed \<Rightarrow> WeightedPrice" where
  "vote_of L x = (\<lambda>((val, p), f).
     \<lparr>wp_Price = price_of (env_math L) (feed_Price f), wp_Weight = power_of (env_keepers L) x val,
      wp_Valoper = ValAddress_String (env_addr L) val\<rparr>)"

definition votes :: "('s, 'x) env \<Rightarrow> 'x \<Rightarrow> (string \<rightharpoonup> validator) \<Rightarrow> (bytes \<rightharpoonup> bytes) \<Rightarrow> string \<Rightarrow> WeightedPrice list" where
  "votes L x valByOper m pair = map (vote_of L x) (filter (counted L x valByOper pair) (stored_feeds m))"

definition add_votes :: "WeightedPrice list \<Rightarrow> collected \<Rightarrow> collected" where
  "add_votes ws acc =
     \<lparr>weighted = weighted acc @ ws, rawPrices = rawPrices acc @ map wp_Price ws,
      validFeeds = validFeeds acc @ map (\<lambda>w. (wp_Valoper w, wp_Price w)) ws,
      submittedPower = submittedPower acc + sum_list (map wp_Weight ws)\<rparr>"

definition collect_vote :: "('s, 'x) env \<Rightarrow> ('s, 'x) ctx \<Rightarrow> (string \<rightharpoonup> validator) \<Rightarrow> string \<Rightarrow> addr \<Rightarrow> string \<Rightarrow> string \<Rightarrow> collected \<Rightarrow> collected outcome" where
  "collect_vote L c valByOper pair val p price acc = obind (collect_feed L c valByOper pair val p price acc) (\<lambda>(_, acc). Ok acc)"

lemma collect_feed_continues:
  "collect_feed L c valByOper pair val p price acc = obind (collect_vote L c valByOper pair val p price acc) (\<lambda>a. Ok (True, a))"
  by (simp add: collect_vote_def collect_feed_def Let_def obind_assoc split: outcome.splits option.splits)

lemma collect_vote_eq:
  assumes M: "math_laws (env_math L)" and B: "slash_laws (env_keepers L)"
    and range: "0 \<le> submittedPower acc" "0 \<le> power_of (env_keepers L) (ext c) val"
      "counted L (ext c) valByOper pair ((val, p), f) \<Longrightarrow> submittedPower acc + power_of (env_keepers L) (ext c) val < 2 ^ 63"
  shows "collect_vote L c valByOper pair val p (feed_Price f) acc =
    Ok (if counted L (ext c) valByOper pair ((val, p), f) then add_votes [vote_of L (ext c) ((val, p), f)] acc else acc)"
proof (cases "counted L (ext c) valByOper pair ((val, p), f)")
  case True
  then have "int_fits (submittedPower acc + power_of (env_keepers L) (ext c) val)" using range by (simp add: int_fits_def)
  then show ?thesis
    using True by (auto simp: collect_vote_def collect_feed_def counted_def vote_of_def add_votes_def price_ok_def price_of_def
        power_of_def Let_def int_Add_eq [OF M] checked_int_def split: outcome.splits option.splits)
next
  case False
  then show ?thesis
    using dec_from_str_no_panic [OF M, of "feed_Price f"] power_no_panic [OF B, of "ext c" val]
    by (auto simp: collect_vote_def collect_feed_def counted_def price_ok_def power_of_def Let_def
        split: outcome.splits option.splits)
qed

lemma add_votes_append: "add_votes ws (add_votes vs acc) = add_votes (vs @ ws) acc"
  by (simp add: add_votes_def)

lemma collect_votes_fold:
  assumes M: "math_laws (env_math L)" and B: "slash_laws (env_keepers L)"
    and pos: "\<And>a. 0 \<le> power_of (env_keepers L) (ext c) a" and acc: "0 \<le> submittedPower acc"
    and bound: "submittedPower acc +
      sum_list (map wp_Weight (map (vote_of L (ext c)) (filter (counted L (ext c) valByOper pair) fs))) < 2 ^ 63"
  shows "ofold (\<lambda>((val, p), f). collect_vote L c valByOper pair val p (feed_Price f)) fs acc =
    Ok (add_votes (map (vote_of L (ext c)) (filter (counted L (ext c) valByOper pair) fs)) acc)"
  using acc bound
proof (induction fs arbitrary: acc)
  case Nil
  then show ?case by (simp add: add_votes_def)
next
  case (Cons e fs)
  obtain val p f where e: "e = ((val, p), f)" by (metis prod.collapse)
  let ?rest = "map (vote_of L (ext c)) (filter (counted L (ext c) valByOper pair) fs)"
  have w: "wp_Weight (vote_of L (ext c) ((val, p), f)) = power_of (env_keepers L) (ext c) val" by (simp add: vote_of_def)
  have rest: "0 \<le> sum_list (map wp_Weight ?rest)"
    by (rule sum_list_nonneg) (auto simp: vote_of_def pos)
  show ?case
  proof (cases "counted L (ext c) valByOper pair e")
    case True
    let ?acc = "add_votes [vote_of L (ext c) e] acc"
    have step: "collect_vote L c valByOper pair val p (feed_Price f) acc = Ok ?acc"
      using Cons.prems True rest pos [of val]
      by (subst collect_vote_eq [OF M B]) (simp_all add: e vote_of_def)
    have "0 \<le> submittedPower ?acc" "submittedPower ?acc + sum_list (map wp_Weight ?rest) < 2 ^ 63"
      using Cons.prems True pos [of val] by (simp_all add: add_votes_def e w)
    then show ?thesis using Cons.IH [of ?acc] step True by (simp add: e add_votes_append)
  next
    case False
    then have "collect_vote L c valByOper pair val p (feed_Price f) acc = Ok acc"
      using Cons.prems pos [of val] by (subst collect_vote_eq [OF M B]) (simp_all add: e)
    then show ?thesis using Cons False by (simp add: e)
  qed
qed

lemma votes_weights:
  assumes L: "sdk_laws L view" and inv: "oracle_inv L view c" and st: "staking_state (env_keepers L) x t"
  shows "sum_list (map wp_Weight (votes L x valByOper (store_view view StoreKey c) pair)) \<le> t"
    and "\<And>w. w \<in> set (votes L x valByOper (store_view view StoreKey c) pair) \<Longrightarrow> 0 < wp_Weight w"
proof -
  let ?fs = "filter (counted L x valByOper pair) (stored_feeds (store_view view StoreKey c))"
  let ?vals = "map (\<lambda>((val, p), f). val) ?fs"
  have "distinct (map fst ?fs)" using stored_feeds_distinct [OF L inv] by (rule distinct_map_filter)
  moreover have "map fst ?fs = map (\<lambda>v. (v, pair)) ?vals" by (auto simp: counted_def)
  ultimately have "distinct ?vals" by (metis distinct_map)
  then have "sum_list (map (power_of (env_keepers L) x) ?vals) \<le> t" by (rule staking_power_sum [OF st])
  moreover have "map wp_Weight (votes L x valByOper (store_view view StoreKey c) pair) = map (power_of (env_keepers L) x) ?vals"
    by (auto simp: votes_def vote_of_def)
  ultimately show "sum_list (map wp_Weight (votes L x valByOper (store_view view StoreKey c) pair)) \<le> t" by simp
  show "0 < wp_Weight w" if "w \<in> set (votes L x valByOper (store_view view StoreKey c) pair)" for w
  proof -
    from that obtain val p f where "counted L x valByOper pair ((val, p), f)" "w = vote_of L x ((val, p), f)"
      by (auto simp: votes_def)
    then have "wp_Weight w \<noteq> 0" "wp_Weight w = power_of (env_keepers L) x val" by (simp_all add: counted_def vote_of_def)
    then show ?thesis using staking_power_nonneg [OF st, of val] by simp
  qed
qed

lemma votes_ok:
  assumes "sdk_laws L view" and "oracle_inv L view c" and st: "staking_state (env_keepers L) x t"
  shows "weights_ok (votes L x valByOper (store_view view StoreKey c) pair)"
  using votes_weights [OF assms] staking_total_bound [OF st]
  unfolding weights_ok_def by (meson order.strict_trans1)

lemma collect_eq:
  assumes L: "sdk_laws L view" and B: "slash_laws (env_keepers L)" and inv: "oracle_inv L view c"
    and st: "staking_state (env_keepers L) (ext c) t"
  shows "IterateAllFeeds L c (collect_feed L c valByOper pair) no_feeds =
    Ok (add_votes (votes L (ext c) valByOper (store_view view StoreKey c) pair) no_feeds)"
proof -
  have "IterateAllFeeds L c (collect_feed L c valByOper pair) no_feeds =
      ofold (\<lambda>((val, p), f). collect_vote L c valByOper pair val p (feed_Price f)) (stored_feeds (store_view view StoreKey c)) no_feeds"
    by (rule IterateAllFeeds_eq [OF L inv collect_feed_continues])
  also have "\<dots> = Ok (add_votes (votes L (ext c) valByOper (store_view view StoreKey c) pair) no_feeds)"
    using votes_weights(1) [OF L inv st, of valByOper pair] staking_total_bound [OF st] unfolding votes_def
    by (intro collect_votes_fold [OF sdk_math [OF L] B staking_power_nonneg [OF st]]) (simp_all add: no_feeds_def)
  finally show ?thesis .
qed

section \<open>The effect of a block on the store\<close>

definition block_ok :: "('s, 'x) ctx \<Rightarrow> bool" where
  "block_ok c \<longleftrightarrow> 0 \<le> BlockTime c \<and> BlockTime c < 2 ^ 63 \<and> is_i64 (BlockHeight c)"

text \<open>
  \<open>block_step L view c c' S\<close>: from \<open>c\<close> to \<open>c'\<close> the block, the other stores and the powers
  stay; the oracle's store represents \<open>S\<close> and satisfies the invariant. Slashing may have
  changed the rest of the SDK's state, and events may have been emitted.
\<close>

definition block_step :: "('s, 'x) env \<Rightarrow> ('s \<Rightarrow> bytes \<rightharpoonup> bytes) \<Rightarrow> ('s, 'x) ctx \<Rightarrow> ('s, 'x) ctx \<Rightarrow> oracle_state \<Rightarrow> bool" where
  "block_step L view c c' S \<longleftrightarrow>
     (\<forall>n. n \<noteq> StoreKey \<longrightarrow> multistore c' n = multistore c n) \<and>
     BlockHeight c' = BlockHeight c \<and> BlockTime c' = BlockTime c \<and>
     GetLastValidatorPower (env_keepers L) (ext c') = GetLastValidatorPower (env_keepers L) (ext c) \<and>
     GetLastTotalPower (env_keepers L) (ext c') = GetLastTotalPower (env_keepers L) (ext c) \<and>
     oracle_of L view c' = S \<and> oracle_inv L view c'"

lemma block_stepD:
  assumes "block_step L view c c' S"
  shows block_height: "BlockHeight c' = BlockHeight c" and block_time: "BlockTime c' = BlockTime c"
    and block_state: "oracle_of L view c' = S" and block_inv: "oracle_inv L view c'"
    and block_powers: "power_of (env_keepers L) (ext c') = power_of (env_keepers L) (ext c)"
    and block_staking: "staking_state (env_keepers L) (ext c') t = staking_state (env_keepers L) (ext c) t"
    and block_block_ok: "block_ok c' = block_ok c"
  using assms by (auto simp: block_step_def power_of_def block_ok_def intro!: staking_state_cong)

lemma block_refl: "oracle_inv L view c \<Longrightarrow> block_step L view c c (oracle_of L view c)"
  by (simp add: block_step_def)

lemma block_oracle: "oracle_step L view c c' S \<Longrightarrow> block_step L view c c' S"
  by (simp add: block_step_def oracle_step_def frame_def)

lemma block_trans: "block_step L view c c' S \<Longrightarrow> block_step L view c' c'' S' \<Longrightarrow> block_step L view c c'' S'"
  by (simp add: block_step_def)

lemma oracle_of_emit [simp]:
  "oracle_of L view (EmitEvent e c) = oracle_of L view c" "oracle_inv L view (EmitEvent e c) = oracle_inv L view c"
  "oracle_of L view (c\<lparr>ext := x\<rparr>) = oracle_of L view c" "oracle_inv L view (c\<lparr>ext := x\<rparr>) = oracle_inv L view c"
  by (simp_all add: oracle_of_def oracle_inv_def)

lemma multistore_emit [simp]: "multistore (EmitEvent e c) = multistore c"
  by (simp add: EmitEvent_def)

lemma block_emit: "block_step L view c c' S \<Longrightarrow> block_step L view c (EmitEvent e c') S"
  by (simp add: block_step_def)

text \<open>The order of the feeds follows from the table of feeds.\<close>

lemma stored_feeds_sorted:
  assumes L: "sdk_laws L view" and inv: "oracle_inv L view c"
  shows "sorted_wrt (<) (map (\<lambda>e. feed_key (fst e)) (stored_feeds (store_view view StoreKey c)))"
proof -
  let ?es = "prefix_entries (store_view view StoreKey c) FeedKeyPrefix"
  have "feed_key (case ParseFeedKey k of Ok vp \<Rightarrow> vp | _ \<Rightarrow> ([], [])) = k" if "(k, v) \<in> set ?es" for k v
    by (rule feed_entry_parse [OF sdk_addr [OF L] feed_scan_entries [OF L inv that]]) simp
  then have "map (\<lambda>e. feed_key (fst e)) (stored_feeds (store_view view StoreKey c)) = map fst ?es"
    by (auto simp: stored_feeds_def)
  then show ?thesis by (simp add: prefix_entries_sorted)
qed

lemma stored_feeds_cong:
  assumes L: "sdk_laws L view" and inv: "oracle_inv L view c" "oracle_inv L view c'"
    and eq: "os_feeds (oracle_of L view c') = os_feeds (oracle_of L view c)"
  shows "stored_feeds (store_view view StoreKey c') = stored_feeds (store_view view StoreKey c)"
proof -
  have "e \<in> set (stored_feeds (store_view view StoreKey c')) \<longleftrightarrow> e \<in> set (stored_feeds (store_view view StoreKey c))" for e
    using stored_feeds_iff [OF L inv(1)] stored_feeds_iff [OF L inv(2)] eq by (metis prod.collapse)
  then show ?thesis
    by (intro sorted_by_unique [OF stored_feeds_sorted [OF L inv(2)] stored_feeds_sorted [OF L inv(1)]]) auto
qed

lemma votes_cong:
  assumes L: "sdk_laws L view" and inv: "oracle_inv L view c" and step: "block_step L view c c' S"
    and eq: "os_feeds S = os_feeds (oracle_of L view c)"
  shows "votes L (ext c') valByOper (store_view view StoreKey c') = votes L (ext c) valByOper (store_view view StoreKey c)"
proof -
  have "stored_feeds (store_view view StoreKey c') = stored_feeds (store_view view StoreKey c)"
    using block_state [OF step] eq by (intro stored_feeds_cong [OF L inv block_inv [OF step]]) simp
  then show ?thesis by (simp add: votes_def counted_def vote_of_def block_powers [OF step] fun_eq_iff)
qed

section \<open>Slashing keeps the store\<close>

lemma slashValidator_step:
  assumes L: "sdk_laws L view" and B: "slash_laws (env_keepers L)" and inv: "oracle_inv L view c" and rate: "0 \<le> rate"
  shows "\<exists>c'. slashValidator L v rate reason c = Ok c' \<and> block_step L view c c' (oracle_of L view c)"
proof -
  have slashed: "block_step L view c (EmitEvent e (c\<lparr>ext := x\<rparr>)) (oracle_of L view c)"
    if "Slash (env_keepers L) (ext c) k rate pw h = Ok x" for k pw h x e
    using slash_power [OF B that] inv by (simp add: block_step_def)
  show ?thesis
    using block_refl [OF inv] slashed cons_no_panic [OF B, of v] val_addr_no_panic [OF sdk_addr [OF L], of "OperatorAddress v"]
      power_no_panic [OF B] slash_no_panic [OF B rate]
    by (auto simp: slashValidator_def split: outcome.splits option.splits)
qed

text \<open>The deviation of a price from the reference, as the code computes it.\<close>

lemma deviation:
  assumes M: "math_laws M" and p: "0 < p" "p < 2 ^ 255" and r: "0 < r" "r < 2 ^ 255"
  shows "\<exists>d. dec_Sub M p r = Ok (p - r) \<and> dec_Quo M \<bar>p - r\<bar> r = Ok d \<and> 0 \<le> d \<and>
    (\<forall>k. \<bar>p - r\<bar> * dec_unit \<le> k * r \<longrightarrow> d \<le> k) \<and> (\<forall>k. k * r \<le> \<bar>p - r\<bar> * dec_unit \<longrightarrow> k \<le> d)"
proof (rule dec_Quo_within [OF M r(1), of "\<bar>p - r\<bar>"])
  fix d
  assume d: "dec_Quo M \<bar>p - r\<bar> r = checked_dec d" and lo: "\<And>k. k * r \<le> \<bar>p - r\<bar> * dec_unit \<Longrightarrow> k \<le> d"
    and hi: "\<And>k. \<bar>p - r\<bar> * dec_unit \<le> k * r \<Longrightarrow> d \<le> k"
  have abs: "\<bar>p - r\<bar> < 2 ^ 255" using p r by linarith
  have "\<bar>p - r\<bar> * dec_unit \<le> 2 ^ 255 * dec_unit" using abs by (intro mult_right_mono) simp_all
  also have "\<dots> \<le> (2 ^ 255 * dec_unit) * r" using r by (simp add: mult_le_cancel_left1 dec_unit_def)
  finally have "d \<le> 2 ^ 255 * dec_unit" by (rule hi)
  moreover have "(2 ^ 255 * dec_unit :: int) < 2 ^ 315" by (simp add: dec_unit_def)
  ultimately have "d < 2 ^ 315" by linarith
  moreover have "0 \<le> d" by (rule lo) simp
  ultimately have "dec_Quo M \<bar>p - r\<bar> r = Ok d" by (simp add: d dec_fits_bound)
  moreover have "dec_Sub M p r = Ok (p - r)" using abs by (simp add: dec_Sub_eq [OF M] dec_fits_def)
  ultimately show ?thesis using lo hi \<open>0 \<le> d\<close> by blast
qed

lemma slash_outlier_step:
  assumes L: "sdk_laws L view" and B: "slash_laws (env_keepers L)" and inv: "oracle_inv L view c" and rate: "0 \<le> rate"
    and p: "0 < snd f" "snd f < 2 ^ 255" and r: "0 < r" "r < 2 ^ 255"
  shows "\<exists>c'. slash_outlier L valByOper r thr rate f c = Ok c' \<and> block_step L view c c' (oracle_of L view c) \<and>
    (\<bar>snd f - r\<bar> * dec_unit \<le> thr * r \<longrightarrow> c' = c)"
proof -
  obtain d where d: "dec_Sub (env_math L) (snd f) r = Ok (snd f - r)" "dec_Quo (env_math L) \<bar>snd f - r\<bar> r = Ok d"
      "\<bar>snd f - r\<bar> * dec_unit \<le> thr * r \<longrightarrow> d \<le> thr"
    using deviation [OF sdk_math [OF L] p r] by blast
  show ?thesis
  proof (cases "thr < d")
    case True
    then show ?thesis
      using slashValidator_step [OF L B inv rate] d by (auto simp: slash_outlier_def)
  qed (use d block_refl [OF inv] in \<open>simp add: slash_outlier_def\<close>)
qed

lemma slash_outliers_step:
  assumes L: "sdk_laws L view" and B: "slash_laws (env_keepers L)" and rate: "0 \<le> rate" and r: "0 < r" "r < 2 ^ 255"
    and inv: "oracle_inv L view c" and fs: "\<And>f. f \<in> set fs \<Longrightarrow> 0 < snd f \<and> snd f < 2 ^ 255"
  shows "\<exists>c'. ofold (slash_outlier L valByOper r thr rate) fs c = Ok c' \<and> block_step L view c c' (oracle_of L view c) \<and>
    ((\<forall>f\<in>set fs. \<bar>snd f - r\<bar> * dec_unit \<le> thr * r) \<longrightarrow> c' = c)"
  using inv fs
proof (induction fs arbitrary: c)
  case (Cons f fs)
  obtain c1 where c1: "slash_outlier L valByOper r thr rate f c = Ok c1" "block_step L view c c1 (oracle_of L view c)"
      "\<bar>snd f - r\<bar> * dec_unit \<le> thr * r \<longrightarrow> c1 = c"
    using slash_outlier_step [OF L B Cons.prems(1) rate _ _ r] Cons.prems(2) [of f] by (meson list.set_intros(1))
  obtain c2 where c2: "ofold (slash_outlier L valByOper r thr rate) fs c1 = Ok c2" "block_step L view c1 c2 (oracle_of L view c1)"
      "(\<forall>f\<in>set fs. \<bar>snd f - r\<bar> * dec_unit \<le> thr * r) \<longrightarrow> c2 = c1"
    using Cons.IH [OF block_inv [OF c1(2)]] Cons.prems(2) by (meson list.set_intros(2))
  have "block_step L view c c2 (oracle_of L view c)"
    using block_trans [OF c1(2) c2(2)] by (simp add: block_state [OF c1(2)])
  then show ?case using c1 c2 by simp
qed (simp add: block_refl)

section \<open>What a pair publishes\<close>

definition quorum :: "('s, 'x) env \<Rightarrow> int \<Rightarrow> dec \<Rightarrow> WeightedPrice list \<Rightarrow> bool" where
  "quorum L t q vs \<longleftrightarrow> vs \<noteq> [] \<and> QuorumMet (env_math L) (sum_list (map wp_Weight vs)) t q = Ok True"

definition prune_twap :: "string \<Rightarrow> time \<Rightarrow> (string \<times> time \<rightharpoonup> TWAPEntry) \<Rightarrow> (string \<times> time \<rightharpoonup> TWAPEntry)" where
  "prune_twap pair cutoff tw = (\<lambda>(p, t). if p = pair \<and> t < cutoff then None else tw (p, t))"

definition publish :: "('s, 'x) env \<Rightarrow> ('s, 'x) ctx \<Rightarrow> string \<Rightarrow> dec \<Rightarrow> oracle_state \<Rightarrow> oracle_state" where
  "publish L c pair d S =
     (let price = dec_String (env_math L) d; now = BlockTime c
      in S\<lparr>os_prices := (os_prices S)(pair \<mapsto> \<lparr>ap_Pair = pair, ap_Price = price, ap_BlockHeight = BlockHeight c, ap_BlockTime = now\<rparr>),
           os_twap := prune_twap pair (now - 24 * Hour)
             ((os_twap S)((pair, now) \<mapsto> \<lparr>te_Pair = pair, te_Price = price, te_BlockTime = now\<rparr>))\<rparr>)"

definition feeds_bounded :: "('s, 'x) env \<Rightarrow> oracle_state \<Rightarrow> bool" where
  "feeds_bounded L S \<longleftrightarrow> (\<forall>k f. os_feeds S k = Some f \<longrightarrow> price_of (env_math L) (feed_Price f) < 2 ^ 255)"

text \<open>Every vote is within the threshold of the reference median.\<close>

definition no_outlier :: "dec \<Rightarrow> WeightedPrice list \<Rightarrow> bool" where
  "no_outlier thr vs \<longleftrightarrow> (let r = UnweightedMedian (map wp_Price vs) in \<forall>w\<in>set vs. \<bar>wp_Price w - r\<bar> * dec_unit \<le> thr * r)"

lemma vote_prices:
  assumes L: "sdk_laws L view" and inv: "oracle_inv L view c" and bounded: "feeds_bounded L (oracle_of L view c)"
    and w: "w \<in> set (votes L x valByOper (store_view view StoreKey c) pair)"
  shows "0 < wp_Price w \<and> wp_Price w < 2 ^ 255"
proof -
  from w obtain val p f where f: "((val, p), f) \<in> set (stored_feeds (store_view view StoreKey c))"
    and c: "counted L x valByOper pair ((val, p), f)" and w: "w = vote_of L x ((val, p), f)"
    by (auto simp: votes_def)
  have "0 < price_of (env_math L) (feed_Price f)" using c price_ok_parse by (auto simp: counted_def)
  moreover have "price_of (env_math L) (feed_Price f) < 2 ^ 255"
    using f bounded unfolding stored_feeds_iff [OF L inv] feeds_bounded_def by blast
  ultimately show ?thesis by (simp add: w vote_of_def)
qed

lemma QuorumMet_returns:
  assumes "math_laws M" and "0 \<le> s" and "s \<le> t" and "t < 2 ^ 63"
  obtains met where "QuorumMet M s t q = Ok met"
proof (cases "t = 0")
  case False
  then show thesis using QuorumMet_near [OF assms(1), of s t q] assms that by fastforce
qed (use that [of False] in \<open>simp add: QuorumMet_def\<close>)

lemma weights_nonneg: "weights_ok es \<Longrightarrow> 0 \<le> sum_list (map wp_Weight es)"
  by (auto simp: weights_ok_def order_less_le intro!: sum_list_nonneg)

lemma publish_step:
  assumes L: "sdk_laws L view" and inv: "oracle_inv L view c" and blk: "block_ok c" and pair: "pair_ok pair"
    and d: "0 < d" "dec_fits d"
  shows "\<exists>c1 c2 c3. SetAggregatedPrice L \<lparr>ap_Pair = pair, ap_Price = dec_String (env_math L) d,
        ap_BlockHeight = BlockHeight c, ap_BlockTime = BlockTime c\<rparr> c = Ok c1 \<and>
      AppendTWAPEntry L pair d (BlockTime c) c1 = Ok c2 \<and>
      PruneTWAPOlderThan L pair (BlockTime c - 24 * Hour) c2 = Ok c3 \<and>
      frame StoreKey c c1 \<and> frame StoreKey c c2 \<and> oracle_step L view c c3 (publish L c pair d (oracle_of L view c))"
proof -
  let ?ap = "\<lparr>ap_Pair = pair, ap_Price = dec_String (env_math L) d, ap_BlockHeight = BlockHeight c, ap_BlockTime = BlockTime c\<rparr>"
  have now: "0 \<le> BlockTime c" "BlockTime c < 2 ^ 63" using blk by (simp_all add: block_ok_def)
  have "price_ok (env_math L) (ap_Price ?ap)" using d by (simp add: price_ok_String [OF sdk_math [OF L]])
  moreover have "length (ap_Price ?ap) < 2 ^ 20" using dec_String_short [OF sdk_math [OF L] d(2)] by simp
  ultimately obtain c1 where c1: "SetAggregatedPrice L ?ap c = Ok c1"
      "oracle_step L view c c1 ((oracle_of L view c)\<lparr>os_prices := (os_prices (oracle_of L view c))(pair \<mapsto> ?ap)\<rparr>)"
    using SetAggregatedPrice_step [OF L inv, of ?ap] pair blk valid_time_nonneg [OF now] by (auto simp: block_ok_def)
  obtain c2 where c2: "AppendTWAPEntry L pair d (BlockTime c) c1 = Ok c2"
      "oracle_step L view c1 c2 ((oracle_of L view c1)\<lparr>os_twap := (os_twap (oracle_of L view c1))((pair, BlockTime c) \<mapsto>
        \<lparr>te_Pair = pair, te_Price = dec_String (env_math L) d, te_BlockTime = BlockTime c\<rparr>)\<rparr>)"
    using AppendTWAPEntry_step [OF L step_inv [OF c1(2)] pair d(2,1) now] by blast
  obtain c3 where c3: "PruneTWAPOlderThan L pair (BlockTime c - 24 * Hour) c2 = Ok c3"
      "oracle_step L view c2 c3 ((oracle_of L view c2)\<lparr>os_twap := prune_twap pair (BlockTime c - 24 * Hour) (os_twap (oracle_of L view c2))\<rparr>)"
    using PruneTWAPOlderThan_step [OF L step_inv [OF c2(2)] pair] unfolding prune_twap_def by blast
  have S: "oracle_of L view c3 = publish L c pair d (oracle_of L view c)"
    by (simp add: step_state [OF c3(2)] step_state [OF c2(2)] step_state [OF c1(2)] publish_def Let_def)
  have f: "frame StoreKey c c2" "frame StoreKey c c3"
    using frame_trans step_frame c1(2) c2(2) c3(2) by blast+
  have "oracle_step L view c c3 (publish L c pair d (oracle_of L view c))"
    using S f(2) step_inv [OF c3(2)] by (simp add: oracle_step_def)
  then show ?thesis using c1 c2 c3 f step_frame [OF c1(2)] by blast
qed

lemma aggregate_pair_eq:
  assumes L: "sdk_laws L view" and B: "slash_laws (env_keepers L)" and inv: "oracle_inv L view c"
    and st: "staking_state (env_keepers L) (ext c) t" and blk: "block_ok c" and pair: "pair_ok pair" and rate: "0 \<le> rate"
    and bounded: "feeds_bounded L (oracle_of L view c)"
    and vs: "vs = votes L (ext c) valByOper (store_view view StoreKey c) pair"
  shows "\<exists>c'. aggregate_pair L valByOper t q thr rate pair (live, c) = Ok (if quorum L t q vs then live @ [pair] else live, c') \<and>
    block_step L view c c' (if quorum L t q vs then publish L c pair (WeightedMedian vs) (oracle_of L view c) else oracle_of L view c) \<and>
    (\<not> quorum L t q vs \<longrightarrow> c' = c) \<and> (no_outlier thr vs \<longrightarrow> ext c' = ext c)"
proof -
  have collect: "IterateAllFeeds L c (collect_feed L c valByOper pair) no_feeds = Ok (add_votes vs no_feeds)"
    unfolding vs by (rule collect_eq [OF L B inv st])
  have fields: "weighted (add_votes vs no_feeds) = vs" "rawPrices (add_votes vs no_feeds) = map wp_Price vs"
      "validFeeds (add_votes vs no_feeds) = map (\<lambda>w. (wp_Valoper w, wp_Price w)) vs"
      "submittedPower (add_votes vs no_feeds) = sum_list (map wp_Weight vs)"
    by (simp_all add: add_votes_def no_feeds_def)
  have ok: "weights_ok vs" unfolding vs by (rule votes_ok [OF L inv st])
  have prices: "0 < wp_Price w \<and> wp_Price w < 2 ^ 255" if "w \<in> set vs" for w
    using vote_prices [OF L inv bounded] that unfolding vs by blast
  have le: "0 \<le> sum_list (map wp_Weight vs)" "sum_list (map wp_Weight vs) \<le> t"
    using weights_nonneg [OF ok] votes_weights(1) [OF L inv st] unfolding vs by simp_all
  obtain met where met: "QuorumMet (env_math L) (sum_list (map wp_Weight vs)) t q = Ok met"
    by (rule QuorumMet_returns [OF sdk_math [OF L] le staking_total_bound [OF st]])
  show ?thesis
  proof (cases "vs \<noteq> [] \<and> met")
    case False
    then show ?thesis using block_refl [OF inv]
      by (auto simp: aggregate_pair_def collect fields met quorum_def)
  next
    case True
    then have q: "quorum L t q vs" by (simp add: quorum_def met)
    obtain w where w: "w \<in> set vs" "WeightedMedian vs = wp_Price w"
      using WeightedMedian_member [OF ok] True by auto
    obtain u where u: "u \<in> set vs" "UnweightedMedian (map wp_Price vs) = wp_Price u"
      using UnweightedMedian_member [of "map wp_Price vs"] True by auto
    have d: "0 < WeightedMedian vs" "dec_fits (WeightedMedian vs)"
      using prices [OF w(1)] by (auto simp: w(2) dec_fits_def)
    obtain c1 c2 c3 where pub: "SetAggregatedPrice L \<lparr>ap_Pair = pair, ap_Price = dec_String (env_math L) (WeightedMedian vs),
          ap_BlockHeight = BlockHeight c, ap_BlockTime = BlockTime c\<rparr> c = Ok c1"
        "AppendTWAPEntry L pair (WeightedMedian vs) (BlockTime c) c1 = Ok c2"
        "PruneTWAPOlderThan L pair (BlockTime c - 24 * Hour) c2 = Ok c3" "frame StoreKey c c1" "frame StoreKey c c2"
        "oracle_step L view c c3 (publish L c pair (WeightedMedian vs) (oracle_of L view c))"
      using publish_step [OF L inv blk pair d] by blast
    let ?c = "EmitEvent (Event EventTypePriceAggregated [(''pair'', pair), (''price'', dec_String (env_math L) (WeightedMedian vs))]) c3"
    have c3: "block_step L view c ?c (publish L c pair (WeightedMedian vs) (oracle_of L view c))"
      by (rule block_emit [OF block_oracle [OF pub(6)]])
    have "\<exists>c'. ofold (slash_outlier L valByOper (wp_Price u) thr rate) (map (\<lambda>w. (wp_Valoper w, wp_Price w)) vs) ?c = Ok c' \<and>
        block_step L view ?c c' (oracle_of L view ?c) \<and>
        ((\<forall>f\<in>set (map (\<lambda>w. (wp_Valoper w, wp_Price w)) vs). \<bar>snd f - wp_Price u\<bar> * dec_unit \<le> thr * wp_Price u) \<longrightarrow> c' = ?c)"
      using prices prices [OF u(1)] by (intro slash_outliers_step [OF L B rate _ _ block_inv [OF c3]]) auto
    then obtain c' where c': "ofold (slash_outlier L valByOper (wp_Price u) thr rate) (map (\<lambda>w. (wp_Valoper w, wp_Price w)) vs) ?c = Ok c'"
        "block_step L view ?c c' (oracle_of L view ?c)"
        "(\<forall>w\<in>set vs. \<bar>wp_Price w - wp_Price u\<bar> * dec_unit \<le> thr * wp_Price u) \<longrightarrow> c' = ?c"
      by auto
    have "block_step L view c c' (publish L c pair (WeightedMedian vs) (oracle_of L view c))"
      using block_trans [OF c3 c'(2)] unfolding block_state [OF c3] .
    moreover have "aggregate_pair L valByOper t q thr rate pair (live, c) = Ok (live @ [pair], c')"
      using True pub c'(1) prices [OF u(1)]
      by (simp add: aggregate_pair_def collect fields met u(2) Let_def frame_fields [OF pub(4)] frame_fields [OF pub(5)])
    moreover have "no_outlier thr vs \<longrightarrow> ext c' = ext c"
      using c'(3) frame_fields(1) [OF step_frame [OF pub(6)]] by (auto simp: no_outlier_def u(2) Let_def)
    ultimately show ?thesis using q by auto
  qed
qed

text \<open>All accepted pairs, in their order.\<close>

definition publish_all ::
    "('s, 'x) env \<Rightarrow> ('s, 'x) ctx \<Rightarrow> int \<Rightarrow> dec \<Rightarrow> (string \<Rightarrow> WeightedPrice list) \<Rightarrow> string list \<Rightarrow> oracle_state \<Rightarrow> oracle_state" where
  "publish_all L c t q vs pairs S =
     fold (\<lambda>pair S. if quorum L t q (vs pair) then publish L c pair (WeightedMedian (vs pair)) S else S) pairs S"

lemma publish_fields [simp]:
  "os_params (publish L c pair d S) = os_params S" "os_feeds (publish L c pair d S) = os_feeds S"
  "os_miss (publish L c pair d S) = os_miss S" "os_windows (publish L c pair d S) = os_windows S"
  "os_valoper (publish L c pair d S) = os_valoper S" "os_feeder (publish L c pair d S) = os_feeder S"
  by (simp_all add: publish_def Let_def)

lemma publish_all_fields [simp]:
  "os_params (publish_all L c t q vs pairs S) = os_params S" "os_feeds (publish_all L c t q vs pairs S) = os_feeds S"
  "os_miss (publish_all L c t q vs pairs S) = os_miss S" "os_windows (publish_all L c t q vs pairs S) = os_windows S"
  "os_valoper (publish_all L c t q vs pairs S) = os_valoper S" "os_feeder (publish_all L c t q vs pairs S) = os_feeder S"
  unfolding publish_all_def by (induction pairs arbitrary: S) simp_all

lemma publish_all_prices:
  "os_prices (publish_all L c t q vs pairs S) pair =
     (if pair \<in> set pairs \<and> quorum L t q (vs pair)
      then Some \<lparr>ap_Pair = pair, ap_Price = dec_String (env_math L) (WeightedMedian (vs pair)),
                 ap_BlockHeight = BlockHeight c, ap_BlockTime = BlockTime c\<rparr>
      else os_prices S pair)"
  unfolding publish_all_def
proof (induction pairs rule: rev_induct)
  case (snoc p pairs)
  then show ?case by (cases "p = pair") (simp_all add: publish_def Let_def)
qed simp

lemma publish_cong:
  "BlockHeight c' = BlockHeight c \<Longrightarrow> BlockTime c' = BlockTime c \<Longrightarrow> publish L c' = publish L c"
  by (simp add: publish_def fun_eq_iff)

lemma aggregate_pairs_eq:
  assumes L: "sdk_laws L view" and B: "slash_laws (env_keepers L)" and rate: "0 \<le> rate"
    and inv: "oracle_inv L view c" and st: "staking_state (env_keepers L) (ext c) t" and blk: "block_ok c"
    and bounded: "feeds_bounded L (oracle_of L view c)"
    and pairs: "\<And>pair. pair \<in> set pairs \<Longrightarrow> pair_ok pair"
    and vs: "vs = votes L (ext c) valByOper (store_view view StoreKey c)"
  shows "\<exists>c'. ofold (aggregate_pair L valByOper t q thr rate) pairs (live, c) =
      Ok (live @ filter (\<lambda>pair. quorum L t q (vs pair)) pairs, c') \<and>
    block_step L view c c' (publish_all L c t q vs pairs (oracle_of L view c)) \<and>
    ((\<forall>pair\<in>set pairs. no_outlier thr (vs pair)) \<longrightarrow> ext c' = ext c)"
  using inv st blk bounded pairs vs
proof (induction pairs arbitrary: live c)
  case (Cons pair pairs)
  let ?S1 = "if quorum L t q (vs pair) then publish L c pair (WeightedMedian (vs pair)) (oracle_of L view c) else oracle_of L view c"
  have "pair_ok pair" using Cons.prems(5) by simp
  from aggregate_pair_eq [OF L B Cons.prems(1,2,3) this rate Cons.prems(4), of "vs pair" valByOper q thr live]
  obtain c1 where c1: "aggregate_pair L valByOper t q thr rate pair (live, c) =
        Ok (if quorum L t q (vs pair) then live @ [pair] else live, c1)"
      "block_step L view c c1 ?S1" "no_outlier thr (vs pair) \<longrightarrow> ext c1 = ext c"
    using Cons.prems(6) by auto
  have feeds: "os_feeds ?S1 = os_feeds (oracle_of L view c)" by simp
  have vs1: "vs = votes L (ext c1) valByOper (store_view view StoreKey c1)"
    unfolding Cons.prems(6) by (rule votes_cong [OF L Cons.prems(1) c1(2) feeds, symmetric])
  have "feeds_bounded L (oracle_of L view c1)" "staking_state (env_keepers L) (ext c1) t" "block_ok c1"
    using Cons.prems(2,3,4) c1(2) by (simp_all add: feeds_bounded_def block_state [OF c1(2)] feeds block_staking [OF c1(2)] block_block_ok [OF c1(2)])
  from Cons.IH [OF block_inv [OF c1(2)] this(2,3,1) Cons.prems(5) vs1, of "if quorum L t q (vs pair) then live @ [pair] else live"]
  obtain c2 where c2: "ofold (aggregate_pair L valByOper t q thr rate) pairs (if quorum L t q (vs pair) then live @ [pair] else live, c1) =
        Ok ((if quorum L t q (vs pair) then live @ [pair] else live) @ filter (\<lambda>pair. quorum L t q (vs pair)) pairs, c2)"
      "block_step L view c1 c2 (publish_all L c1 t q vs pairs (oracle_of L view c1))"
      "(\<forall>pair\<in>set pairs. no_outlier thr (vs pair)) \<longrightarrow> ext c2 = ext c1"
    by auto
  have "publish_all L c1 t q vs pairs (oracle_of L view c1) = publish_all L c t q vs (pair # pairs) (oracle_of L view c)"
    unfolding publish_all_def publish_cong [OF block_height [OF c1(2)] block_time [OF c1(2)]] block_state [OF c1(2)] by simp
  then have "block_step L view c c2 (publish_all L c t q vs (pair # pairs) (oracle_of L view c))"
    using block_trans [OF c1(2) c2(2)] by simp
  then show ?case using c1 c2 by auto
qed (simp add: publish_all_def block_refl)

section \<open>Counting windows\<close>

text \<open>One validator's counters: reset at the end of its miss window.\<close>

definition count_window :: "int \<Rightarrow> bool \<Rightarrow> addr \<Rightarrow> oracle_state \<Rightarrow> oracle_state" where
  "count_window len missed a S =
     (let total = counts (os_windows S) a + 1
      in if total \<ge> len then S\<lparr>os_miss := (os_miss S)(a := None), os_windows := (os_windows S)(a := None)\<rparr>
         else S\<lparr>os_miss := (if missed then (os_miss S)(a \<mapsto> counts (os_miss S) a + 1) else os_miss S),
                os_windows := (os_windows S)(a \<mapsto> total)\<rparr>)"

definition missed_feed :: "string list \<Rightarrow> addr \<Rightarrow> oracle_state \<Rightarrow> bool" where
  "missed_feed live a S \<longleftrightarrow> (\<exists>pair\<in>set live. os_feeds S (a, pair) = None)"

text \<open>The validator is at the end of its miss window and has missed too much.\<close>

definition missed_too_much :: "dec \<Rightarrow> int \<Rightarrow> string list \<Rightarrow> addr \<Rightarrow> oracle_state \<Rightarrow> bool" where
  "missed_too_much thr len live a S \<longleftrightarrow>
     (let total = counts (os_windows S) a + 1; miss = counts (os_miss S) a + (if missed_feed live a S then 1 else 0)
      in total \<ge> len \<and> thr * total < miss * dec_unit)"

text \<open>No counter is about to overflow.\<close>

definition windows_open :: "oracle_state \<Rightarrow> bool" where
  "windows_open S \<longleftrightarrow> (\<forall>a. counts (os_windows S) a < 2 ^ 63 - 1)"

lemma windows_open_count: "windows_open S \<Longrightarrow> len < 2 ^ 63 \<Longrightarrow> windows_open (count_window len missed a S)"
  by (auto simp: windows_open_def count_window_def Let_def counts_upd) (simp add: counts_def)

lemma count_window_fields [simp]:
  "os_params (count_window z m a S) = os_params S" "os_feeds (count_window z m a S) = os_feeds S"
  "os_prices (count_window z m a S) = os_prices S" "os_twap (count_window z m a S) = os_twap S"
  "os_valoper (count_window z m a S) = os_valoper S" "os_feeder (count_window z m a S) = os_feeder S"
  by (simp_all add: count_window_def Let_def)

lemma miss_rate:
  assumes M: "math_laws M" and "0 \<le> miss" and "miss \<le> tot" and "0 < tot" and "tot < 2 ^ 63"
  shows "\<exists>r. dec_Quo M (LegacyNewDec M miss) (LegacyNewDec M tot) = Ok r \<and> (miss * dec_unit \<le> thr * tot \<longrightarrow> r \<le> thr)"
proof (rule dec_Quo_within [OF M, of "tot * dec_unit" "miss * dec_unit"])
  show "0 < tot * dec_unit" using assms by simp
next
  fix r
  assume r: "dec_Quo M (miss * dec_unit) (tot * dec_unit) = checked_dec r"
    and lo: "\<And>k. k * (tot * dec_unit) \<le> miss * dec_unit * dec_unit \<Longrightarrow> k \<le> r"
    and hi: "\<And>k. miss * dec_unit * dec_unit \<le> k * (tot * dec_unit) \<Longrightarrow> r \<le> k"
  have "r \<le> dec_unit" using assms by (intro hi) (simp add: mult_right_mono)
  moreover have "0 \<le> r" using assms by (intro lo) simp
  moreover have "dec_unit < 2 ^ 315" by (simp add: dec_unit_def)
  ultimately have "dec_fits r" by (intro dec_fits_bound) simp_all
  moreover have "r \<le> thr" if "miss * dec_unit \<le> thr * tot"
    using that by (intro hi) (simp add: mult_right_mono flip: mult.assoc)
  ultimately show ?thesis using r by (simp add: LegacyNewDec_eq [OF M])
qed

lemma counters_swap: "S\<lparr>os_windows := w, os_miss := m\<rparr> = S\<lparr>os_miss := m, os_windows := w\<rparr>"
  by simp

lemma judge_validator_step:
  assumes L: "sdk_laws L view" and B: "slash_laws (env_keepers L)" and rate: "0 \<le> rate"
    and inv: "oracle_inv L view c" and op: "windows_open (oracle_of L view c)"
    and len: "0 < op_MissWindowSize params" and a: "ValAddressFromBech32 (env_addr L) (OperatorAddress v) = Ok a"
  shows "\<exists>c'. judge_validator L params live thr rate v c = Ok c' \<and>
    block_step L view c c' (count_window (op_MissWindowSize params) (missed_feed live a (oracle_of L view c)) a (oracle_of L view c)) \<and>
    (\<not> missed_too_much thr (op_MissWindowSize params) live a (oracle_of L view c) \<longrightarrow> ext c' = ext c)"
proof -
  let ?S = "oracle_of L view c"
  define tot where "tot = counts (os_windows ?S) a + 1"
  define missed where "missed = missed_feed live a ?S"
  define miss where "miss = counts (os_miss ?S) a + (if missed then 1 else 0)"
  have va: "valid_addr a" by (rule val_addr_valid [OF sdk_addr [OF L] a])
  note range = counts_range [OF L inv va]
  have lt: "counts (os_windows ?S) a < 2 ^ 63 - 1" using op by (simp add: windows_open_def)
  obtain pairs where pairs: "GetValidatorSubmittedPairs L a c = Ok pairs" "set pairs = {pair. os_feeds ?S (a, pair) \<noteq> None}"
    using GetValidatorSubmittedPairs_eq [OF L inv] by blast
  have all: "list_all (\<lambda>pair. pair \<in> set pairs) live \<longleftrightarrow> \<not> missed"
    by (auto simp: pairs(2) missed_def missed_feed_def list_all_iff)
  obtain c1 where c1: "IncTotalWindows L a c = Ok (tot, c1)"
      "oracle_step L view c c1 (?S\<lparr>os_windows := (os_windows ?S)(a \<mapsto> tot)\<rparr>)"
    using IncTotalWindows_step [OF L inv va lt] unfolding tot_def by blast
  have "\<exists>c2. (if missed then IncMissCounter L a c1 else obind (GetMissCounter L a c1) (\<lambda>miss. Ok (miss, c1))) = Ok (miss, c2) \<and>
      oracle_step L view c1 c2 (?S\<lparr>os_miss := (if missed then (os_miss ?S)(a \<mapsto> miss) else os_miss ?S),
        os_windows := (os_windows ?S)(a \<mapsto> tot)\<rparr>)"
  proof (cases missed)
    case True
    have "counts (os_miss (oracle_of L view c1)) a < counts (os_windows (oracle_of L view c1)) a"
      using range(2) by (simp add: step_state [OF c1(2)] counts_upd tot_def)
    from IncMissCounter_step [OF L step_inv [OF c1(2)] va this] show ?thesis
      using True by (simp add: step_state [OF c1(2)] miss_def counters_swap)
  next
    case False
    then show ?thesis
      using GetMissCounter_eq [OF L step_inv [OF c1(2)] va] step_inv [OF c1(2)]
      by (simp add: step_state [OF c1(2)] miss_def oracle_step_def)
  qed
  then obtain c2 where c2: "(if missed then IncMissCounter L a c1 else obind (GetMissCounter L a c1) (\<lambda>miss. Ok (miss, c1))) = Ok (miss, c2)"
      "oracle_step L view c1 c2 (?S\<lparr>os_miss := (if missed then (os_miss ?S)(a \<mapsto> miss) else os_miss ?S),
        os_windows := (os_windows ?S)(a \<mapsto> tot)\<rparr>)" by blast
  note b2 = block_trans [OF block_oracle [OF c1(2)] block_oracle [OF c2(2)]]
  have ext2: "ext c2 = ext c" using frame_fields(1) step_frame c1(2) c2(2) by metis
  note code = judge_validator_def a pairs(1) all c1(1) c2(1) Let_def
  show ?thesis
  proof (cases "op_MissWindowSize params \<le> tot")
    case False
    then show ?thesis using b2 ext2
      by (auto simp: code count_window_def miss_def simp flip: tot_def missed_def)
  next
    case True
    have m: "0 \<le> miss" "miss \<le> tot" "0 < tot" "tot < 2 ^ 63"
      using range lt by (auto simp: miss_def tot_def)
    obtain r where r: "dec_Quo (env_math L) (LegacyNewDec (env_math L) miss) (LegacyNewDec (env_math L) tot) = Ok r"
        "miss * dec_unit \<le> thr * tot \<longrightarrow> r \<le> thr"
      using miss_rate [OF sdk_math [OF L] m] by blast
    obtain c3 where c3: "(if r > thr then slashValidator L v rate ''miss'' c2 else Ok c2) = Ok c3"
        "block_step L view c2 c3 (oracle_of L view c2)" "r \<le> thr \<longrightarrow> c3 = c2"
      using slashValidator_step [OF L B step_inv [OF c2(2)] rate, of v "''miss''"] block_refl [OF step_inv [OF c2(2)]]
      by (cases "thr < r") auto
    obtain c4 where c4: "ResetValidatorWindows L a c3 = Ok c4"
        "oracle_step L view c3 c4 ((oracle_of L view c3)\<lparr>os_miss := (os_miss (oracle_of L view c3))(a := None),
          os_windows := (os_windows (oracle_of L view c3))(a := None)\<rparr>)"
      using ResetValidatorWindows_step [OF L block_inv [OF c3(2)] va] by blast
    have "(oracle_of L view c3)\<lparr>os_miss := (os_miss (oracle_of L view c3))(a := None),
          os_windows := (os_windows (oracle_of L view c3))(a := None)\<rparr> =
        count_window (op_MissWindowSize params) missed a ?S"
      using True by (simp add: block_state [OF c3(2)] step_state [OF c2(2)] count_window_def Let_def flip: tot_def)
    then have "block_step L view c c4 (count_window (op_MissWindowSize params) missed a ?S)"
      using block_trans [OF block_trans [OF b2 c3(2)] block_oracle [OF c4(2)]] by simp
    moreover have "judge_validator L params live thr rate v c = Ok c4"
      using True by (simp add: code r(1) c3(1) c4(1))
    moreover have "ext c4 = ext c" if "\<not> missed_too_much thr (op_MissWindowSize params) live a ?S"
      using that True r(2) c3(3) ext2 frame_fields(1) [OF step_frame [OF c4(2)]]
      by (auto simp: missed_too_much_def Let_def simp flip: tot_def missed_def miss_def)
    ultimately show ?thesis by (auto simp: missed_def)
  qed
qed

definition count_all :: "('s, 'x) env \<Rightarrow> int \<Rightarrow> string list \<Rightarrow> validator list \<Rightarrow> oracle_state \<Rightarrow> oracle_state" where
  "count_all L len live vals S =
     fold (\<lambda>v S. case ValAddressFromBech32 (env_addr L) (OperatorAddress v) of
                   Ok a \<Rightarrow> count_window len (missed_feed live a S) a S | _ \<Rightarrow> S) vals S"

lemma count_all_fields [simp]:
  "os_params (count_all L z live vals S) = os_params S" "os_feeds (count_all L z live vals S) = os_feeds S"
  "os_prices (count_all L z live vals S) = os_prices S" "os_twap (count_all L z live vals S) = os_twap S"
  "os_valoper (count_all L z live vals S) = os_valoper S" "os_feeder (count_all L z live vals S) = os_feeder S"
  unfolding count_all_def by (induction vals arbitrary: S) (simp_all split: outcome.split)

lemma judge_validators_step:
  assumes L: "sdk_laws L view" and B: "slash_laws (env_keepers L)" and rate: "0 \<le> rate"
    and inv: "oracle_inv L view c" and op: "windows_open (oracle_of L view c)"
    and len: "0 < op_MissWindowSize params" "op_MissWindowSize params < 2 ^ 63"
  shows "\<exists>c'. ofold (judge_validator L params live thr rate) vals c = Ok c' \<and>
    block_step L view c c' (count_all L (op_MissWindowSize params) live vals (oracle_of L view c)) \<and>
    windows_open (count_all L (op_MissWindowSize params) live vals (oracle_of L view c))"
  using inv op
proof (induction vals arbitrary: c)
  case (Cons v vals)
  let ?S1 = "count_all L (op_MissWindowSize params) live [v] (oracle_of L view c)"
  have "\<exists>c1. judge_validator L params live thr rate v c = Ok c1 \<and> block_step L view c c1 ?S1 \<and> windows_open ?S1"
  proof (cases "ValAddressFromBech32 (env_addr L) (OperatorAddress v)")
    case (Ok a)
    then show ?thesis
      using judge_validator_step [OF L B rate Cons.prems len(1) Ok, of live thr] windows_open_count [OF Cons.prems(2) len(2)]
      by (auto simp: count_all_def)
  next
    case (Err e)
    then show ?thesis using Cons.prems block_refl by (simp add: count_all_def judge_validator_def)
  qed (simp add: val_addr_no_panic [OF sdk_addr [OF L]])
  then obtain c1 where c1: "judge_validator L params live thr rate v c = Ok c1" "block_step L view c c1 ?S1" "windows_open ?S1"
    by blast
  have "windows_open (oracle_of L view c1)" using c1(3) by (simp add: block_state [OF c1(2)])
  from Cons.IH [OF block_inv [OF c1(2)] this] obtain c2
    where c2: "ofold (judge_validator L params live thr rate) vals c1 = Ok c2"
      "block_step L view c1 c2 (count_all L (op_MissWindowSize params) live vals ?S1)"
      "windows_open (count_all L (op_MissWindowSize params) live vals ?S1)"
    by (auto simp: block_state [OF c1(2)])
  have "count_all L (op_MissWindowSize params) live vals ?S1 = count_all L (op_MissWindowSize params) live (v # vals) (oracle_of L view c)"
    by (simp add: count_all_def)
  then show ?case using c1 c2 block_trans [OF c1(2) c2(2)] by simp
qed (simp add: count_all_def block_refl)

section \<open>The end blocker as a whole\<close>

text \<open>What a window's end makes of the store: prices, counters and no feeds.\<close>

definition window_end ::
    "('s, 'x) env \<Rightarrow> ('s, 'x) ctx \<Rightarrow> int \<Rightarrow> validator list \<Rightarrow> (string \<Rightarrow> WeightedPrice list) \<Rightarrow> oracle_state \<Rightarrow> oracle_state" where
  "window_end L c t vals vs S =
     (let params = os_params S; q = price_of (env_math L) (op_QuorumFraction params);
          live = filter (\<lambda>pair. quorum L t q (vs pair)) (op_AcceptList params)
      in (count_all L (op_MissWindowSize params) live vals (publish_all L c t q vs (op_AcceptList params) S))\<lparr>os_feeds := Map.empty\<rparr>)"

definition pair_votes :: "('s, 'x) env \<Rightarrow> ('s \<Rightarrow> bytes \<rightharpoonup> bytes) \<Rightarrow> ('s, 'x) ctx \<Rightarrow> validator list \<Rightarrow> string \<Rightarrow> WeightedPrice list" where
  "pair_votes L view c vals = votes L (ext c) (validators_by_operator vals) (store_view view StoreKey c)"

definition at_window_end :: "oracle_state \<Rightarrow> ('s, 'x) ctx \<Rightarrow> bool" where
  "at_window_end S c \<longleftrightarrow> go_mod (BlockHeight c) (op_VoteWindow (os_params S)) = Ok 0"

lemma params_ok_fields:
  assumes M: "math_laws M" and ok: "params_ok M p"
  obtains q thr rate mthr mrate where "LegacyNewDecFromStr M (op_QuorumFraction p) = Ok q"
    and "LegacyNewDecFromStr M (op_OutlierThreshold p) = Ok thr" and "LegacyNewDecFromStr M (op_OutlierSlashRate p) = Ok rate"
    and "LegacyNewDecFromStr M (op_MissThreshold p) = Ok mthr" and "LegacyNewDecFromStr M (op_MissSlashRate p) = Ok mrate"
    and "0 \<le> rate" and "0 \<le> mrate" and "0 < op_MissWindowSize p" and "op_MissWindowSize p < 2 ^ 63" and "0 < op_VoteWindow p"
proof -
  have v: "params_valid M p" and "OracleParams_wf p" using ok by (simp_all add: params_ok_def OracleParams_Validate_iff [OF M])
  then have len: "0 < op_MissWindowSize p" "op_MissWindowSize p < 2 ^ 63" "0 < op_VoteWindow p"
    by (simp_all add: params_valid_def OracleParams_wf_def is_i64_def)
  from v show thesis using that len unfolding params_valid_def by (elim conjE) (simp, metis)
qed

lemma EndBlocker_window:
  assumes L: "sdk_laws L view" and B: "slash_laws (env_keepers L)" and inv: "oracle_inv L view c"
    and op: "windows_open (oracle_of L view c)" and st: "staking_state (env_keepers L) (ext c) t" and blk: "block_ok c"
    and bounded: "feeds_bounded L (oracle_of L view c)" and vals: "GetBondedValidatorsByPower (env_keepers L) (ext c) = Ok vals"
    and due: "at_window_end (oracle_of L view c) c"
  shows "\<exists>c'. EndBlocker L c = Ok c' \<and> windows_open (oracle_of L view c') \<and>
    block_step L view c c' (window_end L c t vals (pair_votes L view c vals) (oracle_of L view c))"
proof -
  let ?S = "oracle_of L view c" and ?M = "env_math L" and ?vs = "pair_votes L view c vals"
  define p where "p = os_params ?S"
  have p: "GetParams L c = Ok p" "params_ok ?M p" using GetParams_eq [OF L inv] by (simp_all add: p_def)
  obtain q thr rate mthr mrate where dec: "LegacyNewDecFromStr ?M (op_QuorumFraction p) = Ok q"
      "LegacyNewDecFromStr ?M (op_OutlierThreshold p) = Ok thr" "LegacyNewDecFromStr ?M (op_OutlierSlashRate p) = Ok rate"
      "LegacyNewDecFromStr ?M (op_MissThreshold p) = Ok mthr" "LegacyNewDecFromStr ?M (op_MissSlashRate p) = Ok mrate"
    and rate: "0 \<le> rate" "0 \<le> mrate" and len: "0 < op_MissWindowSize p" "op_MissWindowSize p < 2 ^ 63" "0 < op_VoteWindow p"
    by (rule params_ok_fields [OF sdk_math [OF L] p(2)])
  let ?live = "filter (\<lambda>pair. quorum L t q (?vs pair)) (op_AcceptList p)"
  obtain c1 where c1: "ofold (aggregate_pair L (validators_by_operator vals) t q thr rate) (op_AcceptList p) ([], c) = Ok (?live, c1)"
      "block_step L view c c1 (publish_all L c t q ?vs (op_AcceptList p) ?S)"
    using aggregate_pairs_eq [OF L B rate(1) inv st blk bounded params_ok_pairs [OF p(2) sdk_math [OF L]],
        of "op_AcceptList p" ?vs "validators_by_operator vals" q thr "[]"]
    by (auto simp: pair_votes_def)
  have "windows_open (oracle_of L view c1)" using op by (simp add: block_state [OF c1(2)] windows_open_def)
  from judge_validators_step [OF L B rate(2) block_inv [OF c1(2)] this len(1,2), of ?live mthr vals] obtain c2
    where c2: "ofold (judge_validator L p ?live mthr mrate) vals c1 = Ok c2"
      "block_step L view c1 c2 (count_all L (op_MissWindowSize p) ?live vals (oracle_of L view c1))"
      "windows_open (count_all L (op_MissWindowSize p) ?live vals (oracle_of L view c1))" by blast
  obtain c3 where c3: "DeleteAllFeeds L c2 = Ok c3" "oracle_step L view c2 c3 ((oracle_of L view c2)\<lparr>os_feeds := Map.empty\<rparr>)"
    using DeleteAllFeeds_step [OF L block_inv [OF c2(2)]] by blast
  have "price_of ?M (op_QuorumFraction p) = q" using dec(1) by (simp add: price_of_def)
  then have S3: "(oracle_of L view c2)\<lparr>os_feeds := Map.empty\<rparr> = window_end L c t vals ?vs ?S"
    by (simp add: window_end_def Let_def block_state [OF c2(2)] block_state [OF c1(2)] flip: p_def)
  have "block_step L view c c3 (window_end L c t vals ?vs ?S)"
    using block_trans [OF block_trans [OF c1(2) c2(2)] block_oracle [OF c3(2)]] unfolding S3 .
  moreover have "windows_open (oracle_of L view c3)"
    using c2(3) by (simp add: step_state [OF c3(2)] windows_open_def block_state [OF c2(2)])
  moreover have "EndBlocker L c = Ok c3"
    using due by (simp add: EndBlocker_def p(1) at_window_end_def vals staking_total [OF st] dec c1(1) c2(1) c3(1) Let_def flip: p_def)
  ultimately show ?thesis by blast
qed

end
