(* ===== verification/Oracle_Server.thy ===== *)
theory Oracle_Server
  imports Oracle_EndBlock
begin

text \<open>
  \<open>x/oracle/keeper/msg_server.go\<close>, \<open>grpc_query.go\<close>, \<open>genesis.go\<close> and \<open>invariants.go\<close>: the
  entry points of the module.
\<close>

section \<open>Messages\<close>

definition SetFeeder :: "('s, 'x) env \<Rightarrow> MsgSetFeeder \<Rightarrow> ('s, 'x) ctx \<Rightarrow> ('s, 'x) ctx outcome" where
  "SetFeeder L msg c =
     obind (MsgSetFeeder_ValidateBasic (env_addr L) msg) (\<lambda>_.
     obind (ValAddressFromBech32 (env_addr L) (msf_Validator msg)) (\<lambda>val.
     obind (AccAddressFromBech32 (env_addr L) (msf_Feeder msg)) (\<lambda>feeder.
     obind (if env_has_staking L
            then obind (GetValidator (env_keepers L) (ext c) val) (\<lambda>v.
                   if val_Status v \<noteq> Bonded then Err ErrNotBondedValidator else Ok ())
            else Ok ()) (\<lambda>_.
     obind (SetFeederDelegation L val feeder c) (\<lambda>c.
     Ok (EmitEvent (Event EventTypeFeederSet
           [(''validator'', msf_Validator msg), (''feeder'', msf_Feeder msg)]) c))))))"

text \<open>The staking checks of \<open>SubmitFeed\<close>.\<close>

definition require_bonded_power :: "('s, 'x) env \<Rightarrow> addr \<Rightarrow> ('s, 'x) ctx \<Rightarrow> unit outcome" where
  "require_bonded_power L val c =
     (if env_has_staking L
      then obind (GetValidator (env_keepers L) (ext c) val) (\<lambda>v.
             if val_Status v \<noteq> Bonded then Err ErrNotBondedValidator
             else case GetLastValidatorPower (env_keepers L) (ext c) val of
                    Panic \<Rightarrow> Panic
                  | Err _ \<Rightarrow> Err ErrNotBondedValidator
                  | Ok pw \<Rightarrow> if pw = 0 then Err ErrNotBondedValidator else Ok ())
      else Ok ())"

definition SubmitFeed :: "('s, 'x) env \<Rightarrow> MsgSubmitFeed \<Rightarrow> ('s, 'x) ctx \<Rightarrow> ('s, 'x) ctx outcome" where
  "SubmitFeed L msg c =
     obind (MsgSubmitFeed_ValidateBasic (env_math L) (env_addr L) msg) (\<lambda>_.
     obind (ValAddressFromBech32 (env_addr L) (msb_Validator msg)) (\<lambda>val.
     obind (AccAddressFromBech32 (env_addr L) (msb_Feeder msg)) (\<lambda>feeder.
     obind (ResolveAuthorizedFeeder L val c) (\<lambda>authorized.
       if authorized \<noteq> feeder then Err ErrFeederNotAuthorized
       else obind (GetParams L c) (\<lambda>params.
         if \<not> PairAccepted params (msb_Pair msg) then Err ErrPairNotAccepted
         else obind (require_bonded_power L val c) (\<lambda>_.
              let feed = \<lparr>feed_Validator = msb_Validator msg, feed_Pair = msb_Pair msg,
                          feed_Price = msb_Price msg, feed_BlockHeight = BlockHeight c\<rparr>
              in obind (SetFeed L feed c) (\<lambda>c.
                 Ok (EmitEvent (Event EventTypeFeedSubmitted
                       [(''validator'', msb_Validator msg), (''feeder'', msb_Feeder msg),
                        (''pair'', msb_Pair msg), (''price'', msb_Price msg)]) c))))))))"

definition UpdateParams :: "('s, 'x) env \<Rightarrow> MsgUpdateParams \<Rightarrow> ('s, 'x) ctx \<Rightarrow> ('s, 'x) ctx outcome" where
  "UpdateParams L msg c =
     (if env_authority L \<noteq> mup_Authority msg then Err ErrInvalidSigner
      else obind (MsgUpdateParams_ValidateBasic (env_math L) (env_addr L) msg) (\<lambda>_.
           obind (GetParams L c) (\<lambda>oldParams.
           let acceptListChanged = AcceptListChanged oldParams (mup_Params msg)
           in obind (if acceptListChanged then ResetMissCounters L c else Ok c) (\<lambda>c.
              obind (SetParams L (mup_Params msg) c) (\<lambda>c.
              Ok (EmitEvent (Event EventTypeParamsUpdated
                    [(''accept_list_changed'', if acceptListChanged then ''true'' else ''false'')]) c))))))"

section \<open>Queries\<close>

text \<open>A request is \<open>None\<close> when it is a nil pointer.\<close>

definition InvalidArgument :: error where "InvalidArgument = GrpcError ''InvalidArgument''"
definition NotFound :: error where "NotFound = GrpcError ''NotFound''"
definition FailedPrecondition :: error where "FailedPrecondition = GrpcError ''FailedPrecondition''"

definition oracleQueryGRPCError :: "error \<Rightarrow> error" where
  "oracleQueryGRPCError err =
     (if err = ErrNoPrice \<or> err = ErrNoTWAPData then NotFound
      else if err = ErrStalePrice then FailedPrecondition
      else err)"

definition map_error :: "(error \<Rightarrow> error) \<Rightarrow> 'a outcome \<Rightarrow> 'a outcome" where
  "map_error f r = (case r of Ok x \<Rightarrow> Ok x | Err e \<Rightarrow> Err (f e) | Panic \<Rightarrow> Panic)"

definition Query_Price :: "('s, 'x) env \<Rightarrow> string option \<Rightarrow> ('s, 'x) ctx \<Rightarrow> AggregatedPrice outcome" where
  "Query_Price L req c =
     (case req of
        None \<Rightarrow> Err InvalidArgument
      | Some pair \<Rightarrow>
          if pair = '''' then Err InvalidArgument
          else map_error oracleQueryGRPCError (GetAggregatedPrice L pair c))"

definition Query_Twap :: "('s, 'x) env \<Rightarrow> (string \<times> int) option \<Rightarrow> ('s, 'x) ctx \<Rightarrow> dec outcome" where
  "Query_Twap L req c =
     (case req of
        None \<Rightarrow> Err InvalidArgument
      | Some (pair, windowSeconds) \<Rightarrow>
          if pair = '''' \<or> windowSeconds = 0 then Err InvalidArgument
          else map_error oracleQueryGRPCError (GetTWAP L pair (dur_mul (i64 windowSeconds) Second) c))"

definition Query_Params :: "('s, 'x) env \<Rightarrow> unit option \<Rightarrow> ('s, 'x) ctx \<Rightarrow> OracleParams outcome" where
  "Query_Params L req c = (if req = None then Err InvalidArgument else GetParams L c)"

definition Query_MissCounter :: "('s, 'x) env \<Rightarrow> string option \<Rightarrow> ('s, 'x) ctx \<Rightarrow> (int \<times> int) outcome" where
  "Query_MissCounter L req c =
     (case req of
        None \<Rightarrow> Err InvalidArgument
      | Some validator \<Rightarrow>
          if validator = '''' then Err InvalidArgument
          else obind (map_error (\<lambda>_. InvalidArgument) (ValAddressFromBech32 (env_addr L) validator)) (\<lambda>val.
               obind (GetMissCounter L val c) (\<lambda>misses.
               obind (GetTotalWindows L val c) (\<lambda>total.
               Ok (misses, total)))))"

definition Query_Feeder :: "('s, 'x) env \<Rightarrow> string option \<Rightarrow> ('s, 'x) ctx \<Rightarrow> string outcome" where
  "Query_Feeder L req c =
     (case req of
        None \<Rightarrow> Err InvalidArgument
      | Some validator \<Rightarrow>
          if validator = '''' then Err InvalidArgument
          else obind (map_error (\<lambda>_. InvalidArgument) (ValAddressFromBech32 (env_addr L) validator)) (\<lambda>val.
               obind (ResolveAuthorizedFeeder L val c) (\<lambda>feeder.
               Ok (AccAddress_String (env_addr L) feeder))))"

section \<open>Invariant\<close>

text \<open>The flag \<open>broken\<close> of the crisis invariant; its message is not modelled.\<close>

definition price_broken :: "('s, 'x) env \<Rightarrow> OracleParams \<Rightarrow> bytes \<times> bytes \<Rightarrow> bool \<Rightarrow> bool outcome" where
  "price_broken L params kv broken =
     obind (must (AggregatedPrice_Unmarshal (env_time L) (snd kv))) (\<lambda>ap.
     let broken = (broken \<or> ap_Pair ap \<notin> set (op_AcceptList params))
     in case LegacyNewDecFromStr (env_math L) (ap_Price ap) of
          Panic \<Rightarrow> Panic
        | Err _ \<Rightarrow> Ok True
        | Ok price \<Rightarrow> Ok (broken \<or> \<not> price > 0))"

definition PricesInvariant :: "('s, 'x) env \<Rightarrow> ('s, 'x) ctx \<Rightarrow> bool outcome" where
  "PricesInvariant L c =
     (case GetParams L c of
        Panic \<Rightarrow> Panic
      | Err _ \<Rightarrow> Ok True
      | Ok params \<Rightarrow>
          (case store_scan L StoreKey KeyPrefixAggregatedPrice c of
             Panic \<Rightarrow> Panic
           | Err _ \<Rightarrow> Ok True
           | Ok iter \<Rightarrow> ofold (price_broken L params) iter False))"

section \<open>Genesis\<close>

definition init_feeder :: "('s, 'x) env \<Rightarrow> FeederDelegation \<Rightarrow> ('s, 'x) ctx \<Rightarrow> ('s, 'x) ctx outcome" where
  "init_feeder L fd c =
     obind (must (ValAddressFromBech32 (env_addr L) (fd_Validator fd))) (\<lambda>val.
     obind (must (AccAddressFromBech32 (env_addr L) (fd_Feeder fd))) (\<lambda>feeder.
     obind (if env_has_staking L
            then obind (must (GetValidator (env_keepers L) (ext c) val)) (\<lambda>_. Ok ())
            else Ok ()) (\<lambda>_.
     must (SetFeederDelegation L val feeder c))))"

definition InitGenesis :: "('s, 'x) env \<Rightarrow> GenesisState \<Rightarrow> ('s, 'x) ctx \<Rightarrow> ('s, 'x) ctx outcome" where
  "InitGenesis L gs c =
     obind (must (GenesisState_Validate (env_math L) (env_addr L) gs)) (\<lambda>_.
     obind (ofold (\<lambda>p _. must (ValidatePriceBlockTime (ap_BlockTime p) (BlockTime c))) (gs_Prices gs) ()) (\<lambda>_.
     obind (must (SetParams L (gs_Params gs) c)) (\<lambda>c.
     obind (ofold (\<lambda>p c. must (SetAggregatedPrice L p c)) (gs_Prices gs) c) (\<lambda>c.
     ofold (init_feeder L) (gs_Feeders gs) c))))"

definition export_feeders :: "addr_lib \<Rightarrow> (bytes \<times> bytes) list \<Rightarrow> FeederDelegation list" where
  "export_feeders A entries =
     map (\<lambda>(key, value). \<lparr>fd_Validator = ValAddress_String A (drop (length KeyPrefixValoperToFeeder) key),
                          fd_Feeder = AccAddress_String A value\<rparr>)
       (filter (\<lambda>(key, _). \<not> length key \<le> length KeyPrefixValoperToFeeder) entries)"

definition ExportGenesis :: "('s, 'x) env \<Rightarrow> ('s, 'x) ctx \<Rightarrow> GenesisState outcome" where
  "ExportGenesis L c =
     obind (must (GetParams L c)) (\<lambda>params.
     obind (must (store_scan L StoreKey KeyPrefixAggregatedPrice c)) (\<lambda>iter.
     obind (omap (\<lambda>kv. must (AggregatedPrice_Unmarshal (env_time L) (snd kv))) iter) (\<lambda>prices.
     obind (must (store_scan L StoreKey KeyPrefixValoperToFeeder c)) (\<lambda>iter.
     Ok \<lparr>gs_Params = params,
         gs_Prices = sort_slice (\<lambda>a b. ap_Pair a < ap_Pair b) prices,
         gs_Feeders = sort_slice (\<lambda>a b. fd_Validator a < fd_Validator b)
           (export_feeders (env_addr L) iter)\<rparr>))))"

section \<open>What the messages do\<close>

lemma SubmitFeed_basic:
  assumes "math_laws M"
  shows "MsgSubmitFeed_ValidateBasic M A m = Ok () \<longleftrightarrow>
    (\<exists>f. AccAddressFromBech32 A (msb_Feeder m) = Ok f) \<and> (\<exists>v. ValAddressFromBech32 A (msb_Validator m) = Ok v) \<and>
    msb_Pair m \<noteq> '''' \<and> price_ok M (msb_Price m)"
  by (auto simp: MsgSubmitFeed_ValidateBasic_def price_ok_def obind_eq_Ok split: outcome.splits)

text \<open>The validator may report: it is bonded and has power.\<close>

definition may_report :: "('s, 'x) env \<Rightarrow> 'x \<Rightarrow> addr \<Rightarrow> bool" where
  "may_report L x val \<longleftrightarrow> (env_has_staking L \<longrightarrow>
     (\<exists>v. GetValidator (env_keepers L) x val = Ok v \<and> val_Status v = Bonded) \<and> power_of (env_keepers L) x val \<noteq> 0)"

lemma require_bonded_power_iff: "require_bonded_power L val c = Ok u \<longleftrightarrow> may_report L (ext c) val"
  by (auto simp: require_bonded_power_def may_report_def power_of_def obind_eq_Ok split: outcome.splits if_splits)

text \<open>Messages fit in a transaction, whose size the chain limits.\<close>

definition feed_msg_small :: "MsgSubmitFeed \<Rightarrow> bool" where
  "feed_msg_small m \<longleftrightarrow> short (msb_Validator m) \<and> short (msb_Pair m) \<and> short (msb_Price m)"

definition feed_of_msg :: "('s, 'x) ctx \<Rightarrow> MsgSubmitFeed \<Rightarrow> OracleFeed" where
  "feed_of_msg c m = \<lparr>feed_Validator = msb_Validator m, feed_Pair = msb_Pair m, feed_Price = msb_Price m, feed_BlockHeight = BlockHeight c\<rparr>"

text \<open>Who may report for a validator: its feeder, or itself while it has none.\<close>

definition feeder_for :: "oracle_state \<Rightarrow> addr \<Rightarrow> addr" where
  "feeder_for S val = (case os_feeder S val of Some f \<Rightarrow> f | None \<Rightarrow> val)"

lemma SubmitFeed_iff:
  assumes L: "sdk_laws L view" and inv: "oracle_inv L view c" and small: "feed_msg_small m" and blk: "block_ok c"
  shows "is_ok (SubmitFeed L m c) \<longleftrightarrow>
    (\<exists>val. ValAddressFromBech32 (env_addr L) (msb_Validator m) = Ok val \<and>
       AccAddressFromBech32 (env_addr L) (msb_Feeder m) = Ok (feeder_for (oracle_of L view c) val) \<and>
       msb_Pair m \<in> set (op_AcceptList (os_params (oracle_of L view c))) \<and>
       price_ok (env_math L) (msb_Price m) \<and> may_report L (ext c) val)"
    and "SubmitFeed L m c = Ok c' \<Longrightarrow> ValAddressFromBech32 (env_addr L) (msb_Validator m) = Ok val \<Longrightarrow>
      block_step L view c c' ((oracle_of L view c)\<lparr>os_feeds := (os_feeds (oracle_of L view c))((val, msb_Pair m) \<mapsto> feed_of_msg c m)\<rparr>) \<and>
      ext c' = ext c"
proof -
  let ?S = "oracle_of L view c"
  have pair_ne: "msb_Pair m \<in> set (op_AcceptList (os_params ?S)) \<Longrightarrow> msb_Pair m \<noteq> ''''"
    using params_ok_pairs [OF GetParams_eq(2) [OF L inv] sdk_math [OF L], of "msb_Pair m"] by (auto simp: pair_ok_def pairRegex_def base_quote_def)
  have auth: "ResolveAuthorizedFeeder L val c = Ok (feeder_for ?S val)"
    if "ValAddressFromBech32 (env_addr L) (msb_Validator m) = Ok val" for val
    using ResolveAuthorizedFeeder_eq [OF L val_addr_valid [OF sdk_addr [OF L] that]] by (simp add: feeder_for_def)
  have set_: "\<exists>c'. SetFeed L (feed_of_msg c m) c = Ok c' \<and>
      oracle_step L view c c' (?S\<lparr>os_feeds := (os_feeds ?S)((val, msb_Pair m) \<mapsto> feed_of_msg c m)\<rparr>)"
    if "ValAddressFromBech32 (env_addr L) (msb_Validator m) = Ok val" "price_ok (env_math L) (msb_Price m)" for val
    using SetFeed_step [OF L inv, of "feed_of_msg c m" val] that small blk
    by (simp add: feed_of_msg_def feed_msg_small_def block_ok_def)
  have code: "SubmitFeed L m c = Ok c' \<longleftrightarrow>
      (\<exists>val c1. ValAddressFromBech32 (env_addr L) (msb_Validator m) = Ok val \<and>
         AccAddressFromBech32 (env_addr L) (msb_Feeder m) = Ok (feeder_for ?S val) \<and>
         msb_Pair m \<in> set (op_AcceptList (os_params ?S)) \<and> price_ok (env_math L) (msb_Price m) \<and> may_report L (ext c) val \<and>
         SetFeed L (feed_of_msg c m) c = Ok c1 \<and>
         c' = EmitEvent (Event EventTypeFeedSubmitted [(''validator'', msb_Validator m), (''feeder'', msb_Feeder m),
           (''pair'', msb_Pair m), (''price'', msb_Price m)]) c1)" for c'
    using pair_ne
    by (auto simp: SubmitFeed_def obind_eq_Ok SubmitFeed_basic [OF sdk_math [OF L]] auth GetParams_eq(1) [OF L inv]
        PairAccepted_iff require_bonded_power_iff Let_def feed_of_msg_def split: if_splits)
  show "is_ok (SubmitFeed L m c) \<longleftrightarrow>
    (\<exists>val. ValAddressFromBech32 (env_addr L) (msb_Validator m) = Ok val \<and>
       AccAddressFromBech32 (env_addr L) (msb_Feeder m) = Ok (feeder_for ?S val) \<and>
       msb_Pair m \<in> set (op_AcceptList (os_params ?S)) \<and> price_ok (env_math L) (msb_Price m) \<and> may_report L (ext c) val)"
    using set_ by (auto simp: is_ok_iff code)
  assume "SubmitFeed L m c = Ok c'" "ValAddressFromBech32 (env_addr L) (msb_Validator m) = Ok val"
  then obtain c1 e where c1: "SetFeed L (feed_of_msg c m) c = Ok c1" "c' = EmitEvent e c1" "price_ok (env_math L) (msb_Price m)"
    unfolding code by blast
  then have step: "oracle_step L view c c1 (?S\<lparr>os_feeds := (os_feeds ?S)((val, msb_Pair m) \<mapsto> feed_of_msg c m)\<rparr>)"
    using set_ [OF \<open>ValAddressFromBech32 _ _ = Ok val\<close>] by auto
  show "block_step L view c c' (?S\<lparr>os_feeds := (os_feeds ?S)((val, msb_Pair m) \<mapsto> feed_of_msg c m)\<rparr>) \<and> ext c' = ext c"
    using block_emit [OF block_oracle [OF step]] frame_fields(1) [OF step_frame [OF step]] by (simp add: c1(2))
qed

text \<open>The validator may choose its feeder: it is bonded.\<close>

definition may_delegate :: "('s, 'x) env \<Rightarrow> 'x \<Rightarrow> addr \<Rightarrow> bool" where
  "may_delegate L x val \<longleftrightarrow> (env_has_staking L \<longrightarrow> (\<exists>v. GetValidator (env_keepers L) x val = Ok v \<and> val_Status v = Bonded))"

lemma SetFeeder_code:
  "SetFeeder L m c = Ok c' \<longleftrightarrow>
    (\<exists>val feeder c1. ValAddressFromBech32 (env_addr L) (msf_Validator m) = Ok val \<and>
       AccAddressFromBech32 (env_addr L) (msf_Feeder m) = Ok feeder \<and> may_delegate L (ext c) val \<and>
       SetFeederDelegation L val feeder c = Ok c1 \<and>
       c' = EmitEvent (Event EventTypeFeederSet [(''validator'', msf_Validator m), (''feeder'', msf_Feeder m)]) c1)"
  by (auto simp: SetFeeder_def MsgSetFeeder_ValidateBasic_def obind_eq_Ok may_delegate_def split: if_splits)

lemma SetFeeder_iff:
  assumes L: "sdk_laws L view" and inv: "oracle_inv L view c"
    and val: "ValAddressFromBech32 (env_addr L) (msf_Validator m) = Ok val"
    and feeder: "AccAddressFromBech32 (env_addr L) (msf_Feeder m) = Ok feeder"
  shows "is_ok (SetFeeder L m c) \<longleftrightarrow> may_delegate L (ext c) val \<and> os_valoper (oracle_of L view c) feeder \<in> {None, Some val}"
    and "SetFeeder L m c = Ok c' \<Longrightarrow>
      block_step L view c c' ((oracle_of L view c)\<lparr>os_valoper := (os_valoper (oracle_of L view c))(feeder \<mapsto> val),
        os_feeder := (os_feeder (oracle_of L view c))(val \<mapsto> feeder)\<rparr>) \<and> ext c' = ext c"
proof -
  let ?S = "oracle_of L view c"
  have va: "valid_addr val" "valid_addr feeder"
    using val_addr_valid [OF sdk_addr [OF L] val] acc_addr_valid [OF sdk_addr [OF L] feeder] by blast+
  have taken: "\<not> is_ok (SetFeederDelegation L val feeder c)" if "os_valoper ?S feeder \<notin> {None, Some val}"
    using SetFeederDelegation_taken [OF L va(2)] that by (cases "os_valoper ?S feeder") auto
  note free = SetFeederDelegation_step [OF L inv va]
  show "is_ok (SetFeeder L m c) \<longleftrightarrow> may_delegate L (ext c) val \<and> os_valoper ?S feeder \<in> {None, Some val}"
    using free taken
    by (cases "os_valoper ?S feeder \<in> {None, Some val}") (auto simp: is_ok_iff SetFeeder_code val feeder simp del: insert_iff)
  assume "SetFeeder L m c = Ok c'"
  then obtain c1 e where c1: "SetFeederDelegation L val feeder c = Ok c1" "c' = EmitEvent e c1"
    by (auto simp: SetFeeder_code val feeder)
  then have "os_valoper ?S feeder \<in> {None, Some val}" using taken by force
  with free c1(1) have step: "oracle_step L view c c1 (?S\<lparr>os_valoper := (os_valoper ?S)(feeder \<mapsto> val), os_feeder := (os_feeder ?S)(val \<mapsto> feeder)\<rparr>)"
    by auto
  show "block_step L view c c' (?S\<lparr>os_valoper := (os_valoper ?S)(feeder \<mapsto> val), os_feeder := (os_feeder ?S)(val \<mapsto> feeder)\<rparr>) \<and> ext c' = ext c"
    using block_emit [OF block_oracle [OF step]] frame_fields(1) [OF step_frame [OF step]] by (simp add: c1(2))
qed

definition params_msg_small :: "MsgUpdateParams \<Rightarrow> bool" where
  "params_msg_small m \<longleftrightarrow> OracleParams_wf (mup_Params m) \<and> OracleParams_Size (mup_Params m) < 2 ^ 16"

definition params_updated :: "OracleParams \<Rightarrow> oracle_state \<Rightarrow> oracle_state" where
  "params_updated p S =
     (if op_AcceptList p = op_AcceptList (os_params S) then S\<lparr>os_params := p\<rparr>
      else S\<lparr>os_params := p, os_miss := Map.empty, os_windows := Map.empty\<rparr>)"

lemma UpdateParams_iff:
  assumes L: "sdk_laws L view" and inv: "oracle_inv L view c" and small: "params_msg_small m"
  shows "is_ok (UpdateParams L m c) \<longleftrightarrow> mup_Authority m = env_authority L \<and>
      is_ok (AccAddressFromBech32 (env_addr L) (mup_Authority m)) \<and> params_valid (env_math L) (mup_Params m)"
    and "UpdateParams L m c = Ok c' \<Longrightarrow> block_step L view c c' (params_updated (mup_Params m) (oracle_of L view c)) \<and> ext c' = ext c"
proof -
  let ?S = "oracle_of L view c" and ?p = "mup_Params m"
  let ?changed = "AcceptListChanged (os_params ?S) ?p"
  note valid = OracleParams_Validate_iff [OF sdk_math [OF L]]
  have "\<exists>c1 c2. (if ?changed then ResetMissCounters L c else Ok c) = Ok c1 \<and> SetParams L ?p c1 = Ok c2 \<and>
      block_step L view c c2 (params_updated ?p ?S) \<and> ext c2 = ext c" if v: "params_valid (env_math L) ?p"
  proof -
    have ok: "params_ok (env_math L) ?p" using v small by (simp add: params_ok_def valid params_msg_small_def)
    obtain c1 where c1: "(if ?changed then ResetMissCounters L c else Ok c) = Ok c1"
        "oracle_step L view c c1 (if ?changed then ?S\<lparr>os_miss := Map.empty, os_windows := Map.empty\<rparr> else ?S)"
      using ResetMissCounters_step [OF L inv] inv by (cases ?changed) (auto simp: oracle_step_def)
    obtain c2 where c2: "SetParams L ?p c1 = Ok c2" "oracle_step L view c1 c2 ((oracle_of L view c1)\<lparr>os_params := ?p\<rparr>)"
      using SetParams_step [OF L step_inv [OF c1(2)] ok] by blast
    have "(oracle_of L view c1)\<lparr>os_params := ?p\<rparr> = params_updated ?p ?S"
      by (auto simp: step_state [OF c1(2)] params_updated_def AcceptListChanged_iff)
    then have "block_step L view c c2 (params_updated ?p ?S)"
      using block_trans [OF block_oracle [OF c1(2)] block_oracle [OF c2(2)]] by simp
    moreover have "ext c2 = ext c" using frame_fields(1) step_frame c1(2) c2(2) by metis
    ultimately show ?thesis using c1(1) c2(1) by blast
  qed
  note * = this
  have code: "UpdateParams L m c = Ok c' \<longleftrightarrow> mup_Authority m = env_authority L \<and>
      is_ok (AccAddressFromBech32 (env_addr L) (mup_Authority m)) \<and> params_valid (env_math L) ?p \<and>
      (\<exists>c1 c2. (if ?changed then ResetMissCounters L c else Ok c) = Ok c1 \<and> SetParams L ?p c1 = Ok c2 \<and>
        c' = EmitEvent (Event EventTypeParamsUpdated [(''accept_list_changed'', if ?changed then ''true'' else ''false'')]) c2)" for c'
    by (auto simp: UpdateParams_def MsgUpdateParams_ValidateBasic_def obind_eq_Ok is_ok_iff valid GetParams_eq(1) [OF L inv] Let_def)
  show "is_ok (UpdateParams L m c) \<longleftrightarrow> mup_Authority m = env_authority L \<and>
      is_ok (AccAddressFromBech32 (env_addr L) (mup_Authority m)) \<and> params_valid (env_math L) ?p"
    using * by (auto simp: is_ok_iff [of "UpdateParams L m c"] code)
  assume "UpdateParams L m c = Ok c'"
  then show "block_step L view c c' (params_updated ?p ?S) \<and> ext c' = ext c"
    using * by (auto simp: code intro!: block_emit)
qed

section \<open>Prices\<close>

lemma GetPrice_eq:
  assumes L: "sdk_laws L view" and inv: "oracle_inv L view c"
  shows "GetPrice L pair c =
    (let S = oracle_of L view c
     in if pair \<notin> set (op_AcceptList (os_params S)) then Err ErrPairNotAccepted
        else case os_prices S pair of
               None \<Rightarrow> Err ErrNoPrice
             | Some ap \<Rightarrow>
                 if time_sub (BlockTime c) (ap_BlockTime ap) > dur_mul (op_MaxPriceAge (os_params S)) Second
                 then Err ErrStalePrice else Ok (price_of (env_math L) (ap_Price ap)))"
proof -
  have "LegacyNewDecFromStr (env_math L) (ap_Price ap) = Ok (price_of (env_math L) (ap_Price ap))"
    if "os_prices (oracle_of L view c) pair = Some ap" for ap
    using price_ok_parse [OF inv_price(3) [OF inv that]] by simp
  then show ?thesis
    by (auto simp: GetPrice_def GetAggregatedPrice_eq [OF L inv] Let_def split: option.split)
qed

text \<open>The stored prices in the order of a scan, which is the order of their pairs.\<close>

lemma price_scan:
  assumes L: "sdk_laws L view" and inv: "oracle_inv L view c"
  obtains es aps where "store_scan L StoreKey KeyPrefixAggregatedPrice c = Ok es"
    and "map (\<lambda>kv. AggregatedPrice_Unmarshal (env_time L) (snd kv)) es = map Ok aps"
    and "\<And>ap. ap \<in> set aps \<longleftrightarrow> os_prices (oracle_of L view c) (ap_Pair ap) = Some ap"
    and "sorted_wrt (<) (map ap_Pair aps)"
proof -
  let ?m = "store_view view StoreKey c" and ?T = "env_time L"
  let ?es = "prefix_entries ?m KeyPrefixAggregatedPrice"
  let ?dec = "\<lambda>kv. case AggregatedPrice_Unmarshal ?T (snd kv) of Ok ap \<Rightarrow> ap | _ \<Rightarrow> undefined"
  let ?aps = "map ?dec ?es"
  have scan: "store_scan L StoreKey KeyPrefixAggregatedPrice c = Ok ?es"
    by (rule store_scan_eq [OF L]) (simp add: KeyPrefixAggregatedPrice_def)
  have fam: "family_inv (byte 2) (price_entry (env_math L) ?T) ?m" using inv_families [OF inv] by (simp add: families_ok_def)
  have ent: "\<exists>ap. AggregatedPrice_Unmarshal ?T (snd kv) = Ok ap \<and> fst kv = AggregatedPriceKey (ap_Pair ap) \<and> short (ap_Pair ap) \<and>
      ?m (fst kv) = Some (snd kv)" if "kv \<in> set ?es" for kv
  proof -
    obtain k v where kv: "kv = (k, v)" by (cases kv)
    have "price_entry (env_math L) ?T k v"
      using that unfolding kv by (intro family_inv_scan [OF fam store_view_finite [OF L]]) (auto simp: KeyPrefixAggregatedPrice_def)
    moreover have "?m k = Some v" using that by (simp add: kv prefix_entries_iff [OF store_view_finite [OF L]])
    ultimately show ?thesis by (auto simp: kv price_entry_def pair_ok_def split: outcome.splits)
  qed
  have "map (\<lambda>kv. AggregatedPrice_Unmarshal ?T (snd kv)) ?es = map Ok ?aps" using ent by fastforce
  moreover have "ap \<in> set ?aps \<longleftrightarrow> os_prices (oracle_of L view c) (ap_Pair ap) = Some ap" for ap
  proof
    assume "ap \<in> set ?aps"
    then obtain kv where kv: "kv \<in> set ?es" "ap = ?dec kv" by auto
    with ent [OF kv(1)] show "os_prices (oracle_of L view c) (ap_Pair ap) = Some ap"
      by (auto simp: oracle_of_fields intro!: typed_at_SomeI)
  next
    assume "os_prices (oracle_of L view c) (ap_Pair ap) = Some ap"
    then obtain bz where bz: "?m (AggregatedPriceKey (ap_Pair ap)) = Some bz" "AggregatedPrice_Unmarshal ?T bz = Ok ap"
      unfolding oracle_of_fields by (rule typed_at_SomeE)
    then have "(AggregatedPriceKey (ap_Pair ap), bz) \<in> set ?es"
      by (simp add: prefix_entries_iff [OF store_view_finite [OF L]] AggregatedPriceKey_def)
    then show "ap \<in> set ?aps" using bz(2) by force
  qed
  moreover have keys: "map fst ?es = map (\<lambda>ap. AggregatedPriceKey (ap_Pair ap)) ?aps" using ent by fastforce
  have "sorted_wrt (<) (map (\<lambda>ap. KeyPrefixAggregatedPrice @ ap_Pair ap) ?aps)"
    using prefix_entries_sorted [of ?m KeyPrefixAggregatedPrice] unfolding keys AggregatedPriceKey_def .
  then have "sorted_wrt (<) (map ap_Pair ?aps)"
    by (simp add: sorted_wrt_map KeyPrefixAggregatedPrice_def)
  ultimately show thesis using that scan by blast
qed

lemma PricesInvariant_eq:
  assumes L: "sdk_laws L view" and inv: "oracle_inv L view c"
  shows "PricesInvariant L c = Ok (\<not> dom (os_prices (oracle_of L view c)) \<subseteq> set (op_AcceptList (os_params (oracle_of L view c))))"
proof (rule price_scan [OF L inv])
  let ?S = "oracle_of L view c"
  let ?acc = "op_AcceptList (os_params ?S)"
  fix es aps
  assume scan: "store_scan L StoreKey KeyPrefixAggregatedPrice c = Ok es"
    and aps: "map (\<lambda>kv. AggregatedPrice_Unmarshal (env_time L) (snd kv)) es = map Ok aps"
    and mem: "\<And>ap. ap \<in> set aps \<longleftrightarrow> os_prices ?S (ap_Pair ap) = Some ap"
  have pos: "price_ok (env_math L) (ap_Price ap)" if "ap \<in> set aps" for ap
    using that inv_price(3) [OF inv] unfolding mem by blast
  have "ofold (price_broken L (os_params ?S)) es b = Ok (b \<or> (\<exists>ap\<in>set aps. ap_Pair ap \<notin> set ?acc))" for b
    using aps pos
  proof (induction es arbitrary: aps b)
    case (Cons e es)
    from Cons.prems(1) obtain ap aps' where aps: "aps = ap # aps'" "AggregatedPrice_Unmarshal (env_time L) (snd e) = Ok ap"
        "map (\<lambda>kv. AggregatedPrice_Unmarshal (env_time L) (snd kv)) es = map Ok aps'"
      by (cases aps) auto
    have "price_broken L (os_params ?S) e b = Ok (b \<or> ap_Pair ap \<notin> set ?acc)"
      using price_ok_parse [OF Cons.prems(2) [of ap]] by (simp add: price_broken_def aps Let_def)
    then show ?case using Cons.IH [OF aps(3)] Cons.prems(2) by (auto simp: aps(1))
  qed simp
  moreover have "(\<exists>ap\<in>set aps. ap_Pair ap \<notin> set ?acc) \<longleftrightarrow> \<not> dom (os_prices ?S) \<subseteq> set ?acc"
    unfolding mem Bex_def using inv_price(1) [OF inv] by (auto simp: subset_iff dom_def)
  ultimately show ?thesis by (simp add: PricesInvariant_def GetParams_eq(1) [OF L inv] scan)
qed

section \<open>Genesis import and export\<close>

lemma oracle_step_refl: "oracle_inv L view c \<Longrightarrow> oracle_step L view c c (oracle_of L view c)"
  by (simp add: oracle_step_def)

lemma oracle_step_trans: "oracle_step L view c c' S \<Longrightarrow> oracle_step L view c' c'' S' \<Longrightarrow> oracle_step L view c c'' S'"
  by (auto simp: oracle_step_def intro: frame_trans)

definition genesis_price_ok :: "('s, 'x) env \<Rightarrow> AggregatedPrice \<Rightarrow> bool" where
  "genesis_price_ok L p \<longleftrightarrow> pair_ok (ap_Pair p) \<and> price_ok (env_math L) (ap_Price p) \<and> length (ap_Price p) < 2 ^ 20 \<and>
     is_i64 (ap_BlockHeight p) \<and> valid_time (ap_BlockTime p)"

lemma init_prices_step:
  assumes L: "sdk_laws L view" and inv: "oracle_inv L view c" and ok: "\<And>p. p \<in> set ps \<Longrightarrow> genesis_price_ok L p"
    and dist: "distinct (map ap_Pair ps)"
  shows "\<exists>c'. ofold (\<lambda>p c. must (SetAggregatedPrice L p c)) ps c = Ok c' \<and>
    oracle_step L view c c' ((oracle_of L view c)\<lparr>os_prices := os_prices (oracle_of L view c) ++ map_of (map (\<lambda>p. (ap_Pair p, p)) ps)\<rparr>)"
  using inv ok dist
proof (induction ps arbitrary: c)
  case (Cons p ps)
  have "genesis_price_ok L p" using Cons.prems(2) by simp
  then obtain c1 where c1: "SetAggregatedPrice L p c = Ok c1"
      "oracle_step L view c c1 ((oracle_of L view c)\<lparr>os_prices := (os_prices (oracle_of L view c))(ap_Pair p \<mapsto> p)\<rparr>)"
    using SetAggregatedPrice_step [OF L Cons.prems(1), of p] by (auto simp: genesis_price_ok_def)
  obtain c2 where c2: "ofold (\<lambda>p c. must (SetAggregatedPrice L p c)) ps c1 = Ok c2"
      "oracle_step L view c1 c2 ((oracle_of L view c1)\<lparr>os_prices := os_prices (oracle_of L view c1) ++ map_of (map (\<lambda>p. (ap_Pair p, p)) ps)\<rparr>)"
    using Cons.IH [OF step_inv [OF c1(2)]] Cons.prems by auto
  have "map_of (map (\<lambda>p. (ap_Pair p, p)) ps) (ap_Pair p) = None"
    using Cons.prems(3) by (auto simp: map_of_eq_None_iff image_image)
  then have S: "os_prices (oracle_of L view c1) ++ map_of (map (\<lambda>p. (ap_Pair p, p)) ps) =
      os_prices (oracle_of L view c) ++ map_of (map (\<lambda>p. (ap_Pair p, p)) (p # ps))"
    by (auto simp: step_state [OF c1(2)] map_add_def fun_eq_iff split: option.splits)
  have "oracle_step L view c c2 ((oracle_of L view c)\<lparr>os_prices := os_prices (oracle_of L view c) ++ map_of (map (\<lambda>p. (ap_Pair p, p)) (p # ps))\<rparr>)"
    using oracle_step_trans [OF c1(2) c2(2)] unfolding S by (simp add: step_state [OF c1(2)])
  moreover have "ofold (\<lambda>p c. must (SetAggregatedPrice L p c)) (p # ps) c = Ok c2" using c1(1) c2(1) by simp
  ultimately show ?case by blast
qed (simp add: oracle_step_refl)

definition delegation :: "addr_lib \<Rightarrow> addr \<times> addr \<Rightarrow> FeederDelegation" where
  "delegation A vf = \<lparr>fd_Validator = ValAddress_String A (fst vf), fd_Feeder = AccAddress_String A (snd vf)\<rparr>"

lemma delegation_fields [simp]:
  "fd_Validator (delegation A vf) = ValAddress_String A (fst vf)" "fd_Feeder (delegation A vf) = AccAddress_String A (snd vf)"
  by (simp_all add: delegation_def)

definition delegations_ok :: "('s, 'x) env \<Rightarrow> 'x \<Rightarrow> (addr \<times> addr) list \<Rightarrow> bool" where
  "delegations_ok L x vfs \<longleftrightarrow> (\<forall>(v, f)\<in>set vfs. valid_addr v \<and> valid_addr f \<and>
       (env_has_staking L \<longrightarrow> is_ok (GetValidator (env_keepers L) x v))) \<and>
     distinct (map fst vfs) \<and> distinct (map snd vfs)"

lemma map_of_swap_None: "a \<notin> set (map snd vfs) \<Longrightarrow> map_of (map prod.swap vfs) a = None"
  by (auto simp: map_of_eq_None_iff image_iff)

lemma init_feeders_step:
  assumes L: "sdk_laws L view" and inv: "oracle_inv L view c" and ok: "delegations_ok L (ext c) vfs"
    and free: "set (map snd vfs) \<inter> dom (os_valoper (oracle_of L view c)) = {}"
  shows "\<exists>c'. ofold (init_feeder L) (map (delegation (env_addr L)) vfs) c = Ok c' \<and>
    oracle_step L view c c' ((oracle_of L view c)\<lparr>
      os_valoper := os_valoper (oracle_of L view c) ++ map_of (map prod.swap vfs),
      os_feeder := os_feeder (oracle_of L view c) ++ map_of vfs\<rparr>)"
  using inv ok free
proof (induction vfs arbitrary: c)
  case (Cons vf vfs)
  obtain v f where vf: "vf = (v, f)" by (cases vf)
  let ?S = "oracle_of L view c"
  have va: "valid_addr v" "valid_addr f" using Cons.prems(2) by (simp_all add: vf delegations_ok_def)
  have "os_valoper ?S f \<in> {None, Some v}" using Cons.prems(3) by (auto simp: vf)
  then obtain c1 where c1: "SetFeederDelegation L v f c = Ok c1"
      "oracle_step L view c c1 (?S\<lparr>os_valoper := (os_valoper ?S)(f \<mapsto> v), os_feeder := (os_feeder ?S)(v \<mapsto> f)\<rparr>)"
    using SetFeederDelegation_step [OF L Cons.prems(1) va] by blast
  have "init_feeder L (delegation (env_addr L) vf) c = Ok c1"
    using Cons.prems(2) c1(1)
    by (auto simp: init_feeder_def vf val_addr_roundtrip [OF sdk_addr [OF L] va(1)]
        acc_addr_roundtrip [OF sdk_addr [OF L] va(2)] delegations_ok_def is_ok_iff)
  moreover have "delegations_ok L (ext c1) vfs"
    using Cons.prems(2) by (simp add: delegations_ok_def frame_fields(1) [OF step_frame [OF c1(2)]])
  moreover have "set (map snd vfs) \<inter> dom (os_valoper (oracle_of L view c1)) = {}"
    using Cons.prems(2,3) by (auto simp: vf step_state [OF c1(2)] delegations_ok_def split: if_splits)
  ultimately obtain c2 where c2: "ofold (init_feeder L) (map (delegation (env_addr L)) (vf # vfs)) c = Ok c2"
      "oracle_step L view c1 c2 ((oracle_of L view c1)\<lparr>
        os_valoper := os_valoper (oracle_of L view c1) ++ map_of (map prod.swap vfs),
        os_feeder := os_feeder (oracle_of L view c1) ++ map_of vfs\<rparr>)"
    using Cons.IH [OF step_inv [OF c1(2)]] by auto
  have "map_of (map prod.swap vfs) f = None" "map_of vfs v = None"
    using Cons.prems(2) by (auto simp: vf delegations_ok_def map_of_swap_None map_of_eq_None_iff)
  then have S: "os_valoper (oracle_of L view c1) ++ map_of (map prod.swap vfs) = os_valoper ?S ++ map_of (map prod.swap (vf # vfs))"
      "os_feeder (oracle_of L view c1) ++ map_of vfs = os_feeder ?S ++ map_of (vf # vfs)"
    by (auto simp: step_state [OF c1(2)] vf map_add_def fun_eq_iff split: option.splits)
  have "oracle_step L view c c2 (?S\<lparr>os_valoper := os_valoper ?S ++ map_of (map prod.swap (vf # vfs)), os_feeder := os_feeder ?S ++ map_of (vf # vfs)\<rparr>)"
    using oracle_step_trans [OF c1(2) c2(2)] unfolding S by (simp add: step_state [OF c1(2)])
  then show ?case using c2(1) by blast
qed (simp add: oracle_step_refl)

text \<open>A genesis state in the form \<open>ExportGenesis\<close> writes, acceptable at the given block.\<close>

definition genesis_of :: "('s, 'x) env \<Rightarrow> OracleParams \<Rightarrow> AggregatedPrice list \<Rightarrow> (addr \<times> addr) list \<Rightarrow> GenesisState" where
  "genesis_of L p prices vfs = \<lparr>gs_Params = p, gs_Prices = prices, gs_Feeders = map (delegation (env_addr L)) vfs\<rparr>"

definition genesis_ok :: "('s, 'x) env \<Rightarrow> ('s, 'x) ctx \<Rightarrow> OracleParams \<Rightarrow> AggregatedPrice list \<Rightarrow> (addr \<times> addr) list \<Rightarrow> bool" where
  "genesis_ok L c p prices vfs \<longleftrightarrow> params_ok (env_math L) p \<and>
     (\<forall>ap\<in>set prices. genesis_price_ok L ap \<and> ap_Pair ap \<in> set (op_AcceptList p) \<and>
        ap_BlockTime ap \<noteq> zero_time \<and> ap_BlockTime ap \<le> BlockTime c) \<and>
     sorted_wrt (<) (map ap_Pair prices) \<and> delegations_ok L (ext c) vfs \<and>
     sorted_wrt (<) (map (\<lambda>vf. ValAddress_String (env_addr L) (fst vf)) vfs)"

lemma validate_prices_Ok:
  assumes "\<And>p. p \<in> set ps \<Longrightarrow> PairAccepted params (ap_Pair p) \<and> price_ok M (ap_Price p) \<and> ap_BlockTime p \<noteq> zero_time"
    and "distinct (map ap_Pair ps)" and "set (map ap_Pair ps) \<inter> set seen = {}"
  shows "validate_prices M params seen ps = Ok ()"
  using assms
proof (induction ps arbitrary: seen)
  case (Cons p ps)
  have "PairAccepted params (ap_Pair p)" "ap_BlockTime p \<noteq> zero_time" "price_ok M (ap_Price p)" using Cons.prems(1) by simp_all
  moreover have "validate_prices M params (ap_Pair p # seen) ps = Ok ()" using Cons.prems by (intro Cons.IH) auto
  ultimately show ?case using Cons.prems(3) by (auto simp: price_ok_def split: outcome.splits)
qed simp

lemma validate_feeders_Ok:
  assumes A: "addr_laws A" and "\<And>v f. (v, f) \<in> set vfs \<Longrightarrow> valid_addr v \<and> valid_addr f"
    and "distinct (map snd vfs)" and "AccAddress_String A ` set (map snd vfs) \<inter> set seen = {}"
  shows "validate_feeders A seen (map (delegation A) vfs) = Ok ()"
  using assms(2-)
proof (induction vfs arbitrary: seen)
  case (Cons vf vfs)
  obtain v f where vf: "vf = (v, f)" by (cases vf)
  have va: "valid_addr v" "valid_addr f" using Cons.prems(1) [of v f] by (simp_all add: vf)
  have "AccAddress_String A f \<notin> AccAddress_String A ` set (map snd vfs)"
  proof
    assume "AccAddress_String A f \<in> AccAddress_String A ` set (map snd vfs)"
    then obtain v' f' where f': "(v', f') \<in> set vfs" "AccAddress_String A f' = AccAddress_String A f" by auto
    then have "f' = f" using acc_addr_roundtrip [OF A] va(2) Cons.prems(1) by (metis list.set_intros(2) outcome.inject(1))
    then show False using f'(1) Cons.prems(2) by (force simp: vf)
  qed
  then have "validate_feeders A (AccAddress_String A f # seen) (map (delegation A) vfs) = Ok ()"
    using Cons.prems by (intro Cons.IH) (auto simp: vf)
  then show ?case using Cons.prems(3)
    by (auto simp: vf val_addr_roundtrip [OF A va(1)] acc_addr_roundtrip [OF A va(2)])
qed simp

lemma InitGenesis_eq:
  assumes L: "sdk_laws L view" and new: "store_view view StoreKey c = Map.empty" and ok: "genesis_ok L c p prices vfs"
  shows "\<exists>c'. InitGenesis L (genesis_of L p prices vfs) c = Ok c' \<and>
    oracle_step L view c c' (empty_oracle\<lparr>os_params := p, os_prices := map_of (map (\<lambda>ap. (ap_Pair ap, ap)) prices),
      os_valoper := map_of (map prod.swap vfs), os_feeder := map_of vfs\<rparr>)"
proof -
  have inv: "oracle_inv L view c" and S: "oracle_of L view c = empty_oracle" using oracle_empty [OF new] by simp_all
  have params: "params_ok (env_math L) p" and vfs: "delegations_ok L (ext c) vfs"
    and prices: "\<And>ap. ap \<in> set prices \<Longrightarrow> genesis_price_ok L ap \<and> ap_Pair ap \<in> set (op_AcceptList p) \<and>
        ap_BlockTime ap \<noteq> zero_time \<and> ap_BlockTime ap \<le> BlockTime c" and sorted: "sorted_wrt (<) (map ap_Pair prices)"
    using ok by (simp_all add: genesis_ok_def)
  have dist: "distinct (map ap_Pair prices)" using sorted strict_sorted_iff by blast
  have "validate_prices (env_math L) p [] prices = Ok ()"
    using prices dist by (intro validate_prices_Ok) (auto simp: PairAccepted_iff genesis_price_ok_def)
  moreover have "validate_feeders (env_addr L) [] (map (delegation (env_addr L)) vfs) = Ok ()"
    using vfs by (intro validate_feeders_Ok [OF sdk_addr [OF L]]) (auto simp: delegations_ok_def)
  ultimately have valid: "GenesisState_Validate (env_math L) (env_addr L) (genesis_of L p prices vfs) = Ok ()"
    using params by (simp add: GenesisState_Validate_def genesis_of_def params_ok_def)
  have "\<forall>ap\<in>set prices. ap_BlockTime ap \<le> BlockTime c" using prices by blast
  then have times: "ofold (\<lambda>p _. must (ValidatePriceBlockTime (ap_BlockTime p) (BlockTime c))) prices () = Ok ()"
    by (induction prices) (simp_all add: ValidatePriceBlockTime_def)
  obtain c1 where c1: "SetParams L p c = Ok c1" "oracle_step L view c c1 (empty_oracle\<lparr>os_params := p\<rparr>)"
    using SetParams_step [OF L inv params] S by auto
  obtain c2 where c2: "ofold (\<lambda>p c. must (SetAggregatedPrice L p c)) prices c1 = Ok c2"
      "oracle_step L view c1 c2 (empty_oracle\<lparr>os_params := p, os_prices := map_of (map (\<lambda>p. (ap_Pair p, p)) prices)\<rparr>)"
    using init_prices_step [OF L step_inv [OF c1(2)] _ dist] prices by (auto simp: step_state [OF c1(2)] empty_oracle_def)
  have "ext c2 = ext c" using frame_fields(1) step_frame c1(2) c2(2) by metis
  then obtain c3 where c3: "ofold (init_feeder L) (map (delegation (env_addr L)) vfs) c2 = Ok c3"
      "oracle_step L view c2 c3 (empty_oracle\<lparr>os_params := p, os_prices := map_of (map (\<lambda>ap. (ap_Pair ap, ap)) prices),
        os_valoper := map_of (map prod.swap vfs), os_feeder := map_of vfs\<rparr>)"
    using init_feeders_step [OF L step_inv [OF c2(2)], of vfs] vfs by (auto simp: step_state [OF c2(2)] empty_oracle_def)
  have "InitGenesis L (genesis_of L p prices vfs) c = Ok c3"
    by (simp add: InitGenesis_def valid times c1(1) c2(1) c3(1), simp add: genesis_of_def times c1(1) c2(1) c3(1))
  then show ?thesis using oracle_step_trans [OF oracle_step_trans [OF c1(2) c2(2)] c3(2)] by blast
qed

lemma feeder_scan:
  assumes L: "sdk_laws L view" and inv: "oracle_inv L view c"
  obtains es where "store_scan L StoreKey KeyPrefixValoperToFeeder c = Ok es"
    and "set (export_feeders (env_addr L) es) = delegation (env_addr L) ` {(v, f). os_feeder (oracle_of L view c) v = Some f}"
    and "distinct (map fd_Validator (export_feeders (env_addr L) es))"
proof -
  let ?m = "store_view view StoreKey c" and ?A = "env_addr L"
  let ?es = "prefix_entries ?m KeyPrefixValoperToFeeder"
  have scan: "store_scan L StoreKey KeyPrefixValoperToFeeder c = Ok ?es"
    by (rule store_scan_eq [OF L]) (simp add: KeyPrefixValoperToFeeder_def)
  have fam: "family_inv (byte 8) (address_entry ValoperToFeederKey) ?m" using inv_families [OF inv] by (simp add: families_ok_def)
  have ent: "\<exists>a. k = ValoperToFeederKey a \<and> valid_addr a" if "(k, f) \<in> set ?es" for k f
    using family_inv_scan [OF fam store_view_finite [OF L] _ that] by (auto simp: address_entry_def KeyPrefixValoperToFeeder_def)
  have mem: "(ValoperToFeederKey a, f) \<in> set ?es \<longleftrightarrow> os_feeder (oracle_of L view c) a = Some f" if "valid_addr a" for a f
    using that by (auto simp: prefix_entries_iff [OF store_view_finite [OF L]] oracle_of_fields typed_at_def ValoperToFeederKey_def
        split: option.splits)
  have valid: "valid_addr a" if "os_feeder (oracle_of L view c) a = Some f" for a f
    using that by (auto simp: oracle_of_fields typed_at_def split: if_splits)
  let ?addr = "\<lambda>k. drop (length KeyPrefixValoperToFeeder) k"
  have addr: "?addr (ValoperToFeederKey a) = a" for a by (simp add: ValoperToFeederKey_def)
  have "\<not> length k \<le> length KeyPrefixValoperToFeeder" if "(k, f) \<in> set ?es" for k f
    using ent [OF that] by (auto simp: ValoperToFeederKey_def valid_addr_def)
  then have "filter (\<lambda>(key, _). \<not> length key \<le> length KeyPrefixValoperToFeeder) ?es = ?es"
    by (auto simp: filter_id_conv)
  then have exp: "export_feeders ?A ?es = map (\<lambda>(k, f). delegation ?A (?addr k, f)) ?es"
    by (simp add: export_feeders_def delegation_def)
  have "set (export_feeders ?A ?es) = delegation ?A ` {(v, f). os_feeder (oracle_of L view c) v = Some f}"
  proof (intro set_eqI iffI)
    fix d assume "d \<in> set (export_feeders ?A ?es)"
    then obtain k f where kf: "(k, f) \<in> set ?es" "d = delegation ?A (?addr k, f)" by (auto simp: exp)
    obtain a where "k = ValoperToFeederKey a" "valid_addr a" using ent [OF kf(1)] by blast
    then show "d \<in> delegation ?A ` {(v, f). os_feeder (oracle_of L view c) v = Some f}"
      using kf mem [of a f] by (auto simp: addr)
  next
    fix d assume "d \<in> delegation ?A ` {(v, f). os_feeder (oracle_of L view c) v = Some f}"
    then obtain v f where vf: "os_feeder (oracle_of L view c) v = Some f" "d = delegation ?A (v, f)" by auto
    then have "(ValoperToFeederKey v, f) \<in> set ?es" using mem [OF valid [OF vf(1)]] by blast
    then have "(\<lambda>(k, f). delegation ?A (?addr k, f)) (ValoperToFeederKey v, f) \<in> set (export_feeders ?A ?es)"
      unfolding exp set_map by (rule imageI)
    then show "d \<in> set (export_feeders ?A ?es)" by (simp add: vf addr)
  qed
  moreover have "distinct (map fd_Validator (export_feeders ?A ?es))"
  proof -
    have "inj_on (\<lambda>k. ValAddress_String ?A (?addr k)) (set (map fst ?es))"
    proof (rule inj_onI)
      fix k k' assume "k \<in> set (map fst ?es)" "k' \<in> set (map fst ?es)"
        and eq: "ValAddress_String ?A (?addr k) = ValAddress_String ?A (?addr k')"
      then obtain f f' where kf: "(k, f) \<in> set ?es" "(k', f') \<in> set ?es" by auto
      then obtain a a' where "k = ValoperToFeederKey a" "k' = ValoperToFeederKey a'" "valid_addr a" "valid_addr a'"
        using ent [OF kf(1)] ent [OF kf(2)] by blast
      then show "k = k'" using eq val_addr_roundtrip [OF sdk_addr [OF L]] by (metis addr outcome.inject(1))
    qed
    then have "distinct (map (\<lambda>k. ValAddress_String ?A (?addr k)) (map fst ?es))"
      using prefix_entries_distinct by (simp only: distinct_map)
    then show ?thesis by (simp add: exp comp_def case_prod_beta)
  qed
  ultimately show thesis using that scan by blast
qed

lemma ExportGenesis_eq:
  assumes L: "sdk_laws L view" and inv: "oracle_inv L view c"
    and S: "os_params (oracle_of L view c) = p" "\<And>ap. os_prices (oracle_of L view c) (ap_Pair ap) = Some ap \<longleftrightarrow> ap \<in> set prices"
      "\<And>v f. os_feeder (oracle_of L view c) v = Some f \<longleftrightarrow> (v, f) \<in> set vfs"
    and sorted: "sorted_wrt (<) (map ap_Pair prices)" "sorted_wrt (<) (map (\<lambda>vf. ValAddress_String (env_addr L) (fst vf)) vfs)"
  shows "ExportGenesis L c = Ok (genesis_of L p prices vfs)"
proof (rule price_scan [OF L inv])
  fix es aps
  assume scan: "store_scan L StoreKey KeyPrefixAggregatedPrice c = Ok es"
    and dec: "map (\<lambda>kv. AggregatedPrice_Unmarshal (env_time L) (snd kv)) es = map Ok aps"
    and mem: "\<And>ap. ap \<in> set aps \<longleftrightarrow> os_prices (oracle_of L view c) (ap_Pair ap) = Some ap" and aps: "sorted_wrt (<) (map ap_Pair aps)"
  have "omap (\<lambda>kv. must (AggregatedPrice_Unmarshal (env_time L) (snd kv))) es = Ok aps"
    using dec
  proof (induction es arbitrary: aps)
    case (Cons e es)
    then show ?case by (cases aps) auto
  qed simp
  moreover have "sort_slice (\<lambda>a b. ap_Pair a < ap_Pair b) aps = prices"
    using aps sorted(1) mem S(2) by (intro sort_slice_unique [where f = ap_Pair]) (auto simp: strict_sorted_iff)
  moreover obtain fes where fscan: "store_scan L StoreKey KeyPrefixValoperToFeeder c = Ok fes"
    and fset: "set (export_feeders (env_addr L) fes) = delegation (env_addr L) ` {(v, f). os_feeder (oracle_of L view c) v = Some f}"
    and fdist: "distinct (map fd_Validator (export_feeders (env_addr L) fes))"
    by (rule feeder_scan [OF L inv])
  have "sort_slice (\<lambda>a b. fd_Validator a < fd_Validator b) (export_feeders (env_addr L) fes) = map (delegation (env_addr L)) vfs"
    using fdist sorted(2) by (intro sort_slice_unique [where f = fd_Validator]) (auto simp: fset S(3) comp_def)
  ultimately show ?thesis
    by (simp add: ExportGenesis_def GetParams_eq(1) [OF L inv] S(1) scan fscan genesis_of_def)
qed

lemma genesis_roundtrip:
  assumes L: "sdk_laws L view" and new: "store_view view StoreKey c = Map.empty" and ok: "genesis_ok L c p prices vfs"
  shows "\<exists>c'. InitGenesis L (genesis_of L p prices vfs) c = Ok c' \<and> oracle_inv L view c' \<and>
    ExportGenesis L c' = Ok (genesis_of L p prices vfs)"
proof -
  obtain c' where c': "InitGenesis L (genesis_of L p prices vfs) c = Ok c'"
      "oracle_step L view c c' (empty_oracle\<lparr>os_params := p, os_prices := map_of (map (\<lambda>ap. (ap_Pair ap, ap)) prices),
        os_valoper := map_of (map prod.swap vfs), os_feeder := map_of vfs\<rparr>)"
    using InitGenesis_eq [OF assms] by blast
  have sorted: "sorted_wrt (<) (map ap_Pair prices)" "sorted_wrt (<) (map (\<lambda>vf. ValAddress_String (env_addr L) (fst vf)) vfs)"
    and dist: "distinct (map fst vfs)"
    using ok by (simp_all add: genesis_ok_def delegations_ok_def)
  have dp: "distinct (map fst (map (\<lambda>ap. (ap_Pair ap, ap)) prices))" using sorted(1) by (simp add: comp_def strict_sorted_iff)
  have "map_of (map (\<lambda>ap. (ap_Pair ap, ap)) prices) (ap_Pair ap) = Some ap \<longleftrightarrow> ap \<in> set prices" for ap
    using map_of_eq_Some_iff [OF dp] by auto
  moreover have "map_of vfs v = Some f \<longleftrightarrow> (v, f) \<in> set vfs" for v f by (rule map_of_eq_Some_iff [OF dist])
  ultimately have "ExportGenesis L c' = Ok (genesis_of L p prices vfs)"
    using sorted by (intro ExportGenesis_eq [OF L step_inv [OF c'(2)]]) (simp_all add: step_state [OF c'(2)])
  then show ?thesis using c' step_inv by blast
qed

end
