(* ===== verification/Oracle_Chain.thy ===== *)
theory Oracle_Chain
  imports Oracle_Server
begin

text \<open>
  The oracle over the life of a chain: the states it can reach from a genesis by its
  messages and end blocks, what holds in all of them, and the properties of the module
  as a whole, each with an instance on a chain of three validators.
\<close>

section \<open>Reachable states\<close>

text \<open>
  A run of the module. Between its own transitions the block may advance and other modules
  may do anything to the rest of the state. The messages are of a size a transaction can
  have, and the prices below \<open>2^255\<close> units, about \<open>5.8 * 10^58\<close>.
\<close>

inductive oracle_reach :: "('s, 'x) env \<Rightarrow> ('s \<Rightarrow> bytes \<rightharpoonup> bytes) \<Rightarrow> ('s, 'x) ctx \<Rightarrow> bool"
  for L :: "('s, 'x) env" and view :: "'s \<Rightarrow> bytes \<rightharpoonup> bytes" where
  genesis: "store_view view StoreKey c = Map.empty \<Longrightarrow> block_ok c \<Longrightarrow> genesis_ok L c p prices vfs \<Longrightarrow>
    InitGenesis L (genesis_of L p prices vfs) c = Ok c' \<Longrightarrow> oracle_reach L view c'"
| set_feeder: "oracle_reach L view c \<Longrightarrow> SetFeeder L msf c = Ok c' \<Longrightarrow> oracle_reach L view c'"
| submit_feed: "oracle_reach L view c \<Longrightarrow> feed_msg_small msb \<Longrightarrow> price_of (env_math L) (msb_Price msb) < 2 ^ 255 \<Longrightarrow>
    SubmitFeed L msb c = Ok c' \<Longrightarrow> oracle_reach L view c'"
| update_params: "oracle_reach L view c \<Longrightarrow> params_msg_small mup \<Longrightarrow> UpdateParams L mup c = Ok c' \<Longrightarrow> oracle_reach L view c'"
| end_block: "oracle_reach L view c \<Longrightarrow> staking_state (env_keepers L) (ext c) t \<Longrightarrow> EndBlocker L c = Ok c' \<Longrightarrow>
    oracle_reach L view c'"
| others: "oracle_reach L view c \<Longrightarrow> block_ok c' \<Longrightarrow> multistore c' StoreKey = multistore c StoreKey \<Longrightarrow> oracle_reach L view c'"

definition oracle_good :: "('s, 'x) env \<Rightarrow> ('s \<Rightarrow> bytes \<rightharpoonup> bytes) \<Rightarrow> ('s, 'x) ctx \<Rightarrow> bool" where
  "oracle_good L view c \<longleftrightarrow> oracle_inv L view c \<and> windows_open (oracle_of L view c) \<and>
     feeds_bounded L (oracle_of L view c) \<and> block_ok c"

lemma good_step:
  assumes "oracle_good L view c" and "block_step L view c c' S" and "windows_open S" and "feeds_bounded L S"
  shows "oracle_good L view c'"
  using assms by (simp add: oracle_good_def block_inv [OF assms(2)] block_state [OF assms(2)] block_block_ok [OF assms(2)])

lemma EndBlocker_off:
  assumes L: "sdk_laws L view" and inv: "oracle_inv L view c" and off: "\<not> at_window_end (oracle_of L view c) c"
  shows "EndBlocker L c = Ok c"
proof -
  have "op_VoteWindow (os_params (oracle_of L view c)) \<noteq> 0"
    using params_ok_fields [OF sdk_math [OF L] GetParams_eq(2) [OF L inv]] by (metis less_irrefl)
  then show ?thesis
    using off by (auto simp: EndBlocker_def GetParams_eq(1) [OF L inv] at_window_end_def go_mod_def)
qed

lemma EndBlocker_good:
  assumes L: "sdk_laws L view" and B: "slash_laws (env_keepers L)" and good: "oracle_good L view c"
    and st: "staking_state (env_keepers L) (ext c) t" and c': "EndBlocker L c = Ok c'"
  shows "oracle_good L view c'"
proof (cases "at_window_end (oracle_of L view c) c")
  case True
  have inv: "oracle_inv L view c" using good by (simp add: oracle_good_def)
  obtain vals where vals: "GetBondedValidatorsByPower (env_keepers L) (ext c) = Ok vals"
    using c' True by (auto simp: EndBlocker_def GetParams_eq(1) [OF L inv] at_window_end_def obind_eq_Ok)
  obtain c'' where "EndBlocker L c = Ok c''" "windows_open (oracle_of L view c'')"
      "block_step L view c c'' (window_end L c t vals (pair_votes L view c vals) (oracle_of L view c))"
    using EndBlocker_window [OF L B inv _ st _ _ vals True] good by (auto simp: oracle_good_def)
  with c' have step: "block_step L view c c' (window_end L c t vals (pair_votes L view c vals) (oracle_of L view c))"
    and op: "windows_open (oracle_of L view c')" by simp_all
  have "feeds_bounded L (window_end L c t vals (pair_votes L view c vals) (oracle_of L view c))"
    by (simp add: feeds_bounded_def window_end_def Let_def)
  then show ?thesis using good_step [OF good step] op by (simp add: block_state [OF step])
next
  case False
  then show ?thesis using EndBlocker_off [OF L _ False] c' good by (auto simp: oracle_good_def)
qed

lemma SetFeeder_good:
  assumes L: "sdk_laws L view" and good: "oracle_good L view c" and c': "SetFeeder L m c = Ok c'"
  shows "oracle_good L view c'"
proof -
  from c' obtain val feeder where "ValAddressFromBech32 (env_addr L) (msf_Validator m) = Ok val"
      "AccAddressFromBech32 (env_addr L) (msf_Feeder m) = Ok feeder" by (auto simp: SetFeeder_code)
  from SetFeeder_iff(2) [OF L _ this c']
  have step: "block_step L view c c' ((oracle_of L view c)\<lparr>os_valoper := (os_valoper (oracle_of L view c))(feeder \<mapsto> val),
      os_feeder := (os_feeder (oracle_of L view c))(val \<mapsto> feeder)\<rparr>)"
    using good by (simp add: oracle_good_def)
  show ?thesis
    by (rule good_step [OF good step]) (use good in \<open>simp_all add: oracle_good_def windows_open_def feeds_bounded_def\<close>)
qed

lemma SubmitFeed_good:
  assumes L: "sdk_laws L view" and good: "oracle_good L view c" and small: "feed_msg_small m"
    and bound: "price_of (env_math L) (msb_Price m) < 2 ^ 255" and c': "SubmitFeed L m c = Ok c'"
  shows "oracle_good L view c'"
proof -
  have inv: "oracle_inv L view c" "block_ok c" using good by (simp_all add: oracle_good_def)
  from c' obtain val where val: "ValAddressFromBech32 (env_addr L) (msb_Validator m) = Ok val"
    using SubmitFeed_iff(1) [OF L inv(1) small inv(2)] by (auto simp: is_ok_iff)
  note step = SubmitFeed_iff(2) [OF L inv(1) small inv(2) c' val, THEN conjunct1]
  show ?thesis
    by (rule good_step [OF good step])
      (use good bound in \<open>auto simp: oracle_good_def windows_open_def feeds_bounded_def feed_of_msg_def\<close>)
qed

lemma UpdateParams_good:
  assumes L: "sdk_laws L view" and good: "oracle_good L view c" and small: "params_msg_small m" and c': "UpdateParams L m c = Ok c'"
  shows "oracle_good L view c'"
proof -
  have inv: "oracle_inv L view c" using good by (simp add: oracle_good_def)
  have "windows_open (params_updated p S) \<and> feeds_bounded L (params_updated p S)" if "windows_open S" "feeds_bounded L S" for p S
    using that by (simp add: params_updated_def windows_open_def feeds_bounded_def counts_def)
  then show ?thesis
    using UpdateParams_iff(2) [OF L inv small c'] good good_step [OF good] by (auto simp: oracle_good_def)
qed

lemma InitGenesis_good:
  assumes L: "sdk_laws L view" and new: "store_view view StoreKey c = Map.empty" and blk: "block_ok c"
    and ok: "genesis_ok L c p prices vfs" and c': "InitGenesis L (genesis_of L p prices vfs) c = Ok c'"
  shows "oracle_good L view c'"
proof -
  have step: "oracle_step L view c c' (empty_oracle\<lparr>os_params := p, os_prices := map_of (map (\<lambda>ap. (ap_Pair ap, ap)) prices),
      os_valoper := map_of (map prod.swap vfs), os_feeder := map_of vfs\<rparr>)"
    using InitGenesis_eq [OF L new ok] c' by auto
  have "oracle_good L view c"
    using oracle_empty [OF new] blk by (simp add: oracle_good_def windows_open_def feeds_bounded_def empty_oracle_def counts_def)
  then show ?thesis
    by (rule good_step [OF _ block_oracle [OF step]]) (simp_all add: windows_open_def feeds_bounded_def empty_oracle_def counts_def)
qed

lemma reach_good:
  assumes L: "sdk_laws L view" and B: "slash_laws (env_keepers L)" and "oracle_reach L view c"
  shows "oracle_good L view c"
  using assms(3)
proof (induction rule: oracle_reach.induct)
  case (others c c')
  have "store_view view StoreKey c' = store_view view StoreKey c" using others.hyps(3) by (simp add: store_view_def OpenKVStore_def)
  then show ?case using others by (simp add: oracle_good_def oracle_inv_def oracle_of_def)
qed (blast intro: InitGenesis_good SetFeeder_good SubmitFeed_good UpdateParams_good EndBlocker_good L B)+

section \<open>A chain of three validators\<close>

lemma ref_power_sum:
  assumes "\<forall>p\<in>set ps. 0 \<le> snd p" and "distinct as"
  shows "sum_list (map (\<lambda>a. case map_of ps a of Some p \<Rightarrow> p | None \<Rightarrow> 0) as) \<le> sum_list (map snd (ps :: (addr \<times> int) list))"
  using assms
proof (induction ps)
  case (Cons kp ps)
  obtain k p where kp: "kp = (k, p)" by (cases kp)
  let ?f = "\<lambda>a. case map_of ps a of Some p \<Rightarrow> p | None \<Rightarrow> 0"
  let ?g = "\<lambda>a. case map_of (kp # ps) a of Some p \<Rightarrow> p | None \<Rightarrow> 0"
  have p: "0 \<le> p" using Cons.prems(1) by (simp add: kp)
  have f: "0 \<le> ?f a" for a
    using Cons.prems(1) by (auto split: option.split dest!: map_of_SomeD)
  have "?g a \<le> (if a = k then p else 0) + ?f a" for a using f [of a] by (auto simp: kp)
  then have "sum_list (map ?g as) \<le> sum_list (map (\<lambda>a. (if a = k then p else 0) + ?f a) as)"
    by (rule sum_list_mono)
  also have "\<dots> = sum_list (map (\<lambda>a. if a = k then p else 0) as) + sum_list (map ?f as)" by (rule sum_list_addf)
  also have "sum_list (map (\<lambda>a. if a = k then p else 0) as) \<le> p"
    using Cons.prems(2) p by (simp add: sum_list_distinct_conv_sum_set)
  finally show ?case using Cons.IH Cons.prems by (simp add: kp)
qed simp

lemma ref_staking_state:
  assumes "\<forall>p\<in>set (rc_powers x). 0 \<le> snd p" and "sum_list (map snd (rc_powers x)) < 2 ^ 63"
  shows "staking_state ref_keepers x (sum_list (map snd (rc_powers x)))"
proof -
  have "power_of ref_keepers x = (\<lambda>a. case map_of (rc_powers x) a of Some p \<Rightarrow> p | None \<Rightarrow> 0)"
    by (rule ext) (simp add: power_of_def ref_keepers_def)
  moreover have "0 \<le> (case map_of (rc_powers x) a of Some p \<Rightarrow> p | None \<Rightarrow> 0)" for a
    using assms(1) by (auto split: option.split dest!: map_of_SomeD)
  ultimately show ?thesis
    using assms ref_power_sum [of "rc_powers x"] by (simp add: staking_state_def, simp add: ref_keepers_def)
qed

definition sample_validator :: "string \<Rightarrow> validator" where
  "sample_validator a = \<lparr>OperatorAddress = ''vtxvaloper1'' @ a, val_Status = Bonded, ConsensusPubkey = a\<rparr>"

definition sample_chain :: ref_chain where
  "sample_chain = \<lparr>rc_coins = [(ref_module ''bonded_tokens_pool'', ''uvtx'', 1000)],
     rc_validators = map sample_validator [''A'', ''B'', ''C''], rc_powers = [(''A'', 5), (''B'', 4), (''C'', 3)]\<rparr>"

definition sample_msg :: "string \<Rightarrow> string \<Rightarrow> MsgSubmitFeed" where
  "sample_msg a price = \<lparr>msb_Feeder = ''vtx1'' @ a, msb_Validator = ''vtxvaloper1'' @ a, msb_Pair = ''VTX:USD'', msb_Price = price\<rparr>"

definition sample_feed :: "string \<Rightarrow> string \<Rightarrow> OracleFeed" where
  "sample_feed a price = \<lparr>feed_Validator = ''vtxvaloper1'' @ a, feed_Pair = ''VTX:USD'', feed_Price = price, feed_BlockHeight = 10\<rparr>"

abbreviation sample_vals :: "validator list" where
  "sample_vals \<equiv> map sample_validator [''A'', ''B'', ''C'']"

lemma sample_staking: "staking_state ref_keepers sample_chain 12"
  using ref_staking_state [of sample_chain] by (simp add: sample_chain_def)

lemma sample_powers: "power_of ref_keepers sample_chain ''A'' = 5" "power_of ref_keepers sample_chain ''B'' = 4"
  "power_of ref_keepers sample_chain ''C'' = 3"
  by (simp_all add: power_of_def ref_keepers_def sample_chain_def)

lemma sample_bonded: "GetBondedValidatorsByPower ref_keepers sample_chain = Ok sample_vals"
  by (simp add: ref_keepers_def sample_chain_def sample_validator_def)

text \<open>A context of the sample chain in which the oracle's store represents \<open>S\<close>.\<close>

definition sample_at :: "oracle_state \<Rightarrow> (ref_store, ref_chain) ctx \<Rightarrow> bool" where
  "sample_at S c \<longleftrightarrow> oracle_inv ref_env ref_view c \<and> oracle_of ref_env ref_view c = S \<and> ext c = sample_chain \<and>
     BlockHeight c = 10 \<and> BlockTime c = ref_now"

lemma sample_atD:
  assumes "sample_at S c"
  shows sample_inv: "oracle_inv ref_env ref_view c" and sample_of: "oracle_of ref_env ref_view c = S"
    and sample_ext: "ext c = sample_chain" and sample_height: "BlockHeight c = 10" and sample_time: "BlockTime c = ref_now"
    and sample_block: "block_ok c"
  using assms by (simp_all add: sample_at_def block_ok_def is_i64_def ref_now_def Second_def)

lemma sample_ref: "sample_at empty_oracle (ref_ctx sample_chain)"
  using oracle_empty [OF ref_ctx_store [of StoreKey sample_chain], of ref_env] by (simp add: sample_at_def)

lemma sample_step: "sample_at S c \<Longrightarrow> oracle_step ref_env ref_view c c' S' \<Longrightarrow> sample_at S' c'"
  using frame_fields [of StoreKey c c'] by (simp add: sample_at_def oracle_step_def)

lemma sample_submit:
  assumes c: "sample_at S c" and S: "os_params S = DefaultParams" "os_feeder S = Map.empty"
    and a: "a \<in> {''A'', ''B'', ''C''}" and price: "price_ok ref_math price" "short price"
  shows "\<exists>c'. SubmitFeed ref_env (sample_msg a price) c = Ok c' \<and>
    sample_at (S\<lparr>os_feeds := (os_feeds S)((a, ''VTX:USD'') \<mapsto> sample_feed a price)\<rparr>) c'"
proof -
  let ?m = "sample_msg a price"
  have val: "ValAddressFromBech32 ref_addr (msb_Validator ?m) = Ok a" "AccAddressFromBech32 ref_addr (msb_Feeder ?m) = Ok a"
    using a by (auto simp: ref_addr_def ref_from_bech32_def sample_msg_def valid_addr_def)
  have small: "feed_msg_small ?m" using a price by (auto simp: feed_msg_small_def sample_msg_def short_def)
  have "may_report ref_env sample_chain a"
    using a sample_powers by (auto simp: may_report_def, auto simp: ref_keepers_def sample_chain_def sample_validator_def)
  then have "is_ok (SubmitFeed ref_env ?m c)"
    using SubmitFeed_iff(1) [OF ref_sdk_laws sample_inv [OF c] small sample_block [OF c]] val price(1)
    by (simp add: sample_of [OF c] sample_ext [OF c] S feeder_for_def sample_msg_def DefaultParams_def)
  then obtain c' where c': "SubmitFeed ref_env ?m c = Ok c'" by (auto simp: is_ok_iff)
  have "block_step ref_env ref_view c c' (S\<lparr>os_feeds := (os_feeds S)((a, ''VTX:USD'') \<mapsto> sample_feed a price)\<rparr>) \<and> ext c' = ext c"
    using SubmitFeed_iff(2) [OF ref_sdk_laws sample_inv [OF c] small sample_block [OF c] c'] val(1)
    by (simp add: sample_of [OF c] sample_height [OF c] sample_msg_def sample_feed_def feed_of_msg_def)
  then have "sample_at (S\<lparr>os_feeds := (os_feeds S)((a, ''VTX:USD'') \<mapsto> sample_feed a price)\<rparr>) c'"
    using c by (auto simp: sample_at_def block_step_def)
  with c' show ?thesis by blast
qed

text \<open>Each of the three validators has reported its price for the first pair.\<close>

definition sample_reports :: "string \<Rightarrow> string \<Rightarrow> string \<Rightarrow> oracle_state" where
  "sample_reports pa pb pc = empty_oracle\<lparr>os_feeds := [(''A'', ''VTX:USD'') \<mapsto> sample_feed ''A'' pa,
     (''B'', ''VTX:USD'') \<mapsto> sample_feed ''B'' pb, (''C'', ''VTX:USD'') \<mapsto> sample_feed ''C'' pc]\<rparr>"

lemma sample_round:
  assumes c: "sample_at empty_oracle c" and price: "price_ok ref_math pa" "price_ok ref_math pb" "price_ok ref_math pc"
    and short: "short pa" "short pb" "short pc"
  obtains c1 c2 c3 where "SubmitFeed ref_env (sample_msg ''A'' pa) c = Ok c1" and "SubmitFeed ref_env (sample_msg ''B'' pb) c1 = Ok c2"
    and "SubmitFeed ref_env (sample_msg ''C'' pc) c2 = Ok c3" and "sample_at (sample_reports pa pb pc) c3"
proof -
  obtain c1 where c1: "SubmitFeed ref_env (sample_msg ''A'' pa) c = Ok c1"
      "sample_at (empty_oracle\<lparr>os_feeds := [(''A'', ''VTX:USD'') \<mapsto> sample_feed ''A'' pa]\<rparr>) c1"
    using sample_submit [OF c _ _ _ price(1) short(1), of "''A''"] by (auto simp: empty_oracle_def)
  obtain c2 where c2: "SubmitFeed ref_env (sample_msg ''B'' pb) c1 = Ok c2"
      "sample_at (empty_oracle\<lparr>os_feeds := [(''A'', ''VTX:USD'') \<mapsto> sample_feed ''A'' pa, (''B'', ''VTX:USD'') \<mapsto> sample_feed ''B'' pb]\<rparr>) c2"
    using sample_submit [OF c1(2) _ _ _ price(2) short(2), of "''B''"] by (auto simp: empty_oracle_def)
  obtain c3 where c3: "SubmitFeed ref_env (sample_msg ''C'' pc) c2 = Ok c3" "sample_at (sample_reports pa pb pc) c3"
    using sample_submit [OF c2(2) _ _ _ price(3) short(3), of "''C''"] by (auto simp: empty_oracle_def sample_reports_def)
  show thesis using that c1 c2 c3 by blast
qed

definition sample_votes :: "string \<Rightarrow> string \<Rightarrow> string \<Rightarrow> WeightedPrice list" where
  "sample_votes pa pb pc =
     [\<lparr>wp_Price = price_of ref_math pa, wp_Weight = 5, wp_Valoper = ''vtxvaloper1A''\<rparr>,
      \<lparr>wp_Price = price_of ref_math pb, wp_Weight = 4, wp_Valoper = ''vtxvaloper1B''\<rparr>,
      \<lparr>wp_Price = price_of ref_math pc, wp_Weight = 3, wp_Valoper = ''vtxvaloper1C''\<rparr>]"

lemma sample_stored:
  assumes c: "sample_at (sample_reports pa pb pc) c"
  shows "stored_feeds (store_view ref_view StoreKey c) =
    [((''A'', ''VTX:USD''), sample_feed ''A'' pa), ((''B'', ''VTX:USD''), sample_feed ''B'' pb), ((''C'', ''VTX:USD''), sample_feed ''C'' pc)]"
    (is "_ = ?fs")
proof (rule sorted_by_unique [where f = "\<lambda>e. feed_key (fst e)"])
  show "set (stored_feeds (store_view ref_view StoreKey c)) = set ?fs"
  proof (rule set_eqI)
    fix e :: "(addr \<times> string) \<times> OracleFeed"
    obtain val p f where e: "e = ((val, p), f)" by (metis prod.collapse)
    show "e \<in> set (stored_feeds (store_view ref_view StoreKey c)) \<longleftrightarrow> e \<in> set ?fs"
      unfolding e stored_feeds_iff [OF ref_sdk_laws sample_inv [OF c]] sample_of [OF c] sample_reports_def by auto
  qed
  show "sorted_wrt (<) (map (\<lambda>e. feed_key (fst e)) (stored_feeds (store_view ref_view StoreKey c)))"
    by (rule stored_feeds_sorted [OF ref_sdk_laws sample_inv [OF c]])
  show "sorted_wrt (<) (map (\<lambda>e. feed_key (fst e)) ?fs)"
    by (simp add: feed_key_def less_char_def)
qed

lemma sample_other_votes:
  "sample_at (sample_reports pa pb pc) c \<Longrightarrow> pair \<noteq> ''VTX:USD'' \<Longrightarrow> pair_votes ref_env ref_view c sample_vals pair = []"
  by (simp add: pair_votes_def votes_def sample_stored counted_def)

lemma sample_pair_votes:
  assumes c: "sample_at (sample_reports pa pb pc) c" and price: "price_ok ref_math pa" "price_ok ref_math pb" "price_ok ref_math pc"
  shows "pair_votes ref_env ref_view c sample_vals ''VTX:USD'' = sample_votes pa pb pc"
proof -
  show ?thesis
    using price sample_stored [OF c]
    by (simp add: pair_votes_def votes_def counted_def vote_of_def sample_ext [OF c] sample_powers sample_votes_def
        validators_by_operator_def sample_validator_def sample_feed_def ref_addr_def)
qed

lemma sample_prices:
  "LegacyNewDecFromStr ref_math ''1.00'' = Ok (10 ^ 18)" "LegacyNewDecFromStr ref_math ''1.02'' = Ok (102 * 10 ^ 16)"
  "LegacyNewDecFromStr ref_math ''9.00'' = Ok (9 * 10 ^ 18)"
  using dec_literal [OF ref_math_laws, of "''1''" "''00''"] dec_literal [OF ref_math_laws, of "''1''" "''02''"]
    dec_literal [OF ref_math_laws, of "''9''" "''00''"]
  by (simp_all add: is_digit_def digits_val_def byte_val_def dec_unit_def)

section \<open>The properties of the module\<close>

lemma sample_price_ok: "price_ok ref_math ''1.00''" "price_ok ref_math ''1.02''" "price_ok ref_math ''9.00''"
  "price_of ref_math ''1.00'' = 10 ^ 18" "price_of ref_math ''1.02'' = 102 * 10 ^ 16" "price_of ref_math ''9.00'' = 9 * 10 ^ 18"
  by (simp_all add: price_ok_def price_of_def sample_prices)

lemma sample_short: "short ''1.00''" "short ''1.02''" "short ''9.00''"
  by (simp_all add: short_def)

lemma sample_genesis:
  obtains c where "oracle_reach ref_env ref_view c" and "sample_at empty_oracle c"
proof -
  have "genesis_ok ref_env (ref_ctx sample_chain) DefaultParams [] []"
    by (simp add: genesis_ok_def delegations_ok_def DefaultParams_ok [OF ref_math_laws])
  moreover from this obtain c where c: "InitGenesis ref_env (genesis_of ref_env DefaultParams [] []) (ref_ctx sample_chain) = Ok c"
      "oracle_step ref_env ref_view (ref_ctx sample_chain) c empty_oracle"
    using InitGenesis_eq [OF ref_sdk_laws ref_ctx_store] by (fastforce simp: empty_oracle_def)
  ultimately show thesis
    using that sample_step [OF sample_ref c(2)] oracle_reach.genesis [OF ref_ctx_store sample_block [OF sample_ref] _ c(1)] by blast
qed

lemma sample_reached:
  obtains c where "oracle_reach ref_env ref_view c" and "sample_at (sample_reports ''1.00'' ''1.02'' ''9.00'') c"
proof -
  obtain c0 where c0: "oracle_reach ref_env ref_view c0" "sample_at empty_oracle c0" by (rule sample_genesis)
  obtain c1 c2 c3 where c: "SubmitFeed ref_env (sample_msg ''A'' ''1.00'') c0 = Ok c1" "SubmitFeed ref_env (sample_msg ''B'' ''1.02'') c1 = Ok c2"
      "SubmitFeed ref_env (sample_msg ''C'' ''9.00'') c2 = Ok c3" "sample_at (sample_reports ''1.00'' ''1.02'' ''9.00'') c3"
    by (rule sample_round [OF c0(2) sample_price_ok(1-3) sample_short])
  have small: "feed_msg_small (sample_msg a p)" if "a \<in> {''A'', ''B'', ''C''}" "short p" for a p
    using that by (auto simp: feed_msg_small_def sample_msg_def short_def)
  have price: "msb_Price (sample_msg a p) = p" for a p by (simp add: sample_msg_def)
  have "oracle_reach ref_env ref_view c3"
    using oracle_reach.submit_feed [OF oracle_reach.submit_feed [OF oracle_reach.submit_feed [OF c0(1) small _ c(1)] small _ c(2)] small _ c(3)]
    by (simp add: price sample_price_ok sample_short)
  then show thesis using that c(4) by blast
qed

lemma sample_due: "os_params S = DefaultParams \<Longrightarrow> sample_at S c \<Longrightarrow> at_window_end S c"
  by (simp add: at_window_end_def sample_height DefaultParams_def go_mod_def smod_nonneg)

lemma sample_reports_params: "os_params (sample_reports pa pb pc) = DefaultParams"
  by (simp add: sample_reports_def empty_oracle_def)

text \<open>
  C4. In every state reachable from a genesis by the messages, the end blocks and
  whatever other modules do, the store's invariant holds: each entry decodes to a
  record that belongs under its key, prices are positive, parameters are valid, no
  validator has missed more windows than were counted, no counter is near overflow.
\<close>

theorem reachable_states_are_good:
  assumes "sdk_laws L view" and "slash_laws (env_keepers L)" and "oracle_reach L view c"
  shows "oracle_inv L view c \<and> windows_open (oracle_of L view c)"
  using reach_good [OF assms] by (simp add: oracle_good_def)

theorem reachable_states_are_good_witness:
  "\<exists>c. oracle_reach ref_env ref_view c \<and> os_feeds (oracle_of ref_env ref_view c) \<noteq> Map.empty \<and>
     oracle_inv ref_env ref_view c \<and> windows_open (oracle_of ref_env ref_view c)"
proof (rule sample_reached)
  fix c assume c: "oracle_reach ref_env ref_view c" "sample_at (sample_reports ''1.00'' ''1.02'' ''9.00'') c"
  have "oracle_inv ref_env ref_view c \<and> windows_open (oracle_of ref_env ref_view c)"
    by (rule reachable_states_are_good [OF ref_sdk_laws _ c(1)]) (simp add: ref_slash_laws)
  then show ?thesis using c by (auto simp: sample_of [OF c(2)] sample_reports_def)
qed




text \<open>
  C19. A message is accepted exactly when its sender is the validator's feeder (the
  validator itself while it has none), the pair is accepted, the price is a positive
  decimal and the validator is bonded with power. Then exactly that feed is stored.
\<close>

theorem SubmitFeed_authorized:
  assumes "sdk_laws L view" and "oracle_inv L view c" and "feed_msg_small m" and "block_ok c"
    and "ValAddressFromBech32 (env_addr L) (msb_Validator m) = Ok val"
  shows "(is_ok (SubmitFeed L m c) \<longleftrightarrow>
      AccAddressFromBech32 (env_addr L) (msb_Feeder m) = Ok (feeder_for (oracle_of L view c) val) \<and>
      msb_Pair m \<in> set (op_AcceptList (os_params (oracle_of L view c))) \<and>
      price_ok (env_math L) (msb_Price m) \<and> may_report L (ext c) val) \<and>
    (\<forall>c'. SubmitFeed L m c = Ok c' \<longrightarrow> ext c' = ext c \<and> oracle_inv L view c' \<and>
      oracle_of L view c' = (oracle_of L view c)\<lparr>os_feeds :=
        (os_feeds (oracle_of L view c))((val, msb_Pair m) \<mapsto> feed_of_msg c m)\<rparr>)"
  using SubmitFeed_iff(1) [OF assms(1-4)] SubmitFeed_iff(2) [OF assms(1-4) _ assms(5)] assms(5)
  by (auto simp: block_step_def)

theorem SubmitFeed_authorized_witness:
  "\<exists>c. is_ok (SubmitFeed ref_env (sample_msg ''A'' ''1.00'') c) \<and>
     \<not> is_ok (SubmitFeed ref_env ((sample_msg ''A'' ''1.00'')\<lparr>msb_Feeder := ''vtx1B''\<rparr>) c)"
proof (rule sample_genesis)
  fix c assume c: "sample_at empty_oracle c"
  let ?m = "sample_msg ''A'' ''1.00''" and ?m' = "(sample_msg ''A'' ''1.00'')\<lparr>msb_Feeder := ''vtx1B''\<rparr>"
  have "feed_msg_small ?m" "feed_msg_small ?m'" by (simp_all add: feed_msg_small_def sample_msg_def short_def)
  moreover have "ValAddressFromBech32 (env_addr ref_env) (msb_Validator ?m) = Ok ''A''"
      "ValAddressFromBech32 (env_addr ref_env) (msb_Validator ?m') = Ok ''A''"
    by (simp_all add: ref_addr_def ref_from_bech32_def sample_msg_def valid_addr_def)
  ultimately have "is_ok (SubmitFeed ref_env ?m c) \<longleftrightarrow>
        AccAddressFromBech32 (env_addr ref_env) (msb_Feeder ?m) = Ok (feeder_for empty_oracle ''A'') \<and>
        msb_Pair ?m \<in> set (op_AcceptList (os_params empty_oracle)) \<and> price_ok (env_math ref_env) (msb_Price ?m) \<and> may_report ref_env sample_chain ''A''"
      "is_ok (SubmitFeed ref_env ?m' c) \<Longrightarrow> AccAddressFromBech32 (env_addr ref_env) (msb_Feeder ?m') = Ok (feeder_for empty_oracle ''A'')"
    using SubmitFeed_authorized [OF ref_sdk_laws sample_inv [OF c] _ sample_block [OF c], of ?m "''A''"]
      SubmitFeed_authorized [OF ref_sdk_laws sample_inv [OF c] _ sample_block [OF c], of ?m' "''A''"]
    unfolding sample_of [OF c] sample_ext [OF c] by blast+
  then show ?thesis
    using sample_price_ok(1) sample_powers(1)
    by (intro exI [of _ c]) (auto simp: sample_msg_def feeder_for_def empty_oracle_def DefaultParams_def ref_addr_def ref_from_bech32_def
        valid_addr_def may_report_def ref_keepers_def sample_chain_def sample_validator_def power_of_def)
qed

text \<open>
  C26. After a validator has appointed a new feeder, no other account, the previous feeder
  and the validator's own included, can submit a price for it.
\<close>

theorem SetFeeder_replaces_feeder:
  assumes "sdk_laws L view" and "oracle_inv L view c" and "block_ok c"
    and "ValAddressFromBech32 (env_addr L) (msf_Validator m) = Ok val"
    and "AccAddressFromBech32 (env_addr L) (msf_Feeder m) = Ok feeder" and "SetFeeder L m c = Ok c'"
    and "feed_msg_small m'" and "ValAddressFromBech32 (env_addr L) (msb_Validator m') = Ok val"
    and "AccAddressFromBech32 (env_addr L) (msb_Feeder m') \<noteq> Ok feeder"
  shows "\<not> is_ok (SubmitFeed L m' c')"
proof -
  note step = SetFeeder_iff(2) [OF assms(1,2,4,5,6), THEN conjunct1]
  have "feeder_for (oracle_of L view c') val = feeder" by (simp add: block_state [OF step] feeder_for_def)
  moreover have "block_ok c'" using assms(3) by (simp add: block_block_ok [OF step])
  ultimately show ?thesis
    using SubmitFeed_iff(1) [OF assms(1) block_inv [OF step] assms(7)] assms(8,9) by auto
qed

theorem SetFeeder_replaces_feeder_witness:
  "\<exists>c c'. SetFeeder ref_env \<lparr>msf_Validator = ''vtxvaloper1A'', msf_Feeder = ''vtx1F''\<rparr> c = Ok c' \<and>
     is_ok (SubmitFeed ref_env (sample_msg ''A'' ''1.00'') c) \<and> \<not> is_ok (SubmitFeed ref_env (sample_msg ''A'' ''1.00'') c')"
proof -
  let ?m = "\<lparr>msf_Validator = ''vtxvaloper1A'', msf_Feeder = ''vtx1F''\<rparr>" and ?m' = "sample_msg ''A'' ''1.00''"
  have addr: "ValAddressFromBech32 (env_addr ref_env) (msf_Validator ?m) = Ok ''A''" "AccAddressFromBech32 (env_addr ref_env) (msf_Feeder ?m) = Ok ''F''"
      "ValAddressFromBech32 (env_addr ref_env) (msb_Validator ?m') = Ok ''A''" "AccAddressFromBech32 (env_addr ref_env) (msb_Feeder ?m') \<noteq> Ok ''F''"
    by (simp_all add: ref_addr_def ref_from_bech32_def valid_addr_def sample_msg_def)
  have c: "sample_at empty_oracle (ref_ctx sample_chain)" by (rule sample_ref)
  have "may_delegate ref_env sample_chain ''A''"
    by (simp add: may_delegate_def ref_keepers_def sample_chain_def sample_validator_def)
  then have "is_ok (SetFeeder ref_env ?m (ref_ctx sample_chain))"
    using SetFeeder_iff(1) [OF ref_sdk_laws sample_inv [OF c] addr(1,2)] by (simp add: sample_of [OF c] empty_oracle_def)
  then obtain c' where c': "SetFeeder ref_env ?m (ref_ctx sample_chain) = Ok c'" by (auto simp: is_ok_iff)
  have "feed_msg_small ?m'" by (simp add: feed_msg_small_def sample_msg_def short_def)
  from SetFeeder_replaces_feeder [OF ref_sdk_laws sample_inv [OF c] sample_block [OF c] addr(1,2) c' this addr(3,4)]
  have "\<not> is_ok (SubmitFeed ref_env ?m' c')" .
  moreover have "is_ok (SubmitFeed ref_env ?m' (ref_ctx sample_chain))"
    using sample_submit [OF c _ _ _ sample_price_ok(1) sample_short(1), of "''A''"] by (auto simp: empty_oracle_def)
  ultimately show ?thesis using c' by blast
qed

text \<open>
  C2. Refinement: at the end of a vote window the end blocker returns, and what it makes
  of the store is \<open>window_end\<close>: each accepted pair with a quorum gets the weighted median
  of its votes as price and as newest history entry, history older than a day goes, each
  bonded validator's window is counted and its counters reset at the end of its miss
  window, and the feeds are gone. Other stores, the block and the powers stay.
\<close>

theorem EndBlocker_refines_window_end:
  assumes "sdk_laws L view" and "slash_laws (env_keepers L)" and "oracle_inv L view c"
    and "windows_open (oracle_of L view c)" and "staking_state (env_keepers L) (ext c) t" and "block_ok c"
    and "feeds_bounded L (oracle_of L view c)" and "GetBondedValidatorsByPower (env_keepers L) (ext c) = Ok vals"
    and "at_window_end (oracle_of L view c) c"
  shows "\<exists>c'. EndBlocker L c = Ok c' \<and>
    block_step L view c c' (window_end L c t vals (pair_votes L view c vals) (oracle_of L view c))"
  using EndBlocker_window [OF assms] by blast

lemma good_sample:
  assumes c: "sample_at (sample_reports pa pb pc) c"
    and "price_of ref_math pa < 2 ^ 255" "price_of ref_math pb < 2 ^ 255" "price_of ref_math pc < 2 ^ 255"
  shows "oracle_good ref_env ref_view c"
  using assms(2-) sample_inv [OF c] sample_block [OF c]
  by (auto simp: oracle_good_def sample_of [OF c] sample_reports_def empty_oracle_def windows_open_def counts_def feeds_bounded_def
      sample_feed_def)

lemma sample_window:
  obtains c where "sample_at (sample_reports ''1.00'' ''1.02'' ''9.00'') c" and "oracle_good ref_env ref_view c"
    and "staking_state (env_keepers ref_env) (ext c) 12"
    and "GetBondedValidatorsByPower (env_keepers ref_env) (ext c) = Ok sample_vals"
    and "at_window_end (oracle_of ref_env ref_view c) c"
    and "pair_votes ref_env ref_view c sample_vals ''VTX:USD'' = sample_votes ''1.00'' ''1.02'' ''9.00''"
proof (rule sample_reached)
  fix c assume c: "sample_at (sample_reports ''1.00'' ''1.02'' ''9.00'') c"
  show thesis
    using c good_sample [OF c] sample_staking sample_bonded sample_due [OF sample_reports_params c] sample_pair_votes [OF c]
    by (intro that [of c]) (simp_all add: sample_ext [OF c] sample_of [OF c] sample_price_ok)
qed

lemma sample_quorum: "quorum ref_env 12 (667 * 10 ^ 15) (sample_votes pa pb pc)"
  by (simp add: quorum_def sample_votes_def QuorumMet_def ref_math_def is_i64_def ref_round_div_def checked_dec_def dec_fits_def dec_unit_def)

theorem EndBlocker_refines_window_end_witness:
  "\<exists>c c'. EndBlocker ref_env c = Ok c' \<and> os_feeds (oracle_of ref_env ref_view c) \<noteq> Map.empty \<and>
     block_step ref_env ref_view c c' (window_end ref_env c 12 sample_vals (pair_votes ref_env ref_view c sample_vals) (oracle_of ref_env ref_view c))"
proof (rule sample_window)
  fix c assume c: "sample_at (sample_reports ''1.00'' ''1.02'' ''9.00'') c" "oracle_good ref_env ref_view c"
    "staking_state (env_keepers ref_env) (ext c) 12" "GetBondedValidatorsByPower (env_keepers ref_env) (ext c) = Ok sample_vals"
    "at_window_end (oracle_of ref_env ref_view c) c"
  have "slash_laws (env_keepers ref_env)" by (simp add: ref_slash_laws)
  note fin = EndBlocker_refines_window_end [OF ref_sdk_laws this _ _ c(3) _ _ c(4,5)]
  have "os_feeds (oracle_of ref_env ref_view c) \<noteq> Map.empty" by (auto simp: sample_of [OF c(1)] sample_reports_def)
  then show ?thesis using fin c(2) unfolding oracle_good_def by blast
qed











section \<open>Slashing\<close>

lemma judge_validators_quiet:
  assumes L: "sdk_laws L view" and B: "slash_laws (env_keepers L)" and rate: "0 \<le> rate" and thr: "0 < thr"
    and inv: "oracle_inv L view c" and op: "windows_open (oracle_of L view c)"
    and len: "0 < op_MissWindowSize params" "op_MissWindowSize params < 2 ^ 63"
    and good: "\<And>v a. v \<in> set vals \<Longrightarrow> ValAddressFromBech32 (env_addr L) (OperatorAddress v) = Ok a \<Longrightarrow>
      counts (os_miss (oracle_of L view c)) a = 0 \<and> \<not> missed_feed live a (oracle_of L view c)"
    and c': "ofold (judge_validator L params live thr rate) vals c = Ok c'"
  shows "ext c' = ext c"
  using inv op good c'
proof (induction vals arbitrary: c)
  case (Cons v vals)
  let ?S = "oracle_of L view c"
  obtain c1 where c1: "judge_validator L params live thr rate v c = Ok c1" "ofold (judge_validator L params live thr rate) vals c1 = Ok c'"
    using Cons.prems(4) by (auto simp: obind_eq_Ok)
  show ?case
  proof (cases "ValAddressFromBech32 (env_addr L) (OperatorAddress v)")
    case (Ok a)
    have a: "counts (os_miss ?S) a = 0" "\<not> missed_feed live a ?S" using Cons.prems(3) [of v a] Ok by simp_all
    obtain c1' where "judge_validator L params live thr rate v c = Ok c1'"
        "block_step L view c c1' (count_window (op_MissWindowSize params) (missed_feed live a ?S) a ?S)"
        "\<not> missed_too_much thr (op_MissWindowSize params) live a ?S \<longrightarrow> ext c1' = ext c"
      using judge_validator_step [OF L B rate Cons.prems(1,2) len(1) Ok] by blast
    then have step: "block_step L view c c1 (count_window (op_MissWindowSize params) False a ?S)"
      and quiet: "\<not> missed_too_much thr (op_MissWindowSize params) live a ?S \<longrightarrow> ext c1 = ext c" using c1(1) a(2) by simp_all
    have "0 \<le> counts (os_windows ?S) a"
      using counts_range(1,2) [OF L Cons.prems(1) val_addr_valid [OF sdk_addr [OF L] Ok]] by linarith
    then have "0 \<le> thr * (counts (os_windows ?S) a + 1)" using thr by simp
    then have e1: "ext c1 = ext c" using quiet a by (simp add: missed_too_much_def Let_def)
    have miss: "counts (os_miss (count_window (op_MissWindowSize params) False a ?S)) b =
        (if b = a \<and> op_MissWindowSize params \<le> counts (os_windows ?S) a + 1 then 0 else counts (os_miss ?S) b)" for b
      by (simp add: count_window_def Let_def counts_def)
    have "ext c' = ext c1"
    proof (rule Cons.IH [OF block_inv [OF step]])
      show "windows_open (oracle_of L view c1)"
        unfolding block_state [OF step] by (rule windows_open_count [OF Cons.prems(2) len(2)])
      show "counts (os_miss (oracle_of L view c1)) b = 0 \<and> \<not> missed_feed live b (oracle_of L view c1)"
        if "u \<in> set vals" "ValAddressFromBech32 (env_addr L) (OperatorAddress u) = Ok b" for u b
        using Cons.prems(3) [of u b] that by (simp add: block_state [OF step] miss missed_feed_def)
    qed (rule c1(2))
    then show ?thesis using e1 by simp
  next
    case (Err e)
    then have "c1 = c" using c1(1) by (simp add: judge_validator_def)
    then show ?thesis using c1(2) by (intro Cons.IH [OF Cons.prems(1,2) Cons.prems(3) [OF list.set_intros(2)]]) simp_all
  qed (simp add: val_addr_no_panic [OF sdk_addr [OF L]])
qed simp

text \<open>
  C20. Nobody is slashed who does their duty: if every vote is within the outlier threshold
  of the reference median of its pair, and every bonded validator has reported every pair
  that reached a quorum and has no miss on record, the end blocker leaves the state of
  staking and bank as it was.
\<close>

theorem EndBlocker_spares_the_diligent:
  assumes "sdk_laws L view" and "slash_laws (env_keepers L)" and "oracle_good L view c"
    and "staking_state (env_keepers L) (ext c) t" and "GetBondedValidatorsByPower (env_keepers L) (ext c) = Ok vals"
    and "at_window_end (oracle_of L view c) c"
    and "\<And>pair. pair \<in> set (op_AcceptList (os_params (oracle_of L view c))) \<Longrightarrow>
      no_outlier (price_of (env_math L) (op_OutlierThreshold (os_params (oracle_of L view c)))) (pair_votes L view c vals pair)"
    and "\<And>v a. v \<in> set vals \<Longrightarrow> ValAddressFromBech32 (env_addr L) (OperatorAddress v) = Ok a \<Longrightarrow>
      counts (os_miss (oracle_of L view c)) a = 0 \<and>
      \<not> missed_feed (filter (\<lambda>pair. quorum L t (price_of (env_math L) (op_QuorumFraction (os_params (oracle_of L view c)))) (pair_votes L view c vals pair))
        (op_AcceptList (os_params (oracle_of L view c)))) a (oracle_of L view c)"
  shows "\<exists>c'. EndBlocker L c = Ok c' \<and> ext c' = ext c"
proof -
  let ?S = "oracle_of L view c" and ?M = "env_math L" and ?vs = "pair_votes L view c vals"
  note L = assms(1) and B = assms(2)
  have inv: "oracle_inv L view c" and op: "windows_open ?S" and bounded: "feeds_bounded L ?S" and blk: "block_ok c"
    using assms(3) by (simp_all add: oracle_good_def)
  define p where "p = os_params ?S"
  have p: "GetParams L c = Ok p" "params_ok ?M p" using GetParams_eq [OF L inv] by (simp_all add: p_def)
  obtain q thr rate mthr mrate where dec: "LegacyNewDecFromStr ?M (op_QuorumFraction p) = Ok q"
      "LegacyNewDecFromStr ?M (op_OutlierThreshold p) = Ok thr" "LegacyNewDecFromStr ?M (op_OutlierSlashRate p) = Ok rate"
      "LegacyNewDecFromStr ?M (op_MissThreshold p) = Ok mthr" "LegacyNewDecFromStr ?M (op_MissSlashRate p) = Ok mrate"
    and rate: "0 \<le> rate" "0 \<le> mrate" and len: "0 < op_MissWindowSize p" "op_MissWindowSize p < 2 ^ 63" "0 < op_VoteWindow p"
    by (rule params_ok_fields [OF sdk_math [OF L] p(2)])
  have mthr: "0 < mthr" using p(2) dec(4) by (simp add: params_ok_def OracleParams_Validate_iff [OF sdk_math [OF L]] params_valid_def)
  let ?live = "filter (\<lambda>pair. quorum L t q (?vs pair)) (op_AcceptList p)"
  have q: "price_of ?M (op_QuorumFraction p) = q" using dec(1) by (simp add: price_of_def)
  have "price_of ?M (op_OutlierThreshold p) = thr" using dec(2) by (simp add: price_of_def)
  then have quiet: "\<forall>pair\<in>set (op_AcceptList p). no_outlier thr (?vs pair)" using assms(7) by (simp add: p_def)
  obtain c1 where c1: "ofold (aggregate_pair L (validators_by_operator vals) t q thr rate) (op_AcceptList p) ([], c) = Ok (?live, c1)"
      "block_step L view c c1 (publish_all L c t q ?vs (op_AcceptList p) ?S)" "ext c1 = ext c"
    using aggregate_pairs_eq [OF L B rate(1) inv assms(4) blk bounded params_ok_pairs [OF p(2) sdk_math [OF L]],
        of "op_AcceptList p" ?vs "validators_by_operator vals" q thr "[]"] quiet
    by (auto simp: pair_votes_def)
  obtain c' where c': "EndBlocker L c = Ok c'" using EndBlocker_window [OF L B inv op assms(4) blk bounded assms(5,6)] by blast
  then obtain c2 where c2: "ofold (judge_validator L p ?live mthr mrate) vals c1 = Ok c2" "DeleteAllFeeds L c2 = Ok c'"
    using assms(6) by (auto simp: EndBlocker_def p(1) at_window_end_def assms(5) staking_total [OF assms(4)] dec c1(1) Let_def obind_eq_Ok
        simp flip: p_def)
  have "ext c2 = ext c1"
  proof (rule judge_validators_quiet [OF L B rate(2) mthr block_inv [OF c1(2)] _ len(1,2) _ c2(1)])
    show "windows_open (oracle_of L view c1)" using op by (simp add: block_state [OF c1(2)] windows_open_def)
    show "counts (os_miss (oracle_of L view c1)) a = 0 \<and> \<not> missed_feed ?live a (oracle_of L view c1)"
      if "v \<in> set vals" "ValAddressFromBech32 (env_addr L) (OperatorAddress v) = Ok a" for v a
      using assms(8) [OF that, folded p_def, unfolded q] by (simp add: block_state [OF c1(2)] missed_feed_def)
  qed
  moreover have "ext c' = ext c2"
    using c2(2) DeleteAllFeeds_step [OF L] store_clear_prefix [OF L, of FeedKeyPrefix StoreKey c2]
    by (auto simp: DeleteAllFeeds_def FeedKeyPrefix_def KeyPrefixFeed_def frame_def)
  ultimately show ?thesis using c' c1(3) by auto
qed

lemma sample_reference: "UnweightedMedian [10 ^ 18, 102 * 10 ^ 16, 10 ^ 18] = (10 ^ 18 :: int)"
  by code_simp

theorem EndBlocker_spares_the_diligent_witness:
  "\<exists>c c'. sample_at (sample_reports ''1.00'' ''1.02'' ''1.00'') c \<and> EndBlocker ref_env c = Ok c' \<and> ext c' = sample_chain"
proof (rule sample_round [OF sample_ref sample_price_ok(1,2,1) sample_short(1,2,1)])
  fix c assume c: "sample_at (sample_reports ''1.00'' ''1.02'' ''1.00'') c"
  have votes: "pair_votes ref_env ref_view c sample_vals ''VTX:USD'' = sample_votes ''1.00'' ''1.02'' ''1.00''"
    by (rule sample_pair_votes [OF c sample_price_ok(1,2,1)])
  have thr: "price_of ref_math ''0.05'' = 5 * 10 ^ 16" by (simp add: price_of_def default_literals [OF ref_math_laws])
  have quiet: "no_outlier (5 * 10 ^ 16) (sample_votes ''1.00'' ''1.02'' ''1.00'')"
    by (simp add: no_outlier_def sample_votes_def sample_price_ok sample_reference [simplified] dec_unit_def)
  have slash: "slash_laws (env_keepers ref_env)" by (simp add: ref_slash_laws)
  have "\<exists>c'. EndBlocker ref_env c = Ok c' \<and> ext c' = ext c"
  proof (rule EndBlocker_spares_the_diligent [OF ref_sdk_laws slash good_sample [OF c]])
    show "no_outlier (price_of (env_math ref_env) (op_OutlierThreshold (os_params (oracle_of ref_env ref_view c)))) (pair_votes ref_env ref_view c sample_vals pair)" for pair
      using votes quiet sample_other_votes [OF c]
      by (cases "pair = ''VTX:USD''") (simp_all add: sample_of [OF c] sample_reports_params DefaultParams_def thr, simp add: no_outlier_def)
    show "counts (os_miss (oracle_of ref_env ref_view c)) a = 0 \<and>
      \<not> missed_feed (filter (\<lambda>pair. quorum ref_env 12 (price_of (env_math ref_env) (op_QuorumFraction (os_params (oracle_of ref_env ref_view c)))) (pair_votes ref_env ref_view c sample_vals pair))
        (op_AcceptList (os_params (oracle_of ref_env ref_view c)))) a (oracle_of ref_env ref_view c)" (is "_ \<and> \<not> missed_feed ?live _ _")
      if v: "v \<in> set sample_vals" "ValAddressFromBech32 (env_addr ref_env) (OperatorAddress v) = Ok a" for v a
    proof -
      have "a \<in> {''A'', ''B'', ''C''}" using v by (auto simp: sample_validator_def ref_addr_def ref_from_bech32_def valid_addr_def)
      then have fed: "os_feeds (oracle_of ref_env ref_view c) (a, ''VTX:USD'') \<noteq> None" by (auto simp: sample_of [OF c] sample_reports_def)
      have dead: "\<not> quorum ref_env 12 q (pair_votes ref_env ref_view c sample_vals pair)" if "pair \<noteq> ''VTX:USD''" for q pair
        using sample_other_votes [OF c that] by (simp add: quorum_def)
      have "\<not> missed_feed ?live a (oracle_of ref_env ref_view c)"
      proof
        assume "missed_feed ?live a (oracle_of ref_env ref_view c)"
        then obtain pair where "pair \<in> set ?live" "os_feeds (oracle_of ref_env ref_view c) (a, pair) = None" by (auto simp: missed_feed_def)
        then show False using fed dead by (cases "pair = ''VTX:USD''") auto
      qed
      then show ?thesis by (simp add: sample_of [OF c] sample_reports_def empty_oracle_def counts_def)
    qed
  qed (use sample_staking sample_bonded sample_due [OF sample_reports_params c]
       in \<open>simp_all add: sample_price_ok sample_ext [OF c] sample_of [OF c]\<close>)
  then show ?thesis using c by (auto simp: sample_ext [OF c])
qed

section \<open>Reading prices\<close>


text \<open>A genesis with one price, published at the given time.\<close>

definition sample_price :: "time \<Rightarrow> AggregatedPrice" where
  "sample_price t = \<lparr>ap_Pair = ''VTX:USD'', ap_Price = ''1.02'', ap_BlockHeight = 5, ap_BlockTime = t\<rparr>"

lemma sample_genesis_price:
  assumes p: "params_ok ref_math p" "''VTX:USD'' \<in> set (op_AcceptList p)" and t: "0 \<le> t" "t \<le> ref_now"
  obtains c where "InitGenesis ref_env (genesis_of ref_env p [sample_price t] []) (ref_ctx sample_chain) = Ok c"
    and "oracle_reach ref_env ref_view c" and "sample_at (empty_oracle\<lparr>os_params := p, os_prices := [''VTX:USD'' \<mapsto> sample_price t]\<rparr>) c"
proof -
  have "valid_time t" "t \<noteq> zero_time" using t by (simp_all add: valid_time_def zero_time_def ref_now_def Second_def)
  then have ok: "genesis_ok ref_env (ref_ctx sample_chain) p [sample_price t] []"
    using p t VTX_USD_ok sample_price_ok(2)
    by (simp add: genesis_ok_def delegations_ok_def genesis_price_ok_def sample_price_def is_i64_def)
  then obtain c where c: "InitGenesis ref_env (genesis_of ref_env p [sample_price t] []) (ref_ctx sample_chain) = Ok c"
      "oracle_step ref_env ref_view (ref_ctx sample_chain) c (empty_oracle\<lparr>os_params := p, os_prices := [''VTX:USD'' \<mapsto> sample_price t]\<rparr>)"
    using InitGenesis_eq [OF ref_sdk_laws ref_ctx_store ok] by (auto simp: empty_oracle_def sample_price_def)
  show thesis
    using that c(1) sample_step [OF sample_ref c(2)] oracle_reach.genesis [OF ref_ctx_store sample_block [OF sample_ref] ok c(1)] by blast
qed


text \<open>
  C34. \<open>time.Duration(params.MaxPriceAge) * time.Second\<close> wraps around for parameters that
  \<open>Validate\<close> accepts: with a \<open>max_price_age\<close> of 9223372037 seconds a price published in
  this very block is refused as stale.
\<close>

theorem MaxPriceAge_wraps:
  "\<exists>p c. OracleParams_Validate ref_math p = Ok () \<and> oracle_reach ref_env ref_view c \<and> os_params (oracle_of ref_env ref_view c) = p \<and>
     (\<exists>ap. os_prices (oracle_of ref_env ref_view c) ''VTX:USD'' = Some ap \<and> ap_BlockTime ap = BlockTime c) \<and>
     GetPrice ref_env ''VTX:USD'' c = Err ErrStalePrice"
proof -
  let ?p = "DefaultParams\<lparr>op_MaxPriceAge := 9223372037\<rparr>"
  have valid: "OracleParams_Validate ref_math ?p = Ok ()"
    using DefaultParams_valid [OF ref_math_laws] by (simp add: OracleParams_Validate_iff [OF ref_math_laws] params_valid_def)
  have "OracleParams_Size ?p < 2 ^ 16"
    using size_int64_le [of 500] size_int64_le [of 9223372037] size_int64_le [of 10]
    by (simp add: OracleParams_Size_def DefaultParams_def size_string_def size_strings_def size_bytes_def sov_small)
  then have ok: "params_ok ref_math ?p"
    using DefaultParams_ok [OF ref_math_laws] valid by (simp add: params_ok_def OracleParams_wf_def is_i64_def)
  have "''VTX:USD'' \<in> set (op_AcceptList ?p)" using VTX_USD_accepted by simp
  then obtain c where c: "oracle_reach ref_env ref_view c" "sample_at (empty_oracle\<lparr>os_params := ?p, os_prices := [''VTX:USD'' \<mapsto> sample_price ref_now]\<rparr>) c"
    by (rule sample_genesis_price [OF ok, of ref_now]) (auto simp: ref_now_def Second_def)
  have "dur_mul 9223372037 Second < 0" by (simp add: dur_mul_def Second_def i64_def)
  then have "GetPrice ref_env ''VTX:USD'' c = Err ErrStalePrice"
    using VTX_USD_accepted
    by (simp add: GetPrice_eq [OF ref_sdk_laws sample_inv [OF c(2)]] sample_of [OF c(2)] sample_time [OF c(2)] sample_price_def time_sub_def Let_def)
  moreover have "os_prices (oracle_of ref_env ref_view c) ''VTX:USD'' = Some (sample_price ref_now)" "ap_BlockTime (sample_price ref_now) = BlockTime c"
    by (simp_all add: sample_of [OF c(2)] sample_time [OF c(2)] sample_price_def)
  ultimately show ?thesis using c(1) valid by (intro exI [of _ ?p] exI [of _ c]) (auto simp: sample_of [OF c(2)])
qed

section \<open>Governance and genesis\<close>

text \<open>
  C29. Only the authority changes the parameters, and only to valid ones. The next block
  reads exactly those; the miss counters start over exactly when the accept list changed,
  and nothing else in the store changes.
\<close>

theorem UpdateParams_by_authority:
  assumes "sdk_laws L view" and "oracle_inv L view c" and "params_msg_small m"
    and "is_ok (AccAddressFromBech32 (env_addr L) (env_authority L))"
  shows "(is_ok (UpdateParams L m c) \<longleftrightarrow> mup_Authority m = env_authority L \<and> params_valid (env_math L) (mup_Params m)) \<and>
    (\<forall>c'. UpdateParams L m c = Ok c' \<longrightarrow> GetParams L c' = Ok (mup_Params m) \<and> ext c' = ext c \<and>
       oracle_of L view c' = params_updated (mup_Params m) (oracle_of L view c))"
proof -
  have "GetParams L c' = Ok (mup_Params m) \<and> ext c' = ext c \<and> oracle_of L view c' = params_updated (mup_Params m) (oracle_of L view c)"
    if "UpdateParams L m c = Ok c'" for c'
  proof -
    have step: "block_step L view c c' (params_updated (mup_Params m) (oracle_of L view c))" and "ext c' = ext c"
      using UpdateParams_iff(2) [OF assms(1-3) that] by simp_all
    then show ?thesis
      using GetParams_eq(1) [OF assms(1) block_inv [OF step]] by (simp add: block_state [OF step], simp add: params_updated_def)
  qed
  then show ?thesis using UpdateParams_iff(1) [OF assms(1-3)] assms(4) by auto
qed

definition sample_update :: MsgUpdateParams where
  "sample_update = \<lparr>mup_Authority = ''vtx1module:gov'', mup_Params = DefaultParams\<lparr>op_AcceptList := [''BTC:USD'']\<rparr>\<rparr>"

lemma sample_update_ok: "params_msg_small sample_update" "params_valid ref_math (mup_Params sample_update)"
  "is_ok (AccAddressFromBech32 (env_addr ref_env) (env_authority ref_env))"
proof -
  have "OracleParams_Size (mup_Params sample_update) < 2 ^ 16"
    using size_int64_le [of 500] size_int64_le [of 300] size_int64_le [of 10]
    by (simp add: sample_update_def OracleParams_Size_def DefaultParams_def size_string_def size_strings_def size_bytes_def sov_small)
  then show "params_msg_small sample_update"
    by (simp add: params_msg_small_def OracleParams_wf_def sample_update_def DefaultParams_def is_i64_def)
  show "params_valid ref_math (mup_Params sample_update)"
    by (simp add: sample_update_def params_valid_def DefaultParams_def default_literals [OF ref_math_laws] dec_unit_def
        pairRegex_def base_quote_def upper_alnum_def byte_val_def)
  show "is_ok (AccAddressFromBech32 (env_addr ref_env) (env_authority ref_env))"
    by (simp add: ref_addr_def ref_from_bech32_def valid_addr_def)
qed

theorem UpdateParams_by_authority_witness:
  "\<exists>c c'. UpdateParams ref_env sample_update c = Ok c' \<and> GetParams ref_env c' = Ok (mup_Params sample_update) \<and>
     \<not> is_ok (UpdateParams ref_env (sample_update\<lparr>mup_Authority := ''vtx1A''\<rparr>) c)"
proof -
  let ?c = "ref_ctx sample_chain" and ?m = "sample_update\<lparr>mup_Authority := ''vtx1A''\<rparr>"
  have small: "params_msg_small ?m" using sample_update_ok(1) by (simp add: params_msg_small_def)
  note good = UpdateParams_by_authority [OF ref_sdk_laws sample_inv [OF sample_ref] sample_update_ok(1,3)]
  note bad = UpdateParams_by_authority [OF ref_sdk_laws sample_inv [OF sample_ref] small sample_update_ok(3)]
  have "mup_Authority sample_update = env_authority ref_env" "mup_Authority ?m \<noteq> env_authority ref_env" by (simp_all add: sample_update_def)
  then have "is_ok (UpdateParams ref_env sample_update ?c)" "\<not> is_ok (UpdateParams ref_env ?m ?c)"
    using good bad sample_update_ok(2) by simp_all
  then show ?thesis using good by (auto simp: is_ok_iff)
qed



text \<open>
  C30. The crisis invariant on prices (each stored price is positive and for an accepted
  pair) is kept by the end blocker.
\<close>

theorem EndBlocker_keeps_PricesInvariant:
  assumes "sdk_laws L view" and "slash_laws (env_keepers L)" and "oracle_good L view c"
    and "staking_state (env_keepers L) (ext c) t" and "PricesInvariant L c = Ok False" and "EndBlocker L c = Ok c'"
  shows "PricesInvariant L c' = Ok False"
proof (cases "at_window_end (oracle_of L view c) c")
  case True
  note L = assms(1)
  have inv: "oracle_inv L view c" using assms(3) by (simp add: oracle_good_def)
  obtain vals where vals: "GetBondedValidatorsByPower (env_keepers L) (ext c) = Ok vals"
    using assms(6) True by (auto simp: EndBlocker_def GetParams_eq(1) [OF L inv] at_window_end_def obind_eq_Ok)
  obtain c'' where c'': "EndBlocker L c = Ok c''"
      "block_step L view c c'' (window_end L c t vals (pair_votes L view c vals) (oracle_of L view c))"
    using EndBlocker_window [OF L assms(2) inv _ assms(4) _ _ vals True] assms(3) by (auto simp: oracle_good_def)
  then have step: "block_step L view c c' (window_end L c t vals (pair_votes L view c vals) (oracle_of L view c))"
    using assms(6) by simp
  have "dom (os_prices (oracle_of L view c)) \<subseteq> set (op_AcceptList (os_params (oracle_of L view c)))"
    using assms(5) by (simp add: PricesInvariant_eq [OF L inv])
  then show ?thesis
    by (auto simp: PricesInvariant_eq [OF L block_inv [OF step]] block_state [OF step] window_end_def Let_def publish_all_prices dom_def split: if_splits)
next
  case False
  then show ?thesis using EndBlocker_off [OF assms(1) _ False] assms(3,5,6) by (simp add: oracle_good_def)
qed

theorem EndBlocker_keeps_PricesInvariant_witness:
  "\<exists>c c'. EndBlocker ref_env c = Ok c' \<and> os_prices (oracle_of ref_env ref_view c') \<noteq> Map.empty \<and> PricesInvariant ref_env c' = Ok False"
proof (rule sample_genesis_price [OF DefaultParams_ok [OF ref_math_laws] VTX_USD_accepted, of ref_now])
  fix c assume reach: "oracle_reach ref_env ref_view c"
    and c: "sample_at (empty_oracle\<lparr>os_params := DefaultParams, os_prices := [''VTX:USD'' \<mapsto> sample_price ref_now]\<rparr>) c"
  have slash: "slash_laws (env_keepers ref_env)" by (simp add: ref_slash_laws)
  have good: "oracle_good ref_env ref_view c" by (rule reach_good [OF ref_sdk_laws slash reach])
  have st: "staking_state (env_keepers ref_env) (ext c) 12" using sample_staking by (simp add: sample_ext [OF c])
  have p: "PricesInvariant ref_env c = Ok False"
    using VTX_USD_accepted by (simp add: PricesInvariant_eq [OF ref_sdk_laws sample_inv [OF c]] sample_of [OF c])
  have vals: "GetBondedValidatorsByPower (env_keepers ref_env) (ext c) = Ok sample_vals" using sample_bonded by (simp add: sample_ext [OF c])
  have "at_window_end (oracle_of ref_env ref_view c) c" using sample_due [OF _ c] by (simp add: sample_of [OF c])
  then obtain c' where c': "EndBlocker ref_env c = Ok c'"
      "block_step ref_env ref_view c c' (window_end ref_env c 12 sample_vals (pair_votes ref_env ref_view c sample_vals) (oracle_of ref_env ref_view c))"
    using EndBlocker_window [OF ref_sdk_laws slash _ _ st _ _ vals] good unfolding oracle_good_def by blast
  have "PricesInvariant ref_env c' = Ok False" by (rule EndBlocker_keeps_PricesInvariant [OF ref_sdk_laws slash good st p c'(1)])
  moreover have "os_prices (oracle_of ref_env ref_view c') ''VTX:USD'' \<noteq> None"
    by (simp add: block_state [OF c'(2)] window_end_def Let_def publish_all_prices sample_of [OF c])
  then have "os_prices (oracle_of ref_env ref_view c') \<noteq> Map.empty" by auto
  ultimately show ?thesis using c'(1) by blast
qed (simp_all add: ref_now_def Second_def)

text \<open>
  C33. Removing a pair from the accept list leaves its price in the store: after a valid
  parameter update in a reachable state the crisis invariant reports broken prices.
\<close>

theorem UpdateParams_breaks_PricesInvariant:
  "\<exists>c m c'. oracle_reach ref_env ref_view c \<and> PricesInvariant ref_env c = Ok False \<and>
     UpdateParams ref_env m c = Ok c' \<and> oracle_reach ref_env ref_view c' \<and> PricesInvariant ref_env c' = Ok True"
proof (rule sample_genesis_price [OF DefaultParams_ok [OF ref_math_laws] VTX_USD_accepted, of ref_now])
  fix c assume reach: "oracle_reach ref_env ref_view c"
    and c: "sample_at (empty_oracle\<lparr>os_params := DefaultParams, os_prices := [''VTX:USD'' \<mapsto> sample_price ref_now]\<rparr>) c"
  have p: "PricesInvariant ref_env c = Ok False"
    using VTX_USD_accepted by (simp add: PricesInvariant_eq [OF ref_sdk_laws sample_inv [OF c]] sample_of [OF c])
  have "is_ok (UpdateParams ref_env sample_update c)"
    using UpdateParams_iff(1) [OF ref_sdk_laws sample_inv [OF c] sample_update_ok(1)] sample_update_ok(2,3) by (simp add: sample_update_def)
  then obtain c' where c': "UpdateParams ref_env sample_update c = Ok c'" by (auto simp: is_ok_iff)
  note step = UpdateParams_iff(2) [OF ref_sdk_laws sample_inv [OF c] sample_update_ok(1) c', THEN conjunct1]
  have "PricesInvariant ref_env c' = Ok True"
    by (simp add: PricesInvariant_eq [OF ref_sdk_laws block_inv [OF step]] block_state [OF step] sample_of [OF c] params_updated_def sample_update_def
        DefaultParams_def)
  then show ?thesis using reach p c' oracle_reach.update_params [OF reach sample_update_ok(1) c'] by blast
qed (simp_all add: ref_now_def Second_def)

section \<open>An extreme price stops the chain\<close>

lemma slashValidator_not_Err: "slashValidator L v rate reason c \<noteq> Err e"
  by (simp add: slashValidator_def split: outcome.splits option.splits)

lemma slash_outlier_not_Err: "math_laws (env_math L) \<Longrightarrow> 0 < r \<Longrightarrow> slash_outlier L valByOper r thr rate f c \<noteq> Err e"
  by (rule dec_Quo_within [of "env_math L" r "\<bar>snd f - r\<bar>"])
    (auto simp: slash_outlier_def dec_Sub_eq checked_dec_def slashValidator_not_Err)

lemma ofold_panics:
  assumes "\<And>x s e. f x s \<noteq> Err e" and "x \<in> set xs" and "\<And>s. f x s = Panic"
  shows "ofold f xs s = Panic"
  using assms(2)
proof (induction xs arbitrary: s)
  case (Cons y ys)
  then show ?case using assms(1) [of y s] assms(3) by (cases "f y s") auto
qed simp

text \<open>A price so far above a tiny reference that the quotient does not fit.\<close>

lemma slash_outlier_panics:
  assumes M: "math_laws (env_math L)" and r: "0 < r" and far: "2 ^ 316 * r \<le> \<bar>snd f - r\<bar> * dec_unit"
  shows "slash_outlier L valByOper r thr rate f c = Panic"
proof (rule dec_Quo_within [OF M r, of "\<bar>snd f - r\<bar>"])
  fix d assume d: "dec_Quo (env_math L) \<bar>snd f - r\<bar> r = checked_dec d" and lo: "\<And>k. k * r \<le> \<bar>snd f - r\<bar> * dec_unit \<Longrightarrow> k \<le> d"
  have "2 ^ 316 \<le> d" by (rule lo) (rule far)
  then have "\<not> dec_fits d" by (simp add: dec_fits_def)
  then show ?thesis by (simp add: slash_outlier_def dec_Sub_eq [OF M] checked_dec_def d)
qed

definition extreme_price :: string where "extreme_price = dec_String ref_math (2 ^ 300)"
definition tiny_price :: string where "tiny_price = dec_String ref_math 1"

lemma extreme_prices:
  "price_ok ref_math extreme_price" "price_ok ref_math tiny_price" "short extreme_price" "short tiny_price"
  "price_of ref_math extreme_price = 2 ^ 300" "price_of ref_math tiny_price = 1"
proof -
  have fits: "dec_fits (2 ^ 300)" "dec_fits 1" by (simp_all add: dec_fits_def)
  show "price_ok ref_math extreme_price" "price_ok ref_math tiny_price" unfolding extreme_price_def tiny_price_def
    using price_ok_String [OF ref_math_laws fits(1)] price_ok_String [OF ref_math_laws fits(2)] by simp_all
  show "short extreme_price" "short tiny_price" unfolding extreme_price_def tiny_price_def short_def
    using dec_String_short [OF ref_math_laws fits(1)] dec_String_short [OF ref_math_laws fits(2)] by simp_all
  show "price_of ref_math extreme_price = 2 ^ 300" "price_of ref_math tiny_price = 1" unfolding extreme_price_def tiny_price_def price_of_def
    using dec_roundtrip [OF ref_math_laws fits(1)] dec_roundtrip [OF ref_math_laws fits(2)] by simp_all
qed

lemma extreme_pair_panics:
  assumes c: "sample_at (sample_reports tiny_price tiny_price extreme_price) c"
  shows "aggregate_pair ref_env (validators_by_operator sample_vals) 12 (667 * 10 ^ 15) thr rate ''VTX:USD'' ([], c) = Panic"
proof -
  let ?vs = "sample_votes tiny_price tiny_price extreme_price"
  have slash: "slash_laws (env_keepers ref_env)" by (simp add: ref_slash_laws)
  have st: "staking_state (env_keepers ref_env) (ext c) 12" using sample_staking by (simp add: sample_ext [OF c])
  have votes: "votes ref_env (ext c) (validators_by_operator sample_vals) (store_view ref_view StoreKey c) ''VTX:USD'' = ?vs"
    using sample_pair_votes [OF c extreme_prices(2,2,1)] by (simp add: pair_votes_def)
  have collect: "IterateAllFeeds ref_env c (collect_feed ref_env c (validators_by_operator sample_vals) ''VTX:USD'') no_feeds = Ok (add_votes ?vs no_feeds)"
    using collect_eq [OF ref_sdk_laws slash sample_inv [OF c] st] votes by simp
  have fields: "weighted (add_votes ?vs no_feeds) = ?vs" "rawPrices (add_votes ?vs no_feeds) = map wp_Price ?vs"
      "validFeeds (add_votes ?vs no_feeds) = map (\<lambda>w. (wp_Valoper w, wp_Price w)) ?vs"
      "submittedPower (add_votes ?vs no_feeds) = sum_list (map wp_Weight ?vs)"
    by (simp_all add: add_votes_def no_feeds_def)
  have met: "?vs \<noteq> []" "QuorumMet (env_math ref_env) (sum_list (map wp_Weight ?vs)) 12 (667 * 10 ^ 15) = Ok True"
    using sample_quorum unfolding quorum_def by blast+
  have ref: "UnweightedMedian (map wp_Price ?vs) = 1"
    by (simp add: sample_votes_def extreme_prices) code_simp
  have med: "WeightedMedian ?vs = 1" unfolding sample_votes_def extreme_prices by code_simp
  obtain c1 c2 c3 where pub: "SetAggregatedPrice ref_env \<lparr>ap_Pair = ''VTX:USD'', ap_Price = dec_String (env_math ref_env) 1,
        ap_BlockHeight = BlockHeight c, ap_BlockTime = BlockTime c\<rparr> c = Ok c1" "AppendTWAPEntry ref_env ''VTX:USD'' 1 (BlockTime c) c1 = Ok c2"
      "PruneTWAPOlderThan ref_env ''VTX:USD'' (BlockTime c - 24 * Hour) c2 = Ok c3" "frame StoreKey c c1" "frame StoreKey c c2"
    using publish_step [OF ref_sdk_laws sample_inv [OF c] sample_block [OF c] VTX_USD_ok, of 1] by (auto simp: dec_fits_def)
  have panic: "ofold (slash_outlier ref_env (validators_by_operator sample_vals) 1 thr rate) (map (\<lambda>w. (wp_Valoper w, wp_Price w)) ?vs) s = Panic" for s
  proof (rule ofold_panics)
    show "(''vtxvaloper1C'', 2 ^ 300) \<in> set (map (\<lambda>w. (wp_Valoper w, wp_Price w)) ?vs)" by (simp add: sample_votes_def extreme_prices)
    show "slash_outlier ref_env (validators_by_operator sample_vals) 1 thr rate (''vtxvaloper1C'', 2 ^ 300) s = Panic" for s
      by (rule slash_outlier_panics) (simp_all add: ref_math_laws dec_unit_def)
  qed (simp add: slash_outlier_not_Err ref_math_laws)
  show ?thesis
    unfolding aggregate_pair_def using collect met pub(1) panic
    by (simp add: fields ref med pub(2,3) frame_fields [OF pub(4)] frame_fields [OF pub(5)] Let_def)
qed

text \<open>
  C32. \<open>diff.Quo(refMedian)\<close> panics when the quotient has more than 315 bits. Three feeds
  that \<open>SubmitFeed\<close> accepts, two of the smallest price and one of \<open>2^300\<close> units from a
  validator with a quarter of the stake, make the end blocker panic at the end of the
  window.
\<close>

theorem EndBlocker_panics_on_extreme_price:
  "\<exists>c c1 c2 c3. oracle_reach ref_env ref_view c \<and>
     SubmitFeed ref_env (sample_msg ''A'' tiny_price) c = Ok c1 \<and> SubmitFeed ref_env (sample_msg ''B'' tiny_price) c1 = Ok c2 \<and>
     SubmitFeed ref_env (sample_msg ''C'' extreme_price) c2 = Ok c3 \<and> EndBlocker ref_env c3 = Panic"
proof (rule sample_genesis)
  fix c assume reach: "oracle_reach ref_env ref_view c" and c: "sample_at empty_oracle c"
  obtain c1 c2 c3 where round: "SubmitFeed ref_env (sample_msg ''A'' tiny_price) c = Ok c1" "SubmitFeed ref_env (sample_msg ''B'' tiny_price) c1 = Ok c2"
      "SubmitFeed ref_env (sample_msg ''C'' extreme_price) c2 = Ok c3" and c3: "sample_at (sample_reports tiny_price tiny_price extreme_price) c3"
    by (rule sample_round [OF c extreme_prices(2,2,1,4,4,3)])
  have p: "GetParams ref_env c3 = Ok DefaultParams"
    using GetParams_eq(1) [OF ref_sdk_laws sample_inv [OF c3]] by (simp add: sample_of [OF c3] sample_reports_params)
  have "EndBlocker ref_env c3 = Panic"
    using sample_bonded staking_total [OF sample_staking] extreme_pair_panics [OF c3]
    by (simp add: EndBlocker_def p, simp add: DefaultParams_def go_mod_def smod_nonneg sample_height [OF c3] sample_ext [OF c3]
        default_literals [OF ref_math_laws] Let_def)
  then show ?thesis using reach round by blast
qed

end
