(* ===== verification/Fees_Messages.thy ===== *)
theory Fees_Messages
  imports Sdk Wire
begin

text \<open>
  The parameters \<open>x/fees\<close> stores, with their generated codec (\<open>x/fees/types/types.pb.go\<close>).
\<close>

subsection \<open>FeesParams\<close>

record FeesParams =
  fp_BurnRatio :: string
  fp_DistributionRatio :: string

definition zero_FeesParams :: FeesParams where
  "zero_FeesParams = \<lparr>fp_BurnRatio = [], fp_DistributionRatio = []\<rparr>"

definition FeesParams_Size :: "FeesParams \<Rightarrow> nat" where
  "FeesParams_Size m =
     size_string (fp_BurnRatio m) +
     size_string (fp_DistributionRatio m)"

definition FeesParams_MarshalToSizedBuffer :: "FeesParams \<Rightarrow> bytes outcome" where
  "FeesParams_MarshalToSizedBuffer m =
     Ok (put_string 10 (fp_BurnRatio m)
       (put_string 18 (fp_DistributionRatio m)
       []))"

definition FeesParams_Marshal :: "FeesParams \<Rightarrow> bytes outcome" where
  "FeesParams_Marshal m = sized_buffer (FeesParams_Size m) (FeesParams_MarshalToSizedBuffer m)"

definition FeesParams_field :: "FeesParams handler" where
  "FeesParams_field fieldNum wireType pre cur m =
     (if fieldNum = 1 then field_string wireType cur (\<lambda>v m. m\<lparr>fp_BurnRatio := v\<rparr>) m
      else if fieldNum = 2 then field_string wireType cur (\<lambda>v m. m\<lparr>fp_DistributionRatio := v\<rparr>) m
      else field_skip pre m)"

definition FeesParams_Unmarshal :: "bytes \<Rightarrow> FeesParams outcome" where
  "FeesParams_Unmarshal dAtA = unmarshal_loop (FeesParams_field) zero_FeesParams 0 dAtA"

text \<open>The values a FeesParams of the program holds: Go integers and encodable times.\<close>

definition FeesParams_wf :: "FeesParams \<Rightarrow> bool" where
  "FeesParams_wf m \<longleftrightarrow> FeesParams_Size m < 2 ^ 63"

lemma FeesParams_handler:
  "FeesParams_field 1 2 pre cur m = field_string 2 cur (\<lambda>v m. m\<lparr>fp_BurnRatio := v\<rparr>) m"
  "FeesParams_field 2 2 pre cur m = field_string 2 cur (\<lambda>v m. m\<lparr>fp_DistributionRatio := v\<rparr>) m"
  by (simp_all add: FeesParams_field_def)

lemmas FeesParams_steps =
  loop_string [where h = "FeesParams_field", OF FeesParams_handler(1)]
  loop_string [where h = "FeesParams_field", OF FeesParams_handler(2)]

lemma FeesParams_roundtrip:
  assumes wf: "FeesParams_wf m"
  shows "\<exists>bz. FeesParams_Marshal m = Ok bz \<and> length bz = FeesParams_Size m \<and> FeesParams_Unmarshal bz = Ok m"
proof -
  define bz where "bz = put_string 10 (fp_BurnRatio m)
       (put_string 18 (fp_DistributionRatio m)
       [])"
  have w: "FeesParams_MarshalToSizedBuffer m = Ok bz"
    by (simp add: FeesParams_MarshalToSizedBuffer_def bz_def )
  have len: "length bz = FeesParams_Size m"
    by (simp add: bz_def FeesParams_Size_def )
  have lt: "length bz < 2 ^ 63" using wf by (simp add: len FeesParams_wf_def)
  have "FeesParams_Marshal m = Ok bz"
    by (simp add: FeesParams_Marshal_def w len sized_buffer_exact)
  moreover have "FeesParams_Unmarshal bz = Ok m"
    using wf lt
    by (simp add: FeesParams_Unmarshal_def bz_def FeesParams_wf_def FeesParams_steps fits_int_def zero_FeesParams_def  )
  ultimately show ?thesis using len by blast
qed

interpretation fees_params_codec: message_codec FeesParams_Size FeesParams_Marshal FeesParams_Unmarshal FeesParams_wf
  by unfold_locales (rule FeesParams_roundtrip)

end
