(* ===== verification/Fees.thy ===== *)
theory Fees
  imports Fees_Messages Stores Reference
begin

text \<open>
  \<open>x/fees\<close>: a fraction of the fee collector's \<open>uvtx\<close> is burned at the end of every block.
  Modelled are the parameters (\<open>types/params.go\<close>), the store (\<open>keeper/keeper.go\<close>), the
  end blocker (\<open>keeper/abci.go\<close>), the message server, the query, the genesis functions, the
  two crisis invariants and the migration.
\<close>

section \<open>Types\<close>

definition Fees_ModuleName :: string where "Fees_ModuleName = ''fees''"
definition Fees_StoreKey :: string where "Fees_StoreKey = Fees_ModuleName"
definition FeeDenom :: string where "FeeDenom = ''uvtx''"
definition FeeCollectorName :: string where "FeeCollectorName = ''fee_collector''"

definition Fees_KeyParams :: bytes where "Fees_KeyParams = [byte 1]"
definition KeyGenesisSupply :: bytes where "KeyGenesisSupply = [byte 2]"
definition KeyCumulativeBurned :: bytes where "KeyCumulativeBurned = [byte 3]"

lemmas fees_key_defs = Fees_KeyParams_def KeyGenesisSupply_def KeyCumulativeBurned_def
  Fees_StoreKey_def Fees_ModuleName_def FeeDenom_def FeeCollectorName_def

definition Fees_ErrUnauthorized :: error where "Fees_ErrUnauthorized = Registered Fees_ModuleName 2"
definition Fees_ErrInvalidParams :: error where "Fees_ErrInvalidParams = Registered Fees_ModuleName 3"
definition ErrInvalidRatioSum :: error where "ErrInvalidRatioSum = Registered Fees_ModuleName 4"

definition Fees_DefaultParams :: "math_lib \<Rightarrow> FeesParams" where
  "Fees_DefaultParams M =
     \<lparr>fp_BurnRatio = dec_String M (LegacyNewDecWithPrec M 40 2),
      fp_DistributionRatio = dec_String M (LegacyNewDecWithPrec M 60 2)\<rparr>"

definition BurnRatioDec :: "math_lib \<Rightarrow> FeesParams \<Rightarrow> dec outcome" where
  "BurnRatioDec M p = LegacyNewDecFromStr M (fp_BurnRatio p)"

definition DistributionRatioDec :: "math_lib \<Rightarrow> FeesParams \<Rightarrow> dec outcome" where
  "DistributionRatioDec M p = LegacyNewDecFromStr M (fp_DistributionRatio p)"

definition FeesParams_Validate :: "math_lib \<Rightarrow> FeesParams \<Rightarrow> unit outcome" where
  "FeesParams_Validate M p =
     (case LegacyNewDecFromStr M (fp_BurnRatio p) of
        Panic \<Rightarrow> Panic
      | Err _ \<Rightarrow> Err Fees_ErrInvalidParams
      | Ok burn \<Rightarrow>
          (case LegacyNewDecFromStr M (fp_DistributionRatio p) of
             Panic \<Rightarrow> Panic
           | Err _ \<Rightarrow> Err Fees_ErrInvalidParams
           | Ok distr \<Rightarrow>
               if burn < 0 \<or> burn > LegacyNewDec M 1 then Err Fees_ErrInvalidParams
               else if distr < 0 \<or> distr > LegacyNewDec M 1 then Err Fees_ErrInvalidParams
               else obind (dec_Add M burn distr) (\<lambda>s.
                      if s \<noteq> LegacyNewDec M 1 then Err ErrInvalidRatioSum else Ok ())))"

record Fees_MsgUpdateParams =
  fmup_Authority :: string
  fmup_Params :: FeesParams

definition Fees_MsgUpdateParams_ValidateBasic ::
    "math_lib \<Rightarrow> addr_lib \<Rightarrow> Fees_MsgUpdateParams \<Rightarrow> unit outcome" where
  "Fees_MsgUpdateParams_ValidateBasic M A m =
     obind (require_address (AccAddressFromBech32 A (fmup_Authority m))) (\<lambda>_.
     FeesParams_Validate M (fmup_Params m))"

text \<open>The genesis state is its parameters.\<close>

definition Fees_GenesisState_Validate :: "math_lib \<Rightarrow> FeesParams \<Rightarrow> unit outcome" where
  "Fees_GenesisState_Validate M gs = FeesParams_Validate M gs"

section \<open>Keeper\<close>

definition Fees_GetParams :: "('s, 'x) env \<Rightarrow> ('s, 'x) ctx \<Rightarrow> FeesParams outcome" where
  "Fees_GetParams L c =
     obind (store_get L Fees_StoreKey Fees_KeyParams c) (\<lambda>bz.
       case bz of
         None \<Rightarrow> Ok (Fees_DefaultParams (env_math L))
       | Some bz \<Rightarrow> must (FeesParams_Unmarshal bz))"

definition Fees_SetParams :: "('s, 'x) env \<Rightarrow> FeesParams \<Rightarrow> ('s, 'x) ctx \<Rightarrow> ('s, 'x) ctx outcome" where
  "Fees_SetParams L p c =
     obind (FeesParams_Validate (env_math L) p) (\<lambda>_.
     obind (FeesParams_Marshal p) (\<lambda>bz.
     store_set L Fees_StoreKey Fees_KeyParams bz c))"

definition SetGenesisSupply :: "('s, 'x) env \<Rightarrow> int \<Rightarrow> ('s, 'x) ctx \<Rightarrow> ('s, 'x) ctx outcome" where
  "SetGenesisSupply L amt c =
     obind (int_Marshal (env_math L) amt) (\<lambda>bz.
     store_set L Fees_StoreKey KeyGenesisSupply bz c)"

definition GetGenesisSupply :: "('s, 'x) env \<Rightarrow> ('s, 'x) ctx \<Rightarrow> int outcome" where
  "GetGenesisSupply L c =
     obind (store_get L Fees_StoreKey KeyGenesisSupply c) (\<lambda>bz.
       case bz of None \<Rightarrow> Ok 0 | Some bz \<Rightarrow> int_Unmarshal (env_math L) bz)"

definition GetCumulativeBurned :: "('s, 'x) env \<Rightarrow> ('s, 'x) ctx \<Rightarrow> int outcome" where
  "GetCumulativeBurned L c =
     obind (store_get L Fees_StoreKey KeyCumulativeBurned c) (\<lambda>bz.
       case bz of None \<Rightarrow> Ok 0 | Some bz \<Rightarrow> int_Unmarshal (env_math L) bz)"

definition AddCumulativeBurned :: "('s, 'x) env \<Rightarrow> int \<Rightarrow> ('s, 'x) ctx \<Rightarrow> ('s, 'x) ctx outcome" where
  "AddCumulativeBurned L amt c =
     obind (GetCumulativeBurned L c) (\<lambda>cur.
     obind (int_Add (env_math L) cur amt) (\<lambda>s.
     obind (int_Marshal (env_math L) s) (\<lambda>bz.
     store_set L Fees_StoreKey KeyCumulativeBurned bz c)))"

section \<open>End of block\<close>

text \<open>
  A failing bank call is logged and the block goes on; \<open>restr\<close> is the send restriction in
  force. The amounts in the two events are printed by the library.
\<close>

definition burn_fees :: "('s, 'x) env \<Rightarrow> send_restriction \<Rightarrow> int \<Rightarrow> int \<Rightarrow> ('s, 'x) ctx \<Rightarrow> ('s, 'x) ctx outcome" where
  "burn_fees L restr balance burnAmt c =
     obind (NewCoin (env_keepers L) FeeDenom burnAmt) (\<lambda>coin.
     obind (NewCoins (env_keepers L) [coin]) (\<lambda>burnCoins.
       case SendCoinsFromModuleToModule (env_keepers L) restr (ext c) FeeCollectorName Fees_ModuleName burnCoins of
         Panic \<Rightarrow> Panic
       | Err _ \<Rightarrow> Ok c
       | Ok x \<Rightarrow>
           let c = c\<lparr>ext := x\<rparr>
           in (case BurnCoins (env_keepers L) (ext c) Fees_ModuleName burnCoins of
                 Panic \<Rightarrow> Panic
               | Err _ \<Rightarrow> Ok c
               | Ok x \<Rightarrow>
                   let c = c\<lparr>ext := x\<rparr>
                   in (case AddCumulativeBurned L burnAmt c of
                         Panic \<Rightarrow> Panic
                       | Err _ \<Rightarrow> Ok c
                       | Ok c \<Rightarrow>
                           obind (int_Sub (env_math L) balance burnAmt) (\<lambda>distributed.
                           let c = EmitEvent (Event ''fee_burned''
                                     [(''amount'', coins_String (env_keepers L) burnCoins)]) c
                           in obind (NewCoin (env_keepers L) FeeDenom distributed) (\<lambda>d.
                              Ok (EmitEvent (Event ''fee_distributed''
                                    [(''amount'', coins_String (env_keepers L) [d])]) c)))))))"

definition Fees_EndBlocker :: "('s, 'x) env \<Rightarrow> send_restriction \<Rightarrow> ('s, 'x) ctx \<Rightarrow> ('s, 'x) ctx outcome" where
  "Fees_EndBlocker L restr c =
     obind (Fees_GetParams L c) (\<lambda>params.
     obind (BurnRatioDec (env_math L) params) (\<lambda>burnRatio.
       if burnRatio = 0 then Ok c
       else let feeCollector = GetModuleAddress (env_keepers L) FeeCollectorName;
                balance = GetBalance (env_keepers L) (ext c) feeCollector FeeDenom
            in if balance = 0 then Ok c
               else obind (dec_Mul (env_math L) (LegacyNewDecFromInt (env_math L) balance) burnRatio) (\<lambda>d.
                    obind (dec_TruncateInt (env_math L) d) (\<lambda>burnAmt.
                      if burnAmt = 0 then Ok c else burn_fees L restr balance burnAmt c))))"

section \<open>Message server, query, genesis, invariants\<close>

definition Fees_UpdateParams :: "('s, 'x) env \<Rightarrow> Fees_MsgUpdateParams \<Rightarrow> ('s, 'x) ctx \<Rightarrow> ('s, 'x) ctx outcome" where
  "Fees_UpdateParams L msg c =
     obind (Fees_MsgUpdateParams_ValidateBasic (env_math L) (env_addr L) msg) (\<lambda>_.
       if fmup_Authority msg \<noteq> env_authority L then Err Fees_ErrUnauthorized
       else obind (Fees_SetParams L (fmup_Params msg) c) (\<lambda>c.
            Ok (EmitEvent (Event ''fee_params_updated''
                  [(''burn_ratio'', fp_BurnRatio (fmup_Params msg)),
                   (''distribution_ratio'', fp_DistributionRatio (fmup_Params msg))]) c)))"

definition Fees_Query_Params :: "('s, 'x) env \<Rightarrow> unit option \<Rightarrow> ('s, 'x) ctx \<Rightarrow> FeesParams outcome" where
  "Fees_Query_Params L req c =
     (if req = None then Err (GrpcError ''InvalidArgument'') else Fees_GetParams L c)"

definition ReconcileInvariant :: "('s, 'x) env \<Rightarrow> ('s, 'x) ctx \<Rightarrow> bool outcome" where
  "ReconcileInvariant L c =
     (case GetGenesisSupply L c of
        Panic \<Rightarrow> Panic
      | Err _ \<Rightarrow> Ok True
      | Ok genSupply \<Rightarrow>
          (case GetCumulativeBurned L c of
             Panic \<Rightarrow> Panic
           | Err _ \<Rightarrow> Ok True
           | Ok burned \<Rightarrow>
               let current = GetSupply (env_keepers L) (ext c) FeeDenom
               in obind (int_Sub (env_math L) genSupply current) (\<lambda>d. Ok (d \<noteq> burned))))"

definition ModuleBalanceInvariant :: "('s, 'x) env \<Rightarrow> ('s, 'x) ctx \<Rightarrow> bool outcome" where
  "ModuleBalanceInvariant L c =
     (let addr = GetModuleAddress (env_keepers L) Fees_ModuleName;
          bal = GetBalance (env_keepers L) (ext c) addr FeeDenom
      in Ok (bal \<noteq> 0))"

definition Fees_InitGenesis :: "('s, 'x) env \<Rightarrow> FeesParams \<Rightarrow> ('s, 'x) ctx \<Rightarrow> ('s, 'x) ctx outcome" where
  "Fees_InitGenesis L gs c =
     obind (must (Fees_GenesisState_Validate (env_math L) gs)) (\<lambda>_.
     obind (must (Fees_SetParams L gs c)) (\<lambda>c.
     must (SetGenesisSupply L (GetSupply (env_keepers L) (ext c) FeeDenom) c)))"


definition Migrate1to2 :: "('s, 'x) ctx \<Rightarrow> ('s, 'x) ctx outcome" where
  "Migrate1to2 c = Ok c"

section \<open>The store\<close>

text \<open>What the three entries of the module's store hold, with the code's defaults.\<close>

definition stored_or :: "'a \<Rightarrow> (bytes \<Rightarrow> 'a outcome) \<Rightarrow> bytes option \<Rightarrow> 'a" where
  "stored_or d decode bz = (case bz of None \<Rightarrow> d | Some bz \<Rightarrow> (case decode bz of Ok x \<Rightarrow> x | _ \<Rightarrow> d))"

definition fees_params :: "('s, 'x) env \<Rightarrow> ('s \<Rightarrow> bytes \<rightharpoonup> bytes) \<Rightarrow> ('s, 'x) ctx \<Rightarrow> FeesParams" where
  "fees_params L view c = stored_or (Fees_DefaultParams (env_math L)) FeesParams_Unmarshal (store_view view Fees_StoreKey c Fees_KeyParams)"

definition genesis_supply :: "('s, 'x) env \<Rightarrow> ('s \<Rightarrow> bytes \<rightharpoonup> bytes) \<Rightarrow> ('s, 'x) ctx \<Rightarrow> int" where
  "genesis_supply L view c = stored_or 0 (int_Unmarshal (env_math L)) (store_view view Fees_StoreKey c KeyGenesisSupply)"

definition cumulative_burned :: "('s, 'x) env \<Rightarrow> ('s \<Rightarrow> bytes \<rightharpoonup> bytes) \<Rightarrow> ('s, 'x) ctx \<Rightarrow> int" where
  "cumulative_burned L view c = stored_or 0 (int_Unmarshal (env_math L)) (store_view view Fees_StoreKey c KeyCumulativeBurned)"

definition fees_valid :: "math_lib \<Rightarrow> FeesParams \<Rightarrow> bool" where
  "fees_valid M p \<longleftrightarrow> (\<exists>b d. LegacyNewDecFromStr M (fp_BurnRatio p) = Ok b \<and> LegacyNewDecFromStr M (fp_DistributionRatio p) = Ok d \<and>
     0 \<le> b \<and> 0 \<le> d \<and> b + d = dec_unit)"

definition fees_inv :: "('s, 'x) env \<Rightarrow> ('s \<Rightarrow> bytes \<rightharpoonup> bytes) \<Rightarrow> ('s, 'x) ctx \<Rightarrow> bool" where
  "fees_inv L view c \<longleftrightarrow>
     (\<forall>bz. store_view view Fees_StoreKey c Fees_KeyParams = Some bz \<longrightarrow>
        (\<exists>p. FeesParams_Unmarshal bz = Ok p \<and> fees_valid (env_math L) p)) \<and>
     (\<forall>k\<in>{KeyGenesisSupply, KeyCumulativeBurned}. \<forall>bz. store_view view Fees_StoreKey c k = Some bz \<longrightarrow>
        (\<exists>n. int_Unmarshal (env_math L) bz = Ok n \<and> int_fits n))"

lemma FeesParams_Validate_iff:
  assumes M: "math_laws M"
  shows "FeesParams_Validate M p = Ok () \<longleftrightarrow> fees_valid M p"
proof -
  have fits: "dec_fits (b + d)" if "0 \<le> b" "b \<le> dec_unit" "0 \<le> d" "d \<le> dec_unit" for b d
    using that by (simp add: dec_fits_def dec_unit_def)
  show ?thesis
    using dec_from_str_no_panic [OF M]
    by (auto simp: FeesParams_Validate_def fees_valid_def LegacyNewDec_eq [OF M] dec_Add_eq [OF M] obind_eq_Ok fits split: outcome.splits)
qed

lemma Fees_DefaultParams_valid:
  assumes M: "math_laws M"
  shows "fees_valid M (Fees_DefaultParams M)"
proof -
  have "dec_fits (40 * 10 ^ 16)" "dec_fits (60 * 10 ^ 16)" by (simp_all add: dec_fits_def)
  then show ?thesis
    using LegacyNewDecWithPrec_eq [OF M, of 2 40] LegacyNewDecWithPrec_eq [OF M, of 2 60]
    by (simp add: fees_valid_def Fees_DefaultParams_def dec_roundtrip [OF M] dec_unit_def)
qed

lemma fees_keys: "valid_key Fees_KeyParams" "valid_key KeyGenesisSupply" "valid_key KeyCumulativeBurned"
  "Fees_KeyParams \<noteq> KeyGenesisSupply" "Fees_KeyParams \<noteq> KeyCumulativeBurned" "KeyGenesisSupply \<noteq> KeyCumulativeBurned"
  by (simp_all add: fees_key_defs valid_key_def)

lemma fees_reads:
  assumes L: "sdk_laws L view" and inv: "fees_inv L view c"
  shows "Fees_GetParams L c = Ok (fees_params L view c)" "fees_valid (env_math L) (fees_params L view c)"
    "GetGenesisSupply L c = Ok (genesis_supply L view c)" "GetCumulativeBurned L c = Ok (cumulative_burned L view c)"
  using inv Fees_DefaultParams_valid [OF sdk_math [OF L]]
  by (auto simp: Fees_GetParams_def GetGenesisSupply_def GetCumulativeBurned_def store_get_eq [OF L fees_keys(1)] store_get_eq [OF L fees_keys(2)]
      store_get_eq [OF L fees_keys(3)] fees_params_def genesis_supply_def cumulative_burned_def fees_inv_def stored_or_def split: option.splits)

lemma int_put:
  assumes L: "sdk_laws L view" and n: "int_fits n" and k: "valid_key k"
  obtains bz c' where "int_Marshal (env_math L) n = Ok bz" and "int_Unmarshal (env_math L) bz = Ok n"
    and "store_set L Fees_StoreKey k bz c = Ok c'" and "frame Fees_StoreKey c c'"
    and "store_view view Fees_StoreKey c' = (store_view view Fees_StoreKey c)(k \<mapsto> bz)"
proof -
  obtain bz where bz: "int_Marshal (env_math L) n = Ok bz" "length bz < 128" "int_Unmarshal (env_math L) bz = Ok n"
    using int_Marshal_roundtrip [OF sdk_math [OF L] n] by blast
  then have "valid_value bz" by (simp add: valid_value_def)
  from store_set_ex [OF L k this, of Fees_StoreKey c] that bz show thesis by blast
qed

lemma AddCumulativeBurned_step:
  assumes L: "sdk_laws L view" and inv: "fees_inv L view c" and fits: "int_fits (cumulative_burned L view c + a)"
  shows "\<exists>c'. AddCumulativeBurned L a c = Ok c' \<and> frame Fees_StoreKey c c' \<and> fees_inv L view c' \<and>
    fees_params L view c' = fees_params L view c \<and> genesis_supply L view c' = genesis_supply L view c \<and>
    cumulative_burned L view c' = cumulative_burned L view c + a"
proof -
  obtain bz c' where c': "int_Marshal (env_math L) (cumulative_burned L view c + a) = Ok bz"
      "int_Unmarshal (env_math L) bz = Ok (cumulative_burned L view c + a)" "store_set L Fees_StoreKey KeyCumulativeBurned bz c = Ok c'"
      "frame Fees_StoreKey c c'" "store_view view Fees_StoreKey c' = (store_view view Fees_StoreKey c)(KeyCumulativeBurned \<mapsto> bz)"
    by (rule int_put [OF L fits fees_keys(3)])
  have "AddCumulativeBurned L a c = Ok c'"
    using fits by (simp add: AddCumulativeBurned_def fees_reads(4) [OF L inv] int_Add_eq [OF sdk_math [OF L]] checked_int_def c'(1,3))
  moreover have "fees_inv L view c'" using inv fits c'(2) fees_keys(5,6) by (auto simp: fees_inv_def c'(5))
  moreover have "fees_params L view c' = fees_params L view c" "genesis_supply L view c' = genesis_supply L view c"
      "cumulative_burned L view c' = cumulative_burned L view c + a"
    using fees_keys(4-6) c'(2) by (simp_all add: fees_params_def genesis_supply_def c'(5), simp add: cumulative_burned_def c'(5) stored_or_def)
  ultimately show ?thesis using c'(4) by blast
qed

lemma Fees_SetParams_step:
  assumes L: "sdk_laws L view" and inv: "fees_inv L view c" and valid: "fees_valid (env_math L) p" and small: "FeesParams_Size p < 2 ^ 16"
  shows "\<exists>c'. Fees_SetParams L p c = Ok c' \<and> frame Fees_StoreKey c c' \<and> fees_inv L view c' \<and> fees_params L view c' = p \<and>
    genesis_supply L view c' = genesis_supply L view c \<and> cumulative_burned L view c' = cumulative_burned L view c"
proof -
  have "FeesParams_wf p" using small by (simp add: FeesParams_wf_def)
  then obtain bz where bz: "FeesParams_Marshal p = Ok bz" "length bz = FeesParams_Size p" "FeesParams_Unmarshal bz = Ok p"
    by (rule fees_params_codec.codec_obtain)
  have "valid_value bz" using bz(2) small by (simp add: valid_value_def)
  then obtain c' where c': "store_set L Fees_StoreKey Fees_KeyParams bz c = Ok c'" "frame Fees_StoreKey c c'"
      "store_view view Fees_StoreKey c' = (store_view view Fees_StoreKey c)(Fees_KeyParams \<mapsto> bz)"
    using store_set_ex [OF L fees_keys(1)] by blast
  have "Fees_SetParams L p c = Ok c'"
    using valid by (simp add: Fees_SetParams_def FeesParams_Validate_iff [OF sdk_math [OF L], THEN iffD2] bz(1) c'(1))
  moreover have "fees_inv L view c'" using inv valid bz(3) fees_keys(4,5) by (auto simp: fees_inv_def c'(3))
  ultimately show ?thesis
    using c'(2) fees_keys(4,5) bz(3) by (simp add: fees_params_def genesis_supply_def cumulative_burned_def c'(3) stored_or_def)
qed

section \<open>What the end blocker burns\<close>

definition burn_ratio :: "('s, 'x) env \<Rightarrow> ('s \<Rightarrow> bytes \<rightharpoonup> bytes) \<Rightarrow> ('s, 'x) ctx \<Rightarrow> dec" where
  "burn_ratio L view c = (case BurnRatioDec (env_math L) (fees_params L view c) of Ok d \<Rightarrow> d | _ \<Rightarrow> 0)"

definition collected_fees :: "('s, 'x) env \<Rightarrow> ('s, 'x) ctx \<Rightarrow> int" where
  "collected_fees L c = GetBalance (env_keepers L) (ext c) (GetModuleAddress (env_keepers L) FeeCollectorName) FeeDenom"

definition burn_amount :: "('s, 'x) env \<Rightarrow> ('s \<Rightarrow> bytes \<rightharpoonup> bytes) \<Rightarrow> ('s, 'x) ctx \<Rightarrow> int" where
  "burn_amount L view c = collected_fees L c * burn_ratio L view c div dec_unit"

text \<open>The send restriction lets the fee collector pay the module.\<close>

definition fees_may_move :: "('s, 'x) env \<Rightarrow> send_restriction \<Rightarrow> bool" where
  "fees_may_move L restr \<longleftrightarrow> (\<forall>a. restr (GetModuleAddress (env_keepers L) FeeCollectorName) (GetModuleAddress (env_keepers L) Fees_ModuleName)
     [(FeeDenom, a)] = Ok (GetModuleAddress (env_keepers L) Fees_ModuleName))"

text \<open>From \<open>c\<close> to \<open>c'\<close> the amount was burned from the fee collector and recorded.\<close>

definition burned_step :: "('s, 'x) env \<Rightarrow> ('s \<Rightarrow> bytes \<rightharpoonup> bytes) \<Rightarrow> ('s, 'x) ctx \<Rightarrow> ('s, 'x) ctx \<Rightarrow> int \<Rightarrow> bool" where
  "burned_step L view c c' a \<longleftrightarrow>
     issued (env_keepers L) (ext c) (ext c') (GetModuleAddress (env_keepers L) FeeCollectorName) FeeDenom (- a) \<and>
     (\<forall>n. n \<noteq> Fees_StoreKey \<longrightarrow> multistore c' n = multistore c n) \<and> BlockHeight c' = BlockHeight c \<and> BlockTime c' = BlockTime c \<and>
     fees_inv L view c' \<and> fees_params L view c' = fees_params L view c \<and> genesis_supply L view c' = genesis_supply L view c \<and>
     cumulative_burned L view c' = cumulative_burned L view c + a"

lemma fees_views [simp]:
  "fees_inv L view (EmitEvent e c) = fees_inv L view c" "fees_inv L view (c\<lparr>ext := x\<rparr>) = fees_inv L view c"
  "fees_params L view (EmitEvent e c) = fees_params L view c" "fees_params L view (c\<lparr>ext := x\<rparr>) = fees_params L view c"
  "genesis_supply L view (EmitEvent e c) = genesis_supply L view c" "genesis_supply L view (c\<lparr>ext := x\<rparr>) = genesis_supply L view c"
  "cumulative_burned L view (EmitEvent e c) = cumulative_burned L view c" "cumulative_burned L view (c\<lparr>ext := x\<rparr>) = cumulative_burned L view c"
  by (simp_all add: fees_inv_def fees_params_def genesis_supply_def cumulative_burned_def)

lemma issued_zero: "bank_laws B \<Longrightarrow> issued B x x k d 0"
  by (simp add: issued_def)

lemma burn_ratio_range:
  assumes L: "sdk_laws L view" and inv: "fees_inv L view c"
  shows "BurnRatioDec (env_math L) (fees_params L view c) = Ok (burn_ratio L view c)" "0 \<le> burn_ratio L view c" "burn_ratio L view c \<le> dec_unit"
  using fees_reads(2) [OF L inv] by (auto simp: fees_valid_def BurnRatioDec_def burn_ratio_def)

lemma burn_amount_range:
  assumes L: "sdk_laws L view" and B: "bank_laws (env_keepers L)" and inv: "fees_inv L view c"
  shows "0 \<le> burn_amount L view c" "burn_amount L view c \<le> collected_fees L c" "0 \<le> collected_fees L c"
proof -
  show bal: "0 \<le> collected_fees L c" unfolding collected_fees_def by (rule GetBalance_range(1) [OF B])
  show "0 \<le> burn_amount L view c" using bal burn_ratio_range(2) [OF L inv] by (simp add: burn_amount_def pos_imp_zdiv_nonneg_iff)
  have "collected_fees L c * burn_ratio L view c \<le> collected_fees L c * dec_unit"
    using bal burn_ratio_range(3) [OF L inv] by (rule mult_left_mono [rotated])
  then have "collected_fees L c * burn_ratio L view c div dec_unit \<le> collected_fees L c * dec_unit div dec_unit"
    by (rule zdiv_mono1) simp
  then show "burn_amount L view c \<le> collected_fees L c" by (simp add: burn_amount_def)
qed

lemma burn_fees_step:
  assumes L: "sdk_laws L view" and B: "bank_laws (env_keepers L)" and inv: "fees_inv L view c" and restr: "fees_may_move L restr"
    and a: "0 < a" "a \<le> collected_fees L c" and small: "collected_fees L c < 2 ^ 255" and fits: "int_fits (cumulative_burned L view c + a)"
  shows "\<exists>c'. burn_fees L restr (collected_fees L c) a c = Ok c' \<and> burned_step L view c c' a"
proof -
  let ?B = "env_keepers L"
  let ?fc = "GetModuleAddress ?B FeeCollectorName" and ?fm = "GetModuleAddress ?B Fees_ModuleName"
  have mods: "FeeCollectorName \<in> set module_accounts" "Fees_ModuleName \<in> set module_accounts"
    by (simp_all add: module_accounts_def fees_key_defs)
  have ne: "?fc \<noteq> ?fm" using module_address_inject [OF B mods] by (simp add: fees_key_defs)
  have coins: "NewCoin ?B FeeDenom a = Ok (FeeDenom, a)" "NewCoins ?B [(FeeDenom, a)] = Ok [(FeeDenom, a)]"
      "NewCoin ?B FeeDenom (collected_fees L c - a) = Ok (FeeDenom, collected_fees L c - a)"
    using a NewCoin_uvtx [OF B] NewCoins_uvtx [OF B] by (simp_all add: FeeDenom_def)
  have r: "restr ?fc ?fm [(FeeDenom, a)] = Ok ?fm" using restr by (simp add: fees_may_move_def)
  obtain x1 where x1: "SendCoinsFromModuleToModule ?B restr (ext c) FeeCollectorName Fees_ModuleName [(FeeDenom, a)] = Ok x1"
    using SendCoinsFromModuleToModule_succeeds [where r = restr and d = FeeDenom and x = "ext c", OF B mods a(1) _ r] a(2)
    by (auto simp: collected_fees_def)
  obtain to' where "restr ?fc ?fm [(FeeDenom, a)] = Ok to'" "moved ?B (ext c) x1 ?fc to' FeeDenom a"
    by (rule SendCoinsFromModuleToModule_moved [OF B x1])
  then have moved: "moved ?B (ext c) x1 ?fc ?fm FeeDenom a" using r by simp
  have bal: "GetBalance ?B x1 ?fm FeeDenom = GetBalance ?B (ext c) ?fm FeeDenom + a" using moved ne by (simp add: moved_def)
  then have "a \<le> GetBalance ?B x1 ?fm FeeDenom" using GetBalance_range(1) [OF B] by simp
  then obtain x2 where x2: "BurnCoins ?B x1 Fees_ModuleName [(FeeDenom, a)] = Ok x2"
    using BurnCoins_fees_succeeds [OF B a(1)] by (auto simp: Fees_ModuleName_def)
  have iss: "issued ?B x1 x2 ?fm FeeDenom (- a)" using BurnCoins_issued [OF B x2] by simp
  have total: "issued ?B (ext c) x2 ?fc FeeDenom (- a)" using moved iss ne by (auto simp: issued_def moved_def)
  obtain c3 where c3: "AddCumulativeBurned L a (c\<lparr>ext := x2\<rparr>) = Ok c3" "frame Fees_StoreKey (c\<lparr>ext := x2\<rparr>) c3" "fees_inv L view c3"
      "fees_params L view c3 = fees_params L view c" "genesis_supply L view c3 = genesis_supply L view c"
      "cumulative_burned L view c3 = cumulative_burned L view c + a"
    using AddCumulativeBurned_step [OF L, of "c\<lparr>ext := x2\<rparr>" a] inv fits by auto
  have "int_fits (collected_fees L c - a)" using a small by (simp add: int_fits_def)
  then have sub: "int_Sub (env_math L) (collected_fees L c) a = Ok (collected_fees L c - a)"
    by (simp add: int_Sub_eq [OF sdk_math [OF L]])
  have "burned_step L view c (EmitEvent e (EmitEvent e' c3)) a" for e e'
    using total c3 by (simp add: burned_step_def frame_def, simp add: EmitEvent_def)
  then show ?thesis by (simp add: burn_fees_def coins x1 x2 c3(1) sub Let_def)
qed

lemma Fees_EndBlocker_step:
  assumes L: "sdk_laws L view" and B: "bank_laws (env_keepers L)" and inv: "fees_inv L view c" and restr: "fees_may_move L restr"
    and small: "collected_fees L c < 2 ^ 255" and fits: "0 \<le> cumulative_burned L view c" "cumulative_burned L view c < 2 ^ 255"
  shows "\<exists>c'. Fees_EndBlocker L restr c = Ok c' \<and> burned_step L view c c' (burn_amount L view c)"
proof -
  let ?b = "collected_fees L c" and ?r = "burn_ratio L view c" and ?a = "burn_amount L view c"
  note M = sdk_math [OF L]
  note range = burn_ratio_range [OF L inv] and amount = burn_amount_range [OF L B inv]
  have stay: "burned_step L view c c 0" using inv issued_zero [OF B] by (simp add: burned_step_def)
  have prod: "0 \<le> ?b * ?r" using amount(3) range(2) by simp
  have "?b * ?r \<le> ?b * dec_unit" using amount(3) range(3) by (rule mult_left_mono [rotated])
  also have "\<dots> < 2 ^ 315" using small by (simp add: dec_unit_def)
  finally have mul: "dec_Mul (env_math L) (LegacyNewDecFromInt (env_math L) ?b) ?r = Ok (?b * ?r)"
    using prod by (simp add: LegacyNewDecFromInt_eq [OF M] dec_Mul_exact [OF M] dec_fits_def)
  have "int_fits ?a" using amount small by (simp add: int_fits_def)
  then have trunc: "dec_TruncateInt (env_math L) (?b * ?r) = Ok ?a"
    using prod by (simp add: dec_TruncateInt_eq [OF M] sdiv_nonneg burn_amount_def)
  have code: "Fees_EndBlocker L restr c = (if ?r = 0 then Ok c else if ?b = 0 then Ok c else if ?a = 0 then Ok c
      else burn_fees L restr ?b ?a c)"
    by (simp add: Fees_EndBlocker_def fees_reads(1) [OF L inv] range(1) Let_def mul trunc flip: collected_fees_def)
  show ?thesis
  proof (cases "?a = 0")
    case True
    then show ?thesis using stay by (simp add: code)
  next
    case False
    then have "?r \<noteq> 0" "?b \<noteq> 0" by (auto simp: burn_amount_def)
    moreover have "int_fits (cumulative_burned L view c + ?a)" using fits amount small by (simp add: int_fits_def)
    ultimately show ?thesis using burn_fees_step [OF L B inv restr _ amount(2) small] False amount(1) by (simp add: code)
  qed
qed

section \<open>The invariants\<close>

lemma ReconcileInvariant_eq:
  assumes L: "sdk_laws L view" and inv: "fees_inv L view c"
    and fits: "int_fits (genesis_supply L view c - GetSupply (env_keepers L) (ext c) FeeDenom)"
  shows "ReconcileInvariant L c =
    Ok (genesis_supply L view c - GetSupply (env_keepers L) (ext c) FeeDenom \<noteq> cumulative_burned L view c)"
  using fits by (simp add: ReconcileInvariant_def fees_reads(3,4) [OF L inv] int_Sub_eq [OF sdk_math [OF L]] checked_int_def)

lemma ReconcileInvariant_holds:
  assumes L: "sdk_laws L view" and inv: "fees_inv L view c"
  shows "ReconcileInvariant L c = Ok False \<longleftrightarrow>
    genesis_supply L view c - GetSupply (env_keepers L) (ext c) FeeDenom = cumulative_burned L view c \<and>
    int_fits (cumulative_burned L view c)"
  by (auto simp: ReconcileInvariant_def fees_reads(3,4) [OF L inv] int_Sub_eq [OF sdk_math [OF L]] obind_eq_Ok)

section \<open>The properties of the module\<close>

text \<open>
  C9. The end blocker never fails: it burns exactly the burn ratio of the collected fees,
  rounded down. The fee collector and the supply shrink by that amount and the record of
  burned fees grows by it; no other balance, no other denomination and no other store
  changes.
\<close>

theorem fees_burned_exactly:
  assumes "sdk_laws L view" and "bank_laws (env_keepers L)" and "fees_inv L view c" and "fees_may_move L restr"
    and "collected_fees L c < 2 ^ 255" and "0 \<le> cumulative_burned L view c" and "cumulative_burned L view c < 2 ^ 255"
  shows "\<exists>c' a. Fees_EndBlocker L restr c = Ok c' \<and> a = collected_fees L c * burn_ratio L view c div dec_unit \<and>
    0 \<le> a \<and> a \<le> collected_fees L c \<and> cumulative_burned L view c' = cumulative_burned L view c + a \<and>
    (\<forall>k d. GetBalance (env_keepers L) (ext c') k d = GetBalance (env_keepers L) (ext c) k d -
       (if k = GetModuleAddress (env_keepers L) FeeCollectorName \<and> d = FeeDenom then a else 0)) \<and>
    (\<forall>d. GetSupply (env_keepers L) (ext c') d = GetSupply (env_keepers L) (ext c) d - (if d = FeeDenom then a else 0)) \<and>
    (\<forall>n. n \<noteq> Fees_StoreKey \<longrightarrow> multistore c' n = multistore c n)"
proof -
  obtain c' where "Fees_EndBlocker L restr c = Ok c'" "burned_step L view c c' (burn_amount L view c)"
    using Fees_EndBlocker_step [OF assms] by blast
  then show ?thesis
    using burn_amount_range [OF assms(1-3)]
    by (intro exI [of _ c'] exI [of _ "burn_amount L view c"]) (auto simp: burned_step_def issued_def burn_amount_def)
qed

definition sample_fees_chain :: ref_chain where
  "sample_fees_chain = \<lparr>rc_coins = [(''module:fee_collector'', ''uvtx'', 999), (''user'', ''uvtx'', 500)], rc_validators = [], rc_powers = []\<rparr>"

lemma fees_empty:
  assumes "store_view view Fees_StoreKey c = Map.empty"
  shows "fees_inv L view c" "fees_params L view c = Fees_DefaultParams (env_math L)" "genesis_supply L view c = 0" "cumulative_burned L view c = 0"
  by (simp_all add: fees_inv_def fees_params_def genesis_supply_def cumulative_burned_def stored_or_def assms)

lemma sample_fees:
  "collected_fees ref_env (ref_ctx sample_fees_chain) = 999" "burn_ratio ref_env ref_view (ref_ctx sample_fees_chain) = 4 * 10 ^ 17"
proof -
  show "collected_fees ref_env (ref_ctx sample_fees_chain) = 999"
    by (simp add: collected_fees_def ref_keepers_def ref_module_def sample_fees_chain_def fees_key_defs)
  have "dec_fits (40 * 10 ^ 16)" by (simp add: dec_fits_def)
  then have "BurnRatioDec ref_math (Fees_DefaultParams ref_math) = Ok (4 * 10 ^ 17)"
    using dec_roundtrip [OF ref_math_laws] LegacyNewDecWithPrec_eq [OF ref_math_laws, of 2 40] by (simp add: BurnRatioDec_def Fees_DefaultParams_def)
  then show "burn_ratio ref_env ref_view (ref_ctx sample_fees_chain) = 4 * 10 ^ 17"
    by (simp add: burn_ratio_def fees_empty(2) [OF ref_ctx_store])
qed

theorem fees_burned_exactly_witness:
  "\<exists>c'. Fees_EndBlocker ref_env (\<lambda>_ to _. Ok to) (ref_ctx sample_fees_chain) = Ok c' \<and> cumulative_burned ref_env ref_view c' = 399 \<and>
     GetBalance ref_keepers (ext c') ''module:fee_collector'' ''uvtx'' = 600 \<and> GetSupply ref_keepers (ext c') ''uvtx'' = 1100"
proof -
  have move: "fees_may_move ref_env (\<lambda>_ to _. Ok to)" by (simp add: fees_may_move_def)
  have bank: "bank_laws (env_keepers ref_env)" by (simp add: ref_bank_laws)
  have inv: "fees_inv ref_env ref_view (ref_ctx sample_fees_chain)" and b: "cumulative_burned ref_env ref_view (ref_ctx sample_fees_chain) = 0"
    by (simp_all add: fees_empty [OF ref_ctx_store])
  have "999 * (4 * 10 ^ 17) div dec_unit = 399" by (simp add: dec_unit_def)
  moreover have "GetBalance ref_keepers sample_fees_chain ''module:fee_collector'' ''uvtx'' = 999" "GetSupply ref_keepers sample_fees_chain ''uvtx'' = 1499"
    by (simp_all add: ref_keepers_def sample_fees_chain_def)
  moreover have "GetModuleAddress ref_keepers FeeCollectorName = ''module:fee_collector''" by (simp add: ref_keepers_def ref_module_def FeeCollectorName_def)
  ultimately show ?thesis
    using fees_burned_exactly [OF ref_sdk_laws bank inv move] by (auto simp: sample_fees b FeeDenom_def)
qed

text \<open>
  C24. Both crisis invariants survive the end blocker: the books stay balanced (genesis
  supply minus supply is what was burned) and the module's account is empty again.
\<close>

theorem Fees_EndBlocker_keeps_invariants:
  assumes "sdk_laws L view" and "bank_laws (env_keepers L)" and "fees_inv L view c" and "fees_may_move L restr"
    and "collected_fees L c < 2 ^ 255" and "0 \<le> cumulative_burned L view c" and "cumulative_burned L view c < 2 ^ 255"
    and "ReconcileInvariant L c = Ok False" and "ModuleBalanceInvariant L c = Ok False"
  shows "\<exists>c'. Fees_EndBlocker L restr c = Ok c' \<and> ReconcileInvariant L c' = Ok False \<and> ModuleBalanceInvariant L c' = Ok False"
proof -
  obtain c' where c': "Fees_EndBlocker L restr c = Ok c'" and step: "burned_step L view c c' (burn_amount L view c)"
    using Fees_EndBlocker_step [OF assms(1-7)] by blast
  have amount: "0 \<le> burn_amount L view c" "burn_amount L view c < 2 ^ 255" using burn_amount_range [OF assms(1-3)] assms(5) by simp_all
  have ne: "GetModuleAddress (env_keepers L) FeeCollectorName \<noteq> GetModuleAddress (env_keepers L) Fees_ModuleName"
    using module_address_inject [OF assms(2)] by (simp add: module_accounts_def fees_key_defs)
  have "fees_inv L view c'" using step by (simp add: burned_step_def)
  then have "ReconcileInvariant L c' = Ok False"
    using assms(6-8) step amount
    by (simp add: ReconcileInvariant_holds [OF assms(1)] assms(3) burned_step_def issued_def int_fits_def)
  moreover have "ModuleBalanceInvariant L c' = Ok False"
    using assms(9) step ne by (simp add: ModuleBalanceInvariant_def burned_step_def issued_def)
  ultimately show ?thesis using c' by blast
qed

lemma Fees_InitGenesis_step:
  assumes L: "sdk_laws L view" and new: "store_view view Fees_StoreKey c = Map.empty" and valid: "fees_valid (env_math L) p"
    and small: "FeesParams_Size p < 2 ^ 16" and fits: "int_fits (GetSupply (env_keepers L) (ext c) FeeDenom)"
  shows "\<exists>c'. Fees_InitGenesis L p c = Ok c' \<and> frame Fees_StoreKey c c' \<and> fees_inv L view c' \<and> fees_params L view c' = p \<and>
    genesis_supply L view c' = GetSupply (env_keepers L) (ext c) FeeDenom \<and> cumulative_burned L view c' = 0"
proof -
  note empty = fees_empty [OF new]
  obtain c1 where c1: "Fees_SetParams L p c = Ok c1" "frame Fees_StoreKey c c1" "fees_inv L view c1" "fees_params L view c1 = p"
      "cumulative_burned L view c1 = 0"
    using Fees_SetParams_step [OF L empty(1) valid small] empty(4) by auto
  obtain bz c2 where c2: "int_Marshal (env_math L) (GetSupply (env_keepers L) (ext c) FeeDenom) = Ok bz"
      "int_Unmarshal (env_math L) bz = Ok (GetSupply (env_keepers L) (ext c) FeeDenom)" "store_set L Fees_StoreKey KeyGenesisSupply bz c1 = Ok c2"
      "frame Fees_StoreKey c1 c2" "store_view view Fees_StoreKey c2 = (store_view view Fees_StoreKey c1)(KeyGenesisSupply \<mapsto> bz)"
    by (rule int_put [OF L fits fees_keys(2)])
  have "Fees_InitGenesis L p c = Ok c2"
    using c1(1) c2(1,3) valid frame_fields(1) [OF c1(2)]
    by (simp add: Fees_InitGenesis_def Fees_GenesisState_Validate_def FeesParams_Validate_iff [OF sdk_math [OF L], THEN iffD2] SetGenesisSupply_def)
  moreover have "fees_inv L view c2" using c1(3) c2(2) fits fees_keys(4,6) by (auto simp: fees_inv_def c2(5))
  moreover have "fees_params L view c2 = p" using c1(4) fees_keys(4) by (simp add: fees_params_def c2(5))
  moreover have "cumulative_burned L view c2 = 0" using c1(5) fees_keys(6) by (simp add: cumulative_burned_def c2(5))
  moreover have "genesis_supply L view c2 = GetSupply (env_keepers L) (ext c) FeeDenom" using c2(2) by (simp add: genesis_supply_def c2(5) stored_or_def)
  ultimately show ?thesis using frame_trans [OF c1(2) c2(4)] by blast
qed

lemma Fees_DefaultParams_small: "FeesParams_Size (Fees_DefaultParams ref_math) < 2 ^ 16"
proof -
  have fits: "dec_fits (40 * 10 ^ 16)" "dec_fits (60 * 10 ^ 16)" by (simp_all add: dec_fits_def)
  have len: "length (fp_BurnRatio (Fees_DefaultParams ref_math)) < 128" "length (fp_DistributionRatio (Fees_DefaultParams ref_math)) < 128"
    using dec_String_short [OF ref_math_laws fits(1)] dec_String_short [OF ref_math_laws fits(2)]
      LegacyNewDecWithPrec_eq [OF ref_math_laws, of 2 40] LegacyNewDecWithPrec_eq [OF ref_math_laws, of 2 60]
    by (simp_all add: Fees_DefaultParams_def)
  show ?thesis
    using len size_string_le [of "fp_BurnRatio (Fees_DefaultParams ref_math)"] size_string_le [of "fp_DistributionRatio (Fees_DefaultParams ref_math)"]
    by (simp add: FeesParams_Size_def)
qed

lemma sample_fees_genesis:
  obtains c where "Fees_InitGenesis ref_env (Fees_DefaultParams ref_math) (ref_ctx sample_fees_chain) = Ok c" and "fees_inv ref_env ref_view c"
    and "ext c = sample_fees_chain" and "fees_params ref_env ref_view c = Fees_DefaultParams ref_math"
    and "genesis_supply ref_env ref_view c = 1499" and "cumulative_burned ref_env ref_view c = 0"
proof -
  have sup: "GetSupply ref_keepers sample_fees_chain FeeDenom = 1499" by (simp add: ref_keepers_def sample_fees_chain_def FeeDenom_def)
  then have "int_fits (GetSupply (env_keepers ref_env) (ext (ref_ctx sample_fees_chain)) FeeDenom)" by (simp add: int_fits_def)
  from Fees_InitGenesis_step [OF ref_sdk_laws ref_ctx_store _ Fees_DefaultParams_small this] Fees_DefaultParams_valid [OF ref_math_laws]
  obtain c where "Fees_InitGenesis ref_env (Fees_DefaultParams ref_math) (ref_ctx sample_fees_chain) = Ok c" "frame Fees_StoreKey (ref_ctx sample_fees_chain) c"
      "fees_inv ref_env ref_view c" "fees_params ref_env ref_view c = Fees_DefaultParams ref_math"
      "genesis_supply ref_env ref_view c = 1499" "cumulative_burned ref_env ref_view c = 0"
    by (auto simp: sup)
  then show thesis using that frame_fields(1) by fastforce
qed

theorem Fees_EndBlocker_keeps_invariants_witness:
  "\<exists>c c'. Fees_InitGenesis ref_env (Fees_DefaultParams ref_math) (ref_ctx sample_fees_chain) = Ok c \<and>
     Fees_EndBlocker ref_env (\<lambda>_ to _. Ok to) c = Ok c' \<and> ReconcileInvariant ref_env c' = Ok False \<and> ModuleBalanceInvariant ref_env c' = Ok False"
proof (rule sample_fees_genesis)
  fix c assume c: "Fees_InitGenesis ref_env (Fees_DefaultParams ref_math) (ref_ctx sample_fees_chain) = Ok c" "fees_inv ref_env ref_view c"
    "ext c = sample_fees_chain" "genesis_supply ref_env ref_view c = 1499" "cumulative_burned ref_env ref_view c = 0"
  have bank: "bank_laws (env_keepers ref_env)" by (simp add: ref_bank_laws)
  have move: "fees_may_move ref_env (\<lambda>_ to _. Ok to)" by (simp add: fees_may_move_def)
  have "collected_fees ref_env c = 999" using sample_fees(1) c(3) by (simp add: collected_fees_def)
  moreover have "ReconcileInvariant ref_env c = Ok False"
    using ReconcileInvariant_holds [OF ref_sdk_laws c(2)] c(3,4,5)
    by (simp add: int_fits_def, simp add: ref_keepers_def sample_fees_chain_def FeeDenom_def)
  moreover have "ModuleBalanceInvariant ref_env c = Ok False"
    by (simp add: ModuleBalanceInvariant_def c(3), simp add: ref_keepers_def ref_module_def sample_fees_chain_def fees_key_defs)
  ultimately show ?thesis
    using Fees_EndBlocker_keeps_invariants [OF ref_sdk_laws bank c(2) move] c(1,5) by auto
qed




end
