(* ===== verification/Rwa_Messages.thy ===== *)
theory Rwa_Messages
  imports Sdk Wire
begin

text \<open>
  The messages \<open>x/rwa\<close> stores, an asset record and the module's parameters, with their
  generated codecs (\<open>x/rwa/types/types.pb.go\<close>).
\<close>

subsection \<open>AssetRecord\<close>

record AssetRecord =
  ar_AssetId :: string
  ar_Issuer :: string
  ar_Name :: string
  ar_Description :: string
  ar_Status :: int
  ar_OraclePair :: string
  ar_Denom :: string
  ar_Bond :: string
  ar_NotionalMinted :: string
  ar_AllowAll :: bool
  ar_AttestedPrice :: string
  ar_AttestedAt :: time
  ar_CreatedAt :: time
  ar_SettledAt :: time

definition zero_AssetRecord :: AssetRecord where
  "zero_AssetRecord = \<lparr>ar_AssetId = [], ar_Issuer = [], ar_Name = [], ar_Description = [], ar_Status = 0, ar_OraclePair = [], ar_Denom = [], ar_Bond = [], ar_NotionalMinted = [], ar_AllowAll = False, ar_AttestedPrice = [], ar_AttestedAt = zero_time, ar_CreatedAt = zero_time, ar_SettledAt = zero_time\<rparr>"

definition AssetRecord_Size :: "time_lib \<Rightarrow> AssetRecord \<Rightarrow> nat" where
  "AssetRecord_Size T m =
     size_string (ar_AssetId m) +
     size_string (ar_Issuer m) +
     size_string (ar_Name m) +
     size_string (ar_Description m) +
     size_int64 (ar_Status m) +
     size_string (ar_OraclePair m) +
     size_string (ar_Denom m) +
     size_string (ar_Bond m) +
     size_string (ar_NotionalMinted m) +
     size_bool (ar_AllowAll m) +
     size_string (ar_AttestedPrice m) +
     size_bytes (SizeOfStdTime T (ar_AttestedAt m)) +
     size_bytes (SizeOfStdTime T (ar_CreatedAt m)) +
     size_bytes (SizeOfStdTime T (ar_SettledAt m))"

definition AssetRecord_MarshalToSizedBuffer :: "time_lib \<Rightarrow> AssetRecord \<Rightarrow> bytes outcome" where
  "AssetRecord_MarshalToSizedBuffer T m =
     obind (StdTimeMarshalTo T (ar_SettledAt m)) (\<lambda>bz_SettledAt.
     obind (StdTimeMarshalTo T (ar_CreatedAt m)) (\<lambda>bz_CreatedAt.
     obind (StdTimeMarshalTo T (ar_AttestedAt m)) (\<lambda>bz_AttestedAt.
     Ok (put_string 10 (ar_AssetId m)
       (put_string 18 (ar_Issuer m)
       (put_string 26 (ar_Name m)
       (put_string 34 (ar_Description m)
       (put_int64 40 (ar_Status m)
       (put_string 50 (ar_OraclePair m)
       (put_string 58 (ar_Denom m)
       (put_string 66 (ar_Bond m)
       (put_string 74 (ar_NotionalMinted m)
       (put_bool 80 (ar_AllowAll m)
       (put_string 90 (ar_AttestedPrice m)
       (put_bytes 98 bz_AttestedAt (put_bytes 106 bz_CreatedAt (put_bytes 114 bz_SettledAt [])))))))))))))))))"

definition AssetRecord_Marshal :: "time_lib \<Rightarrow> AssetRecord \<Rightarrow> bytes outcome" where
  "AssetRecord_Marshal T m = sized_buffer (AssetRecord_Size T m) (AssetRecord_MarshalToSizedBuffer T m)"

definition AssetRecord_field :: "time_lib \<Rightarrow> AssetRecord handler" where
  "AssetRecord_field T fieldNum wireType pre cur m =
     (if fieldNum = 1 then field_string wireType cur (\<lambda>v m. m\<lparr>ar_AssetId := v\<rparr>) m
      else if fieldNum = 2 then field_string wireType cur (\<lambda>v m. m\<lparr>ar_Issuer := v\<rparr>) m
      else if fieldNum = 3 then field_string wireType cur (\<lambda>v m. m\<lparr>ar_Name := v\<rparr>) m
      else if fieldNum = 4 then field_string wireType cur (\<lambda>v m. m\<lparr>ar_Description := v\<rparr>) m
      else if fieldNum = 5 then field_enum wireType cur (\<lambda>v m. m\<lparr>ar_Status := v\<rparr>) m
      else if fieldNum = 6 then field_string wireType cur (\<lambda>v m. m\<lparr>ar_OraclePair := v\<rparr>) m
      else if fieldNum = 7 then field_string wireType cur (\<lambda>v m. m\<lparr>ar_Denom := v\<rparr>) m
      else if fieldNum = 8 then field_string wireType cur (\<lambda>v m. m\<lparr>ar_Bond := v\<rparr>) m
      else if fieldNum = 9 then field_string wireType cur (\<lambda>v m. m\<lparr>ar_NotionalMinted := v\<rparr>) m
      else if fieldNum = 10 then field_bool wireType cur (\<lambda>v m. m\<lparr>ar_AllowAll := v\<rparr>) m
      else if fieldNum = 11 then field_string wireType cur (\<lambda>v m. m\<lparr>ar_AttestedPrice := v\<rparr>) m
      else if fieldNum = 12 then field_msg wireType cur (StdTimeUnmarshal T) (\<lambda>v m. m\<lparr>ar_AttestedAt := v\<rparr>) m
      else if fieldNum = 13 then field_msg wireType cur (StdTimeUnmarshal T) (\<lambda>v m. m\<lparr>ar_CreatedAt := v\<rparr>) m
      else if fieldNum = 14 then field_msg wireType cur (StdTimeUnmarshal T) (\<lambda>v m. m\<lparr>ar_SettledAt := v\<rparr>) m
      else field_skip pre m)"

definition AssetRecord_Unmarshal :: "time_lib \<Rightarrow> bytes \<Rightarrow> AssetRecord outcome" where
  "AssetRecord_Unmarshal T dAtA = unmarshal_loop (AssetRecord_field T) zero_AssetRecord 0 dAtA"

text \<open>The values a AssetRecord of the program holds: Go integers and encodable times.\<close>

definition AssetRecord_wf :: "time_lib \<Rightarrow> AssetRecord \<Rightarrow> bool" where
  "AssetRecord_wf T m \<longleftrightarrow> is_i32 (ar_Status m) \<and> valid_time (ar_AttestedAt m) \<and> valid_time (ar_CreatedAt m) \<and> valid_time (ar_SettledAt m) \<and> AssetRecord_Size T m < 2 ^ 63"

lemma AssetRecord_handler:
  "AssetRecord_field T 1 2 pre cur m = field_string 2 cur (\<lambda>v m. m\<lparr>ar_AssetId := v\<rparr>) m"
  "AssetRecord_field T 2 2 pre cur m = field_string 2 cur (\<lambda>v m. m\<lparr>ar_Issuer := v\<rparr>) m"
  "AssetRecord_field T 3 2 pre cur m = field_string 2 cur (\<lambda>v m. m\<lparr>ar_Name := v\<rparr>) m"
  "AssetRecord_field T 4 2 pre cur m = field_string 2 cur (\<lambda>v m. m\<lparr>ar_Description := v\<rparr>) m"
  "AssetRecord_field T 5 0 pre cur m = field_enum 0 cur (\<lambda>v m. m\<lparr>ar_Status := v\<rparr>) m"
  "AssetRecord_field T 6 2 pre cur m = field_string 2 cur (\<lambda>v m. m\<lparr>ar_OraclePair := v\<rparr>) m"
  "AssetRecord_field T 7 2 pre cur m = field_string 2 cur (\<lambda>v m. m\<lparr>ar_Denom := v\<rparr>) m"
  "AssetRecord_field T 8 2 pre cur m = field_string 2 cur (\<lambda>v m. m\<lparr>ar_Bond := v\<rparr>) m"
  "AssetRecord_field T 9 2 pre cur m = field_string 2 cur (\<lambda>v m. m\<lparr>ar_NotionalMinted := v\<rparr>) m"
  "AssetRecord_field T 10 0 pre cur m = field_bool 0 cur (\<lambda>v m. m\<lparr>ar_AllowAll := v\<rparr>) m"
  "AssetRecord_field T 11 2 pre cur m = field_string 2 cur (\<lambda>v m. m\<lparr>ar_AttestedPrice := v\<rparr>) m"
  "AssetRecord_field T 12 2 pre cur m = field_msg 2 cur (StdTimeUnmarshal T) (\<lambda>v m. m\<lparr>ar_AttestedAt := v\<rparr>) m"
  "AssetRecord_field T 13 2 pre cur m = field_msg 2 cur (StdTimeUnmarshal T) (\<lambda>v m. m\<lparr>ar_CreatedAt := v\<rparr>) m"
  "AssetRecord_field T 14 2 pre cur m = field_msg 2 cur (StdTimeUnmarshal T) (\<lambda>v m. m\<lparr>ar_SettledAt := v\<rparr>) m"
  by (simp_all add: AssetRecord_field_def)

lemmas AssetRecord_steps =
  loop_string [where h = "AssetRecord_field T", OF AssetRecord_handler(1)]
  loop_string [where h = "AssetRecord_field T", OF AssetRecord_handler(2)]
  loop_string [where h = "AssetRecord_field T", OF AssetRecord_handler(3)]
  loop_string [where h = "AssetRecord_field T", OF AssetRecord_handler(4)]
  loop_enum [where h = "AssetRecord_field T", OF AssetRecord_handler(5)]
  loop_string [where h = "AssetRecord_field T", OF AssetRecord_handler(6)]
  loop_string [where h = "AssetRecord_field T", OF AssetRecord_handler(7)]
  loop_string [where h = "AssetRecord_field T", OF AssetRecord_handler(8)]
  loop_string [where h = "AssetRecord_field T", OF AssetRecord_handler(9)]
  loop_bool [where h = "AssetRecord_field T", OF AssetRecord_handler(10)]
  loop_string [where h = "AssetRecord_field T", OF AssetRecord_handler(11)]
  loop_msg [where h = "AssetRecord_field T", OF AssetRecord_handler(12)]
  loop_msg [where h = "AssetRecord_field T", OF AssetRecord_handler(13)]
  loop_msg [where h = "AssetRecord_field T", OF AssetRecord_handler(14)]
  for T

lemma AssetRecord_roundtrip:
  assumes T: "time_laws T" and wf: "AssetRecord_wf T m"
  shows "\<exists>bz. AssetRecord_Marshal T m = Ok bz \<and> length bz = AssetRecord_Size T m \<and> AssetRecord_Unmarshal T bz = Ok m"
proof -
  from wf have "valid_time (ar_AttestedAt m)" by (simp add: AssetRecord_wf_def)
  with T obtain bz_AttestedAt where tAttestedAt: "StdTimeMarshalTo T (ar_AttestedAt m) = Ok bz_AttestedAt"
      "SizeOfStdTime T (ar_AttestedAt m) = length bz_AttestedAt" "StdTimeUnmarshal T bz_AttestedAt = Ok (ar_AttestedAt m)"
    by (metis time_lawsD)
  from wf have "valid_time (ar_CreatedAt m)" by (simp add: AssetRecord_wf_def)
  with T obtain bz_CreatedAt where tCreatedAt: "StdTimeMarshalTo T (ar_CreatedAt m) = Ok bz_CreatedAt"
      "SizeOfStdTime T (ar_CreatedAt m) = length bz_CreatedAt" "StdTimeUnmarshal T bz_CreatedAt = Ok (ar_CreatedAt m)"
    by (metis time_lawsD)
  from wf have "valid_time (ar_SettledAt m)" by (simp add: AssetRecord_wf_def)
  with T obtain bz_SettledAt where tSettledAt: "StdTimeMarshalTo T (ar_SettledAt m) = Ok bz_SettledAt"
      "SizeOfStdTime T (ar_SettledAt m) = length bz_SettledAt" "StdTimeUnmarshal T bz_SettledAt = Ok (ar_SettledAt m)"
    by (metis time_lawsD)
  define bz where "bz = put_string 10 (ar_AssetId m)
       (put_string 18 (ar_Issuer m)
       (put_string 26 (ar_Name m)
       (put_string 34 (ar_Description m)
       (put_int64 40 (ar_Status m)
       (put_string 50 (ar_OraclePair m)
       (put_string 58 (ar_Denom m)
       (put_string 66 (ar_Bond m)
       (put_string 74 (ar_NotionalMinted m)
       (put_bool 80 (ar_AllowAll m)
       (put_string 90 (ar_AttestedPrice m)
       (put_bytes 98 bz_AttestedAt (put_bytes 106 bz_CreatedAt (put_bytes 114 bz_SettledAt [])))))))))))))"
  have w: "AssetRecord_MarshalToSizedBuffer T m = Ok bz"
    by (simp add: AssetRecord_MarshalToSizedBuffer_def bz_def tAttestedAt tCreatedAt tSettledAt)
  have len: "length bz = AssetRecord_Size T m"
    by (simp add: bz_def AssetRecord_Size_def tAttestedAt tCreatedAt tSettledAt)
  have lt: "length bz < 2 ^ 63" using wf by (simp add: len AssetRecord_wf_def)
  have "AssetRecord_Marshal T m = Ok bz"
    by (simp add: AssetRecord_Marshal_def w len sized_buffer_exact)
  moreover have "AssetRecord_Unmarshal T bz = Ok m"
    using wf lt
    by (simp add: AssetRecord_Unmarshal_def bz_def AssetRecord_wf_def AssetRecord_steps fits_int_def zero_AssetRecord_def tAttestedAt tCreatedAt tSettledAt )
  ultimately show ?thesis using len by blast
qed

interpretation asset_codec: message_codec "AssetRecord_Size T" "AssetRecord_Marshal T" "AssetRecord_Unmarshal T" "\<lambda>m. time_laws T \<and> AssetRecord_wf T m" for T
  by unfold_locales (blast intro: AssetRecord_roundtrip)

subsection \<open>RWAParams\<close>

record RWAParams =
  rp_MinIssuerBond :: string
  rp_MintFeeRate :: string
  rp_SettleFeeRate :: string

definition zero_RWAParams :: RWAParams where
  "zero_RWAParams = \<lparr>rp_MinIssuerBond = [], rp_MintFeeRate = [], rp_SettleFeeRate = []\<rparr>"

definition RWAParams_Size :: "RWAParams \<Rightarrow> nat" where
  "RWAParams_Size m =
     size_string (rp_MinIssuerBond m) +
     size_string (rp_MintFeeRate m) +
     size_string (rp_SettleFeeRate m)"

definition RWAParams_MarshalToSizedBuffer :: "RWAParams \<Rightarrow> bytes outcome" where
  "RWAParams_MarshalToSizedBuffer m =
     Ok (put_string 10 (rp_MinIssuerBond m)
       (put_string 18 (rp_MintFeeRate m)
       (put_string 26 (rp_SettleFeeRate m)
       [])))"

definition RWAParams_Marshal :: "RWAParams \<Rightarrow> bytes outcome" where
  "RWAParams_Marshal m = sized_buffer (RWAParams_Size m) (RWAParams_MarshalToSizedBuffer m)"

definition RWAParams_field :: "RWAParams handler" where
  "RWAParams_field fieldNum wireType pre cur m =
     (if fieldNum = 1 then field_string wireType cur (\<lambda>v m. m\<lparr>rp_MinIssuerBond := v\<rparr>) m
      else if fieldNum = 2 then field_string wireType cur (\<lambda>v m. m\<lparr>rp_MintFeeRate := v\<rparr>) m
      else if fieldNum = 3 then field_string wireType cur (\<lambda>v m. m\<lparr>rp_SettleFeeRate := v\<rparr>) m
      else field_skip pre m)"

definition RWAParams_Unmarshal :: "bytes \<Rightarrow> RWAParams outcome" where
  "RWAParams_Unmarshal dAtA = unmarshal_loop (RWAParams_field) zero_RWAParams 0 dAtA"

text \<open>The values a RWAParams of the program holds: Go integers and encodable times.\<close>

definition RWAParams_wf :: "RWAParams \<Rightarrow> bool" where
  "RWAParams_wf m \<longleftrightarrow> RWAParams_Size m < 2 ^ 63"

lemma RWAParams_handler:
  "RWAParams_field 1 2 pre cur m = field_string 2 cur (\<lambda>v m. m\<lparr>rp_MinIssuerBond := v\<rparr>) m"
  "RWAParams_field 2 2 pre cur m = field_string 2 cur (\<lambda>v m. m\<lparr>rp_MintFeeRate := v\<rparr>) m"
  "RWAParams_field 3 2 pre cur m = field_string 2 cur (\<lambda>v m. m\<lparr>rp_SettleFeeRate := v\<rparr>) m"
  by (simp_all add: RWAParams_field_def)

lemmas RWAParams_steps =
  loop_string [where h = "RWAParams_field", OF RWAParams_handler(1)]
  loop_string [where h = "RWAParams_field", OF RWAParams_handler(2)]
  loop_string [where h = "RWAParams_field", OF RWAParams_handler(3)]

lemma RWAParams_roundtrip:
  assumes wf: "RWAParams_wf m"
  shows "\<exists>bz. RWAParams_Marshal m = Ok bz \<and> length bz = RWAParams_Size m \<and> RWAParams_Unmarshal bz = Ok m"
proof -
  define bz where "bz = put_string 10 (rp_MinIssuerBond m)
       (put_string 18 (rp_MintFeeRate m)
       (put_string 26 (rp_SettleFeeRate m)
       []))"
  have w: "RWAParams_MarshalToSizedBuffer m = Ok bz"
    by (simp add: RWAParams_MarshalToSizedBuffer_def bz_def )
  have len: "length bz = RWAParams_Size m"
    by (simp add: bz_def RWAParams_Size_def )
  have lt: "length bz < 2 ^ 63" using wf by (simp add: len RWAParams_wf_def)
  have "RWAParams_Marshal m = Ok bz"
    by (simp add: RWAParams_Marshal_def w len sized_buffer_exact)
  moreover have "RWAParams_Unmarshal bz = Ok m"
    using wf lt
    by (simp add: RWAParams_Unmarshal_def bz_def RWAParams_wf_def RWAParams_steps fits_int_def zero_RWAParams_def  )
  ultimately show ?thesis using len by blast
qed

interpretation rwa_params_codec: message_codec RWAParams_Size RWAParams_Marshal RWAParams_Unmarshal RWAParams_wf
  by unfold_locales (rule RWAParams_roundtrip)

end
