(* ===== verification/Rwa_Types.thy ===== *)
theory Rwa_Types
  imports Rwa_Messages Stores
begin

text \<open>
  \<open>x/rwa/types\<close>: errors, store keys, parameters, messages and genesis state with their
  validation.
\<close>

section \<open>Names, errors, status\<close>

definition Rwa_ModuleName :: string where "Rwa_ModuleName = ''rwa''"
definition Rwa_StoreKey :: string where "Rwa_StoreKey = Rwa_ModuleName"
definition BondDenom :: string where "BondDenom = ''uvtx''"
definition RWADenomPrefix :: string where "RWADenomPrefix = ''rwa/''"

definition Rwa_ErrInvalidSigner :: error where "Rwa_ErrInvalidSigner = Registered Rwa_ModuleName 2"
definition Rwa_ErrUnauthorized :: error where "Rwa_ErrUnauthorized = Registered Rwa_ModuleName 3"
definition ErrAssetExists :: error where "ErrAssetExists = Registered Rwa_ModuleName 4"
definition ErrAssetNotFound :: error where "ErrAssetNotFound = Registered Rwa_ModuleName 5"
definition ErrInvalidStatus :: error where "ErrInvalidStatus = Registered Rwa_ModuleName 6"
definition ErrBondTooLow :: error where "ErrBondTooLow = Registered Rwa_ModuleName 7"
definition ErrAttestationFailed :: error where "ErrAttestationFailed = Registered Rwa_ModuleName 8"
definition ErrInvalidNotional :: error where "ErrInvalidNotional = Registered Rwa_ModuleName 9"
definition ErrTransferRestricted :: error where "ErrTransferRestricted = Registered Rwa_ModuleName 10"
definition ErrInvalidAssetID :: error where "ErrInvalidAssetID = Registered Rwa_ModuleName 11"
definition Rwa_ErrInvalidParams :: error where "Rwa_ErrInvalidParams = Registered Rwa_ModuleName 12"
definition ErrInvalidAmount :: error where "ErrInvalidAmount = Registered Rwa_ModuleName 13"

lemmas rwa_error_defs =
  Rwa_ErrInvalidSigner_def Rwa_ErrUnauthorized_def ErrAssetExists_def ErrAssetNotFound_def
  ErrInvalidStatus_def ErrBondTooLow_def ErrAttestationFailed_def ErrInvalidNotional_def
  ErrTransferRestricted_def ErrInvalidAssetID_def Rwa_ErrInvalidParams_def ErrInvalidAmount_def

definition DRAFT :: int where "DRAFT = 1"
definition ATTESTED :: int where "ATTESTED = 2"
definition ACTIVE :: int where "ACTIVE = 3"
definition SETTLED :: int where "SETTLED = 4"

lemmas status_defs = DRAFT_def ATTESTED_def ACTIVE_def SETTLED_def

section \<open>Store keys\<close>

definition KeyPrefixAsset :: bytes where "KeyPrefixAsset = [byte 1]"
definition KeyPrefixIssuerIndex :: bytes where "KeyPrefixIssuerIndex = [byte 2]"
definition KeyPrefixAllowlist :: bytes where "KeyPrefixAllowlist = [byte 3]"
definition KeyPrefixDenylist :: bytes where "KeyPrefixDenylist = [byte 4]"
definition Rwa_KeyParams :: bytes where "Rwa_KeyParams = [byte 5]"

definition AssetKey :: "string \<Rightarrow> bytes" where
  "AssetKey assetID = KeyPrefixAsset @ assetID"

definition IssuerIndexPrefix :: "addr_lib \<Rightarrow> addr \<Rightarrow> bytes outcome" where
  "IssuerIndexPrefix A issuer =
     obind (MustLengthPrefix A issuer) (\<lambda>prefixed. Ok (KeyPrefixIssuerIndex @ prefixed))"

definition IssuerIndexKey :: "addr_lib \<Rightarrow> addr \<Rightarrow> string \<Rightarrow> bytes outcome" where
  "IssuerIndexKey A issuer assetID =
     obind (MustLengthPrefix A issuer) (\<lambda>prefixed. Ok (KeyPrefixIssuerIndex @ prefixed @ ''/'' @ assetID))"

definition membershipPrefix :: "bytes \<Rightarrow> string \<Rightarrow> bytes" where
  "membershipPrefix p assetID = p @ [byte (int (length assetID))] @ assetID"

definition membershipKey :: "bytes \<Rightarrow> string \<Rightarrow> addr \<Rightarrow> bytes" where
  "membershipKey p assetID addr = membershipPrefix p assetID @ addr"

definition AllowlistKey :: "string \<Rightarrow> addr \<Rightarrow> bytes" where
  "AllowlistKey assetID addr = membershipKey KeyPrefixAllowlist assetID addr"

definition DenylistKey :: "string \<Rightarrow> addr \<Rightarrow> bytes" where
  "DenylistKey assetID addr = membershipKey KeyPrefixDenylist assetID addr"

definition AllowlistPrefix :: "string \<Rightarrow> bytes" where
  "AllowlistPrefix assetID = membershipPrefix KeyPrefixAllowlist assetID"

definition DenylistPrefix :: "string \<Rightarrow> bytes" where
  "DenylistPrefix assetID = membershipPrefix KeyPrefixDenylist assetID"

section \<open>Parameters\<close>

definition Rwa_DefaultParams :: "math_lib \<Rightarrow> RWAParams" where
  "Rwa_DefaultParams M =
     \<lparr>rp_MinIssuerBond = int_String M 10000000000,
      rp_MintFeeRate = dec_String M (LegacyNewDecWithPrec M 1 3),
      rp_SettleFeeRate = dec_String M (LegacyNewDecWithPrec M 1 3)\<rparr>"

definition MinIssuerBondInt :: "math_lib \<Rightarrow> RWAParams \<Rightarrow> int option" where
  "MinIssuerBondInt M p = NewIntFromString M (rp_MinIssuerBond p)"

definition MintFeeRateDec :: "math_lib \<Rightarrow> RWAParams \<Rightarrow> dec outcome" where
  "MintFeeRateDec M p = LegacyNewDecFromStr M (rp_MintFeeRate p)"

definition SettleFeeRateDec :: "math_lib \<Rightarrow> RWAParams \<Rightarrow> dec outcome" where
  "SettleFeeRateDec M p = LegacyNewDecFromStr M (rp_SettleFeeRate p)"

definition validateFeeRate :: "math_lib \<Rightarrow> string \<Rightarrow> unit outcome" where
  "validateFeeRate M s =
     (case LegacyNewDecFromStr M s of
        Panic \<Rightarrow> Panic
      | Err _ \<Rightarrow> Err Rwa_ErrInvalidParams
      | Ok d \<Rightarrow> if d < 0 \<or> d \<ge> LegacyNewDec M 1 then Err Rwa_ErrInvalidParams else Ok ())"

definition RWAParams_Validate :: "math_lib \<Rightarrow> RWAParams \<Rightarrow> unit outcome" where
  "RWAParams_Validate M p =
     (case NewIntFromString M (rp_MinIssuerBond p) of
        None \<Rightarrow> Err Rwa_ErrInvalidParams
      | Some bond \<Rightarrow>
          if bond < 0 then Err Rwa_ErrInvalidParams
          else obind (validateFeeRate M (rp_MintFeeRate p)) (\<lambda>_.
               validateFeeRate M (rp_SettleFeeRate p)))"

section \<open>Messages\<close>

text \<open>\<open>^[a-z0-9][a-z0-9-]{2,42}$\<close> and \<open>^[A-Z0-9]+:[A-Z0-9]+$\<close>.\<close>

definition lower_alnum :: "char \<Rightarrow> bool" where
  "lower_alnum c \<longleftrightarrow> (97 \<le> byte_val c \<and> byte_val c \<le> 122) \<or> (48 \<le> byte_val c \<and> byte_val c \<le> 57)"

definition slugRegex :: "string \<Rightarrow> bool" where
  "slugRegex s =
     (case s of
        [] \<Rightarrow> False
      | c # rest \<Rightarrow> lower_alnum c \<and> list_all (\<lambda>d. lower_alnum d \<or> d = CHR ''-'') rest \<and>
                    2 \<le> length rest \<and> length rest \<le> 42)"

definition Rwa_pairRegex :: "string \<Rightarrow> bool" where
  "Rwa_pairRegex s = base_quote s"

definition maxRestrictionBatch :: nat where
  "maxRestrictionBatch = 100"

definition ValidateAssetID :: "string \<Rightarrow> unit outcome" where
  "ValidateAssetID assetID = (if \<not> slugRegex assetID then Err ErrInvalidAssetID else Ok ())"

definition validatePositiveInt :: "math_lib \<Rightarrow> string \<Rightarrow> unit outcome" where
  "validatePositiveInt M s =
     (case NewIntFromString M s of
        None \<Rightarrow> Err ErrInvalidAmount
      | Some v \<Rightarrow> if \<not> v > 0 then Err ErrInvalidAmount else Ok ())"

record MsgRegisterAsset =
  mra_Issuer :: string
  mra_AssetId :: string
  mra_Name :: string
  mra_Description :: string
  mra_OraclePair :: string
  mra_Bond :: string

record MsgAttestAsset =
  maa_Issuer :: string
  maa_AssetId :: string

record MsgMintRWA =
  mmr_Issuer :: string
  mmr_AssetId :: string
  mmr_Notional :: string

record MsgTransferRWA =
  mtr_Sender :: string
  mtr_Recipient :: string
  mtr_AssetId :: string
  mtr_Amount :: string

record MsgSettleRWA =
  msr_Issuer :: string
  msr_AssetId :: string

record MsgUpdateRestrictions =
  mur_Issuer :: string
  mur_AssetId :: string
  mur_AllowAll :: bool
  mur_AddAllow :: "string list"
  mur_DelAllow :: "string list"
  mur_AddDeny :: "string list"
  mur_DelDeny :: "string list"

record MsgSlashBond =
  msl_Authority :: string
  msl_AssetId :: string
  msl_Reason :: string

record Rwa_MsgUpdateParams =
  rmup_Authority :: string
  rmup_Params :: RWAParams

definition MsgRegisterAsset_ValidateBasic :: "math_lib \<Rightarrow> addr_lib \<Rightarrow> MsgRegisterAsset \<Rightarrow> unit outcome" where
  "MsgRegisterAsset_ValidateBasic M A m =
     obind (require_address (AccAddressFromBech32 A (mra_Issuer m))) (\<lambda>_.
     obind (ValidateAssetID (mra_AssetId m)) (\<lambda>_.
       if mra_Name m = '''' then Err Rwa_ErrInvalidParams
       else if \<not> Rwa_pairRegex (mra_OraclePair m) then Err Rwa_ErrInvalidParams
       else validatePositiveInt M (mra_Bond m)))"

definition MsgAttestAsset_ValidateBasic :: "addr_lib \<Rightarrow> MsgAttestAsset \<Rightarrow> unit outcome" where
  "MsgAttestAsset_ValidateBasic A m =
     obind (require_address (AccAddressFromBech32 A (maa_Issuer m))) (\<lambda>_.
     ValidateAssetID (maa_AssetId m))"

definition MsgMintRWA_ValidateBasic :: "math_lib \<Rightarrow> addr_lib \<Rightarrow> MsgMintRWA \<Rightarrow> unit outcome" where
  "MsgMintRWA_ValidateBasic M A m =
     obind (require_address (AccAddressFromBech32 A (mmr_Issuer m))) (\<lambda>_.
     obind (ValidateAssetID (mmr_AssetId m)) (\<lambda>_.
       case validatePositiveInt M (mmr_Notional m) of
         Ok _ \<Rightarrow> Ok ()
       | Err _ \<Rightarrow> Err ErrInvalidNotional
       | Panic \<Rightarrow> Panic))"

definition MsgTransferRWA_ValidateBasic :: "math_lib \<Rightarrow> addr_lib \<Rightarrow> MsgTransferRWA \<Rightarrow> unit outcome" where
  "MsgTransferRWA_ValidateBasic M A m =
     obind (require_address (AccAddressFromBech32 A (mtr_Sender m))) (\<lambda>_.
     obind (require_address (AccAddressFromBech32 A (mtr_Recipient m))) (\<lambda>_.
     obind (ValidateAssetID (mtr_AssetId m)) (\<lambda>_.
     validatePositiveInt M (mtr_Amount m))))"

definition MsgSettleRWA_ValidateBasic :: "addr_lib \<Rightarrow> MsgSettleRWA \<Rightarrow> unit outcome" where
  "MsgSettleRWA_ValidateBasic A m =
     obind (require_address (AccAddressFromBech32 A (msr_Issuer m))) (\<lambda>_.
     ValidateAssetID (msr_AssetId m))"

definition validate_group :: "addr_lib \<Rightarrow> string list \<Rightarrow> unit \<Rightarrow> unit outcome" where
  "validate_group A entries _ =
     (if length entries > maxRestrictionBatch then Err Rwa_ErrInvalidParams
      else ofold (\<lambda>a _. require_address (AccAddressFromBech32 A a)) entries ())"

definition MsgUpdateRestrictions_ValidateBasic :: "addr_lib \<Rightarrow> MsgUpdateRestrictions \<Rightarrow> unit outcome" where
  "MsgUpdateRestrictions_ValidateBasic A m =
     obind (require_address (AccAddressFromBech32 A (mur_Issuer m))) (\<lambda>_.
     obind (ValidateAssetID (mur_AssetId m)) (\<lambda>_.
     ofold (validate_group A) [mur_AddAllow m, mur_DelAllow m, mur_AddDeny m, mur_DelDeny m] ()))"

definition MsgSlashBond_ValidateBasic :: "addr_lib \<Rightarrow> MsgSlashBond \<Rightarrow> unit outcome" where
  "MsgSlashBond_ValidateBasic A m =
     obind (require_address (AccAddressFromBech32 A (msl_Authority m))) (\<lambda>_.
     ValidateAssetID (msl_AssetId m))"

definition Rwa_MsgUpdateParams_ValidateBasic :: "math_lib \<Rightarrow> addr_lib \<Rightarrow> Rwa_MsgUpdateParams \<Rightarrow> unit outcome" where
  "Rwa_MsgUpdateParams_ValidateBasic M A m =
     obind (require_address (AccAddressFromBech32 A (rmup_Authority m))) (\<lambda>_.
     RWAParams_Validate M (rmup_Params m))"

section \<open>Genesis\<close>

record Restriction =
  rs_AssetId :: string
  rs_Address :: string
  rs_IsDeny :: bool

record Rwa_GenesisState =
  rgs_Params :: RWAParams
  rgs_Assets :: "AssetRecord list"
  rgs_Restrictions :: "Restriction list"

definition Rwa_DefaultGenesis :: "math_lib \<Rightarrow> Rwa_GenesisState" where
  "Rwa_DefaultGenesis M = \<lparr>rgs_Params = Rwa_DefaultParams M, rgs_Assets = [], rgs_Restrictions = []\<rparr>"

text \<open>The checks on one asset; \<open>seen\<close> are the ids before it.\<close>

definition validate_asset ::
    "math_lib \<Rightarrow> addr_lib \<Rightarrow> int option \<Rightarrow> AssetRecord \<Rightarrow> string list \<Rightarrow> string list outcome" where
  "validate_asset M A minBond a seen =
     (if \<not> slugRegex (ar_AssetId a) then Err ErrInvalidAssetID
      else if ar_AssetId a \<in> set seen then Err (FmtError ''duplicate asset_id'')
      else case AccAddressFromBech32 A (ar_Issuer a) of
             Panic \<Rightarrow> Panic
           | Err _ \<Rightarrow> Err (FmtError ''invalid issuer'')
           | Ok _ \<Rightarrow>
               if ar_Status a < DRAFT \<or> ar_Status a > SETTLED then Err (FmtError ''invalid status'')
               else if \<not> Rwa_pairRegex (ar_OraclePair a) then Err (FmtError ''oracle_pair is not BASE:QUOTE'')
               else case NewIntFromString M (ar_Bond a) of
                      None \<Rightarrow> Err (FmtError ''invalid bond'')
                    | Some bond \<Rightarrow>
                        obind (if ar_Status a = ATTESTED \<or> ar_Status a = ACTIVE
                               then obind (use_int minBond) (\<lambda>minBond.
                                      if bond < minBond then Err (FmtError ''bond < min_issuer_bond'') else Ok ())
                               else Ok ()) (\<lambda>_.
                        case NewIntFromString M (ar_NotionalMinted a) of
                          None \<Rightarrow> Err (FmtError ''invalid notional_minted'')
                        | Some _ \<Rightarrow> Ok (ar_AssetId a # seen)))"

definition validate_restriction :: "addr_lib \<Rightarrow> string list \<Rightarrow> Restriction \<Rightarrow> unit \<Rightarrow> unit outcome" where
  "validate_restriction A seen r _ =
     (if rs_AssetId r \<notin> set seen then Err (FmtError ''unknown asset_id'')
      else case AccAddressFromBech32 A (rs_Address r) of
             Panic \<Rightarrow> Panic
           | Err _ \<Rightarrow> Err (FmtError ''invalid address'')
           | Ok _ \<Rightarrow> Ok ())"

definition Rwa_GenesisState_Validate :: "math_lib \<Rightarrow> addr_lib \<Rightarrow> Rwa_GenesisState \<Rightarrow> unit outcome" where
  "Rwa_GenesisState_Validate M A gs =
     obind (RWAParams_Validate M (rgs_Params gs)) (\<lambda>_.
     let minBond = MinIssuerBondInt M (rgs_Params gs)
     in obind (ofold (validate_asset M A minBond) (rgs_Assets gs) []) (\<lambda>seen.
        ofold (validate_restriction A seen) (rgs_Restrictions gs) ()))"

section \<open>What the keys and the checks promise\<close>

lemma slug_length: "slugRegex s \<Longrightarrow> 3 \<le> length s \<and> length s \<le> 43"
  by (auto simp: slugRegex_def split: list.splits)

text \<open>An asset and an address, as the two lists file them.\<close>

definition member_ok :: "string \<times> addr \<Rightarrow> bool" where
  "member_ok m \<longleftrightarrow> slugRegex (fst m) \<and> valid_addr (snd m)"

lemma membershipKey_inject:
  assumes "slugRegex i" and "slugRegex j" and "membershipKey p i a = membershipKey p j b"
  shows "i = j \<and> a = b"
proof -
  have "length i = length j"
    using assms slug_length [of i] slug_length [of j] byte_inject [of "int (length i)" "int (length j)"]
    by (simp add: membershipKey_def membershipPrefix_def)
  then show ?thesis using assms(3) by (simp add: membershipKey_def membershipPrefix_def)
qed

interpretation asset_keys: key_family "byte 1" AssetKey slugRegex
proof unfold_locales
  show "length (AssetKey k) < 2 ^ 17" if "slugRegex k" for k
    using slug_length [OF that] by (simp add: AssetKey_def KeyPrefixAsset_def)
qed (simp_all add: AssetKey_def KeyPrefixAsset_def)

lemma membershipKey_bound: "member_ok m \<Longrightarrow> length p = 1 \<Longrightarrow> length (membershipKey p (fst m) (snd m)) < 2 ^ 17"
  using slug_length [of "fst m"] by (simp add: member_ok_def valid_addr_def membershipKey_def membershipPrefix_def)

interpretation allow_keys: key_family "byte 3" "\<lambda>m. AllowlistKey (fst m) (snd m)" member_ok
proof unfold_locales
  show "length (AllowlistKey (fst m) (snd m)) < 2 ^ 17" if "member_ok m" for m
    unfolding AllowlistKey_def by (rule membershipKey_bound [OF that]) (simp add: KeyPrefixAllowlist_def)
  show "m = n" if "member_ok m" "member_ok n" "AllowlistKey (fst m) (snd m) = AllowlistKey (fst n) (snd n)" for m n
    using that membershipKey_inject by (metis AllowlistKey_def member_ok_def prod_eqI)
qed (simp add: AllowlistKey_def membershipKey_def membershipPrefix_def KeyPrefixAllowlist_def)

interpretation deny_keys: key_family "byte 4" "\<lambda>m. DenylistKey (fst m) (snd m)" member_ok
proof unfold_locales
  show "length (DenylistKey (fst m) (snd m)) < 2 ^ 17" if "member_ok m" for m
    unfolding DenylistKey_def by (rule membershipKey_bound [OF that]) (simp add: KeyPrefixDenylist_def)
  show "m = n" if "member_ok m" "member_ok n" "DenylistKey (fst m) (snd m) = DenylistKey (fst n) (snd n)" for m n
    using that membershipKey_inject by (metis DenylistKey_def member_ok_def prod_eqI)
qed (simp add: DenylistKey_def membershipKey_def membershipPrefix_def KeyPrefixDenylist_def)

lemma IssuerIndexKey_eq:
  assumes "addr_laws A" and "valid_addr issuer"
  shows "IssuerIndexKey A issuer i = Ok (byte 2 # byte (int (length issuer)) # issuer @ ''/'' @ i)"
  by (simp add: IssuerIndexKey_def MustLengthPrefix_eq [OF assms] KeyPrefixIssuerIndex_def)

lemma validatePositiveInt_Ok [simp]: "validatePositiveInt M s = Ok u \<longleftrightarrow> (\<exists>v. NewIntFromString M s = Some v \<and> 0 < v)"
  by (auto simp: validatePositiveInt_def split: option.splits)

lemma ValidateAssetID_Ok [simp]: "ValidateAssetID s = Ok u \<longleftrightarrow> slugRegex s"
  by (simp add: ValidateAssetID_def)

lemma validateFeeRate_Ok:
  "math_laws M \<Longrightarrow> validateFeeRate M s = Ok u \<longleftrightarrow> (\<exists>d. LegacyNewDecFromStr M s = Ok d \<and> 0 \<le> d \<and> d < dec_unit)"
  by (auto simp: validateFeeRate_def LegacyNewDec_eq split: outcome.splits)

lemma RWAParams_Validate_Ok:
  "math_laws M \<Longrightarrow> RWAParams_Validate M p = Ok u \<longleftrightarrow>
     (\<exists>b m s. MinIssuerBondInt M p = Some b \<and> 0 \<le> b \<and> MintFeeRateDec M p = Ok m \<and> 0 \<le> m \<and> m < dec_unit \<and>
        SettleFeeRateDec M p = Ok s \<and> 0 \<le> s \<and> s < dec_unit)"
  by (auto simp: RWAParams_Validate_def obind_eq_Ok validateFeeRate_Ok MinIssuerBondInt_def MintFeeRateDec_def
      SettleFeeRateDec_def split: option.splits)

end
