(* ===== verification/Rwa_Keeper.thy ===== *)
theory Rwa_Keeper
  imports Rwa_Types
begin

text \<open>
  \<open>x/rwa/keeper\<close>: \<open>keeper.go\<close> (parameters and asset records), \<open>denom.go\<close>,
  \<open>restriction.go\<close> and \<open>send_restriction.go\<close> (who may hold an asset's token), \<open>bond.go\<close> and
  \<open>fee.go\<close> (movements of \<open>uvtx\<close>).
\<close>

section \<open>Parameters and records\<close>

definition ModuleAddress :: "('s, 'x) env \<Rightarrow> addr" where
  "ModuleAddress L = NewModuleAddress (env_addr L) Rwa_ModuleName"

definition Rwa_GetParams :: "('s, 'x) env \<Rightarrow> ('s, 'x) ctx \<Rightarrow> RWAParams outcome" where
  "Rwa_GetParams L c =
     obind (store_get L Rwa_StoreKey Rwa_KeyParams c) (\<lambda>bz.
       case bz of
         None \<Rightarrow> Ok (Rwa_DefaultParams (env_math L))
       | Some bz \<Rightarrow> must (RWAParams_Unmarshal bz))"

definition Rwa_SetParams :: "('s, 'x) env \<Rightarrow> RWAParams \<Rightarrow> ('s, 'x) ctx \<Rightarrow> ('s, 'x) ctx outcome" where
  "Rwa_SetParams L p c =
     obind (RWAParams_Validate (env_math L) p) (\<lambda>_.
     obind (RWAParams_Marshal p) (\<lambda>bz.
     store_set L Rwa_StoreKey Rwa_KeyParams bz c))"

definition SetAsset :: "('s, 'x) env \<Rightarrow> AssetRecord \<Rightarrow> ('s, 'x) ctx \<Rightarrow> ('s, 'x) ctx outcome" where
  "SetAsset L rec c =
     obind (AssetRecord_Marshal (env_time L) rec) (\<lambda>bz.
     obind (store_set L Rwa_StoreKey (AssetKey (ar_AssetId rec)) bz c) (\<lambda>c.
     obind (AccAddressFromBech32 (env_addr L) (ar_Issuer rec)) (\<lambda>issuer.
     obind (IssuerIndexKey (env_addr L) issuer (ar_AssetId rec)) (\<lambda>key.
     store_set L Rwa_StoreKey key [byte 1] c))))"

definition GetAsset :: "('s, 'x) env \<Rightarrow> string \<Rightarrow> ('s, 'x) ctx \<Rightarrow> AssetRecord option outcome" where
  "GetAsset L assetID c =
     (case store_get L Rwa_StoreKey (AssetKey assetID) c of
        Panic \<Rightarrow> Panic
      | Err _ \<Rightarrow> Ok None
      | Ok None \<Rightarrow> Ok None
      | Ok (Some bz) \<Rightarrow> obind (must (AssetRecord_Unmarshal (env_time L) bz)) (\<lambda>rec. Ok (Some rec)))"

text \<open>The callback accumulates a value and says whether to go on.\<close>

fun iterate_assets :: "time_lib \<Rightarrow> (AssetRecord \<Rightarrow> 'a \<Rightarrow> (bool \<times> 'a) outcome) \<Rightarrow> (bytes \<times> bytes) list \<Rightarrow> 'a \<Rightarrow> 'a outcome" where
  "iterate_assets T fn [] acc = Ok acc"
| "iterate_assets T fn ((_, value) # es) acc =
     obind (must (AssetRecord_Unmarshal T value)) (\<lambda>rec.
     obind (fn rec acc) (\<lambda>(go, acc). if \<not> go then Ok acc else iterate_assets T fn es acc))"

definition IterateAssets ::
    "('s, 'x) env \<Rightarrow> ('s, 'x) ctx \<Rightarrow> (AssetRecord \<Rightarrow> 'a \<Rightarrow> (bool \<times> 'a) outcome) \<Rightarrow> 'a \<Rightarrow> 'a outcome" where
  "IterateAssets L c fn acc =
     obind (store_scan L Rwa_StoreKey KeyPrefixAsset c) (\<lambda>entries. iterate_assets (env_time L) fn entries acc)"

section \<open>Denominations\<close>

definition BuildDenom :: "string \<Rightarrow> string" where
  "BuildDenom assetID = RWADenomPrefix @ assetID"

definition ParseRWADenom :: "string \<Rightarrow> string option" where
  "ParseRWADenom denom =
     (if \<not> prefix RWADenomPrefix denom then None
      else let assetID = drop (length RWADenomPrefix) denom
           in if assetID = '''' then None else Some assetID)"

section \<open>Transfer restrictions\<close>

definition AddAllowlist :: "('s, 'x) env \<Rightarrow> string \<Rightarrow> addr \<Rightarrow> ('s, 'x) ctx \<Rightarrow> ('s, 'x) ctx outcome" where
  "AddAllowlist L assetID addr c = store_set L Rwa_StoreKey (AllowlistKey assetID addr) [byte 1] c"

definition DelAllowlist :: "('s, 'x) env \<Rightarrow> string \<Rightarrow> addr \<Rightarrow> ('s, 'x) ctx \<Rightarrow> ('s, 'x) ctx outcome" where
  "DelAllowlist L assetID addr c = store_delete L Rwa_StoreKey (AllowlistKey assetID addr) c"

definition AddDenylist :: "('s, 'x) env \<Rightarrow> string \<Rightarrow> addr \<Rightarrow> ('s, 'x) ctx \<Rightarrow> ('s, 'x) ctx outcome" where
  "AddDenylist L assetID addr c = store_set L Rwa_StoreKey (DenylistKey assetID addr) [byte 1] c"

definition DelDenylist :: "('s, 'x) env \<Rightarrow> string \<Rightarrow> addr \<Rightarrow> ('s, 'x) ctx \<Rightarrow> ('s, 'x) ctx outcome" where
  "DelDenylist L assetID addr c = store_delete L Rwa_StoreKey (DenylistKey assetID addr) c"

definition hasKey :: "('s, 'x) env \<Rightarrow> bytes \<Rightarrow> ('s, 'x) ctx \<Rightarrow> bool outcome" where
  "hasKey L key c =
     (case store_has L Rwa_StoreKey key c of Ok ok \<Rightarrow> Ok ok | Err _ \<Rightarrow> Ok False | Panic \<Rightarrow> Panic)"

definition IsAllowlisted :: "('s, 'x) env \<Rightarrow> string \<Rightarrow> addr \<Rightarrow> ('s, 'x) ctx \<Rightarrow> bool outcome" where
  "IsAllowlisted L assetID addr c = hasKey L (AllowlistKey assetID addr) c"

definition IsDenylisted :: "('s, 'x) env \<Rightarrow> string \<Rightarrow> addr \<Rightarrow> ('s, 'x) ctx \<Rightarrow> bool outcome" where
  "IsDenylisted L assetID addr c = hasKey L (DenylistKey assetID addr) c"

definition CheckTransferAllowed ::
    "('s, 'x) env \<Rightarrow> string \<Rightarrow> addr \<Rightarrow> addr \<Rightarrow> ('s, 'x) ctx \<Rightarrow> unit outcome" where
  "CheckTransferAllowed L assetID from to c =
     (let moduleAddr = ModuleAddress L
      in if from = moduleAddr \<or> to = moduleAddr then Ok ()
         else obind (GetAsset L assetID c) (\<lambda>found.
           case found of
             None \<Rightarrow> Err ErrAssetNotFound
           | Some rec \<Rightarrow>
               obind (if \<not> ar_AllowAll rec
                      then obind (IsAllowlisted L assetID from c) (\<lambda>af.
                           if \<not> af then Err ErrTransferRestricted
                           else obind (IsAllowlisted L assetID to c) (\<lambda>at.
                             if \<not> at then Err ErrTransferRestricted else Ok ()))
                      else Ok ()) (\<lambda>_.
               obind (IsDenylisted L assetID from c) (\<lambda>df.
                 if df then Err ErrTransferRestricted
                 else obind (IsDenylisted L assetID to c) (\<lambda>dt.
                   if dt then Err ErrTransferRestricted else Ok ())))))"

fun check_coins :: "('s, 'x) env \<Rightarrow> ('s, 'x) ctx \<Rightarrow> addr \<Rightarrow> addr \<Rightarrow> coin list \<Rightarrow> addr outcome" where
  "check_coins L c from to [] = Ok to"
| "check_coins L c from to ((denom, _) # amt) =
     (case ParseRWADenom denom of
        None \<Rightarrow> check_coins L c from to amt
      | Some assetID \<Rightarrow>
          obind (CheckTransferAllowed L assetID from to c) (\<lambda>_. check_coins L c from to amt))"

definition SendRestriction :: "('s, 'x) env \<Rightarrow> ('s, 'x) ctx \<Rightarrow> send_restriction" where
  "SendRestriction L c from to amt = check_coins L c from to amt"

text \<open>The members of one list, read back from the keys of a scan.\<close>

fun member_addrs :: "(bytes \<times> bytes) list \<Rightarrow> addr list" where
  "member_addrs [] = []"
| "member_addrs ((key, _) # es) =
     (if length key < 2 then member_addrs es
      else let idLen = nat (byte_val (key ! 1))
           in if length key < 2 + idLen then member_addrs es
              else drop (2 + idLen) key # member_addrs es)"

text \<open>
  \<open>IterateMembers\<close> with a callback that never stops; its callers ignore the error.
\<close>

definition IterateMembers :: "('s, 'x) env \<Rightarrow> bytes \<Rightarrow> ('s, 'x) ctx \<Rightarrow> addr list outcome" where
  "IterateMembers L p c =
     (case store_scan L Rwa_StoreKey p c of
        Ok entries \<Rightarrow> Ok (member_addrs entries)
      | Err _ \<Rightarrow> Ok []
      | Panic \<Rightarrow> Panic)"

section \<open>Bonds and fees\<close>

text \<open>\<open>sdk.NewCoins(sdk.NewCoin(denom, amount))\<close>.\<close>

definition one_coin :: "('s, 'x) env \<Rightarrow> string \<Rightarrow> int \<Rightarrow> coin list outcome" where
  "one_coin L denom amount =
     obind (NewCoin (env_keepers L) denom amount) (\<lambda>coin. NewCoins (env_keepers L) [coin])"

definition with_ext :: "('s, 'x) ctx \<Rightarrow> 'x outcome \<Rightarrow> ('s, 'x) ctx outcome" where
  "with_ext c r = obind r (\<lambda>x. Ok (c\<lparr>ext := x\<rparr>))"

definition LockBond :: "('s, 'x) env \<Rightarrow> addr \<Rightarrow> int \<Rightarrow> ('s, 'x) ctx \<Rightarrow> ('s, 'x) ctx outcome" where
  "LockBond L issuer amount c =
     obind (one_coin L BondDenom amount) (\<lambda>coins.
     with_ext c (SendCoinsFromAccountToModule (env_keepers L) (SendRestriction L c) (ext c) issuer Rwa_ModuleName coins))"

definition ReleaseBond :: "('s, 'x) env \<Rightarrow> addr \<Rightarrow> int \<Rightarrow> ('s, 'x) ctx \<Rightarrow> ('s, 'x) ctx outcome" where
  "ReleaseBond L issuer amount c =
     obind (one_coin L BondDenom amount) (\<lambda>coins.
     with_ext c (SendCoinsFromModuleToAccount (env_keepers L) (SendRestriction L c) (ext c) Rwa_ModuleName issuer coins))"

definition SlashBondToCommunityPool :: "('s, 'x) env \<Rightarrow> int \<Rightarrow> ('s, 'x) ctx \<Rightarrow> ('s, 'x) ctx outcome" where
  "SlashBondToCommunityPool L amount c =
     obind (one_coin L BondDenom amount) (\<lambda>coins.
     with_ext c (FundCommunityPool (env_keepers L) (SendRestriction L c) (ext c) coins (ModuleAddress L)))"

definition ComputeFee :: "math_lib \<Rightarrow> int \<Rightarrow> dec \<Rightarrow> int outcome" where
  "ComputeFee M notional rate =
     obind (dec_Mul M (LegacyNewDecFromInt M notional) rate) (\<lambda>d.
     obind (dec_TruncateInt M d) (\<lambda>fee. if fee = 0 then Ok 0 else Ok fee))"

definition CollectFee :: "('s, 'x) env \<Rightarrow> addr \<Rightarrow> int \<Rightarrow> ('s, 'x) ctx \<Rightarrow> ('s, 'x) ctx outcome" where
  "CollectFee L payer fee c =
     (if \<not> fee > 0 then Ok c
      else obind (one_coin L BondDenom fee) (\<lambda>coins.
           with_ext c (SendCoinsFromAccountToModule (env_keepers L) (SendRestriction L c) (ext c)
             payer ''fee_collector'' coins)))"

section \<open>What the store holds\<close>

text \<open>
  The module's state as its clients see it. The index of assets by issuer only serves a
  query and is left out.
\<close>

record rwa_state =
  rw_params :: RWAParams
  rw_assets :: "string \<rightharpoonup> AssetRecord"
  rw_allow :: "(string \<times> addr) set"
  rw_deny :: "(string \<times> addr) set"

definition members_at :: "(string \<times> addr \<Rightarrow> bytes) \<Rightarrow> (bytes \<rightharpoonup> bytes) \<Rightarrow> (string \<times> addr) set" where
  "members_at key m = dom (typed_at member_ok key (\<lambda>_. Ok ()) m)"

abbreviation allow_key :: "string \<times> addr \<Rightarrow> bytes" where
  "allow_key m \<equiv> AllowlistKey (fst m) (snd m)"

abbreviation deny_key :: "string \<times> addr \<Rightarrow> bytes" where
  "deny_key m \<equiv> DenylistKey (fst m) (snd m)"

definition rwa_abs :: "('s, 'x) env \<Rightarrow> (bytes \<rightharpoonup> bytes) \<Rightarrow> rwa_state" where
  "rwa_abs L m =
     \<lparr>rw_params = (case m Rwa_KeyParams of
                     None \<Rightarrow> Rwa_DefaultParams (env_math L)
                   | Some bz \<Rightarrow> (case RWAParams_Unmarshal bz of Ok p \<Rightarrow> p | _ \<Rightarrow> zero_RWAParams)),
      rw_assets = typed_at slugRegex AssetKey (AssetRecord_Unmarshal (env_time L)) m,
      rw_allow = members_at allow_key m,
      rw_deny = members_at deny_key m\<rparr>"

definition rwa_of :: "('s, 'x) env \<Rightarrow> ('s \<Rightarrow> bytes \<rightharpoonup> bytes) \<Rightarrow> ('s, 'x) ctx \<Rightarrow> rwa_state" where
  "rwa_of L view c = rwa_abs L (store_view view Rwa_StoreKey c)"

text \<open>The amounts of a record.\<close>

definition amount_of :: "math_lib \<Rightarrow> string \<Rightarrow> int" where
  "amount_of M s = (case NewIntFromString M s of Some n \<Rightarrow> n | None \<Rightarrow> 0)"

abbreviation bond_of :: "math_lib \<Rightarrow> AssetRecord \<Rightarrow> int" where
  "bond_of M a \<equiv> amount_of M (ar_Bond a)"

abbreviation notional_of :: "math_lib \<Rightarrow> AssetRecord \<Rightarrow> int" where
  "notional_of M a \<equiv> amount_of M (ar_NotionalMinted a)"

lemma amount_of_String [simp]: "math_laws M \<Longrightarrow> int_fits n \<Longrightarrow> amount_of M (int_String M n) = n"
  by (simp add: amount_of_def int_roundtrip)

lemma amount_of_Some: "NewIntFromString M s = Some n \<Longrightarrow> amount_of M s = n"
  by (simp add: amount_of_def)

text \<open>
  The records the module files. Texts are shorter than a mebibyte: a transaction is, and
  what the module itself prints is shorter still.
\<close>

definition asset_small :: "AssetRecord \<Rightarrow> bool" where
  "asset_small a \<longleftrightarrow> length (ar_Issuer a) < 2 ^ 20 \<and> length (ar_Name a) < 2 ^ 20 \<and>
     length (ar_Description a) < 2 ^ 20 \<and> length (ar_OraclePair a) < 2 ^ 20 \<and>
     length (ar_Bond a) < 2 ^ 20 \<and> length (ar_NotionalMinted a) < 2 ^ 20 \<and>
     length (ar_AttestedPrice a) < 2 ^ 20"

definition positive_amount :: "math_lib \<Rightarrow> string \<Rightarrow> bool" where
  "positive_amount M s = (case NewIntFromString M s of Some n \<Rightarrow> 0 \<le> n | None \<Rightarrow> False)"

definition asset_ok :: "('s, 'x) env \<Rightarrow> AssetRecord \<Rightarrow> bool" where
  "asset_ok L a \<longleftrightarrow> slugRegex (ar_AssetId a) \<and> is_ok (AccAddressFromBech32 (env_addr L) (ar_Issuer a)) \<and>
     DRAFT \<le> ar_Status a \<and> ar_Status a \<le> SETTLED \<and> ar_Denom a = BuildDenom (ar_AssetId a) \<and>
     positive_amount (env_math L) (ar_Bond a) \<and> positive_amount (env_math L) (ar_NotionalMinted a) \<and>
     valid_time (ar_AttestedAt a) \<and> valid_time (ar_CreatedAt a) \<and> valid_time (ar_SettledAt a) \<and> asset_small a"

definition asset_entry :: "('s, 'x) env \<Rightarrow> bytes \<Rightarrow> bytes \<Rightarrow> bool" where
  "asset_entry L k v =
     (case AssetRecord_Unmarshal (env_time L) v of
        Ok a \<Rightarrow> k = AssetKey (ar_AssetId a) \<and> asset_ok L a
      | _ \<Rightarrow> False)"

definition rwa_params_ok :: "math_lib \<Rightarrow> RWAParams \<Rightarrow> bool" where
  "rwa_params_ok M p \<longleftrightarrow> RWAParams_Validate M p = Ok () \<and> RWAParams_Size p < 2 ^ 30"

definition rwa_params_entry :: "math_lib \<Rightarrow> bytes \<Rightarrow> bytes \<Rightarrow> bool" where
  "rwa_params_entry M k v = (case RWAParams_Unmarshal v of Ok p \<Rightarrow> rwa_params_ok M p | _ \<Rightarrow> False)"

definition rwa_families :: "('s, 'x) env \<Rightarrow> (bytes \<rightharpoonup> bytes) \<Rightarrow> bool" where
  "rwa_families L m \<longleftrightarrow> family_inv (byte 5) (rwa_params_entry (env_math L)) m \<and> family_inv (byte 1) (asset_entry L) m"

definition rwa_inv :: "('s, 'x) env \<Rightarrow> ('s \<Rightarrow> bytes \<rightharpoonup> bytes) \<Rightarrow> ('s, 'x) ctx \<Rightarrow> bool" where
  "rwa_inv L view c \<longleftrightarrow> rwa_families L (store_view view Rwa_StoreKey c)"

lemma positive_amountD: "positive_amount M s \<Longrightarrow> NewIntFromString M s = Some (amount_of M s) \<and> 0 \<le> amount_of M s"
  by (auto simp: positive_amount_def amount_of_def split: option.splits)

lemma positive_amount_String: "math_laws M \<Longrightarrow> int_fits n \<Longrightarrow> 0 \<le> n \<Longrightarrow> positive_amount M (int_String M n)"
  by (simp add: positive_amount_def int_roundtrip)

lemma asset_okD:
  assumes "asset_ok L a"
  shows asset_slug: "slugRegex (ar_AssetId a)"
    and asset_denom: "ar_Denom a = BuildDenom (ar_AssetId a)"
    and asset_bond: "NewIntFromString (env_math L) (ar_Bond a) = Some (bond_of (env_math L) a)" "0 \<le> bond_of (env_math L) a"
    and asset_notional: "NewIntFromString (env_math L) (ar_NotionalMinted a) = Some (notional_of (env_math L) a)"
      "0 \<le> notional_of (env_math L) a"
  using assms positive_amountD [of "env_math L" "ar_Bond a"] positive_amountD [of "env_math L" "ar_NotionalMinted a"]
  by (simp_all add: asset_ok_def)

lemma asset_issuer:
  assumes "asset_ok L a"
  obtains issuer where "AccAddressFromBech32 (env_addr L) (ar_Issuer a) = Ok issuer"
  using assms by (cases "AccAddressFromBech32 (env_addr L) (ar_Issuer a)") (auto simp: asset_ok_def)

text \<open>Every record of the module is one the store takes, and reads back as it was.\<close>

lemma asset_encoded:
  assumes T: "time_laws (env_time L)" and ok: "asset_ok L a"
  obtains bz where "AssetRecord_Marshal (env_time L) a = Ok bz" and "valid_value bz"
    and "AssetRecord_Unmarshal (env_time L) bz = Ok a"
proof -
  let ?T = "env_time L"
  have short: "SizeOfStdTime ?T t < 128" if "valid_time t" for t by (metis time_lawsD [OF T that])
  have times: "size_bytes (SizeOfStdTime ?T t) \<le> 139" if "valid_time t" for t
    using size_bytes_le [of "SizeOfStdTime ?T t"] short [OF that] by simp
  have id: "length (ar_AssetId a) < 2 ^ 20" "length (ar_Denom a) < 2 ^ 20"
    using slug_length [OF asset_slug [OF ok]] by (simp_all add: asset_denom [OF ok] BuildDenom_def RWADenomPrefix_def)
  have texts: "size_string s \<le> 1048586" if "length s < 2 ^ 20" for s :: string
    using size_string_le [of s] that by simp
  have size_: "AssetRecord_Size ?T a < 2 ^ 30"
    using ok texts [OF id(1)] texts [OF id(2)] texts [of "ar_Issuer a"] texts [of "ar_Name a"] texts [of "ar_Description a"]
      texts [of "ar_OraclePair a"] texts [of "ar_Bond a"] texts [of "ar_NotionalMinted a"] texts [of "ar_AttestedPrice a"]
      times [of "ar_AttestedAt a"] times [of "ar_CreatedAt a"] times [of "ar_SettledAt a"] size_int64_le [of "ar_Status a"]
    unfolding AssetRecord_Size_def asset_ok_def asset_small_def by (simp add: size_bool_def)
  have "time_laws ?T \<and> AssetRecord_wf ?T a"
    using T ok size_ by (simp add: asset_ok_def AssetRecord_wf_def status_defs is_i32_def)
  then obtain bz where bz: "AssetRecord_Marshal ?T a = Ok bz" "length bz = AssetRecord_Size ?T a"
      "AssetRecord_Unmarshal ?T bz = Ok a"
    by (rule asset_codec.codec_obtain)
  then show thesis using that size_ by (simp add: valid_value_def)
qed

lemma rwa_key_tags:
  "prefix [t] (AssetKey i) \<longleftrightarrow> t = byte 1" "prefix [t] Rwa_KeyParams \<longleftrightarrow> t = byte 5"
  "prefix [t] (AllowlistKey i a) \<longleftrightarrow> t = byte 3" "prefix [t] (DenylistKey i a) \<longleftrightarrow> t = byte 4"
  by (auto simp: AssetKey_def KeyPrefixAsset_def Rwa_KeyParams_def AllowlistKey_def DenylistKey_def membershipKey_def
      membershipPrefix_def KeyPrefixAllowlist_def KeyPrefixDenylist_def)

lemma members_at_put:
  "member_ok k \<Longrightarrow> members_at allow_key (m(AllowlistKey (fst k) (snd k) \<mapsto> bz)) = insert k (members_at allow_key m)"
  "member_ok k \<Longrightarrow> members_at deny_key (m(DenylistKey (fst k) (snd k) \<mapsto> bz)) = insert k (members_at deny_key m)"
  using allow_keys.at_put [of k "\<lambda>_. Ok ()" bz "()" m] deny_keys.at_put [of k "\<lambda>_. Ok ()" bz "()" m]
  by (simp_all add: members_at_def)

lemma members_at_delete:
  "member_ok k \<Longrightarrow> members_at allow_key (m(AllowlistKey (fst k) (snd k) := None)) = members_at allow_key m - {k}"
  "member_ok k \<Longrightarrow> members_at deny_key (m(DenylistKey (fst k) (snd k) := None)) = members_at deny_key m - {k}"
  using allow_keys.at_delete [of k "\<lambda>_. Ok ()" m] deny_keys.at_delete [of k "\<lambda>_. Ok ()" m]
  by (simp_all add: members_at_def)

lemma members_at_other:
  "\<not> prefix [byte 3] b \<Longrightarrow> members_at allow_key (m(b := y)) = members_at allow_key m"
  "\<not> prefix [byte 4] b \<Longrightarrow> members_at deny_key (m(b := y)) = members_at deny_key m"
  using allow_keys.at_other [of b "\<lambda>_. Ok ()" m y] deny_keys.at_other [of b "\<lambda>_. Ok ()" m y]
  by (simp_all add: members_at_def)

lemma params_key_other: "\<not> prefix [byte 5] b \<Longrightarrow> (m(b := y)) Rwa_KeyParams = m Rwa_KeyParams"
  by (auto simp: Rwa_KeyParams_def)

lemma rwa_abs_put:
  "RWAParams_Unmarshal bz = Ok p \<Longrightarrow> rwa_abs L (m(Rwa_KeyParams \<mapsto> bz)) = (rwa_abs L m)\<lparr>rw_params := p\<rparr>"
  "slugRegex i \<Longrightarrow> AssetRecord_Unmarshal (env_time L) bz = Ok a \<Longrightarrow>
     rwa_abs L (m(AssetKey i \<mapsto> bz)) = (rwa_abs L m)\<lparr>rw_assets := (rw_assets (rwa_abs L m))(i \<mapsto> a)\<rparr>"
  "member_ok (i, addr) \<Longrightarrow>
     rwa_abs L (m(AllowlistKey i addr \<mapsto> bz)) = (rwa_abs L m)\<lparr>rw_allow := insert (i, addr) (rw_allow (rwa_abs L m))\<rparr>"
  "member_ok (i, addr) \<Longrightarrow>
     rwa_abs L (m(DenylistKey i addr \<mapsto> bz)) = (rwa_abs L m)\<lparr>rw_deny := insert (i, addr) (rw_deny (rwa_abs L m))\<rparr>"
  "member_ok (i, addr) \<Longrightarrow>
     rwa_abs L (m(AllowlistKey i addr := None)) = (rwa_abs L m)\<lparr>rw_allow := rw_allow (rwa_abs L m) - {(i, addr)}\<rparr>"
  "member_ok (i, addr) \<Longrightarrow>
     rwa_abs L (m(DenylistKey i addr := None)) = (rwa_abs L m)\<lparr>rw_deny := rw_deny (rwa_abs L m) - {(i, addr)}\<rparr>"
  "rwa_abs L (m(byte 2 # r := y)) = rwa_abs L m"
  using members_at_put [of "(i, addr)" m bz] members_at_delete [of "(i, addr)" m]
  by (simp_all add: rwa_abs_def asset_keys.at_other asset_keys.at_put members_at_other params_key_other rwa_key_tags
      del: fun_upd_apply) (simp_all add: Rwa_KeyParams_def)

lemma rwa_families_put:
  "rwa_families L m \<Longrightarrow> rwa_params_entry (env_math L) Rwa_KeyParams bz \<Longrightarrow> rwa_families L (m(Rwa_KeyParams \<mapsto> bz))"
  "rwa_families L m \<Longrightarrow> asset_entry L (AssetKey i) bz \<Longrightarrow> rwa_families L (m(AssetKey i \<mapsto> bz))"
  "rwa_families L m \<Longrightarrow> rwa_families L (m(AllowlistKey i addr := y))"
  "rwa_families L m \<Longrightarrow> rwa_families L (m(DenylistKey i addr := y))"
  "rwa_families L m \<Longrightarrow> rwa_families L (m(byte 2 # r := y))"
  by (simp_all add: rwa_families_def family_inv_other rwa_key_tags family_inv_put)

section \<open>Reading the store\<close>

lemma Rwa_DefaultParams_ok:
  assumes M: "math_laws M"
  shows "rwa_params_ok M (Rwa_DefaultParams M)"
proof -
  have fits: "int_fits 10000000000" "dec_fits (10 ^ 15)" by (simp_all add: int_fits_def dec_fits_def)
  have rate: "LegacyNewDecWithPrec M 1 3 = 10 ^ 15" by (simp add: LegacyNewDecWithPrec_eq [OF M])
  have short: "size_string (int_String M 10000000000) < 140" "size_string (dec_String M (10 ^ 15)) < 140"
    using size_string_le [of "int_String M 10000000000"] size_string_le [of "dec_String M (10 ^ 15)"]
      int_String_short [OF M fits(1)] dec_String_short [OF M fits(2)] by simp_all
  have "RWAParams_Validate M (Rwa_DefaultParams M) = Ok ()"
    unfolding RWAParams_Validate_Ok [OF M]
    using int_roundtrip [OF M fits(1)] dec_roundtrip [OF M fits(2)]
    by (simp add: MinIssuerBondInt_def MintFeeRateDec_def SettleFeeRateDec_def Rwa_DefaultParams_def rate dec_unit_def)
  moreover have "RWAParams_Size (Rwa_DefaultParams M) < 2 ^ 30"
    using short by (simp add: RWAParams_Size_def Rwa_DefaultParams_def rate)
  ultimately show ?thesis by (simp add: rwa_params_ok_def)
qed

lemma rwa_params_key: "valid_key Rwa_KeyParams"
  by (simp add: valid_key_def Rwa_KeyParams_def)

lemma Rwa_GetParams_eq:
  assumes L: "sdk_laws L view" and inv: "rwa_inv L view c"
  shows "Rwa_GetParams L c = Ok (rw_params (rwa_of L view c)) \<and> rwa_params_ok (env_math L) (rw_params (rwa_of L view c))"
proof -
  let ?m = "store_view view Rwa_StoreKey c"
  note get = store_get_eq [OF L rwa_params_key, of Rwa_StoreKey c]
  show ?thesis
  proof (cases "?m Rwa_KeyParams")
    case None
    then show ?thesis
      by (simp add: Rwa_GetParams_def get rwa_of_def rwa_abs_def Rwa_DefaultParams_ok [OF sdk_math [OF L]])
  next
    case (Some bz)
    have "rwa_params_entry (env_math L) Rwa_KeyParams bz"
      using inv family_invD [of "byte 5" "rwa_params_entry (env_math L)" ?m Rwa_KeyParams bz] Some
      by (simp add: rwa_inv_def rwa_families_def rwa_key_tags)
    then obtain p where "RWAParams_Unmarshal bz = Ok p" "rwa_params_ok (env_math L) p"
      by (auto simp: rwa_params_entry_def split: outcome.splits)
    with Some show ?thesis by (simp add: Rwa_GetParams_def get rwa_of_def rwa_abs_def)
  qed
qed

lemma stored_asset:
  assumes inv: "rwa_families L m" and k: "m (AssetKey i) = Some bz"
  obtains a where "AssetRecord_Unmarshal (env_time L) bz = Ok a" and "ar_AssetId a = i" and "asset_ok L a"
proof -
  have "asset_entry L (AssetKey i) bz"
    using inv family_invD [of "byte 1" "asset_entry L" m "AssetKey i" bz] k
    by (simp add: rwa_families_def rwa_key_tags)
  then show thesis using that by (auto simp: asset_entry_def AssetKey_def split: outcome.splits)
qed

lemma rwa_asset:
  assumes inv: "rwa_inv L view c" and a: "rw_assets (rwa_of L view c) i = Some a"
  shows rwa_asset_id: "ar_AssetId a = i" and rwa_asset_ok: "asset_ok L a"
proof -
  from a obtain bz where bz: "store_view view Rwa_StoreKey c (AssetKey i) = Some bz" "AssetRecord_Unmarshal (env_time L) bz = Ok a"
    unfolding rwa_of_def rwa_abs_def by (auto elim!: typed_at_SomeE)
  obtain a' where "AssetRecord_Unmarshal (env_time L) bz = Ok a'" "ar_AssetId a' = i" "asset_ok L a'"
    by (rule stored_asset [OF inv [unfolded rwa_inv_def] bz(1)])
  then show "ar_AssetId a = i" "asset_ok L a" using bz(2) by simp_all
qed

lemma GetAsset_eq:
  assumes L: "sdk_laws L view" and inv: "rwa_inv L view c" and i: "length i < 2 ^ 16"
  shows "GetAsset L i c = Ok (rw_assets (rwa_of L view c) i)"
proof -
  let ?m = "store_view view Rwa_StoreKey c"
  have get: "store_get L Rwa_StoreKey (AssetKey i) c = Ok (?m (AssetKey i))"
    using i by (intro store_get_eq [OF L]) (simp add: valid_key_def AssetKey_def KeyPrefixAsset_def)
  show ?thesis
  proof (cases "?m (AssetKey i)")
    case None
    then show ?thesis by (simp add: GetAsset_def get rwa_of_def rwa_abs_def typed_at_None)
  next
    case (Some bz)
    obtain a where "AssetRecord_Unmarshal (env_time L) bz = Ok a" "ar_AssetId a = i" "asset_ok L a"
      by (rule stored_asset [OF inv [unfolded rwa_inv_def] Some])
    moreover from this have "slugRegex i" using asset_slug by metis
    ultimately show ?thesis by (simp add: GetAsset_def get Some rwa_of_def rwa_abs_def typed_at_SomeI)
  qed
qed

lemma slug_short: "slugRegex i \<Longrightarrow> length i < 2 ^ 16"
  using slug_length by fastforce

lemma IsAllowlisted_eq:
  assumes L: "sdk_laws L view" and m: "member_ok (i, addr)"
  shows "IsAllowlisted L i addr c = Ok ((i, addr) \<in> rw_allow (rwa_of L view c))"
  using store_has_eq [OF L allow_keys.key_valid [OF m], of Rwa_StoreKey c] m
  by (auto simp: IsAllowlisted_def hasKey_def rwa_of_def rwa_abs_def members_at_def typed_at_def dom_def split: option.splits)

lemma IsDenylisted_eq:
  assumes L: "sdk_laws L view" and m: "member_ok (i, addr)"
  shows "IsDenylisted L i addr c = Ok ((i, addr) \<in> rw_deny (rwa_of L view c))"
  using store_has_eq [OF L deny_keys.key_valid [OF m], of Rwa_StoreKey c] m
  by (auto simp: IsDenylisted_def hasKey_def rwa_of_def rwa_abs_def members_at_def typed_at_def dom_def split: option.splits)

section \<open>Who may transfer\<close>

definition may_transfer :: "rwa_state \<Rightarrow> addr \<Rightarrow> string \<Rightarrow> addr \<Rightarrow> addr \<Rightarrow> bool" where
  "may_transfer S module i from to \<longleftrightarrow> from = module \<or> to = module \<or>
     (case rw_assets S i of
        None \<Rightarrow> False
      | Some a \<Rightarrow> (ar_AllowAll a \<or> (i, from) \<in> rw_allow S \<and> (i, to) \<in> rw_allow S) \<and>
                  (i, from) \<notin> rw_deny S \<and> (i, to) \<notin> rw_deny S)"

lemma CheckTransferAllowed_eq:
  assumes L: "sdk_laws L view" and inv: "rwa_inv L view c" and i: "length i < 2 ^ 16"
    and addrs: "valid_addr src" "valid_addr dst"
  shows "CheckTransferAllowed L i src dst c =
    (if may_transfer (rwa_of L view c) (ModuleAddress L) i src dst then Ok ()
     else Err (if rw_assets (rwa_of L view c) i = None then ErrAssetNotFound else ErrTransferRestricted))"
proof (cases "src = ModuleAddress L \<or> dst = ModuleAddress L")
  case True
  then show ?thesis by (auto simp: CheckTransferAllowed_def may_transfer_def)
next
  case False
  show ?thesis
  proof (cases "rw_assets (rwa_of L view c) i")
    case None
    with False show ?thesis by (simp add: CheckTransferAllowed_def may_transfer_def GetAsset_eq [OF L inv i] Let_def)
  next
    case (Some a)
    then have "slugRegex i" using rwa_asset [OF inv Some] asset_slug by metis
    then have m: "member_ok (i, src)" "member_ok (i, dst)" using addrs by (simp_all add: member_ok_def)
    show ?thesis
      using False Some
      by (simp add: CheckTransferAllowed_def may_transfer_def GetAsset_eq [OF L inv i] Let_def
          IsAllowlisted_eq [OF L m(1)] IsAllowlisted_eq [OF L m(2)] IsDenylisted_eq [OF L m(1)] IsDenylisted_eq [OF L m(2)])
  qed
qed

lemma ParseRWADenom_Some: "ParseRWADenom d = Some i \<longleftrightarrow> d = BuildDenom i \<and> i \<noteq> []"
  by (auto simp: ParseRWADenom_def BuildDenom_def Let_def prefix_def split: if_splits)

lemma BuildDenom_inject [simp]: "BuildDenom i = BuildDenom j \<longleftrightarrow> i = j"
  by (simp add: BuildDenom_def)

lemma ParseRWADenom_uvtx [simp]: "ParseRWADenom BondDenom = None" "BuildDenom i \<noteq> BondDenom"
  by (simp_all add: ParseRWADenom_def BondDenom_def RWADenomPrefix_def BuildDenom_def)

text \<open>The restriction never redirects, and asks for each asset's token whether it may move.\<close>

lemma SendRestriction_Ok:
  "SendRestriction L c src dst amt = Ok dst' \<longleftrightarrow> dst' = dst \<and>
     (\<forall>(d, n)\<in>set amt. \<forall>i. ParseRWADenom d = Some i \<longrightarrow> CheckTransferAllowed L i src dst c = Ok ())"
  unfolding SendRestriction_def
  by (induction L c src dst amt rule: check_coins.induct) (fastforce simp: obind_eq_Ok split: option.splits)+

section \<open>Writing the store\<close>

definition rwa_step :: "('s, 'x) env \<Rightarrow> ('s \<Rightarrow> bytes \<rightharpoonup> bytes) \<Rightarrow> ('s, 'x) ctx \<Rightarrow> ('s, 'x) ctx \<Rightarrow> rwa_state \<Rightarrow> bool" where
  "rwa_step L view c c' S \<longleftrightarrow> frame Rwa_StoreKey c c' \<and> rwa_inv L view c' \<and> rwa_of L view c' = S"

lemma rwa_stepD:
  assumes "rwa_step L view c c' S"
  shows rwa_step_frame: "frame Rwa_StoreKey c c'" and rwa_step_state: "rwa_of L view c' = S" and rwa_step_inv: "rwa_inv L view c'"
  using assms by (simp_all add: rwa_step_def)

lemma rwa_step_refl: "rwa_inv L view c \<Longrightarrow> rwa_step L view c c (rwa_of L view c)"
  by (simp add: rwa_step_def)

lemma rwa_step_trans: "rwa_step L view c c' S \<Longrightarrow> rwa_step L view c' c'' S' \<Longrightarrow> rwa_step L view c c'' S'"
  by (auto simp: rwa_step_def intro: frame_trans)

lemma rwa_put:
  assumes L: "sdk_laws L view" and "valid_key k" and "valid_value bz"
    and "rwa_families L ((store_view view Rwa_StoreKey c)(k \<mapsto> bz))"
    and "rwa_abs L ((store_view view Rwa_StoreKey c)(k \<mapsto> bz)) = S"
  shows "\<exists>c'. store_set L Rwa_StoreKey k bz c = Ok c' \<and> rwa_step L view c c' S"
  using store_set_ex [OF L assms(2,3), of Rwa_StoreKey c] assms(4,5)
  by (auto simp: rwa_step_def rwa_inv_def rwa_of_def)

lemma rwa_delete:
  assumes L: "sdk_laws L view" and "valid_key k"
    and "rwa_families L ((store_view view Rwa_StoreKey c)(k := None))"
    and "rwa_abs L ((store_view view Rwa_StoreKey c)(k := None)) = S"
  shows "\<exists>c'. store_delete L Rwa_StoreKey k c = Ok c' \<and> rwa_step L view c c' S"
  using store_delete_ex [OF L assms(2), of Rwa_StoreKey c] assms(3,4)
  by (auto simp: rwa_step_def rwa_inv_def rwa_of_def)

lemma Rwa_SetParams_step:
  assumes L: "sdk_laws L view" and inv: "rwa_inv L view c" and ok: "rwa_params_ok (env_math L) p"
  shows "\<exists>c'. Rwa_SetParams L p c = Ok c' \<and> rwa_step L view c c' ((rwa_of L view c)\<lparr>rw_params := p\<rparr>)"
proof -
  have "RWAParams_wf p" using ok by (simp add: RWAParams_wf_def rwa_params_ok_def)
  then obtain bz where bz: "RWAParams_Marshal p = Ok bz" "length bz = RWAParams_Size p" "RWAParams_Unmarshal bz = Ok p"
    by (rule rwa_params_codec.codec_obtain)
  have "valid_value bz" using bz(2) ok by (simp add: valid_value_def rwa_params_ok_def)
  moreover have "rwa_params_entry (env_math L) Rwa_KeyParams bz" by (simp add: rwa_params_entry_def bz(3) ok)
  ultimately have "\<exists>c'. store_set L Rwa_StoreKey Rwa_KeyParams bz c = Ok c' \<and>
      rwa_step L view c c' ((rwa_of L view c)\<lparr>rw_params := p\<rparr>)"
    using inv by (intro rwa_put [OF L rwa_params_key])
      (simp_all add: rwa_families_put(1) rwa_inv_def rwa_abs_put(1) [OF bz(3)] rwa_of_def)
  then show ?thesis using ok by (simp add: Rwa_SetParams_def bz(1) rwa_params_ok_def)
qed

lemma issuer_index_key: "valid_addr issuer \<Longrightarrow> slugRegex i \<Longrightarrow> valid_key (byte 2 # byte (int (length issuer)) # issuer @ ''/'' @ i)"
  using slug_length [of i] by (simp add: valid_key_def valid_addr_def)

lemma SetAsset_step:
  assumes L: "sdk_laws L view" and inv: "rwa_inv L view c" and ok: "asset_ok L a"
  shows "\<exists>c'. SetAsset L a c = Ok c' \<and>
    rwa_step L view c c' ((rwa_of L view c)\<lparr>rw_assets := (rw_assets (rwa_of L view c))(ar_AssetId a \<mapsto> a)\<rparr>)"
proof -
  let ?S = "(rwa_of L view c)\<lparr>rw_assets := (rw_assets (rwa_of L view c))(ar_AssetId a \<mapsto> a)\<rparr>"
  note slug = asset_slug [OF ok]
  obtain bz where bz: "AssetRecord_Marshal (env_time L) a = Ok bz" "valid_value bz" "AssetRecord_Unmarshal (env_time L) bz = Ok a"
    by (rule asset_encoded [OF sdk_time [OF L] ok])
  have "asset_entry L (AssetKey (ar_AssetId a)) bz" by (simp add: asset_entry_def bz(3) ok)
  then have "\<exists>c'. store_set L Rwa_StoreKey (AssetKey (ar_AssetId a)) bz c = Ok c' \<and> rwa_step L view c c' ?S"
    using inv by (intro rwa_put [OF L asset_keys.key_valid [OF slug] bz(2)])
      (simp_all add: rwa_families_put(2) rwa_inv_def rwa_abs_put(2) [OF slug bz(3)] rwa_of_def)
  then obtain c1 where c1: "store_set L Rwa_StoreKey (AssetKey (ar_AssetId a)) bz c = Ok c1" "rwa_step L view c c1 ?S"
    by blast
  obtain issuer where issuer: "AccAddressFromBech32 (env_addr L) (ar_Issuer a) = Ok issuer" by (rule asset_issuer [OF ok])
  note va = acc_addr_valid [OF sdk_addr [OF L] issuer]
  have "\<exists>c'. store_set L Rwa_StoreKey (byte 2 # byte (int (length issuer)) # issuer @ ''/'' @ ar_AssetId a) [byte 1] c1 = Ok c' \<and>
      rwa_step L view c1 c' ?S"
    using rwa_step_inv [OF c1(2)] rwa_step_state [OF c1(2)]
    by (intro rwa_put [OF L issuer_index_key [OF va slug]])
      (simp_all add: rwa_families_put(5) rwa_inv_def rwa_abs_put(7) rwa_of_def valid_value_def)
  then show ?thesis
    using rwa_step_trans [OF c1(2)] by (auto simp: SetAsset_def bz(1) c1(1) issuer IssuerIndexKey_eq [OF sdk_addr [OF L] va])
qed

lemma restriction_steps:
  assumes L: "sdk_laws L view" and inv: "rwa_inv L view c" and m: "member_ok (i, addr)"
  shows AddAllowlist_step: "\<exists>c'. AddAllowlist L i addr c = Ok c' \<and>
      rwa_step L view c c' ((rwa_of L view c)\<lparr>rw_allow := insert (i, addr) (rw_allow (rwa_of L view c))\<rparr>)"
    and DelAllowlist_step: "\<exists>c'. DelAllowlist L i addr c = Ok c' \<and>
      rwa_step L view c c' ((rwa_of L view c)\<lparr>rw_allow := rw_allow (rwa_of L view c) - {(i, addr)}\<rparr>)"
    and AddDenylist_step: "\<exists>c'. AddDenylist L i addr c = Ok c' \<and>
      rwa_step L view c c' ((rwa_of L view c)\<lparr>rw_deny := insert (i, addr) (rw_deny (rwa_of L view c))\<rparr>)"
    and DelDenylist_step: "\<exists>c'. DelDenylist L i addr c = Ok c' \<and>
      rwa_step L view c c' ((rwa_of L view c)\<lparr>rw_deny := rw_deny (rwa_of L view c) - {(i, addr)}\<rparr>)"
  unfolding AddAllowlist_def DelAllowlist_def AddDenylist_def DelDenylist_def
  using inv allow_keys.key_valid [OF m] deny_keys.key_valid [OF m]
  by - ((rule rwa_put [OF L] rwa_delete [OF L];
      simp add: valid_value_def rwa_families_put rwa_inv_def rwa_abs_put(3-6) [OF m] rwa_of_def)+)

section \<open>Going through the assets\<close>

text \<open>The records in the order of a scan: by asset id.\<close>

definition assets_by_id :: "rwa_state \<Rightarrow> AssetRecord list" where
  "assets_by_id S = map (\<lambda>i. the (rw_assets S i)) (sorted_list_of_set (dom (rw_assets S)))"

lemma asset_keys_image:
  assumes "rwa_inv L view c"
  shows "{k \<in> dom (store_view view Rwa_StoreKey c). prefix KeyPrefixAsset k} = AssetKey ` dom (rw_assets (rwa_of L view c))"
proof (intro set_eqI iffI)
  fix k assume "k \<in> {k \<in> dom (store_view view Rwa_StoreKey c). prefix KeyPrefixAsset k}"
  then obtain bz i where k: "k = AssetKey i" and m: "store_view view Rwa_StoreKey c (AssetKey i) = Some bz"
    by (auto simp: prefix_def AssetKey_def)
  obtain a where "AssetRecord_Unmarshal (env_time L) bz = Ok a" "ar_AssetId a = i" "asset_ok L a"
    by (rule stored_asset [OF assms [unfolded rwa_inv_def] m])
  moreover from this have "slugRegex i" using asset_slug by metis
  ultimately have "rw_assets (rwa_of L view c) i = Some a" by (simp add: rwa_of_def rwa_abs_def typed_at_SomeI m)
  then show "k \<in> AssetKey ` dom (rw_assets (rwa_of L view c))" using k by blast
next
  fix k assume "k \<in> AssetKey ` dom (rw_assets (rwa_of L view c))"
  then show "k \<in> {k \<in> dom (store_view view Rwa_StoreKey c). prefix KeyPrefixAsset k}"
    by (auto simp: rwa_of_def rwa_abs_def AssetKey_def elim!: typed_at_SomeE)
qed

lemma finite_assets:
  assumes L: "sdk_laws L view" and inv: "rwa_inv L view c"
  shows "finite (dom (rw_assets (rwa_of L view c)))"
proof -
  have "finite (AssetKey ` dom (rw_assets (rwa_of L view c)))"
    unfolding asset_keys_image [OF inv, symmetric] using store_view_finite [OF L, of Rwa_StoreKey c] by simp
  then show ?thesis by (rule finite_imageD) (simp add: inj_on_def AssetKey_def)
qed

lemma sorted_list_of_set_AssetKey:
  assumes "finite A"
  shows "sorted_list_of_set (AssetKey ` A) = map AssetKey (sorted_list_of_set A)"
proof (rule sorted_list_of_set_unique [THEN iffD1])
  show "finite (AssetKey ` A)" using assms by simp
  have "sorted_wrt (<) (sorted_list_of_set A)" by simp
  then have "sorted_wrt (<) (map AssetKey (sorted_list_of_set A))"
    by (simp add: sorted_wrt_map AssetKey_def KeyPrefixAsset_def)
  moreover have "card (AssetKey ` A) = card A" by (rule card_image) (simp add: inj_on_def AssetKey_def)
  ultimately show "sorted_wrt (<) (map AssetKey (sorted_list_of_set A)) \<and> set (map AssetKey (sorted_list_of_set A)) = AssetKey ` A \<and>
      length (map AssetKey (sorted_list_of_set A)) = card (AssetKey ` A)"
    using assms by simp
qed

lemma iterate_assets_eq:
  assumes fn: "\<And>a acc. fn a acc = obind (g a acc) (\<lambda>acc. Ok (True, acc))"
    and es: "list_all2 (\<lambda>e a. AssetRecord_Unmarshal T (snd e) = Ok a) es as"
  shows "iterate_assets T fn es acc = ofold g as acc"
  using es
proof (induction es as arbitrary: acc rule: list_all2_induct)
  case (Cons e es a as)
  then show ?case by (cases e) (simp add: fn obind_assoc)
qed simp

lemma IterateAssets_eq:
  assumes L: "sdk_laws L view" and inv: "rwa_inv L view c"
    and fn: "\<And>a acc. fn a acc = obind (g a acc) (\<lambda>acc. Ok (True, acc))"
  shows "IterateAssets L c fn acc = ofold g (assets_by_id (rwa_of L view c)) acc"
proof -
  let ?m = "store_view view Rwa_StoreKey c" and ?S = "rwa_of L view c"
  have scan: "store_scan L Rwa_StoreKey KeyPrefixAsset c = Ok (prefix_entries ?m KeyPrefixAsset)"
    by (rule store_scan_eq [OF L]) (simp add: KeyPrefixAsset_def)
  have entries: "prefix_entries ?m KeyPrefixAsset =
      map (\<lambda>i. (AssetKey i, the (?m (AssetKey i)))) (sorted_list_of_set (dom (rw_assets ?S)))"
    unfolding prefix_entries_def asset_keys_image [OF inv]
    by (simp add: sorted_list_of_set_AssetKey [OF finite_assets [OF L inv]])
  have dec: "AssetRecord_Unmarshal (env_time L) (the (?m (AssetKey i))) = Ok (the (rw_assets ?S i))"
    if "i \<in> dom (rw_assets ?S)" for i
    using that by (auto simp: rwa_of_def rwa_abs_def typed_at_SomeI elim!: typed_at_SomeE)
  have "list_all2 (\<lambda>e a. AssetRecord_Unmarshal (env_time L) (snd e) = Ok a) (prefix_entries ?m KeyPrefixAsset) (assets_by_id ?S)"
    unfolding entries assets_by_id_def list_all2_map1 list_all2_map2 list_all2_same
    using dec finite_assets [OF L inv] by simp
  then show ?thesis by (simp add: IterateAssets_def scan iterate_assets_eq [OF fn])
qed

section \<open>Moving coins\<close>

text \<open>The account the keeper reads balances of is the one the bank moves the module's coins to.\<close>

definition rwa_account :: "('s, 'x) env \<Rightarrow> bool" where
  "rwa_account L \<longleftrightarrow> GetModuleAddress (env_keepers L) ''rwa'' = ModuleAddress L"

lemma one_coin_Ok:
  assumes "bank_laws (env_keepers L)" and "one_coin L d n = Ok coins"
  shows "0 \<le> n \<and> coins = (if n = 0 then [] else [(d, n)])"
proof -
  from assms(2) obtain coin where coin: "NewCoin (env_keepers L) d n = Ok coin" "NewCoins (env_keepers L) [coin] = Ok coins"
    by (auto simp: one_coin_def obind_eq_Ok)
  from NewCoin_eq [OF assms(1) coin(1)] coin(2) show ?thesis using NewCoins_eq [OF assms(1), of d n coins] by simp
qed

lemma with_ext_Ok: "with_ext c r = Ok c' \<longleftrightarrow> (\<exists>x. r = Ok x \<and> c' = c\<lparr>ext := x\<rparr>)"
  by (auto simp: with_ext_def obind_eq_Ok)

lemma LockBond_Ok:
  assumes B: "bank_laws (env_keepers L)" and acc: "rwa_account L" and n: "0 < n" and ok: "LockBond L issuer n c = Ok c'"
  obtains x where "c' = c\<lparr>ext := x\<rparr>" and "moved (env_keepers L) (ext c) x issuer (ModuleAddress L) BondDenom n"
proof -
  from ok n obtain x where x: "c' = c\<lparr>ext := x\<rparr>"
    and send: "SendCoinsFromAccountToModule (env_keepers L) (SendRestriction L c) (ext c) issuer ''rwa'' [(BondDenom, n)] = Ok x"
    by (auto simp: LockBond_def obind_eq_Ok with_ext_Ok Rwa_ModuleName_def dest!: one_coin_Ok [OF B])
  show thesis
    by (rule SendCoinsFromAccountToModule_moved [OF B send])
      (use acc x that in \<open>auto simp: SendRestriction_Ok rwa_account_def\<close>)
qed

lemma ReleaseBond_Ok:
  assumes B: "bank_laws (env_keepers L)" and acc: "rwa_account L" and n: "0 < n" and ok: "ReleaseBond L issuer n c = Ok c'"
  obtains x where "c' = c\<lparr>ext := x\<rparr>" and "moved (env_keepers L) (ext c) x (ModuleAddress L) issuer BondDenom n"
proof -
  from ok n obtain x where x: "c' = c\<lparr>ext := x\<rparr>"
    and send: "SendCoinsFromModuleToAccount (env_keepers L) (SendRestriction L c) (ext c) ''rwa'' issuer [(BondDenom, n)] = Ok x"
    by (auto simp: ReleaseBond_def obind_eq_Ok with_ext_Ok Rwa_ModuleName_def dest!: one_coin_Ok [OF B])
  show thesis
    by (rule SendCoinsFromModuleToAccount_moved [OF B send])
      (use acc x that in \<open>auto simp: SendRestriction_Ok rwa_account_def\<close>)
qed

lemma SlashBond_pool_Ok:
  assumes B: "bank_laws (env_keepers L)" and n: "0 < n" and ok: "SlashBondToCommunityPool L n c = Ok c'"
  obtains x where "c' = c\<lparr>ext := x\<rparr>"
    and "moved (env_keepers L) (ext c) x (ModuleAddress L) (GetModuleAddress (env_keepers L) ''distribution'') BondDenom n"
proof -
  from ok n obtain x where x: "c' = c\<lparr>ext := x\<rparr>"
    and send: "FundCommunityPool (env_keepers L) (SendRestriction L c) (ext c) [(BondDenom, n)] (ModuleAddress L) = Ok x"
    by (auto simp: SlashBondToCommunityPool_def obind_eq_Ok with_ext_Ok dest!: one_coin_Ok [OF B])
  show thesis
    by (rule FundCommunityPool_moved [OF B send]) (use x that in \<open>auto simp: SendRestriction_Ok\<close>)
qed

lemma moved_nothing: "bank_laws B \<Longrightarrow> moved B x x src dst d 0"
  by (simp add: moved_def GetBalance_range)

lemma CollectFee_Ok:
  assumes B: "bank_laws (env_keepers L)" and fee: "0 \<le> fee" and ok: "CollectFee L payer fee c = Ok c'"
  obtains x where "c' = c\<lparr>ext := x\<rparr>"
    and "moved (env_keepers L) (ext c) x payer (GetModuleAddress (env_keepers L) ''fee_collector'') BondDenom fee"
proof (cases "fee = 0")
  case True
  then show thesis using ok that [of "ext c"] by (simp add: CollectFee_def moved_nothing [OF B])
next
  case False
  with fee ok obtain x where x: "c' = c\<lparr>ext := x\<rparr>"
    and send: "SendCoinsFromAccountToModule (env_keepers L) (SendRestriction L c) (ext c) payer ''fee_collector'' [(BondDenom, fee)] = Ok x"
    by (auto simp: CollectFee_def obind_eq_Ok with_ext_Ok dest!: one_coin_Ok [OF B])
  show thesis
    by (rule SendCoinsFromAccountToModule_moved [OF B send]) (use x that in \<open>auto simp: SendRestriction_Ok\<close>)
qed

text \<open>A fee is the rate's share of the notional, rounded down: never more than the notional.\<close>

lemma ComputeFee_Ok:
  assumes M: "math_laws M" and n: "0 \<le> n" and r: "0 \<le> r" "r < dec_unit" and ok: "ComputeFee M n r = Ok fee"
  shows "fee = n * r div dec_unit \<and> 0 \<le> fee \<and> fee \<le> n"
proof -
  have "fee = (n * r) sdiv dec_unit"
    using ok by (auto simp: ComputeFee_def LegacyNewDecFromInt_eq [OF M] dec_Mul_exact [OF M] dec_TruncateInt_eq [OF M]
        obind_eq_Ok split: if_splits)
  then have fee: "fee = n * r div dec_unit" using n r by (simp add: signed_divide_int_def sgn_if)
  have "n * r \<le> n * dec_unit" using n r by (intro mult_left_mono) simp_all
  then have "n * r div dec_unit \<le> n * dec_unit div dec_unit" by (rule zdiv_mono1) simp
  then show ?thesis using n r by (simp add: fee pos_imp_zdiv_nonneg_iff)
qed

end
