(* ===== verification/Rwa_Server.thy ===== *)
theory Rwa_Server
  imports Rwa_Keeper
begin

text \<open>
  \<open>x/rwa/keeper/msg_server.go\<close>, \<open>grpc_query.go\<close>, \<open>invariants.go\<close> and \<open>genesis.go\<close>: the
  life cycle of a tokenised asset. The oracle is reached through the interface
  \<open>OracleKeeper\<close>; its one method is the argument \<open>oracleGetPrice\<close>.
\<close>

section \<open>Messages\<close>

definition RegisterAsset :: "('s, 'x) env \<Rightarrow> MsgRegisterAsset \<Rightarrow> ('s, 'x) ctx \<Rightarrow> ('s, 'x) ctx outcome" where
  "RegisterAsset L msg c =
     obind (MsgRegisterAsset_ValidateBasic (env_math L) (env_addr L) msg) (\<lambda>_.
     obind (GetAsset L (mra_AssetId msg) c) (\<lambda>found.
       if found \<noteq> None then Err ErrAssetExists
       else obind (Rwa_GetParams L c) (\<lambda>params.
         case NewIntFromString (env_math L) (mra_Bond msg) of
           None \<Rightarrow> Err ErrInvalidAmount
         | Some bond \<Rightarrow>
             obind (use_int (MinIssuerBondInt (env_math L) params)) (\<lambda>minBond.
               if bond < minBond then Err ErrBondTooLow
               else obind (AccAddressFromBech32 (env_addr L) (mra_Issuer msg)) (\<lambda>issuer.
                    obind (LockBond L issuer bond c) (\<lambda>c.
                    let rec = \<lparr>ar_AssetId = mra_AssetId msg, ar_Issuer = mra_Issuer msg,
                          ar_Name = mra_Name msg, ar_Description = mra_Description msg,
                          ar_Status = DRAFT, ar_OraclePair = mra_OraclePair msg,
                          ar_Denom = BuildDenom (mra_AssetId msg),
                          ar_Bond = int_String (env_math L) bond,
                          ar_NotionalMinted = int_String (env_math L) 0, ar_AllowAll = True,
                          ar_AttestedPrice = '''', ar_AttestedAt = zero_time,
                          ar_CreatedAt = BlockTime c, ar_SettledAt = zero_time\<rparr>
                    in obind (SetAsset L rec c) (\<lambda>c.
                       Ok (EmitEvent (Event ''rwa_asset_registered''
                             [(''asset_id'', mra_AssetId msg), (''issuer'', mra_Issuer msg),
                              (''bond'', int_String (env_math L) bond)]) c))))))))"

definition requireIssuer :: "('s, 'x) env \<Rightarrow> string \<Rightarrow> string \<Rightarrow> ('s, 'x) ctx \<Rightarrow> AssetRecord outcome" where
  "requireIssuer L assetID caller c =
     obind (GetAsset L assetID c) (\<lambda>found.
       case found of
         None \<Rightarrow> Err ErrAssetNotFound
       | Some rec \<Rightarrow> if ar_Issuer rec \<noteq> caller then Err Rwa_ErrUnauthorized else Ok rec)"

definition AttestAsset ::
    "('s, 'x) env \<Rightarrow> (string \<Rightarrow> ('s, 'x) ctx \<Rightarrow> dec outcome) \<Rightarrow> MsgAttestAsset \<Rightarrow> ('s, 'x) ctx \<Rightarrow> ('s, 'x) ctx outcome" where
  "AttestAsset L oracleGetPrice msg c =
     obind (MsgAttestAsset_ValidateBasic (env_addr L) msg) (\<lambda>_.
     obind (requireIssuer L (maa_AssetId msg) (maa_Issuer msg) c) (\<lambda>rec.
       if ar_Status rec \<noteq> DRAFT then Err ErrInvalidStatus
       else case oracleGetPrice (ar_OraclePair rec) c of
              Panic \<Rightarrow> Panic
            | Err _ \<Rightarrow> Err ErrAttestationFailed
            | Ok price \<Rightarrow>
                let rec = rec\<lparr>ar_Status := ATTESTED, ar_AttestedPrice := dec_String (env_math L) price,
                              ar_AttestedAt := BlockTime c\<rparr>
                in obind (SetAsset L rec c) (\<lambda>c.
                   Ok (EmitEvent (Event ''rwa_asset_attested''
                         [(''asset_id'', ar_AssetId rec), (''oracle_pair'', ar_OraclePair rec),
                          (''attested_price'', ar_AttestedPrice rec)]) c))))"

definition MintRWA :: "('s, 'x) env \<Rightarrow> MsgMintRWA \<Rightarrow> ('s, 'x) ctx \<Rightarrow> ('s, 'x) ctx outcome" where
  "MintRWA L msg c =
     obind (MsgMintRWA_ValidateBasic (env_math L) (env_addr L) msg) (\<lambda>_.
     obind (requireIssuer L (mmr_AssetId msg) (mmr_Issuer msg) c) (\<lambda>rec.
       if ar_Status rec \<noteq> ATTESTED \<and> ar_Status rec \<noteq> ACTIVE then Err ErrInvalidStatus
       else case NewIntFromString (env_math L) (mmr_Notional msg) of
              None \<Rightarrow> Err ErrInvalidNotional
            | Some notional \<Rightarrow>
                if \<not> notional > 0 then Err ErrInvalidNotional
                else obind (Rwa_GetParams L c) (\<lambda>params.
                     obind (MintFeeRateDec (env_math L) params) (\<lambda>rate.
                     obind (AccAddressFromBech32 (env_addr L) (mmr_Issuer msg)) (\<lambda>issuer.
                     obind (ComputeFee (env_math L) notional rate) (\<lambda>fee.
                     obind (CollectFee L issuer fee c) (\<lambda>c.
                     obind (one_coin L (ar_Denom rec) notional) (\<lambda>mintCoins.
                     obind (with_ext c (MintCoins (env_keepers L) (ext c) Rwa_ModuleName mintCoins)) (\<lambda>c.
                     obind (with_ext c (SendCoinsFromModuleToAccount (env_keepers L) (SendRestriction L c)
                              (ext c) Rwa_ModuleName issuer mintCoins)) (\<lambda>c.
                     obind (use_int (NewIntFromString (env_math L) (ar_NotionalMinted rec))) (\<lambda>prev.
                     obind (int_Add (env_math L) prev notional) (\<lambda>s.
                     let rec = rec\<lparr>ar_NotionalMinted := int_String (env_math L) s, ar_Status := ACTIVE\<rparr>
                     in obind (SetAsset L rec c) (\<lambda>c.
                        Ok (EmitEvent (Event ''rwa_minted''
                              [(''asset_id'', ar_AssetId rec), (''notional'', int_String (env_math L) notional),
                               (''mint_fee'', int_String (env_math L) fee)]) c))))))))))))))"

definition TransferRWA :: "('s, 'x) env \<Rightarrow> MsgTransferRWA \<Rightarrow> ('s, 'x) ctx \<Rightarrow> ('s, 'x) ctx outcome" where
  "TransferRWA L msg c =
     obind (MsgTransferRWA_ValidateBasic (env_math L) (env_addr L) msg) (\<lambda>_.
     obind (GetAsset L (mtr_AssetId msg) c) (\<lambda>found.
       case found of
         None \<Rightarrow> Err ErrAssetNotFound
       | Some rec \<Rightarrow>
           if ar_Status rec \<noteq> ACTIVE then Err ErrInvalidStatus
           else obind (AccAddressFromBech32 (env_addr L) (mtr_Sender msg)) (\<lambda>sender.
                obind (AccAddressFromBech32 (env_addr L) (mtr_Recipient msg)) (\<lambda>recipient.
                obind (CheckTransferAllowed L (mtr_AssetId msg) sender recipient c) (\<lambda>_.
                  case NewIntFromString (env_math L) (mtr_Amount msg) of
                    None \<Rightarrow> Err ErrInvalidAmount
                  | Some amount \<Rightarrow>
                      if \<not> amount > 0 then Err ErrInvalidAmount
                      else obind (one_coin L (ar_Denom rec) amount) (\<lambda>coins.
                           obind (with_ext c (SendCoins (env_keepers L) (SendRestriction L c) (ext c)
                                    sender recipient coins)) (\<lambda>c.
                           Ok (EmitEvent (Event ''rwa_transferred''
                                 [(''asset_id'', ar_AssetId rec), (''sender'', mtr_Sender msg),
                                  (''recipient'', mtr_Recipient msg),
                                  (''amount'', int_String (env_math L) amount)]) c))))))))"

text \<open>The closure \<open>apply\<close> of \<open>UpdateRestrictions\<close>: one change per address of the list.\<close>

definition apply_list ::
    "('s, 'x) env \<Rightarrow> (addr \<Rightarrow> ('s, 'x) ctx \<Rightarrow> ('s, 'x) ctx outcome) \<Rightarrow> string list \<Rightarrow> ('s, 'x) ctx \<Rightarrow> ('s, 'x) ctx outcome" where
  "apply_list L f addrs c =
     ofold (\<lambda>a c. obind (AccAddressFromBech32 (env_addr L) a) (\<lambda>addr. f addr c)) addrs c"

definition UpdateRestrictions :: "('s, 'x) env \<Rightarrow> MsgUpdateRestrictions \<Rightarrow> ('s, 'x) ctx \<Rightarrow> ('s, 'x) ctx outcome" where
  "UpdateRestrictions L msg c =
     obind (MsgUpdateRestrictions_ValidateBasic (env_addr L) msg) (\<lambda>_.
     obind (requireIssuer L (mur_AssetId msg) (mur_Issuer msg) c) (\<lambda>rec.
       if ar_Status rec = SETTLED then Err ErrInvalidStatus
       else obind (apply_list L (AddAllowlist L (mur_AssetId msg)) (mur_AddAllow msg) c) (\<lambda>c.
            obind (apply_list L (DelAllowlist L (mur_AssetId msg)) (mur_DelAllow msg) c) (\<lambda>c.
            obind (apply_list L (AddDenylist L (mur_AssetId msg)) (mur_AddDeny msg) c) (\<lambda>c.
            obind (apply_list L (DelDenylist L (mur_AssetId msg)) (mur_DelDeny msg) c) (\<lambda>c.
            let rec = rec\<lparr>ar_AllowAll := mur_AllowAll msg\<rparr>
            in obind (SetAsset L rec c) (\<lambda>c.
               Ok (EmitEvent (Event ''rwa_restriction_updated''
                     [(''asset_id'', ar_AssetId rec),
                      (''allow_all'', if ar_AllowAll rec then ''true'' else ''false'')]) c))))))))"

definition SettleRWA :: "('s, 'x) env \<Rightarrow> MsgSettleRWA \<Rightarrow> ('s, 'x) ctx \<Rightarrow> ('s, 'x) ctx outcome" where
  "SettleRWA L msg c =
     obind (MsgSettleRWA_ValidateBasic (env_addr L) msg) (\<lambda>_.
     obind (requireIssuer L (msr_AssetId msg) (msr_Issuer msg) c) (\<lambda>rec.
       if ar_Status rec \<noteq> ACTIVE then Err ErrInvalidStatus
       else obind (AccAddressFromBech32 (env_addr L) (msr_Issuer msg)) (\<lambda>issuer.
            obind (Rwa_GetParams L c) (\<lambda>params.
            obind (SettleFeeRateDec (env_math L) params) (\<lambda>rate.
            obind (use_int (NewIntFromString (env_math L) (ar_NotionalMinted rec))) (\<lambda>notionalMinted.
            obind (ComputeFee (env_math L) notionalMinted rate) (\<lambda>fee.
            obind (CollectFee L issuer fee c) (\<lambda>c.
            obind (one_coin L (ar_Denom rec) notionalMinted) (\<lambda>burnCoins.
            obind (if notionalMinted > 0
                   then obind (with_ext c (SendCoinsFromAccountToModule (env_keepers L) (SendRestriction L c)
                                 (ext c) issuer Rwa_ModuleName burnCoins)) (\<lambda>c.
                        with_ext c (BurnCoins (env_keepers L) (ext c) Rwa_ModuleName burnCoins))
                   else Ok c) (\<lambda>c.
            obind (use_int (NewIntFromString (env_math L) (ar_Bond rec))) (\<lambda>bond.
            obind (if bond > 0 then ReleaseBond L issuer bond c else Ok c) (\<lambda>c.
            let rec = rec\<lparr>ar_Status := SETTLED, ar_SettledAt := BlockTime c\<rparr>
            in obind (SetAsset L rec c) (\<lambda>c.
               Ok (EmitEvent (Event ''rwa_settled''
                     [(''asset_id'', ar_AssetId rec), (''settle_fee'', int_String (env_math L) fee),
                      (''bond_returned'', int_String (env_math L) bond)]) c))))))))))))))"

definition SlashBond :: "('s, 'x) env \<Rightarrow> MsgSlashBond \<Rightarrow> ('s, 'x) ctx \<Rightarrow> ('s, 'x) ctx outcome" where
  "SlashBond L msg c =
     (if env_authority L \<noteq> msl_Authority msg then Err Rwa_ErrUnauthorized
      else obind (MsgSlashBond_ValidateBasic (env_addr L) msg) (\<lambda>_.
           obind (GetAsset L (msl_AssetId msg) c) (\<lambda>found.
             case found of
               None \<Rightarrow> Err ErrAssetNotFound
             | Some rec \<Rightarrow>
                 if ar_Status rec \<noteq> ACTIVE then Err ErrInvalidStatus
                 else obind (use_int (NewIntFromString (env_math L) (ar_Bond rec))) (\<lambda>bond.
                      obind (if bond > 0 then SlashBondToCommunityPool L bond c else Ok c) (\<lambda>c.
                      let rec = rec\<lparr>ar_Status := SETTLED, ar_SettledAt := BlockTime c,
                                    ar_Bond := int_String (env_math L) 0\<rparr>
                      in obind (SetAsset L rec c) (\<lambda>c.
                         Ok (EmitEvent (Event ''rwa_bond_slashed''
                               [(''asset_id'', ar_AssetId rec), (''amount'', int_String (env_math L) bond),
                                (''reason'', msl_Reason msg)]) c)))))))"

definition Rwa_UpdateParams :: "('s, 'x) env \<Rightarrow> Rwa_MsgUpdateParams \<Rightarrow> ('s, 'x) ctx \<Rightarrow> ('s, 'x) ctx outcome" where
  "Rwa_UpdateParams L msg c =
     (if env_authority L \<noteq> rmup_Authority msg then Err Rwa_ErrInvalidSigner
      else obind (Rwa_MsgUpdateParams_ValidateBasic (env_math L) (env_addr L) msg) (\<lambda>_.
           obind (Rwa_SetParams L (rmup_Params msg) c) (\<lambda>c.
           Ok (EmitEvent (Event ''rwa_params_updated'' []) c))))"

section \<open>Queries\<close>

definition Query_Asset :: "('s, 'x) env \<Rightarrow> string option \<Rightarrow> ('s, 'x) ctx \<Rightarrow> AssetRecord outcome" where
  "Query_Asset L req c =
     (case req of
        None \<Rightarrow> Err (GrpcError ''InvalidArgument'')
      | Some assetID \<Rightarrow>
          if assetID = '''' then Err (GrpcError ''InvalidArgument'')
          else obind (GetAsset L assetID c) (\<lambda>found.
            case found of None \<Rightarrow> Err (GrpcError ''NotFound'') | Some rec \<Rightarrow> Ok rec))"

text \<open>
  \<open>query.Paginate\<close> is the argument \<open>paginate\<close>: from the entries of the prefix store and the
  request's page it gives the entries its callback sees and the response's page.
\<close>

definition Query_AssetsByIssuer ::
    "('s, 'x) env \<Rightarrow> ((bytes \<times> bytes) list \<Rightarrow> 'q \<Rightarrow> ((bytes \<times> bytes) list \<times> 'r) outcome) \<Rightarrow>
     (string \<times> 'q) option \<Rightarrow> ('s, 'x) ctx \<Rightarrow> (AssetRecord list \<times> 'r) outcome" where
  "Query_AssetsByIssuer L paginate req c =
     (case req of
        None \<Rightarrow> Err (GrpcError ''InvalidArgument'')
      | Some (issuer, pagination) \<Rightarrow>
          if issuer = '''' then Err (GrpcError ''InvalidArgument'')
          else case AccAddressFromBech32 (env_addr L) issuer of
                 Panic \<Rightarrow> Panic
               | Err _ \<Rightarrow> Err (GrpcError ''InvalidArgument'')
               | Ok issuer \<Rightarrow>
                   obind (IssuerIndexPrefix (env_addr L) issuer) (\<lambda>p.
                   obind (store_scan L Rwa_StoreKey p c) (\<lambda>entries.
                     case paginate (map (\<lambda>(k, v). (drop (length p) k, v)) entries) pagination of
                       Panic \<Rightarrow> Panic
                     | Err _ \<Rightarrow> Err (GrpcError ''Internal'')
                     | Ok (visited, pageRes) \<Rightarrow>
                         obind (omap (\<lambda>(key, _).
                                  GetAsset L (case key of ch # rest \<Rightarrow> if ch = CHR ''/'' then rest else key | [] \<Rightarrow> key) c)
                                visited) (\<lambda>recs.
                         Ok (map the (filter (\<lambda>r. r \<noteq> None) recs), pageRes)))))"

record QueryRestrictionsResponse =
  qr_AllowAll :: bool
  qr_Allowlist :: "string list"
  qr_Denylist :: "string list"

definition Query_Restrictions :: "('s, 'x) env \<Rightarrow> string option \<Rightarrow> ('s, 'x) ctx \<Rightarrow> QueryRestrictionsResponse outcome" where
  "Query_Restrictions L req c =
     (case req of
        None \<Rightarrow> Err (GrpcError ''InvalidArgument'')
      | Some assetID \<Rightarrow>
          if assetID = '''' then Err (GrpcError ''InvalidArgument'')
          else obind (GetAsset L assetID c) (\<lambda>found.
            case found of
              None \<Rightarrow> Err (GrpcError ''NotFound'')
            | Some rec \<Rightarrow>
                obind (IterateMembers L (AllowlistPrefix assetID) c) (\<lambda>allow.
                obind (IterateMembers L (DenylistPrefix assetID) c) (\<lambda>deny.
                Ok \<lparr>qr_AllowAll = ar_AllowAll rec,
                    qr_Allowlist = map (AccAddress_String (env_addr L)) allow,
                    qr_Denylist = map (AccAddress_String (env_addr L)) deny\<rparr>))))"

definition Rwa_Query_Params :: "('s, 'x) env \<Rightarrow> unit option \<Rightarrow> ('s, 'x) ctx \<Rightarrow> RWAParams outcome" where
  "Rwa_Query_Params L req c =
     (if req = None then Err (GrpcError ''InvalidArgument'') else Rwa_GetParams L c)"

section \<open>Invariants\<close>

text \<open>
  \<open>_ = k.IterateAssets(...)\<close>: when the iterator cannot be opened the callback never runs.
\<close>

definition iterate_assets_ignoring ::
    "('s, 'x) env \<Rightarrow> ('s, 'x) ctx \<Rightarrow> (AssetRecord \<Rightarrow> 'a \<Rightarrow> (bool \<times> 'a) outcome) \<Rightarrow> 'a \<Rightarrow> 'a outcome" where
  "iterate_assets_ignoring L c fn acc =
     (case IterateAssets L c fn acc of Ok acc' \<Rightarrow> Ok acc' | Err _ \<Rightarrow> Ok acc | Panic \<Rightarrow> Panic)"

definition bond_step :: "math_lib \<Rightarrow> AssetRecord \<Rightarrow> int \<times> bool \<Rightarrow> (bool \<times> int \<times> bool) outcome" where
  "bond_step M rec acc =
     (case acc of (s, broken) \<Rightarrow>
        if ar_Status rec = SETTLED then Ok (True, s, broken)
        else obind (if ar_Status rec = ACTIVE
                    then obind (use_int (NewIntFromString M (ar_Bond rec))) (\<lambda>bond. Ok (broken \<or> \<not> bond > 0))
                    else Ok broken) (\<lambda>broken.
             obind (use_int (NewIntFromString M (ar_Bond rec))) (\<lambda>bond.
             obind (int_Add M s bond) (\<lambda>s. Ok (True, s, broken)))))"

definition BondInvariant :: "('s, 'x) env \<Rightarrow> ('s, 'x) ctx \<Rightarrow> bool outcome" where
  "BondInvariant L c =
     obind (iterate_assets_ignoring L c (bond_step (env_math L)) (0, False)) (\<lambda>(s, broken).
     let moduleBal = GetBalance (env_keepers L) (ext c) (ModuleAddress L) BondDenom
     in Ok (broken \<or> moduleBal < s))"

definition DenomInvariant :: "('s, 'x) env \<Rightarrow> ('s, 'x) ctx \<Rightarrow> bool outcome" where
  "DenomInvariant L c =
     iterate_assets_ignoring L c
       (\<lambda>rec broken. Ok (True,
          broken \<or> ((ar_Status rec = DRAFT \<or> ar_Status rec = ATTESTED) \<and>
                     GetSupply (env_keepers L) (ext c) (ar_Denom rec) \<noteq> 0))) False"

section \<open>Genesis\<close>

definition init_restriction :: "('s, 'x) env \<Rightarrow> Restriction \<Rightarrow> ('s, 'x) ctx \<Rightarrow> ('s, 'x) ctx outcome" where
  "init_restriction L r c =
     obind (must (AccAddressFromBech32 (env_addr L) (rs_Address r))) (\<lambda>addr.
       if rs_IsDeny r then must (AddDenylist L (rs_AssetId r) addr c)
       else must (AddAllowlist L (rs_AssetId r) addr c))"

definition Rwa_InitGenesis :: "('s, 'x) env \<Rightarrow> Rwa_GenesisState \<Rightarrow> ('s, 'x) ctx \<Rightarrow> ('s, 'x) ctx outcome" where
  "Rwa_InitGenesis L gs c =
     obind (must (Rwa_GenesisState_Validate (env_math L) (env_addr L) gs)) (\<lambda>_.
     obind (must (Rwa_SetParams L (rgs_Params gs) c)) (\<lambda>c.
     obind (ofold (\<lambda>a c. must (SetAsset L a c)) (rgs_Assets gs) c) (\<lambda>c.
     ofold (init_restriction L) (rgs_Restrictions gs) c)))"

definition export_restrictions :: "('s, 'x) env \<Rightarrow> ('s, 'x) ctx \<Rightarrow> AssetRecord \<Rightarrow> Restriction list outcome" where
  "export_restrictions L c a =
     (let assetID = ar_AssetId a;
          restriction = (\<lambda>deny addr. \<lparr>rs_AssetId = assetID, rs_Address = AccAddress_String (env_addr L) addr,
                                      rs_IsDeny = deny\<rparr>)
      in obind (IterateMembers L (AllowlistPrefix assetID) c) (\<lambda>allow.
         obind (IterateMembers L (DenylistPrefix assetID) c) (\<lambda>deny.
         Ok (map (restriction False) allow @ map (restriction True) deny))))"

definition Rwa_ExportGenesis :: "('s, 'x) env \<Rightarrow> ('s, 'x) ctx \<Rightarrow> Rwa_GenesisState outcome" where
  "Rwa_ExportGenesis L c =
     obind (must (Rwa_GetParams L c)) (\<lambda>params.
     obind (iterate_assets_ignoring L c (\<lambda>rec assets. Ok (True, assets @ [rec])) []) (\<lambda>assets.
     let assets = sort_slice (\<lambda>a b. ar_AssetId a < ar_AssetId b) assets
     in obind (omap (export_restrictions L c) assets) (\<lambda>rs.
        Ok \<lparr>rgs_Params = params, rgs_Assets = assets, rgs_Restrictions = concat rs\<rparr>)))"

section \<open>What each message does\<close>

text \<open>
  \<open>rwa_done L view c c' S x\<close>: the handler took the module's state to \<open>S\<close> and the bank to
  \<open>x\<close>, and left every other module's store and the block as they were.
\<close>

definition rwa_done ::
    "('s, 'x) env \<Rightarrow> ('s \<Rightarrow> bytes \<rightharpoonup> bytes) \<Rightarrow> ('s, 'x) ctx \<Rightarrow> ('s, 'x) ctx \<Rightarrow> rwa_state \<Rightarrow> 'x \<Rightarrow> bool" where
  "rwa_done L view c c' S x \<longleftrightarrow> rwa_inv L view c' \<and> rwa_of L view c' = S \<and> ext c' = x \<and>
     BlockTime c' = BlockTime c \<and> BlockHeight c' = BlockHeight c \<and>
     (\<forall>n. n \<noteq> Rwa_StoreKey \<longrightarrow> multistore c' n = multistore c n)"

definition put_asset :: "AssetRecord \<Rightarrow> rwa_state \<Rightarrow> rwa_state" where
  "put_asset a S = S\<lparr>rw_assets := (rw_assets S)(ar_AssetId a \<mapsto> a)\<rparr>"

lemma rwa_inv_ext [simp]: "rwa_inv L view (c\<lparr>ext := x\<rparr>) = rwa_inv L view c" "rwa_inv L view (EmitEvent e c) = rwa_inv L view c"
  by (simp_all add: rwa_inv_def)

lemma rwa_of_ext [simp]: "rwa_of L view (c\<lparr>ext := x\<rparr>) = rwa_of L view c" "rwa_of L view (EmitEvent e c) = rwa_of L view c"
  by (simp_all add: rwa_of_def)

lemma rwa_step_done:
  assumes "rwa_step L view (c\<lparr>ext := x\<rparr>) c' S"
  shows "rwa_done L view c (EmitEvent e c') S x"
  using assms frame_fields [OF rwa_step_frame [OF assms]]
  by (simp add: rwa_step_def rwa_done_def frame_def) (simp add: EmitEvent_def)

lemma SetAsset_done:
  assumes L: "sdk_laws L view" and inv: "rwa_inv L view c" and ok: "asset_ok L a"
    and set_: "SetAsset L a (c\<lparr>ext := x\<rparr>) = Ok c'"
  shows "rwa_done L view c (EmitEvent e c') (put_asset a (rwa_of L view c)) x"
  using SetAsset_step [OF L, of "c\<lparr>ext := x\<rparr>" a] inv ok set_ by (auto simp: put_asset_def intro: rwa_step_done)

text \<open>The text fields of a registration fit in a transaction.\<close>

definition register_small :: "MsgRegisterAsset \<Rightarrow> bool" where
  "register_small m \<longleftrightarrow> length (mra_Issuer m) < 2 ^ 20 \<and> length (mra_Name m) < 2 ^ 20 \<and>
     length (mra_Description m) < 2 ^ 20 \<and> length (mra_OraclePair m) < 2 ^ 20"

definition draft_record :: "math_lib \<Rightarrow> time \<Rightarrow> MsgRegisterAsset \<Rightarrow> int \<Rightarrow> AssetRecord" where
  "draft_record M now msg bond =
     \<lparr>ar_AssetId = mra_AssetId msg, ar_Issuer = mra_Issuer msg, ar_Name = mra_Name msg,
      ar_Description = mra_Description msg, ar_Status = DRAFT, ar_OraclePair = mra_OraclePair msg,
      ar_Denom = BuildDenom (mra_AssetId msg), ar_Bond = int_String M bond,
      ar_NotionalMinted = int_String M 0, ar_AllowAll = True, ar_AttestedPrice = '''',
      ar_AttestedAt = zero_time, ar_CreatedAt = now, ar_SettledAt = zero_time\<rparr>"

lemma int_fits_0 [simp]: "int_fits 0"
  by (simp add: int_fits_def)

lemma valid_zero_time [simp]: "valid_time zero_time"
  by (simp add: valid_time_def zero_time_def)

lemma draft_record_ok:
  assumes M: "math_laws (env_math L)" and issuer: "AccAddressFromBech32 (env_addr L) (mra_Issuer msg) = Ok issuer"
    and slug: "slugRegex (mra_AssetId msg)" and bond: "int_fits bond" "0 \<le> bond" and t: "valid_time now" and small: "register_small msg"
  shows "asset_ok L (draft_record (env_math L) now msg bond)"
  using assms int_String_short [OF M bond(1)] int_String_short [OF M int_fits_0]
  by (simp add: asset_ok_def draft_record_def asset_small_def register_small_def positive_amount_String status_defs)

lemma requireIssuer_Ok:
  assumes L: "sdk_laws L view" and inv: "rwa_inv L view c" and slug: "slugRegex i"
  shows "requireIssuer L i caller c = Ok a \<longleftrightarrow> rw_assets (rwa_of L view c) i = Some a \<and> ar_Issuer a = caller"
  by (auto simp: requireIssuer_def GetAsset_eq [OF L inv slug_short [OF slug]] split: option.splits)

lemma RegisterAsset_Ok:
  assumes L: "sdk_laws L view" and B: "bank_laws (env_keepers L)" and acc: "rwa_account L"
    and inv: "rwa_inv L view c" and t: "valid_time (BlockTime c)" and small: "register_small msg"
    and ok: "RegisterAsset L msg c = Ok c'"
  shows "\<exists>issuer bond x. AccAddressFromBech32 (env_addr L) (mra_Issuer msg) = Ok issuer \<and> slugRegex (mra_AssetId msg) \<and>
    rw_assets (rwa_of L view c) (mra_AssetId msg) = None \<and> NewIntFromString (env_math L) (mra_Bond msg) = Some bond \<and> 0 < bond \<and>
    amount_of (env_math L) (rp_MinIssuerBond (rw_params (rwa_of L view c))) \<le> bond \<and>
    moved (env_keepers L) (ext c) x issuer (ModuleAddress L) BondDenom bond \<and>
    rwa_done L view c c' (put_asset (draft_record (env_math L) (BlockTime c) msg bond) (rwa_of L view c)) x"
proof -
  note M = sdk_math [OF L]
  have basic: "MsgRegisterAsset_ValidateBasic (env_math L) (env_addr L) msg = Ok ()"
    using ok by (auto simp: RegisterAsset_def obind_eq_Ok)
  then have slug: "slugRegex (mra_AssetId msg)" by (auto simp: MsgRegisterAsset_ValidateBasic_def obind_eq_Ok)
  from ok obtain bond minBond issuer c1 c2 e where bond: "NewIntFromString (env_math L) (mra_Bond msg) = Some bond"
    and new: "rw_assets (rwa_of L view c) (mra_AssetId msg) = None"
    and min: "MinIssuerBondInt (env_math L) (rw_params (rwa_of L view c)) = Some minBond" "minBond \<le> bond"
    and issuer: "AccAddressFromBech32 (env_addr L) (mra_Issuer msg) = Ok issuer"
    and lock: "LockBond L issuer bond c = Ok c1"
    and set_: "SetAsset L (draft_record (env_math L) (BlockTime c1) msg bond) c1 = Ok c2"
    and c': "c' = EmitEvent e c2"
    using Rwa_GetParams_eq [OF L inv]
    by (auto simp: RegisterAsset_def obind_eq_Ok GetAsset_eq [OF L inv slug_short [OF slug]] draft_record_def Let_def
        split: option.splits if_splits)
  have pos: "0 < bond" using basic bond by (auto simp: MsgRegisterAsset_ValidateBasic_def obind_eq_Ok split: if_splits)
  obtain x where x: "c1 = c\<lparr>ext := x\<rparr>" "moved (env_keepers L) (ext c) x issuer (ModuleAddress L) BondDenom bond"
    by (rule LockBond_Ok [OF B acc pos lock])
  have a: "asset_ok L (draft_record (env_math L) (BlockTime c) msg bond)"
    using NewIntFromString_fits [OF M bond] pos by (intro draft_record_ok [OF M issuer slug _ _ t small]) simp_all
  have "rwa_done L view c c' (put_asset (draft_record (env_math L) (BlockTime c) msg bond) (rwa_of L view c)) x"
    using SetAsset_done [OF L inv a] set_ c' x(1) by auto
  then show ?thesis using issuer slug new bond pos min x(2) by (auto simp: MinIssuerBondInt_def amount_of_def)
qed

definition attested_record :: "math_lib \<Rightarrow> time \<Rightarrow> dec \<Rightarrow> AssetRecord \<Rightarrow> AssetRecord" where
  "attested_record M now price a =
     a\<lparr>ar_Status := ATTESTED, ar_AttestedPrice := dec_String M price, ar_AttestedAt := now\<rparr>"

text \<open>The oracle as the attestation uses it.\<close>

locale attesting = price_feed "env_math L" getPrice
  for L :: "('s, 'x) env" and getPrice :: "string \<Rightarrow> ('s, 'x) ctx \<Rightarrow> dec outcome"
begin

lemma AttestAsset_Ok:
  assumes L: "sdk_laws L view" and inv: "rwa_inv L view c" and t: "valid_time (BlockTime c)"
    and ok: "AttestAsset L getPrice msg c = Ok c'"
  shows "\<exists>a price. rw_assets (rwa_of L view c) (maa_AssetId msg) = Some a \<and> ar_Issuer a = maa_Issuer msg \<and> ar_Status a = DRAFT \<and>
    getPrice (ar_OraclePair a) c = Ok price \<and>
    rwa_done L view c c' (put_asset (attested_record (env_math L) (BlockTime c) price a) (rwa_of L view c)) (ext c)"
proof -
  have slug: "slugRegex (maa_AssetId msg)" using ok by (auto simp: AttestAsset_def MsgAttestAsset_ValidateBasic_def obind_eq_Ok)
  from ok obtain a price c1 e where a: "rw_assets (rwa_of L view c) (maa_AssetId msg) = Some a" "ar_Issuer a = maa_Issuer msg"
      "ar_Status a = DRAFT"
    and price: "getPrice (ar_OraclePair a) c = Ok price"
    and set_: "SetAsset L (attested_record (env_math L) (BlockTime c) price a) c = Ok c1"
    and c': "c' = EmitEvent e c1"
    by (auto simp: AttestAsset_def obind_eq_Ok requireIssuer_Ok [OF L inv slug] attested_record_def Let_def
        split: if_splits outcome.splits)
  have "asset_ok L (attested_record (env_math L) (BlockTime c) price a)"
    using rwa_asset_ok [OF inv a(1)] t price_text [OF sdk_math [OF L] price]
    by (simp add: asset_ok_def attested_record_def asset_small_def status_defs)
  then have "rwa_done L view c c' (put_asset (attested_record (env_math L) (BlockTime c) price a) (rwa_of L view c)) (ext c)"
    using SetAsset_done [OF L inv, of _ "ext c"] set_ c' by simp
  then show ?thesis using a price by blast
qed

end

definition minted_record :: "math_lib \<Rightarrow> int \<Rightarrow> AssetRecord \<Rightarrow> AssetRecord" where
  "minted_record M n a = a\<lparr>ar_NotionalMinted := int_String M (notional_of M a + n), ar_Status := ACTIVE\<rparr>"

text \<open>\<open>rate_share M p n\<close>: the share of \<open>n\<close> that the rate with text \<open>p\<close> takes, rounded down.\<close>

definition rate_share :: "math_lib \<Rightarrow> string \<Rightarrow> int \<Rightarrow> int" where
  "rate_share M p n = (case LegacyNewDecFromStr M p of Ok r \<Rightarrow> n * r div dec_unit | _ \<Rightarrow> 0)"

lemma fee_charged:
  assumes M: "math_laws M" and p: "rwa_params_ok M params" and n: "0 \<le> n" and fee: "ComputeFee M n r = Ok fee"
    and r: "LegacyNewDecFromStr M s = Ok r" "s = rp_MintFeeRate params \<or> s = rp_SettleFeeRate params"
  shows "fee = rate_share M s n \<and> 0 \<le> fee \<and> fee \<le> n"
proof -
  have "0 \<le> r \<and> r < dec_unit"
    using p r by (auto simp: rwa_params_ok_def RWAParams_Validate_Ok [OF M] MintFeeRateDec_def SettleFeeRateDec_def)
  then show ?thesis using ComputeFee_Ok [OF M n _ _ fee] by (simp add: rate_share_def r(1))
qed

lemma MintRWA_Ok:
  assumes L: "sdk_laws L view" and B: "bank_laws (env_keepers L)" and acc: "rwa_account L" and inv: "rwa_inv L view c"
    and ok: "MintRWA L msg c = Ok c'"
  shows "\<exists>a issuer n fee x x1 x2. rw_assets (rwa_of L view c) (mmr_AssetId msg) = Some a \<and> ar_Issuer a = mmr_Issuer msg \<and>
    (ar_Status a = ATTESTED \<or> ar_Status a = ACTIVE) \<and> AccAddressFromBech32 (env_addr L) (mmr_Issuer msg) = Ok issuer \<and>
    NewIntFromString (env_math L) (mmr_Notional msg) = Some n \<and> 0 < n \<and> int_fits (notional_of (env_math L) a + n) \<and>
    fee = rate_share (env_math L) (rp_MintFeeRate (rw_params (rwa_of L view c))) n \<and> 0 \<le> fee \<and> fee \<le> n \<and>
    moved (env_keepers L) (ext c) x1 issuer (GetModuleAddress (env_keepers L) ''fee_collector'') BondDenom fee \<and>
    issued (env_keepers L) x1 x2 (ModuleAddress L) (ar_Denom a) n \<and>
    moved (env_keepers L) x2 x (ModuleAddress L) issuer (ar_Denom a) n \<and>
    rwa_done L view c c' (put_asset (minted_record (env_math L) n a) (rwa_of L view c)) x"
proof -
  let ?B = "env_keepers L" and ?M = "env_math L" and ?S = "rwa_of L view c"
  note M = sdk_math [OF L]
  have slug: "slugRegex (mmr_AssetId msg)" using ok by (auto simp: MintRWA_def MsgMintRWA_ValidateBasic_def obind_eq_Ok)
  from ok obtain a n rate issuer fee c1 coins c2 c3 prev s c4 e
    where a: "rw_assets ?S (mmr_AssetId msg) = Some a" "ar_Issuer a = mmr_Issuer msg" "ar_Status a = ATTESTED \<or> ar_Status a = ACTIVE"
      and n: "NewIntFromString ?M (mmr_Notional msg) = Some n" "0 < n"
      and rate: "LegacyNewDecFromStr ?M (rp_MintFeeRate (rw_params ?S)) = Ok rate"
      and issuer: "AccAddressFromBech32 (env_addr L) (mmr_Issuer msg) = Ok issuer"
      and fee: "ComputeFee ?M n rate = Ok fee" "CollectFee L issuer fee c = Ok c1"
      and coins: "one_coin L (ar_Denom a) n = Ok coins"
      and mint: "with_ext c1 (MintCoins ?B (ext c1) Rwa_ModuleName coins) = Ok c2"
      and send: "with_ext c2 (SendCoinsFromModuleToAccount ?B (SendRestriction L c2) (ext c2) Rwa_ModuleName issuer coins) = Ok c3"
      and prev: "NewIntFromString ?M (ar_NotionalMinted a) = Some prev" "int_Add ?M prev n = Ok s"
      and set_: "SetAsset L (a\<lparr>ar_NotionalMinted := int_String ?M s, ar_Status := ACTIVE\<rparr>) c3 = Ok c4" and c': "c' = EmitEvent e c4"
    using Rwa_GetParams_eq [OF L inv]
    by (auto simp: MintRWA_def obind_eq_Ok requireIssuer_Ok [OF L inv slug] MintFeeRateDec_def Let_def
        split: if_splits option.splits)
  have s: "s = notional_of ?M a + n" "int_fits s" using prev by (auto simp: int_Add_eq [OF M] amount_of_def)
  have f: "fee = rate_share ?M (rp_MintFeeRate (rw_params ?S)) n" "0 \<le> fee" "fee \<le> n"
    using fee_charged [OF M _ _ fee(1) rate, of "rw_params ?S"] Rwa_GetParams_eq [OF L inv] n(2) by simp_all
  obtain x1 where x1: "c1 = c\<lparr>ext := x1\<rparr>" "moved ?B (ext c) x1 issuer (GetModuleAddress ?B ''fee_collector'') BondDenom fee"
    by (rule CollectFee_Ok [OF B f(2) fee(2)])
  have "coins = [(ar_Denom a, n)]" using one_coin_Ok [OF B coins] n(2) by simp
  with mint send x1(1) obtain x2 x where x2: "c2 = c\<lparr>ext := x2\<rparr>" "MintCoins ?B x1 ''rwa'' [(ar_Denom a, n)] = Ok x2"
    and x: "c3 = c\<lparr>ext := x\<rparr>" "SendCoinsFromModuleToAccount ?B (SendRestriction L c2) x2 ''rwa'' issuer [(ar_Denom a, n)] = Ok x"
    by (auto simp: with_ext_Ok Rwa_ModuleName_def)
  have i: "issued ?B x1 x2 (ModuleAddress L) (ar_Denom a) n"
    using MintCoins_issued [OF B x2(2)] acc by (simp add: rwa_account_def)
  have m: "moved ?B x2 x (ModuleAddress L) issuer (ar_Denom a) n"
    by (rule SendCoinsFromModuleToAccount_moved [OF B x(2)]) (use acc in \<open>simp add: SendRestriction_Ok rwa_account_def\<close>)
  have r: "a\<lparr>ar_NotionalMinted := int_String ?M s, ar_Status := ACTIVE\<rparr> = minted_record ?M n a"
    by (simp add: minted_record_def s)
  have "asset_ok L (minted_record ?M n a)"
    using rwa_asset_ok [OF inv a(1)] s int_String_short [OF M s(2)] n(2) asset_notional(2) [OF rwa_asset_ok [OF inv a(1)]]
    by (simp add: asset_ok_def asset_small_def minted_record_def status_defs positive_amount_String [OF M])
  then have "rwa_done L view c c' (put_asset (minted_record ?M n a) ?S) x"
    using SetAsset_done [OF L inv] set_ c' by (simp add: r x(1))
  then show ?thesis using a n issuer s f x1(2) i m by blast
qed

lemma TransferRWA_Ok:
  assumes L: "sdk_laws L view" and B: "bank_laws (env_keepers L)" and inv: "rwa_inv L view c" and ok: "TransferRWA L msg c = Ok c'"
  shows "\<exists>a src dst n x. rw_assets (rwa_of L view c) (mtr_AssetId msg) = Some a \<and> ar_Status a = ACTIVE \<and>
    AccAddressFromBech32 (env_addr L) (mtr_Sender msg) = Ok src \<and> AccAddressFromBech32 (env_addr L) (mtr_Recipient msg) = Ok dst \<and>
    may_transfer (rwa_of L view c) (ModuleAddress L) (mtr_AssetId msg) src dst \<and>
    NewIntFromString (env_math L) (mtr_Amount msg) = Some n \<and> 0 < n \<and>
    moved (env_keepers L) (ext c) x src dst (ar_Denom a) n \<and> rwa_done L view c c' (rwa_of L view c) x"
proof -
  let ?B = "env_keepers L"
  have slug: "slugRegex (mtr_AssetId msg)" using ok by (auto simp: TransferRWA_def MsgTransferRWA_ValidateBasic_def obind_eq_Ok)
  from ok obtain a src dst n coins c1 e
    where a: "rw_assets (rwa_of L view c) (mtr_AssetId msg) = Some a" "ar_Status a = ACTIVE"
      and addrs: "AccAddressFromBech32 (env_addr L) (mtr_Sender msg) = Ok src" "AccAddressFromBech32 (env_addr L) (mtr_Recipient msg) = Ok dst"
      and check: "CheckTransferAllowed L (mtr_AssetId msg) src dst c = Ok ()"
      and n: "NewIntFromString (env_math L) (mtr_Amount msg) = Some n" "0 < n"
      and coins: "one_coin L (ar_Denom a) n = Ok coins"
      and send: "with_ext c (SendCoins ?B (SendRestriction L c) (ext c) src dst coins) = Ok c1" and c': "c' = EmitEvent e c1"
    by (auto simp: TransferRWA_def obind_eq_Ok GetAsset_eq [OF L inv slug_short [OF slug]] split: if_splits option.splits)
  have may: "may_transfer (rwa_of L view c) (ModuleAddress L) (mtr_AssetId msg) src dst"
    using check addrs [THEN acc_addr_valid [OF sdk_addr [OF L]]]
    by (simp add: CheckTransferAllowed_eq [OF L inv slug_short [OF slug]] split: if_splits)
  have "coins = [(ar_Denom a, n)]" using one_coin_Ok [OF B coins] n(2) by simp
  with send obtain x where x: "c1 = c\<lparr>ext := x\<rparr>" "SendCoins ?B (SendRestriction L c) (ext c) src dst [(ar_Denom a, n)] = Ok x"
    by (auto simp: with_ext_Ok)
  have m: "moved ?B (ext c) x src dst (ar_Denom a) n"
    by (rule SendCoins_moved [OF B x(2)]) (simp add: SendRestriction_Ok)
  have "rwa_done L view c c' (rwa_of L view c) x" using inv by (simp add: rwa_done_def c' x(1)) (simp add: EmitEvent_def)
  then show ?thesis using a addrs may n m by blast
qed

definition acc_addrs :: "addr_lib \<Rightarrow> string list \<Rightarrow> addr set" where
  "acc_addrs A ss = {a. \<exists>s\<in>set ss. AccAddressFromBech32 A s = Ok a}"

lemma apply_list_step:
  assumes L: "sdk_laws L view" and inv: "rwa_inv L view c"
    and f: "\<And>c a. rwa_inv L view c \<Longrightarrow> valid_addr a \<Longrightarrow> \<exists>c'. f a c = Ok c' \<and> rwa_step L view c c' (g {a} (rwa_of L view c))"
    and g: "\<And>S. g {} S = S" "\<And>A B S. g B (g A S) = g (A \<union> B) S"
    and ok: "apply_list L f ss c = Ok c'"
  shows "rwa_step L view c c' (g (acc_addrs (env_addr L) ss) (rwa_of L view c))"
  using inv ok unfolding apply_list_def
proof (induction ss arbitrary: c)
  case Nil
  then show ?case by (simp add: acc_addrs_def g(1) rwa_step_refl)
next
  case (Cons s ss)
  from Cons.prems(2) obtain a c1 where a: "AccAddressFromBech32 (env_addr L) s = Ok a" and c1: "f a c = Ok c1"
    and rest: "ofold (\<lambda>s c. obind (AccAddressFromBech32 (env_addr L) s) (\<lambda>a. f a c)) ss c1 = Ok c'"
    by (auto simp: obind_eq_Ok)
  have step: "rwa_step L view c c1 (g {a} (rwa_of L view c))"
    using f [OF Cons.prems(1) acc_addr_valid [OF sdk_addr [OF L] a]] c1 by simp
  have "acc_addrs (env_addr L) (s # ss) = {a} \<union> acc_addrs (env_addr L) ss" using a by (auto simp: acc_addrs_def)
  then show ?case
    using rwa_step_trans [OF step Cons.IH [OF rwa_step_inv [OF step] rest]] by (simp add: rwa_step_state [OF step] g(2))
qed

lemma restrict_collect:
  fixes X :: "('i \<times> 'a) set"
  shows "X \<union> {i} \<times> A \<union> {i} \<times> B = X \<union> {i} \<times> (A \<union> B)" "X - {i} \<times> A - {i} \<times> B = X - {i} \<times> (A \<union> B)"
  by auto

lemma add_allow_list:
  assumes L: "sdk_laws L view" and inv: "rwa_inv L view c" and slug: "slugRegex i" and ok: "apply_list L (AddAllowlist L i) ss c = Ok c'"
  shows "rwa_step L view c c' ((rwa_of L view c)\<lparr>rw_allow := rw_allow (rwa_of L view c) \<union> {i} \<times> acc_addrs (env_addr L) ss\<rparr>)"
  by (rule apply_list_step [OF L inv, of "AddAllowlist L i" "\<lambda>A S. S\<lparr>rw_allow := rw_allow S \<union> {i} \<times> A\<rparr>", OF _ _ _ ok])
    (use AddAllowlist_step [OF L] slug in \<open>auto simp: member_ok_def restrict_collect\<close>)

lemma del_allow_list:
  assumes L: "sdk_laws L view" and inv: "rwa_inv L view c" and slug: "slugRegex i" and ok: "apply_list L (DelAllowlist L i) ss c = Ok c'"
  shows "rwa_step L view c c' ((rwa_of L view c)\<lparr>rw_allow := rw_allow (rwa_of L view c) - {i} \<times> acc_addrs (env_addr L) ss\<rparr>)"
  by (rule apply_list_step [OF L inv, of "DelAllowlist L i" "\<lambda>A S. S\<lparr>rw_allow := rw_allow S - {i} \<times> A\<rparr>", OF _ _ _ ok])
    (use DelAllowlist_step [OF L] slug in \<open>auto simp: member_ok_def restrict_collect\<close>)

lemma add_deny_list:
  assumes L: "sdk_laws L view" and inv: "rwa_inv L view c" and slug: "slugRegex i" and ok: "apply_list L (AddDenylist L i) ss c = Ok c'"
  shows "rwa_step L view c c' ((rwa_of L view c)\<lparr>rw_deny := rw_deny (rwa_of L view c) \<union> {i} \<times> acc_addrs (env_addr L) ss\<rparr>)"
  by (rule apply_list_step [OF L inv, of "AddDenylist L i" "\<lambda>A S. S\<lparr>rw_deny := rw_deny S \<union> {i} \<times> A\<rparr>", OF _ _ _ ok])
    (use AddDenylist_step [OF L] slug in \<open>auto simp: member_ok_def restrict_collect\<close>)

lemma del_deny_list:
  assumes L: "sdk_laws L view" and inv: "rwa_inv L view c" and slug: "slugRegex i" and ok: "apply_list L (DelDenylist L i) ss c = Ok c'"
  shows "rwa_step L view c c' ((rwa_of L view c)\<lparr>rw_deny := rw_deny (rwa_of L view c) - {i} \<times> acc_addrs (env_addr L) ss\<rparr>)"
  by (rule apply_list_step [OF L inv, of "DelDenylist L i" "\<lambda>A S. S\<lparr>rw_deny := rw_deny S - {i} \<times> A\<rparr>", OF _ _ _ ok])
    (use DelDenylist_step [OF L] slug in \<open>auto simp: member_ok_def restrict_collect\<close>)

definition restricted_state :: "addr_lib \<Rightarrow> MsgUpdateRestrictions \<Rightarrow> AssetRecord \<Rightarrow> rwa_state \<Rightarrow> rwa_state" where
  "restricted_state A msg a S =
     (let i = mur_AssetId msg; these = (\<lambda>ss. {i} \<times> acc_addrs A ss)
      in put_asset (a\<lparr>ar_AllowAll := mur_AllowAll msg\<rparr>)
           (S\<lparr>rw_allow := rw_allow S \<union> these (mur_AddAllow msg) - these (mur_DelAllow msg),
              rw_deny := rw_deny S \<union> these (mur_AddDeny msg) - these (mur_DelDeny msg)\<rparr>))"

lemma UpdateRestrictions_Ok:
  assumes L: "sdk_laws L view" and inv: "rwa_inv L view c" and ok: "UpdateRestrictions L msg c = Ok c'"
  shows "\<exists>a. rw_assets (rwa_of L view c) (mur_AssetId msg) = Some a \<and> ar_Issuer a = mur_Issuer msg \<and> ar_Status a \<noteq> SETTLED \<and>
    rwa_done L view c c' (restricted_state (env_addr L) msg a (rwa_of L view c)) (ext c)"
proof -
  let ?i = "mur_AssetId msg"
  have slug: "slugRegex ?i" using ok by (auto simp: UpdateRestrictions_def MsgUpdateRestrictions_ValidateBasic_def obind_eq_Ok)
  from ok obtain a c1 c2 c3 c4 c5 e
    where a: "rw_assets (rwa_of L view c) ?i = Some a" "ar_Issuer a = mur_Issuer msg" "ar_Status a \<noteq> SETTLED"
      and c1: "apply_list L (AddAllowlist L ?i) (mur_AddAllow msg) c = Ok c1"
      and c2: "apply_list L (DelAllowlist L ?i) (mur_DelAllow msg) c1 = Ok c2"
      and c3: "apply_list L (AddDenylist L ?i) (mur_AddDeny msg) c2 = Ok c3"
      and c4: "apply_list L (DelDenylist L ?i) (mur_DelDeny msg) c3 = Ok c4"
      and c5: "SetAsset L (a\<lparr>ar_AllowAll := mur_AllowAll msg\<rparr>) c4 = Ok c5" and c': "c' = EmitEvent e c5"
    by (auto simp: UpdateRestrictions_def obind_eq_Ok requireIssuer_Ok [OF L inv slug] Let_def split: if_splits)
  note s1 = add_allow_list [OF L inv slug c1]
  note s2 = del_allow_list [OF L rwa_step_inv [OF s1] slug c2]
  note s3 = add_deny_list [OF L rwa_step_inv [OF s2] slug c3]
  note s4 = del_deny_list [OF L rwa_step_inv [OF s3] slug c4]
  have "asset_ok L (a\<lparr>ar_AllowAll := mur_AllowAll msg\<rparr>)"
    using rwa_asset_ok [OF inv a(1)] by (simp add: asset_ok_def asset_small_def)
  from SetAsset_step [OF L rwa_step_inv [OF s4] this] c5
  have s5: "rwa_step L view c4 c5 (put_asset (a\<lparr>ar_AllowAll := mur_AllowAll msg\<rparr>) (rwa_of L view c4))" by (auto simp: put_asset_def)
  have "rwa_step L view c c5 (restricted_state (env_addr L) msg a (rwa_of L view c))"
    using rwa_step_trans [OF s1 rwa_step_trans [OF s2 rwa_step_trans [OF s3 rwa_step_trans [OF s4 s5]]]]
    by (simp add: restricted_state_def Let_def put_asset_def rwa_step_state [OF s1] rwa_step_state [OF s2] rwa_step_state [OF s3]
        rwa_step_state [OF s4])
  then have "rwa_done L view c c' (restricted_state (env_addr L) msg a (rwa_of L view c)) (ext c)"
    using rwa_step_done [of L view "ext c" c c5] c' by simp
  then show ?thesis using a by blast
qed

text \<open>Taking an asset's tokens back from the issuer and destroying them.\<close>

lemma burn_tokens_Ok:
  assumes B: "bank_laws (env_keepers L)" and acc: "rwa_account L" and n: "0 \<le> n" and coins: "one_coin L d n = Ok coins"
    and ok: "(if n > 0
              then obind (with_ext c (SendCoinsFromAccountToModule (env_keepers L) (SendRestriction L c) (ext c) issuer Rwa_ModuleName coins))
                     (\<lambda>c. with_ext c (BurnCoins (env_keepers L) (ext c) Rwa_ModuleName coins))
              else Ok c) = Ok c'"
  obtains x x' where "c' = c\<lparr>ext := x'\<rparr>" and "moved (env_keepers L) (ext c) x issuer (ModuleAddress L) d n"
    and "issued (env_keepers L) x x' (ModuleAddress L) d (- n)"
proof (cases "n = 0")
  case True
  then show thesis using ok that [of "ext c" "ext c"] by (simp add: moved_nothing [OF B] issued_def)
next
  case False
  then have "coins = [(d, n)]" using one_coin_Ok [OF B coins] by simp
  with ok False n obtain x x' where c': "c' = c\<lparr>ext := x'\<rparr>"
    and send: "SendCoinsFromAccountToModule (env_keepers L) (SendRestriction L c) (ext c) issuer ''rwa'' [(d, n)] = Ok x"
    and burn: "BurnCoins (env_keepers L) x ''rwa'' [(d, n)] = Ok x'"
    by (auto simp: obind_eq_Ok with_ext_Ok Rwa_ModuleName_def)
  have "issued (env_keepers L) x x' (ModuleAddress L) d (- n)"
    using BurnCoins_issued [OF B burn] acc by (simp add: rwa_account_def)
  moreover have "moved (env_keepers L) (ext c) x issuer (ModuleAddress L) d n"
    by (rule SendCoinsFromAccountToModule_moved [OF B send]) (use acc in \<open>simp add: SendRestriction_Ok rwa_account_def\<close>)
  ultimately show thesis using that c' by blast
qed

definition settled_record :: "time \<Rightarrow> AssetRecord \<Rightarrow> AssetRecord" where
  "settled_record now a = a\<lparr>ar_Status := SETTLED, ar_SettledAt := now\<rparr>"

lemma guard_Ok: "(if b then Err e else r) = Ok y \<longleftrightarrow> \<not> b \<and> r = Ok y"
  by simp

lemma SettleRWA_Ok:
  assumes L: "sdk_laws L view" and B: "bank_laws (env_keepers L)" and acc: "rwa_account L" and inv: "rwa_inv L view c"
    and t: "valid_time (BlockTime c)" and ok: "SettleRWA L msg c = Ok c'"
  shows "\<exists>a issuer fee x x1 x2 x3. rw_assets (rwa_of L view c) (msr_AssetId msg) = Some a \<and> ar_Issuer a = msr_Issuer msg \<and>
    ar_Status a = ACTIVE \<and> AccAddressFromBech32 (env_addr L) (msr_Issuer msg) = Ok issuer \<and>
    fee = rate_share (env_math L) (rp_SettleFeeRate (rw_params (rwa_of L view c))) (notional_of (env_math L) a) \<and>
    0 \<le> fee \<and> fee \<le> notional_of (env_math L) a \<and>
    moved (env_keepers L) (ext c) x1 issuer (GetModuleAddress (env_keepers L) ''fee_collector'') BondDenom fee \<and>
    moved (env_keepers L) x1 x2 issuer (ModuleAddress L) (ar_Denom a) (notional_of (env_math L) a) \<and>
    issued (env_keepers L) x2 x3 (ModuleAddress L) (ar_Denom a) (- notional_of (env_math L) a) \<and>
    moved (env_keepers L) x3 x (ModuleAddress L) issuer BondDenom (bond_of (env_math L) a) \<and>
    rwa_done L view c c' (put_asset (settled_record (BlockTime c) a) (rwa_of L view c)) x"
proof -
  let ?B = "env_keepers L" and ?M = "env_math L" and ?S = "rwa_of L view c"
  note M = sdk_math [OF L]
  have slug: "slugRegex (msr_AssetId msg)" using ok by (auto simp: SettleRWA_def MsgSettleRWA_ValidateBasic_def obind_eq_Ok)
  from ok obtain a rate issuer fee c1 coins c2 c3 c4 e n bond
    where a: "rw_assets ?S (msr_AssetId msg) = Some a" "ar_Issuer a = msr_Issuer msg" "ar_Status a = ACTIVE"
      and n: "NewIntFromString ?M (ar_NotionalMinted a) = Some n" and bond: "NewIntFromString ?M (ar_Bond a) = Some bond"
      and rate: "LegacyNewDecFromStr ?M (rp_SettleFeeRate (rw_params ?S)) = Ok rate"
      and issuer: "AccAddressFromBech32 (env_addr L) (msr_Issuer msg) = Ok issuer"
      and fee: "ComputeFee ?M n rate = Ok fee" "CollectFee L issuer fee c = Ok c1"
      and coins: "one_coin L (ar_Denom a) n = Ok coins"
      and burn: "(if n > 0
              then obind (with_ext c1 (SendCoinsFromAccountToModule ?B (SendRestriction L c1) (ext c1) issuer Rwa_ModuleName coins))
                     (\<lambda>c. with_ext c (BurnCoins ?B (ext c) Rwa_ModuleName coins))
              else Ok c1) = Ok c2"
      and release: "(if bond > 0 then ReleaseBond L issuer bond c2 else Ok c2) = Ok c3"
      and set_: "SetAsset L (settled_record (BlockTime c3) a) c3 = Ok c4" and c': "c' = EmitEvent e c4"
    using Rwa_GetParams_eq [OF L inv]
    by (auto simp: SettleRWA_def obind_eq_Ok requireIssuer_Ok [OF L inv slug] SettleFeeRateDec_def settled_record_def Let_def
        guard_Ok split del: if_split)
  have aok: "asset_ok L a" by (rule rwa_asset_ok [OF inv a(1)])
  have amounts: "n = notional_of ?M a" "0 \<le> n" "bond = bond_of ?M a" "0 \<le> bond"
    using asset_notional [OF aok] asset_bond [OF aok] n bond by simp_all
  have f: "fee = rate_share ?M (rp_SettleFeeRate (rw_params ?S)) n" "0 \<le> fee" "fee \<le> n"
    using fee_charged [OF M _ amounts(2) fee(1) rate, of "rw_params ?S"] Rwa_GetParams_eq [OF L inv] by simp_all
  obtain x1 where x1: "c1 = c\<lparr>ext := x1\<rparr>" "moved ?B (ext c) x1 issuer (GetModuleAddress ?B ''fee_collector'') BondDenom fee"
    by (rule CollectFee_Ok [OF B f(2) fee(2)])
  obtain x2 x3 where x3: "c2 = c1\<lparr>ext := x3\<rparr>" "moved ?B (ext c1) x2 issuer (ModuleAddress L) (ar_Denom a) n"
      "issued ?B x2 x3 (ModuleAddress L) (ar_Denom a) (- n)"
    by (rule burn_tokens_Ok [OF B acc amounts(2) coins burn])
  obtain x where x: "c3 = c2\<lparr>ext := x\<rparr>" "moved ?B (ext c2) x (ModuleAddress L) issuer BondDenom bond"
  proof (cases "bond = 0")
    case True
    then show thesis using release that [of "ext c2"] by (simp add: moved_nothing [OF B])
  next
    case False
    then have "0 < bond" using amounts by simp
    then show thesis using release that ReleaseBond_Ok [OF B acc] by metis
  qed
  have "asset_ok L (settled_record (BlockTime c) a)"
    using aok t by (simp add: asset_ok_def asset_small_def settled_record_def status_defs)
  then have "rwa_done L view c c' (put_asset (settled_record (BlockTime c) a) ?S) x"
    using SetAsset_done [OF L inv] set_ c' by (simp add: x1(1) x3(1) x(1))
  then show ?thesis using a issuer f x1 x3 x amounts(1,3) by auto
qed

definition slashed_record :: "math_lib \<Rightarrow> time \<Rightarrow> AssetRecord \<Rightarrow> AssetRecord" where
  "slashed_record M now a = a\<lparr>ar_Status := SETTLED, ar_SettledAt := now, ar_Bond := int_String M 0\<rparr>"

lemma SlashBond_Ok:
  assumes L: "sdk_laws L view" and B: "bank_laws (env_keepers L)" and inv: "rwa_inv L view c"
    and t: "valid_time (BlockTime c)" and ok: "SlashBond L msg c = Ok c'"
  shows "\<exists>a x. msl_Authority msg = env_authority L \<and> rw_assets (rwa_of L view c) (msl_AssetId msg) = Some a \<and> ar_Status a = ACTIVE \<and>
    moved (env_keepers L) (ext c) x (ModuleAddress L) (GetModuleAddress (env_keepers L) ''distribution'') BondDenom (bond_of (env_math L) a) \<and>
    rwa_done L view c c' (put_asset (slashed_record (env_math L) (BlockTime c) a) (rwa_of L view c)) x"
proof -
  let ?B = "env_keepers L" and ?M = "env_math L"
  note M = sdk_math [OF L]
  have slug: "slugRegex (msl_AssetId msg)" using ok by (auto simp: SlashBond_def MsgSlashBond_ValidateBasic_def obind_eq_Ok split: if_splits)
  from ok obtain a bond c1 c2 e where auth: "msl_Authority msg = env_authority L"
      and a: "rw_assets (rwa_of L view c) (msl_AssetId msg) = Some a" "ar_Status a = ACTIVE"
      and bond: "NewIntFromString ?M (ar_Bond a) = Some bond"
      and pool: "(if bond > 0 then SlashBondToCommunityPool L bond c else Ok c) = Ok c1"
      and set_: "SetAsset L (slashed_record ?M (BlockTime c1) a) c1 = Ok c2" and c': "c' = EmitEvent e c2"
    by (auto simp: SlashBond_def obind_eq_Ok GetAsset_eq [OF L inv slug_short [OF slug]] slashed_record_def Let_def
        guard_Ok split del: if_split split: option.splits)
  have aok: "asset_ok L a" by (rule rwa_asset_ok [OF inv a(1)])
  have amount: "bond = bond_of ?M a" "0 \<le> bond" using asset_bond [OF aok] bond by simp_all
  obtain x where x: "c1 = c\<lparr>ext := x\<rparr>" "moved ?B (ext c) x (ModuleAddress L) (GetModuleAddress ?B ''distribution'') BondDenom bond"
  proof (cases "bond = 0")
    case True
    then show thesis using pool that [of "ext c"] by (simp add: moved_nothing [OF B])
  next
    case False
    then have "0 < bond" using amount by simp
    then show thesis using pool that SlashBond_pool_Ok [OF B] by metis
  qed
  have "asset_ok L (slashed_record ?M (BlockTime c) a)"
    using aok t int_String_short [OF M int_fits_0]
    by (simp add: asset_ok_def asset_small_def slashed_record_def status_defs positive_amount_String [OF M])
  then have "rwa_done L view c c' (put_asset (slashed_record ?M (BlockTime c) a) (rwa_of L view c)) x"
    using SetAsset_done [OF L inv] set_ c' by (simp add: x(1))
  then show ?thesis using auth a x(2) amount(1) by blast
qed

lemma Rwa_UpdateParams_Ok:
  assumes L: "sdk_laws L view" and inv: "rwa_inv L view c" and small: "RWAParams_Size (rmup_Params msg) < 2 ^ 30"
    and ok: "Rwa_UpdateParams L msg c = Ok c'"
  shows "rmup_Authority msg = env_authority L \<and> rwa_params_ok (env_math L) (rmup_Params msg) \<and>
    rwa_done L view c c' ((rwa_of L view c)\<lparr>rw_params := rmup_Params msg\<rparr>) (ext c)"
proof -
  from ok obtain c1 e where auth: "rmup_Authority msg = env_authority L" and set_: "Rwa_SetParams L (rmup_Params msg) c = Ok c1"
    and c': "c' = EmitEvent e c1"
    by (auto simp: Rwa_UpdateParams_def obind_eq_Ok split: if_splits)
  have p: "rwa_params_ok (env_math L) (rmup_Params msg)"
    using set_ small by (auto simp: rwa_params_ok_def Rwa_SetParams_def obind_eq_Ok)
  have "rwa_step L view c c1 ((rwa_of L view c)\<lparr>rw_params := rmup_Params msg\<rparr>)"
    using Rwa_SetParams_step [OF L inv p] set_ by auto
  then have "rwa_done L view c c' ((rwa_of L view c)\<lparr>rw_params := rmup_Params msg\<rparr>) (ext c)"
    using rwa_step_done [of L view "ext c" c c1] c' by simp
  then show ?thesis using auth p by blast
qed

end
