(* ===== verification/Rwa_Chain.thy ===== *)
theory Rwa_Chain
  imports Rwa_Server Reference Oracle_Keeper
begin

text \<open>
  The life of \<open>x/rwa\<close> on a chain: its genesis, its messages in any order, and whatever the
  other modules do in between. The invariant ties the module's records to the bank: locked
  bonds are covered by the module's account, and an active asset's supply is the notional
  its record counts. The properties of the module rest on it.
\<close>

interpretation attest: attesting L "GetPrice L" for L :: "('s, 'x) env"
  by unfold_locales

section \<open>Bonds and supplies\<close>

definition locked_bond :: "math_lib \<Rightarrow> AssetRecord \<Rightarrow> int" where
  "locked_bond M a = (if ar_Status a = SETTLED then 0 else bond_of M a)"

definition locked :: "math_lib \<Rightarrow> rwa_state \<Rightarrow> int" where
  "locked M S = (\<Sum>i\<in>dom (rw_assets S). locked_bond M (the (rw_assets S i)))"

definition record_backed :: "('s, 'x) env \<Rightarrow> 'x \<Rightarrow> AssetRecord \<Rightarrow> bool" where
  "record_backed L x a \<longleftrightarrow> AccAddressFromBech32 (env_addr L) (ar_Issuer a) \<noteq> Ok (ModuleAddress L) \<and>
     (ar_Status a \<noteq> SETTLED \<longrightarrow> 0 < bond_of (env_math L) a) \<and>
     (ar_Status a = DRAFT \<or> ar_Status a = ATTESTED \<longrightarrow> notional_of (env_math L) a = 0) \<and>
     (ar_Status a \<noteq> SETTLED \<longrightarrow> GetSupply (env_keepers L) x (ar_Denom a) = notional_of (env_math L) a)"

definition rwa_backed :: "('s, 'x) env \<Rightarrow> rwa_state \<Rightarrow> 'x \<Rightarrow> bool" where
  "rwa_backed L S x \<longleftrightarrow>
     locked (env_math L) S \<le> GetBalance (env_keepers L) x (ModuleAddress L) BondDenom \<and>
     (\<forall>i a. rw_assets S i = Some a \<longrightarrow> record_backed L x a) \<and>
     (\<forall>i. slugRegex i \<and> rw_assets S i = None \<longrightarrow> GetSupply (env_keepers L) x (BuildDenom i) = 0)"

definition rwa_good :: "('s, 'x) env \<Rightarrow> ('s \<Rightarrow> bytes \<rightharpoonup> bytes) \<Rightarrow> ('s, 'x) ctx \<Rightarrow> bool" where
  "rwa_good L view c \<longleftrightarrow> rwa_inv L view c \<and> rwa_backed L (rwa_of L view c) (ext c) \<and> valid_time (BlockTime c)"

lemma rwa_goodD:
  assumes "rwa_good L view c"
  shows good_inv: "rwa_inv L view c" and good_backed: "rwa_backed L (rwa_of L view c) (ext c)" and good_time: "valid_time (BlockTime c)"
  using assms by (simp_all add: rwa_good_def)

lemma rwa_backedD:
  assumes "rwa_backed L S x"
  shows backed_locked: "locked (env_math L) S \<le> GetBalance (env_keepers L) x (ModuleAddress L) BondDenom"
    and backed_record: "rw_assets S i = Some a \<Longrightarrow> record_backed L x a"
    and backed_new: "slugRegex i \<Longrightarrow> rw_assets S i = None \<Longrightarrow> GetSupply (env_keepers L) x (BuildDenom i) = 0"
  using assms by (simp_all add: rwa_backed_def)

lemma put_asset_sel [simp]: "rw_assets (put_asset a S) = (rw_assets S)(ar_AssetId a \<mapsto> a)"
  by (simp add: put_asset_def)

lemma locked_put:
  assumes "finite (dom (rw_assets S))"
  shows "locked M (put_asset a S) = locked M S + locked_bond M a -
    (case rw_assets S (ar_AssetId a) of None \<Rightarrow> 0 | Some b \<Rightarrow> locked_bond M b)"
proof -
  let ?i = "ar_AssetId a" and ?D = "dom (rw_assets S)"
  let ?f = "\<lambda>i. locked_bond M (the (rw_assets S i))" and ?g = "\<lambda>i. locked_bond M (the (((rw_assets S)(ar_AssetId a \<mapsto> a)) i))"
  have rest: "sum ?g (?D - {?i}) = sum ?f (?D - {?i})" by (rule sum.cong) auto
  have "sum ?g (insert ?i ?D) = ?g ?i + sum ?g (?D - {?i})" using assms by (rule sum.insert_remove)
  moreover have "sum ?f ?D = (case rw_assets S ?i of None \<Rightarrow> 0 | Some b \<Rightarrow> locked_bond M b) + sum ?f (?D - {?i})"
    using assms sum.remove [of ?D ?i ?f] by (cases "rw_assets S ?i") (auto simp: domIff)
  ultimately show ?thesis using rest by (simp add: locked_def)
qed

text \<open>
  Filing a record keeps the books when the module's account moved by what the record's bond
  moved, and no other asset's supply changed.
\<close>

lemma backed_put:
  assumes fin: "finite (dom (rw_assets S))" and S: "rwa_backed L S x" and ids: "\<And>i b. rw_assets S i = Some b \<Longrightarrow> ar_Denom b = BuildDenom i"
    and a: "record_backed L x' a"
    and bal: "locked_bond (env_math L) a - (case rw_assets S (ar_AssetId a) of None \<Rightarrow> 0 | Some b \<Rightarrow> locked_bond (env_math L) b)
      \<le> GetBalance (env_keepers L) x' (ModuleAddress L) BondDenom - GetBalance (env_keepers L) x (ModuleAddress L) BondDenom"
    and others: "\<And>i. i \<noteq> ar_AssetId a \<Longrightarrow> GetSupply (env_keepers L) x' (BuildDenom i) = GetSupply (env_keepers L) x (BuildDenom i)"
  shows "rwa_backed L (put_asset a S) x'"
proof -
  have "locked (env_math L) (put_asset a S) \<le> GetBalance (env_keepers L) x' (ModuleAddress L) BondDenom"
    using locked_put [OF fin, of "env_math L" a] backed_locked [OF S] bal by linarith
  moreover have "record_backed L x' b" if "rw_assets S i = Some b" "i \<noteq> ar_AssetId a" for i b
    using backed_record [OF S that(1)] others [OF that(2)] ids [OF that(1)] by (simp add: record_backed_def)
  ultimately show ?thesis using a others backed_new [OF S] by (auto simp: rwa_backed_def)
qed

lemma backed_same_assets:
  assumes "rwa_backed L S x" and "rw_assets S' = rw_assets S"
    and "GetBalance (env_keepers L) x (ModuleAddress L) BondDenom \<le> GetBalance (env_keepers L) x' (ModuleAddress L) BondDenom"
    and "\<And>i. GetSupply (env_keepers L) x' (BuildDenom i) = GetSupply (env_keepers L) x (BuildDenom i)"
    and ids: "\<And>i b. rw_assets S i = Some b \<Longrightarrow> ar_Denom b = BuildDenom i"
  shows "rwa_backed L S' x'"
  using assms by (auto simp: rwa_backed_def locked_def record_backed_def)

section \<open>Steps and reachable states\<close>

definition signs :: "('s, 'x) env \<Rightarrow> string \<Rightarrow> bool" where
  "signs L s \<longleftrightarrow> AccAddressFromBech32 (env_addr L) s \<noteq> Ok (ModuleAddress L)"

text \<open>What the rest of the chain may do: nobody else holds the module's account or mints its denominations.\<close>

definition elsewhere :: "('s, 'x) env \<Rightarrow> ('s \<Rightarrow> bytes \<rightharpoonup> bytes) \<Rightarrow> ('s, 'x) ctx \<Rightarrow> ('s, 'x) ctx \<Rightarrow> bool" where
  "elsewhere L view c c' \<longleftrightarrow> store_view view Rwa_StoreKey c' = store_view view Rwa_StoreKey c \<and> valid_time (BlockTime c') \<and>
     GetBalance (env_keepers L) (ext c) (ModuleAddress L) BondDenom \<le> GetBalance (env_keepers L) (ext c') (ModuleAddress L) BondDenom \<and>
     (\<forall>i. GetSupply (env_keepers L) (ext c') (BuildDenom i) = GetSupply (env_keepers L) (ext c) (BuildDenom i))"

inductive rwa_message :: "('s, 'x) env \<Rightarrow> ('s, 'x) ctx \<Rightarrow> ('s, 'x) ctx \<Rightarrow> bool" for L where
  next_register: "RegisterAsset L m c = Ok c' \<Longrightarrow> register_small m \<Longrightarrow> signs L (mra_Issuer m) \<Longrightarrow> rwa_message L c c'"
| next_attest: "AttestAsset L (GetPrice L) ma c = Ok c' \<Longrightarrow> rwa_message L c c'"
| next_mint: "MintRWA L mm c = Ok c' \<Longrightarrow> rwa_message L c c'"
| next_transfer: "TransferRWA L mt c = Ok c' \<Longrightarrow> signs L (mtr_Sender mt) \<Longrightarrow> rwa_message L c c'"
| next_restrict: "UpdateRestrictions L mr c = Ok c' \<Longrightarrow> rwa_message L c c'"
| next_settle: "SettleRWA L ms c = Ok c' \<Longrightarrow> rwa_message L c c'"
| next_slash: "SlashBond L sl c = Ok c' \<Longrightarrow> rwa_message L c c'"
| next_params: "Rwa_UpdateParams L mp c = Ok c' \<Longrightarrow> RWAParams_Size (rmup_Params mp) < 2 ^ 30 \<Longrightarrow> rwa_message L c c'"

inductive rwa_next :: "('s, 'x) env \<Rightarrow> ('s \<Rightarrow> bytes \<rightharpoonup> bytes) \<Rightarrow> ('s, 'x) ctx \<Rightarrow> ('s, 'x) ctx \<Rightarrow> bool" for L view where
  next_message: "rwa_message L c c' \<Longrightarrow> rwa_next L view c c'"
| next_elsewhere: "elsewhere L view c c' \<Longrightarrow> rwa_next L view c c'"

lemma rwa_denoms:
  assumes "rwa_inv L view c" and "rw_assets (rwa_of L view c) i = Some b"
  shows "ar_Denom b = BuildDenom i"
  using asset_denom [OF rwa_asset_ok [OF assms]] rwa_asset_id [OF assms] by simp

text \<open>The common shape of the steps that file one record.\<close>

lemma good_put:
  assumes L: "sdk_laws L view" and good: "rwa_good L view c" and did: "rwa_done L view c c' (put_asset a (rwa_of L view c)) x"
    and a: "record_backed L x a"
    and bal: "locked_bond (env_math L) a -
        (case rw_assets (rwa_of L view c) (ar_AssetId a) of None \<Rightarrow> 0 | Some b \<Rightarrow> locked_bond (env_math L) b)
      \<le> GetBalance (env_keepers L) x (ModuleAddress L) BondDenom - GetBalance (env_keepers L) (ext c) (ModuleAddress L) BondDenom"
    and others: "\<And>i. i \<noteq> ar_AssetId a \<Longrightarrow> GetSupply (env_keepers L) x (BuildDenom i) = GetSupply (env_keepers L) (ext c) (BuildDenom i)"
  shows "rwa_good L view c'"
proof -
  have "rwa_backed L (put_asset a (rwa_of L view c)) x"
    using backed_put [OF finite_assets [OF L good_inv [OF good]] good_backed [OF good] rwa_denoms [OF good_inv [OF good]] a bal others]
    by blast
  then show ?thesis using did good_time [OF good] by (simp add: rwa_good_def rwa_done_def)
qed

lemma module_not_collector:
  assumes "bank_laws (env_keepers L)" and "rwa_account L"
  shows "GetModuleAddress (env_keepers L) ''fee_collector'' \<noteq> ModuleAddress L" "GetModuleAddress (env_keepers L) ''distribution'' \<noteq> ModuleAddress L"
  using assms module_address_inject [OF assms(1), of "''fee_collector''" "''rwa''"] module_address_inject [OF assms(1), of "''distribution''" "''rwa''"]
  by (simp_all add: rwa_account_def module_accounts_def)

lemma RegisterAsset_good:
  assumes L: "sdk_laws L view" and B: "bank_laws (env_keepers L)" and acc: "rwa_account L" and good: "rwa_good L view c"
    and ok: "RegisterAsset L msg c = Ok c'" and small: "register_small msg" and signer: "signs L (mra_Issuer msg)"
  shows "rwa_good L view c'"
proof -
  let ?a = "\<lambda>bond. draft_record (env_math L) (BlockTime c) msg bond"
  obtain issuer bond x where issuer: "AccAddressFromBech32 (env_addr L) (mra_Issuer msg) = Ok issuer"
    and slug: "slugRegex (mra_AssetId msg)" and new: "rw_assets (rwa_of L view c) (mra_AssetId msg) = None"
    and bond: "NewIntFromString (env_math L) (mra_Bond msg) = Some bond" "0 < bond"
    and m: "moved (env_keepers L) (ext c) x issuer (ModuleAddress L) BondDenom bond"
    and did: "rwa_done L view c c' (put_asset (?a bond) (rwa_of L view c)) x"
    using RegisterAsset_Ok [OF L B acc good_inv [OF good] good_time [OF good] small ok] by blast
  note fits = NewIntFromString_fits [OF sdk_math [OF L] bond(1)]
  have amounts: "bond_of (env_math L) (?a bond) = bond" "notional_of (env_math L) (?a bond) = 0"
    using amount_of_String [OF sdk_math [OF L] fits] amount_of_String [OF sdk_math [OF L] int_fits_0] by (simp_all add: draft_record_def)
  have backed: "record_backed L x (?a bond)"
    using signer bond backed_new [OF good_backed [OF good] slug new] m amounts
    by (simp add: record_backed_def signs_def moved_def) (simp add: draft_record_def)
  show ?thesis
  proof (rule good_put [OF L good did backed])
    show "GetSupply (env_keepers L) x (BuildDenom i) = GetSupply (env_keepers L) (ext c) (BuildDenom i)" for i
      using m by (simp add: moved_def)
    show "locked_bond (env_math L) (?a bond) -
        (case rw_assets (rwa_of L view c) (ar_AssetId (?a bond)) of None \<Rightarrow> 0 | Some b \<Rightarrow> locked_bond (env_math L) b)
      \<le> GetBalance (env_keepers L) x (ModuleAddress L) BondDenom - GetBalance (env_keepers L) (ext c) (ModuleAddress L) BondDenom"
      using m signer issuer amounts new by (simp add: moved_def signs_def locked_bond_def) (simp add: draft_record_def status_defs)
  qed
qed

lemma AttestAsset_good:
  assumes L: "sdk_laws L view" and good: "rwa_good L view c" and ok: "AttestAsset L (GetPrice L) msg c = Ok c'"
  shows "rwa_good L view c'"
proof -
  obtain a price where a: "rw_assets (rwa_of L view c) (maa_AssetId msg) = Some a" "ar_Status a = DRAFT"
    and did: "rwa_done L view c c' (put_asset (attested_record (env_math L) (BlockTime c) price a) (rwa_of L view c)) (ext c)"
    using attest.AttestAsset_Ok [OF L good_inv [OF good] good_time [OF good] ok] by blast
  note id = rwa_asset_id [OF good_inv [OF good] a(1)]
  show ?thesis
    by (rule good_put [OF L good did])
      (use backed_record [OF good_backed [OF good] a(1)] a id in
        \<open>simp_all add: record_backed_def attested_record_def locked_bond_def status_defs\<close>)
qed

lemma MintRWA_good:
  assumes L: "sdk_laws L view" and B: "bank_laws (env_keepers L)" and acc: "rwa_account L" and good: "rwa_good L view c"
    and ok: "MintRWA L msg c = Ok c'"
  shows "rwa_good L view c'"
proof -
  let ?B = "env_keepers L"
  obtain a issuer n fee x x1 x2 where a: "rw_assets (rwa_of L view c) (mmr_AssetId msg) = Some a" "ar_Issuer a = mmr_Issuer msg"
      "ar_Status a = ATTESTED \<or> ar_Status a = ACTIVE"
    and issuer: "AccAddressFromBech32 (env_addr L) (mmr_Issuer msg) = Ok issuer" and n: "0 < n" "int_fits (notional_of (env_math L) a + n)"
    and m1: "moved ?B (ext c) x1 issuer (GetModuleAddress ?B ''fee_collector'') BondDenom fee"
    and m2: "issued ?B x1 x2 (ModuleAddress L) (ar_Denom a) n" and m3: "moved ?B x2 x (ModuleAddress L) issuer (ar_Denom a) n"
    and did: "rwa_done L view c c' (put_asset (minted_record (env_math L) n a) (rwa_of L view c)) x"
    using MintRWA_Ok [OF L B acc good_inv [OF good] ok] by blast
  have b: "record_backed L (ext c) a" by (rule backed_record [OF good_backed [OF good] a(1)])
  have d: "ar_Denom a = BuildDenom (ar_AssetId a)" by (rule asset_denom [OF rwa_asset_ok [OF good_inv [OF good] a(1)]])
  note id = rwa_asset_id [OF good_inv [OF good] a(1)] and not_module = module_not_collector [OF B acc]
  show ?thesis
    by (rule good_put [OF L good did])
      (use b a issuer n m1 m2 m3 not_module id d amount_of_String [OF sdk_math [OF L] n(2)] in
        \<open>auto simp: record_backed_def minted_record_def locked_bond_def status_defs moved_def issued_def\<close>)
qed

lemma SettleRWA_good:
  assumes L: "sdk_laws L view" and B: "bank_laws (env_keepers L)" and acc: "rwa_account L" and good: "rwa_good L view c"
    and ok: "SettleRWA L msg c = Ok c'"
  shows "rwa_good L view c'"
proof -
  let ?B = "env_keepers L"
  obtain a issuer fee x x1 x2 x3 where a: "rw_assets (rwa_of L view c) (msr_AssetId msg) = Some a" "ar_Issuer a = msr_Issuer msg"
      "ar_Status a = ACTIVE"
    and issuer: "AccAddressFromBech32 (env_addr L) (msr_Issuer msg) = Ok issuer"
    and m1: "moved ?B (ext c) x1 issuer (GetModuleAddress ?B ''fee_collector'') BondDenom fee"
    and m2: "moved ?B x1 x2 issuer (ModuleAddress L) (ar_Denom a) (notional_of (env_math L) a)"
    and m3: "issued ?B x2 x3 (ModuleAddress L) (ar_Denom a) (- notional_of (env_math L) a)"
    and m4: "moved ?B x3 x (ModuleAddress L) issuer BondDenom (bond_of (env_math L) a)"
    and did: "rwa_done L view c c' (put_asset (settled_record (BlockTime c) a) (rwa_of L view c)) x"
    using SettleRWA_Ok [OF L B acc good_inv [OF good] good_time [OF good] ok] by blast
  have b: "record_backed L (ext c) a" by (rule backed_record [OF good_backed [OF good] a(1)])
  have d: "ar_Denom a = BuildDenom (ar_AssetId a)" by (rule asset_denom [OF rwa_asset_ok [OF good_inv [OF good] a(1)]])
  note id = rwa_asset_id [OF good_inv [OF good] a(1)] and not_module = module_not_collector [OF B acc]
  show ?thesis
    by (rule good_put [OF L good did])
      (use b a issuer m1 m2 m3 m4 not_module id d in
        \<open>auto simp: record_backed_def settled_record_def locked_bond_def status_defs moved_def issued_def\<close>)
qed

lemma SlashBond_good:
  assumes L: "sdk_laws L view" and B: "bank_laws (env_keepers L)" and acc: "rwa_account L" and good: "rwa_good L view c"
    and ok: "SlashBond L msg c = Ok c'"
  shows "rwa_good L view c'"
proof -
  let ?B = "env_keepers L"
  obtain a x where a: "rw_assets (rwa_of L view c) (msl_AssetId msg) = Some a" "ar_Status a = ACTIVE"
    and m: "moved ?B (ext c) x (ModuleAddress L) (GetModuleAddress ?B ''distribution'') BondDenom (bond_of (env_math L) a)"
    and did: "rwa_done L view c c' (put_asset (slashed_record (env_math L) (BlockTime c) a) (rwa_of L view c)) x"
    using SlashBond_Ok [OF L B good_inv [OF good] good_time [OF good] ok] by blast
  have b: "record_backed L (ext c) a" by (rule backed_record [OF good_backed [OF good] a(1)])
  note id = rwa_asset_id [OF good_inv [OF good] a(1)] and not_module = module_not_collector [OF B acc]
  show ?thesis
    by (rule good_put [OF L good did])
      (use b a m not_module id in \<open>auto simp: record_backed_def slashed_record_def locked_bond_def status_defs moved_def\<close>)
qed

lemma good_same_assets:
  assumes good: "rwa_good L view c" and did: "rwa_done L view c c' S x" and same: "rw_assets S = rw_assets (rwa_of L view c)"
    and bal: "GetBalance (env_keepers L) (ext c) (ModuleAddress L) BondDenom \<le> GetBalance (env_keepers L) x (ModuleAddress L) BondDenom"
    and supply_: "\<And>i. GetSupply (env_keepers L) x (BuildDenom i) = GetSupply (env_keepers L) (ext c) (BuildDenom i)"
  shows "rwa_good L view c'"
proof -
  have "rwa_backed L S x"
    by (rule backed_same_assets [OF good_backed [OF good] same bal supply_ rwa_denoms [OF good_inv [OF good]]])
  then show ?thesis using did good_time [OF good] by (simp add: rwa_good_def rwa_done_def)
qed

lemma TransferRWA_good:
  assumes L: "sdk_laws L view" and B: "bank_laws (env_keepers L)" and good: "rwa_good L view c" and ok: "TransferRWA L msg c = Ok c'"
  shows "rwa_good L view c'"
proof -
  obtain a src dst n x where a: "rw_assets (rwa_of L view c) (mtr_AssetId msg) = Some a"
    and m: "moved (env_keepers L) (ext c) x src dst (ar_Denom a) n" and did: "rwa_done L view c c' (rwa_of L view c) x"
    using TransferRWA_Ok [OF L B good_inv [OF good] ok] by blast
  show ?thesis
    by (rule good_same_assets [OF good did refl]) (use m rwa_denoms [OF good_inv [OF good] a] ParseRWADenom_uvtx(2) in \<open>auto simp: moved_def dest: sym\<close>)
qed

lemma UpdateRestrictions_good:
  assumes L: "sdk_laws L view" and good: "rwa_good L view c" and ok: "UpdateRestrictions L msg c = Ok c'"
  shows "rwa_good L view c'"
proof -
  let ?S = "rwa_of L view c"
  obtain a where a: "rw_assets ?S (mur_AssetId msg) = Some a"
    and did: "rwa_done L view c c' (restricted_state (env_addr L) msg a ?S) (ext c)"
    using UpdateRestrictions_Ok [OF L good_inv [OF good] ok] by blast
  have assets: "rw_assets (restricted_state (env_addr L) msg a ?S) = rw_assets (put_asset (a\<lparr>ar_AllowAll := mur_AllowAll msg\<rparr>) ?S)"
    by (simp add: restricted_state_def Let_def)
  have "record_backed L (ext c) (a\<lparr>ar_AllowAll := mur_AllowAll msg\<rparr>)"
    using backed_record [OF good_backed [OF good] a] by (simp add: record_backed_def)
  then have "rwa_backed L (put_asset (a\<lparr>ar_AllowAll := mur_AllowAll msg\<rparr>) ?S) (ext c)"
    using a rwa_asset_id [OF good_inv [OF good] a]
    by (intro backed_put [OF finite_assets [OF L good_inv [OF good]] good_backed [OF good] rwa_denoms [OF good_inv [OF good]]])
      (simp_all add: locked_bond_def)
  then have "rwa_backed L (restricted_state (env_addr L) msg a ?S) (ext c)" by (simp add: rwa_backed_def locked_def assets)
  then show ?thesis using did good_time [OF good] by (simp add: rwa_good_def rwa_done_def)
qed

lemma elsewhere_good:
  assumes good: "rwa_good L view c" and other: "elsewhere L view c c'"
  shows "rwa_good L view c'"
proof -
  have "rwa_backed L (rwa_of L view c) (ext c')"
    using other
    by (intro backed_same_assets [OF good_backed [OF good] refl _ _ rwa_denoms [OF good_inv [OF good]]]) (simp_all add: elsewhere_def)
  then show ?thesis using good other by (simp add: rwa_good_def elsewhere_def rwa_inv_def rwa_of_def)
qed

lemma rwa_message_good:
  assumes L: "sdk_laws L view" and B: "bank_laws (env_keepers L)" and acc: "rwa_account L"
    and "rwa_message L c c'" and "rwa_good L view c"
  shows "rwa_good L view c'"
  using assms(4,5)
proof (induction rule: rwa_message.induct)
  case (next_params mp c c')
  have "rwa_done L view c c' ((rwa_of L view c)\<lparr>rw_params := rmup_Params mp\<rparr>) (ext c)"
    using Rwa_UpdateParams_Ok [OF L good_inv [OF next_params.prems] next_params.hyps(2,1)] by blast
  then show ?case by (rule good_same_assets [OF next_params.prems]) simp_all
qed (blast intro: RegisterAsset_good [OF L B acc] AttestAsset_good [OF L] MintRWA_good [OF L B acc] TransferRWA_good [OF L B]
    UpdateRestrictions_good [OF L] SettleRWA_good [OF L B acc] SlashBond_good [OF L B acc])+

lemma rwa_next_good:
  assumes "sdk_laws L view" and "bank_laws (env_keepers L)" and "rwa_account L" and "rwa_next L view c c'" and "rwa_good L view c"
  shows "rwa_good L view c'"
  using assms(4,5) by cases (blast intro: rwa_message_good [OF assms(1-3)] elsewhere_good)+

text \<open>A message leaves the block and the stores of the other modules alone.\<close>

lemma rwa_message_frame:
  assumes L: "sdk_laws L view" and B: "bank_laws (env_keepers L)" and acc: "rwa_account L"
    and step: "rwa_message L c c'" and good: "rwa_good L view c"
  shows "\<exists>S x. rwa_done L view c c' S x"
  using step
proof cases
  case (next_register m)
  then show ?thesis using RegisterAsset_Ok [OF L B acc good_inv [OF good] good_time [OF good]] by blast
next
  case (next_attest ma)
  then show ?thesis using attest.AttestAsset_Ok [OF L good_inv [OF good] good_time [OF good]] by blast
next
  case (next_params mp)
  then show ?thesis using Rwa_UpdateParams_Ok [OF L good_inv [OF good]] by blast
qed (use MintRWA_Ok [OF L B acc good_inv [OF good]] TransferRWA_Ok [OF L B good_inv [OF good]] UpdateRestrictions_Ok [OF L good_inv [OF good]]
    SettleRWA_Ok [OF L B acc good_inv [OF good] good_time [OF good]] SlashBond_Ok [OF L B good_inv [OF good] good_time [OF good]] in blast)+

section \<open>Genesis\<close>

text \<open>
  A genesis state whose records are those of a running chain: within the text limits, and
  covered by the bank's own genesis. \<open>GenesisState.Validate\<close> sees neither.
\<close>

definition genesis_sound :: "('s, 'x) env \<Rightarrow> Rwa_GenesisState \<Rightarrow> 'x \<Rightarrow> bool" where
  "genesis_sound L gs x \<longleftrightarrow> RWAParams_Size (rgs_Params gs) < 2 ^ 30 \<and>
     (\<forall>a\<in>set (rgs_Assets gs). asset_ok L a \<and> record_backed L x a) \<and>
     sum_list (map (locked_bond (env_math L)) (rgs_Assets gs)) \<le> GetBalance (env_keepers L) x (ModuleAddress L) BondDenom \<and>
     (\<forall>i. slugRegex i \<and> i \<notin> ar_AssetId ` set (rgs_Assets gs) \<longrightarrow> GetSupply (env_keepers L) x (BuildDenom i) = 0)"

lemma validate_asset_Ok:
  "validate_asset M A minBond a seen = Ok seen' \<Longrightarrow> ar_AssetId a \<notin> set seen \<and> seen' = ar_AssetId a # seen"
  by (auto simp: validate_asset_def obind_eq_Ok split: if_splits outcome.splits option.splits)

lemma validate_assets_distinct:
  assumes "ofold (validate_asset M A minBond) as seen = Ok seen'"
  shows "distinct (map ar_AssetId as) \<and> set seen \<inter> ar_AssetId ` set as = {} \<and> set seen' = set seen \<union> ar_AssetId ` set as"
  using assms
proof (induction as arbitrary: seen)
  case (Cons a as)
  from Cons.prems have new: "ar_AssetId a \<notin> set seen"
    and rest: "ofold (validate_asset M A minBond) as (ar_AssetId a # seen) = Ok seen'"
    by (auto simp: obind_eq_Ok dest: validate_asset_Ok)
  show ?case using Cons.IH [OF rest] new by auto
qed simp

lemma init_assets_step:
  assumes L: "sdk_laws L view" and "rwa_inv L view c" and "\<forall>a\<in>set as. asset_ok L a"
    and "ofold (\<lambda>a c. must (SetAsset L a c)) as c = Ok c'"
  shows "rwa_step L view c c' (fold put_asset as (rwa_of L view c))"
  using assms(2-)
proof (induction as arbitrary: c)
  case (Cons a as)
  from Cons.prems(3) obtain c1 where c1: "SetAsset L a c = Ok c1" and rest: "ofold (\<lambda>a c. must (SetAsset L a c)) as c1 = Ok c'"
    by (auto simp: obind_eq_Ok)
  have step: "rwa_step L view c c1 (put_asset a (rwa_of L view c))"
    using SetAsset_step [OF L Cons.prems(1), of a] Cons.prems(2) c1 by (auto simp: put_asset_def)
  show ?case
    using rwa_step_trans [OF step Cons.IH [OF rwa_step_inv [OF step] _ rest]] Cons.prems(2) by (simp add: rwa_step_state [OF step])
qed (simp add: rwa_step_refl)

lemma validate_restrictions_seen:
  "ofold (validate_restriction A seen) rs u = Ok v \<Longrightarrow> r \<in> set rs \<Longrightarrow> rs_AssetId r \<in> set seen"
  by (induction rs arbitrary: u) (auto simp: validate_restriction_def obind_eq_Ok split: if_splits)

lemma init_restriction_Ok:
  "init_restriction L r c = Ok c' \<longleftrightarrow> (\<exists>addr. AccAddressFromBech32 (env_addr L) (rs_Address r) = Ok addr \<and>
     (if rs_IsDeny r then AddDenylist L (rs_AssetId r) addr c else AddAllowlist L (rs_AssetId r) addr c) = Ok c')"
  by (simp add: init_restriction_def obind_eq_Ok)

lemma init_restrictions_step:
  assumes L: "sdk_laws L view" and "rwa_inv L view c" and "\<forall>r\<in>set rs. slugRegex (rs_AssetId r)" and "ofold (init_restriction L) rs c = Ok c'"
  shows "\<exists>S. rwa_step L view c c' S \<and> rw_assets S = rw_assets (rwa_of L view c) \<and> rw_params S = rw_params (rwa_of L view c)"
  using assms(2-)
proof (induction rs arbitrary: c)
  case Nil
  then show ?case using rwa_step_refl by auto
next
  case (Cons r rs)
  from Cons.prems(3) obtain addr c1 where addr: "AccAddressFromBech32 (env_addr L) (rs_Address r) = Ok addr"
    and c1: "(if rs_IsDeny r then AddDenylist L (rs_AssetId r) addr c else AddAllowlist L (rs_AssetId r) addr c) = Ok c1"
    and rest: "ofold (init_restriction L) rs c1 = Ok c'"
    by (auto simp: obind_eq_Ok init_restriction_Ok)
  have m: "member_ok (rs_AssetId r, addr)" using Cons.prems(2) acc_addr_valid [OF sdk_addr [OF L] addr] by (simp add: member_ok_def)
  obtain S1 where step: "rwa_step L view c c1 S1" and S1: "rw_assets S1 = rw_assets (rwa_of L view c)" "rw_params S1 = rw_params (rwa_of L view c)"
    using c1 AddAllowlist_step [OF L Cons.prems(1) m] AddDenylist_step [OF L Cons.prems(1) m] by (auto split: if_splits)
  obtain S where "rwa_step L view c1 c' S" "rw_assets S = rw_assets S1" "rw_params S = rw_params S1"
    using Cons.IH [OF rwa_step_inv [OF step] _ rest] Cons.prems(2) by (auto simp: rwa_step_state [OF step])
  then show ?case using rwa_step_trans [OF step] S1 by auto
qed

lemma locked_fold:
  assumes "finite (dom (rw_assets S))" and "distinct (map ar_AssetId as)" and "dom (rw_assets S) \<inter> ar_AssetId ` set as = {}"
  shows "locked M (fold put_asset as S) = locked M S + sum_list (map (locked_bond M) as)"
  using assms
proof (induction as arbitrary: S)
  case (Cons a as)
  have None: "rw_assets S (ar_AssetId a) = None" using Cons.prems(3) by auto
  have "locked M (fold put_asset as (put_asset a S)) = locked M (put_asset a S) + sum_list (map (locked_bond M) as)"
    by (rule Cons.IH) (use Cons.prems in \<open>auto simp del: fun_upd_apply\<close>)
  then show ?case using locked_put [OF Cons.prems(1), of M a] None by simp
qed simp

lemma assets_fold:
  "rw_assets (fold put_asset as S) i = Some a \<Longrightarrow> rw_assets S i = Some a \<or> a \<in> set as"
  "rw_assets (fold put_asset as S) i = None \<longleftrightarrow> rw_assets S i = None \<and> i \<notin> ar_AssetId ` set as"
  by (induction as arbitrary: S) (fastforce split: if_splits)+

lemma rwa_empty:
  assumes "store_view view Rwa_StoreKey c = Map.empty"
  shows "rwa_inv L view c" and "rw_assets (rwa_of L view c) = Map.empty"
    and "rw_allow (rwa_of L view c) = {}" "rw_deny (rwa_of L view c) = {}"
  using assms by (auto simp: rwa_inv_def rwa_families_def rwa_of_def rwa_abs_def members_at_def typed_at_def)

lemma Rwa_InitGenesis_good:
  assumes L: "sdk_laws L view" and B: "bank_laws (env_keepers L)" and empty: "store_view view Rwa_StoreKey c = Map.empty"
    and t: "valid_time (BlockTime c)" and sound: "genesis_sound L gs (ext c)" and ok: "Rwa_InitGenesis L gs c = Ok c'"
  shows "rwa_good L view c'"
proof -
  let ?M = "env_math L" and ?as = "rgs_Assets gs"
  from ok obtain c1 c2 seen where p: "RWAParams_Validate ?M (rgs_Params gs) = Ok ()"
    and seen: "ofold (validate_asset ?M (env_addr L) (MinIssuerBondInt ?M (rgs_Params gs))) ?as [] = Ok seen"
    and rs: "ofold (validate_restriction (env_addr L) seen) (rgs_Restrictions gs) () = Ok ()"
    and c1: "Rwa_SetParams L (rgs_Params gs) c = Ok c1" and c2: "ofold (\<lambda>a c. must (SetAsset L a c)) ?as c1 = Ok c2"
    and c': "ofold (init_restriction L) (rgs_Restrictions gs) c2 = Ok c'"
    by (auto simp: Rwa_InitGenesis_def Rwa_GenesisState_Validate_def obind_eq_Ok Let_def)
  note ids = validate_assets_distinct [OF seen]
  have pok: "rwa_params_ok ?M (rgs_Params gs)" using p sound by (simp add: rwa_params_ok_def genesis_sound_def)
  have s1: "rwa_step L view c c1 ((rwa_of L view c)\<lparr>rw_params := rgs_Params gs\<rparr>)"
    using Rwa_SetParams_step [OF L rwa_empty(1) [OF empty] pok] c1 by auto
  have s2: "rwa_step L view c1 c2 (fold put_asset ?as (rwa_of L view c1))"
    using sound by (intro init_assets_step [OF L rwa_step_inv [OF s1] _ c2]) (simp add: genesis_sound_def)
  have "slugRegex (rs_AssetId r)" if "r \<in> set (rgs_Restrictions gs)" for r
  proof -
    have "rs_AssetId r \<in> set seen" by (rule validate_restrictions_seen [OF rs that])
    then show ?thesis using ids sound asset_slug [of L] by (auto simp: genesis_sound_def)
  qed
  then obtain S where s3: "rwa_step L view c2 c' S" and S: "rw_assets S = rw_assets (rwa_of L view c2)"
    using init_restrictions_step [OF L rwa_step_inv [OF s2] _ c'] by blast
  have assets: "rw_assets S = rw_assets (fold put_asset ?as (rwa_of L view c1))" "rw_assets (rwa_of L view c1) = Map.empty"
    using S rwa_step_state [OF s2] rwa_step_state [OF s1] rwa_empty(2) [OF empty] by simp_all
  have "locked ?M S = sum_list (map (locked_bond ?M) ?as)"
    using locked_fold [of "rwa_of L view c1" ?as ?M] ids assets by (simp add: locked_def)
  then have "rwa_backed L S (ext c)"
    using sound assets assets_fold [of ?as "rwa_of L view c1"] by (fastforce simp: rwa_backed_def genesis_sound_def)
  moreover have "ext c' = ext c" "BlockTime c' = BlockTime c"
    using s1 s2 s3 by (simp_all add: rwa_step_def frame_def)
  ultimately show ?thesis using rwa_step_inv [OF s3] rwa_step_state [OF s3] t by (simp add: rwa_good_def)
qed

inductive rwa_reach :: "('s, 'x) env \<Rightarrow> ('s \<Rightarrow> bytes \<rightharpoonup> bytes) \<Rightarrow> ('s, 'x) ctx \<Rightarrow> bool" for L view where
  reach_genesis: "Rwa_InitGenesis L gs c = Ok c' \<Longrightarrow> store_view view Rwa_StoreKey c = Map.empty \<Longrightarrow> valid_time (BlockTime c) \<Longrightarrow>
    genesis_sound L gs (ext c) \<Longrightarrow> rwa_reach L view c'"
| reach_next: "rwa_reach L view c \<Longrightarrow> rwa_next L view c c' \<Longrightarrow> rwa_reach L view c'"

lemma rwa_reach_good:
  assumes "sdk_laws L view" and "bank_laws (env_keepers L)" and "rwa_account L" and "rwa_reach L view c"
  shows "rwa_good L view c"
  using assms(4)
proof (induction rule: rwa_reach.induct)
  case (reach_genesis gs c c')
  then show ?case by (blast intro: Rwa_InitGenesis_good [OF assms(1,2)])
next
  case (reach_next c c')
  then show ?case by (blast intro: rwa_next_good [OF assms(1-3)])
qed

section \<open>The module's own invariants\<close>

definition bond_acc :: "math_lib \<Rightarrow> AssetRecord \<Rightarrow> int \<times> bool \<Rightarrow> (int \<times> bool) outcome" where
  "bond_acc M a acc =
     (if ar_Status a = SETTLED then Ok acc
      else obind (use_int (NewIntFromString M (ar_Bond a))) (\<lambda>bond.
           obind (int_Add M (fst acc) bond) (\<lambda>s. Ok (s, snd acc \<or> ar_Status a = ACTIVE \<and> \<not> bond > 0))))"

lemma bond_step_acc: "bond_step M a acc = obind (bond_acc M a acc) (\<lambda>acc. Ok (True, acc))"
  by (cases "NewIntFromString M (ar_Bond a)") (auto simp: bond_step_def bond_acc_def use_int_def obind_assoc split: prod.splits)

lemma bond_acc_fold:
  assumes M: "math_laws M" and "\<forall>a\<in>set as. positive_amount M (ar_Bond a) \<and> (ar_Status a = ACTIVE \<longrightarrow> 0 < bond_of M a)"
    and "0 \<le> s" and "int_fits (s + sum_list (map (locked_bond M) as))"
  shows "ofold (bond_acc M) as (s, False) = Ok (s + sum_list (map (locked_bond M) as), False)"
  using assms(2-)
proof (induction as arbitrary: s)
  case (Cons a as)
  have nonneg: "0 \<le> locked_bond M b" if "b \<in> set (a # as)" for b
    using Cons.prems(1) positive_amountD that by (fastforce simp: locked_bond_def)
  then have rest: "0 \<le> sum_list (map (locked_bond M) as)" by (intro sum_list_nonneg) auto
  have bond: "NewIntFromString M (ar_Bond a) = Some (bond_of M a)" "0 \<le> bond_of M a"
    using Cons.prems(1) positive_amountD [of M "ar_Bond a"] by simp_all
  have fits: "int_fits (s + bond_of M a)" if "ar_Status a \<noteq> SETTLED"
    using Cons.prems(2,3) bond(2) rest that by (simp add: int_fits_def locked_bond_def [of M a])
  have step: "bond_acc M a (s, False) = Ok (s + locked_bond M a, False)"
    using fits bond Cons.prems(1) by (auto simp: bond_acc_def locked_bond_def int_Add_eq [OF M] checked_int_def)
  have "ofold (bond_acc M) as (s + locked_bond M a, False) = Ok (s + locked_bond M a + sum_list (map (locked_bond M) as), False)"
    by (rule Cons.IH) (use Cons.prems nonneg [of a] in \<open>auto simp: add.assoc\<close>)
  then show ?case by (simp add: step add.assoc)
qed simp

lemma locked_by_id: "finite (dom (rw_assets S)) \<Longrightarrow> sum_list (map (locked_bond M) (assets_by_id S)) = locked M S"
  by (simp add: assets_by_id_def locked_def comp_def sum_list_distinct_conv_sum_set)

lemma assets_by_id_set: "finite (dom (rw_assets S)) \<Longrightarrow> a \<in> set (assets_by_id S) \<longleftrightarrow> (\<exists>i. rw_assets S i = Some a)"
  by (force simp: assets_by_id_def)

lemma BondInvariant_eq:
  assumes L: "sdk_laws L view" and good: "rwa_good L view c" and B: "bank_laws (env_keepers L)"
    and fits: "int_fits (GetBalance (env_keepers L) (ext c) (ModuleAddress L) BondDenom)"
  shows "BondInvariant L c = Ok False"
proof -
  let ?S = "rwa_of L view c" and ?M = "env_math L"
  note fin = finite_assets [OF L good_inv [OF good]]
  have each: "positive_amount ?M (ar_Bond a) \<and> (ar_Status a = ACTIVE \<longrightarrow> 0 < bond_of ?M a)" if "a \<in> set (assets_by_id ?S)" for a
  proof -
    from that obtain i where i: "rw_assets ?S i = Some a" using assets_by_id_set [OF fin] by blast
    show ?thesis using rwa_asset_ok [OF good_inv [OF good] i] backed_record [OF good_backed [OF good] i]
      by (auto simp: asset_ok_def record_backed_def status_defs)
  qed
  have "0 \<le> locked_bond ?M a" if "a \<in> set (assets_by_id ?S)" for a
    using each [OF that] positive_amountD by (fastforce simp: locked_bond_def)
  then have "0 \<le> locked ?M ?S" unfolding locked_by_id [OF fin, symmetric] by (intro sum_list_nonneg) auto
  then have "int_fits (locked ?M ?S)" using backed_locked [OF good_backed [OF good]] fits by (simp add: int_fits_def)
  then have "ofold (bond_acc ?M) (assets_by_id ?S) (0, False) = Ok (locked ?M ?S, False)"
    using bond_acc_fold [OF sdk_math [OF L], of "assets_by_id ?S" 0] each by (simp add: locked_by_id [OF fin])
  then show ?thesis
    using backed_locked [OF good_backed [OF good]]
    by (simp add: BondInvariant_def iterate_assets_ignoring_def IterateAssets_eq [OF L good_inv [OF good] bond_step_acc])
qed

lemma ofold_flag: "(\<And>a. a \<in> set as \<Longrightarrow> \<not> P a) \<Longrightarrow> ofold (\<lambda>a broken. Ok (broken \<or> P a)) as False = Ok False"
  by (induction as) simp_all

lemma DenomInvariant_eq:
  assumes L: "sdk_laws L view" and good: "rwa_good L view c"
  shows "DenomInvariant L c = Ok False"
proof -
  let ?S = "rwa_of L view c"
  let ?P = "\<lambda>a. (ar_Status a = DRAFT \<or> ar_Status a = ATTESTED) \<and> GetSupply (env_keepers L) (ext c) (ar_Denom a) \<noteq> 0"
  note fin = finite_assets [OF L good_inv [OF good]]
  have "\<not> ?P a" if "a \<in> set (assets_by_id ?S)" for a
  proof -
    from that obtain i where i: "rw_assets ?S i = Some a" using assets_by_id_set [OF fin] by blast
    show ?thesis using backed_record [OF good_backed [OF good] i] by (auto simp: record_backed_def status_defs)
  qed
  then have "ofold (\<lambda>a broken. Ok (broken \<or> ?P a)) (assets_by_id ?S) False = Ok False" by (rule ofold_flag)
  moreover have "IterateAssets L c (\<lambda>a broken. Ok (True, broken \<or> ?P a)) False = ofold (\<lambda>a broken. Ok (broken \<or> ?P a)) (assets_by_id ?S) False"
    by (rule IterateAssets_eq [OF L good_inv [OF good]]) simp
  ultimately show ?thesis by (simp add: DenomInvariant_def iterate_assets_ignoring_def)
qed

section \<open>The life cycle\<close>

text \<open>What one step may do to a record.\<close>

definition record_advances :: "math_lib \<Rightarrow> AssetRecord \<Rightarrow> AssetRecord \<Rightarrow> bool" where
  "record_advances M a a' \<longleftrightarrow>
     ar_AssetId a' = ar_AssetId a \<and> ar_Issuer a' = ar_Issuer a \<and> ar_Denom a' = ar_Denom a \<and> ar_OraclePair a' = ar_OraclePair a \<and>
     (ar_Status a' = ar_Status a \<or> ar_Status a' = ar_Status a + 1 \<and> ar_Status a < SETTLED) \<and>
     notional_of M a \<le> notional_of M a' \<and>
     (ar_Status a = SETTLED \<longrightarrow> a' = a) \<and>
     (notional_of M a' \<noteq> notional_of M a \<longrightarrow> ar_Status a' = ACTIVE) \<and>
     (bond_of M a' \<noteq> bond_of M a \<longrightarrow> ar_Status a = ACTIVE \<and> ar_Status a' = SETTLED)"

lemma record_advances_refl [simp]: "record_advances M a a"
  by (simp add: record_advances_def)

lemma done_advances:
  assumes good: "rwa_good L view c" and a: "rw_assets (rwa_of L view c) i = Some a" and b: "rw_assets (rwa_of L view c) j = Some b"
    and did: "rwa_done L view c c' S x" and adv: "record_advances (env_math L) b b'" and S: "rw_assets S = rw_assets (put_asset b' (rwa_of L view c))"
  shows "\<exists>a'. rw_assets (rwa_of L view c') i = Some a' \<and> record_advances (env_math L) a a'"
  using a b did S adv rwa_asset_id [OF good_inv [OF good] b] by (auto simp: rwa_done_def record_advances_def)

lemma rwa_message_advances:
  assumes L: "sdk_laws L view" and B: "bank_laws (env_keepers L)" and acc: "rwa_account L"
    and step: "rwa_message L c c'" and good: "rwa_good L view c" and a: "rw_assets (rwa_of L view c) i = Some a"
  shows "\<exists>a'. rw_assets (rwa_of L view c') i = Some a' \<and> record_advances (env_math L) a a'"
  using step
proof (cases rule: rwa_message.cases)
  case (next_register m)
  obtain bond x where "rw_assets (rwa_of L view c) (mra_AssetId m) = None"
    and "rwa_done L view c c' (put_asset (draft_record (env_math L) (BlockTime c) m bond) (rwa_of L view c)) x"
    using RegisterAsset_Ok [OF L B acc good_inv [OF good] good_time [OF good] next_register(2,1)] by blast
  then show ?thesis using a by (auto simp: rwa_done_def draft_record_def)
next
  case (next_attest ma)
  obtain b price where b: "rw_assets (rwa_of L view c) (maa_AssetId ma) = Some b" "ar_Status b = DRAFT"
    and did: "rwa_done L view c c' (put_asset (attested_record (env_math L) (BlockTime c) price b) (rwa_of L view c)) (ext c)"
    using attest.AttestAsset_Ok [OF L good_inv [OF good] good_time [OF good] next_attest] by blast
  have "record_advances (env_math L) b (attested_record (env_math L) (BlockTime c) price b)"
    using b by (simp add: record_advances_def attested_record_def status_defs)
  then show ?thesis by (rule done_advances [OF good a b(1) did]) (simp add: restricted_state_def Let_def)
next
  case (next_mint mm)
  obtain b n x where b: "rw_assets (rwa_of L view c) (mmr_AssetId mm) = Some b" "ar_Status b = ATTESTED \<or> ar_Status b = ACTIVE"
    and n: "0 < n" "int_fits (notional_of (env_math L) b + n)"
    and did: "rwa_done L view c c' (put_asset (minted_record (env_math L) n b) (rwa_of L view c)) x"
    using MintRWA_Ok [OF L B acc good_inv [OF good] next_mint] by blast
  have "record_advances (env_math L) b (minted_record (env_math L) n b)"
    using b n amount_of_String [OF sdk_math [OF L] n(2)] by (auto simp: record_advances_def minted_record_def status_defs)
  then show ?thesis by (rule done_advances [OF good a b(1) did]) (simp add: restricted_state_def Let_def)
next
  case (next_transfer mt)
  then show ?thesis using TransferRWA_Ok [OF L B good_inv [OF good] next_transfer(1)] a by (auto simp: rwa_done_def)
next
  case (next_restrict mr)
  obtain b where b: "rw_assets (rwa_of L view c) (mur_AssetId mr) = Some b" "ar_Status b \<noteq> SETTLED"
    and did: "rwa_done L view c c' (restricted_state (env_addr L) mr b (rwa_of L view c)) (ext c)"
    using UpdateRestrictions_Ok [OF L good_inv [OF good] next_restrict] by blast
  have "record_advances (env_math L) b (b\<lparr>ar_AllowAll := mur_AllowAll mr\<rparr>)"
    using b by (simp add: record_advances_def)
  then show ?thesis by (rule done_advances [OF good a b(1) did]) (simp add: restricted_state_def Let_def)
next
  case (next_settle ms)
  obtain b x where b: "rw_assets (rwa_of L view c) (msr_AssetId ms) = Some b" "ar_Status b = ACTIVE"
    and did: "rwa_done L view c c' (put_asset (settled_record (BlockTime c) b) (rwa_of L view c)) x"
    using SettleRWA_Ok [OF L B acc good_inv [OF good] good_time [OF good] next_settle] by blast
  have "record_advances (env_math L) b (settled_record (BlockTime c) b)"
    using b by (simp add: record_advances_def settled_record_def status_defs)
  then show ?thesis by (rule done_advances [OF good a b(1) did]) (simp add: restricted_state_def Let_def)
next
  case (next_slash sl)
  obtain b x where b: "rw_assets (rwa_of L view c) (msl_AssetId sl) = Some b" "ar_Status b = ACTIVE"
    and did: "rwa_done L view c c' (put_asset (slashed_record (env_math L) (BlockTime c) b) (rwa_of L view c)) x"
    using SlashBond_Ok [OF L B good_inv [OF good] good_time [OF good] next_slash] by blast
  have "record_advances (env_math L) b (slashed_record (env_math L) (BlockTime c) b)"
    using b by (simp add: record_advances_def slashed_record_def status_defs)
  then show ?thesis by (rule done_advances [OF good a b(1) did]) (simp add: restricted_state_def Let_def)
next
  case (next_params mp)
  then show ?thesis using Rwa_UpdateParams_Ok [OF L good_inv [OF good] next_params(2,1)] a by (auto simp: rwa_done_def)
qed

lemma rwa_next_advances:
  assumes "sdk_laws L view" and "bank_laws (env_keepers L)" and "rwa_account L" and "rwa_next L view c c'" and "rwa_good L view c"
    and "rw_assets (rwa_of L view c) i = Some a"
  shows "\<exists>a'. rw_assets (rwa_of L view c') i = Some a' \<and> record_advances (env_math L) a a'"
  using assms(4)
proof cases
  case next_message
  then show ?thesis by (rule rwa_message_advances [OF assms(1-3) _ assms(5,6)])
next
  case next_elsewhere
  then show ?thesis using assms(6) by (simp add: elsewhere_def rwa_of_def)
qed

section \<open>A sample chain\<close>

definition sample_asset :: AssetRecord where
  "sample_asset = \<lparr>ar_AssetId = ''gold'', ar_Issuer = ''vtx1I'', ar_Name = ''gold bar'', ar_Description = '''',
     ar_Status = ACTIVE, ar_OraclePair = ''XAU:USD'', ar_Denom = ''rwa/gold'', ar_Bond = int_String ref_math 10000000000,
     ar_NotionalMinted = int_String ref_math 5000, ar_AllowAll = True, ar_AttestedPrice = ''2400.00'',
     ar_AttestedAt = zero_time, ar_CreatedAt = zero_time, ar_SettledAt = zero_time\<rparr>"

definition sample_rwa_genesis :: Rwa_GenesisState where
  "sample_rwa_genesis = \<lparr>rgs_Params = Rwa_DefaultParams ref_math, rgs_Assets = [sample_asset], rgs_Restrictions = []\<rparr>"

definition sample_bank :: ref_chain where
  "sample_bank = \<lparr>rc_coins = [(''module:rwa'', ''uvtx'', 10000000000), (''I'', ''uvtx'', 70), (''I'', ''rwa/gold'', 5000)],
     rc_validators = [], rc_powers = []\<rparr>"

lemma sample_amounts:
  "NewIntFromString ref_math (int_String ref_math 10000000000) = Some 10000000000"
  "NewIntFromString ref_math (int_String ref_math 5000) = Some 5000"
  "length (int_String ref_math 10000000000) < 128" "length (int_String ref_math 5000) < 128"
  by (simp_all add: int_roundtrip [OF ref_math_laws] int_String_short [OF ref_math_laws] int_fits_def)

lemma sample_module: "ModuleAddress ref_env = ''module:rwa''" "rwa_account ref_env"
  by (simp_all add: rwa_account_def ModuleAddress_def Rwa_ModuleName_def ref_addr_def ref_keepers_def ref_module_def)

lemma sample_issuer: "AccAddressFromBech32 ref_addr ''vtx1I'' = Ok ''I''"
  by (simp add: ref_addr_def ref_from_bech32_def valid_addr_def)

lemma sample_slug: "slugRegex ''gold''"
  by (simp add: slugRegex_def lower_alnum_def byte_val_def)

lemma sample_asset_ok: "asset_ok ref_env sample_asset"
  using sample_amounts sample_issuer sample_slug
  by (simp add: asset_ok_def sample_asset_def asset_small_def positive_amount_def status_defs BuildDenom_def RWADenomPrefix_def)

lemma sample_genesis_sound: "genesis_sound ref_env sample_rwa_genesis sample_bank"
proof -
  have "RWAParams_Size (Rwa_DefaultParams ref_math) < 2 ^ 30"
    using Rwa_DefaultParams_ok [OF ref_math_laws] by (simp add: rwa_params_ok_def)
  moreover have "locked_bond ref_math sample_asset = 10000000000"
    using sample_amounts(1) by (simp add: locked_bond_def sample_asset_def status_defs amount_of_def)
  moreover have "record_backed ref_env sample_bank sample_asset"
    using sample_amounts sample_issuer
    by (simp add: record_backed_def sample_module, simp add: sample_asset_def status_defs amount_of_def sample_bank_def ref_keepers_def)
  moreover have "GetBalance ref_keepers sample_bank ''module:rwa'' BondDenom = 10000000000"
    by (simp add: ref_keepers_def sample_bank_def BondDenom_def)
  moreover have "GetSupply ref_keepers sample_bank (BuildDenom i) = 0" if "i \<noteq> ''gold''" for i
    using that by (simp add: ref_keepers_def sample_bank_def BuildDenom_def RWADenomPrefix_def)
  ultimately show ?thesis
    using sample_asset_ok by (simp add: genesis_sound_def sample_rwa_genesis_def sample_module) (simp add: sample_asset_def)
qed

definition rwa_sample :: "(ref_store, ref_chain) ctx \<Rightarrow> bool" where
  "rwa_sample c \<longleftrightarrow> rwa_reach ref_env ref_view c \<and> rwa_good ref_env ref_view c \<and> ext c = sample_bank \<and> BlockTime c = ref_now \<and>
     rw_params (rwa_of ref_env ref_view c) = Rwa_DefaultParams ref_math \<and>
     rw_assets (rwa_of ref_env ref_view c) = [''gold'' \<mapsto> sample_asset] \<and>
     rw_allow (rwa_of ref_env ref_view c) = {} \<and> rw_deny (rwa_of ref_env ref_view c) = {}"

text \<open>A genesis with one asset and the default parameters.\<close>

lemma Rwa_InitGenesis_one:
  assumes empty: "store_view ref_view Rwa_StoreKey c = Map.empty" and a: "asset_ok ref_env a"
    and valid: "validate_asset ref_math ref_addr (Some 10000000000) a [] = Ok [ar_AssetId a]"
  shows "\<exists>c'. Rwa_InitGenesis ref_env \<lparr>rgs_Params = Rwa_DefaultParams ref_math, rgs_Assets = [a], rgs_Restrictions = []\<rparr> c = Ok c' \<and>
    frame Rwa_StoreKey c c' \<and> rw_params (rwa_of ref_env ref_view c') = Rwa_DefaultParams ref_math \<and>
    rw_assets (rwa_of ref_env ref_view c') = [ar_AssetId a \<mapsto> a] \<and>
    rw_allow (rwa_of ref_env ref_view c') = {} \<and> rw_deny (rwa_of ref_env ref_view c') = {}"
proof -
  have params: "RWAParams_Validate ref_math (Rwa_DefaultParams ref_math) = Ok ()"
    using Rwa_DefaultParams_ok [OF ref_math_laws] by (simp add: rwa_params_ok_def)
  obtain c1 where c1: "Rwa_SetParams ref_env (Rwa_DefaultParams ref_math) c = Ok c1"
      and s1: "rwa_step ref_env ref_view c c1 ((rwa_of ref_env ref_view c)\<lparr>rw_params := Rwa_DefaultParams ref_math\<rparr>)"
    using Rwa_SetParams_step [OF ref_sdk_laws rwa_empty(1) [OF empty], of "Rwa_DefaultParams ref_math"] Rwa_DefaultParams_ok [OF ref_math_laws]
    by auto
  obtain c2 where c2: "SetAsset ref_env a c1 = Ok c2"
      and s2: "rwa_step ref_env ref_view c1 c2 ((rwa_of ref_env ref_view c1)\<lparr>rw_assets := (rw_assets (rwa_of ref_env ref_view c1))(ar_AssetId a \<mapsto> a)\<rparr>)"
    using SetAsset_step [OF ref_sdk_laws rwa_step_inv [OF s1] a] by blast
  have min: "MinIssuerBondInt ref_math (Rwa_DefaultParams ref_math) = Some 10000000000"
    using sample_amounts(1) by (simp add: MinIssuerBondInt_def Rwa_DefaultParams_def)
  have "Rwa_InitGenesis ref_env \<lparr>rgs_Params = Rwa_DefaultParams ref_math, rgs_Assets = [a], rgs_Restrictions = []\<rparr> c = Ok c2"
    by (simp add: Rwa_InitGenesis_def Rwa_GenesisState_Validate_def params min valid c1 c2)
  moreover have "frame Rwa_StoreKey c c2" using s1 s2 by (auto simp: rwa_step_def intro: frame_trans)
  ultimately show ?thesis
    using rwa_step_state [OF s2] rwa_step_state [OF s1] rwa_empty(2-4) [OF empty] by (intro exI [of _ c2]) simp
qed

lemma rwa_sample_exists: "\<exists>c. rwa_sample c"
proof -
  let ?c = "ref_ctx sample_bank"
  have empty: "store_view ref_view Rwa_StoreKey ?c = Map.empty" by (rule ref_ctx_store)
  have pair: "Rwa_pairRegex ''XAU:USD''" by (simp add: Rwa_pairRegex_def base_quote_def upper_alnum_def byte_val_def)
  have "validate_asset ref_math ref_addr (Some 10000000000) sample_asset [] = Ok [ar_AssetId sample_asset]"
    using sample_amounts sample_issuer sample_slug pair by (simp add: validate_asset_def sample_asset_def status_defs)
  then obtain c where init: "Rwa_InitGenesis ref_env sample_rwa_genesis ?c = Ok c" and frame: "frame Rwa_StoreKey ?c c"
    and state: "rw_params (rwa_of ref_env ref_view c) = Rwa_DefaultParams ref_math" "rw_assets (rwa_of ref_env ref_view c) = [''gold'' \<mapsto> sample_asset]"
      "rw_allow (rwa_of ref_env ref_view c) = {}" "rw_deny (rwa_of ref_env ref_view c) = {}"
    using Rwa_InitGenesis_one [OF empty sample_asset_ok] by (auto simp: sample_rwa_genesis_def, simp add: sample_asset_def)
  have time: "valid_time ref_now" by (simp add: ref_now_def valid_time_def zero_time_def Second_def)
  have "rwa_reach ref_env ref_view c" using reach_genesis [OF init empty] sample_genesis_sound time by simp
  moreover from this have "rwa_good ref_env ref_view c"
    by (intro rwa_reach_good [OF ref_sdk_laws]) (simp_all add: ref_bank_laws sample_module)
  ultimately show ?thesis using frame state by (intro exI [of _ c]) (simp add: rwa_sample_def frame_def)
qed

lemma rwa_sampleD:
  assumes "rwa_sample c"
  shows "rwa_reach ref_env ref_view c" "rwa_good ref_env ref_view c" "ext c = sample_bank" "BlockTime c = ref_now"
    "rw_params (rwa_of ref_env ref_view c) = Rwa_DefaultParams ref_math"
    "rw_assets (rwa_of ref_env ref_view c) = [''gold'' \<mapsto> sample_asset]"
    "rw_deny (rwa_of ref_env ref_view c) = {}"
  using assms by (simp_all add: rwa_sample_def)

lemma ref_bank: "bank_laws (env_keepers ref_env)"
  by (simp add: ref_bank_laws)

lemma sample_GetAsset: "rwa_sample c \<Longrightarrow> GetAsset ref_env ''gold'' c = Ok (Some sample_asset)"
  using GetAsset_eq [OF ref_sdk_laws good_inv, of c "''gold''"] rwa_sampleD [of c] by simp

section \<open>Properties\<close>

text \<open>
  C10. Bonds and denominations never break. In every state a chain reaches from a sound
  genesis by the module's messages, in any order and mixed with whatever the other modules
  do, both registered invariants report that they hold: the module's account covers every
  locked bond, no active asset is without one, and no asset has tokens before it is active.
\<close>

theorem rwa_invariants_hold:
  assumes "sdk_laws L view" and "bank_laws (env_keepers L)" and "rwa_account L" and "rwa_reach L view c"
    and "int_fits (GetBalance (env_keepers L) (ext c) (ModuleAddress L) BondDenom)"
  shows "BondInvariant L c = Ok False \<and> DenomInvariant L c = Ok False"
  using BondInvariant_eq [OF assms(1) rwa_reach_good [OF assms(1-4)] assms(2,5)] DenomInvariant_eq [OF assms(1) rwa_reach_good [OF assms(1-4)]]
  by simp

theorem rwa_invariants_hold_witness:
  "\<exists>c. GetAsset ref_env ''gold'' c = Ok (Some sample_asset) \<and> BondInvariant ref_env c = Ok False \<and> DenomInvariant ref_env c = Ok False"
proof -
  obtain c where c: "rwa_sample c" using rwa_sample_exists by blast
  have "int_fits (GetBalance (env_keepers ref_env) (ext c) (ModuleAddress ref_env) BondDenom)"
    by (simp add: rwa_sampleD(3) [OF c] sample_module, simp add: ref_keepers_def sample_bank_def BondDenom_def int_fits_def)
  then show ?thesis
    using rwa_invariants_hold [OF ref_sdk_laws ref_bank sample_module(2) rwa_sampleD(1) [OF c]] sample_GetAsset [OF c] by blast
qed

lemma locked_bond_le:
  assumes L: "sdk_laws L view" and good: "rwa_good L view c" and a: "rw_assets (rwa_of L view c) i = Some a"
  shows "locked_bond (env_math L) a \<le> GetBalance (env_keepers L) (ext c) (ModuleAddress L) BondDenom"
proof -
  let ?S = "rwa_of L view c" and ?M = "env_math L"
  have nonneg: "0 \<le> locked_bond ?M (the (rw_assets ?S j))" if "j \<in> dom (rw_assets ?S)" for j
    using that asset_bond(2) [OF rwa_asset_ok [OF good_inv [OF good]]] by (auto simp: locked_bond_def)
  have "locked_bond ?M (the (rw_assets ?S i)) \<le> locked ?M ?S"
    unfolding locked_def by (rule member_le_sum) (use a nonneg finite_assets [OF L good_inv [OF good]] in auto)
  then show ?thesis using a backed_locked [OF good_backed [OF good]] by simp
qed

text \<open>
  C11. Every active asset is backed. In every reachable state the supply of an active
  asset's token is exactly the notional its record counts, and the module's account holds
  at least the asset's bond, which is positive.
\<close>

theorem active_assets_are_backed:
  assumes "sdk_laws L view" and "bank_laws (env_keepers L)" and "rwa_account L" and "rwa_reach L view c"
    and "slugRegex i" and "GetAsset L i c = Ok (Some a)" and "ar_Status a = ACTIVE"
  shows "ar_Denom a = BuildDenom i \<and>
    NewIntFromString (env_math L) (ar_NotionalMinted a) = Some (GetSupply (env_keepers L) (ext c) (BuildDenom i)) \<and>
    (\<exists>bond. NewIntFromString (env_math L) (ar_Bond a) = Some bond \<and> 0 < bond \<and>
       bond \<le> GetBalance (env_keepers L) (ext c) (ModuleAddress L) BondDenom)"
proof -
  have good: "rwa_good L view c" by (rule rwa_reach_good [OF assms(1-4)])
  have a: "rw_assets (rwa_of L view c) i = Some a" using assms(6) by (simp add: GetAsset_eq [OF assms(1) good_inv [OF good] slug_short [OF assms(5)]])
  note aok = rwa_asset_ok [OF good_inv [OF good] a]
  show ?thesis
    using backed_record [OF good_backed [OF good] a] asset_notional(1) [OF aok] asset_bond(1) [OF aok] locked_bond_le [OF assms(1) good a]
      rwa_denoms [OF good_inv [OF good] a] assms(7)
    by (auto simp: record_backed_def locked_bond_def status_defs)
qed

theorem active_assets_are_backed_witness:
  "\<exists>c. GetAsset ref_env ''gold'' c = Ok (Some sample_asset) \<and> GetSupply ref_keepers (ext c) ''rwa/gold'' = 5000 \<and>
     10000000000 \<le> GetBalance ref_keepers (ext c) ''module:rwa'' ''uvtx''"
proof -
  obtain c where c: "rwa_sample c" using rwa_sample_exists by blast
  have s: "ar_Status sample_asset = ACTIVE" "ar_NotionalMinted sample_asset = int_String ref_math 5000"
    "ar_Bond sample_asset = int_String ref_math 10000000000" by (simp_all add: sample_asset_def)
  show ?thesis
    using active_assets_are_backed [OF ref_sdk_laws ref_bank sample_module(2) rwa_sampleD(1) [OF c] sample_slug sample_GetAsset [OF c] s(1)]
      sample_GetAsset [OF c] sample_amounts(1,2)
    by (intro exI [of _ c]) (simp add: s sample_module(1), simp add: BuildDenom_def RWADenomPrefix_def BondDenom_def)
qed

text \<open>
  C12. An asset's life only goes forward. Whatever message is handled next, and whatever the
  other modules do, a registered asset stays registered under the same issuer, denomination
  and oracle pair; its status stays or moves to the next one of draft, attested, active,
  settled; its notional never falls and only grows into or in the active status; its bond
  changes only when it is settled; and a settled record never changes again.
\<close>

theorem rwa_status_only_advances:
  assumes "sdk_laws L view" and "bank_laws (env_keepers L)" and "rwa_account L" and "rwa_reach L view c"
    and "rwa_next L view c c'" and "slugRegex i" and "GetAsset L i c = Ok (Some a)"
  shows "\<exists>a'. GetAsset L i c' = Ok (Some a') \<and> record_advances (env_math L) a a'"
proof -
  have good: "rwa_good L view c" by (rule rwa_reach_good [OF assms(1-4)])
  have good': "rwa_good L view c'" by (rule rwa_next_good [OF assms(1-3,5) good])
  note get = GetAsset_eq [OF assms(1) good_inv [OF good] slug_short [OF assms(6)]]
    GetAsset_eq [OF assms(1) good_inv [OF good'] slug_short [OF assms(6)]]
  show ?thesis using rwa_next_advances [OF assms(1-3,5) good] assms(7) by (simp add: get)
qed

definition sample_mint :: MsgMintRWA where
  "sample_mint = \<lparr>mmr_Issuer = ''vtx1I'', mmr_AssetId = ''gold'', mmr_Notional = int_String ref_math 2000\<rparr>"

lemma ref_one_coin: "0 < n \<Longrightarrow> one_coin ref_env d n = Ok [(d, n)]"
  by (simp add: one_coin_def ref_keepers_def)

lemma ref_send:
  "SendCoinsFromAccountToModule ref_keepers r x src n amt = ref_move r x src (''module:'' @ n) amt"
  "SendCoinsFromModuleToAccount ref_keepers r x n dst amt = ref_move r x (''module:'' @ n) dst amt"
  "MintCoins ref_keepers x n amt = ref_mint x (''module:'' @ n) amt"
  "BurnCoins ref_keepers x n amt = ref_burn x (''module:'' @ n) amt"
  by (simp_all add: ref_keepers_def ref_module_def)

lemma sample_unrestricted:
  "SendRestriction ref_env c src dst [(''uvtx'', n)] = Ok dst"
  "SendRestriction ref_env c ''module:rwa'' dst [(d, n)] = Ok dst"
  "SendRestriction ref_env c src ''module:rwa'' [(d, n)] = Ok ''module:rwa''"
  by (auto simp: SendRestriction_def ParseRWADenom_def RWADenomPrefix_def CheckTransferAllowed_def sample_module split: option.splits)

lemma sample_rate: "LegacyNewDecFromStr ref_math (rp_MintFeeRate (Rwa_DefaultParams ref_math)) = Ok (10 ^ 15)"
  "LegacyNewDecFromStr ref_math (rp_SettleFeeRate (Rwa_DefaultParams ref_math)) = Ok (10 ^ 15)"
  using LegacyNewDecWithPrec_eq [OF ref_math_laws, of 3 1] dec_roundtrip [OF ref_math_laws, of "10 ^ 15"]
  by (simp_all add: Rwa_DefaultParams_def dec_fits_def)

lemma sample_fee:
  assumes "0 \<le> n" and "n < 10 ^ 20"
  shows "ComputeFee ref_math n (10 ^ 15) = Ok (n div 1000)"
proof -
  have "dec_Mul ref_math (n * dec_unit) (10 ^ 15) = Ok (n * 10 ^ 15)"
    using assms by (simp add: dec_Mul_exact [OF ref_math_laws] checked_dec_def dec_fits_def)
  moreover have "(n * 10 ^ 15) sdiv dec_unit = n div 1000"
    using assms by (auto simp: signed_divide_int_def sgn_if dec_unit_def)
  moreover have "int_fits (n div 1000)" using assms by (simp add: int_fits_def)
  ultimately show ?thesis
    by (simp add: ComputeFee_def LegacyNewDecFromInt_eq [OF ref_math_laws] dec_TruncateInt_eq [OF ref_math_laws] checked_int_def)
qed

lemma sample_mint_Ok:
  assumes c: "rwa_sample c"
  shows "\<exists>c'. MintRWA ref_env sample_mint c = Ok c'"
proof -
  have inv: "rwa_inv ref_env ref_view c" by (rule good_inv [OF rwa_sampleD(2) [OF c]])
  have params: "Rwa_GetParams ref_env c = Ok (Rwa_DefaultParams ref_math)"
    using Rwa_GetParams_eq [OF ref_sdk_laws inv] rwa_sampleD(5) [OF c] by simp
  have n: "NewIntFromString ref_math (int_String ref_math 2000) = Some 2000"
    by (simp add: int_roundtrip [OF ref_math_laws] int_fits_def)
  define x1 where "x1 = sample_bank\<lparr>rc_coins := [(''module:fee_collector'', ''uvtx'', 2), (''module:rwa'', ''uvtx'', 10000000000),
    (''I'', ''uvtx'', 68), (''I'', ''rwa/gold'', 5000)]\<rparr>"
  have collect: "CollectFee ref_env ''I'' 2 c = Ok (c\<lparr>ext := x1\<rparr>)"
    by (simp add: CollectFee_def ref_one_coin with_ext_def rwa_sampleD(3) [OF c] ref_send ref_move_def sample_unrestricted
        BondDenom_def, simp add: sample_bank_def x1_def)
  define x2 where "x2 = x1\<lparr>rc_coins := (''module:rwa'', ''rwa/gold'', 2000) # rc_coins x1\<rparr>"
  define x3 where "x3 = x2\<lparr>rc_coins := (''I'', ''rwa/gold'', 2000) # (''module:rwa'', ''rwa/gold'', 0) # rc_coins x1\<rparr>"
  have mint: "ref_mint x1 ''module:rwa'' [(''rwa/gold'', 2000)] = Ok x2" by (simp add: ref_mint_def x2_def)
  have send: "ref_move (SendRestriction ref_env c0) x2 ''module:rwa'' ''I'' [(''rwa/gold'', 2000)] = Ok x3" for c0
    by (simp add: ref_move_def sample_unrestricted, simp add: x2_def x3_def)
  have add: "int_Add ref_math 5000 2000 = Ok 7000" by (simp add: int_Add_eq [OF ref_math_laws] checked_int_def int_fits_def)
  have "asset_ok ref_env (sample_asset\<lparr>ar_NotionalMinted := int_String ref_math 7000, ar_Status := ACTIVE\<rparr>)"
    using sample_asset_ok positive_amount_String [OF ref_math_laws, of 7000] int_String_short [OF ref_math_laws, of 7000]
    by (simp add: asset_ok_def asset_small_def status_defs int_fits_def)
  then obtain c4 where c4: "SetAsset ref_env (sample_asset\<lparr>ar_NotionalMinted := int_String ref_math 7000, ar_Status := ACTIVE\<rparr>) (c\<lparr>ext := x3\<rparr>) = Ok c4"
    using SetAsset_step [OF ref_sdk_laws, of "c\<lparr>ext := x3\<rparr>"] inv by fastforce
  have fee: "ComputeFee ref_math 2000 1000000000000000 = Ok 2" using sample_fee [of 2000] by simp
  have a: "ar_Issuer sample_asset = ''vtx1I''" "ar_Status sample_asset = ACTIVE" "ar_Denom sample_asset = ''rwa/gold''"
    "ar_NotionalMinted sample_asset = int_String ref_math 5000" by (simp_all add: sample_asset_def)
  show ?thesis
    by (simp add: MintRWA_def MsgMintRWA_ValidateBasic_def requireIssuer_def sample_mint_def sample_GetAsset [OF c] sample_slug
        sample_issuer require_address_def ValidateAssetID_def validatePositiveInt_def n a params MintFeeRateDec_def sample_rate fee collect
        ref_one_coin with_ext_def Rwa_ModuleName_def ref_send mint send sample_amounts add c4)
qed

theorem rwa_status_only_advances_witness:
  "\<exists>c c' a'. MintRWA ref_env sample_mint c = Ok c' \<and> GetAsset ref_env ''gold'' c = Ok (Some sample_asset) \<and>
     GetAsset ref_env ''gold'' c' = Ok (Some a') \<and> ar_Issuer a' = ''vtx1I'' \<and> 5000 \<le> notional_of ref_math a'"
proof -
  obtain c where c: "rwa_sample c" using rwa_sample_exists by blast
  obtain c' where c': "MintRWA ref_env sample_mint c = Ok c'" using sample_mint_Ok [OF c] by blast
  have a: "ar_Issuer sample_asset = ''vtx1I''" "notional_of ref_math sample_asset = 5000"
    using sample_amounts(2) by (simp_all add: sample_asset_def amount_of_def)
  obtain a' where "GetAsset ref_env ''gold'' c' = Ok (Some a')" "record_advances ref_math sample_asset a'"
    using rwa_status_only_advances [OF ref_sdk_laws ref_bank sample_module(2) rwa_sampleD(1) [OF c] next_message [OF next_mint [OF c']] sample_slug sample_GetAsset [OF c]]
    by auto
  then show ?thesis using c' sample_GetAsset [OF c] a by (auto simp: record_advances_def)
qed

text \<open>
  C13. What a mint does. In a reachable state a mint succeeds only for the asset's issuer
  and an attested or active asset. It creates exactly the notional of the asset's token
  for the issuer, takes from the issuer the mint fee, the rate's share of the notional
  rounded down and never more than the notional, into the fee collector, changes no other
  balance or supply, and leaves the asset active with the notional added to its record.
\<close>

theorem MintRWA_effect:
  assumes "sdk_laws L view" and "bank_laws (env_keepers L)" and "rwa_account L" and "rwa_reach L view c" and "MintRWA L msg c = Ok c'"
  shows "\<exists>a issuer n fee. GetAsset L (mmr_AssetId msg) c = Ok (Some a) \<and> ar_Issuer a = mmr_Issuer msg \<and>
    (ar_Status a = ATTESTED \<or> ar_Status a = ACTIVE) \<and> AccAddressFromBech32 (env_addr L) (mmr_Issuer msg) = Ok issuer \<and>
    NewIntFromString (env_math L) (mmr_Notional msg) = Some n \<and> 0 < n \<and>
    fee = rate_share (env_math L) (rp_MintFeeRate (rw_params (rwa_of L view c))) n \<and> 0 \<le> fee \<and> fee \<le> n \<and>
    (\<forall>k d. GetBalance (env_keepers L) (ext c') k d = GetBalance (env_keepers L) (ext c) k d +
       (if k = issuer \<and> d = ar_Denom a then n else 0) - (if k = issuer \<and> d = BondDenom then fee else 0) +
       (if k = GetModuleAddress (env_keepers L) ''fee_collector'' \<and> d = BondDenom then fee else 0)) \<and>
    (\<forall>d. GetSupply (env_keepers L) (ext c') d = GetSupply (env_keepers L) (ext c) d + (if d = ar_Denom a then n else 0)) \<and>
    GetAsset L (mmr_AssetId msg) c' = Ok (Some (minted_record (env_math L) n a))"
proof -
  let ?B = "env_keepers L"
  have good: "rwa_good L view c" by (rule rwa_reach_good [OF assms(1-4)])
  obtain a issuer n fee x x1 x2 where a: "rw_assets (rwa_of L view c) (mmr_AssetId msg) = Some a" "ar_Issuer a = mmr_Issuer msg"
      "ar_Status a = ATTESTED \<or> ar_Status a = ACTIVE"
    and issuer: "AccAddressFromBech32 (env_addr L) (mmr_Issuer msg) = Ok issuer"
    and n: "NewIntFromString (env_math L) (mmr_Notional msg) = Some n" "0 < n"
    and fee: "fee = rate_share (env_math L) (rp_MintFeeRate (rw_params (rwa_of L view c))) n" "0 \<le> fee" "fee \<le> n"
    and m: "moved ?B (ext c) x1 issuer (GetModuleAddress ?B ''fee_collector'') BondDenom fee"
      "issued ?B x1 x2 (ModuleAddress L) (ar_Denom a) n" "moved ?B x2 x (ModuleAddress L) issuer (ar_Denom a) n"
    and did: "rwa_done L view c c' (put_asset (minted_record (env_math L) n a) (rwa_of L view c)) x"
    using MintRWA_Ok [OF assms(1-3) good_inv [OF good] assms(5)] by blast
  have slug: "slugRegex (mmr_AssetId msg)"
    using asset_slug [OF rwa_asset_ok [OF good_inv [OF good] a(1)]] rwa_asset_id [OF good_inv [OF good] a(1)] by simp
  have get: "GetAsset L (mmr_AssetId msg) c = Ok (Some a)" "GetAsset L (mmr_AssetId msg) c' = Ok (Some (minted_record (env_math L) n a))"
    using did a(1) rwa_asset_id [OF good_inv [OF good] a(1)]
    by (simp_all add: GetAsset_eq [OF assms(1) _ slug_short [OF slug]] good_inv [OF good] rwa_done_def)
      (simp add: minted_record_def)
  have "\<forall>k d. GetBalance ?B x k d = GetBalance ?B (ext c) k d +
       (if k = issuer \<and> d = ar_Denom a then n else 0) - (if k = issuer \<and> d = BondDenom then fee else 0) +
       (if k = GetModuleAddress ?B ''fee_collector'' \<and> d = BondDenom then fee else 0)"
    using m by (simp add: moved_def issued_def)
  moreover have "\<forall>d. GetSupply ?B x d = GetSupply ?B (ext c) d + (if d = ar_Denom a then n else 0)"
    using m by (simp add: moved_def issued_def)
  ultimately show ?thesis using get a(2,3) issuer n fee did unfolding rwa_done_def by blast
qed

theorem MintRWA_effect_witness:
  "\<exists>c c'. MintRWA ref_env sample_mint c = Ok c' \<and> GetBalance ref_keepers (ext c') ''I'' ''rwa/gold'' = 7000 \<and>
     GetBalance ref_keepers (ext c') ''I'' ''uvtx'' = 68 \<and> GetBalance ref_keepers (ext c') ''module:fee_collector'' ''uvtx'' = 2 \<and>
     GetSupply ref_keepers (ext c') ''rwa/gold'' = 7000"
proof -
  obtain c where c: "rwa_sample c" using rwa_sample_exists by blast
  obtain c' where c': "MintRWA ref_env sample_mint c = Ok c'" using sample_mint_Ok [OF c] by blast
  have n: "NewIntFromString ref_math (int_String ref_math 2000) = Some 2000"
    by (simp add: int_roundtrip [OF ref_math_laws] int_fits_def)
  have fee: "rate_share ref_math (rp_MintFeeRate (rw_params (rwa_of ref_env ref_view c))) 2000 = 2"
    by (simp add: rwa_sampleD(5) [OF c] rate_share_def sample_rate dec_unit_def)
  have bank: "GetBalance ref_keepers sample_bank ''I'' ''rwa/gold'' = 5000" "GetBalance ref_keepers sample_bank ''I'' ''uvtx'' = 70"
    "GetBalance ref_keepers sample_bank ''module:fee_collector'' ''uvtx'' = 0" "GetSupply ref_keepers sample_bank ''rwa/gold'' = 5000"
    "GetModuleAddress ref_keepers ''fee_collector'' = ''module:fee_collector''"
    by (simp_all add: ref_keepers_def ref_module_def sample_bank_def)
  have m: "mmr_AssetId sample_mint = ''gold''" "mmr_Issuer sample_mint = ''vtx1I''" "mmr_Notional sample_mint = int_String ref_math 2000"
    by (simp_all add: sample_mint_def)
  have d: "ar_Denom sample_asset = ''rwa/gold''" by (simp add: sample_asset_def)
  show ?thesis
    using MintRWA_effect [OF ref_sdk_laws ref_bank sample_module(2) rwa_sampleD(1) [OF c] c'] c'
    by (intro exI [of _ c] exI [of _ c']) (auto simp: m n sample_issuer sample_GetAsset [OF c] fee rwa_sampleD(3) [OF c] bank d BondDenom_def)
qed

text \<open>
  C14. What a settlement does. In a reachable state it succeeds only for the issuer of an
  active asset who holds the whole notional. It destroys the whole supply of the asset's
  token, taken from the issuer, charges the settlement fee to the fee collector, returns
  the bond to the issuer from the module's account, and leaves the asset settled.
\<close>

theorem SettleRWA_effect:
  assumes "sdk_laws L view" and "bank_laws (env_keepers L)" and "rwa_account L" and "rwa_reach L view c" and "SettleRWA L msg c = Ok c'"
  shows "\<exists>a issuer fee. GetAsset L (msr_AssetId msg) c = Ok (Some a) \<and> ar_Issuer a = msr_Issuer msg \<and> ar_Status a = ACTIVE \<and>
    AccAddressFromBech32 (env_addr L) (msr_Issuer msg) = Ok issuer \<and>
    fee = rate_share (env_math L) (rp_SettleFeeRate (rw_params (rwa_of L view c))) (notional_of (env_math L) a) \<and>
    GetBalance (env_keepers L) (ext c) issuer (ar_Denom a) = notional_of (env_math L) a \<and>
    (\<forall>k d. GetBalance (env_keepers L) (ext c') k d =
       (if d = ar_Denom a then 0
        else GetBalance (env_keepers L) (ext c) k d -
          (if k = issuer \<and> d = BondDenom then fee else 0) +
          (if k = GetModuleAddress (env_keepers L) ''fee_collector'' \<and> d = BondDenom then fee else 0) +
          (if k = issuer \<and> d = BondDenom then bond_of (env_math L) a else 0) -
          (if k = ModuleAddress L \<and> d = BondDenom then bond_of (env_math L) a else 0))) \<and>
    (\<forall>d. GetSupply (env_keepers L) (ext c') d = (if d = ar_Denom a then 0 else GetSupply (env_keepers L) (ext c) d)) \<and>
    GetAsset L (msr_AssetId msg) c' = Ok (Some (settled_record (BlockTime c) a))"
proof -
  let ?B = "env_keepers L" and ?M = "env_math L"
  have good: "rwa_good L view c" by (rule rwa_reach_good [OF assms(1-4)])
  obtain a issuer fee x x1 x2 x3 where a: "rw_assets (rwa_of L view c) (msr_AssetId msg) = Some a" "ar_Issuer a = msr_Issuer msg"
      "ar_Status a = ACTIVE"
    and issuer: "AccAddressFromBech32 (env_addr L) (msr_Issuer msg) = Ok issuer"
    and fee: "fee = rate_share ?M (rp_SettleFeeRate (rw_params (rwa_of L view c))) (notional_of ?M a)"
    and m: "moved ?B (ext c) x1 issuer (GetModuleAddress ?B ''fee_collector'') BondDenom fee"
      "moved ?B x1 x2 issuer (ModuleAddress L) (ar_Denom a) (notional_of ?M a)"
      "issued ?B x2 x3 (ModuleAddress L) (ar_Denom a) (- notional_of ?M a)" "moved ?B x3 x (ModuleAddress L) issuer BondDenom (bond_of ?M a)"
    and did: "rwa_done L view c c' (put_asset (settled_record (BlockTime c) a) (rwa_of L view c)) x"
    using SettleRWA_Ok [OF assms(1-3) good_inv [OF good] good_time [OF good] assms(5)] by blast
  have slug: "slugRegex (msr_AssetId msg)"
    using asset_slug [OF rwa_asset_ok [OF good_inv [OF good] a(1)]] rwa_asset_id [OF good_inv [OF good] a(1)] by simp
  have get: "GetAsset L (msr_AssetId msg) c = Ok (Some a)" "GetAsset L (msr_AssetId msg) c' = Ok (Some (settled_record (BlockTime c) a))"
    using did a(1) rwa_asset_id [OF good_inv [OF good] a(1)]
    by (simp_all add: GetAsset_eq [OF assms(1) _ slug_short [OF slug]] good_inv [OF good] rwa_done_def)
      (simp add: settled_record_def)
  have d: "ar_Denom a = BuildDenom (msr_AssetId msg)" by (rule rwa_denoms [OF good_inv [OF good] a(1)])
  have supply_: "GetSupply ?B (ext c) (ar_Denom a) = notional_of ?M a"
    using backed_record [OF good_backed [OF good] a(1)] a(3) by (simp add: record_backed_def status_defs)
  have "GetSupply ?B x d = (if d = ar_Denom a then 0 else GetSupply ?B (ext c) d)" for d
    using m supply_ by (simp add: moved_def issued_def)
  moreover have "GetBalance ?B x k (ar_Denom a) = 0" for k
    using GetBalance_range [OF assms(2), of x k "ar_Denom a"] calculation [of "ar_Denom a"] by simp
  moreover have "GetBalance ?B (ext c) issuer (ar_Denom a) = notional_of ?M a"
    using m(1,2) GetBalance_range(2) [OF assms(2), of "ext c" issuer "ar_Denom a"] supply_ d by (simp add: moved_def)
  moreover have "GetBalance ?B x k e = GetBalance ?B (ext c) k e -
          (if k = issuer \<and> e = BondDenom then fee else 0) + (if k = GetModuleAddress ?B ''fee_collector'' \<and> e = BondDenom then fee else 0) +
          (if k = issuer \<and> e = BondDenom then bond_of ?M a else 0) - (if k = ModuleAddress L \<and> e = BondDenom then bond_of ?M a else 0)"
    if "e \<noteq> ar_Denom a" for k e
    using m that by (simp add: moved_def issued_def)
  ultimately show ?thesis
    using get a(2,3) issuer fee did unfolding rwa_done_def
    by (intro exI [of _ a] exI [of _ issuer] exI [of _ fee]) simp
qed

definition sample_settle :: MsgSettleRWA where
  "sample_settle = \<lparr>msr_Issuer = ''vtx1I'', msr_AssetId = ''gold''\<rparr>"

lemma sample_settle_Ok:
  assumes c: "rwa_sample c"
  shows "\<exists>c'. SettleRWA ref_env sample_settle c = Ok c'"
proof -
  have inv: "rwa_inv ref_env ref_view c" by (rule good_inv [OF rwa_sampleD(2) [OF c]])
  have params: "Rwa_GetParams ref_env c = Ok (Rwa_DefaultParams ref_math)"
    using Rwa_GetParams_eq [OF ref_sdk_laws inv] rwa_sampleD(5) [OF c] by simp
  define x1 where "x1 = sample_bank\<lparr>rc_coins := [(''module:fee_collector'', ''uvtx'', 5), (''module:rwa'', ''uvtx'', 10000000000),
    (''I'', ''uvtx'', 65), (''I'', ''rwa/gold'', 5000)]\<rparr>"
  have collect: "CollectFee ref_env ''I'' 5 c = Ok (c\<lparr>ext := x1\<rparr>)"
    by (simp add: CollectFee_def ref_one_coin with_ext_def rwa_sampleD(3) [OF c] ref_send ref_move_def sample_unrestricted
        BondDenom_def, simp add: sample_bank_def x1_def)
  define x2 where "x2 = x1\<lparr>rc_coins := [(''module:rwa'', ''rwa/gold'', 5000), (''module:fee_collector'', ''uvtx'', 5),
    (''module:rwa'', ''uvtx'', 10000000000), (''I'', ''uvtx'', 65), (''I'', ''rwa/gold'', 0)]\<rparr>"
  have send: "ref_move (SendRestriction ref_env c0) x1 ''I'' ''module:rwa'' [(''rwa/gold'', 5000)] = Ok x2" for c0
    by (simp add: ref_move_def sample_unrestricted, simp add: x2_def x1_def)
  define x3 where "x3 = x2\<lparr>rc_coins := (''module:rwa'', ''rwa/gold'', 0) # tl (rc_coins x2)\<rparr>"
  have burn: "ref_burn x2 ''module:rwa'' [(''rwa/gold'', 5000)] = Ok x3" by (simp add: ref_burn_def x2_def x3_def)
  obtain x where release: "ReleaseBond ref_env ''I'' 10000000000 (c\<lparr>ext := x3\<rparr>) = Ok (c\<lparr>ext := x\<rparr>)"
    by (simp add: ReleaseBond_def ref_one_coin with_ext_def ref_send ref_move_def sample_unrestricted BondDenom_def Rwa_ModuleName_def,
        simp add: x3_def x2_def)
  have time: "valid_time (BlockTime c)" by (rule good_time [OF rwa_sampleD(2) [OF c]])
  have "asset_ok ref_env (sample_asset\<lparr>ar_Status := SETTLED, ar_SettledAt := BlockTime c\<rparr>)"
    using sample_asset_ok time by (simp add: asset_ok_def asset_small_def status_defs)
  then obtain c4 where c4: "SetAsset ref_env (sample_asset\<lparr>ar_Status := SETTLED, ar_SettledAt := BlockTime c\<rparr>) (c\<lparr>ext := x\<rparr>) = Ok c4"
    using SetAsset_step [OF ref_sdk_laws, of "c\<lparr>ext := x\<rparr>"] inv by fastforce
  have fee: "ComputeFee ref_math 5000 1000000000000000 = Ok 5" using sample_fee [of 5000] by simp
  have a: "ar_Issuer sample_asset = ''vtx1I''" "ar_Status sample_asset = ACTIVE" "ar_Denom sample_asset = ''rwa/gold''"
    "ar_NotionalMinted sample_asset = int_String ref_math 5000" "ar_Bond sample_asset = int_String ref_math 10000000000"
    by (simp_all add: sample_asset_def)
  show ?thesis
    by (simp add: SettleRWA_def MsgSettleRWA_ValidateBasic_def requireIssuer_def sample_settle_def sample_GetAsset [OF c] sample_slug
        sample_issuer require_address_def ValidateAssetID_def a params SettleFeeRateDec_def sample_rate fee collect
        ref_one_coin with_ext_def Rwa_ModuleName_def ref_send send burn sample_amounts release c4)
qed

theorem SettleRWA_effect_witness:
  "\<exists>c c'. SettleRWA ref_env sample_settle c = Ok c' \<and> GetBalance ref_keepers (ext c') ''I'' ''uvtx'' = 10000000065 \<and>
     GetBalance ref_keepers (ext c') ''module:rwa'' ''uvtx'' = 0 \<and> GetSupply ref_keepers (ext c') ''rwa/gold'' = 0"
proof -
  obtain c where c: "rwa_sample c" using rwa_sample_exists by blast
  obtain c' where c': "SettleRWA ref_env sample_settle c = Ok c'" using sample_settle_Ok [OF c] by blast
  have fee: "rate_share ref_math (rp_SettleFeeRate (rw_params (rwa_of ref_env ref_view c))) 5000 = 5"
    by (simp add: rwa_sampleD(5) [OF c] rate_share_def sample_rate dec_unit_def)
  have bank: "GetBalance ref_keepers sample_bank ''module:rwa'' ''uvtx'' = 10000000000" "GetBalance ref_keepers sample_bank ''I'' ''uvtx'' = 70"
    "GetModuleAddress ref_keepers ''fee_collector'' = ''module:fee_collector''"
    by (simp_all add: ref_keepers_def ref_module_def sample_bank_def)
  have m: "msr_AssetId sample_settle = ''gold''" "msr_Issuer sample_settle = ''vtx1I''" by (simp_all add: sample_settle_def)
  have d: "ar_Denom sample_asset = ''rwa/gold''" "notional_of ref_math sample_asset = 5000" "bond_of ref_math sample_asset = 10000000000"
    using sample_amounts(1,2) by (simp_all add: sample_asset_def amount_of_def)
  show ?thesis
    using SettleRWA_effect [OF ref_sdk_laws ref_bank sample_module(2) rwa_sampleD(1) [OF c] c'] c'
    by (intro exI [of _ c] exI [of _ c'])
      (auto simp: m sample_issuer sample_GetAsset [OF c] fee rwa_sampleD(3) [OF c] bank d BondDenom_def sample_module(1))
qed



end
