(* ===== verification/App.thy ===== *)
theory App
  imports Oracle_Chain Fees Rwa_Chain
begin

text \<open>
  The application: \<open>app/app_config.go\<close> lists the modules whose genesis and whose end-of-block
  work run, and in which order; \<open>app/app.go\<close> installs the send restriction of \<open>x/rwa\<close> in the
  bank. The chain is the three modules and the modules of the SDK taking turns. What each
  module relies on in the others is shown to hold: every run of the chain is, seen from one
  module, a run of that module alone.
\<close>

section \<open>Genesis and the end of a block\<close>

text \<open>\<open>EndBlock\<close> of the module \<open>x/rwa\<close> is a no-op.\<close>

definition Rwa_EndBlock :: "('s, 'x) ctx \<Rightarrow> ('s, 'x) ctx outcome" where
  "Rwa_EndBlock c = Ok c"

text \<open>The chain's own modules at the end of \<open>endBlockers\<close>; the first error stops the block.\<close>

definition App_EndBlock :: "('s, 'x) env \<Rightarrow> ('s, 'x) ctx \<Rightarrow> ('s, 'x) ctx outcome" where
  "App_EndBlock L c =
     obind (EndBlocker L c) (\<lambda>c.
     obind (Rwa_EndBlock c) (\<lambda>c.
     Fees_EndBlocker L (SendRestriction L c) c))"

text \<open>
  \<open>genesisModuleOrder\<close> from \<open>x/oracle\<close> on; \<open>sdk\<close> is the genesis of the SDK's modules listed
  between \<open>x/rwa\<close> and \<open>x/fees\<close>.
\<close>

definition App_InitGenesis ::
    "('s, 'x) env \<Rightarrow> (('s, 'x) ctx \<Rightarrow> ('s, 'x) ctx outcome) \<Rightarrow> GenesisState \<Rightarrow> Rwa_GenesisState \<Rightarrow> FeesParams \<Rightarrow>
     ('s, 'x) ctx \<Rightarrow> ('s, 'x) ctx outcome" where
  "App_InitGenesis L sdk oracle rwa fees c =
     obind (InitGenesis L oracle c) (\<lambda>c.
     obind (Rwa_InitGenesis L rwa c) (\<lambda>c.
     obind (sdk c) (\<lambda>c.
     Fees_InitGenesis L fees c)))"

section \<open>What slashing may touch\<close>

text \<open>
  Slashing burns the bond denomination out of the pools of the staking module; the accounts
  of the modules here and the other denominations stay.
\<close>

definition slash_burns :: "'x ext_lib \<Rightarrow> bool" where
  "slash_burns B \<longleftrightarrow> (\<forall>x k r p h x'. Slash B x k r p h = Ok x' \<longrightarrow>
     (\<forall>n\<in>set module_accounts. \<forall>d. GetBalance B x' (GetModuleAddress B n) d = GetBalance B x (GetModuleAddress B n) d) \<and>
     (\<forall>d. d \<noteq> BondDenom \<longrightarrow> GetSupply B x' d = GetSupply B x d))"

inductive slashed :: "'x ext_lib \<Rightarrow> 'x \<Rightarrow> 'x \<Rightarrow> bool" for B where
  slashed_none: "slashed B x x"
| slashed_more: "slashed B x x' \<Longrightarrow> Slash B x' k r p h = Ok x'' \<Longrightarrow> slashed B x x''"

lemma slashed_trans: "slashed B x x' \<Longrightarrow> slashed B x' x'' \<Longrightarrow> slashed B x x''"
  by (rotate_tac, induction rule: slashed.induct) (blast intro: slashed_more)+

lemma slashed_keeps:
  assumes "slash_burns B" and "slashed B x x'"
  shows slashed_account: "n \<in> set module_accounts \<Longrightarrow> GetBalance B x' (GetModuleAddress B n) d = GetBalance B x (GetModuleAddress B n) d"
    and slashed_supply: "d \<noteq> BondDenom \<Longrightarrow> GetSupply B x' d = GetSupply B x d"
proof -
  have "(n \<in> set module_accounts \<longrightarrow> GetBalance B x' (GetModuleAddress B n) d = GetBalance B x (GetModuleAddress B n) d) \<and>
      (d \<noteq> BondDenom \<longrightarrow> GetSupply B x' d = GetSupply B x d)"
    using assms(2)
  proof (induction rule: slashed.induct)
    case (slashed_more x x' k r p h x'')
    then show ?case using assms(1) unfolding slash_burns_def by metis
  qed simp
  then show "n \<in> set module_accounts \<Longrightarrow> GetBalance B x' (GetModuleAddress B n) d = GetBalance B x (GetModuleAddress B n) d"
    and "d \<noteq> BondDenom \<Longrightarrow> GetSupply B x' d = GetSupply B x d" by simp_all
qed

text \<open>The foreign state changes in an oracle's block only by slashing.\<close>

lemma store_ext:
  "store_set L n k v c = Ok c' \<Longrightarrow> ext c' = ext c" "store_delete L n k c = Ok c' \<Longrightarrow> ext c' = ext c"
  by (auto simp: store_set_def store_delete_def obind_eq_Ok set_store_def)

lemma ofold_slashed:
  assumes "\<And>a s s'. a \<in> set as \<Longrightarrow> f a s = Ok s' \<Longrightarrow> slashed B (ext (g s)) (ext (g s'))" and "ofold f as s = Ok s'"
  shows "slashed B (ext (g s)) (ext (g s'))"
  using assms
proof (induction as arbitrary: s)
  case (Cons a as)
  then obtain s1 where s1: "f a s = Ok s1" "ofold f as s1 = Ok s'" by (auto simp: obind_eq_Ok)
  have "slashed B (ext (g s)) (ext (g s1))" by (rule Cons.prems(1) [OF _ s1(1)]) simp
  moreover have "slashed B (ext (g s1)) (ext (g s'))" by (rule Cons.IH [OF Cons.prems(1) s1(2)]) simp_all
  ultimately show ?case by (rule slashed_trans)
qed (simp add: slashed_none)

lemma ofold_delete_ext: "ofold (\<lambda>key. store_delete L n key) ks c = Ok c' \<Longrightarrow> ext c' = ext c"
  by (induction ks arbitrary: c) (auto simp: obind_eq_Ok dest!: store_ext)

lemma keeper_ext:
  "SetAggregatedPrice L ap c = Ok c' \<Longrightarrow> ext c' = ext c" "AppendTWAPEntry L pair d t c = Ok c' \<Longrightarrow> ext c' = ext c"
  "PruneTWAPOlderThan L pair t c = Ok c' \<Longrightarrow> ext c' = ext c" "DeleteAllFeeds L c = Ok c' \<Longrightarrow> ext c' = ext c"
  "IncTotalWindows L val c = Ok (n, c') \<Longrightarrow> ext c' = ext c" "IncMissCounter L val c = Ok (n, c') \<Longrightarrow> ext c' = ext c"
  "ResetValidatorWindows L val c = Ok c' \<Longrightarrow> ext c' = ext c"
  by (auto simp: SetAggregatedPrice_def AppendTWAPEntry_def PruneTWAPOlderThan_def DeleteAllFeeds_def IncTotalWindows_def
      IncMissCounter_def ResetValidatorWindows_def obind_eq_Ok Let_def dest!: store_ext ofold_delete_ext)

lemma slashValidator_slashed: "slashValidator L v rate reason c = Ok c' \<Longrightarrow> slashed (env_keepers L) (ext c) (ext c')"
  by (auto simp: slashValidator_def split: outcome.splits option.splits if_splits intro: slashed_none slashed_more [OF slashed_none])

lemma slash_outlier_slashed: "slash_outlier L vs r thr rate f c = Ok c' \<Longrightarrow> slashed (env_keepers L) (ext c) (ext c')"
  by (auto simp: slash_outlier_def obind_eq_Ok split: if_splits intro: slashed_none slashValidator_slashed)

lemma aggregate_pair_slashed:
  assumes "aggregate_pair L vs t q thr rate pair s = Ok s'"
  shows "slashed (env_keepers L) (ext (snd s)) (ext (snd s'))"
proof -
  have fold_: "ofold (slash_outlier L vs r thr rate) fs c = Ok c' \<Longrightarrow> slashed (env_keepers L) (ext c) (ext c')" for r fs c c'
    by (rule ofold_slashed [where g = "\<lambda>c. c"]) (auto intro: slash_outlier_slashed)
  show ?thesis
    using assms
    by (auto simp: aggregate_pair_def obind_eq_Ok Let_def split: prod.splits if_splits dest!: keeper_ext fold_ intro: slashed_none)
qed

lemma judge_validator_slashed:
  assumes "judge_validator L p live thr rate v c = Ok c'"
  shows "slashed (env_keepers L) (ext c) (ext c')"
proof (cases "ValAddressFromBech32 (env_addr L) (OperatorAddress v)")
  case (Ok val)
  from assms obtain submitted w m where w: "IncTotalWindows L val c = Ok w"
    and m: "(if \<not> list_all (\<lambda>pair. pair \<in> set submitted) live then IncMissCounter L val (snd w)
      else obind (GetMissCounter L val (snd w)) (\<lambda>miss. Ok (miss, snd w))) = Ok m"
    and rest: "(if fst w \<ge> op_MissWindowSize p
      then obind (dec_Quo (env_math L) (LegacyNewDec (env_math L) (fst m)) (LegacyNewDec (env_math L) (fst w))) (\<lambda>missRate.
           obind (if missRate > thr then slashValidator L v rate ''miss'' (snd m) else Ok (snd m)) (\<lambda>c. ResetValidatorWindows L val c))
      else Ok (snd m)) = Ok c'"
    by (simp only: judge_validator_def Ok outcome.case obind_eq_Ok Let_def split_beta) (elim exE conjE, rule that)
  have "ext (snd w) = ext c" using keeper_ext(5) [of L val c "fst w" "snd w"] w by simp
  moreover have "ext (snd m) = ext (snd w)"
    using m keeper_ext(6) [of L val "snd w" "fst m" "snd m"] by (auto simp: obind_eq_Ok split: if_splits)
  moreover have "slashed (env_keepers L) (ext (snd m)) (ext c')"
    using rest by (auto simp: obind_eq_Ok split: if_splits dest!: keeper_ext(7) intro: slashed_none slashValidator_slashed)
  ultimately show ?thesis by simp
qed (use assms in \<open>simp_all add: judge_validator_def slashed_none\<close>)

lemma EndBlocker_slashed:
  assumes "EndBlocker L c = Ok c'"
  shows "slashed (env_keepers L) (ext c) (ext c')"
proof -
  obtain params where p: "GetParams L c = Ok params" using assms by (cases "GetParams L c") (simp_all add: EndBlocker_def)
  obtain m where m: "go_mod (BlockHeight c) (op_VoteWindow params) = Ok m"
    using assms by (cases "go_mod (BlockHeight c) (op_VoteWindow params)") (simp_all add: EndBlocker_def p)
  show ?thesis
  proof (cases "m = 0")
    case True
    obtain vals t q thr orate mthr mrate s c2
      where s: "ofold (aggregate_pair L (validators_by_operator vals) t q thr orate) (op_AcceptList params) ([], c) = Ok s"
        and c2: "ofold (judge_validator L params (fst s) mthr mrate) vals (snd s) = Ok c2" and c': "DeleteAllFeeds L c2 = Ok c'"
      using assms
      by (simp only: EndBlocker_def p m obind.simps True simp_thms if_False obind_eq_Ok Let_def case_prod_unfold) (elim exE conjE, rule that)
    have "slashed (env_keepers L) (ext (snd ([] :: string list, c))) (ext (snd s))"
      by (rule ofold_slashed [OF _ s]) (rule aggregate_pair_slashed)
    moreover have "slashed (env_keepers L) (ext (snd s)) (ext c2)"
      by (rule ofold_slashed [where g = "\<lambda>c. c", OF _ c2]) (rule judge_validator_slashed)
    ultimately show ?thesis using keeper_ext(4) [OF c'] slashed_trans by simp
  qed (use assms in \<open>simp add: EndBlocker_def p m slashed_none\<close>)
qed

section \<open>The chain\<close>

text \<open>
  What the SDK's modules may do between two steps of the modules here: anything that leaves
  the three stores alone, takes no bond out of the account of \<open>x/rwa\<close> and mints none of its
  denominations. A new block begins this way.
\<close>

definition sdk_work :: "('s, 'x) env \<Rightarrow> ('s \<Rightarrow> bytes \<rightharpoonup> bytes) \<Rightarrow> ('s, 'x) ctx \<Rightarrow> ('s, 'x) ctx \<Rightarrow> bool" where
  "sdk_work L view c c' \<longleftrightarrow> elsewhere L view c c' \<and> block_ok c' \<and>
     (\<forall>n\<in>{StoreKey, Rwa_StoreKey, Fees_StoreKey}. multistore c' n = multistore c n)"

text \<open>The amounts of fees stay within what the library's integers multiply without overflow.\<close>

definition fees_small :: "('s, 'x) env \<Rightarrow> ('s \<Rightarrow> bytes \<rightharpoonup> bytes) \<Rightarrow> ('s, 'x) ctx \<Rightarrow> bool" where
  "fees_small L view c \<longleftrightarrow> collected_fees L c < 2 ^ 255 \<and> cumulative_burned L view c < 2 ^ 255"

inductive app_reach :: "('s, 'x) env \<Rightarrow> ('s \<Rightarrow> bytes \<rightharpoonup> bytes) \<Rightarrow> ('s, 'x) ctx \<Rightarrow> bool"
  for L :: "('s, 'x) env" and view :: "'s \<Rightarrow> bytes \<rightharpoonup> bytes" where
  app_genesis: "App_InitGenesis L sdk (genesis_of L p prices vfs) rg fp c = Ok c' \<Longrightarrow>
    (\<And>n. n \<in> {StoreKey, Rwa_StoreKey, Fees_StoreKey} \<Longrightarrow> store_view view n c = Map.empty) \<Longrightarrow> block_ok c \<Longrightarrow>
    genesis_ok L c p prices vfs \<Longrightarrow> genesis_sound L rg (ext c) \<Longrightarrow> FeesParams_Size fp < 2 ^ 16 \<Longrightarrow>
    (\<And>c1 c2 c3. InitGenesis L (genesis_of L p prices vfs) c = Ok c1 \<Longrightarrow> Rwa_InitGenesis L rg c1 = Ok c2 \<Longrightarrow> sdk c2 = Ok c3 \<Longrightarrow>
      sdk_work L view c2 c3 \<and> int_fits (GetSupply (env_keepers L) (ext c3) FeeDenom)) \<Longrightarrow> app_reach L view c'"
| app_set_feeder: "app_reach L view c \<Longrightarrow> SetFeeder L msf c = Ok c' \<Longrightarrow> app_reach L view c'"
| app_submit_feed: "app_reach L view c \<Longrightarrow> feed_msg_small msb \<Longrightarrow> price_of (env_math L) (msb_Price msb) < 2 ^ 255 \<Longrightarrow>
    SubmitFeed L msb c = Ok c' \<Longrightarrow> app_reach L view c'"
| app_oracle_params: "app_reach L view c \<Longrightarrow> params_msg_small mup \<Longrightarrow> UpdateParams L mup c = Ok c' \<Longrightarrow> app_reach L view c'"
| app_rwa: "app_reach L view c \<Longrightarrow> rwa_message L c c' \<Longrightarrow> app_reach L view c'"
| app_fees_params: "app_reach L view c \<Longrightarrow> FeesParams_Size (fmup_Params mf) < 2 ^ 16 \<Longrightarrow> Fees_UpdateParams L mf c = Ok c' \<Longrightarrow>
    app_reach L view c'"
| app_end_block: "app_reach L view c \<Longrightarrow> staking_state (env_keepers L) (ext c) t \<Longrightarrow> fees_small L view c \<Longrightarrow>
    App_EndBlock L c = Ok c' \<Longrightarrow> app_reach L view c'"
| app_sdk: "app_reach L view c \<Longrightarrow> sdk_work L view c c' \<Longrightarrow> app_reach L view c'"

lemma store_keys: "StoreKey \<noteq> Rwa_StoreKey" "StoreKey \<noteq> Fees_StoreKey" "Rwa_StoreKey \<noteq> Fees_StoreKey"
  by (simp_all add: StoreKey_def ModuleName_def Rwa_StoreKey_def Rwa_ModuleName_def Fees_StoreKey_def Fees_ModuleName_def)

lemma store_view_cong: "multistore c' n = multistore c n \<Longrightarrow> store_view view n c' = store_view view n c"
  by (simp add: store_view_def OpenKVStore_def)

lemma fees_cong:
  assumes "multistore c' Fees_StoreKey = multistore c Fees_StoreKey"
  shows "fees_inv L view c' = fees_inv L view c" "cumulative_burned L view c' = cumulative_burned L view c"
    "burn_ratio L view c' = burn_ratio L view c"
  using store_view_cong [OF assms, of view] by (simp_all add: fees_inv_def cumulative_burned_def burn_ratio_def fees_params_def)

lemma block_ok_time: "block_ok c \<Longrightarrow> valid_time (BlockTime c)"
  by (simp add: block_ok_def valid_time_def zero_time_def)

text \<open>A change of the oracle's store, with or without slashing, is none of the business of \<open>x/rwa\<close>.\<close>

lemma slashed_elsewhere:
  assumes "slash_burns (env_keepers L)" and "rwa_account L" and "slashed (env_keepers L) (ext c) (ext c')"
    and "multistore c' Rwa_StoreKey = multistore c Rwa_StoreKey" and "valid_time (BlockTime c')"
  shows "elsewhere L view c c'"
proof -
  have "GetBalance (env_keepers L) (ext c') (ModuleAddress L) BondDenom = GetBalance (env_keepers L) (ext c) (ModuleAddress L) BondDenom"
    using slashed_account [OF assms(1,3), of "''rwa''"] assms(2) by (simp add: module_accounts_def rwa_account_def)
  then show ?thesis
    using assms(5) store_view_cong [OF assms(4)] slashed_supply [OF assms(1,3)] by (simp add: elsewhere_def)
qed

lemma burned_elsewhere:
  assumes "bank_laws (env_keepers L)" and "rwa_account L" and "burned_step L view c c' a" and "valid_time (BlockTime c)"
  shows "elsewhere L view c c'"
proof -
  have "FeeDenom = BondDenom" by (simp add: FeeDenom_def BondDenom_def)
  moreover have "ModuleAddress L \<noteq> GetModuleAddress (env_keepers L) FeeCollectorName"
    using module_not_collector(1) [OF assms(1,2)] by (simp add: FeeCollectorName_def)
  moreover have "store_view view Rwa_StoreKey c' = store_view view Rwa_StoreKey c"
    using assms(3) store_keys by (intro store_view_cong) (simp add: burned_step_def)
  ultimately show ?thesis using assms(3,4) by (simp add: elsewhere_def burned_step_def issued_def)
qed

text \<open>The restriction of \<open>x/rwa\<close> lets the fees be burned.\<close>

lemma SendRestriction_fees: "fees_may_move L (SendRestriction L c)"
proof -
  have "FeeDenom = BondDenom" by (simp add: FeeDenom_def BondDenom_def)
  then show ?thesis by (simp add: fees_may_move_def SendRestriction_Ok)
qed

lemma EndBlocker_step:
  assumes L: "sdk_laws L view" and B: "slash_laws (env_keepers L)" and good: "oracle_good L view c"
    and st: "staking_state (env_keepers L) (ext c) t" and c': "EndBlocker L c = Ok c'"
  shows "\<exists>S. block_step L view c c' S"
proof (cases "at_window_end (oracle_of L view c) c")
  case True
  have inv: "oracle_inv L view c" using good by (simp add: oracle_good_def)
  obtain vals where vals: "GetBondedValidatorsByPower (env_keepers L) (ext c) = Ok vals"
    using c' True by (auto simp: EndBlocker_def GetParams_eq(1) [OF L inv] at_window_end_def obind_eq_Ok)
  show ?thesis using EndBlocker_window [OF L B inv _ st _ _ vals True] good c' by (auto simp: oracle_good_def)
next
  case False
  then have "c' = c" using EndBlocker_off [OF L _ False] good c' by (simp add: oracle_good_def)
  then show ?thesis using block_refl [of L view c] good by (auto simp: oracle_good_def)
qed

text \<open>The end of a block: once the oracle's part returns, so does the rest, and it burns the share of the fees.\<close>

lemma App_EndBlock_after:
  assumes L: "sdk_laws L view" and B: "bank_laws (env_keepers L)" and sl: "slash_laws (env_keepers L)" "slash_burns (env_keepers L)"
    and good: "oracle_good L view c" and fees: "fees_inv L view c" "0 \<le> cumulative_burned L view c" "fees_small L view c"
    and st: "staking_state (env_keepers L) (ext c) t" and c1: "EndBlocker L c = Ok c1"
  shows "\<exists>c'. App_EndBlock L c = Ok c' \<and> burned_step L view c1 c' (burn_amount L view c) \<and> slashed (env_keepers L) (ext c) (ext c1) \<and>
    (\<forall>n. n \<noteq> StoreKey \<longrightarrow> multistore c1 n = multistore c n) \<and> BlockTime c1 = BlockTime c \<and> BlockHeight c1 = BlockHeight c \<and>
    collected_fees L c1 = collected_fees L c \<and> cumulative_burned L view c1 = cumulative_burned L view c"
proof -
  obtain S where S: "block_step L view c c1 S" using EndBlocker_step [OF L sl(1) good st c1] by blast
  have slashed: "slashed (env_keepers L) (ext c) (ext c1)" by (rule EndBlocker_slashed [OF c1])
  have "multistore c1 Fees_StoreKey = multistore c Fees_StoreKey" using S store_keys by (simp add: block_step_def)
  note same = fees_cong [OF this, of L view]
  have coll: "collected_fees L c1 = collected_fees L c"
    using slashed_account [OF sl(2) slashed, of FeeCollectorName FeeDenom] by (simp add: collected_fees_def module_accounts_def FeeCollectorName_def)
  have amount: "burn_amount L view c1 = burn_amount L view c" by (simp add: burn_amount_def coll same)
  obtain c' where "Fees_EndBlocker L (SendRestriction L c1) c1 = Ok c'" "burned_step L view c1 c' (burn_amount L view c)"
    using Fees_EndBlocker_step [OF L B _ SendRestriction_fees, of c1] fees by (auto simp: same coll amount fees_small_def)
  then show ?thesis using S slashed coll same(2) c1 by (auto simp: App_EndBlock_def Rwa_EndBlock_def block_step_def)
qed

section \<open>Genesis\<close>

lemma store_frames:
  "store_set L n k v c = Ok c' \<Longrightarrow> frame n c c'" "store_delete L n k c = Ok c' \<Longrightarrow> frame n c c'"
  by (auto simp: store_set_def store_delete_def obind_eq_Ok)

lemma ofold_frame:
  assumes "\<And>a c c'. f a c = Ok c' \<Longrightarrow> frame n c c'" and "ofold f as c = Ok c'"
  shows "frame n c c'"
  using assms(2) by (induction as arbitrary: c) (auto simp: obind_eq_Ok intro: frame_trans dest: assms(1))

lemma Rwa_InitGenesis_frame:
  assumes "Rwa_InitGenesis L gs c = Ok c'"
  shows "frame Rwa_StoreKey c c'"
proof -
  obtain c1 c2 where c1: "Rwa_SetParams L (rgs_Params gs) c = Ok c1" and c2: "ofold (\<lambda>a c. must (SetAsset L a c)) (rgs_Assets gs) c1 = Ok c2"
    and c': "ofold (init_restriction L) (rgs_Restrictions gs) c2 = Ok c'"
    using assms by (auto simp: Rwa_InitGenesis_def obind_eq_Ok)
  have "frame Rwa_StoreKey c c1" using c1 by (auto simp: Rwa_SetParams_def obind_eq_Ok intro: store_frames)
  moreover have "frame Rwa_StoreKey c1 c2"
    by (rule ofold_frame [OF _ c2]) (auto simp: SetAsset_def obind_eq_Ok dest!: store_frames intro: frame_trans)
  moreover have "frame Rwa_StoreKey c2 c'"
    by (rule ofold_frame [OF _ c'])
      (auto simp: init_restriction_def AddDenylist_def AddAllowlist_def obind_eq_Ok split: if_splits dest!: store_frames)
  ultimately show ?thesis by (blast intro: frame_trans)
qed

lemma App_InitGenesis_reach:
  assumes L: "sdk_laws L view" and burns: "slash_burns (env_keepers L)" and acc: "rwa_account L"
    and ok: "App_InitGenesis L sdk (genesis_of L p prices vfs) rg fp c = Ok c'"
    and empty: "\<And>n. n \<in> {StoreKey, Rwa_StoreKey, Fees_StoreKey} \<Longrightarrow> store_view view n c = Map.empty" and blk: "block_ok c"
    and gen: "genesis_ok L c p prices vfs" "genesis_sound L rg (ext c)" "FeesParams_Size fp < 2 ^ 16"
    and sdk: "\<And>c1 c2 c3. InitGenesis L (genesis_of L p prices vfs) c = Ok c1 \<Longrightarrow> Rwa_InitGenesis L rg c1 = Ok c2 \<Longrightarrow> sdk c2 = Ok c3 \<Longrightarrow>
      sdk_work L view c2 c3 \<and> int_fits (GetSupply (env_keepers L) (ext c3) FeeDenom)"
  shows "oracle_reach L view c' \<and> rwa_reach L view c' \<and> fees_inv L view c' \<and> cumulative_burned L view c' = 0"
proof -
  obtain c1 c2 c3 where c1: "InitGenesis L (genesis_of L p prices vfs) c = Ok c1" and c2: "Rwa_InitGenesis L rg c1 = Ok c2"
    and c3: "sdk c2 = Ok c3" and c': "Fees_InitGenesis L fp c3 = Ok c'"
    using ok by (auto simp: App_InitGenesis_def obind_eq_Ok)
  have f1: "frame StoreKey c c1" using InitGenesis_eq [OF L empty gen(1)] c1 by (auto simp: oracle_step_def)
  have f2: "frame Rwa_StoreKey c1 c2" by (rule Rwa_InitGenesis_frame [OF c2])
  note work = sdk [OF c1 c2 c3, unfolded sdk_work_def]
  have "multistore c3 Fees_StoreKey = multistore c Fees_StoreKey" using f1 f2 work store_keys by (simp add: frame_def)
  then have "store_view view Fees_StoreKey c3 = Map.empty" using store_view_cong [of c3 Fees_StoreKey c view] empty by simp
  moreover have "fees_valid (env_math L) fp"
    using c' FeesParams_Validate_iff [OF sdk_math [OF L]] by (auto simp: Fees_InitGenesis_def Fees_GenesisState_Validate_def obind_eq_Ok)
  ultimately have f3: "frame Fees_StoreKey c3 c'" and fees: "fees_inv L view c'" "cumulative_burned L view c' = 0"
    using Fees_InitGenesis_step [OF L _ _ gen(3), of c3] work c' by auto
  have blocks: "block_ok c1" "block_ok c2" "block_ok c3" "block_ok c'"
    using blk work f1 f2 f3 by (simp_all add: block_ok_def frame_def)
  have "oracle_reach L view c1" by (rule oracle_reach.genesis [OF empty blk gen(1) c1]) simp
  then have "oracle_reach L view c2" by (rule oracle_reach.others) (use blocks f2 store_keys in \<open>simp_all add: frame_def\<close>)
  then have "oracle_reach L view c3" by (rule oracle_reach.others) (use blocks work in simp_all)
  then have orc: "oracle_reach L view c'" by (rule oracle_reach.others) (use blocks f3 store_keys in \<open>simp_all add: frame_def\<close>)
  have "store_view view Rwa_StoreKey c1 = Map.empty" using store_view_cong [of c1 Rwa_StoreKey c view] f1 store_keys empty by (simp add: frame_def)
  then have "rwa_reach L view c2" using reach_genesis [OF c2] gen(2) block_ok_time [OF blocks(1)] f1 by (simp add: frame_def)
  then have "rwa_reach L view c3" using work by (blast intro: reach_next next_elsewhere)
  moreover have "elsewhere L view c3 c'"
    using slashed_elsewhere [OF burns acc, of c3 c'] f3 store_keys block_ok_time [OF blocks(4)] by (simp add: frame_def slashed_none)
  ultimately have "rwa_reach L view c'" by (blast intro: reach_next next_elsewhere)
  then show ?thesis using orc fees by blast
qed

section \<open>Every run is a run of each module\<close>

lemma oracle_message_keeps:
  assumes burns: "slash_burns (env_keepers L)" and acc: "rwa_account L"
    and mods: "rwa_reach L view c \<and> fees_inv L view c \<and> 0 \<le> cumulative_burned L view c" and blk: "block_ok c"
    and ex: "\<exists>S. block_step L view c c' S \<and> ext c' = ext c"
  shows "rwa_reach L view c' \<and> fees_inv L view c' \<and> 0 \<le> cumulative_burned L view c'"
proof -
  obtain S where step: "block_step L view c c' S" "ext c' = ext c" using ex by blast
  have "multistore c' Rwa_StoreKey = multistore c Rwa_StoreKey" "multistore c' Fees_StoreKey = multistore c Fees_StoreKey"
    using step store_keys by (simp_all add: block_step_def)
  moreover from this have "elsewhere L view c c'"
    using slashed_elsewhere [OF burns acc, of c c'] block_ok_time [OF blk] step by (simp add: slashed_none block_step_def)
  ultimately show ?thesis using mods fees_cong [of c' c L view] by (auto intro: reach_next next_elsewhere)
qed

lemma fees_params_keeps:
  assumes L: "sdk_laws L view" and B: "bank_laws (env_keepers L)" and sl: "slash_laws (env_keepers L)" "slash_burns (env_keepers L)"
    and acc: "rwa_account L" and mods: "oracle_reach L view c \<and> rwa_reach L view c \<and> fees_inv L view c \<and> 0 \<le> cumulative_burned L view c"
    and small: "FeesParams_Size (fmup_Params mf) < 2 ^ 16" and ok: "Fees_UpdateParams L mf c = Ok c'"
  shows "oracle_reach L view c' \<and> rwa_reach L view c' \<and> fees_inv L view c' \<and> 0 \<le> cumulative_burned L view c'"
proof -
  obtain c1 e where c1: "Fees_SetParams L (fmup_Params mf) c = Ok c1" "c' = EmitEvent e c1" and "fees_valid (env_math L) (fmup_Params mf)"
    using ok FeesParams_Validate_iff [OF sdk_math [OF L]]
    by (auto simp: Fees_UpdateParams_def Fees_MsgUpdateParams_ValidateBasic_def obind_eq_Ok split: if_splits)
  then have c': "frame Fees_StoreKey c c1" "fees_inv L view c1" "cumulative_burned L view c1 = cumulative_burned L view c"
    using Fees_SetParams_step [OF L _ _ small, of c] mods by auto
  have blk: "block_ok c" using reach_good [OF L sl(1)] mods by (auto simp: oracle_good_def)
  then have "oracle_reach L view c'"
    using mods c' c1(2) store_keys
    by (intro oracle_reach.others [of L view c c']) (auto simp: frame_def block_ok_def EmitEvent_def)
  moreover have "elsewhere L view c c'"
    using slashed_elsewhere [OF sl(2) acc, of c c'] c' c1(2) store_keys block_ok_time [OF blk]
    by (simp add: frame_def slashed_none EmitEvent_def)
  ultimately show ?thesis using mods c' c1(2) by (auto intro: reach_next next_elsewhere)
qed

lemma App_EndBlock_keeps:
  assumes L: "sdk_laws L view" and B: "bank_laws (env_keepers L)" and sl: "slash_laws (env_keepers L)" "slash_burns (env_keepers L)"
    and acc: "rwa_account L" and mods: "oracle_reach L view c \<and> rwa_reach L view c \<and> fees_inv L view c \<and> 0 \<le> cumulative_burned L view c"
    and st: "staking_state (env_keepers L) (ext c) t" and fees: "fees_small L view c" and ok: "App_EndBlock L c = Ok c'"
  shows "oracle_reach L view c' \<and> rwa_reach L view c' \<and> fees_inv L view c' \<and> 0 \<le> cumulative_burned L view c'"
proof -
  have good: "oracle_good L view c" using reach_good [OF L sl(1)] mods by blast
  obtain c1 where c1: "EndBlocker L c = Ok c1" using ok by (auto simp: App_EndBlock_def obind_eq_Ok)
  have burned: "burned_step L view c1 c' (burn_amount L view c)" and slashed: "slashed (env_keepers L) (ext c) (ext c1)"
    and kept: "\<forall>n. n \<noteq> StoreKey \<longrightarrow> multistore c1 n = multistore c n" "BlockTime c1 = BlockTime c" "BlockHeight c1 = BlockHeight c"
      "cumulative_burned L view c1 = cumulative_burned L view c"
    using App_EndBlock_after [OF L B sl good _ _ fees st c1] mods ok by auto
  have "oracle_reach L view c1" using oracle_reach.end_block [OF _ st c1] mods by blast
  then have "oracle_reach L view c'"
    by (rule oracle_reach.others) (use burned kept good store_keys in \<open>auto simp: burned_step_def block_ok_def oracle_good_def\<close>)
  moreover have "valid_time (BlockTime c1)" using good kept block_ok_time [of c] by (simp add: oracle_good_def)
  then have "elsewhere L view c c1" "elsewhere L view c1 c'"
    using slashed_elsewhere [OF sl(2) acc slashed] burned_elsewhere [OF B acc burned] kept store_keys by auto
  then have "rwa_reach L view c'" using reach_next [OF reach_next [OF _ next_elsewhere] next_elsewhere] mods by blast
  moreover have "0 \<le> burn_amount L view c" using burn_amount_range [OF L B] mods by blast
  ultimately show ?thesis using mods burned kept(4) by (simp add: burned_step_def)
qed

lemma app_reach_modules:
  assumes L: "sdk_laws L view" and B: "bank_laws (env_keepers L)" and sl: "slash_laws (env_keepers L)" "slash_burns (env_keepers L)"
    and acc: "rwa_account L" and reach: "app_reach L view c"
  shows "oracle_reach L view c \<and> rwa_reach L view c \<and> fees_inv L view c \<and> 0 \<le> cumulative_burned L view c"
  using reach
proof (induction rule: app_reach.induct)
  case (app_genesis sdk p prices vfs rg fp c c')
  note run = app_genesis.hyps(1) and empty = app_genesis.hyps(2) and gen = app_genesis.hyps(3-6) and sdk = app_genesis.hyps(7)
  have "oracle_reach L view c' \<and> rwa_reach L view c' \<and> fees_inv L view c' \<and> cumulative_burned L view c' = 0"
    by (rule App_InitGenesis_reach [OF L sl(2) acc run _ gen]) (erule empty, erule (2) sdk)
  then show ?case by simp
next
  case (app_set_feeder c msf c')
  have good: "oracle_good L view c" using reach_good [OF L sl(1)] app_set_feeder.IH by blast
  obtain val feeder where "ValAddressFromBech32 (env_addr L) (msf_Validator msf) = Ok val"
      "AccAddressFromBech32 (env_addr L) (msf_Feeder msf) = Ok feeder" using app_set_feeder.hyps(2) by (auto simp: SetFeeder_code)
  then have "\<exists>S. block_step L view c c' S \<and> ext c' = ext c"
    using SetFeeder_iff(2) [OF L _ _ _ app_set_feeder.hyps(2)] good by (auto simp: oracle_good_def)
  moreover have "block_ok c" using good by (simp add: oracle_good_def)
  moreover have "oracle_reach L view c'" using oracle_reach.set_feeder [OF _ app_set_feeder.hyps(2)] app_set_feeder.IH by blast
  ultimately show ?case using oracle_message_keeps [OF sl(2) acc] app_set_feeder.IH by blast
next
  case (app_submit_feed c msb c')
  have good: "oracle_good L view c" using reach_good [OF L sl(1)] app_submit_feed.IH by blast
  obtain val where "ValAddressFromBech32 (env_addr L) (msb_Validator msb) = Ok val"
    using app_submit_feed.hyps(4) by (auto simp: SubmitFeed_def obind_eq_Ok)
  then have "\<exists>S. block_step L view c c' S \<and> ext c' = ext c"
    using SubmitFeed_iff(2) [OF L _ app_submit_feed.hyps(2) _ app_submit_feed.hyps(4)] good by (auto simp: oracle_good_def)
  moreover have "block_ok c" using good by (simp add: oracle_good_def)
  moreover have "oracle_reach L view c'" using oracle_reach.submit_feed [OF _ app_submit_feed.hyps(2-4)] app_submit_feed.IH by blast
  ultimately show ?case using oracle_message_keeps [OF sl(2) acc] app_submit_feed.IH by blast
next
  case (app_oracle_params c mup c')
  have good: "oracle_good L view c" using reach_good [OF L sl(1)] app_oracle_params.IH by blast
  then have "\<exists>S. block_step L view c c' S \<and> ext c' = ext c"
    using UpdateParams_iff(2) [OF L _ app_oracle_params.hyps(2,3)] by (auto simp: oracle_good_def)
  moreover have "block_ok c" using good by (simp add: oracle_good_def)
  moreover have "oracle_reach L view c'" using oracle_reach.update_params [OF _ app_oracle_params.hyps(2,3)] app_oracle_params.IH by blast
  ultimately show ?case using oracle_message_keeps [OF sl(2) acc] app_oracle_params.IH by blast
next
  case (app_rwa c c')
  have good: "rwa_good L view c" using rwa_reach_good [OF L B acc] app_rwa.IH by blast
  obtain S x where did: "rwa_done L view c c' S x" using rwa_message_frame [OF L B acc app_rwa.hyps(2) good] by blast
  have "block_ok c" using reach_good [OF L sl(1)] app_rwa.IH by (auto simp: oracle_good_def)
  then have "oracle_reach L view c'"
    using app_rwa.IH did store_keys by (intro oracle_reach.others [of L view c c']) (auto simp: rwa_done_def block_ok_def)
  moreover have "multistore c' Fees_StoreKey = multistore c Fees_StoreKey" using did store_keys by (simp add: rwa_done_def)
  ultimately show ?case using app_rwa fees_cong [of c' c L view] by (auto intro: reach_next next_message)
next
  case (app_fees_params c mf c')
  then show ?case using fees_params_keeps [OF L B sl acc] by blast
next
  case (app_end_block c t c')
  then show ?case using App_EndBlock_keeps [OF L B sl acc] by blast
next
  case (app_sdk c c')
  then have "oracle_reach L view c'" by (intro oracle_reach.others [of L view c c']) (auto simp: sdk_work_def)
  then show ?case using app_sdk fees_cong [of c' c L view] by (auto simp: sdk_work_def intro: reach_next next_elsewhere)
qed

section \<open>A sample application\<close>

lemma ref_slash_burns: "slash_burns ref_keepers"
proof -
  have burn: "issued ref_keepers x x' (ref_module ''bonded_tokens_pool'') ''uvtx'' (- a)"
    if "ref_burn x (ref_module ''bonded_tokens_pool'') [(''uvtx'', a)] = Ok x'" for x x' a
    using BurnCoins_issued [OF ref_bank_laws, of x "''bonded_tokens_pool''" "''uvtx''" a x'] that by (simp add: ref_keepers_def)
  have pool: "ref_module n \<noteq> ref_module ''bonded_tokens_pool''" if "n \<in> set module_accounts" for n
    using that by (auto simp: module_accounts_def ref_module_def)
  have keepers: "Slash ref_keepers = ref_slash" "GetModuleAddress ref_keepers = ref_module" by (simp_all add: ref_keepers_def)
  show ?thesis
    unfolding slash_burns_def keepers
    by (auto simp: ref_slash_def Let_def issued_def BondDenom_def pool split: if_splits dest!: burn)
qed

definition app_chain :: ref_chain where
  "app_chain = \<lparr>rc_coins = [(''module:rwa'', ''uvtx'', 10000000000), (''I'', ''uvtx'', 70), (''module:fee_collector'', ''uvtx'', 999),
     (ref_module ''bonded_tokens_pool'', ''uvtx'', 1000)], rc_validators = sample_vals, rc_powers = [(''A'', 5), (''B'', 4), (''C'', 3)]\<rparr>"

definition app_asset :: AssetRecord where
  "app_asset = sample_asset\<lparr>ar_Status := DRAFT, ar_OraclePair := ''VTX:USD'', ar_NotionalMinted := int_String ref_math 0, ar_AttestedPrice := ''''\<rparr>"

definition app_sample :: "(ref_store, ref_chain) ctx \<Rightarrow> bool" where
  "app_sample c \<longleftrightarrow> app_reach ref_env ref_view c \<and> ext c = app_chain \<and> BlockTime c = ref_now \<and> BlockHeight c = 10 \<and>
     oracle_of ref_env ref_view c = empty_oracle\<lparr>os_params := DefaultParams, os_prices := [''VTX:USD'' \<mapsto> sample_price (ref_now - 300 * Second)]\<rparr> \<and>
     rw_assets (rwa_of ref_env ref_view c) = [''gold'' \<mapsto> app_asset] \<and>
     fees_params ref_env ref_view c = Fees_DefaultParams ref_math \<and> cumulative_burned ref_env ref_view c = 0"

lemma app_asset_ok: "asset_ok ref_env app_asset"
  and app_asset_valid: "validate_asset ref_math ref_addr (Some 10000000000) app_asset [] = Ok [ar_AssetId app_asset]"
proof -
  have pair: "Rwa_pairRegex ''VTX:USD''" by (simp add: Rwa_pairRegex_def base_quote_def upper_alnum_def byte_val_def)
  have zero: "NewIntFromString ref_math (int_String ref_math 0) = Some 0" "length (int_String ref_math 0) < 128"
    by (simp_all add: int_roundtrip [OF ref_math_laws] int_String_short [OF ref_math_laws] int_fits_def)
  show "asset_ok ref_env app_asset"
    using sample_amounts zero sample_issuer sample_slug
    by (simp add: asset_ok_def app_asset_def sample_asset_def asset_small_def positive_amount_def status_defs BuildDenom_def RWADenomPrefix_def)
  show "validate_asset ref_math ref_addr (Some 10000000000) app_asset [] = Ok [ar_AssetId app_asset]"
    using sample_amounts zero sample_issuer sample_slug pair by (simp add: validate_asset_def app_asset_def sample_asset_def status_defs)
qed
lemma app_genesis_sound: "genesis_sound ref_env \<lparr>rgs_Params = Rwa_DefaultParams ref_math, rgs_Assets = [app_asset], rgs_Restrictions = []\<rparr> app_chain"
proof -
  have amounts: "bond_of ref_math app_asset = 10000000000" "notional_of ref_math app_asset = 0"
    using sample_amounts(1) by (simp_all add: app_asset_def sample_asset_def amount_of_def int_roundtrip [OF ref_math_laws] int_fits_def)
  have status: "ar_Status app_asset = DRAFT" "ar_Issuer app_asset = ''vtx1I''" "ar_Denom app_asset = ''rwa/gold''"
    by (simp_all add: app_asset_def sample_asset_def)
  have bank: "GetBalance ref_keepers app_chain ''module:rwa'' BondDenom = 10000000000" "GetSupply ref_keepers app_chain ''rwa/gold'' = 0"
    "GetSupply ref_keepers app_chain (BuildDenom i) = 0" for i
    by (simp_all add: ref_keepers_def app_chain_def BondDenom_def BuildDenom_def RWADenomPrefix_def ref_module_def)
  have "record_backed ref_env app_chain app_asset"
    using amounts bank sample_issuer by (simp add: record_backed_def sample_module status status_defs)
  moreover have "locked_bond ref_math app_asset = 10000000000" using amounts by (simp add: locked_bond_def status status_defs)
  moreover have "RWAParams_Size (Rwa_DefaultParams ref_math) < 2 ^ 30"
    using Rwa_DefaultParams_ok [OF ref_math_laws] by (simp add: rwa_params_ok_def)
  ultimately show ?thesis using app_asset_ok bank by (simp add: genesis_sound_def sample_module)
qed

lemma app_sample_exists: "\<exists>c. app_sample c"
proof -
  let ?c = "ref_ctx app_chain" and ?ap = "sample_price (ref_now - 300 * Second)" and ?fp = "Fees_DefaultParams ref_math"
  let ?rg = "\<lparr>rgs_Params = Rwa_DefaultParams ref_math, rgs_Assets = [app_asset], rgs_Restrictions = []\<rparr>"
  have blk: "block_ok ?c" by (simp add: block_ok_def is_i64_def ref_now_def Second_def)
  have gen: "genesis_ok ref_env ?c DefaultParams [?ap] []"
    using VTX_USD_ok VTX_USD_accepted sample_price_ok(2) DefaultParams_ok [OF ref_math_laws]
    by (simp add: genesis_ok_def delegations_ok_def genesis_price_ok_def sample_price_def is_i64_def valid_time_def zero_time_def ref_now_def Second_def)
  obtain c1 where c1: "InitGenesis ref_env (genesis_of ref_env DefaultParams [?ap] []) ?c = Ok c1"
      "oracle_step ref_env ref_view ?c c1 (empty_oracle\<lparr>os_params := DefaultParams, os_prices := [''VTX:USD'' \<mapsto> ?ap]\<rparr>)"
    using InitGenesis_eq [OF ref_sdk_laws ref_ctx_store gen] by (auto simp: empty_oracle_def sample_price_def)
  have f1: "frame StoreKey ?c c1" using c1(2) by (simp add: oracle_step_def)
  have "store_view ref_view Rwa_StoreKey c1 = Map.empty"
    using store_view_cong [of c1 Rwa_StoreKey ?c ref_view] f1 store_keys ref_ctx_store [of Rwa_StoreKey] by (simp add: frame_def)
  then obtain c2 where c2: "Rwa_InitGenesis ref_env ?rg c1 = Ok c2" and f2: "frame Rwa_StoreKey c1 c2"
      and assets: "rw_assets (rwa_of ref_env ref_view c2) = [ar_AssetId app_asset \<mapsto> app_asset]"
    using Rwa_InitGenesis_one [OF _ app_asset_ok app_asset_valid] by blast
  have ext: "ext c2 = app_chain" "BlockTime c2 = ref_now" "BlockHeight c2 = 10" using f1 f2 by (simp_all add: frame_def)
  have fits: "int_fits (GetSupply ref_keepers app_chain FeeDenom)" by (simp add: ref_keepers_def app_chain_def FeeDenom_def int_fits_def)
  have "store_view ref_view Fees_StoreKey c2 = Map.empty"
    using store_view_cong [of c2 Fees_StoreKey ?c ref_view] f1 f2 store_keys ref_ctx_store [of Fees_StoreKey] by (simp add: frame_def)
  moreover have small: "FeesParams_Size ?fp < 2 ^ 16" by (rule Fees_DefaultParams_small)
  ultimately obtain c3 where c3: "Fees_InitGenesis ref_env ?fp c2 = Ok c3" and f3: "frame Fees_StoreKey c2 c3"
      and fees: "fees_params ref_env ref_view c3 = ?fp" "cumulative_burned ref_env ref_view c3 = 0"
    using Fees_InitGenesis_step [OF ref_sdk_laws, of c2 ?fp] Fees_DefaultParams_valid [OF ref_math_laws] fits ext by auto
  have "sdk_work ref_env ref_view c2 c2"
    using blk ext by (simp add: sdk_work_def elsewhere_def block_ok_def valid_time_def zero_time_def ref_now_def Second_def)
  then have "app_reach ref_env ref_view c3"
    using c1(1) c2 c3 ext fits blk gen app_genesis_sound small
    by (intro app_genesis [where sdk = Ok and c = ?c and p = DefaultParams and prices = "[?ap]" and vfs = "[]" and rg = ?rg and fp = ?fp])
      (auto simp: App_InitGenesis_def ref_ctx_store)
  moreover have "oracle_of ref_env ref_view c3 = oracle_of ref_env ref_view c1" "rwa_of ref_env ref_view c3 = rwa_of ref_env ref_view c2"
    using store_view_cong [of c3 StoreKey c1 ref_view] store_view_cong [of c3 Rwa_StoreKey c2 ref_view] f2 f3 store_keys
    by (simp_all add: oracle_of_def rwa_of_def frame_def)
  moreover have "oracle_of ref_env ref_view c1 = empty_oracle\<lparr>os_params := DefaultParams, os_prices := [''VTX:USD'' \<mapsto> ?ap]\<rparr>"
    using c1(2) by (simp add: oracle_step_def)
  moreover have "ar_AssetId app_asset = ''gold''" by (simp add: app_asset_def sample_asset_def)
  ultimately show ?thesis using fees assets f3 ext by (intro exI [of _ c3]) (simp add: app_sample_def frame_def)
qed

end
