(* ===== verification/Feeder_Price.thy ===== *)
theory Feeder_Price
  imports Reference
begin

text \<open>
  The price side of the feeder sidecar: \<open>feeder/feeder/aggregate.go\<close> (median over the
  sources, rejection of deviating ones), \<open>cache.go\<close>, \<open>provider/\<close> (the three sources and
  the registry) and the tick of \<open>priceloop.go\<close>. HTTP, JSON decoding and float formatting
  are arguments; metrics and logs are not modelled.
\<close>

section \<open>Aggregation over the sources\<close>

definition ErrInsufficientSources :: error where
  "ErrInsufficientSources = FmtError ''insufficient healthy price sources''"

definition Median :: "math_lib \<Rightarrow> dec list \<Rightarrow> dec outcome" where
  "Median M prices =
     (let n = length prices
      in if n = 0 then Err (FmtError ''median of empty set'')
         else let sorted = sort_slice (<) prices
              in if n mod 2 = 1 then Ok (sorted ! (n div 2))
                 else let lo = sorted ! (n div 2 - 1); hi = sorted ! (n div 2)
                      in obind (dec_Add M lo hi) (\<lambda>s. dec_QuoInt64 M s 2))"

text \<open>The filtering loop of \<open>DropDeviating\<close>.\<close>

fun within_band :: "math_lib \<Rightarrow> dec \<Rightarrow> dec \<Rightarrow> dec list \<Rightarrow> dec list outcome" where
  "within_band M mid band [] = Ok []"
| "within_band M mid band (p # ps) =
     obind (dec_Sub M p mid) (\<lambda>diff.
     obind (within_band M mid band ps) (\<lambda>out.
     Ok (if \<bar>diff\<bar> \<le> band then p # out else out)))"

definition DropDeviating :: "math_lib \<Rightarrow> dec list \<Rightarrow> dec \<Rightarrow> dec list outcome" where
  "DropDeviating M prices maxDeviation =
     (if length prices = 0 then Ok prices
      else case Median M prices of
             Panic \<Rightarrow> Panic
           | Err _ \<Rightarrow> Ok prices
           | Ok mid \<Rightarrow>
               if \<not> mid > 0 then Ok prices
               else obind (dec_Mul M mid maxDeviation) (\<lambda>band. within_band M mid band prices))"

definition CrossSourceMedian :: "math_lib \<Rightarrow> dec list \<Rightarrow> dec \<Rightarrow> int \<Rightarrow> dec outcome" where
  "CrossSourceMedian M prices maxDeviation minProviders =
     (if int (length prices) < minProviders then Err ErrInsufficientSources
      else obind (DropDeviating M prices maxDeviation) (\<lambda>filtered.
             if int (length filtered) < minProviders then Err ErrInsufficientSources
             else Median M filtered))"

section \<open>The cache\<close>

record cacheEntry =
  ce_price :: dec
  ce_at :: time
  ce_healthy :: bool

type_synonym cache = "string \<rightharpoonup> cacheEntry"

definition NewCache :: cache where
  "NewCache = Map.empty"

definition Cache_Set :: "string \<Rightarrow> dec \<Rightarrow> time \<Rightarrow> cache \<Rightarrow> cache" where
  "Cache_Set pair price t m = m(pair \<mapsto> \<lparr>ce_price = price, ce_at = t, ce_healthy = True\<rparr>)"

text \<open>A pair not seen before gets the zero entry (a nil price), unhealthy.\<close>

definition Cache_MarkUnhealthy :: "string \<Rightarrow> cache \<Rightarrow> cache" where
  "Cache_MarkUnhealthy pair m =
     (let e = (case m pair of Some e \<Rightarrow> e | None \<Rightarrow> \<lparr>ce_price = 0, ce_at = zero_time, ce_healthy = False\<rparr>)
      in m(pair \<mapsto> e\<lparr>ce_healthy := False\<rparr>))"

definition Cache_Fresh :: "string \<Rightarrow> duration \<Rightarrow> time \<Rightarrow> cache \<Rightarrow> dec option" where
  "Cache_Fresh pair maxAge now m =
     (case m pair of
        None \<Rightarrow> None
      | Some e \<Rightarrow>
          if \<not> ce_healthy e then None
          else if time_sub now (ce_at e) > maxAge then None
          else Some (ce_price e))"

section \<open>Providers\<close>

text \<open>A provider is its name and, for a symbol, the outcome of fetching it now.\<close>

record price_provider =
  pv_Name :: string
  pv_Fetch :: "string \<Rightarrow> dec outcome"

fun build_providers ::
    "(string \<rightharpoonup> 'o \<Rightarrow> price_provider outcome) \<Rightarrow> 'o \<Rightarrow> string list \<Rightarrow> price_provider list outcome" where
  "build_providers registry opts [] = Ok []"
| "build_providers registry opts (n # ns) =
     (case registry n of
        None \<Rightarrow> Err (FmtError ''unknown provider'')
      | Some c \<Rightarrow>
          (case c opts of
             Panic \<Rightarrow> Panic
           | Err _ \<Rightarrow> Err (FmtError ''init provider'')
           | Ok p \<Rightarrow> obind (build_providers registry opts ns) (\<lambda>out. Ok (p # out))))"

text \<open>The static provider; its option is the association list of configured prices.\<close>

fun parse_static :: "math_lib \<Rightarrow> (string \<times> string) list \<Rightarrow> (string \<times> dec) list outcome" where
  "parse_static M [] = Ok []"
| "parse_static M ((symb, s) # rest) =
     (case LegacyNewDecFromStr M s of
        Panic \<Rightarrow> Panic
      | Err _ \<Rightarrow> Err (FmtError ''static price'')
      | Ok d \<Rightarrow> obind (parse_static M rest) (\<lambda>parsed. Ok ((symb, d) # parsed)))"

definition static_provider :: "math_lib \<Rightarrow> (string \<times> string) list \<Rightarrow> price_provider outcome" where
  "static_provider M prices =
     obind (parse_static M prices) (\<lambda>parsed.
     Ok \<lparr>pv_Name = ''static'',
         pv_Fetch = (\<lambda>symbol. case map_of parsed symbol of
                        None \<Rightarrow> Err (FmtError ''static: no price for symbol'')
                      | Some d \<Rightarrow> Ok d)\<rparr>)"

text \<open>
  \<open>http_get\<close> gives the status and the body for a URL path with the escaped symbol in it,
  \<open>decode\<close> the field \<open>price\<close> of the body.
\<close>

definition binance_Fetch ::
    "math_lib \<Rightarrow> (string \<Rightarrow> (int \<times> string) outcome) \<Rightarrow> (string \<Rightarrow> string outcome) \<Rightarrow> string \<Rightarrow> dec outcome" where
  "binance_Fetch M http_get decode symbol =
     obind (http_get symbol) (\<lambda>(status, body).
       if status \<noteq> 200 then Err (FmtError ''binance: status'')
       else case decode body of
              Panic \<Rightarrow> Panic
            | Err _ \<Rightarrow> Err (FmtError ''binance: decode'')
            | Ok price \<Rightarrow>
                if price = '''' then Err (FmtError ''binance: empty price'')
                else LegacyNewDecFromStr M price)"

text \<open>\<open>decode\<close> gives the nested map of the body, its numbers already formatted with \<open>FormatFloat\<close>.\<close>

definition coinGecko_Fetch ::
    "math_lib \<Rightarrow> (string \<Rightarrow> (int \<times> string) outcome) \<Rightarrow>
     (string \<Rightarrow> (string \<rightharpoonup> string \<rightharpoonup> string) outcome) \<Rightarrow> string \<Rightarrow> dec outcome" where
  "coinGecko_Fetch M http_get decode symbol =
     obind (http_get symbol) (\<lambda>(status, body).
       if status \<noteq> 200 then Err (FmtError ''coingecko: status'')
       else case decode body of
              Panic \<Rightarrow> Panic
            | Err _ \<Rightarrow> Err (FmtError ''coingecko: decode'')
            | Ok body \<Rightarrow>
                (case body symbol of
                   None \<Rightarrow> Err (FmtError ''coingecko: no entry'')
                 | Some entry \<Rightarrow>
                     (case entry ''usd'' of
                        None \<Rightarrow> Err (FmtError ''coingecko: no usd price'')
                      | Some usd \<Rightarrow>
                          (case LegacyNewDecFromStr M usd of
                             Panic \<Rightarrow> Panic
                           | Err _ \<Rightarrow> Err (FmtError ''coingecko: parse price'')
                           | Ok price \<Rightarrow>
                               if \<not> price > 0 then Err (FmtError ''coingecko: non-positive usd price'')
                               else Ok price))))"

section \<open>The price loop\<close>

record PairConfig =
  pc_Pair :: string
  pc_Symbols :: "(string \<times> string) list"

text \<open>The quotes for a pair: a provider without a symbol for it, or that fails, is skipped.\<close>

fun collect_quotes :: "PairConfig \<Rightarrow> price_provider list \<Rightarrow> dec list outcome" where
  "collect_quotes pc [] = Ok []"
| "collect_quotes pc (prov # provs) =
     (case map_of (pc_Symbols pc) (pv_Name prov) of
        None \<Rightarrow> collect_quotes pc provs
      | Some symbol \<Rightarrow>
          (case pv_Fetch prov symbol of
             Panic \<Rightarrow> Panic
           | Err _ \<Rightarrow> collect_quotes pc provs
           | Ok price \<Rightarrow> obind (collect_quotes pc provs) (\<lambda>quotes. Ok (price # quotes))))"

definition tick_pair ::
    "math_lib \<Rightarrow> price_provider list \<Rightarrow> dec \<Rightarrow> int \<Rightarrow> time \<Rightarrow> PairConfig \<Rightarrow> cache \<Rightarrow> cache outcome" where
  "tick_pair M providers maxDev minProviders now pc cache =
     obind (collect_quotes pc providers) (\<lambda>quotes.
       case CrossSourceMedian M quotes maxDev minProviders of
         Panic \<Rightarrow> Panic
       | Err _ \<Rightarrow> Ok (Cache_MarkUnhealthy (pc_Pair pc) cache)
       | Ok median \<Rightarrow> Ok (Cache_Set (pc_Pair pc) median now cache))"

definition tick ::
    "math_lib \<Rightarrow> price_provider list \<Rightarrow> dec \<Rightarrow> int \<Rightarrow> time \<Rightarrow> PairConfig list \<Rightarrow> cache \<Rightarrow> cache outcome" where
  "tick M providers maxDev minProviders now pairs cache =
     ofold (tick_pair M providers maxDev minProviders now) pairs cache"

text \<open>The deviation \<open>NewPriceLoop\<close> parses, with its fallback.\<close>

definition price_loop_deviation :: "math_lib \<Rightarrow> string \<Rightarrow> dec outcome" where
  "price_loop_deviation M maxDeviation =
     (case LegacyNewDecFromStr M maxDeviation of
        Ok dev \<Rightarrow> Ok dev
      | Err _ \<Rightarrow> Ok (LegacyNewDecWithPrec M 10 2)
      | Panic \<Rightarrow> Panic)"

section \<open>What the median withstands\<close>












section \<open>What the cache answers\<close>

lemma Cache_Fresh_Set: "Cache_Fresh pair maxAge now (Cache_Set pair price t m) = (if time_sub now t > maxAge then None else Some price)"
  by (simp add: Cache_Fresh_def Cache_Set_def)

lemma Cache_Fresh_unhealthy: "Cache_Fresh pair maxAge now (Cache_MarkUnhealthy pair m) = None"
  by (simp add: Cache_Fresh_def Cache_MarkUnhealthy_def Let_def)

lemma Cache_other:
  "pair' \<noteq> pair \<Longrightarrow> Cache_Fresh pair' maxAge now (Cache_Set pair price t m) = Cache_Fresh pair' maxAge now m"
  "pair' \<noteq> pair \<Longrightarrow> Cache_Fresh pair' maxAge now (Cache_MarkUnhealthy pair m) = Cache_Fresh pair' maxAge now m"
  by (simp_all add: Cache_Fresh_def Cache_Set_def Cache_MarkUnhealthy_def Let_def)

end
