(* ===== verification/Feeder_Submit.thy ===== *)
theory Feeder_Submit
  imports Feeder_Price Oracle_Types Complex_Main
begin

text \<open>
  The chain side of the feeder sidecar: \<open>feeder/feeder/config.go\<close>, \<open>submitloop.go\<close> and
  the transaction building and sequence keeping of \<open>broadcaster.go\<close>. The gRPC connection,
  the keyring and the transaction factory are arguments.
\<close>

section \<open>Configuration\<close>

text \<open>A \<open>float64\<close>.\<close>

datatype float64 = NaN | PosInf | NegInf | Finite rat

definition float_le_one :: "float64 \<Rightarrow> bool" where
  "float_le_one f = (case f of NaN \<Rightarrow> False | PosInf \<Rightarrow> False | NegInf \<Rightarrow> True | Finite r \<Rightarrow> r \<le> 1)"

record Config =
  cfg_ChainID :: string
  cfg_NodeGRPC :: string
  cfg_Validator :: string
  cfg_KeyName :: string
  cfg_Fees :: string
  cfg_Gas :: string
  cfg_GasAdjustment :: float64
  cfg_FeedInterval :: duration
  cfg_SubmitPoll :: duration
  cfg_VoteWindow :: int
  cfg_BroadcastRetry :: int
  cfg_MinProviders :: int
  cfg_MaxDeviation :: string
  cfg_MaxQuoteAge :: duration
  cfg_Providers :: "string list"
  cfg_StaticPrices :: "(string \<times> string) list"
  cfg_Pairs :: "PairConfig list"

definition providerEnabled :: "Config \<Rightarrow> string \<Rightarrow> bool" where
  "providerEnabled c name = list_ex (\<lambda>p. p = name) (cfg_Providers c)"

definition validate_pair :: "math_lib \<Rightarrow> Config \<Rightarrow> PairConfig \<Rightarrow> unit \<Rightarrow> unit outcome" where
  "validate_pair M c pc _ =
     (if \<not> base_quote (pc_Pair pc) then Err (FmtError ''pair must be BASE:QUOTE uppercase'')
      else if \<not> list_ex (\<lambda>(prov, _). providerEnabled c prov) (pc_Symbols pc)
      then Err (FmtError ''pair has no symbol for an enabled provider'')
      else case map_of (pc_Symbols pc) ''static'' of
             None \<Rightarrow> Ok ()
           | Some symb \<Rightarrow>
               if \<not> providerEnabled c ''static'' then Ok ()
               else case map_of (cfg_StaticPrices c) symb of
                      None \<Rightarrow> Err (FmtError ''no static_prices entry'')
                    | Some ps \<Rightarrow>
                        (case LegacyNewDecFromStr M ps of
                           Panic \<Rightarrow> Panic
                         | Err _ \<Rightarrow> Err (FmtError ''static_prices must be a positive decimal'')
                         | Ok p \<Rightarrow>
                             if \<not> p > 0 then Err (FmtError ''static_prices must be a positive decimal'')
                             else Ok ()))"

definition Config_Validate ::
    "math_lib \<Rightarrow> addr_lib \<Rightarrow> (string \<Rightarrow> coin list outcome) \<Rightarrow> Config \<Rightarrow> unit outcome" where
  "Config_Validate M A ParseCoinsNormalized c =
     (if cfg_ChainID c = '''' \<or> cfg_NodeGRPC c = '''' \<or> cfg_KeyName c = ''''
      then Err (FmtError ''chain_id, node_grpc, and key_name are required'')
      else case ValAddressFromBech32 A (cfg_Validator c) of
             Panic \<Rightarrow> Panic
           | Err _ \<Rightarrow> Err (FmtError ''validator must be a vtxvaloper address'')
           | Ok _ \<Rightarrow>
      if cfg_FeedInterval c \<le> 0 \<or> cfg_SubmitPoll c \<le> 0 \<or> cfg_MaxQuoteAge c \<le> 0
      then Err (FmtError ''intervals must be positive'')
      else if cfg_MinProviders c < 1 then Err (FmtError ''quality.min_providers must be >= 1'')
      else case LegacyNewDecFromStr M (cfg_MaxDeviation c) of
             Panic \<Rightarrow> Panic
           | Err _ \<Rightarrow> Err (FmtError ''quality.max_deviation must be a decimal in (0, 1]'')
           | Ok dev \<Rightarrow>
      if \<not> dev > 0 \<or> dev > LegacyNewDec M 1
      then Err (FmtError ''quality.max_deviation must be a decimal in (0, 1]'')
      else case ParseCoinsNormalized (cfg_Fees c) of
             Panic \<Rightarrow> Panic
           | Err _ \<Rightarrow> Err (FmtError ''fees must be valid coins'')
           | Ok _ \<Rightarrow>
      obind (if cfg_Gas c \<noteq> ''auto''
             then case NewIntFromString M (cfg_Gas c) of
                    None \<Rightarrow> Err (FmtError ''gas must be auto or a positive integer'')
                  | Some gas \<Rightarrow> if \<not> gas > 0 then Err (FmtError ''gas must be auto or a positive integer'') else Ok ()
             else if float_le_one (cfg_GasAdjustment c)
             then Err (FmtError ''gas_adjustment must be > 1 when gas is auto'')
             else Ok ()) (\<lambda>_.
      if cfg_Pairs c = [] then Err (FmtError ''at least one pair is required'')
      else ofold (validate_pair M c) (cfg_Pairs c) ()))"

section \<open>Messages\<close>

record FeedSubmission =
  fs_Pair :: string
  fs_Price :: dec

fun buildMsgs :: "math_lib \<Rightarrow> addr_lib \<Rightarrow> string \<Rightarrow> string \<Rightarrow> FeedSubmission list \<Rightarrow> MsgSubmitFeed list outcome" where
  "buildMsgs M A feeder validator [] = Ok []"
| "buildMsgs M A feeder validator (f # feeds) =
     (let m = \<lparr>msb_Feeder = feeder, msb_Validator = validator, msb_Pair = fs_Pair f,
               msb_Price = dec_String M (fs_Price f)\<rparr>
      in case MsgSubmitFeed_ValidateBasic M A m of
           Panic \<Rightarrow> Panic
         | Err _ \<Rightarrow> Err (FmtError ''invalid MsgSubmitFeed'')
         | Ok _ \<Rightarrow> obind (buildMsgs M A feeder validator feeds) (\<lambda>msgs. Ok (m # msgs)))"

section \<open>The broadcaster\<close>

text \<open>
  The node and the signer as \<open>SubmitFeeds\<close> sees them; \<open>'n\<close> is the node's state. The
  transaction is built from the account number, the sequence and the messages.
\<close>

record 'n node =
  query_account :: "'n \<Rightarrow> (int \<times> int) outcome"
  sign_tx :: "int \<Rightarrow> int \<Rightarrow> MsgSubmitFeed list \<Rightarrow> bytes outcome"
  broadcast_tx :: "bytes \<Rightarrow> 'n \<Rightarrow> (int \<times> string) outcome \<times> 'n"

record broadcaster =
  br_feederAddr :: string
  br_validator :: string
  br_accNum :: int
  br_seq :: int

definition refreshAccount :: "'n node \<Rightarrow> broadcaster \<Rightarrow> 'n \<Rightarrow> broadcaster outcome" where
  "refreshAccount N b n =
     obind (query_account N n) (\<lambda>(accNum, seq). Ok (b\<lparr>br_accNum := accNum, br_seq := seq\<rparr>))"

definition SubmitFeeds ::
    "math_lib \<Rightarrow> addr_lib \<Rightarrow> 'n node \<Rightarrow> FeedSubmission list \<Rightarrow> broadcaster \<times> 'n \<Rightarrow>
     string outcome \<times> broadcaster \<times> 'n" where
  "SubmitFeeds M A N feeds = (\<lambda>(b, n).
     case obind (buildMsgs M A (br_feederAddr b) (br_validator b) feeds)
            (\<lambda>msgs. sign_tx N (br_accNum b) (br_seq b) msgs) of
       Panic \<Rightarrow> (Panic, b, n)
     | Err e \<Rightarrow> (Err e, b, n)
     | Ok bz \<Rightarrow>
         (case broadcast_tx N bz n of
            (Panic, n) \<Rightarrow> (Panic, b, n)
          | (Err e, n) \<Rightarrow> (Err e, b, n)
          | (Ok (code, hash), n) \<Rightarrow>
              if code \<noteq> 0
              then (Err (FmtError ''tx rejected''),
                    (case refreshAccount N b n of Ok b' \<Rightarrow> b' | _ \<Rightarrow> b), n)
              else (Ok hash, b\<lparr>br_seq := u64 (br_seq b + 1)\<rparr>, n)))"

section \<open>The submit loop\<close>

text \<open>The feeds of all pairs whose cached price is fresh.\<close>

definition fresh_feeds :: "cache \<Rightarrow> duration \<Rightarrow> time \<Rightarrow> PairConfig list \<Rightarrow> FeedSubmission list" where
  "fresh_feeds cache maxQuoteAge now pairs =
     concat (map (\<lambda>pc. case Cache_Fresh (pc_Pair pc) maxQuoteAge now cache of
                         None \<Rightarrow> []
                       | Some price \<Rightarrow> [\<lparr>fs_Pair = pc_Pair pc, fs_Price = price\<rparr>]) pairs)"

text \<open>At most \<open>n + 1\<close> attempts; the broadcaster is any state with a \<open>SubmitFeeds\<close>.\<close>

fun attempt :: "(FeedSubmission list \<Rightarrow> 'b \<Rightarrow> string outcome \<times> 'b) \<Rightarrow> FeedSubmission list \<Rightarrow> nat \<Rightarrow> 'b \<Rightarrow> string outcome \<times> 'b" where
  "attempt submit feeds 0 b = submit feeds b"
| "attempt submit feeds (Suc n) b =
     (case submit feeds b of
        (Err _, b') \<Rightarrow> attempt submit feeds n b'
      | r \<Rightarrow> r)"

record submit_loop =
  sl_pairs :: "PairConfig list"
  sl_voteWindow :: int
  sl_maxQuoteAge :: duration
  sl_retries :: int
  sl_lastWindow :: int

text \<open>
  The result is the new loop state and broadcaster, with the hash and the feeds of a
  successful submission.
\<close>

definition maybeSubmit ::
    "(FeedSubmission list \<Rightarrow> 'b \<Rightarrow> string outcome \<times> 'b) \<Rightarrow> cache \<Rightarrow> time \<Rightarrow> int \<Rightarrow> submit_loop \<times> 'b \<Rightarrow>
     (FeedSubmission list option \<times> submit_loop \<times> 'b) outcome" where
  "maybeSubmit submit cache now height = (\<lambda>(sl, b).
     if sl_voteWindow sl \<le> 0 then Ok (None, sl, b)
     else obind (go_div height (sl_voteWindow sl)) (\<lambda>window.
       if window = sl_lastWindow sl then Ok (None, sl, b)
       else let feeds = fresh_feeds cache (sl_maxQuoteAge sl) now (sl_pairs sl)
            in if feeds = [] then Ok (None, sl, b)
               else let attempts = (if sl_retries sl < 1 then 1 else sl_retries sl)
                    in (case attempt submit feeds (nat (attempts - 1)) b of
                          (Panic, _) \<Rightarrow> Panic
                        | (Err _, b') \<Rightarrow> Ok (None, sl, b')
                        | (Ok _, b') \<Rightarrow> Ok (Some feeds, sl\<lparr>sl_lastWindow := window\<rparr>, b'))))"

definition NewSubmitLoop :: "PairConfig list \<Rightarrow> int \<Rightarrow> duration \<Rightarrow> submit_loop" where
  "NewSubmitLoop pairs voteWindow maxQuoteAge =
     \<lparr>sl_pairs = pairs, sl_voteWindow = voteWindow, sl_maxQuoteAge = maxQuoteAge, sl_retries = 3, sl_lastWindow = -1\<rparr>"

text \<open>The poll interval, the height source and the logger that \<open>Configure\<close> also sets are outside the model.\<close>

definition SubmitLoop_Configure :: "int \<Rightarrow> submit_loop \<Rightarrow> submit_loop" where
  "SubmitLoop_Configure retries sl = sl\<lparr>sl_retries := retries\<rparr>"

text \<open>
  \<open>Run\<close> until its context is cancelled: at each tick the height query answers or fails, and
  the cache and the clock are read. The result lists the submissions made, each with the
  height it was made at.
\<close>

type_synonym submit_tick = "int outcome \<times> cache \<times> time"

fun SubmitLoop_Run ::
    "(FeedSubmission list \<Rightarrow> 'b \<Rightarrow> string outcome \<times> 'b) \<Rightarrow> submit_tick list \<Rightarrow> submit_loop \<times> 'b \<Rightarrow>
     ((int \<times> FeedSubmission list) list \<times> submit_loop \<times> 'b) outcome" where
  "SubmitLoop_Run submit [] s = Ok ([], s)"
| "SubmitLoop_Run submit ((h, cache, now) # ticks) s =
     (case h of
        Panic \<Rightarrow> Panic
      | Err _ \<Rightarrow> SubmitLoop_Run submit ticks s
      | Ok height \<Rightarrow>
          obind (maybeSubmit submit cache now height s) (\<lambda>(made, s').
          obind (SubmitLoop_Run submit ticks s') (\<lambda>(rest, s'').
          Ok ((case made of None \<Rightarrow> rest | Some feeds \<Rightarrow> (height, feeds) # rest), s''))))"

section \<open>One submission per window\<close>

lemma maybeSubmit_Ok:
  assumes "maybeSubmit submit cache now height (sl, b) = Ok (made, sl', b')" and "0 < sl_voteWindow sl"
    and "0 \<le> height" and "height < 2 ^ 63"
  shows "case made of
      None \<Rightarrow> sl' = sl
    | Some feeds \<Rightarrow> feeds = fresh_feeds cache (sl_maxQuoteAge sl) now (sl_pairs sl) \<and> feeds \<noteq> [] \<and>
        height div sl_voteWindow sl \<noteq> sl_lastWindow sl \<and> sl' = sl\<lparr>sl_lastWindow := height div sl_voteWindow sl\<rparr>"
proof -
  have "height div sl_voteWindow sl \<le> height" using zdiv_mono2 [of height 1 "sl_voteWindow sl"] assms(2,3) by simp
  moreover have "0 \<le> height div sl_voteWindow sl" using assms(2,3) by (simp add: pos_imp_zdiv_nonneg_iff)
  ultimately have "i64 (height sdiv sl_voteWindow sl) = height div sl_voteWindow sl"
    using assms(2-4) by (simp add: sdiv_nonneg is_i64_def)
  then show ?thesis
    using assms(1,2)
    by (auto simp: maybeSubmit_def go_div_def Let_def split: if_splits prod.splits outcome.splits option.splits)
qed

definition tick_heights :: "submit_tick list \<Rightarrow> int list" where
  "tick_heights ticks = concat (map (\<lambda>(h, _, _). case h of Ok n \<Rightarrow> [n] | _ \<Rightarrow> []) ticks)"

lemma Run_windows:
  assumes "SubmitLoop_Run submit ticks (sl, b) = Ok (made, s)" and "0 < sl_voteWindow sl" and "sorted (tick_heights ticks)"
    and "\<forall>h\<in>set (tick_heights ticks). 0 \<le> h \<and> h < 2 ^ 63 \<and> sl_lastWindow sl \<le> h div sl_voteWindow sl"
  shows "sorted_wrt (<) (sl_lastWindow sl # map (\<lambda>(h, _). h div sl_voteWindow sl) made) \<and>
    (\<forall>(h, feeds)\<in>set made. \<exists>cache now. (Ok h, cache, now) \<in> set ticks \<and>
       feeds = fresh_feeds cache (sl_maxQuoteAge sl) now (sl_pairs sl) \<and> feeds \<noteq> [])"
  using assms
proof (induction ticks arbitrary: sl b made)
  case (Cons tick ticks)
  obtain h cache now where tick: "tick = (h, cache, now)" by (cases tick)
  show ?case
  proof (cases h)
    case (Ok height)
    from Cons.prems(1) obtain made1 sl1 b1 rest where step: "maybeSubmit submit cache now height (sl, b) = Ok (made1, sl1, b1)"
      and run: "SubmitLoop_Run submit ticks (sl1, b1) = Ok (rest, s)"
      and made: "made = (case made1 of None \<Rightarrow> rest | Some feeds \<Rightarrow> (height, feeds) # rest)"
      by (auto simp: tick Ok obind_eq_Ok)
    have height: "0 \<le> height" "height < 2 ^ 63" "sl_lastWindow sl \<le> height div sl_voteWindow sl"
      using Cons.prems(4) by (auto simp: tick_heights_def tick Ok)
    have later: "sorted (tick_heights ticks)" "\<forall>k\<in>set (tick_heights ticks). height \<le> k"
      using Cons.prems(3) by (auto simp: tick_heights_def tick Ok)
    have mono: "height div sl_voteWindow sl \<le> k div sl_voteWindow sl" if "k \<in> set (tick_heights ticks)" for k
      using that later(2) Cons.prems(2) by (intro zdiv_mono1) auto
    note effect = maybeSubmit_Ok [OF step Cons.prems(2) height(1,2)]
    have range_: "\<forall>k\<in>set (tick_heights ticks). 0 \<le> k \<and> k < 2 ^ 63 \<and> sl_lastWindow sl \<le> k div sl_voteWindow sl"
      using Cons.prems(4) by (auto simp: tick_heights_def tick Ok)
    show ?thesis
    proof (cases made1)
      case None
      then have "sl1 = sl" using effect by simp
      then show ?thesis using Cons.IH [OF run] Cons.prems(2) later(1) range_ made None by (fastforce simp: tick)
    next
      case (Some feeds)
      have IH: "sorted_wrt (<) (sl_lastWindow sl1 # map (\<lambda>(h, _). h div sl_voteWindow sl1) rest) \<and>
          (\<forall>(h, feeds)\<in>set rest. \<exists>cache now. (Ok h, cache, now) \<in> set ticks \<and>
             feeds = fresh_feeds cache (sl_maxQuoteAge sl1) now (sl_pairs sl1) \<and> feeds \<noteq> [])"
        using effect Some Cons.prems(2) later(1) range_ mono by (intro Cons.IH [OF run]) auto
      then show ?thesis using effect Some made height(3) by (fastforce simp: tick Ok)
    qed
  next
    case (Err e)
    then show ?thesis using Cons.IH [of sl b made] Cons.prems by (fastforce simp: tick tick_heights_def)
  next
    case Panic
    then show ?thesis using Cons.prems(1) by (simp add: tick)
  qed
qed simp

text \<open>
  C16. The feeder submits at most once per vote window. Over any run in which the node's
  height does not go back, the windows of the submissions that went through are pairwise
  different and increasing, and each carries exactly the pairs whose price was fresh in the
  cache at that tick, of which there was at least one.
\<close>

theorem feeder_submits_once_per_window:
  assumes "SubmitLoop_Run submit ticks (SubmitLoop_Configure retries (NewSubmitLoop pairs voteWindow maxQuoteAge), b) = Ok (made, s)"
    and "0 < voteWindow" and "sorted (tick_heights ticks)" and "\<forall>h\<in>set (tick_heights ticks). 0 \<le> h \<and> h < 2 ^ 63"
  shows "sorted_wrt (<) (map (\<lambda>(h, _). h div voteWindow) made) \<and> distinct (map (\<lambda>(h, _). h div voteWindow) made) \<and>
    (\<forall>(h, feeds)\<in>set made. \<exists>cache now. (Ok h, cache, now) \<in> set ticks \<and>
       feeds = fresh_feeds cache maxQuoteAge now pairs \<and> feeds \<noteq> [])"
proof -
  let ?sl = "SubmitLoop_Configure retries (NewSubmitLoop pairs voteWindow maxQuoteAge)"
  have sl: "sl_voteWindow ?sl = voteWindow" "sl_lastWindow ?sl = -1" "sl_maxQuoteAge ?sl = maxQuoteAge" "sl_pairs ?sl = pairs"
    by (simp_all add: SubmitLoop_Configure_def NewSubmitLoop_def)
  have "- 1 \<le> h div voteWindow" if "h \<in> set (tick_heights ticks)" for h
    using assms(2,4) that pos_imp_zdiv_nonneg_iff [of voteWindow h] by fastforce
  then have run: "sorted_wrt (<) (map (\<lambda>(h, _). h div voteWindow) made) \<and>
      (\<forall>(h, feeds)\<in>set made. \<exists>cache now. (Ok h, cache, now) \<in> set ticks \<and>
         feeds = fresh_feeds cache maxQuoteAge now pairs \<and> feeds \<noteq> [])"
    using Run_windows [OF assms(1)] assms(2-4) by (simp add: sl)
  then show ?thesis by (simp add: strict_sorted_iff)
qed

definition sample_ticks :: "submit_tick list" where
  "sample_ticks =
     [(Ok 9, Cache_Set ''A:B'' 7 0 NewCache, 1), (Err (FmtError ''node''), NewCache, 2), (Ok 9, Cache_Set ''A:B'' 8 2 NewCache, 3),
      (Ok 12, Cache_Set ''A:B'' 9 3 NewCache, 4)]"

theorem feeder_submits_once_per_window_witness:
  "\<exists>s. SubmitLoop_Run (\<lambda>feeds n. (Ok ''hash'', n)) sample_ticks
      (SubmitLoop_Configure 3 (NewSubmitLoop [\<lparr>pc_Pair = ''A:B'', pc_Symbols = []\<rparr>] 10 5), ()) =
     Ok ([(9, [\<lparr>fs_Pair = ''A:B'', fs_Price = 7\<rparr>]), (12, [\<lparr>fs_Pair = ''A:B'', fs_Price = 9\<rparr>])], s) \<and>
     distinct (map (\<lambda>(h, _). h div 10) [(9 :: int, [\<lparr>fs_Pair = ''A:B'', fs_Price = 7\<rparr>]), (12, [\<lparr>fs_Pair = ''A:B'', fs_Price = 9\<rparr>])])"
proof -
  obtain s where run: "SubmitLoop_Run (\<lambda>feeds n. (Ok ''hash'', n)) sample_ticks
      (SubmitLoop_Configure 3 (NewSubmitLoop [\<lparr>pc_Pair = ''A:B'', pc_Symbols = []\<rparr>] 10 5), ()) =
     Ok ([(9, [\<lparr>fs_Pair = ''A:B'', fs_Price = 7\<rparr>]), (12, [\<lparr>fs_Pair = ''A:B'', fs_Price = 9\<rparr>])], s)"
    by (simp add: sample_ticks_def SubmitLoop_Configure_def NewSubmitLoop_def maybeSubmit_def go_div_def sdiv_nonneg
        fresh_feeds_def Cache_Fresh_def Cache_Set_def time_sub_def Let_def is_i64_def numeral_2_eq_2)
  have "sorted (tick_heights sample_ticks)" "\<forall>h\<in>set (tick_heights sample_ticks). 0 \<le> h \<and> h < 2 ^ 63"
    by (simp_all add: sample_ticks_def tick_heights_def)
  from feeder_submits_once_per_window [OF run _ this] run show ?thesis by (intro exI [of _ s]) (simp only: zero_less_numeral simp_thms)
qed

section \<open>Retries\<close>

text \<open>\<open>submit\<close> with a count of its calls.\<close>

definition counting :: "(FeedSubmission list \<Rightarrow> 'b \<Rightarrow> string outcome \<times> 'b) \<Rightarrow> FeedSubmission list \<Rightarrow> 'b \<times> nat \<Rightarrow> string outcome \<times> 'b \<times> nat" where
  "counting submit feeds = (\<lambda>(b, k). case submit feeds b of (r, b') \<Rightarrow> (r, b', Suc k))"

lemma attempt_count:
  assumes "\<And>b. fst (submit feeds b) \<noteq> Panic"
  shows "\<exists>r b' k'. attempt (counting submit) feeds n (b, k) = (r, b', k') \<and> r \<noteq> Panic \<and> k < k' \<and> k' \<le> k + n + 1 \<and>
    ((\<exists>e. r = Err e) \<longrightarrow> k' = k + n + 1)"
proof (induction n arbitrary: b k)
  case 0
  then show ?case using assms [of b] by (auto simp: counting_def split: prod.splits)
next
  case (Suc n)
  obtain r b' where s: "submit feeds b = (r, b')" by (cases "submit feeds b")
  show ?case
  proof (cases r)
    case (Err e)
    then show ?thesis using Suc.IH [of b' "Suc k"] s by (auto simp: counting_def)
  qed (use assms [of b] s in \<open>auto simp: counting_def\<close>)
qed

text \<open>
  C18. A tick ends. When the broadcaster returns, a tick of the submit loop returns after at
  most the configured number of broadcasts, and at least one counts as configured; it
  reports no submission only if nothing was due or every attempt failed, and then leaves
  the loop ready to try the window again.
\<close>

theorem maybeSubmit_ends:
  assumes "\<And>feeds b. fst (submit feeds b) \<noteq> Panic"
  shows "\<exists>made sl' b' k. maybeSubmit (counting submit) cache now height (sl, b, 0) = Ok (made, sl', b', k) \<and>
    int k \<le> max 1 (sl_retries sl) \<and> (made = None \<longrightarrow> sl' = sl \<and> (k = 0 \<or> int k = max 1 (sl_retries sl)))"
proof -
  let ?n = "nat ((if sl_retries sl < 1 then 1 else sl_retries sl) - 1)"
  have n: "int (?n + 1) = max 1 (sl_retries sl)" by simp
  obtain r b' k where a: "attempt (counting submit) (fresh_feeds cache (sl_maxQuoteAge sl) now (sl_pairs sl)) ?n (b, 0) = (r, b', k)"
    and k: "r \<noteq> Panic" "k \<le> ?n + 1" "(\<exists>e. r = Err e) \<longrightarrow> k = ?n + 1"
    using attempt_count [where submit = submit and feeds = "fresh_feeds cache (sl_maxQuoteAge sl) now (sl_pairs sl)" and n = ?n
        and b = b and k = 0, OF assms] by auto
  have "int k \<le> max 1 (sl_retries sl)" "\<exists>e. r = Err e \<Longrightarrow> int k = max 1 (sl_retries sl)"
    using k(2,3) n by (simp_all only: simp_thms)
  then show ?thesis
    using k(1) a by (cases r) (auto simp: maybeSubmit_def go_div_def Let_def split del: if_split split: if_split)
qed

theorem maybeSubmit_ends_witness:
  "\<exists>made sl' b' k. maybeSubmit (counting (\<lambda>feeds b. (Err (FmtError ''node''), b))) (Cache_Set ''A:B'' 7 0 NewCache) 1 9
      (NewSubmitLoop [\<lparr>pc_Pair = ''A:B'', pc_Symbols = []\<rparr>] 10 5, (), 0) = Ok (made, sl', b', k) \<and> int k \<le> 3"
  using maybeSubmit_ends [of "\<lambda>feeds b. (Err (FmtError ''node''), b)" "Cache_Set ''A:B'' 7 0 NewCache" 1 9
      "NewSubmitLoop [\<lparr>pc_Pair = ''A:B'', pc_Symbols = []\<rparr>] 10 5" "()"]
  by (fastforce simp: NewSubmitLoop_def)

end
