(* ===== verification/Tx_Messages.thy ===== *)
theory Tx_Messages
  imports Oracle_Types Rwa_Types
begin

text \<open>
  The wire encoding of transaction messages (\<open>x/oracle/types/tx.pb.go\<close> and
  \<open>x/rwa/types/tx.pb.go\<close>): \<open>Size\<close>, \<open>MarshalToSizedBuffer\<close>, \<open>Marshal\<close> and \<open>Unmarshal\<close> of
  the oracle's messages and of registering, minting, transferring and restricting an asset;
  the other messages of \<open>x/rwa\<close> have two or three string fields of the same kind. Each satisfies the contract
  \<open>message_codec\<close>: what is written is read back.
\<close>

section \<open>A message inside a message\<close>

text \<open>
  \<open>m.Params.Unmarshal(dAtA[iNdEx:postIndex])\<close> decodes into the message that is there.
\<close>

definition field_sub ::
    "int \<Rightarrow> int \<times> bytes \<Rightarrow> (bytes \<Rightarrow> 'v \<Rightarrow> 'v outcome) \<Rightarrow> ('m \<Rightarrow> 'v) \<Rightarrow> ('v \<Rightarrow> 'm \<Rightarrow> 'm) \<Rightarrow> 'm \<Rightarrow> ('m \<times> int) outcome" where
  "field_sub wireType cur dec get put m =
     (if wireType \<noteq> 2 then Err ErrWireType
      else obind (read_len (fst cur) (snd cur)) (\<lambda>(bz, i).
        obind (dec bz (get m)) (\<lambda>v. Ok (put v m, i))))"

lemma loop_sub:
  assumes h: "\<And>pre cur m. h f 2 pre cur m = field_sub 2 cur dec get put m"
    and t: "tag = 8 * f + 2" and f: "0 < f" "f < 16" and fits: "fits_int i (put_bytes tag s rest)"
    and d: "dec s (get m) = Ok v"
  shows "unmarshal_loop h m i (put_bytes tag s rest) =
           unmarshal_loop h (put v m) (i + int (size_bytes (length s))) rest"
  using f fits d unfolding t
  by (intro loop_bytes [where upd = "\<lambda>s. obind (dec s (get m)) (\<lambda>v. Ok (put v m))"])
    (simp_all add: h field_sub_def split_beta obind_assoc)

lemma written_of_codec:
  assumes "\<exists>bz. sized_buffer n w = Ok bz \<and> length bz = n \<and> U bz = Ok m" and "w = Ok bz'" and "length bz' = n"
  obtains bz where "w = Ok bz" and "length bz = n" and "U bz = Ok m"
  using assms by (auto simp: sized_buffer_def)

lemma OracleParams_written:
  assumes "OracleParams_wf m"
  obtains bz where "OracleParams_MarshalToSizedBuffer m = Ok bz" and "length bz = OracleParams_Size m" and "OracleParams_Unmarshal bz = Ok m"
proof -
  have "\<exists>bz. OracleParams_MarshalToSizedBuffer m = Ok bz \<and> length bz = OracleParams_Size m"
    by (simp add: OracleParams_MarshalToSizedBuffer_def OracleParams_Size_def)
  then show thesis
    using written_of_codec [OF OracleParams_roundtrip [OF assms, unfolded OracleParams_Marshal_def]] that by metis
qed

section \<open>Transaction messages\<close>

subsection \<open>MsgSetFeeder\<close>

definition zero_MsgSetFeeder :: MsgSetFeeder where
  "zero_MsgSetFeeder = \<lparr>msf_Validator = [], msf_Feeder = []\<rparr>"

definition MsgSetFeeder_Size :: "MsgSetFeeder \<Rightarrow> nat" where
  "MsgSetFeeder_Size m =
     size_string (msf_Validator m) +
     size_string (msf_Feeder m)"

definition MsgSetFeeder_MarshalToSizedBuffer :: "MsgSetFeeder \<Rightarrow> bytes outcome" where
  "MsgSetFeeder_MarshalToSizedBuffer m =
     Ok (put_string 10 (msf_Validator m)
       (put_string 18 (msf_Feeder m)
       []))"

definition MsgSetFeeder_Marshal :: "MsgSetFeeder \<Rightarrow> bytes outcome" where
  "MsgSetFeeder_Marshal m = sized_buffer (MsgSetFeeder_Size m) (MsgSetFeeder_MarshalToSizedBuffer m)"

definition MsgSetFeeder_field :: "MsgSetFeeder handler" where
  "MsgSetFeeder_field fieldNum wireType pre cur m =
     (if fieldNum = 1 then field_string wireType cur (\<lambda>v m. m\<lparr>msf_Validator := v\<rparr>) m
      else if fieldNum = 2 then field_string wireType cur (\<lambda>v m. m\<lparr>msf_Feeder := v\<rparr>) m
      else field_skip pre m)"

definition MsgSetFeeder_Unmarshal :: "bytes \<Rightarrow> MsgSetFeeder outcome" where
  "MsgSetFeeder_Unmarshal dAtA = unmarshal_loop MsgSetFeeder_field zero_MsgSetFeeder 0 dAtA"

definition MsgSetFeeder_wf :: "MsgSetFeeder \<Rightarrow> bool" where
  "MsgSetFeeder_wf m \<longleftrightarrow> MsgSetFeeder_Size m < 2 ^ 63"

lemma MsgSetFeeder_handler:
  "MsgSetFeeder_field 1 2 pre cur m = field_string 2 cur (\<lambda>v m. m\<lparr>msf_Validator := v\<rparr>) m"
  "MsgSetFeeder_field 2 2 pre cur m = field_string 2 cur (\<lambda>v m. m\<lparr>msf_Feeder := v\<rparr>) m"
  by (simp_all add: MsgSetFeeder_field_def)

lemmas MsgSetFeeder_steps =
  loop_string [where h = MsgSetFeeder_field, OF MsgSetFeeder_handler(1)]
  loop_string [where h = MsgSetFeeder_field, OF MsgSetFeeder_handler(2)]

lemma MsgSetFeeder_roundtrip:
  assumes wf: "MsgSetFeeder_wf m"
  shows "\<exists>bz. MsgSetFeeder_Marshal m = Ok bz \<and> length bz = MsgSetFeeder_Size m \<and> MsgSetFeeder_Unmarshal bz = Ok m"
proof -
  define bz where "bz = put_string 10 (msf_Validator m)
       (put_string 18 (msf_Feeder m)
       [])"
  have w: "MsgSetFeeder_MarshalToSizedBuffer m = Ok bz"
    by (simp add: MsgSetFeeder_MarshalToSizedBuffer_def bz_def )
  have len: "length bz = MsgSetFeeder_Size m"
    by (simp add: bz_def MsgSetFeeder_Size_def )
  have lt: "length bz < 2 ^ 63" using wf by (simp add: len MsgSetFeeder_wf_def)
  have "MsgSetFeeder_Marshal m = Ok bz"
    by (simp add: MsgSetFeeder_Marshal_def w len sized_buffer_exact)
  moreover have "MsgSetFeeder_Unmarshal bz = Ok m"
    using wf lt
    by (simp add: MsgSetFeeder_Unmarshal_def bz_def MsgSetFeeder_steps fits_int_def zero_MsgSetFeeder_def  )
  ultimately show ?thesis using len by blast
qed

interpretation MsgSetFeeder_codec: message_codec MsgSetFeeder_Size MsgSetFeeder_Marshal MsgSetFeeder_Unmarshal MsgSetFeeder_wf
  by unfold_locales (rule MsgSetFeeder_roundtrip)

subsection \<open>MsgSubmitFeed\<close>

definition zero_MsgSubmitFeed :: MsgSubmitFeed where
  "zero_MsgSubmitFeed = \<lparr>msb_Feeder = [], msb_Validator = [], msb_Pair = [], msb_Price = []\<rparr>"

definition MsgSubmitFeed_Size :: "MsgSubmitFeed \<Rightarrow> nat" where
  "MsgSubmitFeed_Size m =
     size_string (msb_Feeder m) +
     size_string (msb_Validator m) +
     size_string (msb_Pair m) +
     size_string (msb_Price m)"

definition MsgSubmitFeed_MarshalToSizedBuffer :: "MsgSubmitFeed \<Rightarrow> bytes outcome" where
  "MsgSubmitFeed_MarshalToSizedBuffer m =
     Ok (put_string 10 (msb_Feeder m)
       (put_string 18 (msb_Validator m)
       (put_string 26 (msb_Pair m)
       (put_string 34 (msb_Price m)
       []))))"

definition MsgSubmitFeed_Marshal :: "MsgSubmitFeed \<Rightarrow> bytes outcome" where
  "MsgSubmitFeed_Marshal m = sized_buffer (MsgSubmitFeed_Size m) (MsgSubmitFeed_MarshalToSizedBuffer m)"

definition MsgSubmitFeed_field :: "MsgSubmitFeed handler" where
  "MsgSubmitFeed_field fieldNum wireType pre cur m =
     (if fieldNum = 1 then field_string wireType cur (\<lambda>v m. m\<lparr>msb_Feeder := v\<rparr>) m
      else if fieldNum = 2 then field_string wireType cur (\<lambda>v m. m\<lparr>msb_Validator := v\<rparr>) m
      else if fieldNum = 3 then field_string wireType cur (\<lambda>v m. m\<lparr>msb_Pair := v\<rparr>) m
      else if fieldNum = 4 then field_string wireType cur (\<lambda>v m. m\<lparr>msb_Price := v\<rparr>) m
      else field_skip pre m)"

definition MsgSubmitFeed_Unmarshal :: "bytes \<Rightarrow> MsgSubmitFeed outcome" where
  "MsgSubmitFeed_Unmarshal dAtA = unmarshal_loop MsgSubmitFeed_field zero_MsgSubmitFeed 0 dAtA"

definition MsgSubmitFeed_wf :: "MsgSubmitFeed \<Rightarrow> bool" where
  "MsgSubmitFeed_wf m \<longleftrightarrow> MsgSubmitFeed_Size m < 2 ^ 63"

lemma MsgSubmitFeed_handler:
  "MsgSubmitFeed_field 1 2 pre cur m = field_string 2 cur (\<lambda>v m. m\<lparr>msb_Feeder := v\<rparr>) m"
  "MsgSubmitFeed_field 2 2 pre cur m = field_string 2 cur (\<lambda>v m. m\<lparr>msb_Validator := v\<rparr>) m"
  "MsgSubmitFeed_field 3 2 pre cur m = field_string 2 cur (\<lambda>v m. m\<lparr>msb_Pair := v\<rparr>) m"
  "MsgSubmitFeed_field 4 2 pre cur m = field_string 2 cur (\<lambda>v m. m\<lparr>msb_Price := v\<rparr>) m"
  by (simp_all add: MsgSubmitFeed_field_def)

lemmas MsgSubmitFeed_steps =
  loop_string [where h = MsgSubmitFeed_field, OF MsgSubmitFeed_handler(1)]
  loop_string [where h = MsgSubmitFeed_field, OF MsgSubmitFeed_handler(2)]
  loop_string [where h = MsgSubmitFeed_field, OF MsgSubmitFeed_handler(3)]
  loop_string [where h = MsgSubmitFeed_field, OF MsgSubmitFeed_handler(4)]

lemma MsgSubmitFeed_roundtrip:
  assumes wf: "MsgSubmitFeed_wf m"
  shows "\<exists>bz. MsgSubmitFeed_Marshal m = Ok bz \<and> length bz = MsgSubmitFeed_Size m \<and> MsgSubmitFeed_Unmarshal bz = Ok m"
proof -
  define bz where "bz = put_string 10 (msb_Feeder m)
       (put_string 18 (msb_Validator m)
       (put_string 26 (msb_Pair m)
       (put_string 34 (msb_Price m)
       [])))"
  have w: "MsgSubmitFeed_MarshalToSizedBuffer m = Ok bz"
    by (simp add: MsgSubmitFeed_MarshalToSizedBuffer_def bz_def )
  have len: "length bz = MsgSubmitFeed_Size m"
    by (simp add: bz_def MsgSubmitFeed_Size_def )
  have lt: "length bz < 2 ^ 63" using wf by (simp add: len MsgSubmitFeed_wf_def)
  have "MsgSubmitFeed_Marshal m = Ok bz"
    by (simp add: MsgSubmitFeed_Marshal_def w len sized_buffer_exact)
  moreover have "MsgSubmitFeed_Unmarshal bz = Ok m"
    using wf lt
    by (simp add: MsgSubmitFeed_Unmarshal_def bz_def MsgSubmitFeed_steps fits_int_def zero_MsgSubmitFeed_def  )
  ultimately show ?thesis using len by blast
qed

interpretation MsgSubmitFeed_codec: message_codec MsgSubmitFeed_Size MsgSubmitFeed_Marshal MsgSubmitFeed_Unmarshal MsgSubmitFeed_wf
  by unfold_locales (rule MsgSubmitFeed_roundtrip)

subsection \<open>MsgUpdateParams\<close>

definition zero_MsgUpdateParams :: MsgUpdateParams where
  "zero_MsgUpdateParams = \<lparr>mup_Authority = [], mup_Params = zero_OracleParams\<rparr>"

definition MsgUpdateParams_Size :: "MsgUpdateParams \<Rightarrow> nat" where
  "MsgUpdateParams_Size m =
     size_string (mup_Authority m) +
     size_bytes (OracleParams_Size (mup_Params m))"

definition MsgUpdateParams_MarshalToSizedBuffer :: "MsgUpdateParams \<Rightarrow> bytes outcome" where
  "MsgUpdateParams_MarshalToSizedBuffer m =
     obind (OracleParams_MarshalToSizedBuffer (mup_Params m)) (\<lambda>bz_Params.
     Ok (put_string 10 (mup_Authority m)
       (put_bytes 18 bz_Params
       [])))"

definition MsgUpdateParams_Marshal :: "MsgUpdateParams \<Rightarrow> bytes outcome" where
  "MsgUpdateParams_Marshal m = sized_buffer (MsgUpdateParams_Size m) (MsgUpdateParams_MarshalToSizedBuffer m)"

definition MsgUpdateParams_field :: "MsgUpdateParams handler" where
  "MsgUpdateParams_field fieldNum wireType pre cur m =
     (if fieldNum = 1 then field_string wireType cur (\<lambda>v m. m\<lparr>mup_Authority := v\<rparr>) m
      else if fieldNum = 2 then field_sub wireType cur (\<lambda>bz v. unmarshal_loop OracleParams_field v 0 bz) mup_Params (\<lambda>v m. m\<lparr>mup_Params := v\<rparr>) m
      else field_skip pre m)"

definition MsgUpdateParams_Unmarshal :: "bytes \<Rightarrow> MsgUpdateParams outcome" where
  "MsgUpdateParams_Unmarshal dAtA = unmarshal_loop MsgUpdateParams_field zero_MsgUpdateParams 0 dAtA"

definition MsgUpdateParams_wf :: "MsgUpdateParams \<Rightarrow> bool" where
  "MsgUpdateParams_wf m \<longleftrightarrow> OracleParams_wf (mup_Params m) \<and> MsgUpdateParams_Size m < 2 ^ 63"

lemma MsgUpdateParams_handler:
  "MsgUpdateParams_field 1 2 pre cur m = field_string 2 cur (\<lambda>v m. m\<lparr>mup_Authority := v\<rparr>) m"
  "MsgUpdateParams_field 2 2 pre cur m = field_sub 2 cur (\<lambda>bz v. unmarshal_loop OracleParams_field v 0 bz) mup_Params (\<lambda>v m. m\<lparr>mup_Params := v\<rparr>) m"
  by (simp_all add: MsgUpdateParams_field_def)

lemmas MsgUpdateParams_steps =
  loop_string [where h = MsgUpdateParams_field, OF MsgUpdateParams_handler(1)]
  loop_sub [where h = MsgUpdateParams_field, OF MsgUpdateParams_handler(2)]

lemma MsgUpdateParams_roundtrip:
  assumes wf: "MsgUpdateParams_wf m"
  shows "\<exists>bz. MsgUpdateParams_Marshal m = Ok bz \<and> length bz = MsgUpdateParams_Size m \<and> MsgUpdateParams_Unmarshal bz = Ok m"
proof -
  have "OracleParams_wf (mup_Params m)" using wf by (simp add: MsgUpdateParams_wf_def)
  then obtain bz_Params where p: "OracleParams_MarshalToSizedBuffer (mup_Params m) = Ok bz_Params" "length bz_Params = OracleParams_Size (mup_Params m)"
      "OracleParams_Unmarshal bz_Params = Ok (mup_Params m)"
    by (rule OracleParams_written)
  define bz where "bz = put_string 10 (mup_Authority m)
       (put_bytes 18 bz_Params
       [])"
  have w: "MsgUpdateParams_MarshalToSizedBuffer m = Ok bz"
    by (simp add: MsgUpdateParams_MarshalToSizedBuffer_def bz_def p p(3) [unfolded OracleParams_Unmarshal_def])
  have len: "length bz = MsgUpdateParams_Size m"
    by (simp add: bz_def MsgUpdateParams_Size_def p p(3) [unfolded OracleParams_Unmarshal_def])
  have lt: "length bz < 2 ^ 63" using wf by (simp add: len MsgUpdateParams_wf_def)
  have "MsgUpdateParams_Marshal m = Ok bz"
    by (simp add: MsgUpdateParams_Marshal_def w len sized_buffer_exact)
  moreover have "MsgUpdateParams_Unmarshal bz = Ok m"
    using wf lt
    by (simp add: MsgUpdateParams_Unmarshal_def bz_def MsgUpdateParams_steps fits_int_def zero_MsgUpdateParams_def p p(3) [unfolded OracleParams_Unmarshal_def] )
  ultimately show ?thesis using len by blast
qed

interpretation MsgUpdateParams_codec: message_codec MsgUpdateParams_Size MsgUpdateParams_Marshal MsgUpdateParams_Unmarshal MsgUpdateParams_wf
  by unfold_locales (rule MsgUpdateParams_roundtrip)

subsection \<open>MsgRegisterAsset\<close>

definition zero_MsgRegisterAsset :: MsgRegisterAsset where
  "zero_MsgRegisterAsset = \<lparr>mra_Issuer = [], mra_AssetId = [], mra_Name = [], mra_Description = [], mra_OraclePair = [], mra_Bond = []\<rparr>"

definition MsgRegisterAsset_Size :: "MsgRegisterAsset \<Rightarrow> nat" where
  "MsgRegisterAsset_Size m =
     size_string (mra_Issuer m) +
     size_string (mra_AssetId m) +
     size_string (mra_Name m) +
     size_string (mra_Description m) +
     size_string (mra_OraclePair m) +
     size_string (mra_Bond m)"

definition MsgRegisterAsset_MarshalToSizedBuffer :: "MsgRegisterAsset \<Rightarrow> bytes outcome" where
  "MsgRegisterAsset_MarshalToSizedBuffer m =
     Ok (put_string 10 (mra_Issuer m)
       (put_string 18 (mra_AssetId m)
       (put_string 26 (mra_Name m)
       (put_string 34 (mra_Description m)
       (put_string 42 (mra_OraclePair m)
       (put_string 50 (mra_Bond m)
       []))))))"

definition MsgRegisterAsset_Marshal :: "MsgRegisterAsset \<Rightarrow> bytes outcome" where
  "MsgRegisterAsset_Marshal m = sized_buffer (MsgRegisterAsset_Size m) (MsgRegisterAsset_MarshalToSizedBuffer m)"

definition MsgRegisterAsset_field :: "MsgRegisterAsset handler" where
  "MsgRegisterAsset_field fieldNum wireType pre cur m =
     (if fieldNum = 1 then field_string wireType cur (\<lambda>v m. m\<lparr>mra_Issuer := v\<rparr>) m
      else if fieldNum = 2 then field_string wireType cur (\<lambda>v m. m\<lparr>mra_AssetId := v\<rparr>) m
      else if fieldNum = 3 then field_string wireType cur (\<lambda>v m. m\<lparr>mra_Name := v\<rparr>) m
      else if fieldNum = 4 then field_string wireType cur (\<lambda>v m. m\<lparr>mra_Description := v\<rparr>) m
      else if fieldNum = 5 then field_string wireType cur (\<lambda>v m. m\<lparr>mra_OraclePair := v\<rparr>) m
      else if fieldNum = 6 then field_string wireType cur (\<lambda>v m. m\<lparr>mra_Bond := v\<rparr>) m
      else field_skip pre m)"

definition MsgRegisterAsset_Unmarshal :: "bytes \<Rightarrow> MsgRegisterAsset outcome" where
  "MsgRegisterAsset_Unmarshal dAtA = unmarshal_loop MsgRegisterAsset_field zero_MsgRegisterAsset 0 dAtA"

definition MsgRegisterAsset_wf :: "MsgRegisterAsset \<Rightarrow> bool" where
  "MsgRegisterAsset_wf m \<longleftrightarrow> MsgRegisterAsset_Size m < 2 ^ 63"

lemma MsgRegisterAsset_handler:
  "MsgRegisterAsset_field 1 2 pre cur m = field_string 2 cur (\<lambda>v m. m\<lparr>mra_Issuer := v\<rparr>) m"
  "MsgRegisterAsset_field 2 2 pre cur m = field_string 2 cur (\<lambda>v m. m\<lparr>mra_AssetId := v\<rparr>) m"
  "MsgRegisterAsset_field 3 2 pre cur m = field_string 2 cur (\<lambda>v m. m\<lparr>mra_Name := v\<rparr>) m"
  "MsgRegisterAsset_field 4 2 pre cur m = field_string 2 cur (\<lambda>v m. m\<lparr>mra_Description := v\<rparr>) m"
  "MsgRegisterAsset_field 5 2 pre cur m = field_string 2 cur (\<lambda>v m. m\<lparr>mra_OraclePair := v\<rparr>) m"
  "MsgRegisterAsset_field 6 2 pre cur m = field_string 2 cur (\<lambda>v m. m\<lparr>mra_Bond := v\<rparr>) m"
  by (simp_all add: MsgRegisterAsset_field_def)

lemmas MsgRegisterAsset_steps =
  loop_string [where h = MsgRegisterAsset_field, OF MsgRegisterAsset_handler(1)]
  loop_string [where h = MsgRegisterAsset_field, OF MsgRegisterAsset_handler(2)]
  loop_string [where h = MsgRegisterAsset_field, OF MsgRegisterAsset_handler(3)]
  loop_string [where h = MsgRegisterAsset_field, OF MsgRegisterAsset_handler(4)]
  loop_string [where h = MsgRegisterAsset_field, OF MsgRegisterAsset_handler(5)]
  loop_string [where h = MsgRegisterAsset_field, OF MsgRegisterAsset_handler(6)]

lemma MsgRegisterAsset_roundtrip:
  assumes wf: "MsgRegisterAsset_wf m"
  shows "\<exists>bz. MsgRegisterAsset_Marshal m = Ok bz \<and> length bz = MsgRegisterAsset_Size m \<and> MsgRegisterAsset_Unmarshal bz = Ok m"
proof -
  define bz where "bz = put_string 10 (mra_Issuer m)
       (put_string 18 (mra_AssetId m)
       (put_string 26 (mra_Name m)
       (put_string 34 (mra_Description m)
       (put_string 42 (mra_OraclePair m)
       (put_string 50 (mra_Bond m)
       [])))))"
  have w: "MsgRegisterAsset_MarshalToSizedBuffer m = Ok bz"
    by (simp add: MsgRegisterAsset_MarshalToSizedBuffer_def bz_def )
  have len: "length bz = MsgRegisterAsset_Size m"
    by (simp add: bz_def MsgRegisterAsset_Size_def )
  have lt: "length bz < 2 ^ 63" using wf by (simp add: len MsgRegisterAsset_wf_def)
  have "MsgRegisterAsset_Marshal m = Ok bz"
    by (simp add: MsgRegisterAsset_Marshal_def w len sized_buffer_exact)
  moreover have "MsgRegisterAsset_Unmarshal bz = Ok m"
    using wf lt
    by (simp add: MsgRegisterAsset_Unmarshal_def bz_def MsgRegisterAsset_steps fits_int_def zero_MsgRegisterAsset_def  )
  ultimately show ?thesis using len by blast
qed

interpretation MsgRegisterAsset_codec: message_codec MsgRegisterAsset_Size MsgRegisterAsset_Marshal MsgRegisterAsset_Unmarshal MsgRegisterAsset_wf
  by unfold_locales (rule MsgRegisterAsset_roundtrip)

subsection \<open>MsgMintRWA\<close>

definition zero_MsgMintRWA :: MsgMintRWA where
  "zero_MsgMintRWA = \<lparr>mmr_Issuer = [], mmr_AssetId = [], mmr_Notional = []\<rparr>"

definition MsgMintRWA_Size :: "MsgMintRWA \<Rightarrow> nat" where
  "MsgMintRWA_Size m =
     size_string (mmr_Issuer m) +
     size_string (mmr_AssetId m) +
     size_string (mmr_Notional m)"

definition MsgMintRWA_MarshalToSizedBuffer :: "MsgMintRWA \<Rightarrow> bytes outcome" where
  "MsgMintRWA_MarshalToSizedBuffer m =
     Ok (put_string 10 (mmr_Issuer m)
       (put_string 18 (mmr_AssetId m)
       (put_string 26 (mmr_Notional m)
       [])))"

definition MsgMintRWA_Marshal :: "MsgMintRWA \<Rightarrow> bytes outcome" where
  "MsgMintRWA_Marshal m = sized_buffer (MsgMintRWA_Size m) (MsgMintRWA_MarshalToSizedBuffer m)"

definition MsgMintRWA_field :: "MsgMintRWA handler" where
  "MsgMintRWA_field fieldNum wireType pre cur m =
     (if fieldNum = 1 then field_string wireType cur (\<lambda>v m. m\<lparr>mmr_Issuer := v\<rparr>) m
      else if fieldNum = 2 then field_string wireType cur (\<lambda>v m. m\<lparr>mmr_AssetId := v\<rparr>) m
      else if fieldNum = 3 then field_string wireType cur (\<lambda>v m. m\<lparr>mmr_Notional := v\<rparr>) m
      else field_skip pre m)"

definition MsgMintRWA_Unmarshal :: "bytes \<Rightarrow> MsgMintRWA outcome" where
  "MsgMintRWA_Unmarshal dAtA = unmarshal_loop MsgMintRWA_field zero_MsgMintRWA 0 dAtA"

definition MsgMintRWA_wf :: "MsgMintRWA \<Rightarrow> bool" where
  "MsgMintRWA_wf m \<longleftrightarrow> MsgMintRWA_Size m < 2 ^ 63"

lemma MsgMintRWA_handler:
  "MsgMintRWA_field 1 2 pre cur m = field_string 2 cur (\<lambda>v m. m\<lparr>mmr_Issuer := v\<rparr>) m"
  "MsgMintRWA_field 2 2 pre cur m = field_string 2 cur (\<lambda>v m. m\<lparr>mmr_AssetId := v\<rparr>) m"
  "MsgMintRWA_field 3 2 pre cur m = field_string 2 cur (\<lambda>v m. m\<lparr>mmr_Notional := v\<rparr>) m"
  by (simp_all add: MsgMintRWA_field_def)

lemmas MsgMintRWA_steps =
  loop_string [where h = MsgMintRWA_field, OF MsgMintRWA_handler(1)]
  loop_string [where h = MsgMintRWA_field, OF MsgMintRWA_handler(2)]
  loop_string [where h = MsgMintRWA_field, OF MsgMintRWA_handler(3)]

lemma MsgMintRWA_roundtrip:
  assumes wf: "MsgMintRWA_wf m"
  shows "\<exists>bz. MsgMintRWA_Marshal m = Ok bz \<and> length bz = MsgMintRWA_Size m \<and> MsgMintRWA_Unmarshal bz = Ok m"
proof -
  define bz where "bz = put_string 10 (mmr_Issuer m)
       (put_string 18 (mmr_AssetId m)
       (put_string 26 (mmr_Notional m)
       []))"
  have w: "MsgMintRWA_MarshalToSizedBuffer m = Ok bz"
    by (simp add: MsgMintRWA_MarshalToSizedBuffer_def bz_def )
  have len: "length bz = MsgMintRWA_Size m"
    by (simp add: bz_def MsgMintRWA_Size_def )
  have lt: "length bz < 2 ^ 63" using wf by (simp add: len MsgMintRWA_wf_def)
  have "MsgMintRWA_Marshal m = Ok bz"
    by (simp add: MsgMintRWA_Marshal_def w len sized_buffer_exact)
  moreover have "MsgMintRWA_Unmarshal bz = Ok m"
    using wf lt
    by (simp add: MsgMintRWA_Unmarshal_def bz_def MsgMintRWA_steps fits_int_def zero_MsgMintRWA_def  )
  ultimately show ?thesis using len by blast
qed

interpretation MsgMintRWA_codec: message_codec MsgMintRWA_Size MsgMintRWA_Marshal MsgMintRWA_Unmarshal MsgMintRWA_wf
  by unfold_locales (rule MsgMintRWA_roundtrip)

subsection \<open>MsgTransferRWA\<close>

definition zero_MsgTransferRWA :: MsgTransferRWA where
  "zero_MsgTransferRWA = \<lparr>mtr_Sender = [], mtr_Recipient = [], mtr_AssetId = [], mtr_Amount = []\<rparr>"

definition MsgTransferRWA_Size :: "MsgTransferRWA \<Rightarrow> nat" where
  "MsgTransferRWA_Size m =
     size_string (mtr_Sender m) +
     size_string (mtr_Recipient m) +
     size_string (mtr_AssetId m) +
     size_string (mtr_Amount m)"

definition MsgTransferRWA_MarshalToSizedBuffer :: "MsgTransferRWA \<Rightarrow> bytes outcome" where
  "MsgTransferRWA_MarshalToSizedBuffer m =
     Ok (put_string 10 (mtr_Sender m)
       (put_string 18 (mtr_Recipient m)
       (put_string 26 (mtr_AssetId m)
       (put_string 34 (mtr_Amount m)
       []))))"

definition MsgTransferRWA_Marshal :: "MsgTransferRWA \<Rightarrow> bytes outcome" where
  "MsgTransferRWA_Marshal m = sized_buffer (MsgTransferRWA_Size m) (MsgTransferRWA_MarshalToSizedBuffer m)"

definition MsgTransferRWA_field :: "MsgTransferRWA handler" where
  "MsgTransferRWA_field fieldNum wireType pre cur m =
     (if fieldNum = 1 then field_string wireType cur (\<lambda>v m. m\<lparr>mtr_Sender := v\<rparr>) m
      else if fieldNum = 2 then field_string wireType cur (\<lambda>v m. m\<lparr>mtr_Recipient := v\<rparr>) m
      else if fieldNum = 3 then field_string wireType cur (\<lambda>v m. m\<lparr>mtr_AssetId := v\<rparr>) m
      else if fieldNum = 4 then field_string wireType cur (\<lambda>v m. m\<lparr>mtr_Amount := v\<rparr>) m
      else field_skip pre m)"

definition MsgTransferRWA_Unmarshal :: "bytes \<Rightarrow> MsgTransferRWA outcome" where
  "MsgTransferRWA_Unmarshal dAtA = unmarshal_loop MsgTransferRWA_field zero_MsgTransferRWA 0 dAtA"

definition MsgTransferRWA_wf :: "MsgTransferRWA \<Rightarrow> bool" where
  "MsgTransferRWA_wf m \<longleftrightarrow> MsgTransferRWA_Size m < 2 ^ 63"

lemma MsgTransferRWA_handler:
  "MsgTransferRWA_field 1 2 pre cur m = field_string 2 cur (\<lambda>v m. m\<lparr>mtr_Sender := v\<rparr>) m"
  "MsgTransferRWA_field 2 2 pre cur m = field_string 2 cur (\<lambda>v m. m\<lparr>mtr_Recipient := v\<rparr>) m"
  "MsgTransferRWA_field 3 2 pre cur m = field_string 2 cur (\<lambda>v m. m\<lparr>mtr_AssetId := v\<rparr>) m"
  "MsgTransferRWA_field 4 2 pre cur m = field_string 2 cur (\<lambda>v m. m\<lparr>mtr_Amount := v\<rparr>) m"
  by (simp_all add: MsgTransferRWA_field_def)

lemmas MsgTransferRWA_steps =
  loop_string [where h = MsgTransferRWA_field, OF MsgTransferRWA_handler(1)]
  loop_string [where h = MsgTransferRWA_field, OF MsgTransferRWA_handler(2)]
  loop_string [where h = MsgTransferRWA_field, OF MsgTransferRWA_handler(3)]
  loop_string [where h = MsgTransferRWA_field, OF MsgTransferRWA_handler(4)]

lemma MsgTransferRWA_roundtrip:
  assumes wf: "MsgTransferRWA_wf m"
  shows "\<exists>bz. MsgTransferRWA_Marshal m = Ok bz \<and> length bz = MsgTransferRWA_Size m \<and> MsgTransferRWA_Unmarshal bz = Ok m"
proof -
  define bz where "bz = put_string 10 (mtr_Sender m)
       (put_string 18 (mtr_Recipient m)
       (put_string 26 (mtr_AssetId m)
       (put_string 34 (mtr_Amount m)
       [])))"
  have w: "MsgTransferRWA_MarshalToSizedBuffer m = Ok bz"
    by (simp add: MsgTransferRWA_MarshalToSizedBuffer_def bz_def )
  have len: "length bz = MsgTransferRWA_Size m"
    by (simp add: bz_def MsgTransferRWA_Size_def )
  have lt: "length bz < 2 ^ 63" using wf by (simp add: len MsgTransferRWA_wf_def)
  have "MsgTransferRWA_Marshal m = Ok bz"
    by (simp add: MsgTransferRWA_Marshal_def w len sized_buffer_exact)
  moreover have "MsgTransferRWA_Unmarshal bz = Ok m"
    using wf lt
    by (simp add: MsgTransferRWA_Unmarshal_def bz_def MsgTransferRWA_steps fits_int_def zero_MsgTransferRWA_def  )
  ultimately show ?thesis using len by blast
qed

interpretation MsgTransferRWA_codec: message_codec MsgTransferRWA_Size MsgTransferRWA_Marshal MsgTransferRWA_Unmarshal MsgTransferRWA_wf
  by unfold_locales (rule MsgTransferRWA_roundtrip)

subsection \<open>MsgUpdateRestrictions\<close>

definition zero_MsgUpdateRestrictions :: MsgUpdateRestrictions where
  "zero_MsgUpdateRestrictions = \<lparr>mur_Issuer = [], mur_AssetId = [], mur_AllowAll = False, mur_AddAllow = [], mur_DelAllow = [], mur_AddDeny = [], mur_DelDeny = []\<rparr>"

definition MsgUpdateRestrictions_Size :: "MsgUpdateRestrictions \<Rightarrow> nat" where
  "MsgUpdateRestrictions_Size m =
     size_string (mur_Issuer m) +
     size_string (mur_AssetId m) +
     size_bool (mur_AllowAll m) +
     size_strings (mur_AddAllow m) +
     size_strings (mur_DelAllow m) +
     size_strings (mur_AddDeny m) +
     size_strings (mur_DelDeny m)"

definition MsgUpdateRestrictions_MarshalToSizedBuffer :: "MsgUpdateRestrictions \<Rightarrow> bytes outcome" where
  "MsgUpdateRestrictions_MarshalToSizedBuffer m =
     Ok (put_string 10 (mur_Issuer m)
       (put_string 18 (mur_AssetId m)
       (put_bool 24 (mur_AllowAll m)
       (put_strings 34 (mur_AddAllow m)
       (put_strings 42 (mur_DelAllow m)
       (put_strings 50 (mur_AddDeny m)
       (put_strings 58 (mur_DelDeny m)
       [])))))))"

definition MsgUpdateRestrictions_Marshal :: "MsgUpdateRestrictions \<Rightarrow> bytes outcome" where
  "MsgUpdateRestrictions_Marshal m = sized_buffer (MsgUpdateRestrictions_Size m) (MsgUpdateRestrictions_MarshalToSizedBuffer m)"

definition MsgUpdateRestrictions_field :: "MsgUpdateRestrictions handler" where
  "MsgUpdateRestrictions_field fieldNum wireType pre cur m =
     (if fieldNum = 1 then field_string wireType cur (\<lambda>v m. m\<lparr>mur_Issuer := v\<rparr>) m
      else if fieldNum = 2 then field_string wireType cur (\<lambda>v m. m\<lparr>mur_AssetId := v\<rparr>) m
      else if fieldNum = 3 then field_bool wireType cur (\<lambda>v m. m\<lparr>mur_AllowAll := v\<rparr>) m
      else if fieldNum = 4 then field_string wireType cur (\<lambda>v m. m\<lparr>mur_AddAllow := mur_AddAllow m @ [v]\<rparr>) m
      else if fieldNum = 5 then field_string wireType cur (\<lambda>v m. m\<lparr>mur_DelAllow := mur_DelAllow m @ [v]\<rparr>) m
      else if fieldNum = 6 then field_string wireType cur (\<lambda>v m. m\<lparr>mur_AddDeny := mur_AddDeny m @ [v]\<rparr>) m
      else if fieldNum = 7 then field_string wireType cur (\<lambda>v m. m\<lparr>mur_DelDeny := mur_DelDeny m @ [v]\<rparr>) m
      else field_skip pre m)"

definition MsgUpdateRestrictions_Unmarshal :: "bytes \<Rightarrow> MsgUpdateRestrictions outcome" where
  "MsgUpdateRestrictions_Unmarshal dAtA = unmarshal_loop MsgUpdateRestrictions_field zero_MsgUpdateRestrictions 0 dAtA"

definition MsgUpdateRestrictions_wf :: "MsgUpdateRestrictions \<Rightarrow> bool" where
  "MsgUpdateRestrictions_wf m \<longleftrightarrow> MsgUpdateRestrictions_Size m < 2 ^ 63"

lemma MsgUpdateRestrictions_handler:
  "MsgUpdateRestrictions_field 1 2 pre cur m = field_string 2 cur (\<lambda>v m. m\<lparr>mur_Issuer := v\<rparr>) m"
  "MsgUpdateRestrictions_field 2 2 pre cur m = field_string 2 cur (\<lambda>v m. m\<lparr>mur_AssetId := v\<rparr>) m"
  "MsgUpdateRestrictions_field 3 0 pre cur m = field_bool 0 cur (\<lambda>v m. m\<lparr>mur_AllowAll := v\<rparr>) m"
  "MsgUpdateRestrictions_field 4 2 pre cur m = field_string 2 cur (\<lambda>v m. m\<lparr>mur_AddAllow := mur_AddAllow m @ [v]\<rparr>) m"
  "MsgUpdateRestrictions_field 5 2 pre cur m = field_string 2 cur (\<lambda>v m. m\<lparr>mur_DelAllow := mur_DelAllow m @ [v]\<rparr>) m"
  "MsgUpdateRestrictions_field 6 2 pre cur m = field_string 2 cur (\<lambda>v m. m\<lparr>mur_AddDeny := mur_AddDeny m @ [v]\<rparr>) m"
  "MsgUpdateRestrictions_field 7 2 pre cur m = field_string 2 cur (\<lambda>v m. m\<lparr>mur_DelDeny := mur_DelDeny m @ [v]\<rparr>) m"
  by (simp_all add: MsgUpdateRestrictions_field_def)

lemma fold_append_mur_AddAllow: "fold (\<lambda>v m. m\<lparr>mur_AddAllow := mur_AddAllow m @ [v]\<rparr>) xs m = m\<lparr>mur_AddAllow := mur_AddAllow m @ xs\<rparr>"
  by (induction xs arbitrary: m) simp_all

lemma fold_append_mur_DelAllow: "fold (\<lambda>v m. m\<lparr>mur_DelAllow := mur_DelAllow m @ [v]\<rparr>) xs m = m\<lparr>mur_DelAllow := mur_DelAllow m @ xs\<rparr>"
  by (induction xs arbitrary: m) simp_all

lemma fold_append_mur_AddDeny: "fold (\<lambda>v m. m\<lparr>mur_AddDeny := mur_AddDeny m @ [v]\<rparr>) xs m = m\<lparr>mur_AddDeny := mur_AddDeny m @ xs\<rparr>"
  by (induction xs arbitrary: m) simp_all

lemma fold_append_mur_DelDeny: "fold (\<lambda>v m. m\<lparr>mur_DelDeny := mur_DelDeny m @ [v]\<rparr>) xs m = m\<lparr>mur_DelDeny := mur_DelDeny m @ xs\<rparr>"
  by (induction xs arbitrary: m) simp_all

lemmas MsgUpdateRestrictions_steps =
  loop_string [where h = MsgUpdateRestrictions_field, OF MsgUpdateRestrictions_handler(1)]
  loop_string [where h = MsgUpdateRestrictions_field, OF MsgUpdateRestrictions_handler(2)]
  loop_bool [where h = MsgUpdateRestrictions_field, OF MsgUpdateRestrictions_handler(3)]
  loop_strings [where h = MsgUpdateRestrictions_field, OF MsgUpdateRestrictions_handler(4)]
  loop_strings [where h = MsgUpdateRestrictions_field, OF MsgUpdateRestrictions_handler(5)]
  loop_strings [where h = MsgUpdateRestrictions_field, OF MsgUpdateRestrictions_handler(6)]
  loop_strings [where h = MsgUpdateRestrictions_field, OF MsgUpdateRestrictions_handler(7)]

lemma MsgUpdateRestrictions_roundtrip:
  assumes wf: "MsgUpdateRestrictions_wf m"
  shows "\<exists>bz. MsgUpdateRestrictions_Marshal m = Ok bz \<and> length bz = MsgUpdateRestrictions_Size m \<and> MsgUpdateRestrictions_Unmarshal bz = Ok m"
proof -
  define bz where "bz = put_string 10 (mur_Issuer m)
       (put_string 18 (mur_AssetId m)
       (put_bool 24 (mur_AllowAll m)
       (put_strings 34 (mur_AddAllow m)
       (put_strings 42 (mur_DelAllow m)
       (put_strings 50 (mur_AddDeny m)
       (put_strings 58 (mur_DelDeny m)
       []))))))"
  have w: "MsgUpdateRestrictions_MarshalToSizedBuffer m = Ok bz"
    by (simp add: MsgUpdateRestrictions_MarshalToSizedBuffer_def bz_def )
  have len: "length bz = MsgUpdateRestrictions_Size m"
    by (simp add: bz_def MsgUpdateRestrictions_Size_def )
  have lt: "length bz < 2 ^ 63" using wf by (simp add: len MsgUpdateRestrictions_wf_def)
  have "MsgUpdateRestrictions_Marshal m = Ok bz"
    by (simp add: MsgUpdateRestrictions_Marshal_def w len sized_buffer_exact)
  moreover have "MsgUpdateRestrictions_Unmarshal bz = Ok m"
    using wf lt
    by (simp add: MsgUpdateRestrictions_Unmarshal_def bz_def MsgUpdateRestrictions_steps fits_int_def zero_MsgUpdateRestrictions_def  fold_append_mur_AddAllow fold_append_mur_DelAllow fold_append_mur_AddDeny fold_append_mur_DelDeny)
  ultimately show ?thesis using len by blast
qed

interpretation MsgUpdateRestrictions_codec: message_codec MsgUpdateRestrictions_Size MsgUpdateRestrictions_Marshal MsgUpdateRestrictions_Unmarshal MsgUpdateRestrictions_wf
  by unfold_locales (rule MsgUpdateRestrictions_roundtrip)

end
