(* ===== verification/Pulsar.thy ===== *)
theory Pulsar
  imports Sdk Wire
begin

text \<open>
  What the generated client package \<open>api/vertix\<close> (\<open>*.pulsar.go\<close>) has in common: protobuf
  reflection by field name and the fast paths \<open>size\<close>, \<open>marshal\<close> and \<open>unmarshal\<close> of
  \<open>ProtoMethods\<close>. The runtime these call (\<open>cosmos-proto/runtime\<close>, and \<open>proto.Size\<close>,
  \<open>proto.Marshal\<close> and \<open>proto.Unmarshal\<close> on a \<open>timestamppb.Timestamp\<close>) is not part of the
  repository: it is the argument \<open>pulsar_runtime\<close>, and \<open>runtime_laws\<close> says what the wire
  format promises of it. The locale \<open>reflected_message\<close> is the contract of a message's
  reflection methods, with the copy by \<open>Range\<close> and \<open>Set\<close> as its client.
\<close>

section \<open>The runtime\<close>

record timestamp =
  ts_Seconds :: int
  ts_Nanos :: int

definition zero_timestamp :: timestamp where
  "zero_timestamp = \<lparr>ts_Seconds = 0, ts_Nanos = 0\<rparr>"

record pulsar_runtime =
  rt_Sov :: "int \<Rightarrow> nat"
  rt_EncodeVarint :: "int \<Rightarrow> bytes"
  rt_Skip :: "bytes \<Rightarrow> int outcome"
  ts_Size :: "timestamp \<Rightarrow> nat"
  ts_Marshal :: "timestamp \<Rightarrow> bytes outcome"
  ts_Unmarshal :: "bytes \<Rightarrow> timestamp \<Rightarrow> timestamp outcome"

text \<open>
  The wire format: an unsigned integer is written in base 128, \<open>Sov\<close> is the number of bytes
  that takes, and a timestamp that is encoded and decoded into an empty one comes back.
\<close>

definition runtime_laws :: "pulsar_runtime \<Rightarrow> bool" where
  "runtime_laws R \<longleftrightarrow>
     (\<forall>v. 0 \<le> v \<and> v < 2 ^ 64 \<longrightarrow>
        rt_EncodeVarint R v = encodeVarint v \<and> rt_Sov R v = length (encodeVarint v)) \<and>
     (\<forall>t. is_i64 (ts_Seconds t) \<and> is_i32 (ts_Nanos t) \<longrightarrow>
        (\<exists>bz. ts_Marshal R t = Ok bz \<and> length bz = ts_Size R t \<and>
              ts_Unmarshal R bz zero_timestamp = Ok t))"

lemma runtime_varint:
  "runtime_laws R \<Longrightarrow> rt_EncodeVarint R (u64 v) = encodeVarint (u64 v)"
  "runtime_laws R \<Longrightarrow> rt_Sov R (u64 v) = sov (u64 v)"
  by (simp_all add: runtime_laws_def length_encodeVarint u64_range [simplified])

lemma runtime_length:
  assumes "runtime_laws R" and "l < 2 ^ 63"
  shows "rt_EncodeVarint R (int l) = encodeVarint (int l)" and "rt_Sov R (int l) = sov (int l)"
  using assms by (simp_all add: runtime_laws_def length_encodeVarint)

definition valid_timestamp :: "timestamp \<Rightarrow> bool" where
  "valid_timestamp t \<longleftrightarrow> is_i64 (ts_Seconds t) \<and> is_i32 (ts_Nanos t)"

lemma runtime_timestamp:
  assumes "runtime_laws R" and "valid_timestamp t"
  obtains bz where "ts_Marshal R t = Ok bz" and "ts_Size R t = length bz"
    and "ts_Unmarshal R bz zero_timestamp = Ok t"
  using assms unfolding runtime_laws_def valid_timestamp_def by metis

section \<open>Sizes and buffers\<close>

text \<open>
  \<open>n += 1 + l + runtime.Sov(uint64(l))\<close> and its variants. A message is a pointer: \<open>None\<close> is
  nil, which is not written.
\<close>

definition rt_size_bytes :: "pulsar_runtime \<Rightarrow> nat \<Rightarrow> nat" where
  "rt_size_bytes R l = 1 + l + rt_Sov R (u64 (int l))"

definition rt_size_string :: "pulsar_runtime \<Rightarrow> string \<Rightarrow> nat" where
  "rt_size_string R s = (if 0 < length s then rt_size_bytes R (length s) else 0)"

definition rt_size_int64 :: "pulsar_runtime \<Rightarrow> int \<Rightarrow> nat" where
  "rt_size_int64 R x = (if x \<noteq> 0 then 1 + rt_Sov R (u64 x) else 0)"

definition rt_size_strings :: "pulsar_runtime \<Rightarrow> string list \<Rightarrow> nat" where
  "rt_size_strings R xs = (\<Sum>s\<leftarrow>xs. rt_size_bytes R (length s))"

definition rt_size_message :: "pulsar_runtime \<Rightarrow> ('m option \<Rightarrow> nat) \<Rightarrow> 'm option \<Rightarrow> nat" where
  "rt_size_message R sz m = (if m = None then 0 else rt_size_bytes R (sz m))"

text \<open>The buffer is filled from its end; each step puts a field before what is there.\<close>

definition rt_put_bytes :: "pulsar_runtime \<Rightarrow> int \<Rightarrow> bytes \<Rightarrow> bytes \<Rightarrow> bytes" where
  "rt_put_bytes R tag bz acc = byte tag # rt_EncodeVarint R (u64 (int (length bz))) @ bz @ acc"

definition rt_put_string :: "pulsar_runtime \<Rightarrow> int \<Rightarrow> string \<Rightarrow> bytes \<Rightarrow> bytes" where
  "rt_put_string R tag s acc = (if 0 < length s then rt_put_bytes R tag s acc else acc)"

definition rt_put_int64 :: "pulsar_runtime \<Rightarrow> int \<Rightarrow> int \<Rightarrow> bytes \<Rightarrow> bytes" where
  "rt_put_int64 R tag x acc = (if x \<noteq> 0 then byte tag # rt_EncodeVarint R (u64 x) @ acc else acc)"

definition rt_put_strings :: "pulsar_runtime \<Rightarrow> int \<Rightarrow> string list \<Rightarrow> bytes \<Rightarrow> bytes" where
  "rt_put_strings R tag xs acc = foldr (rt_put_bytes R tag) xs acc"

definition rt_put_message :: "pulsar_runtime \<Rightarrow> int \<Rightarrow> bytes option \<Rightarrow> bytes \<Rightarrow> bytes" where
  "rt_put_message R tag encoded acc =
     (case encoded of None \<Rightarrow> acc | Some bz \<Rightarrow> rt_put_bytes R tag bz acc)"

text \<open>\<open>options.Marshal\<close> of a message field that is not nil.\<close>

definition rt_marshal_message :: "('m option \<Rightarrow> bytes outcome) \<Rightarrow> 'm option \<Rightarrow> bytes option outcome" where
  "rt_marshal_message mar m = (if m = None then Ok None else obind (mar m) (\<lambda>bz. Ok (Some bz)))"

text \<open>
  \<open>dAtA := make([]byte, size)\<close>, filled from the end and appended whole to \<open>input.Buf\<close>;
  writing before its start panics.
\<close>

definition rt_buffer :: "bytes \<Rightarrow> nat \<Rightarrow> bytes \<Rightarrow> bytes outcome" where
  "rt_buffer buf n written =
     (if n < length written then Panic
      else Ok (buf @ replicate (n - length written) (byte 0) @ written))"

text \<open>The timestamp's own methods, on a pointer.\<close>

definition timestamp_size :: "pulsar_runtime \<Rightarrow> timestamp option \<Rightarrow> nat" where
  "timestamp_size R m = (case m of None \<Rightarrow> 0 | Some t \<Rightarrow> ts_Size R t)"

definition timestamp_marshal :: "pulsar_runtime \<Rightarrow> timestamp option \<Rightarrow> bytes outcome" where
  "timestamp_marshal R m = (case m of None \<Rightarrow> Ok [] | Some t \<Rightarrow> ts_Marshal R t)"

definition timestamp_unmarshal :: "pulsar_runtime \<Rightarrow> bytes \<Rightarrow> timestamp option \<Rightarrow> timestamp option outcome" where
  "timestamp_unmarshal R bz m =
     (case m of None \<Rightarrow> Ok None | Some t \<Rightarrow> obind (ts_Unmarshal R bz t) (\<lambda>t. Ok (Some t)))"

section \<open>Reading fields\<close>

text \<open>
  The \<open>default\<close> branch: the bytes of an unknown field are kept, unless they are to be
  discarded.
\<close>

definition field_unknown ::
    "pulsar_runtime \<Rightarrow> bool \<Rightarrow> int \<times> bytes \<Rightarrow> (bytes \<Rightarrow> 'm \<Rightarrow> 'm) \<Rightarrow> 'm \<Rightarrow> ('m \<times> int) outcome" where
  "field_unknown R discardUnknown pre put m = (case pre of (preIndex, rest) \<Rightarrow>
     obind (rt_Skip R rest) (\<lambda>skippy.
       if skippy < 0 \<or> i64 (preIndex + skippy) < 0 then Err ErrInvalidLength
       else if preIndex + skippy > preIndex + int (length rest) then Err ErrUnexpectedEOF
       else Ok (if discardUnknown then m else put (take (nat skippy) rest) m, preIndex + skippy)))"

text \<open>
  A message field: allocated if it is nil, then \<open>options.Unmarshal\<close> merges the bytes into it.
\<close>

definition field_merge ::
    "int \<Rightarrow> int \<times> bytes \<Rightarrow> (bytes \<Rightarrow> 'v option \<Rightarrow> 'v option outcome) \<Rightarrow> 'v \<Rightarrow>
     ('m \<Rightarrow> 'v option) \<Rightarrow> ('v option \<Rightarrow> 'm \<Rightarrow> 'm) \<Rightarrow> 'm \<Rightarrow> ('m \<times> int) outcome" where
  "field_merge wireType cur dec zero get put m =
     (if wireType \<noteq> 2 then Err ErrWireType
      else obind (read_len (fst cur) (snd cur)) (\<lambda>(bz, i).
        obind (dec bz (if get m = None then Some zero else get m)) (\<lambda>v. Ok (put v m, i))))"

section \<open>The runtime writes the wire format\<close>

lemma u64_length: "l < 2 ^ 63 \<Longrightarrow> u64 (int l) = int l"
  by (simp add: u64_def)

lemma rt_put_eq:
  assumes R: "runtime_laws R"
  shows "length bz < 2 ^ 63 \<Longrightarrow> rt_put_bytes R tag bz acc = put_bytes tag bz acc"
    and "length s < 2 ^ 63 \<Longrightarrow> rt_put_string R tag s acc = put_string tag s acc"
    and "rt_put_int64 R tag x acc = put_int64 tag x acc"
  by (simp_all add: rt_put_bytes_def put_bytes_def rt_put_string_def put_string_def rt_put_int64_def
      put_int64_def runtime_varint [OF R] runtime_length [OF R] u64_length)

lemma rt_size_eq:
  assumes R: "runtime_laws R"
  shows "l < 2 ^ 63 \<Longrightarrow> rt_size_bytes R l = size_bytes l"
    and "length s < 2 ^ 63 \<Longrightarrow> rt_size_string R s = size_string s"
    and "rt_size_int64 R x = size_int64 x"
  by (simp_all add: rt_size_bytes_def size_bytes_def rt_size_string_def size_string_def
      rt_size_int64_def size_int64_def runtime_varint [OF R] runtime_length [OF R] u64_length)

lemma rt_strings_eq:
  assumes R: "runtime_laws R" and "\<forall>s\<in>set xs. length s < 2 ^ 63"
  shows "rt_put_strings R tag xs acc = put_strings tag xs acc" and "rt_size_strings R xs = size_strings xs"
  using assms(2) by (induction xs)
    (simp_all add: rt_put_strings_def put_strings_def rt_size_strings_def size_strings_def
      rt_put_eq [OF R] rt_size_eq [OF R])

text \<open>The size of a field bounds its content.\<close>

lemma rt_size_ge:
  "length s \<le> rt_size_string R s" "l \<le> rt_size_bytes R l"
  by (simp_all add: rt_size_string_def rt_size_bytes_def)

lemma rt_size_strings_ge: "s \<in> set xs \<Longrightarrow> length s \<le> rt_size_strings R xs"
  by (induction xs) (auto simp: rt_size_strings_def rt_size_bytes_def)

lemma rt_buffer_exact: "length written = n \<Longrightarrow> rt_buffer buf n written = Ok (buf @ written)"
  by (simp add: rt_buffer_def)

text \<open>A message field in the wire format: nothing when it is nil.\<close>

definition put_message :: "int \<Rightarrow> bytes option \<Rightarrow> bytes \<Rightarrow> bytes" where
  "put_message tag encoded acc = (case encoded of None \<Rightarrow> acc | Some bz \<Rightarrow> put_bytes tag bz acc)"

definition size_message :: "bytes option \<Rightarrow> nat" where
  "size_message encoded = (case encoded of None \<Rightarrow> 0 | Some bz \<Rightarrow> size_bytes (length bz))"

lemma length_put_message [simp]: "length (put_message tag e acc) = size_message e + length acc"
  by (simp add: put_message_def size_message_def split: option.split)

definition message_encoded ::
    "('v option \<Rightarrow> nat) \<Rightarrow> ('v option \<Rightarrow> bytes outcome) \<Rightarrow> (bytes \<Rightarrow> 'v option \<Rightarrow> 'v option outcome) \<Rightarrow>
     'v \<Rightarrow> 'v option \<Rightarrow> bytes option \<Rightarrow> bool" where
  "message_encoded sz mar dec zero m e \<longleftrightarrow>
     (case m of None \<Rightarrow> e = None
      | Some _ \<Rightarrow> (\<exists>bz. e = Some bz \<and> mar m = Ok bz \<and> sz m = length bz \<and> dec bz (Some zero) = Ok m))"

lemma message_encoded_marshal: "message_encoded sz mar dec zero m e \<Longrightarrow> rt_marshal_message mar m = Ok e"
  by (auto simp: message_encoded_def rt_marshal_message_def split: option.splits)

lemma message_encoded_size:
  "runtime_laws R \<Longrightarrow> message_encoded sz mar dec zero m e \<Longrightarrow> rt_size_message R sz m < 2 ^ 63 \<Longrightarrow>
   rt_size_message R sz m = size_message e \<and> rt_put_message R tag e acc = put_message tag e acc"
  using rt_size_ge(2) [of "sz m" R]
  by (auto simp: message_encoded_def rt_size_message_def size_message_def rt_put_message_def put_message_def
      rt_size_eq rt_put_eq split: option.splits)

lemma message_encoded_timestamp:
  assumes R: "runtime_laws R" and v: "case m of None \<Rightarrow> True | Some t \<Rightarrow> valid_timestamp t"
  obtains e where "message_encoded (timestamp_size R) (timestamp_marshal R) (timestamp_unmarshal R) zero_timestamp m e"
proof (cases m)
  case None
  then show thesis using that [of None] by (simp add: message_encoded_def)
next
  case (Some t)
  then have "valid_timestamp t" using v by simp
  then obtain bz where "ts_Marshal R t = Ok bz" "ts_Size R t = length bz" "ts_Unmarshal R bz zero_timestamp = Ok t"
    by (rule runtime_timestamp [OF R])
  then show thesis
    using Some that [of "Some bz"]
    by (simp add: message_encoded_def timestamp_marshal_def timestamp_size_def timestamp_unmarshal_def)
qed

lemma loop_merge:
  assumes h: "\<And>pre cur m. h f 2 pre cur m = field_merge 2 cur dec zero get put m"
    and t: "tag = 8 * f + 2" and f: "0 < f" "f < 16" and fits: "fits_int i (put_message tag e rest)"
    and e: "message_encoded sz mar dec zero v e" and z: "get m = None" "v = None \<Longrightarrow> put v m = m"
  shows "unmarshal_loop h m i (put_message tag e rest) =
           unmarshal_loop h (put v m) (i + int (size_message e)) rest"
proof (cases e)
  case None
  then have "v = None" using e by (cases v) (auto simp: message_encoded_def)
  with None z(2) show ?thesis by (simp add: put_message_def size_message_def)
next
  case (Some bz)
  then have d: "dec bz (Some zero) = Ok v" using e by (cases v) (auto simp: message_encoded_def)
  have "unmarshal_loop h m i (put_bytes (8 * f + 2) bz rest) =
      unmarshal_loop h (put v m) (i + int (size_bytes (length bz))) rest"
    using f fits Some unfolding t
    by (intro loop_bytes [where upd = "\<lambda>s. obind (dec s (Some zero)) (\<lambda>v. Ok (put v m))"])
      (simp_all add: h field_merge_def split_beta obind_assoc z(1) d put_message_def)
  with Some t show ?thesis by (simp add: put_message_def size_message_def)
qed

section \<open>Reflection\<close>

text \<open>
  A \<open>protoreflect.Value\<close>. A list is the wrapper type of its field and the slice it points
  to (\<open>None\<close> for the empty read-only list); a message is a pointer. Slices and messages
  are values here: what a caller does later through a reference it kept is not modelled.
\<close>

datatype 'v reflect_value =
    StringValue string
  | Int64Value int
  | BoolValue bool
  | EnumValue int
  | ListValue string "string list option"
  | MessageValue "'v option"

text \<open>The conversions \<open>Set\<close> applies; a value of another kind panics.\<close>

fun as_string :: "'v reflect_value \<Rightarrow> string outcome" where
  "as_string (StringValue s) = Ok s"
| "as_string _ = Panic"

fun as_int64 :: "'v reflect_value \<Rightarrow> int outcome" where
  "as_int64 (Int64Value n) = Ok n"
| "as_int64 _ = Panic"

fun as_bool :: "'v reflect_value \<Rightarrow> bool outcome" where
  "as_bool (BoolValue b) = Ok b"
| "as_bool _ = Panic"

fun as_enum :: "'v reflect_value \<Rightarrow> int outcome" where
  "as_enum (EnumValue n) = Ok n"
| "as_enum _ = Panic"

text \<open>\<open>*value.List().(*wrapper).list\<close>.\<close>

fun as_list :: "string \<Rightarrow> 'v reflect_value \<Rightarrow> string list outcome" where
  "as_list ty (ListValue ty' l) = (if ty' = ty then (case l of Some xs \<Rightarrow> Ok xs | None \<Rightarrow> Panic) else Panic)"
| "as_list ty _ = Panic"

fun as_message :: "'v reflect_value \<Rightarrow> 'v option outcome" where
  "as_message (MessageValue m) = Ok m"
| "as_message _ = Panic"

definition list_value :: "string \<Rightarrow> string list \<Rightarrow> 'v reflect_value" where
  "list_value ty xs = ListValue ty (if length xs = 0 then None else Some xs)"

lemma list_value_simps:
  "list_value ty xs = list_value ty' ys \<longleftrightarrow> ty = ty' \<and> xs = ys"
  "xs \<noteq> [] \<Longrightarrow> as_list ty (list_value ty xs) = Ok xs"
  by (auto simp: list_value_def)

text \<open>
  One step of \<open>Range\<close>: a populated field is given to the callback, and the walk stops when
  it returns false. The callback's own state is threaded through.
\<close>

definition range_field ::
    "bool \<Rightarrow> string \<Rightarrow> 'v reflect_value \<Rightarrow> (string \<Rightarrow> 'v reflect_value \<Rightarrow> 's \<Rightarrow> (bool \<times> 's) outcome) \<Rightarrow>
     ('s \<Rightarrow> 's outcome) \<Rightarrow> 's \<Rightarrow> 's outcome" where
  "range_field populated fd v f rest s =
     (if populated then obind (f fd v s) (\<lambda>(go, s). if go then rest s else Ok s) else rest s)"

fun range_list ::
    "(string \<Rightarrow> 'v reflect_value \<Rightarrow> 's \<Rightarrow> (bool \<times> 's) outcome) \<Rightarrow> (string \<times> 'v reflect_value) list \<Rightarrow>
     's \<Rightarrow> 's outcome" where
  "range_list f [] s = Ok s"
| "range_list f ((fd, v) # fvs) s = obind (f fd v s) (\<lambda>(go, s). if go then range_list f fvs s else Ok s)"

lemma range_field_Cons:
  "range_field populated fd v f (range_list f fvs) = range_list f ((if populated then [(fd, v)] else []) @ fvs)"
  by (rule ext) (simp add: range_field_def)

lemma range_field_last:
  "range_field populated fd v f Ok = range_list f (if populated then [(fd, v)] else [])"
proof
  show "range_field populated fd v f Ok s = range_list f (if populated then [(fd, v)] else []) s" for s
    by (cases "f fd v s") (auto simp: range_field_def)
qed

text \<open>The copy a client makes: every populated field of one message is set in another.\<close>

definition copy_field ::
    "(string \<Rightarrow> 'v reflect_value \<Rightarrow> 'm \<Rightarrow> 'm outcome) \<Rightarrow> string \<Rightarrow> 'v reflect_value \<Rightarrow> 'm \<Rightarrow> (bool \<times> 'm) outcome" where
  "copy_field Set fd v y = obind (Set fd v y) (\<lambda>y. Ok (True, y))"

lemma range_copy_Cons:
  "range_list (copy_field Set) ((fd, v) # fvs) y = obind (Set fd v y) (range_list (copy_field Set) fvs)"
  by (cases "Set fd v y") (simp_all add: copy_field_def)

lemmas field_cases = list.map list.set insert_iff empty_iff simp_thms

fun populated ::
    "string list \<Rightarrow> (string \<Rightarrow> bool outcome) \<Rightarrow> (string \<Rightarrow> 'v reflect_value outcome) \<Rightarrow> (string \<times> 'v reflect_value) list" where
  "populated [] has get = []"
| "populated (fd # fds) has get =
     (if has fd = Ok True then (case get fd of Ok v \<Rightarrow> [(fd, v)] | _ \<Rightarrow> []) else []) @ populated fds has get"

locale reflected_message =
  fixes fields :: "string list"
    and Range :: "(string \<Rightarrow> 'v reflect_value \<Rightarrow> 'm \<Rightarrow> (bool \<times> 'm) outcome) \<Rightarrow> 'm \<Rightarrow> 'm \<Rightarrow> 'm outcome"
    and Has :: "string \<Rightarrow> 'm \<Rightarrow> bool outcome"
    and Clear :: "string \<Rightarrow> 'm \<Rightarrow> 'm outcome"
    and Get :: "string \<Rightarrow> 'm \<Rightarrow> 'v reflect_value outcome"
    and Set :: "string \<Rightarrow> 'v reflect_value \<Rightarrow> 'm \<Rightarrow> 'm outcome"
    and unknown :: "'m \<Rightarrow> bytes"
    and zero :: 'm
  assumes fields_distinct: "distinct fields"
    and Get_defined: "fd \<in> set fields \<Longrightarrow> \<exists>v. Get fd x = Ok v"
    and Get_Set: "fd \<in> set fields \<Longrightarrow> Has fd x = Ok True \<Longrightarrow> Get fd x = Ok v \<Longrightarrow>
        \<exists>y'. Set fd v y = Ok y' \<and> Get fd y' = Ok v \<and> unknown y' = unknown y \<and>
             (\<forall>g\<in>set fields. g \<noteq> fd \<longrightarrow> Get g y' = Get g y)"
    and Has_iff: "fd \<in> set fields \<Longrightarrow> Has fd x = Ok (Get fd x \<noteq> Get fd zero)"
    and Clear_zero: "fd \<in> set fields \<Longrightarrow> \<exists>x'. Clear fd x = Ok x' \<and> Get fd x' = Get fd zero \<and>
        unknown x' = unknown x \<and> (\<forall>g\<in>set fields. g \<noteq> fd \<longrightarrow> Get g x' = Get g x)"
    and Range_eq: "Range f x =
        range_list f (populated fields (\<lambda>fd. Has fd x) (\<lambda>fd. Get fd x))"
    and other_panics: "fd \<notin> set fields \<Longrightarrow>
        Has fd x = Panic \<and> Get fd x = Panic \<and> Set fd v x = Panic \<and> Clear fd x = Panic"
    and message_eqI: "(\<And>fd. fd \<in> set fields \<Longrightarrow> Get fd x = Get fd y) \<Longrightarrow> unknown x = unknown y \<Longrightarrow> x = y"
begin

lemma Has_Clear: "fd \<in> set fields \<Longrightarrow> \<exists>x'. Clear fd x = Ok x' \<and> Has fd x' = Ok False"
  using Clear_zero [of fd x] Has_iff by fastforce

lemma copy_some:
  assumes "set fds \<subseteq> set fields" and "distinct fds"
    and "\<forall>fd\<in>set fds. Get fd y = Get fd zero"
  shows "\<exists>y'. range_list (copy_field Set)
             (populated fds (\<lambda>fd. Has fd x) (\<lambda>fd. Get fd x)) y = Ok y' \<and>
           unknown y' = unknown y \<and> (\<forall>fd\<in>set fds. Get fd y' = Get fd x) \<and>
           (\<forall>fd\<in>set fields - set fds. Get fd y' = Get fd y)"
  using assms
proof (induction fds arbitrary: y)
  case Nil
  then show ?case by simp
next
  case (Cons fd fds)
  obtain v where v: "Get fd x = Ok v" using Get_defined [of fd x] Cons.prems(1) by auto
  show ?case
  proof (cases "Has fd x = Ok True")
    case True
    then obtain y1 where y1: "Set fd v y = Ok y1" "Get fd y1 = Ok v" "unknown y1 = unknown y"
        "\<forall>g\<in>set fields. g \<noteq> fd \<longrightarrow> Get g y1 = Get g y"
      using Get_Set [of fd x v y] Cons.prems(1) v by auto
    have "\<forall>g\<in>set fds. Get g y1 = Get g zero"
    proof
      fix g assume "g \<in> set fds"
      then have "g \<in> set fields" "g \<noteq> fd" "Get g y = Get g zero" using Cons.prems by auto
      then show "Get g y1 = Get g zero" using y1(4) by simp
    qed
    from Cons.IH [OF _ _ this] Cons.prems(1, 2) obtain y' where y': "range_list (copy_field Set)
             (populated fds (\<lambda>fd. Has fd x) (\<lambda>fd. Get fd x)) y1 = Ok y'"
        "unknown y' = unknown y1" "\<forall>g\<in>set fds. Get g y' = Get g x" "\<forall>g\<in>set fields - set fds. Get g y' = Get g y1"
      by auto
    have "Get fd y' = Get fd x" using y'(4) y1(2) v Cons.prems(1, 2) by auto
    then show ?thesis using True v y1 y' by (intro exI [of _ y']) (auto simp: range_copy_Cons simp del: range_list.simps(2))
  next
    case False
    then have "Get fd y = Get fd x" using Has_iff [of fd x] Cons.prems(1, 3) by auto
    moreover from Cons.IH [of y] Cons.prems obtain y' where y': "range_list (copy_field Set)
             (populated fds (\<lambda>fd. Has fd x) (\<lambda>fd. Get fd x)) y = Ok y'"
        "unknown y' = unknown y" "\<forall>g\<in>set fds. Get g y' = Get g x" "\<forall>g\<in>set fields - set fds. Get g y' = Get g y"
      by auto
    ultimately show ?thesis using False Cons.prems(1, 2) by (intro exI [of _ y']) auto
  qed
qed

text \<open>Copying into an empty message gives the message back, its unknown fields aside.\<close>

lemma copy_populated:
  "\<exists>y. Range (copy_field Set) x zero = Ok y \<and> unknown y = unknown zero \<and>
       (\<forall>fd\<in>set fields. Get fd y = Get fd x)"
  using copy_some [of fields zero x] fields_distinct by (auto simp: Range_eq)

lemma copy_exact:
  assumes "unknown x = unknown zero"
  shows "Range (copy_field Set) x zero = Ok x"
  using copy_populated [of x] assms message_eqI [of _ x] by fastforce

end

end
