(* ===== verification/Pulsar_Oracle.thy ===== *)
theory Pulsar_Oracle
  imports Pulsar
begin

text \<open>
  The oracle messages of the client package (\<open>api/vertix/oracle/v1/types.pulsar.go\<close> and
  \<open>tx.pulsar.go\<close>): the stored types and the transaction messages, each with its reflection
  methods and the \<open>size\<close>, \<open>marshal\<close> and \<open>unmarshal\<close> of its \<open>ProtoMethods\<close>. Every message
  satisfies the contracts \<open>reflected_message\<close> and \<open>message_codec\<close>.
\<close>

section \<open>Messages\<close>

subsection \<open>OracleFeed\<close>

record api_OracleFeed =
  api_feed_Validator :: string
  api_feed_Pair :: string
  api_feed_Price :: string
  api_feed_BlockHeight :: int
  api_feed_unknownFields :: bytes

definition zero_api_OracleFeed :: api_OracleFeed where
  "zero_api_OracleFeed = \<lparr>api_feed_Validator = [], api_feed_Pair = [], api_feed_Price = [], api_feed_BlockHeight = 0, api_feed_unknownFields = []\<rparr>"

definition OracleFeed_fd :: "string \<Rightarrow> string" where
  "OracleFeed_fd n = ''vertix.oracle.v1.OracleFeed.'' @ n"

lemma OracleFeed_fd_inject [simp]: "OracleFeed_fd a = OracleFeed_fd b \<longleftrightarrow> a = b"
  by (simp add: OracleFeed_fd_def)

definition api_OracleFeed_fields :: "string list" where
  "api_OracleFeed_fields = map OracleFeed_fd [''validator'', ''pair'', ''price'', ''block_height'']"

definition api_OracleFeed_Range ::
    "(string \<Rightarrow> 'v reflect_value \<Rightarrow> 's \<Rightarrow> (bool \<times> 's) outcome) \<Rightarrow> api_OracleFeed \<Rightarrow> 's \<Rightarrow> 's outcome" where
  "api_OracleFeed_Range f x =
     range_field (api_feed_Validator x \<noteq> []) (OracleFeed_fd ''validator'') (StringValue (api_feed_Validator x)) f
      (range_field (api_feed_Pair x \<noteq> []) (OracleFeed_fd ''pair'') (StringValue (api_feed_Pair x)) f
      (range_field (api_feed_Price x \<noteq> []) (OracleFeed_fd ''price'') (StringValue (api_feed_Price x)) f
      (range_field (api_feed_BlockHeight x \<noteq> 0) (OracleFeed_fd ''block_height'') (Int64Value (api_feed_BlockHeight x)) f
      Ok)))"

definition api_OracleFeed_Has :: "string \<Rightarrow> api_OracleFeed \<Rightarrow> bool outcome" where
  "api_OracleFeed_Has fd x =
     (if fd = OracleFeed_fd ''validator'' then Ok (api_feed_Validator x \<noteq> [])
      else if fd = OracleFeed_fd ''pair'' then Ok (api_feed_Pair x \<noteq> [])
      else if fd = OracleFeed_fd ''price'' then Ok (api_feed_Price x \<noteq> [])
      else if fd = OracleFeed_fd ''block_height'' then Ok (api_feed_BlockHeight x \<noteq> 0)
      else Panic)"

definition api_OracleFeed_Clear :: "string \<Rightarrow> api_OracleFeed \<Rightarrow> api_OracleFeed outcome" where
  "api_OracleFeed_Clear fd x =
     (if fd = OracleFeed_fd ''validator'' then Ok (x\<lparr>api_feed_Validator := []\<rparr>)
      else if fd = OracleFeed_fd ''pair'' then Ok (x\<lparr>api_feed_Pair := []\<rparr>)
      else if fd = OracleFeed_fd ''price'' then Ok (x\<lparr>api_feed_Price := []\<rparr>)
      else if fd = OracleFeed_fd ''block_height'' then Ok (x\<lparr>api_feed_BlockHeight := 0\<rparr>)
      else Panic)"

definition api_OracleFeed_Get :: "string \<Rightarrow> api_OracleFeed \<Rightarrow> 'v reflect_value outcome" where
  "api_OracleFeed_Get fd x =
     (if fd = OracleFeed_fd ''validator'' then Ok (StringValue (api_feed_Validator x))
      else if fd = OracleFeed_fd ''pair'' then Ok (StringValue (api_feed_Pair x))
      else if fd = OracleFeed_fd ''price'' then Ok (StringValue (api_feed_Price x))
      else if fd = OracleFeed_fd ''block_height'' then Ok (Int64Value (api_feed_BlockHeight x))
      else Panic)"

definition api_OracleFeed_Set :: "string \<Rightarrow> 'v reflect_value \<Rightarrow> api_OracleFeed \<Rightarrow> api_OracleFeed outcome" where
  "api_OracleFeed_Set fd v x =
     (if fd = OracleFeed_fd ''validator'' then obind (as_string v) (\<lambda>w. Ok (x\<lparr>api_feed_Validator := w\<rparr>))
      else if fd = OracleFeed_fd ''pair'' then obind (as_string v) (\<lambda>w. Ok (x\<lparr>api_feed_Pair := w\<rparr>))
      else if fd = OracleFeed_fd ''price'' then obind (as_string v) (\<lambda>w. Ok (x\<lparr>api_feed_Price := w\<rparr>))
      else if fd = OracleFeed_fd ''block_height'' then obind (as_int64 v) (\<lambda>w. Ok (x\<lparr>api_feed_BlockHeight := w\<rparr>))
      else Panic)"

definition api_OracleFeed_size :: "pulsar_runtime \<Rightarrow> api_OracleFeed option \<Rightarrow> nat" where
  "api_OracleFeed_size R m = (case m of None \<Rightarrow> 0 | Some x \<Rightarrow>
     rt_size_string R (api_feed_Validator x) +
     rt_size_string R (api_feed_Pair x) +
     rt_size_string R (api_feed_Price x) +
     rt_size_int64 R (api_feed_BlockHeight x) + length (api_feed_unknownFields x))"

definition api_OracleFeed_marshal :: "pulsar_runtime \<Rightarrow> bytes \<Rightarrow> api_OracleFeed option \<Rightarrow> bytes outcome" where
  "api_OracleFeed_marshal R buf m = (case m of None \<Rightarrow> Ok buf | Some x \<Rightarrow>
     rt_buffer buf (api_OracleFeed_size R m)
       (rt_put_string R 10 (api_feed_Validator x)
       (rt_put_string R 18 (api_feed_Pair x)
       (rt_put_string R 26 (api_feed_Price x)
       (rt_put_int64 R 32 (api_feed_BlockHeight x)
       (api_feed_unknownFields x))))))"

definition api_OracleFeed_field :: "pulsar_runtime \<Rightarrow> bool \<Rightarrow> api_OracleFeed handler" where
  "api_OracleFeed_field R discardUnknown fieldNum wireType pre cur x =
     (if fieldNum = 1 then field_string wireType cur (\<lambda>v x. x\<lparr>api_feed_Validator := v\<rparr>) x
      else if fieldNum = 2 then field_string wireType cur (\<lambda>v x. x\<lparr>api_feed_Pair := v\<rparr>) x
      else if fieldNum = 3 then field_string wireType cur (\<lambda>v x. x\<lparr>api_feed_Price := v\<rparr>) x
      else if fieldNum = 4 then field_int64 wireType cur (\<lambda>v x. x\<lparr>api_feed_BlockHeight := v\<rparr>) x
      else field_unknown R discardUnknown pre (\<lambda>bz x. x\<lparr>api_feed_unknownFields := api_feed_unknownFields x @ bz\<rparr>) x)"

definition api_OracleFeed_unmarshal :: "pulsar_runtime \<Rightarrow> bool \<Rightarrow> bytes \<Rightarrow> api_OracleFeed option \<Rightarrow> api_OracleFeed option outcome" where
  "api_OracleFeed_unmarshal R discardUnknown dAtA m = (case m of None \<Rightarrow> Ok None | Some x \<Rightarrow>
     obind (unmarshal_loop (api_OracleFeed_field R discardUnknown) x 0 dAtA) (\<lambda>x. Ok (Some x)))"

lemma api_OracleFeed_at:
  "api_OracleFeed_Has (OracleFeed_fd ''validator'') x = Ok (api_feed_Validator x \<noteq> [])"
  "api_OracleFeed_Clear (OracleFeed_fd ''validator'') x = Ok (x\<lparr>api_feed_Validator := []\<rparr>)"
  "api_OracleFeed_Get (OracleFeed_fd ''validator'') x = Ok (StringValue (api_feed_Validator x))"
  "api_OracleFeed_Set (OracleFeed_fd ''validator'') v x = obind (as_string v) (\<lambda>w. Ok (x\<lparr>api_feed_Validator := w\<rparr>))"
  "api_OracleFeed_Has (OracleFeed_fd ''pair'') x = Ok (api_feed_Pair x \<noteq> [])"
  "api_OracleFeed_Clear (OracleFeed_fd ''pair'') x = Ok (x\<lparr>api_feed_Pair := []\<rparr>)"
  "api_OracleFeed_Get (OracleFeed_fd ''pair'') x = Ok (StringValue (api_feed_Pair x))"
  "api_OracleFeed_Set (OracleFeed_fd ''pair'') v x = obind (as_string v) (\<lambda>w. Ok (x\<lparr>api_feed_Pair := w\<rparr>))"
  "api_OracleFeed_Has (OracleFeed_fd ''price'') x = Ok (api_feed_Price x \<noteq> [])"
  "api_OracleFeed_Clear (OracleFeed_fd ''price'') x = Ok (x\<lparr>api_feed_Price := []\<rparr>)"
  "api_OracleFeed_Get (OracleFeed_fd ''price'') x = Ok (StringValue (api_feed_Price x))"
  "api_OracleFeed_Set (OracleFeed_fd ''price'') v x = obind (as_string v) (\<lambda>w. Ok (x\<lparr>api_feed_Price := w\<rparr>))"
  "api_OracleFeed_Has (OracleFeed_fd ''block_height'') x = Ok (api_feed_BlockHeight x \<noteq> 0)"
  "api_OracleFeed_Clear (OracleFeed_fd ''block_height'') x = Ok (x\<lparr>api_feed_BlockHeight := 0\<rparr>)"
  "api_OracleFeed_Get (OracleFeed_fd ''block_height'') x = Ok (Int64Value (api_feed_BlockHeight x))"
  "api_OracleFeed_Set (OracleFeed_fd ''block_height'') v x = obind (as_int64 v) (\<lambda>w. Ok (x\<lparr>api_feed_BlockHeight := w\<rparr>))"
  by (simp_all add: api_OracleFeed_Has_def api_OracleFeed_Clear_def api_OracleFeed_Get_def api_OracleFeed_Set_def)

interpretation OracleFeed_reflect: reflected_message api_OracleFeed_fields api_OracleFeed_Range api_OracleFeed_Has api_OracleFeed_Clear api_OracleFeed_Get api_OracleFeed_Set api_feed_unknownFields zero_api_OracleFeed
proof
  show "distinct api_OracleFeed_fields" by (simp add: api_OracleFeed_fields_def)
next
  show "\<exists>v. api_OracleFeed_Get fd x = Ok v" if "fd \<in> set api_OracleFeed_fields" for fd x
    using that unfolding api_OracleFeed_fields_def field_cases
    by (elim disjE; clarsimp simp: api_OracleFeed_at zero_api_OracleFeed_def list_value_simps)
next
  show "\<exists>y'. api_OracleFeed_Set fd v y = Ok y' \<and> api_OracleFeed_Get fd y' = Ok v \<and> api_feed_unknownFields y' = api_feed_unknownFields y \<and>
      (\<forall>g\<in>set api_OracleFeed_fields. g \<noteq> fd \<longrightarrow> api_OracleFeed_Get g y' = api_OracleFeed_Get g y)"
    if "fd \<in> set api_OracleFeed_fields" "api_OracleFeed_Has fd x = Ok True" "api_OracleFeed_Get fd x = Ok v" for fd x v y
    using that unfolding api_OracleFeed_fields_def field_cases
    by (elim disjE; clarsimp simp: api_OracleFeed_at zero_api_OracleFeed_def list_value_simps)
next
  show "api_OracleFeed_Has fd x = Ok (api_OracleFeed_Get fd x \<noteq> api_OracleFeed_Get fd zero_api_OracleFeed)" if "fd \<in> set api_OracleFeed_fields" for fd x
    using that unfolding api_OracleFeed_fields_def field_cases
    by (elim disjE; clarsimp simp: api_OracleFeed_at zero_api_OracleFeed_def list_value_simps)
next
  show "\<exists>x'. api_OracleFeed_Clear fd x = Ok x' \<and> api_OracleFeed_Get fd x' = api_OracleFeed_Get fd zero_api_OracleFeed \<and> api_feed_unknownFields x' = api_feed_unknownFields x \<and>
      (\<forall>g\<in>set api_OracleFeed_fields. g \<noteq> fd \<longrightarrow> api_OracleFeed_Get g x' = api_OracleFeed_Get g x)" if "fd \<in> set api_OracleFeed_fields" for fd x
    using that unfolding api_OracleFeed_fields_def field_cases
    by (elim disjE; clarsimp simp: api_OracleFeed_at zero_api_OracleFeed_def list_value_simps)
next
  show "api_OracleFeed_Range f x = range_list f (populated api_OracleFeed_fields (\<lambda>fd. api_OracleFeed_Has fd x) (\<lambda>fd. api_OracleFeed_Get fd x))" for f x
    by (simp add: api_OracleFeed_at zero_api_OracleFeed_def api_OracleFeed_fields_def api_OracleFeed_Range_def list_value_def range_field_last range_field_Cons cong: if_cong split del: if_split)
next
  show "api_OracleFeed_Has fd x = Panic \<and> api_OracleFeed_Get fd x = Panic \<and> api_OracleFeed_Set fd v x = Panic \<and> api_OracleFeed_Clear fd x = Panic"
    if "fd \<notin> set api_OracleFeed_fields" for fd x v
    using that by (simp add: api_OracleFeed_fields_def api_OracleFeed_Has_def api_OracleFeed_Get_def api_OracleFeed_Set_def api_OracleFeed_Clear_def)
next
  fix x y :: api_OracleFeed
  assume eq: "\<And>fd. fd \<in> set api_OracleFeed_fields \<Longrightarrow> api_OracleFeed_Get fd x = api_OracleFeed_Get fd y" and u: "api_feed_unknownFields x = api_feed_unknownFields y"
  have "api_feed_Validator x = api_feed_Validator y"
    using eq [of "OracleFeed_fd ''validator''"] by (simp add: api_OracleFeed_fields_def api_OracleFeed_at list_value_simps)
  moreover note u
  moreover
  have "api_feed_Pair x = api_feed_Pair y"
    using eq [of "OracleFeed_fd ''pair''"] by (simp add: api_OracleFeed_fields_def api_OracleFeed_at list_value_simps)
  moreover
  have "api_feed_Price x = api_feed_Price y"
    using eq [of "OracleFeed_fd ''price''"] by (simp add: api_OracleFeed_fields_def api_OracleFeed_at list_value_simps)
  moreover
  have "api_feed_BlockHeight x = api_feed_BlockHeight y"
    using eq [of "OracleFeed_fd ''block_height''"] by (simp add: api_OracleFeed_fields_def api_OracleFeed_at list_value_simps)
  ultimately show "x = y" by (simp add: api_OracleFeed.equality)
qed

text \<open>The values a client's OracleFeed holds: Go integers, and no field it does not know.\<close>

definition api_OracleFeed_wf :: "pulsar_runtime \<Rightarrow> api_OracleFeed \<Rightarrow> bool" where
  "api_OracleFeed_wf R m \<longleftrightarrow> api_feed_unknownFields m = [] \<and> is_i64 (api_feed_BlockHeight m) \<and> api_OracleFeed_size R (Some m) < 2 ^ 63"

lemma api_OracleFeed_handler:
  "api_OracleFeed_field R discardUnknown 1 2 pre cur x = field_string 2 cur (\<lambda>v x. x\<lparr>api_feed_Validator := v\<rparr>) x"
  "api_OracleFeed_field R discardUnknown 2 2 pre cur x = field_string 2 cur (\<lambda>v x. x\<lparr>api_feed_Pair := v\<rparr>) x"
  "api_OracleFeed_field R discardUnknown 3 2 pre cur x = field_string 2 cur (\<lambda>v x. x\<lparr>api_feed_Price := v\<rparr>) x"
  "api_OracleFeed_field R discardUnknown 4 0 pre cur x = field_int64 0 cur (\<lambda>v x. x\<lparr>api_feed_BlockHeight := v\<rparr>) x"
  by (simp_all add: api_OracleFeed_field_def)

lemmas api_OracleFeed_steps =
  loop_string [where h = "api_OracleFeed_field R discardUnknown", OF api_OracleFeed_handler(1)]
  loop_string [where h = "api_OracleFeed_field R discardUnknown", OF api_OracleFeed_handler(2)]
  loop_string [where h = "api_OracleFeed_field R discardUnknown", OF api_OracleFeed_handler(3)]
  loop_int64 [where h = "api_OracleFeed_field R discardUnknown", OF api_OracleFeed_handler(4)]
  for R discardUnknown

lemma api_OracleFeed_roundtrip:
  assumes R: "runtime_laws R" and wf: "api_OracleFeed_wf R m"
  shows "\<exists>bz. (\<forall>buf. api_OracleFeed_marshal R buf (Some m) = Ok (buf @ bz)) \<and> length bz = api_OracleFeed_size R (Some m) \<and>
           api_OracleFeed_unmarshal R discardUnknown bz (Some zero_api_OracleFeed) = Ok (Some m)"
proof -
  have sz: "rt_size_string R (api_feed_Validator m) + rt_size_string R (api_feed_Pair m) + rt_size_string R (api_feed_Price m) + rt_size_int64 R (api_feed_BlockHeight m) < 2 ^ 63"
    using wf by (simp add: api_OracleFeed_wf_def api_OracleFeed_size_def)
  have l_Validator: "length (api_feed_Validator m) < 2 ^ 63" using sz rt_size_ge(1) [of "api_feed_Validator m" R] by linarith
  have l_Pair: "length (api_feed_Pair m) < 2 ^ 63" using sz rt_size_ge(1) [of "api_feed_Pair m" R] by linarith
  have l_Price: "length (api_feed_Price m) < 2 ^ 63" using sz rt_size_ge(1) [of "api_feed_Price m" R] by linarith
  define bz where "bz = put_string 10 (api_feed_Validator m)
       (put_string 18 (api_feed_Pair m)
       (put_string 26 (api_feed_Price m)
       (put_int64 32 (api_feed_BlockHeight m)
       [])))"
  have len: "length bz = api_OracleFeed_size R (Some m)"
    using wf by (simp add: bz_def api_OracleFeed_size_def rt_size_eq(3) [OF R] rt_size_eq(2) [OF R l_Validator] rt_put_eq(2) [OF R l_Validator] rt_size_eq(2) [OF R l_Pair] rt_put_eq(2) [OF R l_Pair] rt_size_eq(2) [OF R l_Price] rt_put_eq(2) [OF R l_Price] api_OracleFeed_wf_def)
  have lt: "length bz < 2 ^ 63" using wf by (simp add: len api_OracleFeed_wf_def)
  have "api_OracleFeed_marshal R buf (Some m) = Ok (buf @ bz)" for buf
  proof -
    have "api_OracleFeed_marshal R buf (Some m) = rt_buffer buf (api_OracleFeed_size R (Some m)) bz"
      using wf by (simp add: api_OracleFeed_marshal_def bz_def rt_put_eq(3) [OF R] rt_size_eq(2) [OF R l_Validator] rt_put_eq(2) [OF R l_Validator] rt_size_eq(2) [OF R l_Pair] rt_put_eq(2) [OF R l_Pair] rt_size_eq(2) [OF R l_Price] rt_put_eq(2) [OF R l_Price] api_OracleFeed_wf_def)
    then show ?thesis by (simp add: rt_buffer_exact len)
  qed
  moreover have "api_OracleFeed_unmarshal R discardUnknown bz (Some zero_api_OracleFeed) = Ok (Some m)"
    using wf lt
    by (simp add: api_OracleFeed_unmarshal_def bz_def api_OracleFeed_wf_def api_OracleFeed_steps  fits_int_def zero_api_OracleFeed_def )
  ultimately show ?thesis using len by blast
qed

interpretation OracleFeed_api_codec: message_codec "api_OracleFeed_size R" "api_OracleFeed_marshal R []" "\<lambda>bz. api_OracleFeed_unmarshal R discardUnknown bz (Some zero_api_OracleFeed)"
    "\<lambda>m. runtime_laws R \<and> (case m of None \<Rightarrow> False | Some x \<Rightarrow> api_OracleFeed_wf R x)" for R discardUnknown
  by unfold_locales (use api_OracleFeed_roundtrip in \<open>fastforce split: option.splits\<close>)

subsection \<open>AggregatedPrice\<close>

record api_AggregatedPrice =
  api_ap_Pair :: string
  api_ap_Price :: string
  api_ap_BlockHeight :: int
  api_ap_BlockTime :: "timestamp option"
  api_ap_unknownFields :: bytes

definition zero_api_AggregatedPrice :: api_AggregatedPrice where
  "zero_api_AggregatedPrice = \<lparr>api_ap_Pair = [], api_ap_Price = [], api_ap_BlockHeight = 0, api_ap_BlockTime = None, api_ap_unknownFields = []\<rparr>"

definition AggregatedPrice_fd :: "string \<Rightarrow> string" where
  "AggregatedPrice_fd n = ''vertix.oracle.v1.AggregatedPrice.'' @ n"

lemma AggregatedPrice_fd_inject [simp]: "AggregatedPrice_fd a = AggregatedPrice_fd b \<longleftrightarrow> a = b"
  by (simp add: AggregatedPrice_fd_def)

definition api_AggregatedPrice_fields :: "string list" where
  "api_AggregatedPrice_fields = map AggregatedPrice_fd [''pair'', ''price'', ''block_height'', ''block_time'']"

definition api_AggregatedPrice_Range ::
    "(string \<Rightarrow> timestamp reflect_value \<Rightarrow> 's \<Rightarrow> (bool \<times> 's) outcome) \<Rightarrow> api_AggregatedPrice \<Rightarrow> 's \<Rightarrow> 's outcome" where
  "api_AggregatedPrice_Range f x =
     range_field (api_ap_Pair x \<noteq> []) (AggregatedPrice_fd ''pair'') (StringValue (api_ap_Pair x)) f
      (range_field (api_ap_Price x \<noteq> []) (AggregatedPrice_fd ''price'') (StringValue (api_ap_Price x)) f
      (range_field (api_ap_BlockHeight x \<noteq> 0) (AggregatedPrice_fd ''block_height'') (Int64Value (api_ap_BlockHeight x)) f
      (range_field (api_ap_BlockTime x \<noteq> None) (AggregatedPrice_fd ''block_time'') (MessageValue (api_ap_BlockTime x)) f
      Ok)))"

definition api_AggregatedPrice_Has :: "string \<Rightarrow> api_AggregatedPrice \<Rightarrow> bool outcome" where
  "api_AggregatedPrice_Has fd x =
     (if fd = AggregatedPrice_fd ''pair'' then Ok (api_ap_Pair x \<noteq> [])
      else if fd = AggregatedPrice_fd ''price'' then Ok (api_ap_Price x \<noteq> [])
      else if fd = AggregatedPrice_fd ''block_height'' then Ok (api_ap_BlockHeight x \<noteq> 0)
      else if fd = AggregatedPrice_fd ''block_time'' then Ok (api_ap_BlockTime x \<noteq> None)
      else Panic)"

definition api_AggregatedPrice_Clear :: "string \<Rightarrow> api_AggregatedPrice \<Rightarrow> api_AggregatedPrice outcome" where
  "api_AggregatedPrice_Clear fd x =
     (if fd = AggregatedPrice_fd ''pair'' then Ok (x\<lparr>api_ap_Pair := []\<rparr>)
      else if fd = AggregatedPrice_fd ''price'' then Ok (x\<lparr>api_ap_Price := []\<rparr>)
      else if fd = AggregatedPrice_fd ''block_height'' then Ok (x\<lparr>api_ap_BlockHeight := 0\<rparr>)
      else if fd = AggregatedPrice_fd ''block_time'' then Ok (x\<lparr>api_ap_BlockTime := None\<rparr>)
      else Panic)"

definition api_AggregatedPrice_Get :: "string \<Rightarrow> api_AggregatedPrice \<Rightarrow> timestamp reflect_value outcome" where
  "api_AggregatedPrice_Get fd x =
     (if fd = AggregatedPrice_fd ''pair'' then Ok (StringValue (api_ap_Pair x))
      else if fd = AggregatedPrice_fd ''price'' then Ok (StringValue (api_ap_Price x))
      else if fd = AggregatedPrice_fd ''block_height'' then Ok (Int64Value (api_ap_BlockHeight x))
      else if fd = AggregatedPrice_fd ''block_time'' then Ok (MessageValue (api_ap_BlockTime x))
      else Panic)"

definition api_AggregatedPrice_Set :: "string \<Rightarrow> timestamp reflect_value \<Rightarrow> api_AggregatedPrice \<Rightarrow> api_AggregatedPrice outcome" where
  "api_AggregatedPrice_Set fd v x =
     (if fd = AggregatedPrice_fd ''pair'' then obind (as_string v) (\<lambda>w. Ok (x\<lparr>api_ap_Pair := w\<rparr>))
      else if fd = AggregatedPrice_fd ''price'' then obind (as_string v) (\<lambda>w. Ok (x\<lparr>api_ap_Price := w\<rparr>))
      else if fd = AggregatedPrice_fd ''block_height'' then obind (as_int64 v) (\<lambda>w. Ok (x\<lparr>api_ap_BlockHeight := w\<rparr>))
      else if fd = AggregatedPrice_fd ''block_time'' then obind (as_message v) (\<lambda>w. Ok (x\<lparr>api_ap_BlockTime := w\<rparr>))
      else Panic)"

definition api_AggregatedPrice_size :: "pulsar_runtime \<Rightarrow> api_AggregatedPrice option \<Rightarrow> nat" where
  "api_AggregatedPrice_size R m = (case m of None \<Rightarrow> 0 | Some x \<Rightarrow>
     rt_size_string R (api_ap_Pair x) +
     rt_size_string R (api_ap_Price x) +
     rt_size_int64 R (api_ap_BlockHeight x) +
     rt_size_message R (timestamp_size R) (api_ap_BlockTime x) + length (api_ap_unknownFields x))"

definition api_AggregatedPrice_marshal :: "pulsar_runtime \<Rightarrow> bytes \<Rightarrow> api_AggregatedPrice option \<Rightarrow> bytes outcome" where
  "api_AggregatedPrice_marshal R buf m = (case m of None \<Rightarrow> Ok buf | Some x \<Rightarrow>
     obind (rt_marshal_message (timestamp_marshal R) (api_ap_BlockTime x)) (\<lambda>e_BlockTime.
     rt_buffer buf (api_AggregatedPrice_size R m)
       (rt_put_string R 10 (api_ap_Pair x)
       (rt_put_string R 18 (api_ap_Price x)
       (rt_put_int64 R 24 (api_ap_BlockHeight x)
       (rt_put_message R 34 e_BlockTime
       (api_ap_unknownFields x)))))))"

definition api_AggregatedPrice_field :: "pulsar_runtime \<Rightarrow> bool \<Rightarrow> api_AggregatedPrice handler" where
  "api_AggregatedPrice_field R discardUnknown fieldNum wireType pre cur x =
     (if fieldNum = 1 then field_string wireType cur (\<lambda>v x. x\<lparr>api_ap_Pair := v\<rparr>) x
      else if fieldNum = 2 then field_string wireType cur (\<lambda>v x. x\<lparr>api_ap_Price := v\<rparr>) x
      else if fieldNum = 3 then field_int64 wireType cur (\<lambda>v x. x\<lparr>api_ap_BlockHeight := v\<rparr>) x
      else if fieldNum = 4 then field_merge wireType cur (timestamp_unmarshal R) zero_timestamp api_ap_BlockTime (\<lambda>v x. x\<lparr>api_ap_BlockTime := v\<rparr>) x
      else field_unknown R discardUnknown pre (\<lambda>bz x. x\<lparr>api_ap_unknownFields := api_ap_unknownFields x @ bz\<rparr>) x)"

definition api_AggregatedPrice_unmarshal :: "pulsar_runtime \<Rightarrow> bool \<Rightarrow> bytes \<Rightarrow> api_AggregatedPrice option \<Rightarrow> api_AggregatedPrice option outcome" where
  "api_AggregatedPrice_unmarshal R discardUnknown dAtA m = (case m of None \<Rightarrow> Ok None | Some x \<Rightarrow>
     obind (unmarshal_loop (api_AggregatedPrice_field R discardUnknown) x 0 dAtA) (\<lambda>x. Ok (Some x)))"

lemma api_AggregatedPrice_at:
  "api_AggregatedPrice_Has (AggregatedPrice_fd ''pair'') x = Ok (api_ap_Pair x \<noteq> [])"
  "api_AggregatedPrice_Clear (AggregatedPrice_fd ''pair'') x = Ok (x\<lparr>api_ap_Pair := []\<rparr>)"
  "api_AggregatedPrice_Get (AggregatedPrice_fd ''pair'') x = Ok (StringValue (api_ap_Pair x))"
  "api_AggregatedPrice_Set (AggregatedPrice_fd ''pair'') v x = obind (as_string v) (\<lambda>w. Ok (x\<lparr>api_ap_Pair := w\<rparr>))"
  "api_AggregatedPrice_Has (AggregatedPrice_fd ''price'') x = Ok (api_ap_Price x \<noteq> [])"
  "api_AggregatedPrice_Clear (AggregatedPrice_fd ''price'') x = Ok (x\<lparr>api_ap_Price := []\<rparr>)"
  "api_AggregatedPrice_Get (AggregatedPrice_fd ''price'') x = Ok (StringValue (api_ap_Price x))"
  "api_AggregatedPrice_Set (AggregatedPrice_fd ''price'') v x = obind (as_string v) (\<lambda>w. Ok (x\<lparr>api_ap_Price := w\<rparr>))"
  "api_AggregatedPrice_Has (AggregatedPrice_fd ''block_height'') x = Ok (api_ap_BlockHeight x \<noteq> 0)"
  "api_AggregatedPrice_Clear (AggregatedPrice_fd ''block_height'') x = Ok (x\<lparr>api_ap_BlockHeight := 0\<rparr>)"
  "api_AggregatedPrice_Get (AggregatedPrice_fd ''block_height'') x = Ok (Int64Value (api_ap_BlockHeight x))"
  "api_AggregatedPrice_Set (AggregatedPrice_fd ''block_height'') v x = obind (as_int64 v) (\<lambda>w. Ok (x\<lparr>api_ap_BlockHeight := w\<rparr>))"
  "api_AggregatedPrice_Has (AggregatedPrice_fd ''block_time'') x = Ok (api_ap_BlockTime x \<noteq> None)"
  "api_AggregatedPrice_Clear (AggregatedPrice_fd ''block_time'') x = Ok (x\<lparr>api_ap_BlockTime := None\<rparr>)"
  "api_AggregatedPrice_Get (AggregatedPrice_fd ''block_time'') x = Ok (MessageValue (api_ap_BlockTime x))"
  "api_AggregatedPrice_Set (AggregatedPrice_fd ''block_time'') v x = obind (as_message v) (\<lambda>w. Ok (x\<lparr>api_ap_BlockTime := w\<rparr>))"
  by (simp_all add: api_AggregatedPrice_Has_def api_AggregatedPrice_Clear_def api_AggregatedPrice_Get_def api_AggregatedPrice_Set_def)

interpretation AggregatedPrice_reflect: reflected_message api_AggregatedPrice_fields api_AggregatedPrice_Range api_AggregatedPrice_Has api_AggregatedPrice_Clear api_AggregatedPrice_Get api_AggregatedPrice_Set api_ap_unknownFields zero_api_AggregatedPrice
proof
  show "distinct api_AggregatedPrice_fields" by (simp add: api_AggregatedPrice_fields_def)
next
  show "\<exists>v. api_AggregatedPrice_Get fd x = Ok v" if "fd \<in> set api_AggregatedPrice_fields" for fd x
    using that unfolding api_AggregatedPrice_fields_def field_cases
    by (elim disjE; clarsimp simp: api_AggregatedPrice_at zero_api_AggregatedPrice_def list_value_simps)
next
  show "\<exists>y'. api_AggregatedPrice_Set fd v y = Ok y' \<and> api_AggregatedPrice_Get fd y' = Ok v \<and> api_ap_unknownFields y' = api_ap_unknownFields y \<and>
      (\<forall>g\<in>set api_AggregatedPrice_fields. g \<noteq> fd \<longrightarrow> api_AggregatedPrice_Get g y' = api_AggregatedPrice_Get g y)"
    if "fd \<in> set api_AggregatedPrice_fields" "api_AggregatedPrice_Has fd x = Ok True" "api_AggregatedPrice_Get fd x = Ok v" for fd x v y
    using that unfolding api_AggregatedPrice_fields_def field_cases
    by (elim disjE; clarsimp simp: api_AggregatedPrice_at zero_api_AggregatedPrice_def list_value_simps)
next
  show "api_AggregatedPrice_Has fd x = Ok (api_AggregatedPrice_Get fd x \<noteq> api_AggregatedPrice_Get fd zero_api_AggregatedPrice)" if "fd \<in> set api_AggregatedPrice_fields" for fd x
    using that unfolding api_AggregatedPrice_fields_def field_cases
    by (elim disjE; clarsimp simp: api_AggregatedPrice_at zero_api_AggregatedPrice_def list_value_simps)
next
  show "\<exists>x'. api_AggregatedPrice_Clear fd x = Ok x' \<and> api_AggregatedPrice_Get fd x' = api_AggregatedPrice_Get fd zero_api_AggregatedPrice \<and> api_ap_unknownFields x' = api_ap_unknownFields x \<and>
      (\<forall>g\<in>set api_AggregatedPrice_fields. g \<noteq> fd \<longrightarrow> api_AggregatedPrice_Get g x' = api_AggregatedPrice_Get g x)" if "fd \<in> set api_AggregatedPrice_fields" for fd x
    using that unfolding api_AggregatedPrice_fields_def field_cases
    by (elim disjE; clarsimp simp: api_AggregatedPrice_at zero_api_AggregatedPrice_def list_value_simps)
next
  show "api_AggregatedPrice_Range f x = range_list f (populated api_AggregatedPrice_fields (\<lambda>fd. api_AggregatedPrice_Has fd x) (\<lambda>fd. api_AggregatedPrice_Get fd x))" for f x
    by (simp add: api_AggregatedPrice_at zero_api_AggregatedPrice_def api_AggregatedPrice_fields_def api_AggregatedPrice_Range_def list_value_def range_field_last range_field_Cons cong: if_cong split del: if_split)
next
  show "api_AggregatedPrice_Has fd x = Panic \<and> api_AggregatedPrice_Get fd x = Panic \<and> api_AggregatedPrice_Set fd v x = Panic \<and> api_AggregatedPrice_Clear fd x = Panic"
    if "fd \<notin> set api_AggregatedPrice_fields" for fd x v
    using that by (simp add: api_AggregatedPrice_fields_def api_AggregatedPrice_Has_def api_AggregatedPrice_Get_def api_AggregatedPrice_Set_def api_AggregatedPrice_Clear_def)
next
  fix x y :: api_AggregatedPrice
  assume eq: "\<And>fd. fd \<in> set api_AggregatedPrice_fields \<Longrightarrow> api_AggregatedPrice_Get fd x = api_AggregatedPrice_Get fd y" and u: "api_ap_unknownFields x = api_ap_unknownFields y"
  have "api_ap_Pair x = api_ap_Pair y"
    using eq [of "AggregatedPrice_fd ''pair''"] by (simp add: api_AggregatedPrice_fields_def api_AggregatedPrice_at list_value_simps)
  moreover note u
  moreover
  have "api_ap_Price x = api_ap_Price y"
    using eq [of "AggregatedPrice_fd ''price''"] by (simp add: api_AggregatedPrice_fields_def api_AggregatedPrice_at list_value_simps)
  moreover
  have "api_ap_BlockHeight x = api_ap_BlockHeight y"
    using eq [of "AggregatedPrice_fd ''block_height''"] by (simp add: api_AggregatedPrice_fields_def api_AggregatedPrice_at list_value_simps)
  moreover
  have "api_ap_BlockTime x = api_ap_BlockTime y"
    using eq [of "AggregatedPrice_fd ''block_time''"] by (simp add: api_AggregatedPrice_fields_def api_AggregatedPrice_at list_value_simps)
  ultimately show "x = y" by (simp add: api_AggregatedPrice.equality)
qed

text \<open>The values a client's AggregatedPrice holds: Go integers, and no field it does not know.\<close>

definition api_AggregatedPrice_wf :: "pulsar_runtime \<Rightarrow> api_AggregatedPrice \<Rightarrow> bool" where
  "api_AggregatedPrice_wf R m \<longleftrightarrow> api_ap_unknownFields m = [] \<and> is_i64 (api_ap_BlockHeight m) \<and> (case api_ap_BlockTime m of None \<Rightarrow> True | Some t \<Rightarrow> valid_timestamp t) \<and> api_AggregatedPrice_size R (Some m) < 2 ^ 63"

lemma api_AggregatedPrice_handler:
  "api_AggregatedPrice_field R discardUnknown 1 2 pre cur x = field_string 2 cur (\<lambda>v x. x\<lparr>api_ap_Pair := v\<rparr>) x"
  "api_AggregatedPrice_field R discardUnknown 2 2 pre cur x = field_string 2 cur (\<lambda>v x. x\<lparr>api_ap_Price := v\<rparr>) x"
  "api_AggregatedPrice_field R discardUnknown 3 0 pre cur x = field_int64 0 cur (\<lambda>v x. x\<lparr>api_ap_BlockHeight := v\<rparr>) x"
  "api_AggregatedPrice_field R discardUnknown 4 2 pre cur x = field_merge 2 cur (timestamp_unmarshal R) zero_timestamp api_ap_BlockTime (\<lambda>v x. x\<lparr>api_ap_BlockTime := v\<rparr>) x"
  by (simp_all add: api_AggregatedPrice_field_def)

lemmas api_AggregatedPrice_steps =
  loop_string [where h = "api_AggregatedPrice_field R discardUnknown", OF api_AggregatedPrice_handler(1)]
  loop_string [where h = "api_AggregatedPrice_field R discardUnknown", OF api_AggregatedPrice_handler(2)]
  loop_int64 [where h = "api_AggregatedPrice_field R discardUnknown", OF api_AggregatedPrice_handler(3)]
  for R discardUnknown

lemma api_AggregatedPrice_roundtrip:
  assumes R: "runtime_laws R" and wf: "api_AggregatedPrice_wf R m"
  shows "\<exists>bz. (\<forall>buf. api_AggregatedPrice_marshal R buf (Some m) = Ok (buf @ bz)) \<and> length bz = api_AggregatedPrice_size R (Some m) \<and>
           api_AggregatedPrice_unmarshal R discardUnknown bz (Some zero_api_AggregatedPrice) = Ok (Some m)"
proof -
  have sz: "rt_size_string R (api_ap_Pair m) + rt_size_string R (api_ap_Price m) + rt_size_int64 R (api_ap_BlockHeight m) + rt_size_message R (timestamp_size R) (api_ap_BlockTime m) < 2 ^ 63"
    using wf by (simp add: api_AggregatedPrice_wf_def api_AggregatedPrice_size_def)
  have l_Pair: "length (api_ap_Pair m) < 2 ^ 63" using sz rt_size_ge(1) [of "api_ap_Pair m" R] by linarith
  have l_Price: "length (api_ap_Price m) < 2 ^ 63" using sz rt_size_ge(1) [of "api_ap_Price m" R] by linarith
  have "case api_ap_BlockTime m of None \<Rightarrow> True | Some t \<Rightarrow> valid_timestamp t" using wf by (simp add: api_AggregatedPrice_wf_def)
  then obtain e_BlockTime where e_BlockTime: "message_encoded (timestamp_size R) (timestamp_marshal R) (timestamp_unmarshal R) zero_timestamp (api_ap_BlockTime m) e_BlockTime"
    by (rule message_encoded_timestamp [OF R])
  have s_BlockTime: "rt_size_message R (timestamp_size R) (api_ap_BlockTime m) < 2 ^ 63" using sz by linarith
  note s_BlockTime = message_encoded_size [OF R e_BlockTime s_BlockTime]
  define bz where "bz = put_string 10 (api_ap_Pair m)
       (put_string 18 (api_ap_Price m)
       (put_int64 24 (api_ap_BlockHeight m)
       (put_message 34 e_BlockTime
       [])))"
  have len: "length bz = api_AggregatedPrice_size R (Some m)"
    using wf by (simp add: bz_def api_AggregatedPrice_size_def rt_size_eq(3) [OF R] rt_size_eq(2) [OF R l_Pair] rt_put_eq(2) [OF R l_Pair] rt_size_eq(2) [OF R l_Price] rt_put_eq(2) [OF R l_Price] s_BlockTime message_encoded_marshal [OF e_BlockTime] api_AggregatedPrice_wf_def)
  have lt: "length bz < 2 ^ 63" using wf by (simp add: len api_AggregatedPrice_wf_def)
  have "api_AggregatedPrice_marshal R buf (Some m) = Ok (buf @ bz)" for buf
  proof -
    have "api_AggregatedPrice_marshal R buf (Some m) = rt_buffer buf (api_AggregatedPrice_size R (Some m)) bz"
      using wf by (simp add: api_AggregatedPrice_marshal_def bz_def rt_put_eq(3) [OF R] rt_size_eq(2) [OF R l_Pair] rt_put_eq(2) [OF R l_Pair] rt_size_eq(2) [OF R l_Price] rt_put_eq(2) [OF R l_Price] s_BlockTime message_encoded_marshal [OF e_BlockTime] api_AggregatedPrice_wf_def)
    then show ?thesis by (simp add: rt_buffer_exact len)
  qed
  moreover have "api_AggregatedPrice_unmarshal R discardUnknown bz (Some zero_api_AggregatedPrice) = Ok (Some m)"
    using wf lt
    by (simp add: api_AggregatedPrice_unmarshal_def bz_def api_AggregatedPrice_wf_def api_AggregatedPrice_steps loop_merge [where h = "api_AggregatedPrice_field R discardUnknown", OF api_AggregatedPrice_handler(4) _ _ _ _ e_BlockTime] fits_int_def zero_api_AggregatedPrice_def )
  ultimately show ?thesis using len by blast
qed

interpretation AggregatedPrice_api_codec: message_codec "api_AggregatedPrice_size R" "api_AggregatedPrice_marshal R []" "\<lambda>bz. api_AggregatedPrice_unmarshal R discardUnknown bz (Some zero_api_AggregatedPrice)"
    "\<lambda>m. runtime_laws R \<and> (case m of None \<Rightarrow> False | Some x \<Rightarrow> api_AggregatedPrice_wf R x)" for R discardUnknown
  by unfold_locales (use api_AggregatedPrice_roundtrip in \<open>fastforce split: option.splits\<close>)

subsection \<open>TWAPEntry\<close>

record api_TWAPEntry =
  api_te_Pair :: string
  api_te_Price :: string
  api_te_BlockTime :: "timestamp option"
  api_te_unknownFields :: bytes

definition zero_api_TWAPEntry :: api_TWAPEntry where
  "zero_api_TWAPEntry = \<lparr>api_te_Pair = [], api_te_Price = [], api_te_BlockTime = None, api_te_unknownFields = []\<rparr>"

definition TWAPEntry_fd :: "string \<Rightarrow> string" where
  "TWAPEntry_fd n = ''vertix.oracle.v1.TWAPEntry.'' @ n"

lemma TWAPEntry_fd_inject [simp]: "TWAPEntry_fd a = TWAPEntry_fd b \<longleftrightarrow> a = b"
  by (simp add: TWAPEntry_fd_def)

definition api_TWAPEntry_fields :: "string list" where
  "api_TWAPEntry_fields = map TWAPEntry_fd [''pair'', ''price'', ''block_time'']"

definition api_TWAPEntry_Range ::
    "(string \<Rightarrow> timestamp reflect_value \<Rightarrow> 's \<Rightarrow> (bool \<times> 's) outcome) \<Rightarrow> api_TWAPEntry \<Rightarrow> 's \<Rightarrow> 's outcome" where
  "api_TWAPEntry_Range f x =
     range_field (api_te_Pair x \<noteq> []) (TWAPEntry_fd ''pair'') (StringValue (api_te_Pair x)) f
      (range_field (api_te_Price x \<noteq> []) (TWAPEntry_fd ''price'') (StringValue (api_te_Price x)) f
      (range_field (api_te_BlockTime x \<noteq> None) (TWAPEntry_fd ''block_time'') (MessageValue (api_te_BlockTime x)) f
      Ok))"

definition api_TWAPEntry_Has :: "string \<Rightarrow> api_TWAPEntry \<Rightarrow> bool outcome" where
  "api_TWAPEntry_Has fd x =
     (if fd = TWAPEntry_fd ''pair'' then Ok (api_te_Pair x \<noteq> [])
      else if fd = TWAPEntry_fd ''price'' then Ok (api_te_Price x \<noteq> [])
      else if fd = TWAPEntry_fd ''block_time'' then Ok (api_te_BlockTime x \<noteq> None)
      else Panic)"

definition api_TWAPEntry_Clear :: "string \<Rightarrow> api_TWAPEntry \<Rightarrow> api_TWAPEntry outcome" where
  "api_TWAPEntry_Clear fd x =
     (if fd = TWAPEntry_fd ''pair'' then Ok (x\<lparr>api_te_Pair := []\<rparr>)
      else if fd = TWAPEntry_fd ''price'' then Ok (x\<lparr>api_te_Price := []\<rparr>)
      else if fd = TWAPEntry_fd ''block_time'' then Ok (x\<lparr>api_te_BlockTime := None\<rparr>)
      else Panic)"

definition api_TWAPEntry_Get :: "string \<Rightarrow> api_TWAPEntry \<Rightarrow> timestamp reflect_value outcome" where
  "api_TWAPEntry_Get fd x =
     (if fd = TWAPEntry_fd ''pair'' then Ok (StringValue (api_te_Pair x))
      else if fd = TWAPEntry_fd ''price'' then Ok (StringValue (api_te_Price x))
      else if fd = TWAPEntry_fd ''block_time'' then Ok (MessageValue (api_te_BlockTime x))
      else Panic)"

definition api_TWAPEntry_Set :: "string \<Rightarrow> timestamp reflect_value \<Rightarrow> api_TWAPEntry \<Rightarrow> api_TWAPEntry outcome" where
  "api_TWAPEntry_Set fd v x =
     (if fd = TWAPEntry_fd ''pair'' then obind (as_string v) (\<lambda>w. Ok (x\<lparr>api_te_Pair := w\<rparr>))
      else if fd = TWAPEntry_fd ''price'' then obind (as_string v) (\<lambda>w. Ok (x\<lparr>api_te_Price := w\<rparr>))
      else if fd = TWAPEntry_fd ''block_time'' then obind (as_message v) (\<lambda>w. Ok (x\<lparr>api_te_BlockTime := w\<rparr>))
      else Panic)"

definition api_TWAPEntry_size :: "pulsar_runtime \<Rightarrow> api_TWAPEntry option \<Rightarrow> nat" where
  "api_TWAPEntry_size R m = (case m of None \<Rightarrow> 0 | Some x \<Rightarrow>
     rt_size_string R (api_te_Pair x) +
     rt_size_string R (api_te_Price x) +
     rt_size_message R (timestamp_size R) (api_te_BlockTime x) + length (api_te_unknownFields x))"

definition api_TWAPEntry_marshal :: "pulsar_runtime \<Rightarrow> bytes \<Rightarrow> api_TWAPEntry option \<Rightarrow> bytes outcome" where
  "api_TWAPEntry_marshal R buf m = (case m of None \<Rightarrow> Ok buf | Some x \<Rightarrow>
     obind (rt_marshal_message (timestamp_marshal R) (api_te_BlockTime x)) (\<lambda>e_BlockTime.
     rt_buffer buf (api_TWAPEntry_size R m)
       (rt_put_string R 10 (api_te_Pair x)
       (rt_put_string R 18 (api_te_Price x)
       (rt_put_message R 26 e_BlockTime
       (api_te_unknownFields x))))))"

definition api_TWAPEntry_field :: "pulsar_runtime \<Rightarrow> bool \<Rightarrow> api_TWAPEntry handler" where
  "api_TWAPEntry_field R discardUnknown fieldNum wireType pre cur x =
     (if fieldNum = 1 then field_string wireType cur (\<lambda>v x. x\<lparr>api_te_Pair := v\<rparr>) x
      else if fieldNum = 2 then field_string wireType cur (\<lambda>v x. x\<lparr>api_te_Price := v\<rparr>) x
      else if fieldNum = 3 then field_merge wireType cur (timestamp_unmarshal R) zero_timestamp api_te_BlockTime (\<lambda>v x. x\<lparr>api_te_BlockTime := v\<rparr>) x
      else field_unknown R discardUnknown pre (\<lambda>bz x. x\<lparr>api_te_unknownFields := api_te_unknownFields x @ bz\<rparr>) x)"

definition api_TWAPEntry_unmarshal :: "pulsar_runtime \<Rightarrow> bool \<Rightarrow> bytes \<Rightarrow> api_TWAPEntry option \<Rightarrow> api_TWAPEntry option outcome" where
  "api_TWAPEntry_unmarshal R discardUnknown dAtA m = (case m of None \<Rightarrow> Ok None | Some x \<Rightarrow>
     obind (unmarshal_loop (api_TWAPEntry_field R discardUnknown) x 0 dAtA) (\<lambda>x. Ok (Some x)))"

lemma api_TWAPEntry_at:
  "api_TWAPEntry_Has (TWAPEntry_fd ''pair'') x = Ok (api_te_Pair x \<noteq> [])"
  "api_TWAPEntry_Clear (TWAPEntry_fd ''pair'') x = Ok (x\<lparr>api_te_Pair := []\<rparr>)"
  "api_TWAPEntry_Get (TWAPEntry_fd ''pair'') x = Ok (StringValue (api_te_Pair x))"
  "api_TWAPEntry_Set (TWAPEntry_fd ''pair'') v x = obind (as_string v) (\<lambda>w. Ok (x\<lparr>api_te_Pair := w\<rparr>))"
  "api_TWAPEntry_Has (TWAPEntry_fd ''price'') x = Ok (api_te_Price x \<noteq> [])"
  "api_TWAPEntry_Clear (TWAPEntry_fd ''price'') x = Ok (x\<lparr>api_te_Price := []\<rparr>)"
  "api_TWAPEntry_Get (TWAPEntry_fd ''price'') x = Ok (StringValue (api_te_Price x))"
  "api_TWAPEntry_Set (TWAPEntry_fd ''price'') v x = obind (as_string v) (\<lambda>w. Ok (x\<lparr>api_te_Price := w\<rparr>))"
  "api_TWAPEntry_Has (TWAPEntry_fd ''block_time'') x = Ok (api_te_BlockTime x \<noteq> None)"
  "api_TWAPEntry_Clear (TWAPEntry_fd ''block_time'') x = Ok (x\<lparr>api_te_BlockTime := None\<rparr>)"
  "api_TWAPEntry_Get (TWAPEntry_fd ''block_time'') x = Ok (MessageValue (api_te_BlockTime x))"
  "api_TWAPEntry_Set (TWAPEntry_fd ''block_time'') v x = obind (as_message v) (\<lambda>w. Ok (x\<lparr>api_te_BlockTime := w\<rparr>))"
  by (simp_all add: api_TWAPEntry_Has_def api_TWAPEntry_Clear_def api_TWAPEntry_Get_def api_TWAPEntry_Set_def)

interpretation TWAPEntry_reflect: reflected_message api_TWAPEntry_fields api_TWAPEntry_Range api_TWAPEntry_Has api_TWAPEntry_Clear api_TWAPEntry_Get api_TWAPEntry_Set api_te_unknownFields zero_api_TWAPEntry
proof
  show "distinct api_TWAPEntry_fields" by (simp add: api_TWAPEntry_fields_def)
next
  show "\<exists>v. api_TWAPEntry_Get fd x = Ok v" if "fd \<in> set api_TWAPEntry_fields" for fd x
    using that unfolding api_TWAPEntry_fields_def field_cases
    by (elim disjE; clarsimp simp: api_TWAPEntry_at zero_api_TWAPEntry_def list_value_simps)
next
  show "\<exists>y'. api_TWAPEntry_Set fd v y = Ok y' \<and> api_TWAPEntry_Get fd y' = Ok v \<and> api_te_unknownFields y' = api_te_unknownFields y \<and>
      (\<forall>g\<in>set api_TWAPEntry_fields. g \<noteq> fd \<longrightarrow> api_TWAPEntry_Get g y' = api_TWAPEntry_Get g y)"
    if "fd \<in> set api_TWAPEntry_fields" "api_TWAPEntry_Has fd x = Ok True" "api_TWAPEntry_Get fd x = Ok v" for fd x v y
    using that unfolding api_TWAPEntry_fields_def field_cases
    by (elim disjE; clarsimp simp: api_TWAPEntry_at zero_api_TWAPEntry_def list_value_simps)
next
  show "api_TWAPEntry_Has fd x = Ok (api_TWAPEntry_Get fd x \<noteq> api_TWAPEntry_Get fd zero_api_TWAPEntry)" if "fd \<in> set api_TWAPEntry_fields" for fd x
    using that unfolding api_TWAPEntry_fields_def field_cases
    by (elim disjE; clarsimp simp: api_TWAPEntry_at zero_api_TWAPEntry_def list_value_simps)
next
  show "\<exists>x'. api_TWAPEntry_Clear fd x = Ok x' \<and> api_TWAPEntry_Get fd x' = api_TWAPEntry_Get fd zero_api_TWAPEntry \<and> api_te_unknownFields x' = api_te_unknownFields x \<and>
      (\<forall>g\<in>set api_TWAPEntry_fields. g \<noteq> fd \<longrightarrow> api_TWAPEntry_Get g x' = api_TWAPEntry_Get g x)" if "fd \<in> set api_TWAPEntry_fields" for fd x
    using that unfolding api_TWAPEntry_fields_def field_cases
    by (elim disjE; clarsimp simp: api_TWAPEntry_at zero_api_TWAPEntry_def list_value_simps)
next
  show "api_TWAPEntry_Range f x = range_list f (populated api_TWAPEntry_fields (\<lambda>fd. api_TWAPEntry_Has fd x) (\<lambda>fd. api_TWAPEntry_Get fd x))" for f x
    by (simp add: api_TWAPEntry_at zero_api_TWAPEntry_def api_TWAPEntry_fields_def api_TWAPEntry_Range_def list_value_def range_field_last range_field_Cons cong: if_cong split del: if_split)
next
  show "api_TWAPEntry_Has fd x = Panic \<and> api_TWAPEntry_Get fd x = Panic \<and> api_TWAPEntry_Set fd v x = Panic \<and> api_TWAPEntry_Clear fd x = Panic"
    if "fd \<notin> set api_TWAPEntry_fields" for fd x v
    using that by (simp add: api_TWAPEntry_fields_def api_TWAPEntry_Has_def api_TWAPEntry_Get_def api_TWAPEntry_Set_def api_TWAPEntry_Clear_def)
next
  fix x y :: api_TWAPEntry
  assume eq: "\<And>fd. fd \<in> set api_TWAPEntry_fields \<Longrightarrow> api_TWAPEntry_Get fd x = api_TWAPEntry_Get fd y" and u: "api_te_unknownFields x = api_te_unknownFields y"
  have "api_te_Pair x = api_te_Pair y"
    using eq [of "TWAPEntry_fd ''pair''"] by (simp add: api_TWAPEntry_fields_def api_TWAPEntry_at list_value_simps)
  moreover note u
  moreover
  have "api_te_Price x = api_te_Price y"
    using eq [of "TWAPEntry_fd ''price''"] by (simp add: api_TWAPEntry_fields_def api_TWAPEntry_at list_value_simps)
  moreover
  have "api_te_BlockTime x = api_te_BlockTime y"
    using eq [of "TWAPEntry_fd ''block_time''"] by (simp add: api_TWAPEntry_fields_def api_TWAPEntry_at list_value_simps)
  ultimately show "x = y" by (simp add: api_TWAPEntry.equality)
qed

text \<open>The values a client's TWAPEntry holds: Go integers, and no field it does not know.\<close>

definition api_TWAPEntry_wf :: "pulsar_runtime \<Rightarrow> api_TWAPEntry \<Rightarrow> bool" where
  "api_TWAPEntry_wf R m \<longleftrightarrow> api_te_unknownFields m = [] \<and> (case api_te_BlockTime m of None \<Rightarrow> True | Some t \<Rightarrow> valid_timestamp t) \<and> api_TWAPEntry_size R (Some m) < 2 ^ 63"

lemma api_TWAPEntry_handler:
  "api_TWAPEntry_field R discardUnknown 1 2 pre cur x = field_string 2 cur (\<lambda>v x. x\<lparr>api_te_Pair := v\<rparr>) x"
  "api_TWAPEntry_field R discardUnknown 2 2 pre cur x = field_string 2 cur (\<lambda>v x. x\<lparr>api_te_Price := v\<rparr>) x"
  "api_TWAPEntry_field R discardUnknown 3 2 pre cur x = field_merge 2 cur (timestamp_unmarshal R) zero_timestamp api_te_BlockTime (\<lambda>v x. x\<lparr>api_te_BlockTime := v\<rparr>) x"
  by (simp_all add: api_TWAPEntry_field_def)

lemmas api_TWAPEntry_steps =
  loop_string [where h = "api_TWAPEntry_field R discardUnknown", OF api_TWAPEntry_handler(1)]
  loop_string [where h = "api_TWAPEntry_field R discardUnknown", OF api_TWAPEntry_handler(2)]
  for R discardUnknown

lemma api_TWAPEntry_roundtrip:
  assumes R: "runtime_laws R" and wf: "api_TWAPEntry_wf R m"
  shows "\<exists>bz. (\<forall>buf. api_TWAPEntry_marshal R buf (Some m) = Ok (buf @ bz)) \<and> length bz = api_TWAPEntry_size R (Some m) \<and>
           api_TWAPEntry_unmarshal R discardUnknown bz (Some zero_api_TWAPEntry) = Ok (Some m)"
proof -
  have sz: "rt_size_string R (api_te_Pair m) + rt_size_string R (api_te_Price m) + rt_size_message R (timestamp_size R) (api_te_BlockTime m) < 2 ^ 63"
    using wf by (simp add: api_TWAPEntry_wf_def api_TWAPEntry_size_def)
  have l_Pair: "length (api_te_Pair m) < 2 ^ 63" using sz rt_size_ge(1) [of "api_te_Pair m" R] by linarith
  have l_Price: "length (api_te_Price m) < 2 ^ 63" using sz rt_size_ge(1) [of "api_te_Price m" R] by linarith
  have "case api_te_BlockTime m of None \<Rightarrow> True | Some t \<Rightarrow> valid_timestamp t" using wf by (simp add: api_TWAPEntry_wf_def)
  then obtain e_BlockTime where e_BlockTime: "message_encoded (timestamp_size R) (timestamp_marshal R) (timestamp_unmarshal R) zero_timestamp (api_te_BlockTime m) e_BlockTime"
    by (rule message_encoded_timestamp [OF R])
  have s_BlockTime: "rt_size_message R (timestamp_size R) (api_te_BlockTime m) < 2 ^ 63" using sz by linarith
  note s_BlockTime = message_encoded_size [OF R e_BlockTime s_BlockTime]
  define bz where "bz = put_string 10 (api_te_Pair m)
       (put_string 18 (api_te_Price m)
       (put_message 26 e_BlockTime
       []))"
  have len: "length bz = api_TWAPEntry_size R (Some m)"
    using wf by (simp add: bz_def api_TWAPEntry_size_def rt_size_eq(3) [OF R] rt_size_eq(2) [OF R l_Pair] rt_put_eq(2) [OF R l_Pair] rt_size_eq(2) [OF R l_Price] rt_put_eq(2) [OF R l_Price] s_BlockTime message_encoded_marshal [OF e_BlockTime] api_TWAPEntry_wf_def)
  have lt: "length bz < 2 ^ 63" using wf by (simp add: len api_TWAPEntry_wf_def)
  have "api_TWAPEntry_marshal R buf (Some m) = Ok (buf @ bz)" for buf
  proof -
    have "api_TWAPEntry_marshal R buf (Some m) = rt_buffer buf (api_TWAPEntry_size R (Some m)) bz"
      using wf by (simp add: api_TWAPEntry_marshal_def bz_def rt_put_eq(3) [OF R] rt_size_eq(2) [OF R l_Pair] rt_put_eq(2) [OF R l_Pair] rt_size_eq(2) [OF R l_Price] rt_put_eq(2) [OF R l_Price] s_BlockTime message_encoded_marshal [OF e_BlockTime] api_TWAPEntry_wf_def)
    then show ?thesis by (simp add: rt_buffer_exact len)
  qed
  moreover have "api_TWAPEntry_unmarshal R discardUnknown bz (Some zero_api_TWAPEntry) = Ok (Some m)"
    using wf lt
    by (simp add: api_TWAPEntry_unmarshal_def bz_def api_TWAPEntry_wf_def api_TWAPEntry_steps loop_merge [where h = "api_TWAPEntry_field R discardUnknown", OF api_TWAPEntry_handler(3) _ _ _ _ e_BlockTime] fits_int_def zero_api_TWAPEntry_def )
  ultimately show ?thesis using len by blast
qed

interpretation TWAPEntry_api_codec: message_codec "api_TWAPEntry_size R" "api_TWAPEntry_marshal R []" "\<lambda>bz. api_TWAPEntry_unmarshal R discardUnknown bz (Some zero_api_TWAPEntry)"
    "\<lambda>m. runtime_laws R \<and> (case m of None \<Rightarrow> False | Some x \<Rightarrow> api_TWAPEntry_wf R x)" for R discardUnknown
  by unfold_locales (use api_TWAPEntry_roundtrip in \<open>fastforce split: option.splits\<close>)

subsection \<open>OracleParams\<close>

record api_OracleParams =
  api_op_VoteWindow :: int
  api_op_MissThreshold :: string
  api_op_MissSlashRate :: string
  api_op_OutlierSlashRate :: string
  api_op_OutlierThreshold :: string
  api_op_MissWindowSize :: int
  api_op_QuorumFraction :: string
  api_op_MaxPriceAge :: int
  api_op_AcceptList :: "string list"
  api_op_unknownFields :: bytes

definition zero_api_OracleParams :: api_OracleParams where
  "zero_api_OracleParams = \<lparr>api_op_VoteWindow = 0, api_op_MissThreshold = [], api_op_MissSlashRate = [], api_op_OutlierSlashRate = [], api_op_OutlierThreshold = [], api_op_MissWindowSize = 0, api_op_QuorumFraction = [], api_op_MaxPriceAge = 0, api_op_AcceptList = [], api_op_unknownFields = []\<rparr>"

definition OracleParams_fd :: "string \<Rightarrow> string" where
  "OracleParams_fd n = ''vertix.oracle.v1.OracleParams.'' @ n"

lemma OracleParams_fd_inject [simp]: "OracleParams_fd a = OracleParams_fd b \<longleftrightarrow> a = b"
  by (simp add: OracleParams_fd_def)

definition api_OracleParams_fields :: "string list" where
  "api_OracleParams_fields = map OracleParams_fd [''vote_window'', ''miss_threshold'', ''miss_slash_rate'', ''outlier_slash_rate'', ''outlier_threshold'', ''miss_window_size'', ''quorum_fraction'', ''max_price_age'', ''accept_list'']"

definition api_OracleParams_Range ::
    "(string \<Rightarrow> 'v reflect_value \<Rightarrow> 's \<Rightarrow> (bool \<times> 's) outcome) \<Rightarrow> api_OracleParams \<Rightarrow> 's \<Rightarrow> 's outcome" where
  "api_OracleParams_Range f x =
     range_field (api_op_VoteWindow x \<noteq> 0) (OracleParams_fd ''vote_window'') (Int64Value (api_op_VoteWindow x)) f
      (range_field (api_op_MissThreshold x \<noteq> []) (OracleParams_fd ''miss_threshold'') (StringValue (api_op_MissThreshold x)) f
      (range_field (api_op_MissSlashRate x \<noteq> []) (OracleParams_fd ''miss_slash_rate'') (StringValue (api_op_MissSlashRate x)) f
      (range_field (api_op_OutlierSlashRate x \<noteq> []) (OracleParams_fd ''outlier_slash_rate'') (StringValue (api_op_OutlierSlashRate x)) f
      (range_field (api_op_OutlierThreshold x \<noteq> []) (OracleParams_fd ''outlier_threshold'') (StringValue (api_op_OutlierThreshold x)) f
      (range_field (api_op_MissWindowSize x \<noteq> 0) (OracleParams_fd ''miss_window_size'') (Int64Value (api_op_MissWindowSize x)) f
      (range_field (api_op_QuorumFraction x \<noteq> []) (OracleParams_fd ''quorum_fraction'') (StringValue (api_op_QuorumFraction x)) f
      (range_field (api_op_MaxPriceAge x \<noteq> 0) (OracleParams_fd ''max_price_age'') (Int64Value (api_op_MaxPriceAge x)) f
      (range_field (length (api_op_AcceptList x) \<noteq> 0) (OracleParams_fd ''accept_list'') (ListValue ''_OracleParams_9_list'' (Some (api_op_AcceptList x))) f
      Ok))))))))"

definition api_OracleParams_Has :: "string \<Rightarrow> api_OracleParams \<Rightarrow> bool outcome" where
  "api_OracleParams_Has fd x =
     (if fd = OracleParams_fd ''vote_window'' then Ok (api_op_VoteWindow x \<noteq> 0)
      else if fd = OracleParams_fd ''miss_threshold'' then Ok (api_op_MissThreshold x \<noteq> [])
      else if fd = OracleParams_fd ''miss_slash_rate'' then Ok (api_op_MissSlashRate x \<noteq> [])
      else if fd = OracleParams_fd ''outlier_slash_rate'' then Ok (api_op_OutlierSlashRate x \<noteq> [])
      else if fd = OracleParams_fd ''outlier_threshold'' then Ok (api_op_OutlierThreshold x \<noteq> [])
      else if fd = OracleParams_fd ''miss_window_size'' then Ok (api_op_MissWindowSize x \<noteq> 0)
      else if fd = OracleParams_fd ''quorum_fraction'' then Ok (api_op_QuorumFraction x \<noteq> [])
      else if fd = OracleParams_fd ''max_price_age'' then Ok (api_op_MaxPriceAge x \<noteq> 0)
      else if fd = OracleParams_fd ''accept_list'' then Ok (length (api_op_AcceptList x) \<noteq> 0)
      else Panic)"

definition api_OracleParams_Clear :: "string \<Rightarrow> api_OracleParams \<Rightarrow> api_OracleParams outcome" where
  "api_OracleParams_Clear fd x =
     (if fd = OracleParams_fd ''vote_window'' then Ok (x\<lparr>api_op_VoteWindow := 0\<rparr>)
      else if fd = OracleParams_fd ''miss_threshold'' then Ok (x\<lparr>api_op_MissThreshold := []\<rparr>)
      else if fd = OracleParams_fd ''miss_slash_rate'' then Ok (x\<lparr>api_op_MissSlashRate := []\<rparr>)
      else if fd = OracleParams_fd ''outlier_slash_rate'' then Ok (x\<lparr>api_op_OutlierSlashRate := []\<rparr>)
      else if fd = OracleParams_fd ''outlier_threshold'' then Ok (x\<lparr>api_op_OutlierThreshold := []\<rparr>)
      else if fd = OracleParams_fd ''miss_window_size'' then Ok (x\<lparr>api_op_MissWindowSize := 0\<rparr>)
      else if fd = OracleParams_fd ''quorum_fraction'' then Ok (x\<lparr>api_op_QuorumFraction := []\<rparr>)
      else if fd = OracleParams_fd ''max_price_age'' then Ok (x\<lparr>api_op_MaxPriceAge := 0\<rparr>)
      else if fd = OracleParams_fd ''accept_list'' then Ok (x\<lparr>api_op_AcceptList := []\<rparr>)
      else Panic)"

definition api_OracleParams_Get :: "string \<Rightarrow> api_OracleParams \<Rightarrow> 'v reflect_value outcome" where
  "api_OracleParams_Get fd x =
     (if fd = OracleParams_fd ''vote_window'' then Ok (Int64Value (api_op_VoteWindow x))
      else if fd = OracleParams_fd ''miss_threshold'' then Ok (StringValue (api_op_MissThreshold x))
      else if fd = OracleParams_fd ''miss_slash_rate'' then Ok (StringValue (api_op_MissSlashRate x))
      else if fd = OracleParams_fd ''outlier_slash_rate'' then Ok (StringValue (api_op_OutlierSlashRate x))
      else if fd = OracleParams_fd ''outlier_threshold'' then Ok (StringValue (api_op_OutlierThreshold x))
      else if fd = OracleParams_fd ''miss_window_size'' then Ok (Int64Value (api_op_MissWindowSize x))
      else if fd = OracleParams_fd ''quorum_fraction'' then Ok (StringValue (api_op_QuorumFraction x))
      else if fd = OracleParams_fd ''max_price_age'' then Ok (Int64Value (api_op_MaxPriceAge x))
      else if fd = OracleParams_fd ''accept_list'' then Ok (list_value ''_OracleParams_9_list'' (api_op_AcceptList x))
      else Panic)"

definition api_OracleParams_Set :: "string \<Rightarrow> 'v reflect_value \<Rightarrow> api_OracleParams \<Rightarrow> api_OracleParams outcome" where
  "api_OracleParams_Set fd v x =
     (if fd = OracleParams_fd ''vote_window'' then obind (as_int64 v) (\<lambda>w. Ok (x\<lparr>api_op_VoteWindow := w\<rparr>))
      else if fd = OracleParams_fd ''miss_threshold'' then obind (as_string v) (\<lambda>w. Ok (x\<lparr>api_op_MissThreshold := w\<rparr>))
      else if fd = OracleParams_fd ''miss_slash_rate'' then obind (as_string v) (\<lambda>w. Ok (x\<lparr>api_op_MissSlashRate := w\<rparr>))
      else if fd = OracleParams_fd ''outlier_slash_rate'' then obind (as_string v) (\<lambda>w. Ok (x\<lparr>api_op_OutlierSlashRate := w\<rparr>))
      else if fd = OracleParams_fd ''outlier_threshold'' then obind (as_string v) (\<lambda>w. Ok (x\<lparr>api_op_OutlierThreshold := w\<rparr>))
      else if fd = OracleParams_fd ''miss_window_size'' then obind (as_int64 v) (\<lambda>w. Ok (x\<lparr>api_op_MissWindowSize := w\<rparr>))
      else if fd = OracleParams_fd ''quorum_fraction'' then obind (as_string v) (\<lambda>w. Ok (x\<lparr>api_op_QuorumFraction := w\<rparr>))
      else if fd = OracleParams_fd ''max_price_age'' then obind (as_int64 v) (\<lambda>w. Ok (x\<lparr>api_op_MaxPriceAge := w\<rparr>))
      else if fd = OracleParams_fd ''accept_list'' then obind (as_list ''_OracleParams_9_list'' v) (\<lambda>w. Ok (x\<lparr>api_op_AcceptList := w\<rparr>))
      else Panic)"

definition api_OracleParams_size :: "pulsar_runtime \<Rightarrow> api_OracleParams option \<Rightarrow> nat" where
  "api_OracleParams_size R m = (case m of None \<Rightarrow> 0 | Some x \<Rightarrow>
     rt_size_int64 R (api_op_VoteWindow x) +
     rt_size_string R (api_op_MissThreshold x) +
     rt_size_string R (api_op_MissSlashRate x) +
     rt_size_string R (api_op_OutlierSlashRate x) +
     rt_size_string R (api_op_OutlierThreshold x) +
     rt_size_int64 R (api_op_MissWindowSize x) +
     rt_size_string R (api_op_QuorumFraction x) +
     rt_size_int64 R (api_op_MaxPriceAge x) +
     rt_size_strings R (api_op_AcceptList x) + length (api_op_unknownFields x))"

definition api_OracleParams_marshal :: "pulsar_runtime \<Rightarrow> bytes \<Rightarrow> api_OracleParams option \<Rightarrow> bytes outcome" where
  "api_OracleParams_marshal R buf m = (case m of None \<Rightarrow> Ok buf | Some x \<Rightarrow>
     rt_buffer buf (api_OracleParams_size R m)
       (rt_put_int64 R 8 (api_op_VoteWindow x)
       (rt_put_string R 18 (api_op_MissThreshold x)
       (rt_put_string R 26 (api_op_MissSlashRate x)
       (rt_put_string R 34 (api_op_OutlierSlashRate x)
       (rt_put_string R 42 (api_op_OutlierThreshold x)
       (rt_put_int64 R 48 (api_op_MissWindowSize x)
       (rt_put_string R 58 (api_op_QuorumFraction x)
       (rt_put_int64 R 64 (api_op_MaxPriceAge x)
       (rt_put_strings R 74 (api_op_AcceptList x)
       (api_op_unknownFields x)))))))))))"

definition api_OracleParams_field :: "pulsar_runtime \<Rightarrow> bool \<Rightarrow> api_OracleParams handler" where
  "api_OracleParams_field R discardUnknown fieldNum wireType pre cur x =
     (if fieldNum = 1 then field_int64 wireType cur (\<lambda>v x. x\<lparr>api_op_VoteWindow := v\<rparr>) x
      else if fieldNum = 2 then field_string wireType cur (\<lambda>v x. x\<lparr>api_op_MissThreshold := v\<rparr>) x
      else if fieldNum = 3 then field_string wireType cur (\<lambda>v x. x\<lparr>api_op_MissSlashRate := v\<rparr>) x
      else if fieldNum = 4 then field_string wireType cur (\<lambda>v x. x\<lparr>api_op_OutlierSlashRate := v\<rparr>) x
      else if fieldNum = 5 then field_string wireType cur (\<lambda>v x. x\<lparr>api_op_OutlierThreshold := v\<rparr>) x
      else if fieldNum = 6 then field_int64 wireType cur (\<lambda>v x. x\<lparr>api_op_MissWindowSize := v\<rparr>) x
      else if fieldNum = 7 then field_string wireType cur (\<lambda>v x. x\<lparr>api_op_QuorumFraction := v\<rparr>) x
      else if fieldNum = 8 then field_int64 wireType cur (\<lambda>v x. x\<lparr>api_op_MaxPriceAge := v\<rparr>) x
      else if fieldNum = 9 then field_string wireType cur (\<lambda>v x. x\<lparr>api_op_AcceptList := api_op_AcceptList x @ [v]\<rparr>) x
      else field_unknown R discardUnknown pre (\<lambda>bz x. x\<lparr>api_op_unknownFields := api_op_unknownFields x @ bz\<rparr>) x)"

definition api_OracleParams_unmarshal :: "pulsar_runtime \<Rightarrow> bool \<Rightarrow> bytes \<Rightarrow> api_OracleParams option \<Rightarrow> api_OracleParams option outcome" where
  "api_OracleParams_unmarshal R discardUnknown dAtA m = (case m of None \<Rightarrow> Ok None | Some x \<Rightarrow>
     obind (unmarshal_loop (api_OracleParams_field R discardUnknown) x 0 dAtA) (\<lambda>x. Ok (Some x)))"

lemma api_OracleParams_at:
  "api_OracleParams_Has (OracleParams_fd ''vote_window'') x = Ok (api_op_VoteWindow x \<noteq> 0)"
  "api_OracleParams_Clear (OracleParams_fd ''vote_window'') x = Ok (x\<lparr>api_op_VoteWindow := 0\<rparr>)"
  "api_OracleParams_Get (OracleParams_fd ''vote_window'') x = Ok (Int64Value (api_op_VoteWindow x))"
  "api_OracleParams_Set (OracleParams_fd ''vote_window'') v x = obind (as_int64 v) (\<lambda>w. Ok (x\<lparr>api_op_VoteWindow := w\<rparr>))"
  "api_OracleParams_Has (OracleParams_fd ''miss_threshold'') x = Ok (api_op_MissThreshold x \<noteq> [])"
  "api_OracleParams_Clear (OracleParams_fd ''miss_threshold'') x = Ok (x\<lparr>api_op_MissThreshold := []\<rparr>)"
  "api_OracleParams_Get (OracleParams_fd ''miss_threshold'') x = Ok (StringValue (api_op_MissThreshold x))"
  "api_OracleParams_Set (OracleParams_fd ''miss_threshold'') v x = obind (as_string v) (\<lambda>w. Ok (x\<lparr>api_op_MissThreshold := w\<rparr>))"
  "api_OracleParams_Has (OracleParams_fd ''miss_slash_rate'') x = Ok (api_op_MissSlashRate x \<noteq> [])"
  "api_OracleParams_Clear (OracleParams_fd ''miss_slash_rate'') x = Ok (x\<lparr>api_op_MissSlashRate := []\<rparr>)"
  "api_OracleParams_Get (OracleParams_fd ''miss_slash_rate'') x = Ok (StringValue (api_op_MissSlashRate x))"
  "api_OracleParams_Set (OracleParams_fd ''miss_slash_rate'') v x = obind (as_string v) (\<lambda>w. Ok (x\<lparr>api_op_MissSlashRate := w\<rparr>))"
  "api_OracleParams_Has (OracleParams_fd ''outlier_slash_rate'') x = Ok (api_op_OutlierSlashRate x \<noteq> [])"
  "api_OracleParams_Clear (OracleParams_fd ''outlier_slash_rate'') x = Ok (x\<lparr>api_op_OutlierSlashRate := []\<rparr>)"
  "api_OracleParams_Get (OracleParams_fd ''outlier_slash_rate'') x = Ok (StringValue (api_op_OutlierSlashRate x))"
  "api_OracleParams_Set (OracleParams_fd ''outlier_slash_rate'') v x = obind (as_string v) (\<lambda>w. Ok (x\<lparr>api_op_OutlierSlashRate := w\<rparr>))"
  "api_OracleParams_Has (OracleParams_fd ''outlier_threshold'') x = Ok (api_op_OutlierThreshold x \<noteq> [])"
  "api_OracleParams_Clear (OracleParams_fd ''outlier_threshold'') x = Ok (x\<lparr>api_op_OutlierThreshold := []\<rparr>)"
  "api_OracleParams_Get (OracleParams_fd ''outlier_threshold'') x = Ok (StringValue (api_op_OutlierThreshold x))"
  "api_OracleParams_Set (OracleParams_fd ''outlier_threshold'') v x = obind (as_string v) (\<lambda>w. Ok (x\<lparr>api_op_OutlierThreshold := w\<rparr>))"
  "api_OracleParams_Has (OracleParams_fd ''miss_window_size'') x = Ok (api_op_MissWindowSize x \<noteq> 0)"
  "api_OracleParams_Clear (OracleParams_fd ''miss_window_size'') x = Ok (x\<lparr>api_op_MissWindowSize := 0\<rparr>)"
  "api_OracleParams_Get (OracleParams_fd ''miss_window_size'') x = Ok (Int64Value (api_op_MissWindowSize x))"
  "api_OracleParams_Set (OracleParams_fd ''miss_window_size'') v x = obind (as_int64 v) (\<lambda>w. Ok (x\<lparr>api_op_MissWindowSize := w\<rparr>))"
  "api_OracleParams_Has (OracleParams_fd ''quorum_fraction'') x = Ok (api_op_QuorumFraction x \<noteq> [])"
  "api_OracleParams_Clear (OracleParams_fd ''quorum_fraction'') x = Ok (x\<lparr>api_op_QuorumFraction := []\<rparr>)"
  "api_OracleParams_Get (OracleParams_fd ''quorum_fraction'') x = Ok (StringValue (api_op_QuorumFraction x))"
  "api_OracleParams_Set (OracleParams_fd ''quorum_fraction'') v x = obind (as_string v) (\<lambda>w. Ok (x\<lparr>api_op_QuorumFraction := w\<rparr>))"
  "api_OracleParams_Has (OracleParams_fd ''max_price_age'') x = Ok (api_op_MaxPriceAge x \<noteq> 0)"
  "api_OracleParams_Clear (OracleParams_fd ''max_price_age'') x = Ok (x\<lparr>api_op_MaxPriceAge := 0\<rparr>)"
  "api_OracleParams_Get (OracleParams_fd ''max_price_age'') x = Ok (Int64Value (api_op_MaxPriceAge x))"
  "api_OracleParams_Set (OracleParams_fd ''max_price_age'') v x = obind (as_int64 v) (\<lambda>w. Ok (x\<lparr>api_op_MaxPriceAge := w\<rparr>))"
  "api_OracleParams_Has (OracleParams_fd ''accept_list'') x = Ok (length (api_op_AcceptList x) \<noteq> 0)"
  "api_OracleParams_Clear (OracleParams_fd ''accept_list'') x = Ok (x\<lparr>api_op_AcceptList := []\<rparr>)"
  "api_OracleParams_Get (OracleParams_fd ''accept_list'') x = Ok (list_value ''_OracleParams_9_list'' (api_op_AcceptList x))"
  "api_OracleParams_Set (OracleParams_fd ''accept_list'') v x = obind (as_list ''_OracleParams_9_list'' v) (\<lambda>w. Ok (x\<lparr>api_op_AcceptList := w\<rparr>))"
  by (simp_all add: api_OracleParams_Has_def api_OracleParams_Clear_def api_OracleParams_Get_def api_OracleParams_Set_def)

interpretation OracleParams_reflect: reflected_message api_OracleParams_fields api_OracleParams_Range api_OracleParams_Has api_OracleParams_Clear api_OracleParams_Get api_OracleParams_Set api_op_unknownFields zero_api_OracleParams
proof
  show "distinct api_OracleParams_fields" by (simp add: api_OracleParams_fields_def)
next
  show "\<exists>v. api_OracleParams_Get fd x = Ok v" if "fd \<in> set api_OracleParams_fields" for fd x
    using that unfolding api_OracleParams_fields_def field_cases
    by (elim disjE; clarsimp simp: api_OracleParams_at zero_api_OracleParams_def list_value_simps)
next
  show "\<exists>y'. api_OracleParams_Set fd v y = Ok y' \<and> api_OracleParams_Get fd y' = Ok v \<and> api_op_unknownFields y' = api_op_unknownFields y \<and>
      (\<forall>g\<in>set api_OracleParams_fields. g \<noteq> fd \<longrightarrow> api_OracleParams_Get g y' = api_OracleParams_Get g y)"
    if "fd \<in> set api_OracleParams_fields" "api_OracleParams_Has fd x = Ok True" "api_OracleParams_Get fd x = Ok v" for fd x v y
    using that unfolding api_OracleParams_fields_def field_cases
    by (elim disjE; clarsimp simp: api_OracleParams_at zero_api_OracleParams_def list_value_simps)
next
  show "api_OracleParams_Has fd x = Ok (api_OracleParams_Get fd x \<noteq> api_OracleParams_Get fd zero_api_OracleParams)" if "fd \<in> set api_OracleParams_fields" for fd x
    using that unfolding api_OracleParams_fields_def field_cases
    by (elim disjE; clarsimp simp: api_OracleParams_at zero_api_OracleParams_def list_value_simps)
next
  show "\<exists>x'. api_OracleParams_Clear fd x = Ok x' \<and> api_OracleParams_Get fd x' = api_OracleParams_Get fd zero_api_OracleParams \<and> api_op_unknownFields x' = api_op_unknownFields x \<and>
      (\<forall>g\<in>set api_OracleParams_fields. g \<noteq> fd \<longrightarrow> api_OracleParams_Get g x' = api_OracleParams_Get g x)" if "fd \<in> set api_OracleParams_fields" for fd x
    using that unfolding api_OracleParams_fields_def field_cases
    by (elim disjE; clarsimp simp: api_OracleParams_at zero_api_OracleParams_def list_value_simps)
next
  show "api_OracleParams_Range f x = range_list f (populated api_OracleParams_fields (\<lambda>fd. api_OracleParams_Has fd x) (\<lambda>fd. api_OracleParams_Get fd x))" for f x
    by (simp add: api_OracleParams_at zero_api_OracleParams_def api_OracleParams_fields_def api_OracleParams_Range_def list_value_def range_field_last range_field_Cons cong: if_cong split del: if_split)
next
  show "api_OracleParams_Has fd x = Panic \<and> api_OracleParams_Get fd x = Panic \<and> api_OracleParams_Set fd v x = Panic \<and> api_OracleParams_Clear fd x = Panic"
    if "fd \<notin> set api_OracleParams_fields" for fd x v
    using that by (simp add: api_OracleParams_fields_def api_OracleParams_Has_def api_OracleParams_Get_def api_OracleParams_Set_def api_OracleParams_Clear_def)
next
  fix x y :: api_OracleParams
  assume eq: "\<And>fd. fd \<in> set api_OracleParams_fields \<Longrightarrow> api_OracleParams_Get fd x = api_OracleParams_Get fd y" and u: "api_op_unknownFields x = api_op_unknownFields y"
  have "api_op_VoteWindow x = api_op_VoteWindow y"
    using eq [of "OracleParams_fd ''vote_window''"] by (simp add: api_OracleParams_fields_def api_OracleParams_at list_value_simps)
  moreover note u
  moreover
  have "api_op_MissThreshold x = api_op_MissThreshold y"
    using eq [of "OracleParams_fd ''miss_threshold''"] by (simp add: api_OracleParams_fields_def api_OracleParams_at list_value_simps)
  moreover
  have "api_op_MissSlashRate x = api_op_MissSlashRate y"
    using eq [of "OracleParams_fd ''miss_slash_rate''"] by (simp add: api_OracleParams_fields_def api_OracleParams_at list_value_simps)
  moreover
  have "api_op_OutlierSlashRate x = api_op_OutlierSlashRate y"
    using eq [of "OracleParams_fd ''outlier_slash_rate''"] by (simp add: api_OracleParams_fields_def api_OracleParams_at list_value_simps)
  moreover
  have "api_op_OutlierThreshold x = api_op_OutlierThreshold y"
    using eq [of "OracleParams_fd ''outlier_threshold''"] by (simp add: api_OracleParams_fields_def api_OracleParams_at list_value_simps)
  moreover
  have "api_op_MissWindowSize x = api_op_MissWindowSize y"
    using eq [of "OracleParams_fd ''miss_window_size''"] by (simp add: api_OracleParams_fields_def api_OracleParams_at list_value_simps)
  moreover
  have "api_op_QuorumFraction x = api_op_QuorumFraction y"
    using eq [of "OracleParams_fd ''quorum_fraction''"] by (simp add: api_OracleParams_fields_def api_OracleParams_at list_value_simps)
  moreover
  have "api_op_MaxPriceAge x = api_op_MaxPriceAge y"
    using eq [of "OracleParams_fd ''max_price_age''"] by (simp add: api_OracleParams_fields_def api_OracleParams_at list_value_simps)
  moreover
  have "api_op_AcceptList x = api_op_AcceptList y"
    using eq [of "OracleParams_fd ''accept_list''"] by (simp add: api_OracleParams_fields_def api_OracleParams_at list_value_simps)
  ultimately show "x = y" by (simp add: api_OracleParams.equality)
qed

text \<open>The values a client's OracleParams holds: Go integers, and no field it does not know.\<close>

definition api_OracleParams_wf :: "pulsar_runtime \<Rightarrow> api_OracleParams \<Rightarrow> bool" where
  "api_OracleParams_wf R m \<longleftrightarrow> api_op_unknownFields m = [] \<and> is_i64 (api_op_VoteWindow m) \<and> is_i64 (api_op_MissWindowSize m) \<and> is_i64 (api_op_MaxPriceAge m) \<and> api_OracleParams_size R (Some m) < 2 ^ 63"

lemma api_OracleParams_handler:
  "api_OracleParams_field R discardUnknown 1 0 pre cur x = field_int64 0 cur (\<lambda>v x. x\<lparr>api_op_VoteWindow := v\<rparr>) x"
  "api_OracleParams_field R discardUnknown 2 2 pre cur x = field_string 2 cur (\<lambda>v x. x\<lparr>api_op_MissThreshold := v\<rparr>) x"
  "api_OracleParams_field R discardUnknown 3 2 pre cur x = field_string 2 cur (\<lambda>v x. x\<lparr>api_op_MissSlashRate := v\<rparr>) x"
  "api_OracleParams_field R discardUnknown 4 2 pre cur x = field_string 2 cur (\<lambda>v x. x\<lparr>api_op_OutlierSlashRate := v\<rparr>) x"
  "api_OracleParams_field R discardUnknown 5 2 pre cur x = field_string 2 cur (\<lambda>v x. x\<lparr>api_op_OutlierThreshold := v\<rparr>) x"
  "api_OracleParams_field R discardUnknown 6 0 pre cur x = field_int64 0 cur (\<lambda>v x. x\<lparr>api_op_MissWindowSize := v\<rparr>) x"
  "api_OracleParams_field R discardUnknown 7 2 pre cur x = field_string 2 cur (\<lambda>v x. x\<lparr>api_op_QuorumFraction := v\<rparr>) x"
  "api_OracleParams_field R discardUnknown 8 0 pre cur x = field_int64 0 cur (\<lambda>v x. x\<lparr>api_op_MaxPriceAge := v\<rparr>) x"
  "api_OracleParams_field R discardUnknown 9 2 pre cur x = field_string 2 cur (\<lambda>v x. x\<lparr>api_op_AcceptList := api_op_AcceptList x @ [v]\<rparr>) x"
  by (simp_all add: api_OracleParams_field_def)

lemmas api_OracleParams_steps =
  loop_int64 [where h = "api_OracleParams_field R discardUnknown", OF api_OracleParams_handler(1)]
  loop_string [where h = "api_OracleParams_field R discardUnknown", OF api_OracleParams_handler(2)]
  loop_string [where h = "api_OracleParams_field R discardUnknown", OF api_OracleParams_handler(3)]
  loop_string [where h = "api_OracleParams_field R discardUnknown", OF api_OracleParams_handler(4)]
  loop_string [where h = "api_OracleParams_field R discardUnknown", OF api_OracleParams_handler(5)]
  loop_int64 [where h = "api_OracleParams_field R discardUnknown", OF api_OracleParams_handler(6)]
  loop_string [where h = "api_OracleParams_field R discardUnknown", OF api_OracleParams_handler(7)]
  loop_int64 [where h = "api_OracleParams_field R discardUnknown", OF api_OracleParams_handler(8)]
  loop_strings [where h = "api_OracleParams_field R discardUnknown", OF api_OracleParams_handler(9)]
  for R discardUnknown

lemma fold_append_api_op_AcceptList: "fold (\<lambda>v x. x\<lparr>api_op_AcceptList := api_op_AcceptList x @ [v]\<rparr>) xs x = x\<lparr>api_op_AcceptList := api_op_AcceptList x @ xs\<rparr>"
  by (induction xs arbitrary: x) simp_all

lemma api_OracleParams_roundtrip:
  assumes R: "runtime_laws R" and wf: "api_OracleParams_wf R m"
  shows "\<exists>bz. (\<forall>buf. api_OracleParams_marshal R buf (Some m) = Ok (buf @ bz)) \<and> length bz = api_OracleParams_size R (Some m) \<and>
           api_OracleParams_unmarshal R discardUnknown bz (Some zero_api_OracleParams) = Ok (Some m)"
proof -
  have sz: "rt_size_int64 R (api_op_VoteWindow m) + rt_size_string R (api_op_MissThreshold m) + rt_size_string R (api_op_MissSlashRate m) + rt_size_string R (api_op_OutlierSlashRate m) + rt_size_string R (api_op_OutlierThreshold m) + rt_size_int64 R (api_op_MissWindowSize m) + rt_size_string R (api_op_QuorumFraction m) + rt_size_int64 R (api_op_MaxPriceAge m) + rt_size_strings R (api_op_AcceptList m) < 2 ^ 63"
    using wf by (simp add: api_OracleParams_wf_def api_OracleParams_size_def)
  have l_MissThreshold: "length (api_op_MissThreshold m) < 2 ^ 63" using sz rt_size_ge(1) [of "api_op_MissThreshold m" R] by linarith
  have l_MissSlashRate: "length (api_op_MissSlashRate m) < 2 ^ 63" using sz rt_size_ge(1) [of "api_op_MissSlashRate m" R] by linarith
  have l_OutlierSlashRate: "length (api_op_OutlierSlashRate m) < 2 ^ 63" using sz rt_size_ge(1) [of "api_op_OutlierSlashRate m" R] by linarith
  have l_OutlierThreshold: "length (api_op_OutlierThreshold m) < 2 ^ 63" using sz rt_size_ge(1) [of "api_op_OutlierThreshold m" R] by linarith
  have l_QuorumFraction: "length (api_op_QuorumFraction m) < 2 ^ 63" using sz rt_size_ge(1) [of "api_op_QuorumFraction m" R] by linarith
  have "rt_size_strings R (api_op_AcceptList m) < 2 ^ 63" using sz by linarith
  then have l_AcceptList: "\<forall>s\<in>set (api_op_AcceptList m). length s < 2 ^ 63"
    using rt_size_strings_ge le_less_trans by blast
  define bz where "bz = put_int64 8 (api_op_VoteWindow m)
       (put_string 18 (api_op_MissThreshold m)
       (put_string 26 (api_op_MissSlashRate m)
       (put_string 34 (api_op_OutlierSlashRate m)
       (put_string 42 (api_op_OutlierThreshold m)
       (put_int64 48 (api_op_MissWindowSize m)
       (put_string 58 (api_op_QuorumFraction m)
       (put_int64 64 (api_op_MaxPriceAge m)
       (put_strings 74 (api_op_AcceptList m)
       []))))))))"
  have len: "length bz = api_OracleParams_size R (Some m)"
    using wf by (simp add: bz_def api_OracleParams_size_def rt_size_eq(3) [OF R] rt_size_eq(2) [OF R l_MissThreshold] rt_put_eq(2) [OF R l_MissThreshold] rt_size_eq(2) [OF R l_MissSlashRate] rt_put_eq(2) [OF R l_MissSlashRate] rt_size_eq(2) [OF R l_OutlierSlashRate] rt_put_eq(2) [OF R l_OutlierSlashRate] rt_size_eq(2) [OF R l_OutlierThreshold] rt_put_eq(2) [OF R l_OutlierThreshold] rt_size_eq(2) [OF R l_QuorumFraction] rt_put_eq(2) [OF R l_QuorumFraction] rt_strings_eq [OF R l_AcceptList] api_OracleParams_wf_def)
  have lt: "length bz < 2 ^ 63" using wf by (simp add: len api_OracleParams_wf_def)
  have "api_OracleParams_marshal R buf (Some m) = Ok (buf @ bz)" for buf
  proof -
    have "api_OracleParams_marshal R buf (Some m) = rt_buffer buf (api_OracleParams_size R (Some m)) bz"
      using wf by (simp add: api_OracleParams_marshal_def bz_def rt_put_eq(3) [OF R] rt_size_eq(2) [OF R l_MissThreshold] rt_put_eq(2) [OF R l_MissThreshold] rt_size_eq(2) [OF R l_MissSlashRate] rt_put_eq(2) [OF R l_MissSlashRate] rt_size_eq(2) [OF R l_OutlierSlashRate] rt_put_eq(2) [OF R l_OutlierSlashRate] rt_size_eq(2) [OF R l_OutlierThreshold] rt_put_eq(2) [OF R l_OutlierThreshold] rt_size_eq(2) [OF R l_QuorumFraction] rt_put_eq(2) [OF R l_QuorumFraction] rt_strings_eq [OF R l_AcceptList] api_OracleParams_wf_def)
    then show ?thesis by (simp add: rt_buffer_exact len)
  qed
  moreover have "api_OracleParams_unmarshal R discardUnknown bz (Some zero_api_OracleParams) = Ok (Some m)"
    using wf lt
    by (simp add: api_OracleParams_unmarshal_def bz_def api_OracleParams_wf_def api_OracleParams_steps  fits_int_def zero_api_OracleParams_def fold_append_api_op_AcceptList)
  ultimately show ?thesis using len by blast
qed

interpretation OracleParams_api_codec: message_codec "api_OracleParams_size R" "api_OracleParams_marshal R []" "\<lambda>bz. api_OracleParams_unmarshal R discardUnknown bz (Some zero_api_OracleParams)"
    "\<lambda>m. runtime_laws R \<and> (case m of None \<Rightarrow> False | Some x \<Rightarrow> api_OracleParams_wf R x)" for R discardUnknown
  by unfold_locales (use api_OracleParams_roundtrip in \<open>fastforce split: option.splits\<close>)

lemma api_OracleParams_encoded:
  assumes R: "runtime_laws R" and v: "case m of None \<Rightarrow> True | Some t \<Rightarrow> api_OracleParams_wf R t"
  obtains e where "message_encoded (api_OracleParams_size R) (api_OracleParams_marshal R []) (api_OracleParams_unmarshal R discardUnknown) zero_api_OracleParams m e"
proof (cases m)
  case None
  then show thesis using that [of None] by (simp add: message_encoded_def)
next
  case (Some t)
  then have "api_OracleParams_wf R t" using v by simp
  from api_OracleParams_roundtrip [OF R this, of discardUnknown] obtain bz where "api_OracleParams_marshal R [] (Some t) = Ok bz"
      "length bz = api_OracleParams_size R (Some t)" "api_OracleParams_unmarshal R discardUnknown bz (Some zero_api_OracleParams) = Ok (Some t)"
    by fastforce
  then show thesis using Some that [of "Some bz"] by (simp add: message_encoded_def)
qed

subsection \<open>MsgSetFeeder\<close>

record api_MsgSetFeeder =
  api_msf_Validator :: string
  api_msf_Feeder :: string
  api_msf_unknownFields :: bytes

definition zero_api_MsgSetFeeder :: api_MsgSetFeeder where
  "zero_api_MsgSetFeeder = \<lparr>api_msf_Validator = [], api_msf_Feeder = [], api_msf_unknownFields = []\<rparr>"

definition MsgSetFeeder_fd :: "string \<Rightarrow> string" where
  "MsgSetFeeder_fd n = ''vertix.oracle.v1.MsgSetFeeder.'' @ n"

lemma MsgSetFeeder_fd_inject [simp]: "MsgSetFeeder_fd a = MsgSetFeeder_fd b \<longleftrightarrow> a = b"
  by (simp add: MsgSetFeeder_fd_def)

definition api_MsgSetFeeder_fields :: "string list" where
  "api_MsgSetFeeder_fields = map MsgSetFeeder_fd [''validator'', ''feeder'']"

definition api_MsgSetFeeder_Range ::
    "(string \<Rightarrow> 'v reflect_value \<Rightarrow> 's \<Rightarrow> (bool \<times> 's) outcome) \<Rightarrow> api_MsgSetFeeder \<Rightarrow> 's \<Rightarrow> 's outcome" where
  "api_MsgSetFeeder_Range f x =
     range_field (api_msf_Validator x \<noteq> []) (MsgSetFeeder_fd ''validator'') (StringValue (api_msf_Validator x)) f
      (range_field (api_msf_Feeder x \<noteq> []) (MsgSetFeeder_fd ''feeder'') (StringValue (api_msf_Feeder x)) f
      Ok)"

definition api_MsgSetFeeder_Has :: "string \<Rightarrow> api_MsgSetFeeder \<Rightarrow> bool outcome" where
  "api_MsgSetFeeder_Has fd x =
     (if fd = MsgSetFeeder_fd ''validator'' then Ok (api_msf_Validator x \<noteq> [])
      else if fd = MsgSetFeeder_fd ''feeder'' then Ok (api_msf_Feeder x \<noteq> [])
      else Panic)"

definition api_MsgSetFeeder_Clear :: "string \<Rightarrow> api_MsgSetFeeder \<Rightarrow> api_MsgSetFeeder outcome" where
  "api_MsgSetFeeder_Clear fd x =
     (if fd = MsgSetFeeder_fd ''validator'' then Ok (x\<lparr>api_msf_Validator := []\<rparr>)
      else if fd = MsgSetFeeder_fd ''feeder'' then Ok (x\<lparr>api_msf_Feeder := []\<rparr>)
      else Panic)"

definition api_MsgSetFeeder_Get :: "string \<Rightarrow> api_MsgSetFeeder \<Rightarrow> 'v reflect_value outcome" where
  "api_MsgSetFeeder_Get fd x =
     (if fd = MsgSetFeeder_fd ''validator'' then Ok (StringValue (api_msf_Validator x))
      else if fd = MsgSetFeeder_fd ''feeder'' then Ok (StringValue (api_msf_Feeder x))
      else Panic)"

definition api_MsgSetFeeder_Set :: "string \<Rightarrow> 'v reflect_value \<Rightarrow> api_MsgSetFeeder \<Rightarrow> api_MsgSetFeeder outcome" where
  "api_MsgSetFeeder_Set fd v x =
     (if fd = MsgSetFeeder_fd ''validator'' then obind (as_string v) (\<lambda>w. Ok (x\<lparr>api_msf_Validator := w\<rparr>))
      else if fd = MsgSetFeeder_fd ''feeder'' then obind (as_string v) (\<lambda>w. Ok (x\<lparr>api_msf_Feeder := w\<rparr>))
      else Panic)"

definition api_MsgSetFeeder_size :: "pulsar_runtime \<Rightarrow> api_MsgSetFeeder option \<Rightarrow> nat" where
  "api_MsgSetFeeder_size R m = (case m of None \<Rightarrow> 0 | Some x \<Rightarrow>
     rt_size_string R (api_msf_Validator x) +
     rt_size_string R (api_msf_Feeder x) + length (api_msf_unknownFields x))"

definition api_MsgSetFeeder_marshal :: "pulsar_runtime \<Rightarrow> bytes \<Rightarrow> api_MsgSetFeeder option \<Rightarrow> bytes outcome" where
  "api_MsgSetFeeder_marshal R buf m = (case m of None \<Rightarrow> Ok buf | Some x \<Rightarrow>
     rt_buffer buf (api_MsgSetFeeder_size R m)
       (rt_put_string R 10 (api_msf_Validator x)
       (rt_put_string R 18 (api_msf_Feeder x)
       (api_msf_unknownFields x))))"

definition api_MsgSetFeeder_field :: "pulsar_runtime \<Rightarrow> bool \<Rightarrow> api_MsgSetFeeder handler" where
  "api_MsgSetFeeder_field R discardUnknown fieldNum wireType pre cur x =
     (if fieldNum = 1 then field_string wireType cur (\<lambda>v x. x\<lparr>api_msf_Validator := v\<rparr>) x
      else if fieldNum = 2 then field_string wireType cur (\<lambda>v x. x\<lparr>api_msf_Feeder := v\<rparr>) x
      else field_unknown R discardUnknown pre (\<lambda>bz x. x\<lparr>api_msf_unknownFields := api_msf_unknownFields x @ bz\<rparr>) x)"

definition api_MsgSetFeeder_unmarshal :: "pulsar_runtime \<Rightarrow> bool \<Rightarrow> bytes \<Rightarrow> api_MsgSetFeeder option \<Rightarrow> api_MsgSetFeeder option outcome" where
  "api_MsgSetFeeder_unmarshal R discardUnknown dAtA m = (case m of None \<Rightarrow> Ok None | Some x \<Rightarrow>
     obind (unmarshal_loop (api_MsgSetFeeder_field R discardUnknown) x 0 dAtA) (\<lambda>x. Ok (Some x)))"

lemma api_MsgSetFeeder_at:
  "api_MsgSetFeeder_Has (MsgSetFeeder_fd ''validator'') x = Ok (api_msf_Validator x \<noteq> [])"
  "api_MsgSetFeeder_Clear (MsgSetFeeder_fd ''validator'') x = Ok (x\<lparr>api_msf_Validator := []\<rparr>)"
  "api_MsgSetFeeder_Get (MsgSetFeeder_fd ''validator'') x = Ok (StringValue (api_msf_Validator x))"
  "api_MsgSetFeeder_Set (MsgSetFeeder_fd ''validator'') v x = obind (as_string v) (\<lambda>w. Ok (x\<lparr>api_msf_Validator := w\<rparr>))"
  "api_MsgSetFeeder_Has (MsgSetFeeder_fd ''feeder'') x = Ok (api_msf_Feeder x \<noteq> [])"
  "api_MsgSetFeeder_Clear (MsgSetFeeder_fd ''feeder'') x = Ok (x\<lparr>api_msf_Feeder := []\<rparr>)"
  "api_MsgSetFeeder_Get (MsgSetFeeder_fd ''feeder'') x = Ok (StringValue (api_msf_Feeder x))"
  "api_MsgSetFeeder_Set (MsgSetFeeder_fd ''feeder'') v x = obind (as_string v) (\<lambda>w. Ok (x\<lparr>api_msf_Feeder := w\<rparr>))"
  by (simp_all add: api_MsgSetFeeder_Has_def api_MsgSetFeeder_Clear_def api_MsgSetFeeder_Get_def api_MsgSetFeeder_Set_def)

interpretation MsgSetFeeder_reflect: reflected_message api_MsgSetFeeder_fields api_MsgSetFeeder_Range api_MsgSetFeeder_Has api_MsgSetFeeder_Clear api_MsgSetFeeder_Get api_MsgSetFeeder_Set api_msf_unknownFields zero_api_MsgSetFeeder
proof
  show "distinct api_MsgSetFeeder_fields" by (simp add: api_MsgSetFeeder_fields_def)
next
  show "\<exists>v. api_MsgSetFeeder_Get fd x = Ok v" if "fd \<in> set api_MsgSetFeeder_fields" for fd x
    using that unfolding api_MsgSetFeeder_fields_def field_cases
    by (elim disjE; clarsimp simp: api_MsgSetFeeder_at zero_api_MsgSetFeeder_def list_value_simps)
next
  show "\<exists>y'. api_MsgSetFeeder_Set fd v y = Ok y' \<and> api_MsgSetFeeder_Get fd y' = Ok v \<and> api_msf_unknownFields y' = api_msf_unknownFields y \<and>
      (\<forall>g\<in>set api_MsgSetFeeder_fields. g \<noteq> fd \<longrightarrow> api_MsgSetFeeder_Get g y' = api_MsgSetFeeder_Get g y)"
    if "fd \<in> set api_MsgSetFeeder_fields" "api_MsgSetFeeder_Has fd x = Ok True" "api_MsgSetFeeder_Get fd x = Ok v" for fd x v y
    using that unfolding api_MsgSetFeeder_fields_def field_cases
    by (elim disjE; clarsimp simp: api_MsgSetFeeder_at zero_api_MsgSetFeeder_def list_value_simps)
next
  show "api_MsgSetFeeder_Has fd x = Ok (api_MsgSetFeeder_Get fd x \<noteq> api_MsgSetFeeder_Get fd zero_api_MsgSetFeeder)" if "fd \<in> set api_MsgSetFeeder_fields" for fd x
    using that unfolding api_MsgSetFeeder_fields_def field_cases
    by (elim disjE; clarsimp simp: api_MsgSetFeeder_at zero_api_MsgSetFeeder_def list_value_simps)
next
  show "\<exists>x'. api_MsgSetFeeder_Clear fd x = Ok x' \<and> api_MsgSetFeeder_Get fd x' = api_MsgSetFeeder_Get fd zero_api_MsgSetFeeder \<and> api_msf_unknownFields x' = api_msf_unknownFields x \<and>
      (\<forall>g\<in>set api_MsgSetFeeder_fields. g \<noteq> fd \<longrightarrow> api_MsgSetFeeder_Get g x' = api_MsgSetFeeder_Get g x)" if "fd \<in> set api_MsgSetFeeder_fields" for fd x
    using that unfolding api_MsgSetFeeder_fields_def field_cases
    by (elim disjE; clarsimp simp: api_MsgSetFeeder_at zero_api_MsgSetFeeder_def list_value_simps)
next
  show "api_MsgSetFeeder_Range f x = range_list f (populated api_MsgSetFeeder_fields (\<lambda>fd. api_MsgSetFeeder_Has fd x) (\<lambda>fd. api_MsgSetFeeder_Get fd x))" for f x
    by (simp add: api_MsgSetFeeder_at zero_api_MsgSetFeeder_def api_MsgSetFeeder_fields_def api_MsgSetFeeder_Range_def list_value_def range_field_last range_field_Cons cong: if_cong split del: if_split)
next
  show "api_MsgSetFeeder_Has fd x = Panic \<and> api_MsgSetFeeder_Get fd x = Panic \<and> api_MsgSetFeeder_Set fd v x = Panic \<and> api_MsgSetFeeder_Clear fd x = Panic"
    if "fd \<notin> set api_MsgSetFeeder_fields" for fd x v
    using that by (simp add: api_MsgSetFeeder_fields_def api_MsgSetFeeder_Has_def api_MsgSetFeeder_Get_def api_MsgSetFeeder_Set_def api_MsgSetFeeder_Clear_def)
next
  fix x y :: api_MsgSetFeeder
  assume eq: "\<And>fd. fd \<in> set api_MsgSetFeeder_fields \<Longrightarrow> api_MsgSetFeeder_Get fd x = api_MsgSetFeeder_Get fd y" and u: "api_msf_unknownFields x = api_msf_unknownFields y"
  have "api_msf_Validator x = api_msf_Validator y"
    using eq [of "MsgSetFeeder_fd ''validator''"] by (simp add: api_MsgSetFeeder_fields_def api_MsgSetFeeder_at list_value_simps)
  moreover note u
  moreover
  have "api_msf_Feeder x = api_msf_Feeder y"
    using eq [of "MsgSetFeeder_fd ''feeder''"] by (simp add: api_MsgSetFeeder_fields_def api_MsgSetFeeder_at list_value_simps)
  ultimately show "x = y" by (simp add: api_MsgSetFeeder.equality)
qed

text \<open>The values a client's MsgSetFeeder holds: Go integers, and no field it does not know.\<close>

definition api_MsgSetFeeder_wf :: "pulsar_runtime \<Rightarrow> api_MsgSetFeeder \<Rightarrow> bool" where
  "api_MsgSetFeeder_wf R m \<longleftrightarrow> api_msf_unknownFields m = [] \<and> api_MsgSetFeeder_size R (Some m) < 2 ^ 63"

lemma api_MsgSetFeeder_handler:
  "api_MsgSetFeeder_field R discardUnknown 1 2 pre cur x = field_string 2 cur (\<lambda>v x. x\<lparr>api_msf_Validator := v\<rparr>) x"
  "api_MsgSetFeeder_field R discardUnknown 2 2 pre cur x = field_string 2 cur (\<lambda>v x. x\<lparr>api_msf_Feeder := v\<rparr>) x"
  by (simp_all add: api_MsgSetFeeder_field_def)

lemmas api_MsgSetFeeder_steps =
  loop_string [where h = "api_MsgSetFeeder_field R discardUnknown", OF api_MsgSetFeeder_handler(1)]
  loop_string [where h = "api_MsgSetFeeder_field R discardUnknown", OF api_MsgSetFeeder_handler(2)]
  for R discardUnknown

lemma api_MsgSetFeeder_roundtrip:
  assumes R: "runtime_laws R" and wf: "api_MsgSetFeeder_wf R m"
  shows "\<exists>bz. (\<forall>buf. api_MsgSetFeeder_marshal R buf (Some m) = Ok (buf @ bz)) \<and> length bz = api_MsgSetFeeder_size R (Some m) \<and>
           api_MsgSetFeeder_unmarshal R discardUnknown bz (Some zero_api_MsgSetFeeder) = Ok (Some m)"
proof -
  have sz: "rt_size_string R (api_msf_Validator m) + rt_size_string R (api_msf_Feeder m) < 2 ^ 63"
    using wf by (simp add: api_MsgSetFeeder_wf_def api_MsgSetFeeder_size_def)
  have l_Validator: "length (api_msf_Validator m) < 2 ^ 63" using sz rt_size_ge(1) [of "api_msf_Validator m" R] by linarith
  have l_Feeder: "length (api_msf_Feeder m) < 2 ^ 63" using sz rt_size_ge(1) [of "api_msf_Feeder m" R] by linarith
  define bz where "bz = put_string 10 (api_msf_Validator m)
       (put_string 18 (api_msf_Feeder m)
       [])"
  have len: "length bz = api_MsgSetFeeder_size R (Some m)"
    using wf by (simp add: bz_def api_MsgSetFeeder_size_def rt_size_eq(3) [OF R] rt_size_eq(2) [OF R l_Validator] rt_put_eq(2) [OF R l_Validator] rt_size_eq(2) [OF R l_Feeder] rt_put_eq(2) [OF R l_Feeder] api_MsgSetFeeder_wf_def)
  have lt: "length bz < 2 ^ 63" using wf by (simp add: len api_MsgSetFeeder_wf_def)
  have "api_MsgSetFeeder_marshal R buf (Some m) = Ok (buf @ bz)" for buf
  proof -
    have "api_MsgSetFeeder_marshal R buf (Some m) = rt_buffer buf (api_MsgSetFeeder_size R (Some m)) bz"
      using wf by (simp add: api_MsgSetFeeder_marshal_def bz_def rt_put_eq(3) [OF R] rt_size_eq(2) [OF R l_Validator] rt_put_eq(2) [OF R l_Validator] rt_size_eq(2) [OF R l_Feeder] rt_put_eq(2) [OF R l_Feeder] api_MsgSetFeeder_wf_def)
    then show ?thesis by (simp add: rt_buffer_exact len)
  qed
  moreover have "api_MsgSetFeeder_unmarshal R discardUnknown bz (Some zero_api_MsgSetFeeder) = Ok (Some m)"
    using wf lt
    by (simp add: api_MsgSetFeeder_unmarshal_def bz_def api_MsgSetFeeder_wf_def api_MsgSetFeeder_steps  fits_int_def zero_api_MsgSetFeeder_def )
  ultimately show ?thesis using len by blast
qed

interpretation MsgSetFeeder_api_codec: message_codec "api_MsgSetFeeder_size R" "api_MsgSetFeeder_marshal R []" "\<lambda>bz. api_MsgSetFeeder_unmarshal R discardUnknown bz (Some zero_api_MsgSetFeeder)"
    "\<lambda>m. runtime_laws R \<and> (case m of None \<Rightarrow> False | Some x \<Rightarrow> api_MsgSetFeeder_wf R x)" for R discardUnknown
  by unfold_locales (use api_MsgSetFeeder_roundtrip in \<open>fastforce split: option.splits\<close>)

subsection \<open>MsgSubmitFeed\<close>

record api_MsgSubmitFeed =
  api_msb_Feeder :: string
  api_msb_Validator :: string
  api_msb_Pair :: string
  api_msb_Price :: string
  api_msb_unknownFields :: bytes

definition zero_api_MsgSubmitFeed :: api_MsgSubmitFeed where
  "zero_api_MsgSubmitFeed = \<lparr>api_msb_Feeder = [], api_msb_Validator = [], api_msb_Pair = [], api_msb_Price = [], api_msb_unknownFields = []\<rparr>"

definition MsgSubmitFeed_fd :: "string \<Rightarrow> string" where
  "MsgSubmitFeed_fd n = ''vertix.oracle.v1.MsgSubmitFeed.'' @ n"

lemma MsgSubmitFeed_fd_inject [simp]: "MsgSubmitFeed_fd a = MsgSubmitFeed_fd b \<longleftrightarrow> a = b"
  by (simp add: MsgSubmitFeed_fd_def)

definition api_MsgSubmitFeed_fields :: "string list" where
  "api_MsgSubmitFeed_fields = map MsgSubmitFeed_fd [''feeder'', ''validator'', ''pair'', ''price'']"

definition api_MsgSubmitFeed_Range ::
    "(string \<Rightarrow> 'v reflect_value \<Rightarrow> 's \<Rightarrow> (bool \<times> 's) outcome) \<Rightarrow> api_MsgSubmitFeed \<Rightarrow> 's \<Rightarrow> 's outcome" where
  "api_MsgSubmitFeed_Range f x =
     range_field (api_msb_Feeder x \<noteq> []) (MsgSubmitFeed_fd ''feeder'') (StringValue (api_msb_Feeder x)) f
      (range_field (api_msb_Validator x \<noteq> []) (MsgSubmitFeed_fd ''validator'') (StringValue (api_msb_Validator x)) f
      (range_field (api_msb_Pair x \<noteq> []) (MsgSubmitFeed_fd ''pair'') (StringValue (api_msb_Pair x)) f
      (range_field (api_msb_Price x \<noteq> []) (MsgSubmitFeed_fd ''price'') (StringValue (api_msb_Price x)) f
      Ok)))"

definition api_MsgSubmitFeed_Has :: "string \<Rightarrow> api_MsgSubmitFeed \<Rightarrow> bool outcome" where
  "api_MsgSubmitFeed_Has fd x =
     (if fd = MsgSubmitFeed_fd ''feeder'' then Ok (api_msb_Feeder x \<noteq> [])
      else if fd = MsgSubmitFeed_fd ''validator'' then Ok (api_msb_Validator x \<noteq> [])
      else if fd = MsgSubmitFeed_fd ''pair'' then Ok (api_msb_Pair x \<noteq> [])
      else if fd = MsgSubmitFeed_fd ''price'' then Ok (api_msb_Price x \<noteq> [])
      else Panic)"

definition api_MsgSubmitFeed_Clear :: "string \<Rightarrow> api_MsgSubmitFeed \<Rightarrow> api_MsgSubmitFeed outcome" where
  "api_MsgSubmitFeed_Clear fd x =
     (if fd = MsgSubmitFeed_fd ''feeder'' then Ok (x\<lparr>api_msb_Feeder := []\<rparr>)
      else if fd = MsgSubmitFeed_fd ''validator'' then Ok (x\<lparr>api_msb_Validator := []\<rparr>)
      else if fd = MsgSubmitFeed_fd ''pair'' then Ok (x\<lparr>api_msb_Pair := []\<rparr>)
      else if fd = MsgSubmitFeed_fd ''price'' then Ok (x\<lparr>api_msb_Price := []\<rparr>)
      else Panic)"

definition api_MsgSubmitFeed_Get :: "string \<Rightarrow> api_MsgSubmitFeed \<Rightarrow> 'v reflect_value outcome" where
  "api_MsgSubmitFeed_Get fd x =
     (if fd = MsgSubmitFeed_fd ''feeder'' then Ok (StringValue (api_msb_Feeder x))
      else if fd = MsgSubmitFeed_fd ''validator'' then Ok (StringValue (api_msb_Validator x))
      else if fd = MsgSubmitFeed_fd ''pair'' then Ok (StringValue (api_msb_Pair x))
      else if fd = MsgSubmitFeed_fd ''price'' then Ok (StringValue (api_msb_Price x))
      else Panic)"

definition api_MsgSubmitFeed_Set :: "string \<Rightarrow> 'v reflect_value \<Rightarrow> api_MsgSubmitFeed \<Rightarrow> api_MsgSubmitFeed outcome" where
  "api_MsgSubmitFeed_Set fd v x =
     (if fd = MsgSubmitFeed_fd ''feeder'' then obind (as_string v) (\<lambda>w. Ok (x\<lparr>api_msb_Feeder := w\<rparr>))
      else if fd = MsgSubmitFeed_fd ''validator'' then obind (as_string v) (\<lambda>w. Ok (x\<lparr>api_msb_Validator := w\<rparr>))
      else if fd = MsgSubmitFeed_fd ''pair'' then obind (as_string v) (\<lambda>w. Ok (x\<lparr>api_msb_Pair := w\<rparr>))
      else if fd = MsgSubmitFeed_fd ''price'' then obind (as_string v) (\<lambda>w. Ok (x\<lparr>api_msb_Price := w\<rparr>))
      else Panic)"

definition api_MsgSubmitFeed_size :: "pulsar_runtime \<Rightarrow> api_MsgSubmitFeed option \<Rightarrow> nat" where
  "api_MsgSubmitFeed_size R m = (case m of None \<Rightarrow> 0 | Some x \<Rightarrow>
     rt_size_string R (api_msb_Feeder x) +
     rt_size_string R (api_msb_Validator x) +
     rt_size_string R (api_msb_Pair x) +
     rt_size_string R (api_msb_Price x) + length (api_msb_unknownFields x))"

definition api_MsgSubmitFeed_marshal :: "pulsar_runtime \<Rightarrow> bytes \<Rightarrow> api_MsgSubmitFeed option \<Rightarrow> bytes outcome" where
  "api_MsgSubmitFeed_marshal R buf m = (case m of None \<Rightarrow> Ok buf | Some x \<Rightarrow>
     rt_buffer buf (api_MsgSubmitFeed_size R m)
       (rt_put_string R 10 (api_msb_Feeder x)
       (rt_put_string R 18 (api_msb_Validator x)
       (rt_put_string R 26 (api_msb_Pair x)
       (rt_put_string R 34 (api_msb_Price x)
       (api_msb_unknownFields x))))))"

definition api_MsgSubmitFeed_field :: "pulsar_runtime \<Rightarrow> bool \<Rightarrow> api_MsgSubmitFeed handler" where
  "api_MsgSubmitFeed_field R discardUnknown fieldNum wireType pre cur x =
     (if fieldNum = 1 then field_string wireType cur (\<lambda>v x. x\<lparr>api_msb_Feeder := v\<rparr>) x
      else if fieldNum = 2 then field_string wireType cur (\<lambda>v x. x\<lparr>api_msb_Validator := v\<rparr>) x
      else if fieldNum = 3 then field_string wireType cur (\<lambda>v x. x\<lparr>api_msb_Pair := v\<rparr>) x
      else if fieldNum = 4 then field_string wireType cur (\<lambda>v x. x\<lparr>api_msb_Price := v\<rparr>) x
      else field_unknown R discardUnknown pre (\<lambda>bz x. x\<lparr>api_msb_unknownFields := api_msb_unknownFields x @ bz\<rparr>) x)"

definition api_MsgSubmitFeed_unmarshal :: "pulsar_runtime \<Rightarrow> bool \<Rightarrow> bytes \<Rightarrow> api_MsgSubmitFeed option \<Rightarrow> api_MsgSubmitFeed option outcome" where
  "api_MsgSubmitFeed_unmarshal R discardUnknown dAtA m = (case m of None \<Rightarrow> Ok None | Some x \<Rightarrow>
     obind (unmarshal_loop (api_MsgSubmitFeed_field R discardUnknown) x 0 dAtA) (\<lambda>x. Ok (Some x)))"

lemma api_MsgSubmitFeed_at:
  "api_MsgSubmitFeed_Has (MsgSubmitFeed_fd ''feeder'') x = Ok (api_msb_Feeder x \<noteq> [])"
  "api_MsgSubmitFeed_Clear (MsgSubmitFeed_fd ''feeder'') x = Ok (x\<lparr>api_msb_Feeder := []\<rparr>)"
  "api_MsgSubmitFeed_Get (MsgSubmitFeed_fd ''feeder'') x = Ok (StringValue (api_msb_Feeder x))"
  "api_MsgSubmitFeed_Set (MsgSubmitFeed_fd ''feeder'') v x = obind (as_string v) (\<lambda>w. Ok (x\<lparr>api_msb_Feeder := w\<rparr>))"
  "api_MsgSubmitFeed_Has (MsgSubmitFeed_fd ''validator'') x = Ok (api_msb_Validator x \<noteq> [])"
  "api_MsgSubmitFeed_Clear (MsgSubmitFeed_fd ''validator'') x = Ok (x\<lparr>api_msb_Validator := []\<rparr>)"
  "api_MsgSubmitFeed_Get (MsgSubmitFeed_fd ''validator'') x = Ok (StringValue (api_msb_Validator x))"
  "api_MsgSubmitFeed_Set (MsgSubmitFeed_fd ''validator'') v x = obind (as_string v) (\<lambda>w. Ok (x\<lparr>api_msb_Validator := w\<rparr>))"
  "api_MsgSubmitFeed_Has (MsgSubmitFeed_fd ''pair'') x = Ok (api_msb_Pair x \<noteq> [])"
  "api_MsgSubmitFeed_Clear (MsgSubmitFeed_fd ''pair'') x = Ok (x\<lparr>api_msb_Pair := []\<rparr>)"
  "api_MsgSubmitFeed_Get (MsgSubmitFeed_fd ''pair'') x = Ok (StringValue (api_msb_Pair x))"
  "api_MsgSubmitFeed_Set (MsgSubmitFeed_fd ''pair'') v x = obind (as_string v) (\<lambda>w. Ok (x\<lparr>api_msb_Pair := w\<rparr>))"
  "api_MsgSubmitFeed_Has (MsgSubmitFeed_fd ''price'') x = Ok (api_msb_Price x \<noteq> [])"
  "api_MsgSubmitFeed_Clear (MsgSubmitFeed_fd ''price'') x = Ok (x\<lparr>api_msb_Price := []\<rparr>)"
  "api_MsgSubmitFeed_Get (MsgSubmitFeed_fd ''price'') x = Ok (StringValue (api_msb_Price x))"
  "api_MsgSubmitFeed_Set (MsgSubmitFeed_fd ''price'') v x = obind (as_string v) (\<lambda>w. Ok (x\<lparr>api_msb_Price := w\<rparr>))"
  by (simp_all add: api_MsgSubmitFeed_Has_def api_MsgSubmitFeed_Clear_def api_MsgSubmitFeed_Get_def api_MsgSubmitFeed_Set_def)

interpretation MsgSubmitFeed_reflect: reflected_message api_MsgSubmitFeed_fields api_MsgSubmitFeed_Range api_MsgSubmitFeed_Has api_MsgSubmitFeed_Clear api_MsgSubmitFeed_Get api_MsgSubmitFeed_Set api_msb_unknownFields zero_api_MsgSubmitFeed
proof
  show "distinct api_MsgSubmitFeed_fields" by (simp add: api_MsgSubmitFeed_fields_def)
next
  show "\<exists>v. api_MsgSubmitFeed_Get fd x = Ok v" if "fd \<in> set api_MsgSubmitFeed_fields" for fd x
    using that unfolding api_MsgSubmitFeed_fields_def field_cases
    by (elim disjE; clarsimp simp: api_MsgSubmitFeed_at zero_api_MsgSubmitFeed_def list_value_simps)
next
  show "\<exists>y'. api_MsgSubmitFeed_Set fd v y = Ok y' \<and> api_MsgSubmitFeed_Get fd y' = Ok v \<and> api_msb_unknownFields y' = api_msb_unknownFields y \<and>
      (\<forall>g\<in>set api_MsgSubmitFeed_fields. g \<noteq> fd \<longrightarrow> api_MsgSubmitFeed_Get g y' = api_MsgSubmitFeed_Get g y)"
    if "fd \<in> set api_MsgSubmitFeed_fields" "api_MsgSubmitFeed_Has fd x = Ok True" "api_MsgSubmitFeed_Get fd x = Ok v" for fd x v y
    using that unfolding api_MsgSubmitFeed_fields_def field_cases
    by (elim disjE; clarsimp simp: api_MsgSubmitFeed_at zero_api_MsgSubmitFeed_def list_value_simps)
next
  show "api_MsgSubmitFeed_Has fd x = Ok (api_MsgSubmitFeed_Get fd x \<noteq> api_MsgSubmitFeed_Get fd zero_api_MsgSubmitFeed)" if "fd \<in> set api_MsgSubmitFeed_fields" for fd x
    using that unfolding api_MsgSubmitFeed_fields_def field_cases
    by (elim disjE; clarsimp simp: api_MsgSubmitFeed_at zero_api_MsgSubmitFeed_def list_value_simps)
next
  show "\<exists>x'. api_MsgSubmitFeed_Clear fd x = Ok x' \<and> api_MsgSubmitFeed_Get fd x' = api_MsgSubmitFeed_Get fd zero_api_MsgSubmitFeed \<and> api_msb_unknownFields x' = api_msb_unknownFields x \<and>
      (\<forall>g\<in>set api_MsgSubmitFeed_fields. g \<noteq> fd \<longrightarrow> api_MsgSubmitFeed_Get g x' = api_MsgSubmitFeed_Get g x)" if "fd \<in> set api_MsgSubmitFeed_fields" for fd x
    using that unfolding api_MsgSubmitFeed_fields_def field_cases
    by (elim disjE; clarsimp simp: api_MsgSubmitFeed_at zero_api_MsgSubmitFeed_def list_value_simps)
next
  show "api_MsgSubmitFeed_Range f x = range_list f (populated api_MsgSubmitFeed_fields (\<lambda>fd. api_MsgSubmitFeed_Has fd x) (\<lambda>fd. api_MsgSubmitFeed_Get fd x))" for f x
    by (simp add: api_MsgSubmitFeed_at zero_api_MsgSubmitFeed_def api_MsgSubmitFeed_fields_def api_MsgSubmitFeed_Range_def list_value_def range_field_last range_field_Cons cong: if_cong split del: if_split)
next
  show "api_MsgSubmitFeed_Has fd x = Panic \<and> api_MsgSubmitFeed_Get fd x = Panic \<and> api_MsgSubmitFeed_Set fd v x = Panic \<and> api_MsgSubmitFeed_Clear fd x = Panic"
    if "fd \<notin> set api_MsgSubmitFeed_fields" for fd x v
    using that by (simp add: api_MsgSubmitFeed_fields_def api_MsgSubmitFeed_Has_def api_MsgSubmitFeed_Get_def api_MsgSubmitFeed_Set_def api_MsgSubmitFeed_Clear_def)
next
  fix x y :: api_MsgSubmitFeed
  assume eq: "\<And>fd. fd \<in> set api_MsgSubmitFeed_fields \<Longrightarrow> api_MsgSubmitFeed_Get fd x = api_MsgSubmitFeed_Get fd y" and u: "api_msb_unknownFields x = api_msb_unknownFields y"
  have "api_msb_Feeder x = api_msb_Feeder y"
    using eq [of "MsgSubmitFeed_fd ''feeder''"] by (simp add: api_MsgSubmitFeed_fields_def api_MsgSubmitFeed_at list_value_simps)
  moreover note u
  moreover
  have "api_msb_Validator x = api_msb_Validator y"
    using eq [of "MsgSubmitFeed_fd ''validator''"] by (simp add: api_MsgSubmitFeed_fields_def api_MsgSubmitFeed_at list_value_simps)
  moreover
  have "api_msb_Pair x = api_msb_Pair y"
    using eq [of "MsgSubmitFeed_fd ''pair''"] by (simp add: api_MsgSubmitFeed_fields_def api_MsgSubmitFeed_at list_value_simps)
  moreover
  have "api_msb_Price x = api_msb_Price y"
    using eq [of "MsgSubmitFeed_fd ''price''"] by (simp add: api_MsgSubmitFeed_fields_def api_MsgSubmitFeed_at list_value_simps)
  ultimately show "x = y" by (simp add: api_MsgSubmitFeed.equality)
qed

text \<open>The values a client's MsgSubmitFeed holds: Go integers, and no field it does not know.\<close>

definition api_MsgSubmitFeed_wf :: "pulsar_runtime \<Rightarrow> api_MsgSubmitFeed \<Rightarrow> bool" where
  "api_MsgSubmitFeed_wf R m \<longleftrightarrow> api_msb_unknownFields m = [] \<and> api_MsgSubmitFeed_size R (Some m) < 2 ^ 63"

lemma api_MsgSubmitFeed_handler:
  "api_MsgSubmitFeed_field R discardUnknown 1 2 pre cur x = field_string 2 cur (\<lambda>v x. x\<lparr>api_msb_Feeder := v\<rparr>) x"
  "api_MsgSubmitFeed_field R discardUnknown 2 2 pre cur x = field_string 2 cur (\<lambda>v x. x\<lparr>api_msb_Validator := v\<rparr>) x"
  "api_MsgSubmitFeed_field R discardUnknown 3 2 pre cur x = field_string 2 cur (\<lambda>v x. x\<lparr>api_msb_Pair := v\<rparr>) x"
  "api_MsgSubmitFeed_field R discardUnknown 4 2 pre cur x = field_string 2 cur (\<lambda>v x. x\<lparr>api_msb_Price := v\<rparr>) x"
  by (simp_all add: api_MsgSubmitFeed_field_def)

lemmas api_MsgSubmitFeed_steps =
  loop_string [where h = "api_MsgSubmitFeed_field R discardUnknown", OF api_MsgSubmitFeed_handler(1)]
  loop_string [where h = "api_MsgSubmitFeed_field R discardUnknown", OF api_MsgSubmitFeed_handler(2)]
  loop_string [where h = "api_MsgSubmitFeed_field R discardUnknown", OF api_MsgSubmitFeed_handler(3)]
  loop_string [where h = "api_MsgSubmitFeed_field R discardUnknown", OF api_MsgSubmitFeed_handler(4)]
  for R discardUnknown

lemma api_MsgSubmitFeed_roundtrip:
  assumes R: "runtime_laws R" and wf: "api_MsgSubmitFeed_wf R m"
  shows "\<exists>bz. (\<forall>buf. api_MsgSubmitFeed_marshal R buf (Some m) = Ok (buf @ bz)) \<and> length bz = api_MsgSubmitFeed_size R (Some m) \<and>
           api_MsgSubmitFeed_unmarshal R discardUnknown bz (Some zero_api_MsgSubmitFeed) = Ok (Some m)"
proof -
  have sz: "rt_size_string R (api_msb_Feeder m) + rt_size_string R (api_msb_Validator m) + rt_size_string R (api_msb_Pair m) + rt_size_string R (api_msb_Price m) < 2 ^ 63"
    using wf by (simp add: api_MsgSubmitFeed_wf_def api_MsgSubmitFeed_size_def)
  have l_Feeder: "length (api_msb_Feeder m) < 2 ^ 63" using sz rt_size_ge(1) [of "api_msb_Feeder m" R] by linarith
  have l_Validator: "length (api_msb_Validator m) < 2 ^ 63" using sz rt_size_ge(1) [of "api_msb_Validator m" R] by linarith
  have l_Pair: "length (api_msb_Pair m) < 2 ^ 63" using sz rt_size_ge(1) [of "api_msb_Pair m" R] by linarith
  have l_Price: "length (api_msb_Price m) < 2 ^ 63" using sz rt_size_ge(1) [of "api_msb_Price m" R] by linarith
  define bz where "bz = put_string 10 (api_msb_Feeder m)
       (put_string 18 (api_msb_Validator m)
       (put_string 26 (api_msb_Pair m)
       (put_string 34 (api_msb_Price m)
       [])))"
  have len: "length bz = api_MsgSubmitFeed_size R (Some m)"
    using wf by (simp add: bz_def api_MsgSubmitFeed_size_def rt_size_eq(3) [OF R] rt_size_eq(2) [OF R l_Feeder] rt_put_eq(2) [OF R l_Feeder] rt_size_eq(2) [OF R l_Validator] rt_put_eq(2) [OF R l_Validator] rt_size_eq(2) [OF R l_Pair] rt_put_eq(2) [OF R l_Pair] rt_size_eq(2) [OF R l_Price] rt_put_eq(2) [OF R l_Price] api_MsgSubmitFeed_wf_def)
  have lt: "length bz < 2 ^ 63" using wf by (simp add: len api_MsgSubmitFeed_wf_def)
  have "api_MsgSubmitFeed_marshal R buf (Some m) = Ok (buf @ bz)" for buf
  proof -
    have "api_MsgSubmitFeed_marshal R buf (Some m) = rt_buffer buf (api_MsgSubmitFeed_size R (Some m)) bz"
      using wf by (simp add: api_MsgSubmitFeed_marshal_def bz_def rt_put_eq(3) [OF R] rt_size_eq(2) [OF R l_Feeder] rt_put_eq(2) [OF R l_Feeder] rt_size_eq(2) [OF R l_Validator] rt_put_eq(2) [OF R l_Validator] rt_size_eq(2) [OF R l_Pair] rt_put_eq(2) [OF R l_Pair] rt_size_eq(2) [OF R l_Price] rt_put_eq(2) [OF R l_Price] api_MsgSubmitFeed_wf_def)
    then show ?thesis by (simp add: rt_buffer_exact len)
  qed
  moreover have "api_MsgSubmitFeed_unmarshal R discardUnknown bz (Some zero_api_MsgSubmitFeed) = Ok (Some m)"
    using wf lt
    by (simp add: api_MsgSubmitFeed_unmarshal_def bz_def api_MsgSubmitFeed_wf_def api_MsgSubmitFeed_steps  fits_int_def zero_api_MsgSubmitFeed_def )
  ultimately show ?thesis using len by blast
qed

interpretation MsgSubmitFeed_api_codec: message_codec "api_MsgSubmitFeed_size R" "api_MsgSubmitFeed_marshal R []" "\<lambda>bz. api_MsgSubmitFeed_unmarshal R discardUnknown bz (Some zero_api_MsgSubmitFeed)"
    "\<lambda>m. runtime_laws R \<and> (case m of None \<Rightarrow> False | Some x \<Rightarrow> api_MsgSubmitFeed_wf R x)" for R discardUnknown
  by unfold_locales (use api_MsgSubmitFeed_roundtrip in \<open>fastforce split: option.splits\<close>)

subsection \<open>MsgUpdateParams\<close>

record api_MsgUpdateParams =
  api_mup_Authority :: string
  api_mup_Params :: "api_OracleParams option"
  api_mup_unknownFields :: bytes

definition zero_api_MsgUpdateParams :: api_MsgUpdateParams where
  "zero_api_MsgUpdateParams = \<lparr>api_mup_Authority = [], api_mup_Params = None, api_mup_unknownFields = []\<rparr>"

definition MsgUpdateParams_fd :: "string \<Rightarrow> string" where
  "MsgUpdateParams_fd n = ''vertix.oracle.v1.MsgUpdateParams.'' @ n"

lemma MsgUpdateParams_fd_inject [simp]: "MsgUpdateParams_fd a = MsgUpdateParams_fd b \<longleftrightarrow> a = b"
  by (simp add: MsgUpdateParams_fd_def)

definition api_MsgUpdateParams_fields :: "string list" where
  "api_MsgUpdateParams_fields = map MsgUpdateParams_fd [''authority'', ''params'']"

definition api_MsgUpdateParams_Range ::
    "(string \<Rightarrow> api_OracleParams reflect_value \<Rightarrow> 's \<Rightarrow> (bool \<times> 's) outcome) \<Rightarrow> api_MsgUpdateParams \<Rightarrow> 's \<Rightarrow> 's outcome" where
  "api_MsgUpdateParams_Range f x =
     range_field (api_mup_Authority x \<noteq> []) (MsgUpdateParams_fd ''authority'') (StringValue (api_mup_Authority x)) f
      (range_field (api_mup_Params x \<noteq> None) (MsgUpdateParams_fd ''params'') (MessageValue (api_mup_Params x)) f
      Ok)"

definition api_MsgUpdateParams_Has :: "string \<Rightarrow> api_MsgUpdateParams \<Rightarrow> bool outcome" where
  "api_MsgUpdateParams_Has fd x =
     (if fd = MsgUpdateParams_fd ''authority'' then Ok (api_mup_Authority x \<noteq> [])
      else if fd = MsgUpdateParams_fd ''params'' then Ok (api_mup_Params x \<noteq> None)
      else Panic)"

definition api_MsgUpdateParams_Clear :: "string \<Rightarrow> api_MsgUpdateParams \<Rightarrow> api_MsgUpdateParams outcome" where
  "api_MsgUpdateParams_Clear fd x =
     (if fd = MsgUpdateParams_fd ''authority'' then Ok (x\<lparr>api_mup_Authority := []\<rparr>)
      else if fd = MsgUpdateParams_fd ''params'' then Ok (x\<lparr>api_mup_Params := None\<rparr>)
      else Panic)"

definition api_MsgUpdateParams_Get :: "string \<Rightarrow> api_MsgUpdateParams \<Rightarrow> api_OracleParams reflect_value outcome" where
  "api_MsgUpdateParams_Get fd x =
     (if fd = MsgUpdateParams_fd ''authority'' then Ok (StringValue (api_mup_Authority x))
      else if fd = MsgUpdateParams_fd ''params'' then Ok (MessageValue (api_mup_Params x))
      else Panic)"

definition api_MsgUpdateParams_Set :: "string \<Rightarrow> api_OracleParams reflect_value \<Rightarrow> api_MsgUpdateParams \<Rightarrow> api_MsgUpdateParams outcome" where
  "api_MsgUpdateParams_Set fd v x =
     (if fd = MsgUpdateParams_fd ''authority'' then obind (as_string v) (\<lambda>w. Ok (x\<lparr>api_mup_Authority := w\<rparr>))
      else if fd = MsgUpdateParams_fd ''params'' then obind (as_message v) (\<lambda>w. Ok (x\<lparr>api_mup_Params := w\<rparr>))
      else Panic)"

definition api_MsgUpdateParams_size :: "pulsar_runtime \<Rightarrow> api_MsgUpdateParams option \<Rightarrow> nat" where
  "api_MsgUpdateParams_size R m = (case m of None \<Rightarrow> 0 | Some x \<Rightarrow>
     rt_size_string R (api_mup_Authority x) +
     rt_size_message R (api_OracleParams_size R) (api_mup_Params x) + length (api_mup_unknownFields x))"

definition api_MsgUpdateParams_marshal :: "pulsar_runtime \<Rightarrow> bytes \<Rightarrow> api_MsgUpdateParams option \<Rightarrow> bytes outcome" where
  "api_MsgUpdateParams_marshal R buf m = (case m of None \<Rightarrow> Ok buf | Some x \<Rightarrow>
     obind (rt_marshal_message (api_OracleParams_marshal R []) (api_mup_Params x)) (\<lambda>e_Params.
     rt_buffer buf (api_MsgUpdateParams_size R m)
       (rt_put_string R 10 (api_mup_Authority x)
       (rt_put_message R 18 e_Params
       (api_mup_unknownFields x)))))"

definition api_MsgUpdateParams_field :: "pulsar_runtime \<Rightarrow> bool \<Rightarrow> api_MsgUpdateParams handler" where
  "api_MsgUpdateParams_field R discardUnknown fieldNum wireType pre cur x =
     (if fieldNum = 1 then field_string wireType cur (\<lambda>v x. x\<lparr>api_mup_Authority := v\<rparr>) x
      else if fieldNum = 2 then field_merge wireType cur (api_OracleParams_unmarshal R discardUnknown) zero_api_OracleParams api_mup_Params (\<lambda>v x. x\<lparr>api_mup_Params := v\<rparr>) x
      else field_unknown R discardUnknown pre (\<lambda>bz x. x\<lparr>api_mup_unknownFields := api_mup_unknownFields x @ bz\<rparr>) x)"

definition api_MsgUpdateParams_unmarshal :: "pulsar_runtime \<Rightarrow> bool \<Rightarrow> bytes \<Rightarrow> api_MsgUpdateParams option \<Rightarrow> api_MsgUpdateParams option outcome" where
  "api_MsgUpdateParams_unmarshal R discardUnknown dAtA m = (case m of None \<Rightarrow> Ok None | Some x \<Rightarrow>
     obind (unmarshal_loop (api_MsgUpdateParams_field R discardUnknown) x 0 dAtA) (\<lambda>x. Ok (Some x)))"

lemma api_MsgUpdateParams_at:
  "api_MsgUpdateParams_Has (MsgUpdateParams_fd ''authority'') x = Ok (api_mup_Authority x \<noteq> [])"
  "api_MsgUpdateParams_Clear (MsgUpdateParams_fd ''authority'') x = Ok (x\<lparr>api_mup_Authority := []\<rparr>)"
  "api_MsgUpdateParams_Get (MsgUpdateParams_fd ''authority'') x = Ok (StringValue (api_mup_Authority x))"
  "api_MsgUpdateParams_Set (MsgUpdateParams_fd ''authority'') v x = obind (as_string v) (\<lambda>w. Ok (x\<lparr>api_mup_Authority := w\<rparr>))"
  "api_MsgUpdateParams_Has (MsgUpdateParams_fd ''params'') x = Ok (api_mup_Params x \<noteq> None)"
  "api_MsgUpdateParams_Clear (MsgUpdateParams_fd ''params'') x = Ok (x\<lparr>api_mup_Params := None\<rparr>)"
  "api_MsgUpdateParams_Get (MsgUpdateParams_fd ''params'') x = Ok (MessageValue (api_mup_Params x))"
  "api_MsgUpdateParams_Set (MsgUpdateParams_fd ''params'') v x = obind (as_message v) (\<lambda>w. Ok (x\<lparr>api_mup_Params := w\<rparr>))"
  by (simp_all add: api_MsgUpdateParams_Has_def api_MsgUpdateParams_Clear_def api_MsgUpdateParams_Get_def api_MsgUpdateParams_Set_def)

interpretation MsgUpdateParams_reflect: reflected_message api_MsgUpdateParams_fields api_MsgUpdateParams_Range api_MsgUpdateParams_Has api_MsgUpdateParams_Clear api_MsgUpdateParams_Get api_MsgUpdateParams_Set api_mup_unknownFields zero_api_MsgUpdateParams
proof
  show "distinct api_MsgUpdateParams_fields" by (simp add: api_MsgUpdateParams_fields_def)
next
  show "\<exists>v. api_MsgUpdateParams_Get fd x = Ok v" if "fd \<in> set api_MsgUpdateParams_fields" for fd x
    using that unfolding api_MsgUpdateParams_fields_def field_cases
    by (elim disjE; clarsimp simp: api_MsgUpdateParams_at zero_api_MsgUpdateParams_def list_value_simps)
next
  show "\<exists>y'. api_MsgUpdateParams_Set fd v y = Ok y' \<and> api_MsgUpdateParams_Get fd y' = Ok v \<and> api_mup_unknownFields y' = api_mup_unknownFields y \<and>
      (\<forall>g\<in>set api_MsgUpdateParams_fields. g \<noteq> fd \<longrightarrow> api_MsgUpdateParams_Get g y' = api_MsgUpdateParams_Get g y)"
    if "fd \<in> set api_MsgUpdateParams_fields" "api_MsgUpdateParams_Has fd x = Ok True" "api_MsgUpdateParams_Get fd x = Ok v" for fd x v y
    using that unfolding api_MsgUpdateParams_fields_def field_cases
    by (elim disjE; clarsimp simp: api_MsgUpdateParams_at zero_api_MsgUpdateParams_def list_value_simps)
next
  show "api_MsgUpdateParams_Has fd x = Ok (api_MsgUpdateParams_Get fd x \<noteq> api_MsgUpdateParams_Get fd zero_api_MsgUpdateParams)" if "fd \<in> set api_MsgUpdateParams_fields" for fd x
    using that unfolding api_MsgUpdateParams_fields_def field_cases
    by (elim disjE; clarsimp simp: api_MsgUpdateParams_at zero_api_MsgUpdateParams_def list_value_simps)
next
  show "\<exists>x'. api_MsgUpdateParams_Clear fd x = Ok x' \<and> api_MsgUpdateParams_Get fd x' = api_MsgUpdateParams_Get fd zero_api_MsgUpdateParams \<and> api_mup_unknownFields x' = api_mup_unknownFields x \<and>
      (\<forall>g\<in>set api_MsgUpdateParams_fields. g \<noteq> fd \<longrightarrow> api_MsgUpdateParams_Get g x' = api_MsgUpdateParams_Get g x)" if "fd \<in> set api_MsgUpdateParams_fields" for fd x
    using that unfolding api_MsgUpdateParams_fields_def field_cases
    by (elim disjE; clarsimp simp: api_MsgUpdateParams_at zero_api_MsgUpdateParams_def list_value_simps)
next
  show "api_MsgUpdateParams_Range f x = range_list f (populated api_MsgUpdateParams_fields (\<lambda>fd. api_MsgUpdateParams_Has fd x) (\<lambda>fd. api_MsgUpdateParams_Get fd x))" for f x
    by (simp add: api_MsgUpdateParams_at zero_api_MsgUpdateParams_def api_MsgUpdateParams_fields_def api_MsgUpdateParams_Range_def list_value_def range_field_last range_field_Cons cong: if_cong split del: if_split)
next
  show "api_MsgUpdateParams_Has fd x = Panic \<and> api_MsgUpdateParams_Get fd x = Panic \<and> api_MsgUpdateParams_Set fd v x = Panic \<and> api_MsgUpdateParams_Clear fd x = Panic"
    if "fd \<notin> set api_MsgUpdateParams_fields" for fd x v
    using that by (simp add: api_MsgUpdateParams_fields_def api_MsgUpdateParams_Has_def api_MsgUpdateParams_Get_def api_MsgUpdateParams_Set_def api_MsgUpdateParams_Clear_def)
next
  fix x y :: api_MsgUpdateParams
  assume eq: "\<And>fd. fd \<in> set api_MsgUpdateParams_fields \<Longrightarrow> api_MsgUpdateParams_Get fd x = api_MsgUpdateParams_Get fd y" and u: "api_mup_unknownFields x = api_mup_unknownFields y"
  have "api_mup_Authority x = api_mup_Authority y"
    using eq [of "MsgUpdateParams_fd ''authority''"] by (simp add: api_MsgUpdateParams_fields_def api_MsgUpdateParams_at list_value_simps)
  moreover note u
  moreover
  have "api_mup_Params x = api_mup_Params y"
    using eq [of "MsgUpdateParams_fd ''params''"] by (simp add: api_MsgUpdateParams_fields_def api_MsgUpdateParams_at list_value_simps)
  ultimately show "x = y" by (simp add: api_MsgUpdateParams.equality)
qed

text \<open>The values a client's MsgUpdateParams holds: Go integers, and no field it does not know.\<close>

definition api_MsgUpdateParams_wf :: "pulsar_runtime \<Rightarrow> api_MsgUpdateParams \<Rightarrow> bool" where
  "api_MsgUpdateParams_wf R m \<longleftrightarrow> api_mup_unknownFields m = [] \<and> (case api_mup_Params m of None \<Rightarrow> True | Some t \<Rightarrow> api_OracleParams_wf R t) \<and> api_MsgUpdateParams_size R (Some m) < 2 ^ 63"

lemma api_MsgUpdateParams_handler:
  "api_MsgUpdateParams_field R discardUnknown 1 2 pre cur x = field_string 2 cur (\<lambda>v x. x\<lparr>api_mup_Authority := v\<rparr>) x"
  "api_MsgUpdateParams_field R discardUnknown 2 2 pre cur x = field_merge 2 cur (api_OracleParams_unmarshal R discardUnknown) zero_api_OracleParams api_mup_Params (\<lambda>v x. x\<lparr>api_mup_Params := v\<rparr>) x"
  by (simp_all add: api_MsgUpdateParams_field_def)

lemmas api_MsgUpdateParams_steps =
  loop_string [where h = "api_MsgUpdateParams_field R discardUnknown", OF api_MsgUpdateParams_handler(1)]
  for R discardUnknown

lemma api_MsgUpdateParams_roundtrip:
  assumes R: "runtime_laws R" and wf: "api_MsgUpdateParams_wf R m"
  shows "\<exists>bz. (\<forall>buf. api_MsgUpdateParams_marshal R buf (Some m) = Ok (buf @ bz)) \<and> length bz = api_MsgUpdateParams_size R (Some m) \<and>
           api_MsgUpdateParams_unmarshal R discardUnknown bz (Some zero_api_MsgUpdateParams) = Ok (Some m)"
proof -
  have sz: "rt_size_string R (api_mup_Authority m) + rt_size_message R (api_OracleParams_size R) (api_mup_Params m) < 2 ^ 63"
    using wf by (simp add: api_MsgUpdateParams_wf_def api_MsgUpdateParams_size_def)
  have l_Authority: "length (api_mup_Authority m) < 2 ^ 63" using sz rt_size_ge(1) [of "api_mup_Authority m" R] by linarith
  have "case api_mup_Params m of None \<Rightarrow> True | Some t \<Rightarrow> api_OracleParams_wf R t" using wf by (simp add: api_MsgUpdateParams_wf_def)
  then obtain e_Params where e_Params: "message_encoded (api_OracleParams_size R) (api_OracleParams_marshal R []) (api_OracleParams_unmarshal R discardUnknown) zero_api_OracleParams (api_mup_Params m) e_Params"
    by (rule api_OracleParams_encoded [OF R])
  have s_Params: "rt_size_message R (api_OracleParams_size R) (api_mup_Params m) < 2 ^ 63" using sz by linarith
  note s_Params = message_encoded_size [OF R e_Params s_Params]
  define bz where "bz = put_string 10 (api_mup_Authority m)
       (put_message 18 e_Params
       [])"
  have len: "length bz = api_MsgUpdateParams_size R (Some m)"
    using wf by (simp add: bz_def api_MsgUpdateParams_size_def rt_size_eq(3) [OF R] rt_size_eq(2) [OF R l_Authority] rt_put_eq(2) [OF R l_Authority] s_Params message_encoded_marshal [OF e_Params] api_MsgUpdateParams_wf_def)
  have lt: "length bz < 2 ^ 63" using wf by (simp add: len api_MsgUpdateParams_wf_def)
  have "api_MsgUpdateParams_marshal R buf (Some m) = Ok (buf @ bz)" for buf
  proof -
    have "api_MsgUpdateParams_marshal R buf (Some m) = rt_buffer buf (api_MsgUpdateParams_size R (Some m)) bz"
      using wf by (simp add: api_MsgUpdateParams_marshal_def bz_def rt_put_eq(3) [OF R] rt_size_eq(2) [OF R l_Authority] rt_put_eq(2) [OF R l_Authority] s_Params message_encoded_marshal [OF e_Params] api_MsgUpdateParams_wf_def)
    then show ?thesis by (simp add: rt_buffer_exact len)
  qed
  moreover have "api_MsgUpdateParams_unmarshal R discardUnknown bz (Some zero_api_MsgUpdateParams) = Ok (Some m)"
    using wf lt
    by (simp add: api_MsgUpdateParams_unmarshal_def bz_def api_MsgUpdateParams_wf_def api_MsgUpdateParams_steps loop_merge [where h = "api_MsgUpdateParams_field R discardUnknown", OF api_MsgUpdateParams_handler(2) _ _ _ _ e_Params] fits_int_def zero_api_MsgUpdateParams_def )
  ultimately show ?thesis using len by blast
qed

interpretation MsgUpdateParams_api_codec: message_codec "api_MsgUpdateParams_size R" "api_MsgUpdateParams_marshal R []" "\<lambda>bz. api_MsgUpdateParams_unmarshal R discardUnknown bz (Some zero_api_MsgUpdateParams)"
    "\<lambda>m. runtime_laws R \<and> (case m of None \<Rightarrow> False | Some x \<Rightarrow> api_MsgUpdateParams_wf R x)" for R discardUnknown
  by unfold_locales (use api_MsgUpdateParams_roundtrip in \<open>fastforce split: option.splits\<close>)

end
