(* ===== verification/Pulsar_Rwa.thy ===== *)
theory Pulsar_Rwa
  imports Pulsar
begin

text \<open>
  The rwa messages of the client package (\<open>api/vertix/rwa/v1/types.pulsar.go\<close> and
  \<open>tx.pulsar.go\<close>): the stored types and the transaction messages, each with its reflection
  methods and the \<open>size\<close>, \<open>marshal\<close> and \<open>unmarshal\<close> of its \<open>ProtoMethods\<close>. Every message
  satisfies the contracts \<open>reflected_message\<close> and \<open>message_codec\<close>.
\<close>

section \<open>Messages\<close>

subsection \<open>AssetRecord\<close>

record api_AssetRecord =
  api_ar_AssetId :: string
  api_ar_Issuer :: string
  api_ar_Name :: string
  api_ar_Description :: string
  api_ar_Status :: int
  api_ar_OraclePair :: string
  api_ar_Denom :: string
  api_ar_Bond :: string
  api_ar_NotionalMinted :: string
  api_ar_AllowAll :: bool
  api_ar_AttestedPrice :: string
  api_ar_AttestedAt :: "timestamp option"
  api_ar_CreatedAt :: "timestamp option"
  api_ar_SettledAt :: "timestamp option"
  api_ar_unknownFields :: bytes

definition zero_api_AssetRecord :: api_AssetRecord where
  "zero_api_AssetRecord = \<lparr>api_ar_AssetId = [], api_ar_Issuer = [], api_ar_Name = [], api_ar_Description = [], api_ar_Status = 0, api_ar_OraclePair = [], api_ar_Denom = [], api_ar_Bond = [], api_ar_NotionalMinted = [], api_ar_AllowAll = False, api_ar_AttestedPrice = [], api_ar_AttestedAt = None, api_ar_CreatedAt = None, api_ar_SettledAt = None, api_ar_unknownFields = []\<rparr>"

definition AssetRecord_fd :: "string \<Rightarrow> string" where
  "AssetRecord_fd n = ''vertix.rwa.v1.AssetRecord.'' @ n"

lemma AssetRecord_fd_inject [simp]: "AssetRecord_fd a = AssetRecord_fd b \<longleftrightarrow> a = b"
  by (simp add: AssetRecord_fd_def)

definition api_AssetRecord_fields :: "string list" where
  "api_AssetRecord_fields = map AssetRecord_fd [''asset_id'', ''issuer'', ''name'', ''description'', ''status'', ''oracle_pair'', ''denom'', ''bond'', ''notional_minted'', ''allow_all'', ''attested_price'', ''attested_at'', ''created_at'', ''settled_at'']"

definition api_AssetRecord_Range ::
    "(string \<Rightarrow> timestamp reflect_value \<Rightarrow> 's \<Rightarrow> (bool \<times> 's) outcome) \<Rightarrow> api_AssetRecord \<Rightarrow> 's \<Rightarrow> 's outcome" where
  "api_AssetRecord_Range f x =
     range_field (api_ar_AssetId x \<noteq> []) (AssetRecord_fd ''asset_id'') (StringValue (api_ar_AssetId x)) f
      (range_field (api_ar_Issuer x \<noteq> []) (AssetRecord_fd ''issuer'') (StringValue (api_ar_Issuer x)) f
      (range_field (api_ar_Name x \<noteq> []) (AssetRecord_fd ''name'') (StringValue (api_ar_Name x)) f
      (range_field (api_ar_Description x \<noteq> []) (AssetRecord_fd ''description'') (StringValue (api_ar_Description x)) f
      (range_field (api_ar_Status x \<noteq> 0) (AssetRecord_fd ''status'') (EnumValue (api_ar_Status x)) f
      (range_field (api_ar_OraclePair x \<noteq> []) (AssetRecord_fd ''oracle_pair'') (StringValue (api_ar_OraclePair x)) f
      (range_field (api_ar_Denom x \<noteq> []) (AssetRecord_fd ''denom'') (StringValue (api_ar_Denom x)) f
      (range_field (api_ar_Bond x \<noteq> []) (AssetRecord_fd ''bond'') (StringValue (api_ar_Bond x)) f
      (range_field (api_ar_NotionalMinted x \<noteq> []) (AssetRecord_fd ''notional_minted'') (StringValue (api_ar_NotionalMinted x)) f
      (range_field (api_ar_AllowAll x \<noteq> False) (AssetRecord_fd ''allow_all'') (BoolValue (api_ar_AllowAll x)) f
      (range_field (api_ar_AttestedPrice x \<noteq> []) (AssetRecord_fd ''attested_price'') (StringValue (api_ar_AttestedPrice x)) f
      (range_field (api_ar_AttestedAt x \<noteq> None) (AssetRecord_fd ''attested_at'') (MessageValue (api_ar_AttestedAt x)) f
      (range_field (api_ar_CreatedAt x \<noteq> None) (AssetRecord_fd ''created_at'') (MessageValue (api_ar_CreatedAt x)) f
      (range_field (api_ar_SettledAt x \<noteq> None) (AssetRecord_fd ''settled_at'') (MessageValue (api_ar_SettledAt x)) f
      Ok)))))))))))))"

definition api_AssetRecord_Has :: "string \<Rightarrow> api_AssetRecord \<Rightarrow> bool outcome" where
  "api_AssetRecord_Has fd x =
     (if fd = AssetRecord_fd ''asset_id'' then Ok (api_ar_AssetId x \<noteq> [])
      else if fd = AssetRecord_fd ''issuer'' then Ok (api_ar_Issuer x \<noteq> [])
      else if fd = AssetRecord_fd ''name'' then Ok (api_ar_Name x \<noteq> [])
      else if fd = AssetRecord_fd ''description'' then Ok (api_ar_Description x \<noteq> [])
      else if fd = AssetRecord_fd ''status'' then Ok (api_ar_Status x \<noteq> 0)
      else if fd = AssetRecord_fd ''oracle_pair'' then Ok (api_ar_OraclePair x \<noteq> [])
      else if fd = AssetRecord_fd ''denom'' then Ok (api_ar_Denom x \<noteq> [])
      else if fd = AssetRecord_fd ''bond'' then Ok (api_ar_Bond x \<noteq> [])
      else if fd = AssetRecord_fd ''notional_minted'' then Ok (api_ar_NotionalMinted x \<noteq> [])
      else if fd = AssetRecord_fd ''allow_all'' then Ok (api_ar_AllowAll x \<noteq> False)
      else if fd = AssetRecord_fd ''attested_price'' then Ok (api_ar_AttestedPrice x \<noteq> [])
      else if fd = AssetRecord_fd ''attested_at'' then Ok (api_ar_AttestedAt x \<noteq> None)
      else if fd = AssetRecord_fd ''created_at'' then Ok (api_ar_CreatedAt x \<noteq> None)
      else if fd = AssetRecord_fd ''settled_at'' then Ok (api_ar_SettledAt x \<noteq> None)
      else Panic)"

definition api_AssetRecord_Clear :: "string \<Rightarrow> api_AssetRecord \<Rightarrow> api_AssetRecord outcome" where
  "api_AssetRecord_Clear fd x =
     (if fd = AssetRecord_fd ''asset_id'' then Ok (x\<lparr>api_ar_AssetId := []\<rparr>)
      else if fd = AssetRecord_fd ''issuer'' then Ok (x\<lparr>api_ar_Issuer := []\<rparr>)
      else if fd = AssetRecord_fd ''name'' then Ok (x\<lparr>api_ar_Name := []\<rparr>)
      else if fd = AssetRecord_fd ''description'' then Ok (x\<lparr>api_ar_Description := []\<rparr>)
      else if fd = AssetRecord_fd ''status'' then Ok (x\<lparr>api_ar_Status := 0\<rparr>)
      else if fd = AssetRecord_fd ''oracle_pair'' then Ok (x\<lparr>api_ar_OraclePair := []\<rparr>)
      else if fd = AssetRecord_fd ''denom'' then Ok (x\<lparr>api_ar_Denom := []\<rparr>)
      else if fd = AssetRecord_fd ''bond'' then Ok (x\<lparr>api_ar_Bond := []\<rparr>)
      else if fd = AssetRecord_fd ''notional_minted'' then Ok (x\<lparr>api_ar_NotionalMinted := []\<rparr>)
      else if fd = AssetRecord_fd ''allow_all'' then Ok (x\<lparr>api_ar_AllowAll := False\<rparr>)
      else if fd = AssetRecord_fd ''attested_price'' then Ok (x\<lparr>api_ar_AttestedPrice := []\<rparr>)
      else if fd = AssetRecord_fd ''attested_at'' then Ok (x\<lparr>api_ar_AttestedAt := None\<rparr>)
      else if fd = AssetRecord_fd ''created_at'' then Ok (x\<lparr>api_ar_CreatedAt := None\<rparr>)
      else if fd = AssetRecord_fd ''settled_at'' then Ok (x\<lparr>api_ar_SettledAt := None\<rparr>)
      else Panic)"

definition api_AssetRecord_Get :: "string \<Rightarrow> api_AssetRecord \<Rightarrow> timestamp reflect_value outcome" where
  "api_AssetRecord_Get fd x =
     (if fd = AssetRecord_fd ''asset_id'' then Ok (StringValue (api_ar_AssetId x))
      else if fd = AssetRecord_fd ''issuer'' then Ok (StringValue (api_ar_Issuer x))
      else if fd = AssetRecord_fd ''name'' then Ok (StringValue (api_ar_Name x))
      else if fd = AssetRecord_fd ''description'' then Ok (StringValue (api_ar_Description x))
      else if fd = AssetRecord_fd ''status'' then Ok (EnumValue (api_ar_Status x))
      else if fd = AssetRecord_fd ''oracle_pair'' then Ok (StringValue (api_ar_OraclePair x))
      else if fd = AssetRecord_fd ''denom'' then Ok (StringValue (api_ar_Denom x))
      else if fd = AssetRecord_fd ''bond'' then Ok (StringValue (api_ar_Bond x))
      else if fd = AssetRecord_fd ''notional_minted'' then Ok (StringValue (api_ar_NotionalMinted x))
      else if fd = AssetRecord_fd ''allow_all'' then Ok (BoolValue (api_ar_AllowAll x))
      else if fd = AssetRecord_fd ''attested_price'' then Ok (StringValue (api_ar_AttestedPrice x))
      else if fd = AssetRecord_fd ''attested_at'' then Ok (MessageValue (api_ar_AttestedAt x))
      else if fd = AssetRecord_fd ''created_at'' then Ok (MessageValue (api_ar_CreatedAt x))
      else if fd = AssetRecord_fd ''settled_at'' then Ok (MessageValue (api_ar_SettledAt x))
      else Panic)"

definition api_AssetRecord_Set :: "string \<Rightarrow> timestamp reflect_value \<Rightarrow> api_AssetRecord \<Rightarrow> api_AssetRecord outcome" where
  "api_AssetRecord_Set fd v x =
     (if fd = AssetRecord_fd ''asset_id'' then obind (as_string v) (\<lambda>w. Ok (x\<lparr>api_ar_AssetId := w\<rparr>))
      else if fd = AssetRecord_fd ''issuer'' then obind (as_string v) (\<lambda>w. Ok (x\<lparr>api_ar_Issuer := w\<rparr>))
      else if fd = AssetRecord_fd ''name'' then obind (as_string v) (\<lambda>w. Ok (x\<lparr>api_ar_Name := w\<rparr>))
      else if fd = AssetRecord_fd ''description'' then obind (as_string v) (\<lambda>w. Ok (x\<lparr>api_ar_Description := w\<rparr>))
      else if fd = AssetRecord_fd ''status'' then obind (as_enum v) (\<lambda>w. Ok (x\<lparr>api_ar_Status := w\<rparr>))
      else if fd = AssetRecord_fd ''oracle_pair'' then obind (as_string v) (\<lambda>w. Ok (x\<lparr>api_ar_OraclePair := w\<rparr>))
      else if fd = AssetRecord_fd ''denom'' then obind (as_string v) (\<lambda>w. Ok (x\<lparr>api_ar_Denom := w\<rparr>))
      else if fd = AssetRecord_fd ''bond'' then obind (as_string v) (\<lambda>w. Ok (x\<lparr>api_ar_Bond := w\<rparr>))
      else if fd = AssetRecord_fd ''notional_minted'' then obind (as_string v) (\<lambda>w. Ok (x\<lparr>api_ar_NotionalMinted := w\<rparr>))
      else if fd = AssetRecord_fd ''allow_all'' then obind (as_bool v) (\<lambda>w. Ok (x\<lparr>api_ar_AllowAll := w\<rparr>))
      else if fd = AssetRecord_fd ''attested_price'' then obind (as_string v) (\<lambda>w. Ok (x\<lparr>api_ar_AttestedPrice := w\<rparr>))
      else if fd = AssetRecord_fd ''attested_at'' then obind (as_message v) (\<lambda>w. Ok (x\<lparr>api_ar_AttestedAt := w\<rparr>))
      else if fd = AssetRecord_fd ''created_at'' then obind (as_message v) (\<lambda>w. Ok (x\<lparr>api_ar_CreatedAt := w\<rparr>))
      else if fd = AssetRecord_fd ''settled_at'' then obind (as_message v) (\<lambda>w. Ok (x\<lparr>api_ar_SettledAt := w\<rparr>))
      else Panic)"

definition api_AssetRecord_size :: "pulsar_runtime \<Rightarrow> api_AssetRecord option \<Rightarrow> nat" where
  "api_AssetRecord_size R m = (case m of None \<Rightarrow> 0 | Some x \<Rightarrow>
     rt_size_string R (api_ar_AssetId x) +
     rt_size_string R (api_ar_Issuer x) +
     rt_size_string R (api_ar_Name x) +
     rt_size_string R (api_ar_Description x) +
     rt_size_int64 R (api_ar_Status x) +
     rt_size_string R (api_ar_OraclePair x) +
     rt_size_string R (api_ar_Denom x) +
     rt_size_string R (api_ar_Bond x) +
     rt_size_string R (api_ar_NotionalMinted x) +
     size_bool (api_ar_AllowAll x) +
     rt_size_string R (api_ar_AttestedPrice x) +
     rt_size_message R (timestamp_size R) (api_ar_AttestedAt x) +
     rt_size_message R (timestamp_size R) (api_ar_CreatedAt x) +
     rt_size_message R (timestamp_size R) (api_ar_SettledAt x) + length (api_ar_unknownFields x))"

definition api_AssetRecord_marshal :: "pulsar_runtime \<Rightarrow> bytes \<Rightarrow> api_AssetRecord option \<Rightarrow> bytes outcome" where
  "api_AssetRecord_marshal R buf m = (case m of None \<Rightarrow> Ok buf | Some x \<Rightarrow>
     obind (rt_marshal_message (timestamp_marshal R) (api_ar_SettledAt x)) (\<lambda>e_SettledAt.
     obind (rt_marshal_message (timestamp_marshal R) (api_ar_CreatedAt x)) (\<lambda>e_CreatedAt.
     obind (rt_marshal_message (timestamp_marshal R) (api_ar_AttestedAt x)) (\<lambda>e_AttestedAt.
     rt_buffer buf (api_AssetRecord_size R m)
       (rt_put_string R 10 (api_ar_AssetId x)
       (rt_put_string R 18 (api_ar_Issuer x)
       (rt_put_string R 26 (api_ar_Name x)
       (rt_put_string R 34 (api_ar_Description x)
       (rt_put_int64 R 40 (api_ar_Status x)
       (rt_put_string R 50 (api_ar_OraclePair x)
       (rt_put_string R 58 (api_ar_Denom x)
       (rt_put_string R 66 (api_ar_Bond x)
       (rt_put_string R 74 (api_ar_NotionalMinted x)
       (put_bool 80 (api_ar_AllowAll x)
       (rt_put_string R 90 (api_ar_AttestedPrice x)
       (rt_put_message R 98 e_AttestedAt
       (rt_put_message R 106 e_CreatedAt
       (rt_put_message R 114 e_SettledAt
       (api_ar_unknownFields x)))))))))))))))))))"

definition api_AssetRecord_field :: "pulsar_runtime \<Rightarrow> bool \<Rightarrow> api_AssetRecord handler" where
  "api_AssetRecord_field R discardUnknown fieldNum wireType pre cur x =
     (if fieldNum = 1 then field_string wireType cur (\<lambda>v x. x\<lparr>api_ar_AssetId := v\<rparr>) x
      else if fieldNum = 2 then field_string wireType cur (\<lambda>v x. x\<lparr>api_ar_Issuer := v\<rparr>) x
      else if fieldNum = 3 then field_string wireType cur (\<lambda>v x. x\<lparr>api_ar_Name := v\<rparr>) x
      else if fieldNum = 4 then field_string wireType cur (\<lambda>v x. x\<lparr>api_ar_Description := v\<rparr>) x
      else if fieldNum = 5 then field_enum wireType cur (\<lambda>v x. x\<lparr>api_ar_Status := v\<rparr>) x
      else if fieldNum = 6 then field_string wireType cur (\<lambda>v x. x\<lparr>api_ar_OraclePair := v\<rparr>) x
      else if fieldNum = 7 then field_string wireType cur (\<lambda>v x. x\<lparr>api_ar_Denom := v\<rparr>) x
      else if fieldNum = 8 then field_string wireType cur (\<lambda>v x. x\<lparr>api_ar_Bond := v\<rparr>) x
      else if fieldNum = 9 then field_string wireType cur (\<lambda>v x. x\<lparr>api_ar_NotionalMinted := v\<rparr>) x
      else if fieldNum = 10 then field_bool wireType cur (\<lambda>v x. x\<lparr>api_ar_AllowAll := v\<rparr>) x
      else if fieldNum = 11 then field_string wireType cur (\<lambda>v x. x\<lparr>api_ar_AttestedPrice := v\<rparr>) x
      else if fieldNum = 12 then field_merge wireType cur (timestamp_unmarshal R) zero_timestamp api_ar_AttestedAt (\<lambda>v x. x\<lparr>api_ar_AttestedAt := v\<rparr>) x
      else if fieldNum = 13 then field_merge wireType cur (timestamp_unmarshal R) zero_timestamp api_ar_CreatedAt (\<lambda>v x. x\<lparr>api_ar_CreatedAt := v\<rparr>) x
      else if fieldNum = 14 then field_merge wireType cur (timestamp_unmarshal R) zero_timestamp api_ar_SettledAt (\<lambda>v x. x\<lparr>api_ar_SettledAt := v\<rparr>) x
      else field_unknown R discardUnknown pre (\<lambda>bz x. x\<lparr>api_ar_unknownFields := api_ar_unknownFields x @ bz\<rparr>) x)"

definition api_AssetRecord_unmarshal :: "pulsar_runtime \<Rightarrow> bool \<Rightarrow> bytes \<Rightarrow> api_AssetRecord option \<Rightarrow> api_AssetRecord option outcome" where
  "api_AssetRecord_unmarshal R discardUnknown dAtA m = (case m of None \<Rightarrow> Ok None | Some x \<Rightarrow>
     obind (unmarshal_loop (api_AssetRecord_field R discardUnknown) x 0 dAtA) (\<lambda>x. Ok (Some x)))"

lemma api_AssetRecord_at:
  "api_AssetRecord_Has (AssetRecord_fd ''asset_id'') x = Ok (api_ar_AssetId x \<noteq> [])"
  "api_AssetRecord_Clear (AssetRecord_fd ''asset_id'') x = Ok (x\<lparr>api_ar_AssetId := []\<rparr>)"
  "api_AssetRecord_Get (AssetRecord_fd ''asset_id'') x = Ok (StringValue (api_ar_AssetId x))"
  "api_AssetRecord_Set (AssetRecord_fd ''asset_id'') v x = obind (as_string v) (\<lambda>w. Ok (x\<lparr>api_ar_AssetId := w\<rparr>))"
  "api_AssetRecord_Has (AssetRecord_fd ''issuer'') x = Ok (api_ar_Issuer x \<noteq> [])"
  "api_AssetRecord_Clear (AssetRecord_fd ''issuer'') x = Ok (x\<lparr>api_ar_Issuer := []\<rparr>)"
  "api_AssetRecord_Get (AssetRecord_fd ''issuer'') x = Ok (StringValue (api_ar_Issuer x))"
  "api_AssetRecord_Set (AssetRecord_fd ''issuer'') v x = obind (as_string v) (\<lambda>w. Ok (x\<lparr>api_ar_Issuer := w\<rparr>))"
  "api_AssetRecord_Has (AssetRecord_fd ''name'') x = Ok (api_ar_Name x \<noteq> [])"
  "api_AssetRecord_Clear (AssetRecord_fd ''name'') x = Ok (x\<lparr>api_ar_Name := []\<rparr>)"
  "api_AssetRecord_Get (AssetRecord_fd ''name'') x = Ok (StringValue (api_ar_Name x))"
  "api_AssetRecord_Set (AssetRecord_fd ''name'') v x = obind (as_string v) (\<lambda>w. Ok (x\<lparr>api_ar_Name := w\<rparr>))"
  "api_AssetRecord_Has (AssetRecord_fd ''description'') x = Ok (api_ar_Description x \<noteq> [])"
  "api_AssetRecord_Clear (AssetRecord_fd ''description'') x = Ok (x\<lparr>api_ar_Description := []\<rparr>)"
  "api_AssetRecord_Get (AssetRecord_fd ''description'') x = Ok (StringValue (api_ar_Description x))"
  "api_AssetRecord_Set (AssetRecord_fd ''description'') v x = obind (as_string v) (\<lambda>w. Ok (x\<lparr>api_ar_Description := w\<rparr>))"
  "api_AssetRecord_Has (AssetRecord_fd ''status'') x = Ok (api_ar_Status x \<noteq> 0)"
  "api_AssetRecord_Clear (AssetRecord_fd ''status'') x = Ok (x\<lparr>api_ar_Status := 0\<rparr>)"
  "api_AssetRecord_Get (AssetRecord_fd ''status'') x = Ok (EnumValue (api_ar_Status x))"
  "api_AssetRecord_Set (AssetRecord_fd ''status'') v x = obind (as_enum v) (\<lambda>w. Ok (x\<lparr>api_ar_Status := w\<rparr>))"
  "api_AssetRecord_Has (AssetRecord_fd ''oracle_pair'') x = Ok (api_ar_OraclePair x \<noteq> [])"
  "api_AssetRecord_Clear (AssetRecord_fd ''oracle_pair'') x = Ok (x\<lparr>api_ar_OraclePair := []\<rparr>)"
  "api_AssetRecord_Get (AssetRecord_fd ''oracle_pair'') x = Ok (StringValue (api_ar_OraclePair x))"
  "api_AssetRecord_Set (AssetRecord_fd ''oracle_pair'') v x = obind (as_string v) (\<lambda>w. Ok (x\<lparr>api_ar_OraclePair := w\<rparr>))"
  "api_AssetRecord_Has (AssetRecord_fd ''denom'') x = Ok (api_ar_Denom x \<noteq> [])"
  "api_AssetRecord_Clear (AssetRecord_fd ''denom'') x = Ok (x\<lparr>api_ar_Denom := []\<rparr>)"
  "api_AssetRecord_Get (AssetRecord_fd ''denom'') x = Ok (StringValue (api_ar_Denom x))"
  "api_AssetRecord_Set (AssetRecord_fd ''denom'') v x = obind (as_string v) (\<lambda>w. Ok (x\<lparr>api_ar_Denom := w\<rparr>))"
  "api_AssetRecord_Has (AssetRecord_fd ''bond'') x = Ok (api_ar_Bond x \<noteq> [])"
  "api_AssetRecord_Clear (AssetRecord_fd ''bond'') x = Ok (x\<lparr>api_ar_Bond := []\<rparr>)"
  "api_AssetRecord_Get (AssetRecord_fd ''bond'') x = Ok (StringValue (api_ar_Bond x))"
  "api_AssetRecord_Set (AssetRecord_fd ''bond'') v x = obind (as_string v) (\<lambda>w. Ok (x\<lparr>api_ar_Bond := w\<rparr>))"
  "api_AssetRecord_Has (AssetRecord_fd ''notional_minted'') x = Ok (api_ar_NotionalMinted x \<noteq> [])"
  "api_AssetRecord_Clear (AssetRecord_fd ''notional_minted'') x = Ok (x\<lparr>api_ar_NotionalMinted := []\<rparr>)"
  "api_AssetRecord_Get (AssetRecord_fd ''notional_minted'') x = Ok (StringValue (api_ar_NotionalMinted x))"
  "api_AssetRecord_Set (AssetRecord_fd ''notional_minted'') v x = obind (as_string v) (\<lambda>w. Ok (x\<lparr>api_ar_NotionalMinted := w\<rparr>))"
  "api_AssetRecord_Has (AssetRecord_fd ''allow_all'') x = Ok (api_ar_AllowAll x \<noteq> False)"
  "api_AssetRecord_Clear (AssetRecord_fd ''allow_all'') x = Ok (x\<lparr>api_ar_AllowAll := False\<rparr>)"
  "api_AssetRecord_Get (AssetRecord_fd ''allow_all'') x = Ok (BoolValue (api_ar_AllowAll x))"
  "api_AssetRecord_Set (AssetRecord_fd ''allow_all'') v x = obind (as_bool v) (\<lambda>w. Ok (x\<lparr>api_ar_AllowAll := w\<rparr>))"
  "api_AssetRecord_Has (AssetRecord_fd ''attested_price'') x = Ok (api_ar_AttestedPrice x \<noteq> [])"
  "api_AssetRecord_Clear (AssetRecord_fd ''attested_price'') x = Ok (x\<lparr>api_ar_AttestedPrice := []\<rparr>)"
  "api_AssetRecord_Get (AssetRecord_fd ''attested_price'') x = Ok (StringValue (api_ar_AttestedPrice x))"
  "api_AssetRecord_Set (AssetRecord_fd ''attested_price'') v x = obind (as_string v) (\<lambda>w. Ok (x\<lparr>api_ar_AttestedPrice := w\<rparr>))"
  "api_AssetRecord_Has (AssetRecord_fd ''attested_at'') x = Ok (api_ar_AttestedAt x \<noteq> None)"
  "api_AssetRecord_Clear (AssetRecord_fd ''attested_at'') x = Ok (x\<lparr>api_ar_AttestedAt := None\<rparr>)"
  "api_AssetRecord_Get (AssetRecord_fd ''attested_at'') x = Ok (MessageValue (api_ar_AttestedAt x))"
  "api_AssetRecord_Set (AssetRecord_fd ''attested_at'') v x = obind (as_message v) (\<lambda>w. Ok (x\<lparr>api_ar_AttestedAt := w\<rparr>))"
  "api_AssetRecord_Has (AssetRecord_fd ''created_at'') x = Ok (api_ar_CreatedAt x \<noteq> None)"
  "api_AssetRecord_Clear (AssetRecord_fd ''created_at'') x = Ok (x\<lparr>api_ar_CreatedAt := None\<rparr>)"
  "api_AssetRecord_Get (AssetRecord_fd ''created_at'') x = Ok (MessageValue (api_ar_CreatedAt x))"
  "api_AssetRecord_Set (AssetRecord_fd ''created_at'') v x = obind (as_message v) (\<lambda>w. Ok (x\<lparr>api_ar_CreatedAt := w\<rparr>))"
  "api_AssetRecord_Has (AssetRecord_fd ''settled_at'') x = Ok (api_ar_SettledAt x \<noteq> None)"
  "api_AssetRecord_Clear (AssetRecord_fd ''settled_at'') x = Ok (x\<lparr>api_ar_SettledAt := None\<rparr>)"
  "api_AssetRecord_Get (AssetRecord_fd ''settled_at'') x = Ok (MessageValue (api_ar_SettledAt x))"
  "api_AssetRecord_Set (AssetRecord_fd ''settled_at'') v x = obind (as_message v) (\<lambda>w. Ok (x\<lparr>api_ar_SettledAt := w\<rparr>))"
  by (simp_all add: api_AssetRecord_Has_def api_AssetRecord_Clear_def api_AssetRecord_Get_def api_AssetRecord_Set_def)

interpretation AssetRecord_reflect: reflected_message api_AssetRecord_fields api_AssetRecord_Range api_AssetRecord_Has api_AssetRecord_Clear api_AssetRecord_Get api_AssetRecord_Set api_ar_unknownFields zero_api_AssetRecord
proof
  show "distinct api_AssetRecord_fields" by (simp add: api_AssetRecord_fields_def)
next
  show "\<exists>v. api_AssetRecord_Get fd x = Ok v" if "fd \<in> set api_AssetRecord_fields" for fd x
    using that unfolding api_AssetRecord_fields_def field_cases
    by (elim disjE; clarsimp simp: api_AssetRecord_at zero_api_AssetRecord_def list_value_simps)
next
  show "\<exists>y'. api_AssetRecord_Set fd v y = Ok y' \<and> api_AssetRecord_Get fd y' = Ok v \<and> api_ar_unknownFields y' = api_ar_unknownFields y \<and>
      (\<forall>g\<in>set api_AssetRecord_fields. g \<noteq> fd \<longrightarrow> api_AssetRecord_Get g y' = api_AssetRecord_Get g y)"
    if "fd \<in> set api_AssetRecord_fields" "api_AssetRecord_Has fd x = Ok True" "api_AssetRecord_Get fd x = Ok v" for fd x v y
    using that unfolding api_AssetRecord_fields_def field_cases
    by (elim disjE; clarsimp simp: api_AssetRecord_at zero_api_AssetRecord_def list_value_simps)
next
  show "api_AssetRecord_Has fd x = Ok (api_AssetRecord_Get fd x \<noteq> api_AssetRecord_Get fd zero_api_AssetRecord)" if "fd \<in> set api_AssetRecord_fields" for fd x
    using that unfolding api_AssetRecord_fields_def field_cases
    by (elim disjE; clarsimp simp: api_AssetRecord_at zero_api_AssetRecord_def list_value_simps)
next
  show "\<exists>x'. api_AssetRecord_Clear fd x = Ok x' \<and> api_AssetRecord_Get fd x' = api_AssetRecord_Get fd zero_api_AssetRecord \<and> api_ar_unknownFields x' = api_ar_unknownFields x \<and>
      (\<forall>g\<in>set api_AssetRecord_fields. g \<noteq> fd \<longrightarrow> api_AssetRecord_Get g x' = api_AssetRecord_Get g x)" if "fd \<in> set api_AssetRecord_fields" for fd x
    using that unfolding api_AssetRecord_fields_def field_cases
    by (elim disjE; clarsimp simp: api_AssetRecord_at zero_api_AssetRecord_def list_value_simps)
next
  show "api_AssetRecord_Range f x = range_list f (populated api_AssetRecord_fields (\<lambda>fd. api_AssetRecord_Has fd x) (\<lambda>fd. api_AssetRecord_Get fd x))" for f x
    by (simp add: api_AssetRecord_at zero_api_AssetRecord_def api_AssetRecord_fields_def api_AssetRecord_Range_def list_value_def range_field_last range_field_Cons cong: if_cong split del: if_split)
next
  show "api_AssetRecord_Has fd x = Panic \<and> api_AssetRecord_Get fd x = Panic \<and> api_AssetRecord_Set fd v x = Panic \<and> api_AssetRecord_Clear fd x = Panic"
    if "fd \<notin> set api_AssetRecord_fields" for fd x v
    using that by (simp add: api_AssetRecord_fields_def api_AssetRecord_Has_def api_AssetRecord_Get_def api_AssetRecord_Set_def api_AssetRecord_Clear_def)
next
  fix x y :: api_AssetRecord
  assume eq: "\<And>fd. fd \<in> set api_AssetRecord_fields \<Longrightarrow> api_AssetRecord_Get fd x = api_AssetRecord_Get fd y" and u: "api_ar_unknownFields x = api_ar_unknownFields y"
  have "api_ar_AssetId x = api_ar_AssetId y"
    using eq [of "AssetRecord_fd ''asset_id''"] by (simp add: api_AssetRecord_fields_def api_AssetRecord_at list_value_simps)
  moreover note u
  moreover
  have "api_ar_Issuer x = api_ar_Issuer y"
    using eq [of "AssetRecord_fd ''issuer''"] by (simp add: api_AssetRecord_fields_def api_AssetRecord_at list_value_simps)
  moreover
  have "api_ar_Name x = api_ar_Name y"
    using eq [of "AssetRecord_fd ''name''"] by (simp add: api_AssetRecord_fields_def api_AssetRecord_at list_value_simps)
  moreover
  have "api_ar_Description x = api_ar_Description y"
    using eq [of "AssetRecord_fd ''description''"] by (simp add: api_AssetRecord_fields_def api_AssetRecord_at list_value_simps)
  moreover
  have "api_ar_Status x = api_ar_Status y"
    using eq [of "AssetRecord_fd ''status''"] by (simp add: api_AssetRecord_fields_def api_AssetRecord_at list_value_simps)
  moreover
  have "api_ar_OraclePair x = api_ar_OraclePair y"
    using eq [of "AssetRecord_fd ''oracle_pair''"] by (simp add: api_AssetRecord_fields_def api_AssetRecord_at list_value_simps)
  moreover
  have "api_ar_Denom x = api_ar_Denom y"
    using eq [of "AssetRecord_fd ''denom''"] by (simp add: api_AssetRecord_fields_def api_AssetRecord_at list_value_simps)
  moreover
  have "api_ar_Bond x = api_ar_Bond y"
    using eq [of "AssetRecord_fd ''bond''"] by (simp add: api_AssetRecord_fields_def api_AssetRecord_at list_value_simps)
  moreover
  have "api_ar_NotionalMinted x = api_ar_NotionalMinted y"
    using eq [of "AssetRecord_fd ''notional_minted''"] by (simp add: api_AssetRecord_fields_def api_AssetRecord_at list_value_simps)
  moreover
  have "api_ar_AllowAll x = api_ar_AllowAll y"
    using eq [of "AssetRecord_fd ''allow_all''"] by (simp add: api_AssetRecord_fields_def api_AssetRecord_at list_value_simps)
  moreover
  have "api_ar_AttestedPrice x = api_ar_AttestedPrice y"
    using eq [of "AssetRecord_fd ''attested_price''"] by (simp add: api_AssetRecord_fields_def api_AssetRecord_at list_value_simps)
  moreover
  have "api_ar_AttestedAt x = api_ar_AttestedAt y"
    using eq [of "AssetRecord_fd ''attested_at''"] by (simp add: api_AssetRecord_fields_def api_AssetRecord_at list_value_simps)
  moreover
  have "api_ar_CreatedAt x = api_ar_CreatedAt y"
    using eq [of "AssetRecord_fd ''created_at''"] by (simp add: api_AssetRecord_fields_def api_AssetRecord_at list_value_simps)
  moreover
  have "api_ar_SettledAt x = api_ar_SettledAt y"
    using eq [of "AssetRecord_fd ''settled_at''"] by (simp add: api_AssetRecord_fields_def api_AssetRecord_at list_value_simps)
  ultimately show "x = y" by (simp add: api_AssetRecord.equality)
qed

text \<open>The values a client's AssetRecord holds: Go integers, and no field it does not know.\<close>

definition api_AssetRecord_wf :: "pulsar_runtime \<Rightarrow> api_AssetRecord \<Rightarrow> bool" where
  "api_AssetRecord_wf R m \<longleftrightarrow> api_ar_unknownFields m = [] \<and> is_i32 (api_ar_Status m) \<and> (case api_ar_AttestedAt m of None \<Rightarrow> True | Some t \<Rightarrow> valid_timestamp t) \<and> (case api_ar_CreatedAt m of None \<Rightarrow> True | Some t \<Rightarrow> valid_timestamp t) \<and> (case api_ar_SettledAt m of None \<Rightarrow> True | Some t \<Rightarrow> valid_timestamp t) \<and> api_AssetRecord_size R (Some m) < 2 ^ 63"

lemma api_AssetRecord_handler:
  "api_AssetRecord_field R discardUnknown 1 2 pre cur x = field_string 2 cur (\<lambda>v x. x\<lparr>api_ar_AssetId := v\<rparr>) x"
  "api_AssetRecord_field R discardUnknown 2 2 pre cur x = field_string 2 cur (\<lambda>v x. x\<lparr>api_ar_Issuer := v\<rparr>) x"
  "api_AssetRecord_field R discardUnknown 3 2 pre cur x = field_string 2 cur (\<lambda>v x. x\<lparr>api_ar_Name := v\<rparr>) x"
  "api_AssetRecord_field R discardUnknown 4 2 pre cur x = field_string 2 cur (\<lambda>v x. x\<lparr>api_ar_Description := v\<rparr>) x"
  "api_AssetRecord_field R discardUnknown 5 0 pre cur x = field_enum 0 cur (\<lambda>v x. x\<lparr>api_ar_Status := v\<rparr>) x"
  "api_AssetRecord_field R discardUnknown 6 2 pre cur x = field_string 2 cur (\<lambda>v x. x\<lparr>api_ar_OraclePair := v\<rparr>) x"
  "api_AssetRecord_field R discardUnknown 7 2 pre cur x = field_string 2 cur (\<lambda>v x. x\<lparr>api_ar_Denom := v\<rparr>) x"
  "api_AssetRecord_field R discardUnknown 8 2 pre cur x = field_string 2 cur (\<lambda>v x. x\<lparr>api_ar_Bond := v\<rparr>) x"
  "api_AssetRecord_field R discardUnknown 9 2 pre cur x = field_string 2 cur (\<lambda>v x. x\<lparr>api_ar_NotionalMinted := v\<rparr>) x"
  "api_AssetRecord_field R discardUnknown 10 0 pre cur x = field_bool 0 cur (\<lambda>v x. x\<lparr>api_ar_AllowAll := v\<rparr>) x"
  "api_AssetRecord_field R discardUnknown 11 2 pre cur x = field_string 2 cur (\<lambda>v x. x\<lparr>api_ar_AttestedPrice := v\<rparr>) x"
  "api_AssetRecord_field R discardUnknown 12 2 pre cur x = field_merge 2 cur (timestamp_unmarshal R) zero_timestamp api_ar_AttestedAt (\<lambda>v x. x\<lparr>api_ar_AttestedAt := v\<rparr>) x"
  "api_AssetRecord_field R discardUnknown 13 2 pre cur x = field_merge 2 cur (timestamp_unmarshal R) zero_timestamp api_ar_CreatedAt (\<lambda>v x. x\<lparr>api_ar_CreatedAt := v\<rparr>) x"
  "api_AssetRecord_field R discardUnknown 14 2 pre cur x = field_merge 2 cur (timestamp_unmarshal R) zero_timestamp api_ar_SettledAt (\<lambda>v x. x\<lparr>api_ar_SettledAt := v\<rparr>) x"
  by (simp_all add: api_AssetRecord_field_def)

lemmas api_AssetRecord_steps =
  loop_string [where h = "api_AssetRecord_field R discardUnknown", OF api_AssetRecord_handler(1)]
  loop_string [where h = "api_AssetRecord_field R discardUnknown", OF api_AssetRecord_handler(2)]
  loop_string [where h = "api_AssetRecord_field R discardUnknown", OF api_AssetRecord_handler(3)]
  loop_string [where h = "api_AssetRecord_field R discardUnknown", OF api_AssetRecord_handler(4)]
  loop_enum [where h = "api_AssetRecord_field R discardUnknown", OF api_AssetRecord_handler(5)]
  loop_string [where h = "api_AssetRecord_field R discardUnknown", OF api_AssetRecord_handler(6)]
  loop_string [where h = "api_AssetRecord_field R discardUnknown", OF api_AssetRecord_handler(7)]
  loop_string [where h = "api_AssetRecord_field R discardUnknown", OF api_AssetRecord_handler(8)]
  loop_string [where h = "api_AssetRecord_field R discardUnknown", OF api_AssetRecord_handler(9)]
  loop_bool [where h = "api_AssetRecord_field R discardUnknown", OF api_AssetRecord_handler(10)]
  loop_string [where h = "api_AssetRecord_field R discardUnknown", OF api_AssetRecord_handler(11)]
  for R discardUnknown

lemma api_AssetRecord_roundtrip:
  assumes R: "runtime_laws R" and wf: "api_AssetRecord_wf R m"
  shows "\<exists>bz. (\<forall>buf. api_AssetRecord_marshal R buf (Some m) = Ok (buf @ bz)) \<and> length bz = api_AssetRecord_size R (Some m) \<and>
           api_AssetRecord_unmarshal R discardUnknown bz (Some zero_api_AssetRecord) = Ok (Some m)"
proof -
  have sz: "rt_size_string R (api_ar_AssetId m) + rt_size_string R (api_ar_Issuer m) + rt_size_string R (api_ar_Name m) + rt_size_string R (api_ar_Description m) + rt_size_int64 R (api_ar_Status m) + rt_size_string R (api_ar_OraclePair m) + rt_size_string R (api_ar_Denom m) + rt_size_string R (api_ar_Bond m) + rt_size_string R (api_ar_NotionalMinted m) + size_bool (api_ar_AllowAll m) + rt_size_string R (api_ar_AttestedPrice m) + rt_size_message R (timestamp_size R) (api_ar_AttestedAt m) + rt_size_message R (timestamp_size R) (api_ar_CreatedAt m) + rt_size_message R (timestamp_size R) (api_ar_SettledAt m) < 2 ^ 63"
    using wf by (simp add: api_AssetRecord_wf_def api_AssetRecord_size_def)
  have l_AssetId: "length (api_ar_AssetId m) < 2 ^ 63" using sz rt_size_ge(1) [of "api_ar_AssetId m" R] by linarith
  have l_Issuer: "length (api_ar_Issuer m) < 2 ^ 63" using sz rt_size_ge(1) [of "api_ar_Issuer m" R] by linarith
  have l_Name: "length (api_ar_Name m) < 2 ^ 63" using sz rt_size_ge(1) [of "api_ar_Name m" R] by linarith
  have l_Description: "length (api_ar_Description m) < 2 ^ 63" using sz rt_size_ge(1) [of "api_ar_Description m" R] by linarith
  have l_OraclePair: "length (api_ar_OraclePair m) < 2 ^ 63" using sz rt_size_ge(1) [of "api_ar_OraclePair m" R] by linarith
  have l_Denom: "length (api_ar_Denom m) < 2 ^ 63" using sz rt_size_ge(1) [of "api_ar_Denom m" R] by linarith
  have l_Bond: "length (api_ar_Bond m) < 2 ^ 63" using sz rt_size_ge(1) [of "api_ar_Bond m" R] by linarith
  have l_NotionalMinted: "length (api_ar_NotionalMinted m) < 2 ^ 63" using sz rt_size_ge(1) [of "api_ar_NotionalMinted m" R] by linarith
  have l_AttestedPrice: "length (api_ar_AttestedPrice m) < 2 ^ 63" using sz rt_size_ge(1) [of "api_ar_AttestedPrice m" R] by linarith
  have "case api_ar_AttestedAt m of None \<Rightarrow> True | Some t \<Rightarrow> valid_timestamp t" using wf by (simp add: api_AssetRecord_wf_def)
  then obtain e_AttestedAt where e_AttestedAt: "message_encoded (timestamp_size R) (timestamp_marshal R) (timestamp_unmarshal R) zero_timestamp (api_ar_AttestedAt m) e_AttestedAt"
    by (rule message_encoded_timestamp [OF R])
  have s_AttestedAt: "rt_size_message R (timestamp_size R) (api_ar_AttestedAt m) < 2 ^ 63" using sz by linarith
  note s_AttestedAt = message_encoded_size [OF R e_AttestedAt s_AttestedAt]
  have "case api_ar_CreatedAt m of None \<Rightarrow> True | Some t \<Rightarrow> valid_timestamp t" using wf by (simp add: api_AssetRecord_wf_def)
  then obtain e_CreatedAt where e_CreatedAt: "message_encoded (timestamp_size R) (timestamp_marshal R) (timestamp_unmarshal R) zero_timestamp (api_ar_CreatedAt m) e_CreatedAt"
    by (rule message_encoded_timestamp [OF R])
  have s_CreatedAt: "rt_size_message R (timestamp_size R) (api_ar_CreatedAt m) < 2 ^ 63" using sz by linarith
  note s_CreatedAt = message_encoded_size [OF R e_CreatedAt s_CreatedAt]
  have "case api_ar_SettledAt m of None \<Rightarrow> True | Some t \<Rightarrow> valid_timestamp t" using wf by (simp add: api_AssetRecord_wf_def)
  then obtain e_SettledAt where e_SettledAt: "message_encoded (timestamp_size R) (timestamp_marshal R) (timestamp_unmarshal R) zero_timestamp (api_ar_SettledAt m) e_SettledAt"
    by (rule message_encoded_timestamp [OF R])
  have s_SettledAt: "rt_size_message R (timestamp_size R) (api_ar_SettledAt m) < 2 ^ 63" using sz by linarith
  note s_SettledAt = message_encoded_size [OF R e_SettledAt s_SettledAt]
  define bz where "bz = put_string 10 (api_ar_AssetId m)
       (put_string 18 (api_ar_Issuer m)
       (put_string 26 (api_ar_Name m)
       (put_string 34 (api_ar_Description m)
       (put_int64 40 (api_ar_Status m)
       (put_string 50 (api_ar_OraclePair m)
       (put_string 58 (api_ar_Denom m)
       (put_string 66 (api_ar_Bond m)
       (put_string 74 (api_ar_NotionalMinted m)
       (put_bool 80 (api_ar_AllowAll m)
       (put_string 90 (api_ar_AttestedPrice m)
       (put_message 98 e_AttestedAt
       (put_message 106 e_CreatedAt
       (put_message 114 e_SettledAt
       [])))))))))))))"
  have len: "length bz = api_AssetRecord_size R (Some m)"
    using wf by (simp add: bz_def api_AssetRecord_size_def rt_size_eq(3) [OF R] rt_size_eq(2) [OF R l_AssetId] rt_put_eq(2) [OF R l_AssetId] rt_size_eq(2) [OF R l_Issuer] rt_put_eq(2) [OF R l_Issuer] rt_size_eq(2) [OF R l_Name] rt_put_eq(2) [OF R l_Name] rt_size_eq(2) [OF R l_Description] rt_put_eq(2) [OF R l_Description] rt_size_eq(2) [OF R l_OraclePair] rt_put_eq(2) [OF R l_OraclePair] rt_size_eq(2) [OF R l_Denom] rt_put_eq(2) [OF R l_Denom] rt_size_eq(2) [OF R l_Bond] rt_put_eq(2) [OF R l_Bond] rt_size_eq(2) [OF R l_NotionalMinted] rt_put_eq(2) [OF R l_NotionalMinted] rt_size_eq(2) [OF R l_AttestedPrice] rt_put_eq(2) [OF R l_AttestedPrice] s_AttestedAt message_encoded_marshal [OF e_AttestedAt] s_CreatedAt message_encoded_marshal [OF e_CreatedAt] s_SettledAt message_encoded_marshal [OF e_SettledAt] api_AssetRecord_wf_def)
  have lt: "length bz < 2 ^ 63" using wf by (simp add: len api_AssetRecord_wf_def)
  have "api_AssetRecord_marshal R buf (Some m) = Ok (buf @ bz)" for buf
  proof -
    have "api_AssetRecord_marshal R buf (Some m) = rt_buffer buf (api_AssetRecord_size R (Some m)) bz"
      using wf by (simp add: api_AssetRecord_marshal_def bz_def rt_put_eq(3) [OF R] rt_size_eq(2) [OF R l_AssetId] rt_put_eq(2) [OF R l_AssetId] rt_size_eq(2) [OF R l_Issuer] rt_put_eq(2) [OF R l_Issuer] rt_size_eq(2) [OF R l_Name] rt_put_eq(2) [OF R l_Name] rt_size_eq(2) [OF R l_Description] rt_put_eq(2) [OF R l_Description] rt_size_eq(2) [OF R l_OraclePair] rt_put_eq(2) [OF R l_OraclePair] rt_size_eq(2) [OF R l_Denom] rt_put_eq(2) [OF R l_Denom] rt_size_eq(2) [OF R l_Bond] rt_put_eq(2) [OF R l_Bond] rt_size_eq(2) [OF R l_NotionalMinted] rt_put_eq(2) [OF R l_NotionalMinted] rt_size_eq(2) [OF R l_AttestedPrice] rt_put_eq(2) [OF R l_AttestedPrice] s_AttestedAt message_encoded_marshal [OF e_AttestedAt] s_CreatedAt message_encoded_marshal [OF e_CreatedAt] s_SettledAt message_encoded_marshal [OF e_SettledAt] api_AssetRecord_wf_def)
    then show ?thesis by (simp add: rt_buffer_exact len)
  qed
  moreover have "api_AssetRecord_unmarshal R discardUnknown bz (Some zero_api_AssetRecord) = Ok (Some m)"
    using wf lt
    by (simp add: api_AssetRecord_unmarshal_def bz_def api_AssetRecord_wf_def api_AssetRecord_steps loop_merge [where h = "api_AssetRecord_field R discardUnknown", OF api_AssetRecord_handler(12) _ _ _ _ e_AttestedAt] loop_merge [where h = "api_AssetRecord_field R discardUnknown", OF api_AssetRecord_handler(13) _ _ _ _ e_CreatedAt] loop_merge [where h = "api_AssetRecord_field R discardUnknown", OF api_AssetRecord_handler(14) _ _ _ _ e_SettledAt] fits_int_def zero_api_AssetRecord_def )
  ultimately show ?thesis using len by blast
qed

interpretation AssetRecord_api_codec: message_codec "api_AssetRecord_size R" "api_AssetRecord_marshal R []" "\<lambda>bz. api_AssetRecord_unmarshal R discardUnknown bz (Some zero_api_AssetRecord)"
    "\<lambda>m. runtime_laws R \<and> (case m of None \<Rightarrow> False | Some x \<Rightarrow> api_AssetRecord_wf R x)" for R discardUnknown
  by unfold_locales (use api_AssetRecord_roundtrip in \<open>fastforce split: option.splits\<close>)

subsection \<open>RWAParams\<close>

record api_RWAParams =
  api_rp_MinIssuerBond :: string
  api_rp_MintFeeRate :: string
  api_rp_SettleFeeRate :: string
  api_rp_unknownFields :: bytes

definition zero_api_RWAParams :: api_RWAParams where
  "zero_api_RWAParams = \<lparr>api_rp_MinIssuerBond = [], api_rp_MintFeeRate = [], api_rp_SettleFeeRate = [], api_rp_unknownFields = []\<rparr>"

definition RWAParams_fd :: "string \<Rightarrow> string" where
  "RWAParams_fd n = ''vertix.rwa.v1.RWAParams.'' @ n"

lemma RWAParams_fd_inject [simp]: "RWAParams_fd a = RWAParams_fd b \<longleftrightarrow> a = b"
  by (simp add: RWAParams_fd_def)

definition api_RWAParams_fields :: "string list" where
  "api_RWAParams_fields = map RWAParams_fd [''min_issuer_bond'', ''mint_fee_rate'', ''settle_fee_rate'']"

definition api_RWAParams_Range ::
    "(string \<Rightarrow> 'v reflect_value \<Rightarrow> 's \<Rightarrow> (bool \<times> 's) outcome) \<Rightarrow> api_RWAParams \<Rightarrow> 's \<Rightarrow> 's outcome" where
  "api_RWAParams_Range f x =
     range_field (api_rp_MinIssuerBond x \<noteq> []) (RWAParams_fd ''min_issuer_bond'') (StringValue (api_rp_MinIssuerBond x)) f
      (range_field (api_rp_MintFeeRate x \<noteq> []) (RWAParams_fd ''mint_fee_rate'') (StringValue (api_rp_MintFeeRate x)) f
      (range_field (api_rp_SettleFeeRate x \<noteq> []) (RWAParams_fd ''settle_fee_rate'') (StringValue (api_rp_SettleFeeRate x)) f
      Ok))"

definition api_RWAParams_Has :: "string \<Rightarrow> api_RWAParams \<Rightarrow> bool outcome" where
  "api_RWAParams_Has fd x =
     (if fd = RWAParams_fd ''min_issuer_bond'' then Ok (api_rp_MinIssuerBond x \<noteq> [])
      else if fd = RWAParams_fd ''mint_fee_rate'' then Ok (api_rp_MintFeeRate x \<noteq> [])
      else if fd = RWAParams_fd ''settle_fee_rate'' then Ok (api_rp_SettleFeeRate x \<noteq> [])
      else Panic)"

definition api_RWAParams_Clear :: "string \<Rightarrow> api_RWAParams \<Rightarrow> api_RWAParams outcome" where
  "api_RWAParams_Clear fd x =
     (if fd = RWAParams_fd ''min_issuer_bond'' then Ok (x\<lparr>api_rp_MinIssuerBond := []\<rparr>)
      else if fd = RWAParams_fd ''mint_fee_rate'' then Ok (x\<lparr>api_rp_MintFeeRate := []\<rparr>)
      else if fd = RWAParams_fd ''settle_fee_rate'' then Ok (x\<lparr>api_rp_SettleFeeRate := []\<rparr>)
      else Panic)"

definition api_RWAParams_Get :: "string \<Rightarrow> api_RWAParams \<Rightarrow> 'v reflect_value outcome" where
  "api_RWAParams_Get fd x =
     (if fd = RWAParams_fd ''min_issuer_bond'' then Ok (StringValue (api_rp_MinIssuerBond x))
      else if fd = RWAParams_fd ''mint_fee_rate'' then Ok (StringValue (api_rp_MintFeeRate x))
      else if fd = RWAParams_fd ''settle_fee_rate'' then Ok (StringValue (api_rp_SettleFeeRate x))
      else Panic)"

definition api_RWAParams_Set :: "string \<Rightarrow> 'v reflect_value \<Rightarrow> api_RWAParams \<Rightarrow> api_RWAParams outcome" where
  "api_RWAParams_Set fd v x =
     (if fd = RWAParams_fd ''min_issuer_bond'' then obind (as_string v) (\<lambda>w. Ok (x\<lparr>api_rp_MinIssuerBond := w\<rparr>))
      else if fd = RWAParams_fd ''mint_fee_rate'' then obind (as_string v) (\<lambda>w. Ok (x\<lparr>api_rp_MintFeeRate := w\<rparr>))
      else if fd = RWAParams_fd ''settle_fee_rate'' then obind (as_string v) (\<lambda>w. Ok (x\<lparr>api_rp_SettleFeeRate := w\<rparr>))
      else Panic)"

definition api_RWAParams_size :: "pulsar_runtime \<Rightarrow> api_RWAParams option \<Rightarrow> nat" where
  "api_RWAParams_size R m = (case m of None \<Rightarrow> 0 | Some x \<Rightarrow>
     rt_size_string R (api_rp_MinIssuerBond x) +
     rt_size_string R (api_rp_MintFeeRate x) +
     rt_size_string R (api_rp_SettleFeeRate x) + length (api_rp_unknownFields x))"

definition api_RWAParams_marshal :: "pulsar_runtime \<Rightarrow> bytes \<Rightarrow> api_RWAParams option \<Rightarrow> bytes outcome" where
  "api_RWAParams_marshal R buf m = (case m of None \<Rightarrow> Ok buf | Some x \<Rightarrow>
     rt_buffer buf (api_RWAParams_size R m)
       (rt_put_string R 10 (api_rp_MinIssuerBond x)
       (rt_put_string R 18 (api_rp_MintFeeRate x)
       (rt_put_string R 26 (api_rp_SettleFeeRate x)
       (api_rp_unknownFields x)))))"

definition api_RWAParams_field :: "pulsar_runtime \<Rightarrow> bool \<Rightarrow> api_RWAParams handler" where
  "api_RWAParams_field R discardUnknown fieldNum wireType pre cur x =
     (if fieldNum = 1 then field_string wireType cur (\<lambda>v x. x\<lparr>api_rp_MinIssuerBond := v\<rparr>) x
      else if fieldNum = 2 then field_string wireType cur (\<lambda>v x. x\<lparr>api_rp_MintFeeRate := v\<rparr>) x
      else if fieldNum = 3 then field_string wireType cur (\<lambda>v x. x\<lparr>api_rp_SettleFeeRate := v\<rparr>) x
      else field_unknown R discardUnknown pre (\<lambda>bz x. x\<lparr>api_rp_unknownFields := api_rp_unknownFields x @ bz\<rparr>) x)"

definition api_RWAParams_unmarshal :: "pulsar_runtime \<Rightarrow> bool \<Rightarrow> bytes \<Rightarrow> api_RWAParams option \<Rightarrow> api_RWAParams option outcome" where
  "api_RWAParams_unmarshal R discardUnknown dAtA m = (case m of None \<Rightarrow> Ok None | Some x \<Rightarrow>
     obind (unmarshal_loop (api_RWAParams_field R discardUnknown) x 0 dAtA) (\<lambda>x. Ok (Some x)))"

lemma api_RWAParams_at:
  "api_RWAParams_Has (RWAParams_fd ''min_issuer_bond'') x = Ok (api_rp_MinIssuerBond x \<noteq> [])"
  "api_RWAParams_Clear (RWAParams_fd ''min_issuer_bond'') x = Ok (x\<lparr>api_rp_MinIssuerBond := []\<rparr>)"
  "api_RWAParams_Get (RWAParams_fd ''min_issuer_bond'') x = Ok (StringValue (api_rp_MinIssuerBond x))"
  "api_RWAParams_Set (RWAParams_fd ''min_issuer_bond'') v x = obind (as_string v) (\<lambda>w. Ok (x\<lparr>api_rp_MinIssuerBond := w\<rparr>))"
  "api_RWAParams_Has (RWAParams_fd ''mint_fee_rate'') x = Ok (api_rp_MintFeeRate x \<noteq> [])"
  "api_RWAParams_Clear (RWAParams_fd ''mint_fee_rate'') x = Ok (x\<lparr>api_rp_MintFeeRate := []\<rparr>)"
  "api_RWAParams_Get (RWAParams_fd ''mint_fee_rate'') x = Ok (StringValue (api_rp_MintFeeRate x))"
  "api_RWAParams_Set (RWAParams_fd ''mint_fee_rate'') v x = obind (as_string v) (\<lambda>w. Ok (x\<lparr>api_rp_MintFeeRate := w\<rparr>))"
  "api_RWAParams_Has (RWAParams_fd ''settle_fee_rate'') x = Ok (api_rp_SettleFeeRate x \<noteq> [])"
  "api_RWAParams_Clear (RWAParams_fd ''settle_fee_rate'') x = Ok (x\<lparr>api_rp_SettleFeeRate := []\<rparr>)"
  "api_RWAParams_Get (RWAParams_fd ''settle_fee_rate'') x = Ok (StringValue (api_rp_SettleFeeRate x))"
  "api_RWAParams_Set (RWAParams_fd ''settle_fee_rate'') v x = obind (as_string v) (\<lambda>w. Ok (x\<lparr>api_rp_SettleFeeRate := w\<rparr>))"
  by (simp_all add: api_RWAParams_Has_def api_RWAParams_Clear_def api_RWAParams_Get_def api_RWAParams_Set_def)

interpretation RWAParams_reflect: reflected_message api_RWAParams_fields api_RWAParams_Range api_RWAParams_Has api_RWAParams_Clear api_RWAParams_Get api_RWAParams_Set api_rp_unknownFields zero_api_RWAParams
proof
  show "distinct api_RWAParams_fields" by (simp add: api_RWAParams_fields_def)
next
  show "\<exists>v. api_RWAParams_Get fd x = Ok v" if "fd \<in> set api_RWAParams_fields" for fd x
    using that unfolding api_RWAParams_fields_def field_cases
    by (elim disjE; clarsimp simp: api_RWAParams_at zero_api_RWAParams_def list_value_simps)
next
  show "\<exists>y'. api_RWAParams_Set fd v y = Ok y' \<and> api_RWAParams_Get fd y' = Ok v \<and> api_rp_unknownFields y' = api_rp_unknownFields y \<and>
      (\<forall>g\<in>set api_RWAParams_fields. g \<noteq> fd \<longrightarrow> api_RWAParams_Get g y' = api_RWAParams_Get g y)"
    if "fd \<in> set api_RWAParams_fields" "api_RWAParams_Has fd x = Ok True" "api_RWAParams_Get fd x = Ok v" for fd x v y
    using that unfolding api_RWAParams_fields_def field_cases
    by (elim disjE; clarsimp simp: api_RWAParams_at zero_api_RWAParams_def list_value_simps)
next
  show "api_RWAParams_Has fd x = Ok (api_RWAParams_Get fd x \<noteq> api_RWAParams_Get fd zero_api_RWAParams)" if "fd \<in> set api_RWAParams_fields" for fd x
    using that unfolding api_RWAParams_fields_def field_cases
    by (elim disjE; clarsimp simp: api_RWAParams_at zero_api_RWAParams_def list_value_simps)
next
  show "\<exists>x'. api_RWAParams_Clear fd x = Ok x' \<and> api_RWAParams_Get fd x' = api_RWAParams_Get fd zero_api_RWAParams \<and> api_rp_unknownFields x' = api_rp_unknownFields x \<and>
      (\<forall>g\<in>set api_RWAParams_fields. g \<noteq> fd \<longrightarrow> api_RWAParams_Get g x' = api_RWAParams_Get g x)" if "fd \<in> set api_RWAParams_fields" for fd x
    using that unfolding api_RWAParams_fields_def field_cases
    by (elim disjE; clarsimp simp: api_RWAParams_at zero_api_RWAParams_def list_value_simps)
next
  show "api_RWAParams_Range f x = range_list f (populated api_RWAParams_fields (\<lambda>fd. api_RWAParams_Has fd x) (\<lambda>fd. api_RWAParams_Get fd x))" for f x
    by (simp add: api_RWAParams_at zero_api_RWAParams_def api_RWAParams_fields_def api_RWAParams_Range_def list_value_def range_field_last range_field_Cons cong: if_cong split del: if_split)
next
  show "api_RWAParams_Has fd x = Panic \<and> api_RWAParams_Get fd x = Panic \<and> api_RWAParams_Set fd v x = Panic \<and> api_RWAParams_Clear fd x = Panic"
    if "fd \<notin> set api_RWAParams_fields" for fd x v
    using that by (simp add: api_RWAParams_fields_def api_RWAParams_Has_def api_RWAParams_Get_def api_RWAParams_Set_def api_RWAParams_Clear_def)
next
  fix x y :: api_RWAParams
  assume eq: "\<And>fd. fd \<in> set api_RWAParams_fields \<Longrightarrow> api_RWAParams_Get fd x = api_RWAParams_Get fd y" and u: "api_rp_unknownFields x = api_rp_unknownFields y"
  have "api_rp_MinIssuerBond x = api_rp_MinIssuerBond y"
    using eq [of "RWAParams_fd ''min_issuer_bond''"] by (simp add: api_RWAParams_fields_def api_RWAParams_at list_value_simps)
  moreover note u
  moreover
  have "api_rp_MintFeeRate x = api_rp_MintFeeRate y"
    using eq [of "RWAParams_fd ''mint_fee_rate''"] by (simp add: api_RWAParams_fields_def api_RWAParams_at list_value_simps)
  moreover
  have "api_rp_SettleFeeRate x = api_rp_SettleFeeRate y"
    using eq [of "RWAParams_fd ''settle_fee_rate''"] by (simp add: api_RWAParams_fields_def api_RWAParams_at list_value_simps)
  ultimately show "x = y" by (simp add: api_RWAParams.equality)
qed

text \<open>The values a client's RWAParams holds: Go integers, and no field it does not know.\<close>

definition api_RWAParams_wf :: "pulsar_runtime \<Rightarrow> api_RWAParams \<Rightarrow> bool" where
  "api_RWAParams_wf R m \<longleftrightarrow> api_rp_unknownFields m = [] \<and> api_RWAParams_size R (Some m) < 2 ^ 63"

lemma api_RWAParams_handler:
  "api_RWAParams_field R discardUnknown 1 2 pre cur x = field_string 2 cur (\<lambda>v x. x\<lparr>api_rp_MinIssuerBond := v\<rparr>) x"
  "api_RWAParams_field R discardUnknown 2 2 pre cur x = field_string 2 cur (\<lambda>v x. x\<lparr>api_rp_MintFeeRate := v\<rparr>) x"
  "api_RWAParams_field R discardUnknown 3 2 pre cur x = field_string 2 cur (\<lambda>v x. x\<lparr>api_rp_SettleFeeRate := v\<rparr>) x"
  by (simp_all add: api_RWAParams_field_def)

lemmas api_RWAParams_steps =
  loop_string [where h = "api_RWAParams_field R discardUnknown", OF api_RWAParams_handler(1)]
  loop_string [where h = "api_RWAParams_field R discardUnknown", OF api_RWAParams_handler(2)]
  loop_string [where h = "api_RWAParams_field R discardUnknown", OF api_RWAParams_handler(3)]
  for R discardUnknown

lemma api_RWAParams_roundtrip:
  assumes R: "runtime_laws R" and wf: "api_RWAParams_wf R m"
  shows "\<exists>bz. (\<forall>buf. api_RWAParams_marshal R buf (Some m) = Ok (buf @ bz)) \<and> length bz = api_RWAParams_size R (Some m) \<and>
           api_RWAParams_unmarshal R discardUnknown bz (Some zero_api_RWAParams) = Ok (Some m)"
proof -
  have sz: "rt_size_string R (api_rp_MinIssuerBond m) + rt_size_string R (api_rp_MintFeeRate m) + rt_size_string R (api_rp_SettleFeeRate m) < 2 ^ 63"
    using wf by (simp add: api_RWAParams_wf_def api_RWAParams_size_def)
  have l_MinIssuerBond: "length (api_rp_MinIssuerBond m) < 2 ^ 63" using sz rt_size_ge(1) [of "api_rp_MinIssuerBond m" R] by linarith
  have l_MintFeeRate: "length (api_rp_MintFeeRate m) < 2 ^ 63" using sz rt_size_ge(1) [of "api_rp_MintFeeRate m" R] by linarith
  have l_SettleFeeRate: "length (api_rp_SettleFeeRate m) < 2 ^ 63" using sz rt_size_ge(1) [of "api_rp_SettleFeeRate m" R] by linarith
  define bz where "bz = put_string 10 (api_rp_MinIssuerBond m)
       (put_string 18 (api_rp_MintFeeRate m)
       (put_string 26 (api_rp_SettleFeeRate m)
       []))"
  have len: "length bz = api_RWAParams_size R (Some m)"
    using wf by (simp add: bz_def api_RWAParams_size_def rt_size_eq(3) [OF R] rt_size_eq(2) [OF R l_MinIssuerBond] rt_put_eq(2) [OF R l_MinIssuerBond] rt_size_eq(2) [OF R l_MintFeeRate] rt_put_eq(2) [OF R l_MintFeeRate] rt_size_eq(2) [OF R l_SettleFeeRate] rt_put_eq(2) [OF R l_SettleFeeRate] api_RWAParams_wf_def)
  have lt: "length bz < 2 ^ 63" using wf by (simp add: len api_RWAParams_wf_def)
  have "api_RWAParams_marshal R buf (Some m) = Ok (buf @ bz)" for buf
  proof -
    have "api_RWAParams_marshal R buf (Some m) = rt_buffer buf (api_RWAParams_size R (Some m)) bz"
      using wf by (simp add: api_RWAParams_marshal_def bz_def rt_put_eq(3) [OF R] rt_size_eq(2) [OF R l_MinIssuerBond] rt_put_eq(2) [OF R l_MinIssuerBond] rt_size_eq(2) [OF R l_MintFeeRate] rt_put_eq(2) [OF R l_MintFeeRate] rt_size_eq(2) [OF R l_SettleFeeRate] rt_put_eq(2) [OF R l_SettleFeeRate] api_RWAParams_wf_def)
    then show ?thesis by (simp add: rt_buffer_exact len)
  qed
  moreover have "api_RWAParams_unmarshal R discardUnknown bz (Some zero_api_RWAParams) = Ok (Some m)"
    using wf lt
    by (simp add: api_RWAParams_unmarshal_def bz_def api_RWAParams_wf_def api_RWAParams_steps  fits_int_def zero_api_RWAParams_def )
  ultimately show ?thesis using len by blast
qed

interpretation RWAParams_api_codec: message_codec "api_RWAParams_size R" "api_RWAParams_marshal R []" "\<lambda>bz. api_RWAParams_unmarshal R discardUnknown bz (Some zero_api_RWAParams)"
    "\<lambda>m. runtime_laws R \<and> (case m of None \<Rightarrow> False | Some x \<Rightarrow> api_RWAParams_wf R x)" for R discardUnknown
  by unfold_locales (use api_RWAParams_roundtrip in \<open>fastforce split: option.splits\<close>)

subsection \<open>MsgRegisterAsset\<close>

record api_MsgRegisterAsset =
  api_mra_Issuer :: string
  api_mra_AssetId :: string
  api_mra_Name :: string
  api_mra_Description :: string
  api_mra_OraclePair :: string
  api_mra_Bond :: string
  api_mra_unknownFields :: bytes

definition zero_api_MsgRegisterAsset :: api_MsgRegisterAsset where
  "zero_api_MsgRegisterAsset = \<lparr>api_mra_Issuer = [], api_mra_AssetId = [], api_mra_Name = [], api_mra_Description = [], api_mra_OraclePair = [], api_mra_Bond = [], api_mra_unknownFields = []\<rparr>"

definition MsgRegisterAsset_fd :: "string \<Rightarrow> string" where
  "MsgRegisterAsset_fd n = ''vertix.rwa.v1.MsgRegisterAsset.'' @ n"

lemma MsgRegisterAsset_fd_inject [simp]: "MsgRegisterAsset_fd a = MsgRegisterAsset_fd b \<longleftrightarrow> a = b"
  by (simp add: MsgRegisterAsset_fd_def)

definition api_MsgRegisterAsset_fields :: "string list" where
  "api_MsgRegisterAsset_fields = map MsgRegisterAsset_fd [''issuer'', ''asset_id'', ''name'', ''description'', ''oracle_pair'', ''bond'']"

definition api_MsgRegisterAsset_Range ::
    "(string \<Rightarrow> 'v reflect_value \<Rightarrow> 's \<Rightarrow> (bool \<times> 's) outcome) \<Rightarrow> api_MsgRegisterAsset \<Rightarrow> 's \<Rightarrow> 's outcome" where
  "api_MsgRegisterAsset_Range f x =
     range_field (api_mra_Issuer x \<noteq> []) (MsgRegisterAsset_fd ''issuer'') (StringValue (api_mra_Issuer x)) f
      (range_field (api_mra_AssetId x \<noteq> []) (MsgRegisterAsset_fd ''asset_id'') (StringValue (api_mra_AssetId x)) f
      (range_field (api_mra_Name x \<noteq> []) (MsgRegisterAsset_fd ''name'') (StringValue (api_mra_Name x)) f
      (range_field (api_mra_Description x \<noteq> []) (MsgRegisterAsset_fd ''description'') (StringValue (api_mra_Description x)) f
      (range_field (api_mra_OraclePair x \<noteq> []) (MsgRegisterAsset_fd ''oracle_pair'') (StringValue (api_mra_OraclePair x)) f
      (range_field (api_mra_Bond x \<noteq> []) (MsgRegisterAsset_fd ''bond'') (StringValue (api_mra_Bond x)) f
      Ok)))))"

definition api_MsgRegisterAsset_Has :: "string \<Rightarrow> api_MsgRegisterAsset \<Rightarrow> bool outcome" where
  "api_MsgRegisterAsset_Has fd x =
     (if fd = MsgRegisterAsset_fd ''issuer'' then Ok (api_mra_Issuer x \<noteq> [])
      else if fd = MsgRegisterAsset_fd ''asset_id'' then Ok (api_mra_AssetId x \<noteq> [])
      else if fd = MsgRegisterAsset_fd ''name'' then Ok (api_mra_Name x \<noteq> [])
      else if fd = MsgRegisterAsset_fd ''description'' then Ok (api_mra_Description x \<noteq> [])
      else if fd = MsgRegisterAsset_fd ''oracle_pair'' then Ok (api_mra_OraclePair x \<noteq> [])
      else if fd = MsgRegisterAsset_fd ''bond'' then Ok (api_mra_Bond x \<noteq> [])
      else Panic)"

definition api_MsgRegisterAsset_Clear :: "string \<Rightarrow> api_MsgRegisterAsset \<Rightarrow> api_MsgRegisterAsset outcome" where
  "api_MsgRegisterAsset_Clear fd x =
     (if fd = MsgRegisterAsset_fd ''issuer'' then Ok (x\<lparr>api_mra_Issuer := []\<rparr>)
      else if fd = MsgRegisterAsset_fd ''asset_id'' then Ok (x\<lparr>api_mra_AssetId := []\<rparr>)
      else if fd = MsgRegisterAsset_fd ''name'' then Ok (x\<lparr>api_mra_Name := []\<rparr>)
      else if fd = MsgRegisterAsset_fd ''description'' then Ok (x\<lparr>api_mra_Description := []\<rparr>)
      else if fd = MsgRegisterAsset_fd ''oracle_pair'' then Ok (x\<lparr>api_mra_OraclePair := []\<rparr>)
      else if fd = MsgRegisterAsset_fd ''bond'' then Ok (x\<lparr>api_mra_Bond := []\<rparr>)
      else Panic)"

definition api_MsgRegisterAsset_Get :: "string \<Rightarrow> api_MsgRegisterAsset \<Rightarrow> 'v reflect_value outcome" where
  "api_MsgRegisterAsset_Get fd x =
     (if fd = MsgRegisterAsset_fd ''issuer'' then Ok (StringValue (api_mra_Issuer x))
      else if fd = MsgRegisterAsset_fd ''asset_id'' then Ok (StringValue (api_mra_AssetId x))
      else if fd = MsgRegisterAsset_fd ''name'' then Ok (StringValue (api_mra_Name x))
      else if fd = MsgRegisterAsset_fd ''description'' then Ok (StringValue (api_mra_Description x))
      else if fd = MsgRegisterAsset_fd ''oracle_pair'' then Ok (StringValue (api_mra_OraclePair x))
      else if fd = MsgRegisterAsset_fd ''bond'' then Ok (StringValue (api_mra_Bond x))
      else Panic)"

definition api_MsgRegisterAsset_Set :: "string \<Rightarrow> 'v reflect_value \<Rightarrow> api_MsgRegisterAsset \<Rightarrow> api_MsgRegisterAsset outcome" where
  "api_MsgRegisterAsset_Set fd v x =
     (if fd = MsgRegisterAsset_fd ''issuer'' then obind (as_string v) (\<lambda>w. Ok (x\<lparr>api_mra_Issuer := w\<rparr>))
      else if fd = MsgRegisterAsset_fd ''asset_id'' then obind (as_string v) (\<lambda>w. Ok (x\<lparr>api_mra_AssetId := w\<rparr>))
      else if fd = MsgRegisterAsset_fd ''name'' then obind (as_string v) (\<lambda>w. Ok (x\<lparr>api_mra_Name := w\<rparr>))
      else if fd = MsgRegisterAsset_fd ''description'' then obind (as_string v) (\<lambda>w. Ok (x\<lparr>api_mra_Description := w\<rparr>))
      else if fd = MsgRegisterAsset_fd ''oracle_pair'' then obind (as_string v) (\<lambda>w. Ok (x\<lparr>api_mra_OraclePair := w\<rparr>))
      else if fd = MsgRegisterAsset_fd ''bond'' then obind (as_string v) (\<lambda>w. Ok (x\<lparr>api_mra_Bond := w\<rparr>))
      else Panic)"

definition api_MsgRegisterAsset_size :: "pulsar_runtime \<Rightarrow> api_MsgRegisterAsset option \<Rightarrow> nat" where
  "api_MsgRegisterAsset_size R m = (case m of None \<Rightarrow> 0 | Some x \<Rightarrow>
     rt_size_string R (api_mra_Issuer x) +
     rt_size_string R (api_mra_AssetId x) +
     rt_size_string R (api_mra_Name x) +
     rt_size_string R (api_mra_Description x) +
     rt_size_string R (api_mra_OraclePair x) +
     rt_size_string R (api_mra_Bond x) + length (api_mra_unknownFields x))"

definition api_MsgRegisterAsset_marshal :: "pulsar_runtime \<Rightarrow> bytes \<Rightarrow> api_MsgRegisterAsset option \<Rightarrow> bytes outcome" where
  "api_MsgRegisterAsset_marshal R buf m = (case m of None \<Rightarrow> Ok buf | Some x \<Rightarrow>
     rt_buffer buf (api_MsgRegisterAsset_size R m)
       (rt_put_string R 10 (api_mra_Issuer x)
       (rt_put_string R 18 (api_mra_AssetId x)
       (rt_put_string R 26 (api_mra_Name x)
       (rt_put_string R 34 (api_mra_Description x)
       (rt_put_string R 42 (api_mra_OraclePair x)
       (rt_put_string R 50 (api_mra_Bond x)
       (api_mra_unknownFields x))))))))"

definition api_MsgRegisterAsset_field :: "pulsar_runtime \<Rightarrow> bool \<Rightarrow> api_MsgRegisterAsset handler" where
  "api_MsgRegisterAsset_field R discardUnknown fieldNum wireType pre cur x =
     (if fieldNum = 1 then field_string wireType cur (\<lambda>v x. x\<lparr>api_mra_Issuer := v\<rparr>) x
      else if fieldNum = 2 then field_string wireType cur (\<lambda>v x. x\<lparr>api_mra_AssetId := v\<rparr>) x
      else if fieldNum = 3 then field_string wireType cur (\<lambda>v x. x\<lparr>api_mra_Name := v\<rparr>) x
      else if fieldNum = 4 then field_string wireType cur (\<lambda>v x. x\<lparr>api_mra_Description := v\<rparr>) x
      else if fieldNum = 5 then field_string wireType cur (\<lambda>v x. x\<lparr>api_mra_OraclePair := v\<rparr>) x
      else if fieldNum = 6 then field_string wireType cur (\<lambda>v x. x\<lparr>api_mra_Bond := v\<rparr>) x
      else field_unknown R discardUnknown pre (\<lambda>bz x. x\<lparr>api_mra_unknownFields := api_mra_unknownFields x @ bz\<rparr>) x)"

definition api_MsgRegisterAsset_unmarshal :: "pulsar_runtime \<Rightarrow> bool \<Rightarrow> bytes \<Rightarrow> api_MsgRegisterAsset option \<Rightarrow> api_MsgRegisterAsset option outcome" where
  "api_MsgRegisterAsset_unmarshal R discardUnknown dAtA m = (case m of None \<Rightarrow> Ok None | Some x \<Rightarrow>
     obind (unmarshal_loop (api_MsgRegisterAsset_field R discardUnknown) x 0 dAtA) (\<lambda>x. Ok (Some x)))"

lemma api_MsgRegisterAsset_at:
  "api_MsgRegisterAsset_Has (MsgRegisterAsset_fd ''issuer'') x = Ok (api_mra_Issuer x \<noteq> [])"
  "api_MsgRegisterAsset_Clear (MsgRegisterAsset_fd ''issuer'') x = Ok (x\<lparr>api_mra_Issuer := []\<rparr>)"
  "api_MsgRegisterAsset_Get (MsgRegisterAsset_fd ''issuer'') x = Ok (StringValue (api_mra_Issuer x))"
  "api_MsgRegisterAsset_Set (MsgRegisterAsset_fd ''issuer'') v x = obind (as_string v) (\<lambda>w. Ok (x\<lparr>api_mra_Issuer := w\<rparr>))"
  "api_MsgRegisterAsset_Has (MsgRegisterAsset_fd ''asset_id'') x = Ok (api_mra_AssetId x \<noteq> [])"
  "api_MsgRegisterAsset_Clear (MsgRegisterAsset_fd ''asset_id'') x = Ok (x\<lparr>api_mra_AssetId := []\<rparr>)"
  "api_MsgRegisterAsset_Get (MsgRegisterAsset_fd ''asset_id'') x = Ok (StringValue (api_mra_AssetId x))"
  "api_MsgRegisterAsset_Set (MsgRegisterAsset_fd ''asset_id'') v x = obind (as_string v) (\<lambda>w. Ok (x\<lparr>api_mra_AssetId := w\<rparr>))"
  "api_MsgRegisterAsset_Has (MsgRegisterAsset_fd ''name'') x = Ok (api_mra_Name x \<noteq> [])"
  "api_MsgRegisterAsset_Clear (MsgRegisterAsset_fd ''name'') x = Ok (x\<lparr>api_mra_Name := []\<rparr>)"
  "api_MsgRegisterAsset_Get (MsgRegisterAsset_fd ''name'') x = Ok (StringValue (api_mra_Name x))"
  "api_MsgRegisterAsset_Set (MsgRegisterAsset_fd ''name'') v x = obind (as_string v) (\<lambda>w. Ok (x\<lparr>api_mra_Name := w\<rparr>))"
  "api_MsgRegisterAsset_Has (MsgRegisterAsset_fd ''description'') x = Ok (api_mra_Description x \<noteq> [])"
  "api_MsgRegisterAsset_Clear (MsgRegisterAsset_fd ''description'') x = Ok (x\<lparr>api_mra_Description := []\<rparr>)"
  "api_MsgRegisterAsset_Get (MsgRegisterAsset_fd ''description'') x = Ok (StringValue (api_mra_Description x))"
  "api_MsgRegisterAsset_Set (MsgRegisterAsset_fd ''description'') v x = obind (as_string v) (\<lambda>w. Ok (x\<lparr>api_mra_Description := w\<rparr>))"
  "api_MsgRegisterAsset_Has (MsgRegisterAsset_fd ''oracle_pair'') x = Ok (api_mra_OraclePair x \<noteq> [])"
  "api_MsgRegisterAsset_Clear (MsgRegisterAsset_fd ''oracle_pair'') x = Ok (x\<lparr>api_mra_OraclePair := []\<rparr>)"
  "api_MsgRegisterAsset_Get (MsgRegisterAsset_fd ''oracle_pair'') x = Ok (StringValue (api_mra_OraclePair x))"
  "api_MsgRegisterAsset_Set (MsgRegisterAsset_fd ''oracle_pair'') v x = obind (as_string v) (\<lambda>w. Ok (x\<lparr>api_mra_OraclePair := w\<rparr>))"
  "api_MsgRegisterAsset_Has (MsgRegisterAsset_fd ''bond'') x = Ok (api_mra_Bond x \<noteq> [])"
  "api_MsgRegisterAsset_Clear (MsgRegisterAsset_fd ''bond'') x = Ok (x\<lparr>api_mra_Bond := []\<rparr>)"
  "api_MsgRegisterAsset_Get (MsgRegisterAsset_fd ''bond'') x = Ok (StringValue (api_mra_Bond x))"
  "api_MsgRegisterAsset_Set (MsgRegisterAsset_fd ''bond'') v x = obind (as_string v) (\<lambda>w. Ok (x\<lparr>api_mra_Bond := w\<rparr>))"
  by (simp_all add: api_MsgRegisterAsset_Has_def api_MsgRegisterAsset_Clear_def api_MsgRegisterAsset_Get_def api_MsgRegisterAsset_Set_def)

interpretation MsgRegisterAsset_reflect: reflected_message api_MsgRegisterAsset_fields api_MsgRegisterAsset_Range api_MsgRegisterAsset_Has api_MsgRegisterAsset_Clear api_MsgRegisterAsset_Get api_MsgRegisterAsset_Set api_mra_unknownFields zero_api_MsgRegisterAsset
proof
  show "distinct api_MsgRegisterAsset_fields" by (simp add: api_MsgRegisterAsset_fields_def)
next
  show "\<exists>v. api_MsgRegisterAsset_Get fd x = Ok v" if "fd \<in> set api_MsgRegisterAsset_fields" for fd x
    using that unfolding api_MsgRegisterAsset_fields_def field_cases
    by (elim disjE; clarsimp simp: api_MsgRegisterAsset_at zero_api_MsgRegisterAsset_def list_value_simps)
next
  show "\<exists>y'. api_MsgRegisterAsset_Set fd v y = Ok y' \<and> api_MsgRegisterAsset_Get fd y' = Ok v \<and> api_mra_unknownFields y' = api_mra_unknownFields y \<and>
      (\<forall>g\<in>set api_MsgRegisterAsset_fields. g \<noteq> fd \<longrightarrow> api_MsgRegisterAsset_Get g y' = api_MsgRegisterAsset_Get g y)"
    if "fd \<in> set api_MsgRegisterAsset_fields" "api_MsgRegisterAsset_Has fd x = Ok True" "api_MsgRegisterAsset_Get fd x = Ok v" for fd x v y
    using that unfolding api_MsgRegisterAsset_fields_def field_cases
    by (elim disjE; clarsimp simp: api_MsgRegisterAsset_at zero_api_MsgRegisterAsset_def list_value_simps)
next
  show "api_MsgRegisterAsset_Has fd x = Ok (api_MsgRegisterAsset_Get fd x \<noteq> api_MsgRegisterAsset_Get fd zero_api_MsgRegisterAsset)" if "fd \<in> set api_MsgRegisterAsset_fields" for fd x
    using that unfolding api_MsgRegisterAsset_fields_def field_cases
    by (elim disjE; clarsimp simp: api_MsgRegisterAsset_at zero_api_MsgRegisterAsset_def list_value_simps)
next
  show "\<exists>x'. api_MsgRegisterAsset_Clear fd x = Ok x' \<and> api_MsgRegisterAsset_Get fd x' = api_MsgRegisterAsset_Get fd zero_api_MsgRegisterAsset \<and> api_mra_unknownFields x' = api_mra_unknownFields x \<and>
      (\<forall>g\<in>set api_MsgRegisterAsset_fields. g \<noteq> fd \<longrightarrow> api_MsgRegisterAsset_Get g x' = api_MsgRegisterAsset_Get g x)" if "fd \<in> set api_MsgRegisterAsset_fields" for fd x
    using that unfolding api_MsgRegisterAsset_fields_def field_cases
    by (elim disjE; clarsimp simp: api_MsgRegisterAsset_at zero_api_MsgRegisterAsset_def list_value_simps)
next
  show "api_MsgRegisterAsset_Range f x = range_list f (populated api_MsgRegisterAsset_fields (\<lambda>fd. api_MsgRegisterAsset_Has fd x) (\<lambda>fd. api_MsgRegisterAsset_Get fd x))" for f x
    by (simp add: api_MsgRegisterAsset_at zero_api_MsgRegisterAsset_def api_MsgRegisterAsset_fields_def api_MsgRegisterAsset_Range_def list_value_def range_field_last range_field_Cons cong: if_cong split del: if_split)
next
  show "api_MsgRegisterAsset_Has fd x = Panic \<and> api_MsgRegisterAsset_Get fd x = Panic \<and> api_MsgRegisterAsset_Set fd v x = Panic \<and> api_MsgRegisterAsset_Clear fd x = Panic"
    if "fd \<notin> set api_MsgRegisterAsset_fields" for fd x v
    using that by (simp add: api_MsgRegisterAsset_fields_def api_MsgRegisterAsset_Has_def api_MsgRegisterAsset_Get_def api_MsgRegisterAsset_Set_def api_MsgRegisterAsset_Clear_def)
next
  fix x y :: api_MsgRegisterAsset
  assume eq: "\<And>fd. fd \<in> set api_MsgRegisterAsset_fields \<Longrightarrow> api_MsgRegisterAsset_Get fd x = api_MsgRegisterAsset_Get fd y" and u: "api_mra_unknownFields x = api_mra_unknownFields y"
  have "api_mra_Issuer x = api_mra_Issuer y"
    using eq [of "MsgRegisterAsset_fd ''issuer''"] by (simp add: api_MsgRegisterAsset_fields_def api_MsgRegisterAsset_at list_value_simps)
  moreover note u
  moreover
  have "api_mra_AssetId x = api_mra_AssetId y"
    using eq [of "MsgRegisterAsset_fd ''asset_id''"] by (simp add: api_MsgRegisterAsset_fields_def api_MsgRegisterAsset_at list_value_simps)
  moreover
  have "api_mra_Name x = api_mra_Name y"
    using eq [of "MsgRegisterAsset_fd ''name''"] by (simp add: api_MsgRegisterAsset_fields_def api_MsgRegisterAsset_at list_value_simps)
  moreover
  have "api_mra_Description x = api_mra_Description y"
    using eq [of "MsgRegisterAsset_fd ''description''"] by (simp add: api_MsgRegisterAsset_fields_def api_MsgRegisterAsset_at list_value_simps)
  moreover
  have "api_mra_OraclePair x = api_mra_OraclePair y"
    using eq [of "MsgRegisterAsset_fd ''oracle_pair''"] by (simp add: api_MsgRegisterAsset_fields_def api_MsgRegisterAsset_at list_value_simps)
  moreover
  have "api_mra_Bond x = api_mra_Bond y"
    using eq [of "MsgRegisterAsset_fd ''bond''"] by (simp add: api_MsgRegisterAsset_fields_def api_MsgRegisterAsset_at list_value_simps)
  ultimately show "x = y" by (simp add: api_MsgRegisterAsset.equality)
qed

text \<open>The values a client's MsgRegisterAsset holds: Go integers, and no field it does not know.\<close>

definition api_MsgRegisterAsset_wf :: "pulsar_runtime \<Rightarrow> api_MsgRegisterAsset \<Rightarrow> bool" where
  "api_MsgRegisterAsset_wf R m \<longleftrightarrow> api_mra_unknownFields m = [] \<and> api_MsgRegisterAsset_size R (Some m) < 2 ^ 63"

lemma api_MsgRegisterAsset_handler:
  "api_MsgRegisterAsset_field R discardUnknown 1 2 pre cur x = field_string 2 cur (\<lambda>v x. x\<lparr>api_mra_Issuer := v\<rparr>) x"
  "api_MsgRegisterAsset_field R discardUnknown 2 2 pre cur x = field_string 2 cur (\<lambda>v x. x\<lparr>api_mra_AssetId := v\<rparr>) x"
  "api_MsgRegisterAsset_field R discardUnknown 3 2 pre cur x = field_string 2 cur (\<lambda>v x. x\<lparr>api_mra_Name := v\<rparr>) x"
  "api_MsgRegisterAsset_field R discardUnknown 4 2 pre cur x = field_string 2 cur (\<lambda>v x. x\<lparr>api_mra_Description := v\<rparr>) x"
  "api_MsgRegisterAsset_field R discardUnknown 5 2 pre cur x = field_string 2 cur (\<lambda>v x. x\<lparr>api_mra_OraclePair := v\<rparr>) x"
  "api_MsgRegisterAsset_field R discardUnknown 6 2 pre cur x = field_string 2 cur (\<lambda>v x. x\<lparr>api_mra_Bond := v\<rparr>) x"
  by (simp_all add: api_MsgRegisterAsset_field_def)

lemmas api_MsgRegisterAsset_steps =
  loop_string [where h = "api_MsgRegisterAsset_field R discardUnknown", OF api_MsgRegisterAsset_handler(1)]
  loop_string [where h = "api_MsgRegisterAsset_field R discardUnknown", OF api_MsgRegisterAsset_handler(2)]
  loop_string [where h = "api_MsgRegisterAsset_field R discardUnknown", OF api_MsgRegisterAsset_handler(3)]
  loop_string [where h = "api_MsgRegisterAsset_field R discardUnknown", OF api_MsgRegisterAsset_handler(4)]
  loop_string [where h = "api_MsgRegisterAsset_field R discardUnknown", OF api_MsgRegisterAsset_handler(5)]
  loop_string [where h = "api_MsgRegisterAsset_field R discardUnknown", OF api_MsgRegisterAsset_handler(6)]
  for R discardUnknown

lemma api_MsgRegisterAsset_roundtrip:
  assumes R: "runtime_laws R" and wf: "api_MsgRegisterAsset_wf R m"
  shows "\<exists>bz. (\<forall>buf. api_MsgRegisterAsset_marshal R buf (Some m) = Ok (buf @ bz)) \<and> length bz = api_MsgRegisterAsset_size R (Some m) \<and>
           api_MsgRegisterAsset_unmarshal R discardUnknown bz (Some zero_api_MsgRegisterAsset) = Ok (Some m)"
proof -
  have sz: "rt_size_string R (api_mra_Issuer m) + rt_size_string R (api_mra_AssetId m) + rt_size_string R (api_mra_Name m) + rt_size_string R (api_mra_Description m) + rt_size_string R (api_mra_OraclePair m) + rt_size_string R (api_mra_Bond m) < 2 ^ 63"
    using wf by (simp add: api_MsgRegisterAsset_wf_def api_MsgRegisterAsset_size_def)
  have l_Issuer: "length (api_mra_Issuer m) < 2 ^ 63" using sz rt_size_ge(1) [of "api_mra_Issuer m" R] by linarith
  have l_AssetId: "length (api_mra_AssetId m) < 2 ^ 63" using sz rt_size_ge(1) [of "api_mra_AssetId m" R] by linarith
  have l_Name: "length (api_mra_Name m) < 2 ^ 63" using sz rt_size_ge(1) [of "api_mra_Name m" R] by linarith
  have l_Description: "length (api_mra_Description m) < 2 ^ 63" using sz rt_size_ge(1) [of "api_mra_Description m" R] by linarith
  have l_OraclePair: "length (api_mra_OraclePair m) < 2 ^ 63" using sz rt_size_ge(1) [of "api_mra_OraclePair m" R] by linarith
  have l_Bond: "length (api_mra_Bond m) < 2 ^ 63" using sz rt_size_ge(1) [of "api_mra_Bond m" R] by linarith
  define bz where "bz = put_string 10 (api_mra_Issuer m)
       (put_string 18 (api_mra_AssetId m)
       (put_string 26 (api_mra_Name m)
       (put_string 34 (api_mra_Description m)
       (put_string 42 (api_mra_OraclePair m)
       (put_string 50 (api_mra_Bond m)
       [])))))"
  have len: "length bz = api_MsgRegisterAsset_size R (Some m)"
    using wf by (simp add: bz_def api_MsgRegisterAsset_size_def rt_size_eq(3) [OF R] rt_size_eq(2) [OF R l_Issuer] rt_put_eq(2) [OF R l_Issuer] rt_size_eq(2) [OF R l_AssetId] rt_put_eq(2) [OF R l_AssetId] rt_size_eq(2) [OF R l_Name] rt_put_eq(2) [OF R l_Name] rt_size_eq(2) [OF R l_Description] rt_put_eq(2) [OF R l_Description] rt_size_eq(2) [OF R l_OraclePair] rt_put_eq(2) [OF R l_OraclePair] rt_size_eq(2) [OF R l_Bond] rt_put_eq(2) [OF R l_Bond] api_MsgRegisterAsset_wf_def)
  have lt: "length bz < 2 ^ 63" using wf by (simp add: len api_MsgRegisterAsset_wf_def)
  have "api_MsgRegisterAsset_marshal R buf (Some m) = Ok (buf @ bz)" for buf
  proof -
    have "api_MsgRegisterAsset_marshal R buf (Some m) = rt_buffer buf (api_MsgRegisterAsset_size R (Some m)) bz"
      using wf by (simp add: api_MsgRegisterAsset_marshal_def bz_def rt_put_eq(3) [OF R] rt_size_eq(2) [OF R l_Issuer] rt_put_eq(2) [OF R l_Issuer] rt_size_eq(2) [OF R l_AssetId] rt_put_eq(2) [OF R l_AssetId] rt_size_eq(2) [OF R l_Name] rt_put_eq(2) [OF R l_Name] rt_size_eq(2) [OF R l_Description] rt_put_eq(2) [OF R l_Description] rt_size_eq(2) [OF R l_OraclePair] rt_put_eq(2) [OF R l_OraclePair] rt_size_eq(2) [OF R l_Bond] rt_put_eq(2) [OF R l_Bond] api_MsgRegisterAsset_wf_def)
    then show ?thesis by (simp add: rt_buffer_exact len)
  qed
  moreover have "api_MsgRegisterAsset_unmarshal R discardUnknown bz (Some zero_api_MsgRegisterAsset) = Ok (Some m)"
    using wf lt
    by (simp add: api_MsgRegisterAsset_unmarshal_def bz_def api_MsgRegisterAsset_wf_def api_MsgRegisterAsset_steps  fits_int_def zero_api_MsgRegisterAsset_def )
  ultimately show ?thesis using len by blast
qed

interpretation MsgRegisterAsset_api_codec: message_codec "api_MsgRegisterAsset_size R" "api_MsgRegisterAsset_marshal R []" "\<lambda>bz. api_MsgRegisterAsset_unmarshal R discardUnknown bz (Some zero_api_MsgRegisterAsset)"
    "\<lambda>m. runtime_laws R \<and> (case m of None \<Rightarrow> False | Some x \<Rightarrow> api_MsgRegisterAsset_wf R x)" for R discardUnknown
  by unfold_locales (use api_MsgRegisterAsset_roundtrip in \<open>fastforce split: option.splits\<close>)

subsection \<open>MsgMintRWA\<close>

record api_MsgMintRWA =
  api_mmr_Issuer :: string
  api_mmr_AssetId :: string
  api_mmr_Notional :: string
  api_mmr_unknownFields :: bytes

definition zero_api_MsgMintRWA :: api_MsgMintRWA where
  "zero_api_MsgMintRWA = \<lparr>api_mmr_Issuer = [], api_mmr_AssetId = [], api_mmr_Notional = [], api_mmr_unknownFields = []\<rparr>"

definition MsgMintRWA_fd :: "string \<Rightarrow> string" where
  "MsgMintRWA_fd n = ''vertix.rwa.v1.MsgMintRWA.'' @ n"

lemma MsgMintRWA_fd_inject [simp]: "MsgMintRWA_fd a = MsgMintRWA_fd b \<longleftrightarrow> a = b"
  by (simp add: MsgMintRWA_fd_def)

definition api_MsgMintRWA_fields :: "string list" where
  "api_MsgMintRWA_fields = map MsgMintRWA_fd [''issuer'', ''asset_id'', ''notional'']"

definition api_MsgMintRWA_Range ::
    "(string \<Rightarrow> 'v reflect_value \<Rightarrow> 's \<Rightarrow> (bool \<times> 's) outcome) \<Rightarrow> api_MsgMintRWA \<Rightarrow> 's \<Rightarrow> 's outcome" where
  "api_MsgMintRWA_Range f x =
     range_field (api_mmr_Issuer x \<noteq> []) (MsgMintRWA_fd ''issuer'') (StringValue (api_mmr_Issuer x)) f
      (range_field (api_mmr_AssetId x \<noteq> []) (MsgMintRWA_fd ''asset_id'') (StringValue (api_mmr_AssetId x)) f
      (range_field (api_mmr_Notional x \<noteq> []) (MsgMintRWA_fd ''notional'') (StringValue (api_mmr_Notional x)) f
      Ok))"

definition api_MsgMintRWA_Has :: "string \<Rightarrow> api_MsgMintRWA \<Rightarrow> bool outcome" where
  "api_MsgMintRWA_Has fd x =
     (if fd = MsgMintRWA_fd ''issuer'' then Ok (api_mmr_Issuer x \<noteq> [])
      else if fd = MsgMintRWA_fd ''asset_id'' then Ok (api_mmr_AssetId x \<noteq> [])
      else if fd = MsgMintRWA_fd ''notional'' then Ok (api_mmr_Notional x \<noteq> [])
      else Panic)"

definition api_MsgMintRWA_Clear :: "string \<Rightarrow> api_MsgMintRWA \<Rightarrow> api_MsgMintRWA outcome" where
  "api_MsgMintRWA_Clear fd x =
     (if fd = MsgMintRWA_fd ''issuer'' then Ok (x\<lparr>api_mmr_Issuer := []\<rparr>)
      else if fd = MsgMintRWA_fd ''asset_id'' then Ok (x\<lparr>api_mmr_AssetId := []\<rparr>)
      else if fd = MsgMintRWA_fd ''notional'' then Ok (x\<lparr>api_mmr_Notional := []\<rparr>)
      else Panic)"

definition api_MsgMintRWA_Get :: "string \<Rightarrow> api_MsgMintRWA \<Rightarrow> 'v reflect_value outcome" where
  "api_MsgMintRWA_Get fd x =
     (if fd = MsgMintRWA_fd ''issuer'' then Ok (StringValue (api_mmr_Issuer x))
      else if fd = MsgMintRWA_fd ''asset_id'' then Ok (StringValue (api_mmr_AssetId x))
      else if fd = MsgMintRWA_fd ''notional'' then Ok (StringValue (api_mmr_Notional x))
      else Panic)"

definition api_MsgMintRWA_Set :: "string \<Rightarrow> 'v reflect_value \<Rightarrow> api_MsgMintRWA \<Rightarrow> api_MsgMintRWA outcome" where
  "api_MsgMintRWA_Set fd v x =
     (if fd = MsgMintRWA_fd ''issuer'' then obind (as_string v) (\<lambda>w. Ok (x\<lparr>api_mmr_Issuer := w\<rparr>))
      else if fd = MsgMintRWA_fd ''asset_id'' then obind (as_string v) (\<lambda>w. Ok (x\<lparr>api_mmr_AssetId := w\<rparr>))
      else if fd = MsgMintRWA_fd ''notional'' then obind (as_string v) (\<lambda>w. Ok (x\<lparr>api_mmr_Notional := w\<rparr>))
      else Panic)"

definition api_MsgMintRWA_size :: "pulsar_runtime \<Rightarrow> api_MsgMintRWA option \<Rightarrow> nat" where
  "api_MsgMintRWA_size R m = (case m of None \<Rightarrow> 0 | Some x \<Rightarrow>
     rt_size_string R (api_mmr_Issuer x) +
     rt_size_string R (api_mmr_AssetId x) +
     rt_size_string R (api_mmr_Notional x) + length (api_mmr_unknownFields x))"

definition api_MsgMintRWA_marshal :: "pulsar_runtime \<Rightarrow> bytes \<Rightarrow> api_MsgMintRWA option \<Rightarrow> bytes outcome" where
  "api_MsgMintRWA_marshal R buf m = (case m of None \<Rightarrow> Ok buf | Some x \<Rightarrow>
     rt_buffer buf (api_MsgMintRWA_size R m)
       (rt_put_string R 10 (api_mmr_Issuer x)
       (rt_put_string R 18 (api_mmr_AssetId x)
       (rt_put_string R 26 (api_mmr_Notional x)
       (api_mmr_unknownFields x)))))"

definition api_MsgMintRWA_field :: "pulsar_runtime \<Rightarrow> bool \<Rightarrow> api_MsgMintRWA handler" where
  "api_MsgMintRWA_field R discardUnknown fieldNum wireType pre cur x =
     (if fieldNum = 1 then field_string wireType cur (\<lambda>v x. x\<lparr>api_mmr_Issuer := v\<rparr>) x
      else if fieldNum = 2 then field_string wireType cur (\<lambda>v x. x\<lparr>api_mmr_AssetId := v\<rparr>) x
      else if fieldNum = 3 then field_string wireType cur (\<lambda>v x. x\<lparr>api_mmr_Notional := v\<rparr>) x
      else field_unknown R discardUnknown pre (\<lambda>bz x. x\<lparr>api_mmr_unknownFields := api_mmr_unknownFields x @ bz\<rparr>) x)"

definition api_MsgMintRWA_unmarshal :: "pulsar_runtime \<Rightarrow> bool \<Rightarrow> bytes \<Rightarrow> api_MsgMintRWA option \<Rightarrow> api_MsgMintRWA option outcome" where
  "api_MsgMintRWA_unmarshal R discardUnknown dAtA m = (case m of None \<Rightarrow> Ok None | Some x \<Rightarrow>
     obind (unmarshal_loop (api_MsgMintRWA_field R discardUnknown) x 0 dAtA) (\<lambda>x. Ok (Some x)))"

lemma api_MsgMintRWA_at:
  "api_MsgMintRWA_Has (MsgMintRWA_fd ''issuer'') x = Ok (api_mmr_Issuer x \<noteq> [])"
  "api_MsgMintRWA_Clear (MsgMintRWA_fd ''issuer'') x = Ok (x\<lparr>api_mmr_Issuer := []\<rparr>)"
  "api_MsgMintRWA_Get (MsgMintRWA_fd ''issuer'') x = Ok (StringValue (api_mmr_Issuer x))"
  "api_MsgMintRWA_Set (MsgMintRWA_fd ''issuer'') v x = obind (as_string v) (\<lambda>w. Ok (x\<lparr>api_mmr_Issuer := w\<rparr>))"
  "api_MsgMintRWA_Has (MsgMintRWA_fd ''asset_id'') x = Ok (api_mmr_AssetId x \<noteq> [])"
  "api_MsgMintRWA_Clear (MsgMintRWA_fd ''asset_id'') x = Ok (x\<lparr>api_mmr_AssetId := []\<rparr>)"
  "api_MsgMintRWA_Get (MsgMintRWA_fd ''asset_id'') x = Ok (StringValue (api_mmr_AssetId x))"
  "api_MsgMintRWA_Set (MsgMintRWA_fd ''asset_id'') v x = obind (as_string v) (\<lambda>w. Ok (x\<lparr>api_mmr_AssetId := w\<rparr>))"
  "api_MsgMintRWA_Has (MsgMintRWA_fd ''notional'') x = Ok (api_mmr_Notional x \<noteq> [])"
  "api_MsgMintRWA_Clear (MsgMintRWA_fd ''notional'') x = Ok (x\<lparr>api_mmr_Notional := []\<rparr>)"
  "api_MsgMintRWA_Get (MsgMintRWA_fd ''notional'') x = Ok (StringValue (api_mmr_Notional x))"
  "api_MsgMintRWA_Set (MsgMintRWA_fd ''notional'') v x = obind (as_string v) (\<lambda>w. Ok (x\<lparr>api_mmr_Notional := w\<rparr>))"
  by (simp_all add: api_MsgMintRWA_Has_def api_MsgMintRWA_Clear_def api_MsgMintRWA_Get_def api_MsgMintRWA_Set_def)

interpretation MsgMintRWA_reflect: reflected_message api_MsgMintRWA_fields api_MsgMintRWA_Range api_MsgMintRWA_Has api_MsgMintRWA_Clear api_MsgMintRWA_Get api_MsgMintRWA_Set api_mmr_unknownFields zero_api_MsgMintRWA
proof
  show "distinct api_MsgMintRWA_fields" by (simp add: api_MsgMintRWA_fields_def)
next
  show "\<exists>v. api_MsgMintRWA_Get fd x = Ok v" if "fd \<in> set api_MsgMintRWA_fields" for fd x
    using that unfolding api_MsgMintRWA_fields_def field_cases
    by (elim disjE; clarsimp simp: api_MsgMintRWA_at zero_api_MsgMintRWA_def list_value_simps)
next
  show "\<exists>y'. api_MsgMintRWA_Set fd v y = Ok y' \<and> api_MsgMintRWA_Get fd y' = Ok v \<and> api_mmr_unknownFields y' = api_mmr_unknownFields y \<and>
      (\<forall>g\<in>set api_MsgMintRWA_fields. g \<noteq> fd \<longrightarrow> api_MsgMintRWA_Get g y' = api_MsgMintRWA_Get g y)"
    if "fd \<in> set api_MsgMintRWA_fields" "api_MsgMintRWA_Has fd x = Ok True" "api_MsgMintRWA_Get fd x = Ok v" for fd x v y
    using that unfolding api_MsgMintRWA_fields_def field_cases
    by (elim disjE; clarsimp simp: api_MsgMintRWA_at zero_api_MsgMintRWA_def list_value_simps)
next
  show "api_MsgMintRWA_Has fd x = Ok (api_MsgMintRWA_Get fd x \<noteq> api_MsgMintRWA_Get fd zero_api_MsgMintRWA)" if "fd \<in> set api_MsgMintRWA_fields" for fd x
    using that unfolding api_MsgMintRWA_fields_def field_cases
    by (elim disjE; clarsimp simp: api_MsgMintRWA_at zero_api_MsgMintRWA_def list_value_simps)
next
  show "\<exists>x'. api_MsgMintRWA_Clear fd x = Ok x' \<and> api_MsgMintRWA_Get fd x' = api_MsgMintRWA_Get fd zero_api_MsgMintRWA \<and> api_mmr_unknownFields x' = api_mmr_unknownFields x \<and>
      (\<forall>g\<in>set api_MsgMintRWA_fields. g \<noteq> fd \<longrightarrow> api_MsgMintRWA_Get g x' = api_MsgMintRWA_Get g x)" if "fd \<in> set api_MsgMintRWA_fields" for fd x
    using that unfolding api_MsgMintRWA_fields_def field_cases
    by (elim disjE; clarsimp simp: api_MsgMintRWA_at zero_api_MsgMintRWA_def list_value_simps)
next
  show "api_MsgMintRWA_Range f x = range_list f (populated api_MsgMintRWA_fields (\<lambda>fd. api_MsgMintRWA_Has fd x) (\<lambda>fd. api_MsgMintRWA_Get fd x))" for f x
    by (simp add: api_MsgMintRWA_at zero_api_MsgMintRWA_def api_MsgMintRWA_fields_def api_MsgMintRWA_Range_def list_value_def range_field_last range_field_Cons cong: if_cong split del: if_split)
next
  show "api_MsgMintRWA_Has fd x = Panic \<and> api_MsgMintRWA_Get fd x = Panic \<and> api_MsgMintRWA_Set fd v x = Panic \<and> api_MsgMintRWA_Clear fd x = Panic"
    if "fd \<notin> set api_MsgMintRWA_fields" for fd x v
    using that by (simp add: api_MsgMintRWA_fields_def api_MsgMintRWA_Has_def api_MsgMintRWA_Get_def api_MsgMintRWA_Set_def api_MsgMintRWA_Clear_def)
next
  fix x y :: api_MsgMintRWA
  assume eq: "\<And>fd. fd \<in> set api_MsgMintRWA_fields \<Longrightarrow> api_MsgMintRWA_Get fd x = api_MsgMintRWA_Get fd y" and u: "api_mmr_unknownFields x = api_mmr_unknownFields y"
  have "api_mmr_Issuer x = api_mmr_Issuer y"
    using eq [of "MsgMintRWA_fd ''issuer''"] by (simp add: api_MsgMintRWA_fields_def api_MsgMintRWA_at list_value_simps)
  moreover note u
  moreover
  have "api_mmr_AssetId x = api_mmr_AssetId y"
    using eq [of "MsgMintRWA_fd ''asset_id''"] by (simp add: api_MsgMintRWA_fields_def api_MsgMintRWA_at list_value_simps)
  moreover
  have "api_mmr_Notional x = api_mmr_Notional y"
    using eq [of "MsgMintRWA_fd ''notional''"] by (simp add: api_MsgMintRWA_fields_def api_MsgMintRWA_at list_value_simps)
  ultimately show "x = y" by (simp add: api_MsgMintRWA.equality)
qed

text \<open>The values a client's MsgMintRWA holds: Go integers, and no field it does not know.\<close>

definition api_MsgMintRWA_wf :: "pulsar_runtime \<Rightarrow> api_MsgMintRWA \<Rightarrow> bool" where
  "api_MsgMintRWA_wf R m \<longleftrightarrow> api_mmr_unknownFields m = [] \<and> api_MsgMintRWA_size R (Some m) < 2 ^ 63"

lemma api_MsgMintRWA_handler:
  "api_MsgMintRWA_field R discardUnknown 1 2 pre cur x = field_string 2 cur (\<lambda>v x. x\<lparr>api_mmr_Issuer := v\<rparr>) x"
  "api_MsgMintRWA_field R discardUnknown 2 2 pre cur x = field_string 2 cur (\<lambda>v x. x\<lparr>api_mmr_AssetId := v\<rparr>) x"
  "api_MsgMintRWA_field R discardUnknown 3 2 pre cur x = field_string 2 cur (\<lambda>v x. x\<lparr>api_mmr_Notional := v\<rparr>) x"
  by (simp_all add: api_MsgMintRWA_field_def)

lemmas api_MsgMintRWA_steps =
  loop_string [where h = "api_MsgMintRWA_field R discardUnknown", OF api_MsgMintRWA_handler(1)]
  loop_string [where h = "api_MsgMintRWA_field R discardUnknown", OF api_MsgMintRWA_handler(2)]
  loop_string [where h = "api_MsgMintRWA_field R discardUnknown", OF api_MsgMintRWA_handler(3)]
  for R discardUnknown

lemma api_MsgMintRWA_roundtrip:
  assumes R: "runtime_laws R" and wf: "api_MsgMintRWA_wf R m"
  shows "\<exists>bz. (\<forall>buf. api_MsgMintRWA_marshal R buf (Some m) = Ok (buf @ bz)) \<and> length bz = api_MsgMintRWA_size R (Some m) \<and>
           api_MsgMintRWA_unmarshal R discardUnknown bz (Some zero_api_MsgMintRWA) = Ok (Some m)"
proof -
  have sz: "rt_size_string R (api_mmr_Issuer m) + rt_size_string R (api_mmr_AssetId m) + rt_size_string R (api_mmr_Notional m) < 2 ^ 63"
    using wf by (simp add: api_MsgMintRWA_wf_def api_MsgMintRWA_size_def)
  have l_Issuer: "length (api_mmr_Issuer m) < 2 ^ 63" using sz rt_size_ge(1) [of "api_mmr_Issuer m" R] by linarith
  have l_AssetId: "length (api_mmr_AssetId m) < 2 ^ 63" using sz rt_size_ge(1) [of "api_mmr_AssetId m" R] by linarith
  have l_Notional: "length (api_mmr_Notional m) < 2 ^ 63" using sz rt_size_ge(1) [of "api_mmr_Notional m" R] by linarith
  define bz where "bz = put_string 10 (api_mmr_Issuer m)
       (put_string 18 (api_mmr_AssetId m)
       (put_string 26 (api_mmr_Notional m)
       []))"
  have len: "length bz = api_MsgMintRWA_size R (Some m)"
    using wf by (simp add: bz_def api_MsgMintRWA_size_def rt_size_eq(3) [OF R] rt_size_eq(2) [OF R l_Issuer] rt_put_eq(2) [OF R l_Issuer] rt_size_eq(2) [OF R l_AssetId] rt_put_eq(2) [OF R l_AssetId] rt_size_eq(2) [OF R l_Notional] rt_put_eq(2) [OF R l_Notional] api_MsgMintRWA_wf_def)
  have lt: "length bz < 2 ^ 63" using wf by (simp add: len api_MsgMintRWA_wf_def)
  have "api_MsgMintRWA_marshal R buf (Some m) = Ok (buf @ bz)" for buf
  proof -
    have "api_MsgMintRWA_marshal R buf (Some m) = rt_buffer buf (api_MsgMintRWA_size R (Some m)) bz"
      using wf by (simp add: api_MsgMintRWA_marshal_def bz_def rt_put_eq(3) [OF R] rt_size_eq(2) [OF R l_Issuer] rt_put_eq(2) [OF R l_Issuer] rt_size_eq(2) [OF R l_AssetId] rt_put_eq(2) [OF R l_AssetId] rt_size_eq(2) [OF R l_Notional] rt_put_eq(2) [OF R l_Notional] api_MsgMintRWA_wf_def)
    then show ?thesis by (simp add: rt_buffer_exact len)
  qed
  moreover have "api_MsgMintRWA_unmarshal R discardUnknown bz (Some zero_api_MsgMintRWA) = Ok (Some m)"
    using wf lt
    by (simp add: api_MsgMintRWA_unmarshal_def bz_def api_MsgMintRWA_wf_def api_MsgMintRWA_steps  fits_int_def zero_api_MsgMintRWA_def )
  ultimately show ?thesis using len by blast
qed

interpretation MsgMintRWA_api_codec: message_codec "api_MsgMintRWA_size R" "api_MsgMintRWA_marshal R []" "\<lambda>bz. api_MsgMintRWA_unmarshal R discardUnknown bz (Some zero_api_MsgMintRWA)"
    "\<lambda>m. runtime_laws R \<and> (case m of None \<Rightarrow> False | Some x \<Rightarrow> api_MsgMintRWA_wf R x)" for R discardUnknown
  by unfold_locales (use api_MsgMintRWA_roundtrip in \<open>fastforce split: option.splits\<close>)

subsection \<open>MsgTransferRWA\<close>

record api_MsgTransferRWA =
  api_mtr_Sender :: string
  api_mtr_Recipient :: string
  api_mtr_AssetId :: string
  api_mtr_Amount :: string
  api_mtr_unknownFields :: bytes

definition zero_api_MsgTransferRWA :: api_MsgTransferRWA where
  "zero_api_MsgTransferRWA = \<lparr>api_mtr_Sender = [], api_mtr_Recipient = [], api_mtr_AssetId = [], api_mtr_Amount = [], api_mtr_unknownFields = []\<rparr>"

definition MsgTransferRWA_fd :: "string \<Rightarrow> string" where
  "MsgTransferRWA_fd n = ''vertix.rwa.v1.MsgTransferRWA.'' @ n"

lemma MsgTransferRWA_fd_inject [simp]: "MsgTransferRWA_fd a = MsgTransferRWA_fd b \<longleftrightarrow> a = b"
  by (simp add: MsgTransferRWA_fd_def)

definition api_MsgTransferRWA_fields :: "string list" where
  "api_MsgTransferRWA_fields = map MsgTransferRWA_fd [''sender'', ''recipient'', ''asset_id'', ''amount'']"

definition api_MsgTransferRWA_Range ::
    "(string \<Rightarrow> 'v reflect_value \<Rightarrow> 's \<Rightarrow> (bool \<times> 's) outcome) \<Rightarrow> api_MsgTransferRWA \<Rightarrow> 's \<Rightarrow> 's outcome" where
  "api_MsgTransferRWA_Range f x =
     range_field (api_mtr_Sender x \<noteq> []) (MsgTransferRWA_fd ''sender'') (StringValue (api_mtr_Sender x)) f
      (range_field (api_mtr_Recipient x \<noteq> []) (MsgTransferRWA_fd ''recipient'') (StringValue (api_mtr_Recipient x)) f
      (range_field (api_mtr_AssetId x \<noteq> []) (MsgTransferRWA_fd ''asset_id'') (StringValue (api_mtr_AssetId x)) f
      (range_field (api_mtr_Amount x \<noteq> []) (MsgTransferRWA_fd ''amount'') (StringValue (api_mtr_Amount x)) f
      Ok)))"

definition api_MsgTransferRWA_Has :: "string \<Rightarrow> api_MsgTransferRWA \<Rightarrow> bool outcome" where
  "api_MsgTransferRWA_Has fd x =
     (if fd = MsgTransferRWA_fd ''sender'' then Ok (api_mtr_Sender x \<noteq> [])
      else if fd = MsgTransferRWA_fd ''recipient'' then Ok (api_mtr_Recipient x \<noteq> [])
      else if fd = MsgTransferRWA_fd ''asset_id'' then Ok (api_mtr_AssetId x \<noteq> [])
      else if fd = MsgTransferRWA_fd ''amount'' then Ok (api_mtr_Amount x \<noteq> [])
      else Panic)"

definition api_MsgTransferRWA_Clear :: "string \<Rightarrow> api_MsgTransferRWA \<Rightarrow> api_MsgTransferRWA outcome" where
  "api_MsgTransferRWA_Clear fd x =
     (if fd = MsgTransferRWA_fd ''sender'' then Ok (x\<lparr>api_mtr_Sender := []\<rparr>)
      else if fd = MsgTransferRWA_fd ''recipient'' then Ok (x\<lparr>api_mtr_Recipient := []\<rparr>)
      else if fd = MsgTransferRWA_fd ''asset_id'' then Ok (x\<lparr>api_mtr_AssetId := []\<rparr>)
      else if fd = MsgTransferRWA_fd ''amount'' then Ok (x\<lparr>api_mtr_Amount := []\<rparr>)
      else Panic)"

definition api_MsgTransferRWA_Get :: "string \<Rightarrow> api_MsgTransferRWA \<Rightarrow> 'v reflect_value outcome" where
  "api_MsgTransferRWA_Get fd x =
     (if fd = MsgTransferRWA_fd ''sender'' then Ok (StringValue (api_mtr_Sender x))
      else if fd = MsgTransferRWA_fd ''recipient'' then Ok (StringValue (api_mtr_Recipient x))
      else if fd = MsgTransferRWA_fd ''asset_id'' then Ok (StringValue (api_mtr_AssetId x))
      else if fd = MsgTransferRWA_fd ''amount'' then Ok (StringValue (api_mtr_Amount x))
      else Panic)"

definition api_MsgTransferRWA_Set :: "string \<Rightarrow> 'v reflect_value \<Rightarrow> api_MsgTransferRWA \<Rightarrow> api_MsgTransferRWA outcome" where
  "api_MsgTransferRWA_Set fd v x =
     (if fd = MsgTransferRWA_fd ''sender'' then obind (as_string v) (\<lambda>w. Ok (x\<lparr>api_mtr_Sender := w\<rparr>))
      else if fd = MsgTransferRWA_fd ''recipient'' then obind (as_string v) (\<lambda>w. Ok (x\<lparr>api_mtr_Recipient := w\<rparr>))
      else if fd = MsgTransferRWA_fd ''asset_id'' then obind (as_string v) (\<lambda>w. Ok (x\<lparr>api_mtr_AssetId := w\<rparr>))
      else if fd = MsgTransferRWA_fd ''amount'' then obind (as_string v) (\<lambda>w. Ok (x\<lparr>api_mtr_Amount := w\<rparr>))
      else Panic)"

definition api_MsgTransferRWA_size :: "pulsar_runtime \<Rightarrow> api_MsgTransferRWA option \<Rightarrow> nat" where
  "api_MsgTransferRWA_size R m = (case m of None \<Rightarrow> 0 | Some x \<Rightarrow>
     rt_size_string R (api_mtr_Sender x) +
     rt_size_string R (api_mtr_Recipient x) +
     rt_size_string R (api_mtr_AssetId x) +
     rt_size_string R (api_mtr_Amount x) + length (api_mtr_unknownFields x))"

definition api_MsgTransferRWA_marshal :: "pulsar_runtime \<Rightarrow> bytes \<Rightarrow> api_MsgTransferRWA option \<Rightarrow> bytes outcome" where
  "api_MsgTransferRWA_marshal R buf m = (case m of None \<Rightarrow> Ok buf | Some x \<Rightarrow>
     rt_buffer buf (api_MsgTransferRWA_size R m)
       (rt_put_string R 10 (api_mtr_Sender x)
       (rt_put_string R 18 (api_mtr_Recipient x)
       (rt_put_string R 26 (api_mtr_AssetId x)
       (rt_put_string R 34 (api_mtr_Amount x)
       (api_mtr_unknownFields x))))))"

definition api_MsgTransferRWA_field :: "pulsar_runtime \<Rightarrow> bool \<Rightarrow> api_MsgTransferRWA handler" where
  "api_MsgTransferRWA_field R discardUnknown fieldNum wireType pre cur x =
     (if fieldNum = 1 then field_string wireType cur (\<lambda>v x. x\<lparr>api_mtr_Sender := v\<rparr>) x
      else if fieldNum = 2 then field_string wireType cur (\<lambda>v x. x\<lparr>api_mtr_Recipient := v\<rparr>) x
      else if fieldNum = 3 then field_string wireType cur (\<lambda>v x. x\<lparr>api_mtr_AssetId := v\<rparr>) x
      else if fieldNum = 4 then field_string wireType cur (\<lambda>v x. x\<lparr>api_mtr_Amount := v\<rparr>) x
      else field_unknown R discardUnknown pre (\<lambda>bz x. x\<lparr>api_mtr_unknownFields := api_mtr_unknownFields x @ bz\<rparr>) x)"

definition api_MsgTransferRWA_unmarshal :: "pulsar_runtime \<Rightarrow> bool \<Rightarrow> bytes \<Rightarrow> api_MsgTransferRWA option \<Rightarrow> api_MsgTransferRWA option outcome" where
  "api_MsgTransferRWA_unmarshal R discardUnknown dAtA m = (case m of None \<Rightarrow> Ok None | Some x \<Rightarrow>
     obind (unmarshal_loop (api_MsgTransferRWA_field R discardUnknown) x 0 dAtA) (\<lambda>x. Ok (Some x)))"

lemma api_MsgTransferRWA_at:
  "api_MsgTransferRWA_Has (MsgTransferRWA_fd ''sender'') x = Ok (api_mtr_Sender x \<noteq> [])"
  "api_MsgTransferRWA_Clear (MsgTransferRWA_fd ''sender'') x = Ok (x\<lparr>api_mtr_Sender := []\<rparr>)"
  "api_MsgTransferRWA_Get (MsgTransferRWA_fd ''sender'') x = Ok (StringValue (api_mtr_Sender x))"
  "api_MsgTransferRWA_Set (MsgTransferRWA_fd ''sender'') v x = obind (as_string v) (\<lambda>w. Ok (x\<lparr>api_mtr_Sender := w\<rparr>))"
  "api_MsgTransferRWA_Has (MsgTransferRWA_fd ''recipient'') x = Ok (api_mtr_Recipient x \<noteq> [])"
  "api_MsgTransferRWA_Clear (MsgTransferRWA_fd ''recipient'') x = Ok (x\<lparr>api_mtr_Recipient := []\<rparr>)"
  "api_MsgTransferRWA_Get (MsgTransferRWA_fd ''recipient'') x = Ok (StringValue (api_mtr_Recipient x))"
  "api_MsgTransferRWA_Set (MsgTransferRWA_fd ''recipient'') v x = obind (as_string v) (\<lambda>w. Ok (x\<lparr>api_mtr_Recipient := w\<rparr>))"
  "api_MsgTransferRWA_Has (MsgTransferRWA_fd ''asset_id'') x = Ok (api_mtr_AssetId x \<noteq> [])"
  "api_MsgTransferRWA_Clear (MsgTransferRWA_fd ''asset_id'') x = Ok (x\<lparr>api_mtr_AssetId := []\<rparr>)"
  "api_MsgTransferRWA_Get (MsgTransferRWA_fd ''asset_id'') x = Ok (StringValue (api_mtr_AssetId x))"
  "api_MsgTransferRWA_Set (MsgTransferRWA_fd ''asset_id'') v x = obind (as_string v) (\<lambda>w. Ok (x\<lparr>api_mtr_AssetId := w\<rparr>))"
  "api_MsgTransferRWA_Has (MsgTransferRWA_fd ''amount'') x = Ok (api_mtr_Amount x \<noteq> [])"
  "api_MsgTransferRWA_Clear (MsgTransferRWA_fd ''amount'') x = Ok (x\<lparr>api_mtr_Amount := []\<rparr>)"
  "api_MsgTransferRWA_Get (MsgTransferRWA_fd ''amount'') x = Ok (StringValue (api_mtr_Amount x))"
  "api_MsgTransferRWA_Set (MsgTransferRWA_fd ''amount'') v x = obind (as_string v) (\<lambda>w. Ok (x\<lparr>api_mtr_Amount := w\<rparr>))"
  by (simp_all add: api_MsgTransferRWA_Has_def api_MsgTransferRWA_Clear_def api_MsgTransferRWA_Get_def api_MsgTransferRWA_Set_def)

interpretation MsgTransferRWA_reflect: reflected_message api_MsgTransferRWA_fields api_MsgTransferRWA_Range api_MsgTransferRWA_Has api_MsgTransferRWA_Clear api_MsgTransferRWA_Get api_MsgTransferRWA_Set api_mtr_unknownFields zero_api_MsgTransferRWA
proof
  show "distinct api_MsgTransferRWA_fields" by (simp add: api_MsgTransferRWA_fields_def)
next
  show "\<exists>v. api_MsgTransferRWA_Get fd x = Ok v" if "fd \<in> set api_MsgTransferRWA_fields" for fd x
    using that unfolding api_MsgTransferRWA_fields_def field_cases
    by (elim disjE; clarsimp simp: api_MsgTransferRWA_at zero_api_MsgTransferRWA_def list_value_simps)
next
  show "\<exists>y'. api_MsgTransferRWA_Set fd v y = Ok y' \<and> api_MsgTransferRWA_Get fd y' = Ok v \<and> api_mtr_unknownFields y' = api_mtr_unknownFields y \<and>
      (\<forall>g\<in>set api_MsgTransferRWA_fields. g \<noteq> fd \<longrightarrow> api_MsgTransferRWA_Get g y' = api_MsgTransferRWA_Get g y)"
    if "fd \<in> set api_MsgTransferRWA_fields" "api_MsgTransferRWA_Has fd x = Ok True" "api_MsgTransferRWA_Get fd x = Ok v" for fd x v y
    using that unfolding api_MsgTransferRWA_fields_def field_cases
    by (elim disjE; clarsimp simp: api_MsgTransferRWA_at zero_api_MsgTransferRWA_def list_value_simps)
next
  show "api_MsgTransferRWA_Has fd x = Ok (api_MsgTransferRWA_Get fd x \<noteq> api_MsgTransferRWA_Get fd zero_api_MsgTransferRWA)" if "fd \<in> set api_MsgTransferRWA_fields" for fd x
    using that unfolding api_MsgTransferRWA_fields_def field_cases
    by (elim disjE; clarsimp simp: api_MsgTransferRWA_at zero_api_MsgTransferRWA_def list_value_simps)
next
  show "\<exists>x'. api_MsgTransferRWA_Clear fd x = Ok x' \<and> api_MsgTransferRWA_Get fd x' = api_MsgTransferRWA_Get fd zero_api_MsgTransferRWA \<and> api_mtr_unknownFields x' = api_mtr_unknownFields x \<and>
      (\<forall>g\<in>set api_MsgTransferRWA_fields. g \<noteq> fd \<longrightarrow> api_MsgTransferRWA_Get g x' = api_MsgTransferRWA_Get g x)" if "fd \<in> set api_MsgTransferRWA_fields" for fd x
    using that unfolding api_MsgTransferRWA_fields_def field_cases
    by (elim disjE; clarsimp simp: api_MsgTransferRWA_at zero_api_MsgTransferRWA_def list_value_simps)
next
  show "api_MsgTransferRWA_Range f x = range_list f (populated api_MsgTransferRWA_fields (\<lambda>fd. api_MsgTransferRWA_Has fd x) (\<lambda>fd. api_MsgTransferRWA_Get fd x))" for f x
    by (simp add: api_MsgTransferRWA_at zero_api_MsgTransferRWA_def api_MsgTransferRWA_fields_def api_MsgTransferRWA_Range_def list_value_def range_field_last range_field_Cons cong: if_cong split del: if_split)
next
  show "api_MsgTransferRWA_Has fd x = Panic \<and> api_MsgTransferRWA_Get fd x = Panic \<and> api_MsgTransferRWA_Set fd v x = Panic \<and> api_MsgTransferRWA_Clear fd x = Panic"
    if "fd \<notin> set api_MsgTransferRWA_fields" for fd x v
    using that by (simp add: api_MsgTransferRWA_fields_def api_MsgTransferRWA_Has_def api_MsgTransferRWA_Get_def api_MsgTransferRWA_Set_def api_MsgTransferRWA_Clear_def)
next
  fix x y :: api_MsgTransferRWA
  assume eq: "\<And>fd. fd \<in> set api_MsgTransferRWA_fields \<Longrightarrow> api_MsgTransferRWA_Get fd x = api_MsgTransferRWA_Get fd y" and u: "api_mtr_unknownFields x = api_mtr_unknownFields y"
  have "api_mtr_Sender x = api_mtr_Sender y"
    using eq [of "MsgTransferRWA_fd ''sender''"] by (simp add: api_MsgTransferRWA_fields_def api_MsgTransferRWA_at list_value_simps)
  moreover note u
  moreover
  have "api_mtr_Recipient x = api_mtr_Recipient y"
    using eq [of "MsgTransferRWA_fd ''recipient''"] by (simp add: api_MsgTransferRWA_fields_def api_MsgTransferRWA_at list_value_simps)
  moreover
  have "api_mtr_AssetId x = api_mtr_AssetId y"
    using eq [of "MsgTransferRWA_fd ''asset_id''"] by (simp add: api_MsgTransferRWA_fields_def api_MsgTransferRWA_at list_value_simps)
  moreover
  have "api_mtr_Amount x = api_mtr_Amount y"
    using eq [of "MsgTransferRWA_fd ''amount''"] by (simp add: api_MsgTransferRWA_fields_def api_MsgTransferRWA_at list_value_simps)
  ultimately show "x = y" by (simp add: api_MsgTransferRWA.equality)
qed

text \<open>The values a client's MsgTransferRWA holds: Go integers, and no field it does not know.\<close>

definition api_MsgTransferRWA_wf :: "pulsar_runtime \<Rightarrow> api_MsgTransferRWA \<Rightarrow> bool" where
  "api_MsgTransferRWA_wf R m \<longleftrightarrow> api_mtr_unknownFields m = [] \<and> api_MsgTransferRWA_size R (Some m) < 2 ^ 63"

lemma api_MsgTransferRWA_handler:
  "api_MsgTransferRWA_field R discardUnknown 1 2 pre cur x = field_string 2 cur (\<lambda>v x. x\<lparr>api_mtr_Sender := v\<rparr>) x"
  "api_MsgTransferRWA_field R discardUnknown 2 2 pre cur x = field_string 2 cur (\<lambda>v x. x\<lparr>api_mtr_Recipient := v\<rparr>) x"
  "api_MsgTransferRWA_field R discardUnknown 3 2 pre cur x = field_string 2 cur (\<lambda>v x. x\<lparr>api_mtr_AssetId := v\<rparr>) x"
  "api_MsgTransferRWA_field R discardUnknown 4 2 pre cur x = field_string 2 cur (\<lambda>v x. x\<lparr>api_mtr_Amount := v\<rparr>) x"
  by (simp_all add: api_MsgTransferRWA_field_def)

lemmas api_MsgTransferRWA_steps =
  loop_string [where h = "api_MsgTransferRWA_field R discardUnknown", OF api_MsgTransferRWA_handler(1)]
  loop_string [where h = "api_MsgTransferRWA_field R discardUnknown", OF api_MsgTransferRWA_handler(2)]
  loop_string [where h = "api_MsgTransferRWA_field R discardUnknown", OF api_MsgTransferRWA_handler(3)]
  loop_string [where h = "api_MsgTransferRWA_field R discardUnknown", OF api_MsgTransferRWA_handler(4)]
  for R discardUnknown

lemma api_MsgTransferRWA_roundtrip:
  assumes R: "runtime_laws R" and wf: "api_MsgTransferRWA_wf R m"
  shows "\<exists>bz. (\<forall>buf. api_MsgTransferRWA_marshal R buf (Some m) = Ok (buf @ bz)) \<and> length bz = api_MsgTransferRWA_size R (Some m) \<and>
           api_MsgTransferRWA_unmarshal R discardUnknown bz (Some zero_api_MsgTransferRWA) = Ok (Some m)"
proof -
  have sz: "rt_size_string R (api_mtr_Sender m) + rt_size_string R (api_mtr_Recipient m) + rt_size_string R (api_mtr_AssetId m) + rt_size_string R (api_mtr_Amount m) < 2 ^ 63"
    using wf by (simp add: api_MsgTransferRWA_wf_def api_MsgTransferRWA_size_def)
  have l_Sender: "length (api_mtr_Sender m) < 2 ^ 63" using sz rt_size_ge(1) [of "api_mtr_Sender m" R] by linarith
  have l_Recipient: "length (api_mtr_Recipient m) < 2 ^ 63" using sz rt_size_ge(1) [of "api_mtr_Recipient m" R] by linarith
  have l_AssetId: "length (api_mtr_AssetId m) < 2 ^ 63" using sz rt_size_ge(1) [of "api_mtr_AssetId m" R] by linarith
  have l_Amount: "length (api_mtr_Amount m) < 2 ^ 63" using sz rt_size_ge(1) [of "api_mtr_Amount m" R] by linarith
  define bz where "bz = put_string 10 (api_mtr_Sender m)
       (put_string 18 (api_mtr_Recipient m)
       (put_string 26 (api_mtr_AssetId m)
       (put_string 34 (api_mtr_Amount m)
       [])))"
  have len: "length bz = api_MsgTransferRWA_size R (Some m)"
    using wf by (simp add: bz_def api_MsgTransferRWA_size_def rt_size_eq(3) [OF R] rt_size_eq(2) [OF R l_Sender] rt_put_eq(2) [OF R l_Sender] rt_size_eq(2) [OF R l_Recipient] rt_put_eq(2) [OF R l_Recipient] rt_size_eq(2) [OF R l_AssetId] rt_put_eq(2) [OF R l_AssetId] rt_size_eq(2) [OF R l_Amount] rt_put_eq(2) [OF R l_Amount] api_MsgTransferRWA_wf_def)
  have lt: "length bz < 2 ^ 63" using wf by (simp add: len api_MsgTransferRWA_wf_def)
  have "api_MsgTransferRWA_marshal R buf (Some m) = Ok (buf @ bz)" for buf
  proof -
    have "api_MsgTransferRWA_marshal R buf (Some m) = rt_buffer buf (api_MsgTransferRWA_size R (Some m)) bz"
      using wf by (simp add: api_MsgTransferRWA_marshal_def bz_def rt_put_eq(3) [OF R] rt_size_eq(2) [OF R l_Sender] rt_put_eq(2) [OF R l_Sender] rt_size_eq(2) [OF R l_Recipient] rt_put_eq(2) [OF R l_Recipient] rt_size_eq(2) [OF R l_AssetId] rt_put_eq(2) [OF R l_AssetId] rt_size_eq(2) [OF R l_Amount] rt_put_eq(2) [OF R l_Amount] api_MsgTransferRWA_wf_def)
    then show ?thesis by (simp add: rt_buffer_exact len)
  qed
  moreover have "api_MsgTransferRWA_unmarshal R discardUnknown bz (Some zero_api_MsgTransferRWA) = Ok (Some m)"
    using wf lt
    by (simp add: api_MsgTransferRWA_unmarshal_def bz_def api_MsgTransferRWA_wf_def api_MsgTransferRWA_steps  fits_int_def zero_api_MsgTransferRWA_def )
  ultimately show ?thesis using len by blast
qed

interpretation MsgTransferRWA_api_codec: message_codec "api_MsgTransferRWA_size R" "api_MsgTransferRWA_marshal R []" "\<lambda>bz. api_MsgTransferRWA_unmarshal R discardUnknown bz (Some zero_api_MsgTransferRWA)"
    "\<lambda>m. runtime_laws R \<and> (case m of None \<Rightarrow> False | Some x \<Rightarrow> api_MsgTransferRWA_wf R x)" for R discardUnknown
  by unfold_locales (use api_MsgTransferRWA_roundtrip in \<open>fastforce split: option.splits\<close>)

subsection \<open>MsgUpdateRestrictions\<close>

record api_MsgUpdateRestrictions =
  api_mur_Issuer :: string
  api_mur_AssetId :: string
  api_mur_AllowAll :: bool
  api_mur_AddAllow :: "string list"
  api_mur_DelAllow :: "string list"
  api_mur_AddDeny :: "string list"
  api_mur_DelDeny :: "string list"
  api_mur_unknownFields :: bytes

definition zero_api_MsgUpdateRestrictions :: api_MsgUpdateRestrictions where
  "zero_api_MsgUpdateRestrictions = \<lparr>api_mur_Issuer = [], api_mur_AssetId = [], api_mur_AllowAll = False, api_mur_AddAllow = [], api_mur_DelAllow = [], api_mur_AddDeny = [], api_mur_DelDeny = [], api_mur_unknownFields = []\<rparr>"

definition MsgUpdateRestrictions_fd :: "string \<Rightarrow> string" where
  "MsgUpdateRestrictions_fd n = ''vertix.rwa.v1.MsgUpdateRestrictions.'' @ n"

lemma MsgUpdateRestrictions_fd_inject [simp]: "MsgUpdateRestrictions_fd a = MsgUpdateRestrictions_fd b \<longleftrightarrow> a = b"
  by (simp add: MsgUpdateRestrictions_fd_def)

definition api_MsgUpdateRestrictions_fields :: "string list" where
  "api_MsgUpdateRestrictions_fields = map MsgUpdateRestrictions_fd [''issuer'', ''asset_id'', ''allow_all'', ''add_allow'', ''del_allow'', ''add_deny'', ''del_deny'']"

definition api_MsgUpdateRestrictions_Range ::
    "(string \<Rightarrow> 'v reflect_value \<Rightarrow> 's \<Rightarrow> (bool \<times> 's) outcome) \<Rightarrow> api_MsgUpdateRestrictions \<Rightarrow> 's \<Rightarrow> 's outcome" where
  "api_MsgUpdateRestrictions_Range f x =
     range_field (api_mur_Issuer x \<noteq> []) (MsgUpdateRestrictions_fd ''issuer'') (StringValue (api_mur_Issuer x)) f
      (range_field (api_mur_AssetId x \<noteq> []) (MsgUpdateRestrictions_fd ''asset_id'') (StringValue (api_mur_AssetId x)) f
      (range_field (api_mur_AllowAll x \<noteq> False) (MsgUpdateRestrictions_fd ''allow_all'') (BoolValue (api_mur_AllowAll x)) f
      (range_field (length (api_mur_AddAllow x) \<noteq> 0) (MsgUpdateRestrictions_fd ''add_allow'') (ListValue ''_MsgUpdateRestrictions_4_list'' (Some (api_mur_AddAllow x))) f
      (range_field (length (api_mur_DelAllow x) \<noteq> 0) (MsgUpdateRestrictions_fd ''del_allow'') (ListValue ''_MsgUpdateRestrictions_5_list'' (Some (api_mur_DelAllow x))) f
      (range_field (length (api_mur_AddDeny x) \<noteq> 0) (MsgUpdateRestrictions_fd ''add_deny'') (ListValue ''_MsgUpdateRestrictions_6_list'' (Some (api_mur_AddDeny x))) f
      (range_field (length (api_mur_DelDeny x) \<noteq> 0) (MsgUpdateRestrictions_fd ''del_deny'') (ListValue ''_MsgUpdateRestrictions_7_list'' (Some (api_mur_DelDeny x))) f
      Ok))))))"

definition api_MsgUpdateRestrictions_Has :: "string \<Rightarrow> api_MsgUpdateRestrictions \<Rightarrow> bool outcome" where
  "api_MsgUpdateRestrictions_Has fd x =
     (if fd = MsgUpdateRestrictions_fd ''issuer'' then Ok (api_mur_Issuer x \<noteq> [])
      else if fd = MsgUpdateRestrictions_fd ''asset_id'' then Ok (api_mur_AssetId x \<noteq> [])
      else if fd = MsgUpdateRestrictions_fd ''allow_all'' then Ok (api_mur_AllowAll x \<noteq> False)
      else if fd = MsgUpdateRestrictions_fd ''add_allow'' then Ok (length (api_mur_AddAllow x) \<noteq> 0)
      else if fd = MsgUpdateRestrictions_fd ''del_allow'' then Ok (length (api_mur_DelAllow x) \<noteq> 0)
      else if fd = MsgUpdateRestrictions_fd ''add_deny'' then Ok (length (api_mur_AddDeny x) \<noteq> 0)
      else if fd = MsgUpdateRestrictions_fd ''del_deny'' then Ok (length (api_mur_DelDeny x) \<noteq> 0)
      else Panic)"

definition api_MsgUpdateRestrictions_Clear :: "string \<Rightarrow> api_MsgUpdateRestrictions \<Rightarrow> api_MsgUpdateRestrictions outcome" where
  "api_MsgUpdateRestrictions_Clear fd x =
     (if fd = MsgUpdateRestrictions_fd ''issuer'' then Ok (x\<lparr>api_mur_Issuer := []\<rparr>)
      else if fd = MsgUpdateRestrictions_fd ''asset_id'' then Ok (x\<lparr>api_mur_AssetId := []\<rparr>)
      else if fd = MsgUpdateRestrictions_fd ''allow_all'' then Ok (x\<lparr>api_mur_AllowAll := False\<rparr>)
      else if fd = MsgUpdateRestrictions_fd ''add_allow'' then Ok (x\<lparr>api_mur_AddAllow := []\<rparr>)
      else if fd = MsgUpdateRestrictions_fd ''del_allow'' then Ok (x\<lparr>api_mur_DelAllow := []\<rparr>)
      else if fd = MsgUpdateRestrictions_fd ''add_deny'' then Ok (x\<lparr>api_mur_AddDeny := []\<rparr>)
      else if fd = MsgUpdateRestrictions_fd ''del_deny'' then Ok (x\<lparr>api_mur_DelDeny := []\<rparr>)
      else Panic)"

definition api_MsgUpdateRestrictions_Get :: "string \<Rightarrow> api_MsgUpdateRestrictions \<Rightarrow> 'v reflect_value outcome" where
  "api_MsgUpdateRestrictions_Get fd x =
     (if fd = MsgUpdateRestrictions_fd ''issuer'' then Ok (StringValue (api_mur_Issuer x))
      else if fd = MsgUpdateRestrictions_fd ''asset_id'' then Ok (StringValue (api_mur_AssetId x))
      else if fd = MsgUpdateRestrictions_fd ''allow_all'' then Ok (BoolValue (api_mur_AllowAll x))
      else if fd = MsgUpdateRestrictions_fd ''add_allow'' then Ok (list_value ''_MsgUpdateRestrictions_4_list'' (api_mur_AddAllow x))
      else if fd = MsgUpdateRestrictions_fd ''del_allow'' then Ok (list_value ''_MsgUpdateRestrictions_5_list'' (api_mur_DelAllow x))
      else if fd = MsgUpdateRestrictions_fd ''add_deny'' then Ok (list_value ''_MsgUpdateRestrictions_6_list'' (api_mur_AddDeny x))
      else if fd = MsgUpdateRestrictions_fd ''del_deny'' then Ok (list_value ''_MsgUpdateRestrictions_7_list'' (api_mur_DelDeny x))
      else Panic)"

definition api_MsgUpdateRestrictions_Set :: "string \<Rightarrow> 'v reflect_value \<Rightarrow> api_MsgUpdateRestrictions \<Rightarrow> api_MsgUpdateRestrictions outcome" where
  "api_MsgUpdateRestrictions_Set fd v x =
     (if fd = MsgUpdateRestrictions_fd ''issuer'' then obind (as_string v) (\<lambda>w. Ok (x\<lparr>api_mur_Issuer := w\<rparr>))
      else if fd = MsgUpdateRestrictions_fd ''asset_id'' then obind (as_string v) (\<lambda>w. Ok (x\<lparr>api_mur_AssetId := w\<rparr>))
      else if fd = MsgUpdateRestrictions_fd ''allow_all'' then obind (as_bool v) (\<lambda>w. Ok (x\<lparr>api_mur_AllowAll := w\<rparr>))
      else if fd = MsgUpdateRestrictions_fd ''add_allow'' then obind (as_list ''_MsgUpdateRestrictions_4_list'' v) (\<lambda>w. Ok (x\<lparr>api_mur_AddAllow := w\<rparr>))
      else if fd = MsgUpdateRestrictions_fd ''del_allow'' then obind (as_list ''_MsgUpdateRestrictions_5_list'' v) (\<lambda>w. Ok (x\<lparr>api_mur_DelAllow := w\<rparr>))
      else if fd = MsgUpdateRestrictions_fd ''add_deny'' then obind (as_list ''_MsgUpdateRestrictions_6_list'' v) (\<lambda>w. Ok (x\<lparr>api_mur_AddDeny := w\<rparr>))
      else if fd = MsgUpdateRestrictions_fd ''del_deny'' then obind (as_list ''_MsgUpdateRestrictions_7_list'' v) (\<lambda>w. Ok (x\<lparr>api_mur_DelDeny := w\<rparr>))
      else Panic)"

definition api_MsgUpdateRestrictions_size :: "pulsar_runtime \<Rightarrow> api_MsgUpdateRestrictions option \<Rightarrow> nat" where
  "api_MsgUpdateRestrictions_size R m = (case m of None \<Rightarrow> 0 | Some x \<Rightarrow>
     rt_size_string R (api_mur_Issuer x) +
     rt_size_string R (api_mur_AssetId x) +
     size_bool (api_mur_AllowAll x) +
     rt_size_strings R (api_mur_AddAllow x) +
     rt_size_strings R (api_mur_DelAllow x) +
     rt_size_strings R (api_mur_AddDeny x) +
     rt_size_strings R (api_mur_DelDeny x) + length (api_mur_unknownFields x))"

definition api_MsgUpdateRestrictions_marshal :: "pulsar_runtime \<Rightarrow> bytes \<Rightarrow> api_MsgUpdateRestrictions option \<Rightarrow> bytes outcome" where
  "api_MsgUpdateRestrictions_marshal R buf m = (case m of None \<Rightarrow> Ok buf | Some x \<Rightarrow>
     rt_buffer buf (api_MsgUpdateRestrictions_size R m)
       (rt_put_string R 10 (api_mur_Issuer x)
       (rt_put_string R 18 (api_mur_AssetId x)
       (put_bool 24 (api_mur_AllowAll x)
       (rt_put_strings R 34 (api_mur_AddAllow x)
       (rt_put_strings R 42 (api_mur_DelAllow x)
       (rt_put_strings R 50 (api_mur_AddDeny x)
       (rt_put_strings R 58 (api_mur_DelDeny x)
       (api_mur_unknownFields x)))))))))"

definition api_MsgUpdateRestrictions_field :: "pulsar_runtime \<Rightarrow> bool \<Rightarrow> api_MsgUpdateRestrictions handler" where
  "api_MsgUpdateRestrictions_field R discardUnknown fieldNum wireType pre cur x =
     (if fieldNum = 1 then field_string wireType cur (\<lambda>v x. x\<lparr>api_mur_Issuer := v\<rparr>) x
      else if fieldNum = 2 then field_string wireType cur (\<lambda>v x. x\<lparr>api_mur_AssetId := v\<rparr>) x
      else if fieldNum = 3 then field_bool wireType cur (\<lambda>v x. x\<lparr>api_mur_AllowAll := v\<rparr>) x
      else if fieldNum = 4 then field_string wireType cur (\<lambda>v x. x\<lparr>api_mur_AddAllow := api_mur_AddAllow x @ [v]\<rparr>) x
      else if fieldNum = 5 then field_string wireType cur (\<lambda>v x. x\<lparr>api_mur_DelAllow := api_mur_DelAllow x @ [v]\<rparr>) x
      else if fieldNum = 6 then field_string wireType cur (\<lambda>v x. x\<lparr>api_mur_AddDeny := api_mur_AddDeny x @ [v]\<rparr>) x
      else if fieldNum = 7 then field_string wireType cur (\<lambda>v x. x\<lparr>api_mur_DelDeny := api_mur_DelDeny x @ [v]\<rparr>) x
      else field_unknown R discardUnknown pre (\<lambda>bz x. x\<lparr>api_mur_unknownFields := api_mur_unknownFields x @ bz\<rparr>) x)"

definition api_MsgUpdateRestrictions_unmarshal :: "pulsar_runtime \<Rightarrow> bool \<Rightarrow> bytes \<Rightarrow> api_MsgUpdateRestrictions option \<Rightarrow> api_MsgUpdateRestrictions option outcome" where
  "api_MsgUpdateRestrictions_unmarshal R discardUnknown dAtA m = (case m of None \<Rightarrow> Ok None | Some x \<Rightarrow>
     obind (unmarshal_loop (api_MsgUpdateRestrictions_field R discardUnknown) x 0 dAtA) (\<lambda>x. Ok (Some x)))"

lemma api_MsgUpdateRestrictions_at:
  "api_MsgUpdateRestrictions_Has (MsgUpdateRestrictions_fd ''issuer'') x = Ok (api_mur_Issuer x \<noteq> [])"
  "api_MsgUpdateRestrictions_Clear (MsgUpdateRestrictions_fd ''issuer'') x = Ok (x\<lparr>api_mur_Issuer := []\<rparr>)"
  "api_MsgUpdateRestrictions_Get (MsgUpdateRestrictions_fd ''issuer'') x = Ok (StringValue (api_mur_Issuer x))"
  "api_MsgUpdateRestrictions_Set (MsgUpdateRestrictions_fd ''issuer'') v x = obind (as_string v) (\<lambda>w. Ok (x\<lparr>api_mur_Issuer := w\<rparr>))"
  "api_MsgUpdateRestrictions_Has (MsgUpdateRestrictions_fd ''asset_id'') x = Ok (api_mur_AssetId x \<noteq> [])"
  "api_MsgUpdateRestrictions_Clear (MsgUpdateRestrictions_fd ''asset_id'') x = Ok (x\<lparr>api_mur_AssetId := []\<rparr>)"
  "api_MsgUpdateRestrictions_Get (MsgUpdateRestrictions_fd ''asset_id'') x = Ok (StringValue (api_mur_AssetId x))"
  "api_MsgUpdateRestrictions_Set (MsgUpdateRestrictions_fd ''asset_id'') v x = obind (as_string v) (\<lambda>w. Ok (x\<lparr>api_mur_AssetId := w\<rparr>))"
  "api_MsgUpdateRestrictions_Has (MsgUpdateRestrictions_fd ''allow_all'') x = Ok (api_mur_AllowAll x \<noteq> False)"
  "api_MsgUpdateRestrictions_Clear (MsgUpdateRestrictions_fd ''allow_all'') x = Ok (x\<lparr>api_mur_AllowAll := False\<rparr>)"
  "api_MsgUpdateRestrictions_Get (MsgUpdateRestrictions_fd ''allow_all'') x = Ok (BoolValue (api_mur_AllowAll x))"
  "api_MsgUpdateRestrictions_Set (MsgUpdateRestrictions_fd ''allow_all'') v x = obind (as_bool v) (\<lambda>w. Ok (x\<lparr>api_mur_AllowAll := w\<rparr>))"
  "api_MsgUpdateRestrictions_Has (MsgUpdateRestrictions_fd ''add_allow'') x = Ok (length (api_mur_AddAllow x) \<noteq> 0)"
  "api_MsgUpdateRestrictions_Clear (MsgUpdateRestrictions_fd ''add_allow'') x = Ok (x\<lparr>api_mur_AddAllow := []\<rparr>)"
  "api_MsgUpdateRestrictions_Get (MsgUpdateRestrictions_fd ''add_allow'') x = Ok (list_value ''_MsgUpdateRestrictions_4_list'' (api_mur_AddAllow x))"
  "api_MsgUpdateRestrictions_Set (MsgUpdateRestrictions_fd ''add_allow'') v x = obind (as_list ''_MsgUpdateRestrictions_4_list'' v) (\<lambda>w. Ok (x\<lparr>api_mur_AddAllow := w\<rparr>))"
  "api_MsgUpdateRestrictions_Has (MsgUpdateRestrictions_fd ''del_allow'') x = Ok (length (api_mur_DelAllow x) \<noteq> 0)"
  "api_MsgUpdateRestrictions_Clear (MsgUpdateRestrictions_fd ''del_allow'') x = Ok (x\<lparr>api_mur_DelAllow := []\<rparr>)"
  "api_MsgUpdateRestrictions_Get (MsgUpdateRestrictions_fd ''del_allow'') x = Ok (list_value ''_MsgUpdateRestrictions_5_list'' (api_mur_DelAllow x))"
  "api_MsgUpdateRestrictions_Set (MsgUpdateRestrictions_fd ''del_allow'') v x = obind (as_list ''_MsgUpdateRestrictions_5_list'' v) (\<lambda>w. Ok (x\<lparr>api_mur_DelAllow := w\<rparr>))"
  "api_MsgUpdateRestrictions_Has (MsgUpdateRestrictions_fd ''add_deny'') x = Ok (length (api_mur_AddDeny x) \<noteq> 0)"
  "api_MsgUpdateRestrictions_Clear (MsgUpdateRestrictions_fd ''add_deny'') x = Ok (x\<lparr>api_mur_AddDeny := []\<rparr>)"
  "api_MsgUpdateRestrictions_Get (MsgUpdateRestrictions_fd ''add_deny'') x = Ok (list_value ''_MsgUpdateRestrictions_6_list'' (api_mur_AddDeny x))"
  "api_MsgUpdateRestrictions_Set (MsgUpdateRestrictions_fd ''add_deny'') v x = obind (as_list ''_MsgUpdateRestrictions_6_list'' v) (\<lambda>w. Ok (x\<lparr>api_mur_AddDeny := w\<rparr>))"
  "api_MsgUpdateRestrictions_Has (MsgUpdateRestrictions_fd ''del_deny'') x = Ok (length (api_mur_DelDeny x) \<noteq> 0)"
  "api_MsgUpdateRestrictions_Clear (MsgUpdateRestrictions_fd ''del_deny'') x = Ok (x\<lparr>api_mur_DelDeny := []\<rparr>)"
  "api_MsgUpdateRestrictions_Get (MsgUpdateRestrictions_fd ''del_deny'') x = Ok (list_value ''_MsgUpdateRestrictions_7_list'' (api_mur_DelDeny x))"
  "api_MsgUpdateRestrictions_Set (MsgUpdateRestrictions_fd ''del_deny'') v x = obind (as_list ''_MsgUpdateRestrictions_7_list'' v) (\<lambda>w. Ok (x\<lparr>api_mur_DelDeny := w\<rparr>))"
  by (simp_all add: api_MsgUpdateRestrictions_Has_def api_MsgUpdateRestrictions_Clear_def api_MsgUpdateRestrictions_Get_def api_MsgUpdateRestrictions_Set_def)

interpretation MsgUpdateRestrictions_reflect: reflected_message api_MsgUpdateRestrictions_fields api_MsgUpdateRestrictions_Range api_MsgUpdateRestrictions_Has api_MsgUpdateRestrictions_Clear api_MsgUpdateRestrictions_Get api_MsgUpdateRestrictions_Set api_mur_unknownFields zero_api_MsgUpdateRestrictions
proof
  show "distinct api_MsgUpdateRestrictions_fields" by (simp add: api_MsgUpdateRestrictions_fields_def)
next
  show "\<exists>v. api_MsgUpdateRestrictions_Get fd x = Ok v" if "fd \<in> set api_MsgUpdateRestrictions_fields" for fd x
    using that unfolding api_MsgUpdateRestrictions_fields_def field_cases
    by (elim disjE; clarsimp simp: api_MsgUpdateRestrictions_at zero_api_MsgUpdateRestrictions_def list_value_simps)
next
  show "\<exists>y'. api_MsgUpdateRestrictions_Set fd v y = Ok y' \<and> api_MsgUpdateRestrictions_Get fd y' = Ok v \<and> api_mur_unknownFields y' = api_mur_unknownFields y \<and>
      (\<forall>g\<in>set api_MsgUpdateRestrictions_fields. g \<noteq> fd \<longrightarrow> api_MsgUpdateRestrictions_Get g y' = api_MsgUpdateRestrictions_Get g y)"
    if "fd \<in> set api_MsgUpdateRestrictions_fields" "api_MsgUpdateRestrictions_Has fd x = Ok True" "api_MsgUpdateRestrictions_Get fd x = Ok v" for fd x v y
    using that unfolding api_MsgUpdateRestrictions_fields_def field_cases
    by (elim disjE; clarsimp simp: api_MsgUpdateRestrictions_at zero_api_MsgUpdateRestrictions_def list_value_simps)
next
  show "api_MsgUpdateRestrictions_Has fd x = Ok (api_MsgUpdateRestrictions_Get fd x \<noteq> api_MsgUpdateRestrictions_Get fd zero_api_MsgUpdateRestrictions)" if "fd \<in> set api_MsgUpdateRestrictions_fields" for fd x
    using that unfolding api_MsgUpdateRestrictions_fields_def field_cases
    by (elim disjE; clarsimp simp: api_MsgUpdateRestrictions_at zero_api_MsgUpdateRestrictions_def list_value_simps)
next
  show "\<exists>x'. api_MsgUpdateRestrictions_Clear fd x = Ok x' \<and> api_MsgUpdateRestrictions_Get fd x' = api_MsgUpdateRestrictions_Get fd zero_api_MsgUpdateRestrictions \<and> api_mur_unknownFields x' = api_mur_unknownFields x \<and>
      (\<forall>g\<in>set api_MsgUpdateRestrictions_fields. g \<noteq> fd \<longrightarrow> api_MsgUpdateRestrictions_Get g x' = api_MsgUpdateRestrictions_Get g x)" if "fd \<in> set api_MsgUpdateRestrictions_fields" for fd x
    using that unfolding api_MsgUpdateRestrictions_fields_def field_cases
    by (elim disjE; clarsimp simp: api_MsgUpdateRestrictions_at zero_api_MsgUpdateRestrictions_def list_value_simps)
next
  show "api_MsgUpdateRestrictions_Range f x = range_list f (populated api_MsgUpdateRestrictions_fields (\<lambda>fd. api_MsgUpdateRestrictions_Has fd x) (\<lambda>fd. api_MsgUpdateRestrictions_Get fd x))" for f x
    by (simp add: api_MsgUpdateRestrictions_at zero_api_MsgUpdateRestrictions_def api_MsgUpdateRestrictions_fields_def api_MsgUpdateRestrictions_Range_def list_value_def range_field_last range_field_Cons cong: if_cong split del: if_split)
next
  show "api_MsgUpdateRestrictions_Has fd x = Panic \<and> api_MsgUpdateRestrictions_Get fd x = Panic \<and> api_MsgUpdateRestrictions_Set fd v x = Panic \<and> api_MsgUpdateRestrictions_Clear fd x = Panic"
    if "fd \<notin> set api_MsgUpdateRestrictions_fields" for fd x v
    using that by (simp add: api_MsgUpdateRestrictions_fields_def api_MsgUpdateRestrictions_Has_def api_MsgUpdateRestrictions_Get_def api_MsgUpdateRestrictions_Set_def api_MsgUpdateRestrictions_Clear_def)
next
  fix x y :: api_MsgUpdateRestrictions
  assume eq: "\<And>fd. fd \<in> set api_MsgUpdateRestrictions_fields \<Longrightarrow> api_MsgUpdateRestrictions_Get fd x = api_MsgUpdateRestrictions_Get fd y" and u: "api_mur_unknownFields x = api_mur_unknownFields y"
  have "api_mur_Issuer x = api_mur_Issuer y"
    using eq [of "MsgUpdateRestrictions_fd ''issuer''"] by (simp add: api_MsgUpdateRestrictions_fields_def api_MsgUpdateRestrictions_at list_value_simps)
  moreover note u
  moreover
  have "api_mur_AssetId x = api_mur_AssetId y"
    using eq [of "MsgUpdateRestrictions_fd ''asset_id''"] by (simp add: api_MsgUpdateRestrictions_fields_def api_MsgUpdateRestrictions_at list_value_simps)
  moreover
  have "api_mur_AllowAll x = api_mur_AllowAll y"
    using eq [of "MsgUpdateRestrictions_fd ''allow_all''"] by (simp add: api_MsgUpdateRestrictions_fields_def api_MsgUpdateRestrictions_at list_value_simps)
  moreover
  have "api_mur_AddAllow x = api_mur_AddAllow y"
    using eq [of "MsgUpdateRestrictions_fd ''add_allow''"] by (simp add: api_MsgUpdateRestrictions_fields_def api_MsgUpdateRestrictions_at list_value_simps)
  moreover
  have "api_mur_DelAllow x = api_mur_DelAllow y"
    using eq [of "MsgUpdateRestrictions_fd ''del_allow''"] by (simp add: api_MsgUpdateRestrictions_fields_def api_MsgUpdateRestrictions_at list_value_simps)
  moreover
  have "api_mur_AddDeny x = api_mur_AddDeny y"
    using eq [of "MsgUpdateRestrictions_fd ''add_deny''"] by (simp add: api_MsgUpdateRestrictions_fields_def api_MsgUpdateRestrictions_at list_value_simps)
  moreover
  have "api_mur_DelDeny x = api_mur_DelDeny y"
    using eq [of "MsgUpdateRestrictions_fd ''del_deny''"] by (simp add: api_MsgUpdateRestrictions_fields_def api_MsgUpdateRestrictions_at list_value_simps)
  ultimately show "x = y" by (simp add: api_MsgUpdateRestrictions.equality)
qed

text \<open>The values a client's MsgUpdateRestrictions holds: Go integers, and no field it does not know.\<close>

definition api_MsgUpdateRestrictions_wf :: "pulsar_runtime \<Rightarrow> api_MsgUpdateRestrictions \<Rightarrow> bool" where
  "api_MsgUpdateRestrictions_wf R m \<longleftrightarrow> api_mur_unknownFields m = [] \<and> api_MsgUpdateRestrictions_size R (Some m) < 2 ^ 63"

lemma api_MsgUpdateRestrictions_handler:
  "api_MsgUpdateRestrictions_field R discardUnknown 1 2 pre cur x = field_string 2 cur (\<lambda>v x. x\<lparr>api_mur_Issuer := v\<rparr>) x"
  "api_MsgUpdateRestrictions_field R discardUnknown 2 2 pre cur x = field_string 2 cur (\<lambda>v x. x\<lparr>api_mur_AssetId := v\<rparr>) x"
  "api_MsgUpdateRestrictions_field R discardUnknown 3 0 pre cur x = field_bool 0 cur (\<lambda>v x. x\<lparr>api_mur_AllowAll := v\<rparr>) x"
  "api_MsgUpdateRestrictions_field R discardUnknown 4 2 pre cur x = field_string 2 cur (\<lambda>v x. x\<lparr>api_mur_AddAllow := api_mur_AddAllow x @ [v]\<rparr>) x"
  "api_MsgUpdateRestrictions_field R discardUnknown 5 2 pre cur x = field_string 2 cur (\<lambda>v x. x\<lparr>api_mur_DelAllow := api_mur_DelAllow x @ [v]\<rparr>) x"
  "api_MsgUpdateRestrictions_field R discardUnknown 6 2 pre cur x = field_string 2 cur (\<lambda>v x. x\<lparr>api_mur_AddDeny := api_mur_AddDeny x @ [v]\<rparr>) x"
  "api_MsgUpdateRestrictions_field R discardUnknown 7 2 pre cur x = field_string 2 cur (\<lambda>v x. x\<lparr>api_mur_DelDeny := api_mur_DelDeny x @ [v]\<rparr>) x"
  by (simp_all add: api_MsgUpdateRestrictions_field_def)

lemmas api_MsgUpdateRestrictions_steps =
  loop_string [where h = "api_MsgUpdateRestrictions_field R discardUnknown", OF api_MsgUpdateRestrictions_handler(1)]
  loop_string [where h = "api_MsgUpdateRestrictions_field R discardUnknown", OF api_MsgUpdateRestrictions_handler(2)]
  loop_bool [where h = "api_MsgUpdateRestrictions_field R discardUnknown", OF api_MsgUpdateRestrictions_handler(3)]
  loop_strings [where h = "api_MsgUpdateRestrictions_field R discardUnknown", OF api_MsgUpdateRestrictions_handler(4)]
  loop_strings [where h = "api_MsgUpdateRestrictions_field R discardUnknown", OF api_MsgUpdateRestrictions_handler(5)]
  loop_strings [where h = "api_MsgUpdateRestrictions_field R discardUnknown", OF api_MsgUpdateRestrictions_handler(6)]
  loop_strings [where h = "api_MsgUpdateRestrictions_field R discardUnknown", OF api_MsgUpdateRestrictions_handler(7)]
  for R discardUnknown

lemma fold_append_api_mur_AddAllow: "fold (\<lambda>v x. x\<lparr>api_mur_AddAllow := api_mur_AddAllow x @ [v]\<rparr>) xs x = x\<lparr>api_mur_AddAllow := api_mur_AddAllow x @ xs\<rparr>"
  by (induction xs arbitrary: x) simp_all

lemma fold_append_api_mur_DelAllow: "fold (\<lambda>v x. x\<lparr>api_mur_DelAllow := api_mur_DelAllow x @ [v]\<rparr>) xs x = x\<lparr>api_mur_DelAllow := api_mur_DelAllow x @ xs\<rparr>"
  by (induction xs arbitrary: x) simp_all

lemma fold_append_api_mur_AddDeny: "fold (\<lambda>v x. x\<lparr>api_mur_AddDeny := api_mur_AddDeny x @ [v]\<rparr>) xs x = x\<lparr>api_mur_AddDeny := api_mur_AddDeny x @ xs\<rparr>"
  by (induction xs arbitrary: x) simp_all

lemma fold_append_api_mur_DelDeny: "fold (\<lambda>v x. x\<lparr>api_mur_DelDeny := api_mur_DelDeny x @ [v]\<rparr>) xs x = x\<lparr>api_mur_DelDeny := api_mur_DelDeny x @ xs\<rparr>"
  by (induction xs arbitrary: x) simp_all

lemma api_MsgUpdateRestrictions_roundtrip:
  assumes R: "runtime_laws R" and wf: "api_MsgUpdateRestrictions_wf R m"
  shows "\<exists>bz. (\<forall>buf. api_MsgUpdateRestrictions_marshal R buf (Some m) = Ok (buf @ bz)) \<and> length bz = api_MsgUpdateRestrictions_size R (Some m) \<and>
           api_MsgUpdateRestrictions_unmarshal R discardUnknown bz (Some zero_api_MsgUpdateRestrictions) = Ok (Some m)"
proof -
  have sz: "rt_size_string R (api_mur_Issuer m) + rt_size_string R (api_mur_AssetId m) + size_bool (api_mur_AllowAll m) + rt_size_strings R (api_mur_AddAllow m) + rt_size_strings R (api_mur_DelAllow m) + rt_size_strings R (api_mur_AddDeny m) + rt_size_strings R (api_mur_DelDeny m) < 2 ^ 63"
    using wf by (simp add: api_MsgUpdateRestrictions_wf_def api_MsgUpdateRestrictions_size_def)
  have l_Issuer: "length (api_mur_Issuer m) < 2 ^ 63" using sz rt_size_ge(1) [of "api_mur_Issuer m" R] by linarith
  have l_AssetId: "length (api_mur_AssetId m) < 2 ^ 63" using sz rt_size_ge(1) [of "api_mur_AssetId m" R] by linarith
  have "rt_size_strings R (api_mur_AddAllow m) < 2 ^ 63" using sz by linarith
  then have l_AddAllow: "\<forall>s\<in>set (api_mur_AddAllow m). length s < 2 ^ 63"
    using rt_size_strings_ge le_less_trans by blast
  have "rt_size_strings R (api_mur_DelAllow m) < 2 ^ 63" using sz by linarith
  then have l_DelAllow: "\<forall>s\<in>set (api_mur_DelAllow m). length s < 2 ^ 63"
    using rt_size_strings_ge le_less_trans by blast
  have "rt_size_strings R (api_mur_AddDeny m) < 2 ^ 63" using sz by linarith
  then have l_AddDeny: "\<forall>s\<in>set (api_mur_AddDeny m). length s < 2 ^ 63"
    using rt_size_strings_ge le_less_trans by blast
  have "rt_size_strings R (api_mur_DelDeny m) < 2 ^ 63" using sz by linarith
  then have l_DelDeny: "\<forall>s\<in>set (api_mur_DelDeny m). length s < 2 ^ 63"
    using rt_size_strings_ge le_less_trans by blast
  define bz where "bz = put_string 10 (api_mur_Issuer m)
       (put_string 18 (api_mur_AssetId m)
       (put_bool 24 (api_mur_AllowAll m)
       (put_strings 34 (api_mur_AddAllow m)
       (put_strings 42 (api_mur_DelAllow m)
       (put_strings 50 (api_mur_AddDeny m)
       (put_strings 58 (api_mur_DelDeny m)
       []))))))"
  have len: "length bz = api_MsgUpdateRestrictions_size R (Some m)"
    using wf by (simp add: bz_def api_MsgUpdateRestrictions_size_def rt_size_eq(3) [OF R] rt_size_eq(2) [OF R l_Issuer] rt_put_eq(2) [OF R l_Issuer] rt_size_eq(2) [OF R l_AssetId] rt_put_eq(2) [OF R l_AssetId] rt_strings_eq [OF R l_AddAllow] rt_strings_eq [OF R l_DelAllow] rt_strings_eq [OF R l_AddDeny] rt_strings_eq [OF R l_DelDeny] api_MsgUpdateRestrictions_wf_def)
  have lt: "length bz < 2 ^ 63" using wf by (simp add: len api_MsgUpdateRestrictions_wf_def)
  have "api_MsgUpdateRestrictions_marshal R buf (Some m) = Ok (buf @ bz)" for buf
  proof -
    have "api_MsgUpdateRestrictions_marshal R buf (Some m) = rt_buffer buf (api_MsgUpdateRestrictions_size R (Some m)) bz"
      using wf by (simp add: api_MsgUpdateRestrictions_marshal_def bz_def rt_put_eq(3) [OF R] rt_size_eq(2) [OF R l_Issuer] rt_put_eq(2) [OF R l_Issuer] rt_size_eq(2) [OF R l_AssetId] rt_put_eq(2) [OF R l_AssetId] rt_strings_eq [OF R l_AddAllow] rt_strings_eq [OF R l_DelAllow] rt_strings_eq [OF R l_AddDeny] rt_strings_eq [OF R l_DelDeny] api_MsgUpdateRestrictions_wf_def)
    then show ?thesis by (simp add: rt_buffer_exact len)
  qed
  moreover have "api_MsgUpdateRestrictions_unmarshal R discardUnknown bz (Some zero_api_MsgUpdateRestrictions) = Ok (Some m)"
    using wf lt
    by (simp add: api_MsgUpdateRestrictions_unmarshal_def bz_def api_MsgUpdateRestrictions_wf_def api_MsgUpdateRestrictions_steps  fits_int_def zero_api_MsgUpdateRestrictions_def fold_append_api_mur_AddAllow fold_append_api_mur_DelAllow fold_append_api_mur_AddDeny fold_append_api_mur_DelDeny)
  ultimately show ?thesis using len by blast
qed

interpretation MsgUpdateRestrictions_api_codec: message_codec "api_MsgUpdateRestrictions_size R" "api_MsgUpdateRestrictions_marshal R []" "\<lambda>bz. api_MsgUpdateRestrictions_unmarshal R discardUnknown bz (Some zero_api_MsgUpdateRestrictions)"
    "\<lambda>m. runtime_laws R \<and> (case m of None \<Rightarrow> False | Some x \<Rightarrow> api_MsgUpdateRestrictions_wf R x)" for R discardUnknown
  by unfold_locales (use api_MsgUpdateRestrictions_roundtrip in \<open>fastforce split: option.splits\<close>)

end
