(* ===== verification/Pulsar_Fees.thy ===== *)
theory Pulsar_Fees
  imports Pulsar
begin

text \<open>
  The fees message of the client package (\<open>api/vertix/fees/v1/types.pulsar.go\<close>):
  the parameters, with their reflection methods and the \<open>size\<close>, \<open>marshal\<close> and \<open>unmarshal\<close> of \<open>ProtoMethods\<close>. The message
  satisfies the contracts \<open>reflected_message\<close> and \<open>message_codec\<close>.
\<close>

section \<open>Messages\<close>

subsection \<open>FeesParams\<close>

record api_FeesParams =
  api_fp_BurnRatio :: string
  api_fp_DistributionRatio :: string
  api_fp_unknownFields :: bytes

definition zero_api_FeesParams :: api_FeesParams where
  "zero_api_FeesParams = \<lparr>api_fp_BurnRatio = [], api_fp_DistributionRatio = [], api_fp_unknownFields = []\<rparr>"

definition FeesParams_fd :: "string \<Rightarrow> string" where
  "FeesParams_fd n = ''vertix.fees.v1.FeesParams.'' @ n"

lemma FeesParams_fd_inject [simp]: "FeesParams_fd a = FeesParams_fd b \<longleftrightarrow> a = b"
  by (simp add: FeesParams_fd_def)

definition api_FeesParams_fields :: "string list" where
  "api_FeesParams_fields = map FeesParams_fd [''burn_ratio'', ''distribution_ratio'']"

definition api_FeesParams_Range ::
    "(string \<Rightarrow> 'v reflect_value \<Rightarrow> 's \<Rightarrow> (bool \<times> 's) outcome) \<Rightarrow> api_FeesParams \<Rightarrow> 's \<Rightarrow> 's outcome" where
  "api_FeesParams_Range f x =
     range_field (api_fp_BurnRatio x \<noteq> []) (FeesParams_fd ''burn_ratio'') (StringValue (api_fp_BurnRatio x)) f
      (range_field (api_fp_DistributionRatio x \<noteq> []) (FeesParams_fd ''distribution_ratio'') (StringValue (api_fp_DistributionRatio x)) f
      Ok)"

definition api_FeesParams_Has :: "string \<Rightarrow> api_FeesParams \<Rightarrow> bool outcome" where
  "api_FeesParams_Has fd x =
     (if fd = FeesParams_fd ''burn_ratio'' then Ok (api_fp_BurnRatio x \<noteq> [])
      else if fd = FeesParams_fd ''distribution_ratio'' then Ok (api_fp_DistributionRatio x \<noteq> [])
      else Panic)"

definition api_FeesParams_Clear :: "string \<Rightarrow> api_FeesParams \<Rightarrow> api_FeesParams outcome" where
  "api_FeesParams_Clear fd x =
     (if fd = FeesParams_fd ''burn_ratio'' then Ok (x\<lparr>api_fp_BurnRatio := []\<rparr>)
      else if fd = FeesParams_fd ''distribution_ratio'' then Ok (x\<lparr>api_fp_DistributionRatio := []\<rparr>)
      else Panic)"

definition api_FeesParams_Get :: "string \<Rightarrow> api_FeesParams \<Rightarrow> 'v reflect_value outcome" where
  "api_FeesParams_Get fd x =
     (if fd = FeesParams_fd ''burn_ratio'' then Ok (StringValue (api_fp_BurnRatio x))
      else if fd = FeesParams_fd ''distribution_ratio'' then Ok (StringValue (api_fp_DistributionRatio x))
      else Panic)"

definition api_FeesParams_Set :: "string \<Rightarrow> 'v reflect_value \<Rightarrow> api_FeesParams \<Rightarrow> api_FeesParams outcome" where
  "api_FeesParams_Set fd v x =
     (if fd = FeesParams_fd ''burn_ratio'' then obind (as_string v) (\<lambda>w. Ok (x\<lparr>api_fp_BurnRatio := w\<rparr>))
      else if fd = FeesParams_fd ''distribution_ratio'' then obind (as_string v) (\<lambda>w. Ok (x\<lparr>api_fp_DistributionRatio := w\<rparr>))
      else Panic)"

definition api_FeesParams_size :: "pulsar_runtime \<Rightarrow> api_FeesParams option \<Rightarrow> nat" where
  "api_FeesParams_size R m = (case m of None \<Rightarrow> 0 | Some x \<Rightarrow>
     rt_size_string R (api_fp_BurnRatio x) +
     rt_size_string R (api_fp_DistributionRatio x) + length (api_fp_unknownFields x))"

definition api_FeesParams_marshal :: "pulsar_runtime \<Rightarrow> bytes \<Rightarrow> api_FeesParams option \<Rightarrow> bytes outcome" where
  "api_FeesParams_marshal R buf m = (case m of None \<Rightarrow> Ok buf | Some x \<Rightarrow>
     rt_buffer buf (api_FeesParams_size R m)
       (rt_put_string R 10 (api_fp_BurnRatio x)
       (rt_put_string R 18 (api_fp_DistributionRatio x)
       (api_fp_unknownFields x))))"

definition api_FeesParams_field :: "pulsar_runtime \<Rightarrow> bool \<Rightarrow> api_FeesParams handler" where
  "api_FeesParams_field R discardUnknown fieldNum wireType pre cur x =
     (if fieldNum = 1 then field_string wireType cur (\<lambda>v x. x\<lparr>api_fp_BurnRatio := v\<rparr>) x
      else if fieldNum = 2 then field_string wireType cur (\<lambda>v x. x\<lparr>api_fp_DistributionRatio := v\<rparr>) x
      else field_unknown R discardUnknown pre (\<lambda>bz x. x\<lparr>api_fp_unknownFields := api_fp_unknownFields x @ bz\<rparr>) x)"

definition api_FeesParams_unmarshal :: "pulsar_runtime \<Rightarrow> bool \<Rightarrow> bytes \<Rightarrow> api_FeesParams option \<Rightarrow> api_FeesParams option outcome" where
  "api_FeesParams_unmarshal R discardUnknown dAtA m = (case m of None \<Rightarrow> Ok None | Some x \<Rightarrow>
     obind (unmarshal_loop (api_FeesParams_field R discardUnknown) x 0 dAtA) (\<lambda>x. Ok (Some x)))"

lemma api_FeesParams_at:
  "api_FeesParams_Has (FeesParams_fd ''burn_ratio'') x = Ok (api_fp_BurnRatio x \<noteq> [])"
  "api_FeesParams_Clear (FeesParams_fd ''burn_ratio'') x = Ok (x\<lparr>api_fp_BurnRatio := []\<rparr>)"
  "api_FeesParams_Get (FeesParams_fd ''burn_ratio'') x = Ok (StringValue (api_fp_BurnRatio x))"
  "api_FeesParams_Set (FeesParams_fd ''burn_ratio'') v x = obind (as_string v) (\<lambda>w. Ok (x\<lparr>api_fp_BurnRatio := w\<rparr>))"
  "api_FeesParams_Has (FeesParams_fd ''distribution_ratio'') x = Ok (api_fp_DistributionRatio x \<noteq> [])"
  "api_FeesParams_Clear (FeesParams_fd ''distribution_ratio'') x = Ok (x\<lparr>api_fp_DistributionRatio := []\<rparr>)"
  "api_FeesParams_Get (FeesParams_fd ''distribution_ratio'') x = Ok (StringValue (api_fp_DistributionRatio x))"
  "api_FeesParams_Set (FeesParams_fd ''distribution_ratio'') v x = obind (as_string v) (\<lambda>w. Ok (x\<lparr>api_fp_DistributionRatio := w\<rparr>))"
  by (simp_all add: api_FeesParams_Has_def api_FeesParams_Clear_def api_FeesParams_Get_def api_FeesParams_Set_def)

interpretation FeesParams_reflect: reflected_message api_FeesParams_fields api_FeesParams_Range api_FeesParams_Has api_FeesParams_Clear api_FeesParams_Get api_FeesParams_Set api_fp_unknownFields zero_api_FeesParams
proof
  show "distinct api_FeesParams_fields" by (simp add: api_FeesParams_fields_def)
next
  show "\<exists>v. api_FeesParams_Get fd x = Ok v" if "fd \<in> set api_FeesParams_fields" for fd x
    using that unfolding api_FeesParams_fields_def field_cases
    by (elim disjE; clarsimp simp: api_FeesParams_at zero_api_FeesParams_def list_value_simps)
next
  show "\<exists>y'. api_FeesParams_Set fd v y = Ok y' \<and> api_FeesParams_Get fd y' = Ok v \<and> api_fp_unknownFields y' = api_fp_unknownFields y \<and>
      (\<forall>g\<in>set api_FeesParams_fields. g \<noteq> fd \<longrightarrow> api_FeesParams_Get g y' = api_FeesParams_Get g y)"
    if "fd \<in> set api_FeesParams_fields" "api_FeesParams_Has fd x = Ok True" "api_FeesParams_Get fd x = Ok v" for fd x v y
    using that unfolding api_FeesParams_fields_def field_cases
    by (elim disjE; clarsimp simp: api_FeesParams_at zero_api_FeesParams_def list_value_simps)
next
  show "api_FeesParams_Has fd x = Ok (api_FeesParams_Get fd x \<noteq> api_FeesParams_Get fd zero_api_FeesParams)" if "fd \<in> set api_FeesParams_fields" for fd x
    using that unfolding api_FeesParams_fields_def field_cases
    by (elim disjE; clarsimp simp: api_FeesParams_at zero_api_FeesParams_def list_value_simps)
next
  show "\<exists>x'. api_FeesParams_Clear fd x = Ok x' \<and> api_FeesParams_Get fd x' = api_FeesParams_Get fd zero_api_FeesParams \<and> api_fp_unknownFields x' = api_fp_unknownFields x \<and>
      (\<forall>g\<in>set api_FeesParams_fields. g \<noteq> fd \<longrightarrow> api_FeesParams_Get g x' = api_FeesParams_Get g x)" if "fd \<in> set api_FeesParams_fields" for fd x
    using that unfolding api_FeesParams_fields_def field_cases
    by (elim disjE; clarsimp simp: api_FeesParams_at zero_api_FeesParams_def list_value_simps)
next
  show "api_FeesParams_Range f x = range_list f (populated api_FeesParams_fields (\<lambda>fd. api_FeesParams_Has fd x) (\<lambda>fd. api_FeesParams_Get fd x))" for f x
    by (simp add: api_FeesParams_at zero_api_FeesParams_def api_FeesParams_fields_def api_FeesParams_Range_def list_value_def range_field_last range_field_Cons cong: if_cong split del: if_split)
next
  show "api_FeesParams_Has fd x = Panic \<and> api_FeesParams_Get fd x = Panic \<and> api_FeesParams_Set fd v x = Panic \<and> api_FeesParams_Clear fd x = Panic"
    if "fd \<notin> set api_FeesParams_fields" for fd x v
    using that by (simp add: api_FeesParams_fields_def api_FeesParams_Has_def api_FeesParams_Get_def api_FeesParams_Set_def api_FeesParams_Clear_def)
next
  fix x y :: api_FeesParams
  assume eq: "\<And>fd. fd \<in> set api_FeesParams_fields \<Longrightarrow> api_FeesParams_Get fd x = api_FeesParams_Get fd y" and u: "api_fp_unknownFields x = api_fp_unknownFields y"
  have "api_fp_BurnRatio x = api_fp_BurnRatio y"
    using eq [of "FeesParams_fd ''burn_ratio''"] by (simp add: api_FeesParams_fields_def api_FeesParams_at list_value_simps)
  moreover note u
  moreover
  have "api_fp_DistributionRatio x = api_fp_DistributionRatio y"
    using eq [of "FeesParams_fd ''distribution_ratio''"] by (simp add: api_FeesParams_fields_def api_FeesParams_at list_value_simps)
  ultimately show "x = y" by (simp add: api_FeesParams.equality)
qed

text \<open>The values a client's FeesParams holds: Go integers, and no field it does not know.\<close>

definition api_FeesParams_wf :: "pulsar_runtime \<Rightarrow> api_FeesParams \<Rightarrow> bool" where
  "api_FeesParams_wf R m \<longleftrightarrow> api_fp_unknownFields m = [] \<and> api_FeesParams_size R (Some m) < 2 ^ 63"

lemma api_FeesParams_handler:
  "api_FeesParams_field R discardUnknown 1 2 pre cur x = field_string 2 cur (\<lambda>v x. x\<lparr>api_fp_BurnRatio := v\<rparr>) x"
  "api_FeesParams_field R discardUnknown 2 2 pre cur x = field_string 2 cur (\<lambda>v x. x\<lparr>api_fp_DistributionRatio := v\<rparr>) x"
  by (simp_all add: api_FeesParams_field_def)

lemmas api_FeesParams_steps =
  loop_string [where h = "api_FeesParams_field R discardUnknown", OF api_FeesParams_handler(1)]
  loop_string [where h = "api_FeesParams_field R discardUnknown", OF api_FeesParams_handler(2)]
  for R discardUnknown

lemma api_FeesParams_roundtrip:
  assumes R: "runtime_laws R" and wf: "api_FeesParams_wf R m"
  shows "\<exists>bz. (\<forall>buf. api_FeesParams_marshal R buf (Some m) = Ok (buf @ bz)) \<and> length bz = api_FeesParams_size R (Some m) \<and>
           api_FeesParams_unmarshal R discardUnknown bz (Some zero_api_FeesParams) = Ok (Some m)"
proof -
  have sz: "rt_size_string R (api_fp_BurnRatio m) + rt_size_string R (api_fp_DistributionRatio m) < 2 ^ 63"
    using wf by (simp add: api_FeesParams_wf_def api_FeesParams_size_def)
  have l_BurnRatio: "length (api_fp_BurnRatio m) < 2 ^ 63" using sz rt_size_ge(1) [of "api_fp_BurnRatio m" R] by linarith
  have l_DistributionRatio: "length (api_fp_DistributionRatio m) < 2 ^ 63" using sz rt_size_ge(1) [of "api_fp_DistributionRatio m" R] by linarith
  define bz where "bz = put_string 10 (api_fp_BurnRatio m)
       (put_string 18 (api_fp_DistributionRatio m)
       [])"
  have len: "length bz = api_FeesParams_size R (Some m)"
    using wf by (simp add: bz_def api_FeesParams_size_def rt_size_eq(3) [OF R] rt_size_eq(2) [OF R l_BurnRatio] rt_put_eq(2) [OF R l_BurnRatio] rt_size_eq(2) [OF R l_DistributionRatio] rt_put_eq(2) [OF R l_DistributionRatio] api_FeesParams_wf_def)
  have lt: "length bz < 2 ^ 63" using wf by (simp add: len api_FeesParams_wf_def)
  have "api_FeesParams_marshal R buf (Some m) = Ok (buf @ bz)" for buf
  proof -
    have "api_FeesParams_marshal R buf (Some m) = rt_buffer buf (api_FeesParams_size R (Some m)) bz"
      using wf by (simp add: api_FeesParams_marshal_def bz_def rt_put_eq(3) [OF R] rt_size_eq(2) [OF R l_BurnRatio] rt_put_eq(2) [OF R l_BurnRatio] rt_size_eq(2) [OF R l_DistributionRatio] rt_put_eq(2) [OF R l_DistributionRatio] api_FeesParams_wf_def)
    then show ?thesis by (simp add: rt_buffer_exact len)
  qed
  moreover have "api_FeesParams_unmarshal R discardUnknown bz (Some zero_api_FeesParams) = Ok (Some m)"
    using wf lt
    by (simp add: api_FeesParams_unmarshal_def bz_def api_FeesParams_wf_def api_FeesParams_steps  fits_int_def zero_api_FeesParams_def )
  ultimately show ?thesis using len by blast
qed

interpretation FeesParams_api_codec: message_codec "api_FeesParams_size R" "api_FeesParams_marshal R []" "\<lambda>bz. api_FeesParams_unmarshal R discardUnknown bz (Some zero_api_FeesParams)"
    "\<lambda>m. runtime_laws R \<and> (case m of None \<Rightarrow> False | Some x \<Rightarrow> api_FeesParams_wf R x)" for R discardUnknown
  by unfold_locales (use api_FeesParams_roundtrip in \<open>fastforce split: option.splits\<close>)

end
