(* ===== verification/Pulsar_Wire.thy ===== *)
theory Pulsar_Wire
  imports Tx_Messages Fees_Messages Pulsar_Oracle Pulsar_Rwa Pulsar_Fees
begin

text \<open>
  The client package and the modules speak the same wire format: for every message both
  have, the client's \<open>marshal\<close> writes the bytes the module's \<open>Marshal\<close> writes, so the module
  reads what a client sends and a client reads what the module stores. \<open>api_of_\<close> functions
  give the client's view of a module's message. Times agree when the two timestamp codecs
  do (\<open>timestamps_agree\<close>).
\<close>

section \<open>Times\<close>

text \<open>\<open>timestamppb.New\<close>: whole seconds and the nanoseconds within the second.\<close>

definition timestamp_of :: "time \<Rightarrow> timestamp" where
  "timestamp_of t = \<lparr>ts_Seconds = t div 1000000000, ts_Nanos = t mod 1000000000\<rparr>"

text \<open>\<open>StdTimeMarshalTo\<close> writes the wire format of a \<open>google.protobuf.Timestamp\<close>.\<close>

definition timestamps_agree :: "pulsar_runtime \<Rightarrow> time_lib \<Rightarrow> bool" where
  "timestamps_agree R T \<longleftrightarrow> (\<forall>t. valid_time t \<longrightarrow>
     StdTimeMarshalTo T t = ts_Marshal R (timestamp_of t) \<and> SizeOfStdTime T t = ts_Size R (timestamp_of t))"

lemma valid_timestamp_of: "valid_time t \<Longrightarrow> valid_timestamp (timestamp_of t)"
proof -
  assume v: "valid_time t"
  then have "- 62135596800 \<le> t div 1000000000" "t div 1000000000 \<le> 253402300800"
    by (auto simp: valid_time_def zero_time_def)
  moreover have "- 2147483648 \<le> t mod 1000000000" "t mod 1000000000 < 2147483648"
    using pos_mod_bound [of 1000000000 t] pos_mod_sign [of 1000000000 t] by linarith+
  ultimately show ?thesis
    by (simp add: valid_timestamp_def timestamp_of_def is_i64_def is_i32_def)
qed

lemma agree_time:
  assumes "runtime_laws R" and "timestamps_agree R T" and "valid_time t"
  obtains bz where "ts_Marshal R (timestamp_of t) = Ok bz" and "StdTimeMarshalTo T t = Ok bz"
    and "ts_Size R (timestamp_of t) = length bz" and "SizeOfStdTime T t = length bz"
proof (rule runtime_timestamp [OF assms(1) valid_timestamp_of [OF assms(3)]])
  fix bz
  assume "ts_Marshal R (timestamp_of t) = Ok bz" "ts_Size R (timestamp_of t) = length bz"
  moreover have "StdTimeMarshalTo T t = ts_Marshal R (timestamp_of t)" "SizeOfStdTime T t = ts_Size R (timestamp_of t)"
    using assms(2, 3) by (simp_all add: timestamps_agree_def)
  ultimately show thesis using that by simp
qed

section \<open>One wire format\<close>

text \<open>The client's encoding is the module's, and the module decodes it.\<close>

definition read_by_module ::
    "('a \<Rightarrow> bytes outcome) \<Rightarrow> ('m \<Rightarrow> bytes outcome) \<Rightarrow> (bytes \<Rightarrow> 'm outcome) \<Rightarrow> 'a \<Rightarrow> 'm \<Rightarrow> bool" where
  "read_by_module api_marshal Marshal Unmarshal x m \<longleftrightarrow>
     (\<exists>bz. api_marshal x = Ok bz \<and> Marshal m = Ok bz \<and> Unmarshal bz = Ok m)"

text \<open>The client decodes what the module encodes.\<close>

definition read_by_client ::
    "(bytes \<Rightarrow> 'a outcome) \<Rightarrow> ('m \<Rightarrow> bytes outcome) \<Rightarrow> 'a \<Rightarrow> 'm \<Rightarrow> bool" where
  "read_by_client api_unmarshal Marshal x m \<longleftrightarrow> (\<exists>bz. Marshal m = Ok bz \<and> api_unmarshal bz = Ok x)"

locale same_wire = message_codec +
  fixes api_marshal :: "'a \<Rightarrow> bytes outcome" and api_unmarshal :: "bytes \<Rightarrow> 'a outcome" and view :: "'m \<Rightarrow> 'a"
  assumes wire_equal: "wf m \<Longrightarrow> api_marshal (view m) = Marshal m"
    and api_reads: "wf m \<Longrightarrow> api_marshal (view m) = Ok bz \<Longrightarrow> api_unmarshal bz = Ok (view m)"
begin

lemma module_reads_client: "wf m \<Longrightarrow> read_by_module api_marshal Marshal Unmarshal (view m) m"
  using codec_roundtrip [of m] wire_equal [of m] by (auto simp: read_by_module_def)

lemma client_reads_module: "wf m \<Longrightarrow> read_by_client api_unmarshal Marshal (view m) m"
  using codec_roundtrip [of m] wire_equal [of m] api_reads [of m] by (auto simp: read_by_client_def)

end

lemma size_string_ge: "length s \<le> size_string s"
  by (simp add: size_string_def size_bytes_def)

subsection \<open>OracleFeed\<close>

definition api_of_OracleFeed :: "OracleFeed \<Rightarrow> api_OracleFeed" where
  "api_of_OracleFeed m = \<lparr>api_feed_Validator = feed_Validator m, api_feed_Pair = feed_Pair m, api_feed_Price = feed_Price m, api_feed_BlockHeight = feed_BlockHeight m, api_feed_unknownFields = []\<rparr>"

lemma OracleFeed_wire:
  assumes R: "runtime_laws R" and wf: "OracleFeed_wf m"
  shows "api_OracleFeed_size R (Some (api_of_OracleFeed m)) = OracleFeed_Size m"
    and "api_OracleFeed_marshal R [] (Some (api_of_OracleFeed m)) = OracleFeed_Marshal m"
proof -
  have sz: "size_string (feed_Validator m) + size_string (feed_Pair m) + size_string (feed_Price m) + size_int64 (feed_BlockHeight m) < 2 ^ 63"
    using wf by (simp add: OracleFeed_wf_def OracleFeed_Size_def)
  have l_Validator: "length (feed_Validator m) < 2 ^ 63" using sz size_string_ge [of "feed_Validator m"] by linarith
  have l_Pair: "length (feed_Pair m) < 2 ^ 63" using sz size_string_ge [of "feed_Pair m"] by linarith
  have l_Price: "length (feed_Price m) < 2 ^ 63" using sz size_string_ge [of "feed_Price m"] by linarith
  define bz where "bz = put_string 10 (feed_Validator m)
       (put_string 18 (feed_Pair m)
       (put_string 26 (feed_Price m)
       (put_int64 32 (feed_BlockHeight m)
       [])))"
  show size: "api_OracleFeed_size R (Some (api_of_OracleFeed m)) = OracleFeed_Size m"
    by (simp add: api_OracleFeed_size_def api_of_OracleFeed_def OracleFeed_Size_def rt_size_eq(3) [OF R]  rt_size_eq(2) [OF R l_Validator] rt_put_eq(2) [OF R l_Validator] rt_size_eq(2) [OF R l_Pair] rt_put_eq(2) [OF R l_Pair] rt_size_eq(2) [OF R l_Price] rt_put_eq(2) [OF R l_Price])
  have "api_OracleFeed_marshal R [] (Some (api_of_OracleFeed m)) = rt_buffer [] (OracleFeed_Size m) bz"
    by (simp add: api_OracleFeed_marshal_def size) (simp add: api_of_OracleFeed_def bz_def rt_put_eq(3) [OF R]  rt_size_eq(2) [OF R l_Validator] rt_put_eq(2) [OF R l_Validator] rt_size_eq(2) [OF R l_Pair] rt_put_eq(2) [OF R l_Pair] rt_size_eq(2) [OF R l_Price] rt_put_eq(2) [OF R l_Price])
  moreover have "OracleFeed_Marshal m = sized_buffer (OracleFeed_Size m) (Ok bz)"
    by (simp add: OracleFeed_Marshal_def OracleFeed_MarshalToSizedBuffer_def bz_def rt_size_eq(2) [OF R l_Validator] rt_put_eq(2) [OF R l_Validator] rt_size_eq(2) [OF R l_Pair] rt_put_eq(2) [OF R l_Pair] rt_size_eq(2) [OF R l_Price] rt_put_eq(2) [OF R l_Price])
  moreover have "length bz = OracleFeed_Size m" by (simp add: bz_def OracleFeed_Size_def rt_size_eq(2) [OF R l_Validator] rt_put_eq(2) [OF R l_Validator] rt_size_eq(2) [OF R l_Pair] rt_put_eq(2) [OF R l_Pair] rt_size_eq(2) [OF R l_Price] rt_put_eq(2) [OF R l_Price])
  ultimately show "api_OracleFeed_marshal R [] (Some (api_of_OracleFeed m)) = OracleFeed_Marshal m"
    by (simp add: rt_buffer_exact sized_buffer_exact)
qed

lemma OracleFeed_view_wf: "runtime_laws R \<Longrightarrow> OracleFeed_wf m \<Longrightarrow> api_OracleFeed_wf R (api_of_OracleFeed m)"
  using OracleFeed_wire(1) [of R m] by (simp add: api_OracleFeed_wf_def OracleFeed_wf_def) (simp add: api_of_OracleFeed_def )

interpretation OracleFeed_same: same_wire "OracleFeed_Size" "OracleFeed_Marshal" "OracleFeed_Unmarshal" "\<lambda>m. runtime_laws R \<and> OracleFeed_wf m"
    "api_OracleFeed_marshal R []" "\<lambda>bz. api_OracleFeed_unmarshal R discardUnknown bz (Some zero_api_OracleFeed)" "\<lambda>m. Some (api_of_OracleFeed m)" for R discardUnknown
proof
  show "\<exists>bz. OracleFeed_Marshal m = Ok bz \<and> length bz = OracleFeed_Size m \<and> OracleFeed_Unmarshal bz = Ok m"
    if "runtime_laws R \<and> OracleFeed_wf m" for m
    using that by (blast intro: OracleFeed_roundtrip)
next
  show "api_OracleFeed_marshal R [] (Some (api_of_OracleFeed m)) = OracleFeed_Marshal m" if "runtime_laws R \<and> OracleFeed_wf m" for m
    using that OracleFeed_wire(2) by blast
next
  show "api_OracleFeed_unmarshal R discardUnknown bz (Some zero_api_OracleFeed) = Ok (Some (api_of_OracleFeed m))"
    if "runtime_laws R \<and> OracleFeed_wf m" and "api_OracleFeed_marshal R [] (Some (api_of_OracleFeed m)) = Ok bz" for m bz
    using that OracleFeed_view_wf api_OracleFeed_roundtrip by fastforce
qed

subsection \<open>AggregatedPrice\<close>

definition api_of_AggregatedPrice :: "AggregatedPrice \<Rightarrow> api_AggregatedPrice" where
  "api_of_AggregatedPrice m = \<lparr>api_ap_Pair = ap_Pair m, api_ap_Price = ap_Price m, api_ap_BlockHeight = ap_BlockHeight m, api_ap_BlockTime = Some (timestamp_of (ap_BlockTime m)), api_ap_unknownFields = []\<rparr>"

lemma AggregatedPrice_wire:
  assumes R: "runtime_laws R" and T: "timestamps_agree R T" and wf: "AggregatedPrice_wf T m"
  shows "api_AggregatedPrice_size R (Some (api_of_AggregatedPrice m)) = AggregatedPrice_Size T m"
    and "api_AggregatedPrice_marshal R [] (Some (api_of_AggregatedPrice m)) = AggregatedPrice_Marshal T m"
proof -
  have sz: "size_string (ap_Pair m) + size_string (ap_Price m) + size_int64 (ap_BlockHeight m) + size_bytes (SizeOfStdTime T (ap_BlockTime m)) < 2 ^ 63"
    using wf by (simp add: AggregatedPrice_wf_def AggregatedPrice_Size_def)
  have l_Pair: "length (ap_Pair m) < 2 ^ 63" using sz size_string_ge [of "ap_Pair m"] by linarith
  have l_Price: "length (ap_Price m) < 2 ^ 63" using sz size_string_ge [of "ap_Price m"] by linarith
  have "valid_time (ap_BlockTime m)" using wf by (simp add: AggregatedPrice_wf_def)
  then obtain bz_BlockTime where t_BlockTime: "ts_Marshal R (timestamp_of (ap_BlockTime m)) = Ok bz_BlockTime" "StdTimeMarshalTo T (ap_BlockTime m) = Ok bz_BlockTime"
      "ts_Size R (timestamp_of (ap_BlockTime m)) = length bz_BlockTime" "SizeOfStdTime T (ap_BlockTime m) = length bz_BlockTime"
    by (rule agree_time [OF R T])
  have b_BlockTime: "length bz_BlockTime < 2 ^ 63" using sz by (simp add: t_BlockTime size_bytes_def)
  define bz where "bz = put_string 10 (ap_Pair m)
       (put_string 18 (ap_Price m)
       (put_int64 24 (ap_BlockHeight m)
       (put_bytes 34 bz_BlockTime
       [])))"
  show size: "api_AggregatedPrice_size R (Some (api_of_AggregatedPrice m)) = AggregatedPrice_Size T m"
    by (simp add: api_AggregatedPrice_size_def api_of_AggregatedPrice_def AggregatedPrice_Size_def rt_size_eq(3) [OF R] rt_size_message_def rt_marshal_message_def rt_put_message_def timestamp_size_def timestamp_marshal_def rt_size_eq(2) [OF R l_Pair] rt_put_eq(2) [OF R l_Pair] rt_size_eq(2) [OF R l_Price] rt_put_eq(2) [OF R l_Price] t_BlockTime rt_size_eq(1) [OF R b_BlockTime] rt_put_eq(1) [OF R b_BlockTime])
  have "api_AggregatedPrice_marshal R [] (Some (api_of_AggregatedPrice m)) = rt_buffer [] (AggregatedPrice_Size T m) bz"
    by (simp add: api_AggregatedPrice_marshal_def size) (simp add: api_of_AggregatedPrice_def bz_def rt_put_eq(3) [OF R] rt_size_message_def rt_marshal_message_def rt_put_message_def timestamp_size_def timestamp_marshal_def rt_size_eq(2) [OF R l_Pair] rt_put_eq(2) [OF R l_Pair] rt_size_eq(2) [OF R l_Price] rt_put_eq(2) [OF R l_Price] t_BlockTime rt_size_eq(1) [OF R b_BlockTime] rt_put_eq(1) [OF R b_BlockTime])
  moreover have "AggregatedPrice_Marshal T m = sized_buffer (AggregatedPrice_Size T m) (Ok bz)"
    by (simp add: AggregatedPrice_Marshal_def AggregatedPrice_MarshalToSizedBuffer_def bz_def rt_size_eq(2) [OF R l_Pair] rt_put_eq(2) [OF R l_Pair] rt_size_eq(2) [OF R l_Price] rt_put_eq(2) [OF R l_Price] t_BlockTime rt_size_eq(1) [OF R b_BlockTime] rt_put_eq(1) [OF R b_BlockTime])
  moreover have "length bz = AggregatedPrice_Size T m" by (simp add: bz_def AggregatedPrice_Size_def rt_size_eq(2) [OF R l_Pair] rt_put_eq(2) [OF R l_Pair] rt_size_eq(2) [OF R l_Price] rt_put_eq(2) [OF R l_Price] t_BlockTime rt_size_eq(1) [OF R b_BlockTime] rt_put_eq(1) [OF R b_BlockTime])
  ultimately show "api_AggregatedPrice_marshal R [] (Some (api_of_AggregatedPrice m)) = AggregatedPrice_Marshal T m"
    by (simp add: rt_buffer_exact sized_buffer_exact)
qed

lemma AggregatedPrice_view_wf: "runtime_laws R \<Longrightarrow> timestamps_agree R T \<Longrightarrow> AggregatedPrice_wf T m \<Longrightarrow> api_AggregatedPrice_wf R (api_of_AggregatedPrice m)"
  using AggregatedPrice_wire(1) [of R T m] by (simp add: api_AggregatedPrice_wf_def AggregatedPrice_wf_def) (simp add: api_of_AggregatedPrice_def valid_timestamp_of)

interpretation AggregatedPrice_same: same_wire "AggregatedPrice_Size T" "AggregatedPrice_Marshal T" "AggregatedPrice_Unmarshal T" "\<lambda>m. runtime_laws R \<and> timestamps_agree R T \<and> time_laws T \<and> AggregatedPrice_wf T m"
    "api_AggregatedPrice_marshal R []" "\<lambda>bz. api_AggregatedPrice_unmarshal R discardUnknown bz (Some zero_api_AggregatedPrice)" "\<lambda>m. Some (api_of_AggregatedPrice m)" for R T discardUnknown
proof
  show "\<exists>bz. AggregatedPrice_Marshal T m = Ok bz \<and> length bz = AggregatedPrice_Size T m \<and> AggregatedPrice_Unmarshal T bz = Ok m"
    if "runtime_laws R \<and> timestamps_agree R T \<and> time_laws T \<and> AggregatedPrice_wf T m" for m
    using that by (blast intro: AggregatedPrice_roundtrip)
next
  show "api_AggregatedPrice_marshal R [] (Some (api_of_AggregatedPrice m)) = AggregatedPrice_Marshal T m" if "runtime_laws R \<and> timestamps_agree R T \<and> time_laws T \<and> AggregatedPrice_wf T m" for m
    using that AggregatedPrice_wire(2) by blast
next
  show "api_AggregatedPrice_unmarshal R discardUnknown bz (Some zero_api_AggregatedPrice) = Ok (Some (api_of_AggregatedPrice m))"
    if "runtime_laws R \<and> timestamps_agree R T \<and> time_laws T \<and> AggregatedPrice_wf T m" and "api_AggregatedPrice_marshal R [] (Some (api_of_AggregatedPrice m)) = Ok bz" for m bz
    using that AggregatedPrice_view_wf api_AggregatedPrice_roundtrip by fastforce
qed

subsection \<open>TWAPEntry\<close>

definition api_of_TWAPEntry :: "TWAPEntry \<Rightarrow> api_TWAPEntry" where
  "api_of_TWAPEntry m = \<lparr>api_te_Pair = te_Pair m, api_te_Price = te_Price m, api_te_BlockTime = Some (timestamp_of (te_BlockTime m)), api_te_unknownFields = []\<rparr>"

lemma TWAPEntry_wire:
  assumes R: "runtime_laws R" and T: "timestamps_agree R T" and wf: "TWAPEntry_wf T m"
  shows "api_TWAPEntry_size R (Some (api_of_TWAPEntry m)) = TWAPEntry_Size T m"
    and "api_TWAPEntry_marshal R [] (Some (api_of_TWAPEntry m)) = TWAPEntry_Marshal T m"
proof -
  have sz: "size_string (te_Pair m) + size_string (te_Price m) + size_bytes (SizeOfStdTime T (te_BlockTime m)) < 2 ^ 63"
    using wf by (simp add: TWAPEntry_wf_def TWAPEntry_Size_def)
  have l_Pair: "length (te_Pair m) < 2 ^ 63" using sz size_string_ge [of "te_Pair m"] by linarith
  have l_Price: "length (te_Price m) < 2 ^ 63" using sz size_string_ge [of "te_Price m"] by linarith
  have "valid_time (te_BlockTime m)" using wf by (simp add: TWAPEntry_wf_def)
  then obtain bz_BlockTime where t_BlockTime: "ts_Marshal R (timestamp_of (te_BlockTime m)) = Ok bz_BlockTime" "StdTimeMarshalTo T (te_BlockTime m) = Ok bz_BlockTime"
      "ts_Size R (timestamp_of (te_BlockTime m)) = length bz_BlockTime" "SizeOfStdTime T (te_BlockTime m) = length bz_BlockTime"
    by (rule agree_time [OF R T])
  have b_BlockTime: "length bz_BlockTime < 2 ^ 63" using sz by (simp add: t_BlockTime size_bytes_def)
  define bz where "bz = put_string 10 (te_Pair m)
       (put_string 18 (te_Price m)
       (put_bytes 26 bz_BlockTime
       []))"
  show size: "api_TWAPEntry_size R (Some (api_of_TWAPEntry m)) = TWAPEntry_Size T m"
    by (simp add: api_TWAPEntry_size_def api_of_TWAPEntry_def TWAPEntry_Size_def rt_size_eq(3) [OF R] rt_size_message_def rt_marshal_message_def rt_put_message_def timestamp_size_def timestamp_marshal_def rt_size_eq(2) [OF R l_Pair] rt_put_eq(2) [OF R l_Pair] rt_size_eq(2) [OF R l_Price] rt_put_eq(2) [OF R l_Price] t_BlockTime rt_size_eq(1) [OF R b_BlockTime] rt_put_eq(1) [OF R b_BlockTime])
  have "api_TWAPEntry_marshal R [] (Some (api_of_TWAPEntry m)) = rt_buffer [] (TWAPEntry_Size T m) bz"
    by (simp add: api_TWAPEntry_marshal_def size) (simp add: api_of_TWAPEntry_def bz_def rt_put_eq(3) [OF R] rt_size_message_def rt_marshal_message_def rt_put_message_def timestamp_size_def timestamp_marshal_def rt_size_eq(2) [OF R l_Pair] rt_put_eq(2) [OF R l_Pair] rt_size_eq(2) [OF R l_Price] rt_put_eq(2) [OF R l_Price] t_BlockTime rt_size_eq(1) [OF R b_BlockTime] rt_put_eq(1) [OF R b_BlockTime])
  moreover have "TWAPEntry_Marshal T m = sized_buffer (TWAPEntry_Size T m) (Ok bz)"
    by (simp add: TWAPEntry_Marshal_def TWAPEntry_MarshalToSizedBuffer_def bz_def rt_size_eq(2) [OF R l_Pair] rt_put_eq(2) [OF R l_Pair] rt_size_eq(2) [OF R l_Price] rt_put_eq(2) [OF R l_Price] t_BlockTime rt_size_eq(1) [OF R b_BlockTime] rt_put_eq(1) [OF R b_BlockTime])
  moreover have "length bz = TWAPEntry_Size T m" by (simp add: bz_def TWAPEntry_Size_def rt_size_eq(2) [OF R l_Pair] rt_put_eq(2) [OF R l_Pair] rt_size_eq(2) [OF R l_Price] rt_put_eq(2) [OF R l_Price] t_BlockTime rt_size_eq(1) [OF R b_BlockTime] rt_put_eq(1) [OF R b_BlockTime])
  ultimately show "api_TWAPEntry_marshal R [] (Some (api_of_TWAPEntry m)) = TWAPEntry_Marshal T m"
    by (simp add: rt_buffer_exact sized_buffer_exact)
qed

lemma TWAPEntry_view_wf: "runtime_laws R \<Longrightarrow> timestamps_agree R T \<Longrightarrow> TWAPEntry_wf T m \<Longrightarrow> api_TWAPEntry_wf R (api_of_TWAPEntry m)"
  using TWAPEntry_wire(1) [of R T m] by (simp add: api_TWAPEntry_wf_def TWAPEntry_wf_def) (simp add: api_of_TWAPEntry_def valid_timestamp_of)

interpretation TWAPEntry_same: same_wire "TWAPEntry_Size T" "TWAPEntry_Marshal T" "TWAPEntry_Unmarshal T" "\<lambda>m. runtime_laws R \<and> timestamps_agree R T \<and> time_laws T \<and> TWAPEntry_wf T m"
    "api_TWAPEntry_marshal R []" "\<lambda>bz. api_TWAPEntry_unmarshal R discardUnknown bz (Some zero_api_TWAPEntry)" "\<lambda>m. Some (api_of_TWAPEntry m)" for R T discardUnknown
proof
  show "\<exists>bz. TWAPEntry_Marshal T m = Ok bz \<and> length bz = TWAPEntry_Size T m \<and> TWAPEntry_Unmarshal T bz = Ok m"
    if "runtime_laws R \<and> timestamps_agree R T \<and> time_laws T \<and> TWAPEntry_wf T m" for m
    using that by (blast intro: TWAPEntry_roundtrip)
next
  show "api_TWAPEntry_marshal R [] (Some (api_of_TWAPEntry m)) = TWAPEntry_Marshal T m" if "runtime_laws R \<and> timestamps_agree R T \<and> time_laws T \<and> TWAPEntry_wf T m" for m
    using that TWAPEntry_wire(2) by blast
next
  show "api_TWAPEntry_unmarshal R discardUnknown bz (Some zero_api_TWAPEntry) = Ok (Some (api_of_TWAPEntry m))"
    if "runtime_laws R \<and> timestamps_agree R T \<and> time_laws T \<and> TWAPEntry_wf T m" and "api_TWAPEntry_marshal R [] (Some (api_of_TWAPEntry m)) = Ok bz" for m bz
    using that TWAPEntry_view_wf api_TWAPEntry_roundtrip by fastforce
qed

subsection \<open>OracleParams\<close>

definition api_of_OracleParams :: "OracleParams \<Rightarrow> api_OracleParams" where
  "api_of_OracleParams m = \<lparr>api_op_VoteWindow = op_VoteWindow m, api_op_MissThreshold = op_MissThreshold m, api_op_MissSlashRate = op_MissSlashRate m, api_op_OutlierSlashRate = op_OutlierSlashRate m, api_op_OutlierThreshold = op_OutlierThreshold m, api_op_MissWindowSize = op_MissWindowSize m, api_op_QuorumFraction = op_QuorumFraction m, api_op_MaxPriceAge = op_MaxPriceAge m, api_op_AcceptList = op_AcceptList m, api_op_unknownFields = []\<rparr>"

lemma OracleParams_wire:
  assumes R: "runtime_laws R" and wf: "OracleParams_wf m"
  shows "api_OracleParams_size R (Some (api_of_OracleParams m)) = OracleParams_Size m"
    and "api_OracleParams_marshal R [] (Some (api_of_OracleParams m)) = OracleParams_Marshal m"
proof -
  have sz: "size_int64 (op_VoteWindow m) + size_string (op_MissThreshold m) + size_string (op_MissSlashRate m) + size_string (op_OutlierSlashRate m) + size_string (op_OutlierThreshold m) + size_int64 (op_MissWindowSize m) + size_string (op_QuorumFraction m) + size_int64 (op_MaxPriceAge m) + size_strings (op_AcceptList m) < 2 ^ 63"
    using wf by (simp add: OracleParams_wf_def OracleParams_Size_def)
  have l_MissThreshold: "length (op_MissThreshold m) < 2 ^ 63" using sz size_string_ge [of "op_MissThreshold m"] by linarith
  have l_MissSlashRate: "length (op_MissSlashRate m) < 2 ^ 63" using sz size_string_ge [of "op_MissSlashRate m"] by linarith
  have l_OutlierSlashRate: "length (op_OutlierSlashRate m) < 2 ^ 63" using sz size_string_ge [of "op_OutlierSlashRate m"] by linarith
  have l_OutlierThreshold: "length (op_OutlierThreshold m) < 2 ^ 63" using sz size_string_ge [of "op_OutlierThreshold m"] by linarith
  have l_QuorumFraction: "length (op_QuorumFraction m) < 2 ^ 63" using sz size_string_ge [of "op_QuorumFraction m"] by linarith
  have "size_strings (op_AcceptList m) < 2 ^ 63" using sz by linarith
  then have l_AcceptList: "\<forall>s\<in>set (op_AcceptList m). length s < 2 ^ 63"
    using size_strings_member le_less_trans by blast
  define bz where "bz = put_int64 8 (op_VoteWindow m)
       (put_string 18 (op_MissThreshold m)
       (put_string 26 (op_MissSlashRate m)
       (put_string 34 (op_OutlierSlashRate m)
       (put_string 42 (op_OutlierThreshold m)
       (put_int64 48 (op_MissWindowSize m)
       (put_string 58 (op_QuorumFraction m)
       (put_int64 64 (op_MaxPriceAge m)
       (put_strings 74 (op_AcceptList m)
       []))))))))"
  show size: "api_OracleParams_size R (Some (api_of_OracleParams m)) = OracleParams_Size m"
    by (simp add: api_OracleParams_size_def api_of_OracleParams_def OracleParams_Size_def rt_size_eq(3) [OF R]  rt_size_eq(2) [OF R l_MissThreshold] rt_put_eq(2) [OF R l_MissThreshold] rt_size_eq(2) [OF R l_MissSlashRate] rt_put_eq(2) [OF R l_MissSlashRate] rt_size_eq(2) [OF R l_OutlierSlashRate] rt_put_eq(2) [OF R l_OutlierSlashRate] rt_size_eq(2) [OF R l_OutlierThreshold] rt_put_eq(2) [OF R l_OutlierThreshold] rt_size_eq(2) [OF R l_QuorumFraction] rt_put_eq(2) [OF R l_QuorumFraction] rt_strings_eq [OF R l_AcceptList])
  have "api_OracleParams_marshal R [] (Some (api_of_OracleParams m)) = rt_buffer [] (OracleParams_Size m) bz"
    by (simp add: api_OracleParams_marshal_def size) (simp add: api_of_OracleParams_def bz_def rt_put_eq(3) [OF R]  rt_size_eq(2) [OF R l_MissThreshold] rt_put_eq(2) [OF R l_MissThreshold] rt_size_eq(2) [OF R l_MissSlashRate] rt_put_eq(2) [OF R l_MissSlashRate] rt_size_eq(2) [OF R l_OutlierSlashRate] rt_put_eq(2) [OF R l_OutlierSlashRate] rt_size_eq(2) [OF R l_OutlierThreshold] rt_put_eq(2) [OF R l_OutlierThreshold] rt_size_eq(2) [OF R l_QuorumFraction] rt_put_eq(2) [OF R l_QuorumFraction] rt_strings_eq [OF R l_AcceptList])
  moreover have "OracleParams_Marshal m = sized_buffer (OracleParams_Size m) (Ok bz)"
    by (simp add: OracleParams_Marshal_def OracleParams_MarshalToSizedBuffer_def bz_def rt_size_eq(2) [OF R l_MissThreshold] rt_put_eq(2) [OF R l_MissThreshold] rt_size_eq(2) [OF R l_MissSlashRate] rt_put_eq(2) [OF R l_MissSlashRate] rt_size_eq(2) [OF R l_OutlierSlashRate] rt_put_eq(2) [OF R l_OutlierSlashRate] rt_size_eq(2) [OF R l_OutlierThreshold] rt_put_eq(2) [OF R l_OutlierThreshold] rt_size_eq(2) [OF R l_QuorumFraction] rt_put_eq(2) [OF R l_QuorumFraction] rt_strings_eq [OF R l_AcceptList])
  moreover have "length bz = OracleParams_Size m" by (simp add: bz_def OracleParams_Size_def rt_size_eq(2) [OF R l_MissThreshold] rt_put_eq(2) [OF R l_MissThreshold] rt_size_eq(2) [OF R l_MissSlashRate] rt_put_eq(2) [OF R l_MissSlashRate] rt_size_eq(2) [OF R l_OutlierSlashRate] rt_put_eq(2) [OF R l_OutlierSlashRate] rt_size_eq(2) [OF R l_OutlierThreshold] rt_put_eq(2) [OF R l_OutlierThreshold] rt_size_eq(2) [OF R l_QuorumFraction] rt_put_eq(2) [OF R l_QuorumFraction] rt_strings_eq [OF R l_AcceptList])
  ultimately show "api_OracleParams_marshal R [] (Some (api_of_OracleParams m)) = OracleParams_Marshal m"
    by (simp add: rt_buffer_exact sized_buffer_exact)
qed

lemma OracleParams_view_wf: "runtime_laws R \<Longrightarrow> OracleParams_wf m \<Longrightarrow> api_OracleParams_wf R (api_of_OracleParams m)"
  using OracleParams_wire(1) [of R m] by (simp add: api_OracleParams_wf_def OracleParams_wf_def) (simp add: api_of_OracleParams_def )

interpretation OracleParams_same: same_wire "OracleParams_Size" "OracleParams_Marshal" "OracleParams_Unmarshal" "\<lambda>m. runtime_laws R \<and> OracleParams_wf m"
    "api_OracleParams_marshal R []" "\<lambda>bz. api_OracleParams_unmarshal R discardUnknown bz (Some zero_api_OracleParams)" "\<lambda>m. Some (api_of_OracleParams m)" for R discardUnknown
proof
  show "\<exists>bz. OracleParams_Marshal m = Ok bz \<and> length bz = OracleParams_Size m \<and> OracleParams_Unmarshal bz = Ok m"
    if "runtime_laws R \<and> OracleParams_wf m" for m
    using that by (blast intro: OracleParams_roundtrip)
next
  show "api_OracleParams_marshal R [] (Some (api_of_OracleParams m)) = OracleParams_Marshal m" if "runtime_laws R \<and> OracleParams_wf m" for m
    using that OracleParams_wire(2) by blast
next
  show "api_OracleParams_unmarshal R discardUnknown bz (Some zero_api_OracleParams) = Ok (Some (api_of_OracleParams m))"
    if "runtime_laws R \<and> OracleParams_wf m" and "api_OracleParams_marshal R [] (Some (api_of_OracleParams m)) = Ok bz" for m bz
    using that OracleParams_view_wf api_OracleParams_roundtrip by fastforce
qed

subsection \<open>MsgSetFeeder\<close>

definition api_of_MsgSetFeeder :: "MsgSetFeeder \<Rightarrow> api_MsgSetFeeder" where
  "api_of_MsgSetFeeder m = \<lparr>api_msf_Validator = msf_Validator m, api_msf_Feeder = msf_Feeder m, api_msf_unknownFields = []\<rparr>"

lemma MsgSetFeeder_wire:
  assumes R: "runtime_laws R" and wf: "MsgSetFeeder_wf m"
  shows "api_MsgSetFeeder_size R (Some (api_of_MsgSetFeeder m)) = MsgSetFeeder_Size m"
    and "api_MsgSetFeeder_marshal R [] (Some (api_of_MsgSetFeeder m)) = MsgSetFeeder_Marshal m"
proof -
  have sz: "size_string (msf_Validator m) + size_string (msf_Feeder m) < 2 ^ 63"
    using wf by (simp add: MsgSetFeeder_wf_def MsgSetFeeder_Size_def)
  have l_Validator: "length (msf_Validator m) < 2 ^ 63" using sz size_string_ge [of "msf_Validator m"] by linarith
  have l_Feeder: "length (msf_Feeder m) < 2 ^ 63" using sz size_string_ge [of "msf_Feeder m"] by linarith
  define bz where "bz = put_string 10 (msf_Validator m)
       (put_string 18 (msf_Feeder m)
       [])"
  show size: "api_MsgSetFeeder_size R (Some (api_of_MsgSetFeeder m)) = MsgSetFeeder_Size m"
    by (simp add: api_MsgSetFeeder_size_def api_of_MsgSetFeeder_def MsgSetFeeder_Size_def rt_size_eq(3) [OF R]  rt_size_eq(2) [OF R l_Validator] rt_put_eq(2) [OF R l_Validator] rt_size_eq(2) [OF R l_Feeder] rt_put_eq(2) [OF R l_Feeder])
  have "api_MsgSetFeeder_marshal R [] (Some (api_of_MsgSetFeeder m)) = rt_buffer [] (MsgSetFeeder_Size m) bz"
    by (simp add: api_MsgSetFeeder_marshal_def size) (simp add: api_of_MsgSetFeeder_def bz_def rt_put_eq(3) [OF R]  rt_size_eq(2) [OF R l_Validator] rt_put_eq(2) [OF R l_Validator] rt_size_eq(2) [OF R l_Feeder] rt_put_eq(2) [OF R l_Feeder])
  moreover have "MsgSetFeeder_Marshal m = sized_buffer (MsgSetFeeder_Size m) (Ok bz)"
    by (simp add: MsgSetFeeder_Marshal_def MsgSetFeeder_MarshalToSizedBuffer_def bz_def rt_size_eq(2) [OF R l_Validator] rt_put_eq(2) [OF R l_Validator] rt_size_eq(2) [OF R l_Feeder] rt_put_eq(2) [OF R l_Feeder])
  moreover have "length bz = MsgSetFeeder_Size m" by (simp add: bz_def MsgSetFeeder_Size_def rt_size_eq(2) [OF R l_Validator] rt_put_eq(2) [OF R l_Validator] rt_size_eq(2) [OF R l_Feeder] rt_put_eq(2) [OF R l_Feeder])
  ultimately show "api_MsgSetFeeder_marshal R [] (Some (api_of_MsgSetFeeder m)) = MsgSetFeeder_Marshal m"
    by (simp add: rt_buffer_exact sized_buffer_exact)
qed

lemma MsgSetFeeder_view_wf: "runtime_laws R \<Longrightarrow> MsgSetFeeder_wf m \<Longrightarrow> api_MsgSetFeeder_wf R (api_of_MsgSetFeeder m)"
  using MsgSetFeeder_wire(1) [of R m] by (simp add: api_MsgSetFeeder_wf_def MsgSetFeeder_wf_def) (simp add: api_of_MsgSetFeeder_def )

interpretation MsgSetFeeder_same: same_wire "MsgSetFeeder_Size" "MsgSetFeeder_Marshal" "MsgSetFeeder_Unmarshal" "\<lambda>m. runtime_laws R \<and> MsgSetFeeder_wf m"
    "api_MsgSetFeeder_marshal R []" "\<lambda>bz. api_MsgSetFeeder_unmarshal R discardUnknown bz (Some zero_api_MsgSetFeeder)" "\<lambda>m. Some (api_of_MsgSetFeeder m)" for R discardUnknown
proof
  show "\<exists>bz. MsgSetFeeder_Marshal m = Ok bz \<and> length bz = MsgSetFeeder_Size m \<and> MsgSetFeeder_Unmarshal bz = Ok m"
    if "runtime_laws R \<and> MsgSetFeeder_wf m" for m
    using that by (blast intro: MsgSetFeeder_roundtrip)
next
  show "api_MsgSetFeeder_marshal R [] (Some (api_of_MsgSetFeeder m)) = MsgSetFeeder_Marshal m" if "runtime_laws R \<and> MsgSetFeeder_wf m" for m
    using that MsgSetFeeder_wire(2) by blast
next
  show "api_MsgSetFeeder_unmarshal R discardUnknown bz (Some zero_api_MsgSetFeeder) = Ok (Some (api_of_MsgSetFeeder m))"
    if "runtime_laws R \<and> MsgSetFeeder_wf m" and "api_MsgSetFeeder_marshal R [] (Some (api_of_MsgSetFeeder m)) = Ok bz" for m bz
    using that MsgSetFeeder_view_wf api_MsgSetFeeder_roundtrip by fastforce
qed

subsection \<open>MsgSubmitFeed\<close>

definition api_of_MsgSubmitFeed :: "MsgSubmitFeed \<Rightarrow> api_MsgSubmitFeed" where
  "api_of_MsgSubmitFeed m = \<lparr>api_msb_Feeder = msb_Feeder m, api_msb_Validator = msb_Validator m, api_msb_Pair = msb_Pair m, api_msb_Price = msb_Price m, api_msb_unknownFields = []\<rparr>"

lemma MsgSubmitFeed_wire:
  assumes R: "runtime_laws R" and wf: "MsgSubmitFeed_wf m"
  shows "api_MsgSubmitFeed_size R (Some (api_of_MsgSubmitFeed m)) = MsgSubmitFeed_Size m"
    and "api_MsgSubmitFeed_marshal R [] (Some (api_of_MsgSubmitFeed m)) = MsgSubmitFeed_Marshal m"
proof -
  have sz: "size_string (msb_Feeder m) + size_string (msb_Validator m) + size_string (msb_Pair m) + size_string (msb_Price m) < 2 ^ 63"
    using wf by (simp add: MsgSubmitFeed_wf_def MsgSubmitFeed_Size_def)
  have l_Feeder: "length (msb_Feeder m) < 2 ^ 63" using sz size_string_ge [of "msb_Feeder m"] by linarith
  have l_Validator: "length (msb_Validator m) < 2 ^ 63" using sz size_string_ge [of "msb_Validator m"] by linarith
  have l_Pair: "length (msb_Pair m) < 2 ^ 63" using sz size_string_ge [of "msb_Pair m"] by linarith
  have l_Price: "length (msb_Price m) < 2 ^ 63" using sz size_string_ge [of "msb_Price m"] by linarith
  define bz where "bz = put_string 10 (msb_Feeder m)
       (put_string 18 (msb_Validator m)
       (put_string 26 (msb_Pair m)
       (put_string 34 (msb_Price m)
       [])))"
  show size: "api_MsgSubmitFeed_size R (Some (api_of_MsgSubmitFeed m)) = MsgSubmitFeed_Size m"
    by (simp add: api_MsgSubmitFeed_size_def api_of_MsgSubmitFeed_def MsgSubmitFeed_Size_def rt_size_eq(3) [OF R]  rt_size_eq(2) [OF R l_Feeder] rt_put_eq(2) [OF R l_Feeder] rt_size_eq(2) [OF R l_Validator] rt_put_eq(2) [OF R l_Validator] rt_size_eq(2) [OF R l_Pair] rt_put_eq(2) [OF R l_Pair] rt_size_eq(2) [OF R l_Price] rt_put_eq(2) [OF R l_Price])
  have "api_MsgSubmitFeed_marshal R [] (Some (api_of_MsgSubmitFeed m)) = rt_buffer [] (MsgSubmitFeed_Size m) bz"
    by (simp add: api_MsgSubmitFeed_marshal_def size) (simp add: api_of_MsgSubmitFeed_def bz_def rt_put_eq(3) [OF R]  rt_size_eq(2) [OF R l_Feeder] rt_put_eq(2) [OF R l_Feeder] rt_size_eq(2) [OF R l_Validator] rt_put_eq(2) [OF R l_Validator] rt_size_eq(2) [OF R l_Pair] rt_put_eq(2) [OF R l_Pair] rt_size_eq(2) [OF R l_Price] rt_put_eq(2) [OF R l_Price])
  moreover have "MsgSubmitFeed_Marshal m = sized_buffer (MsgSubmitFeed_Size m) (Ok bz)"
    by (simp add: MsgSubmitFeed_Marshal_def MsgSubmitFeed_MarshalToSizedBuffer_def bz_def rt_size_eq(2) [OF R l_Feeder] rt_put_eq(2) [OF R l_Feeder] rt_size_eq(2) [OF R l_Validator] rt_put_eq(2) [OF R l_Validator] rt_size_eq(2) [OF R l_Pair] rt_put_eq(2) [OF R l_Pair] rt_size_eq(2) [OF R l_Price] rt_put_eq(2) [OF R l_Price])
  moreover have "length bz = MsgSubmitFeed_Size m" by (simp add: bz_def MsgSubmitFeed_Size_def rt_size_eq(2) [OF R l_Feeder] rt_put_eq(2) [OF R l_Feeder] rt_size_eq(2) [OF R l_Validator] rt_put_eq(2) [OF R l_Validator] rt_size_eq(2) [OF R l_Pair] rt_put_eq(2) [OF R l_Pair] rt_size_eq(2) [OF R l_Price] rt_put_eq(2) [OF R l_Price])
  ultimately show "api_MsgSubmitFeed_marshal R [] (Some (api_of_MsgSubmitFeed m)) = MsgSubmitFeed_Marshal m"
    by (simp add: rt_buffer_exact sized_buffer_exact)
qed

lemma MsgSubmitFeed_view_wf: "runtime_laws R \<Longrightarrow> MsgSubmitFeed_wf m \<Longrightarrow> api_MsgSubmitFeed_wf R (api_of_MsgSubmitFeed m)"
  using MsgSubmitFeed_wire(1) [of R m] by (simp add: api_MsgSubmitFeed_wf_def MsgSubmitFeed_wf_def) (simp add: api_of_MsgSubmitFeed_def )

interpretation MsgSubmitFeed_same: same_wire "MsgSubmitFeed_Size" "MsgSubmitFeed_Marshal" "MsgSubmitFeed_Unmarshal" "\<lambda>m. runtime_laws R \<and> MsgSubmitFeed_wf m"
    "api_MsgSubmitFeed_marshal R []" "\<lambda>bz. api_MsgSubmitFeed_unmarshal R discardUnknown bz (Some zero_api_MsgSubmitFeed)" "\<lambda>m. Some (api_of_MsgSubmitFeed m)" for R discardUnknown
proof
  show "\<exists>bz. MsgSubmitFeed_Marshal m = Ok bz \<and> length bz = MsgSubmitFeed_Size m \<and> MsgSubmitFeed_Unmarshal bz = Ok m"
    if "runtime_laws R \<and> MsgSubmitFeed_wf m" for m
    using that by (blast intro: MsgSubmitFeed_roundtrip)
next
  show "api_MsgSubmitFeed_marshal R [] (Some (api_of_MsgSubmitFeed m)) = MsgSubmitFeed_Marshal m" if "runtime_laws R \<and> MsgSubmitFeed_wf m" for m
    using that MsgSubmitFeed_wire(2) by blast
next
  show "api_MsgSubmitFeed_unmarshal R discardUnknown bz (Some zero_api_MsgSubmitFeed) = Ok (Some (api_of_MsgSubmitFeed m))"
    if "runtime_laws R \<and> MsgSubmitFeed_wf m" and "api_MsgSubmitFeed_marshal R [] (Some (api_of_MsgSubmitFeed m)) = Ok bz" for m bz
    using that MsgSubmitFeed_view_wf api_MsgSubmitFeed_roundtrip by fastforce
qed

subsection \<open>MsgUpdateParams\<close>

definition api_of_MsgUpdateParams :: "MsgUpdateParams \<Rightarrow> api_MsgUpdateParams" where
  "api_of_MsgUpdateParams m = \<lparr>api_mup_Authority = mup_Authority m, api_mup_Params = Some (api_of_OracleParams (mup_Params m)), api_mup_unknownFields = []\<rparr>"

lemma MsgUpdateParams_wire:
  assumes R: "runtime_laws R" and wf: "MsgUpdateParams_wf m"
  shows "api_MsgUpdateParams_size R (Some (api_of_MsgUpdateParams m)) = MsgUpdateParams_Size m"
    and "api_MsgUpdateParams_marshal R [] (Some (api_of_MsgUpdateParams m)) = MsgUpdateParams_Marshal m"
proof -
  have sz: "size_string (mup_Authority m) + size_bytes (OracleParams_Size (mup_Params m)) < 2 ^ 63"
    using wf by (simp add: MsgUpdateParams_wf_def MsgUpdateParams_Size_def)
  have l_Authority: "length (mup_Authority m) < 2 ^ 63" using sz size_string_ge [of "mup_Authority m"] by linarith
  have wp: "OracleParams_wf (mup_Params m)" using wf by (simp add: MsgUpdateParams_wf_def)
  then obtain bz_Params where t_Params: "OracleParams_MarshalToSizedBuffer (mup_Params m) = Ok bz_Params" "length bz_Params = OracleParams_Size (mup_Params m)"
    by (rule OracleParams_written)
  have m_Params: "OracleParams_Marshal (mup_Params m) = Ok bz_Params" by (simp add: OracleParams_Marshal_def t_Params sized_buffer_exact)
  have b_Params: "length bz_Params < 2 ^ 63" using sz by (simp add: t_Params size_bytes_def)
  have c_Params: "OracleParams_Size (mup_Params m) < 2 ^ 63" using b_Params by (simp add: t_Params)
  define bz where "bz = put_string 10 (mup_Authority m)
       (put_bytes 18 bz_Params
       [])"
  show size: "api_MsgUpdateParams_size R (Some (api_of_MsgUpdateParams m)) = MsgUpdateParams_Size m"
    by (simp add: api_MsgUpdateParams_size_def api_of_MsgUpdateParams_def MsgUpdateParams_Size_def rt_size_eq(3) [OF R] rt_size_message_def rt_marshal_message_def rt_put_message_def timestamp_size_def timestamp_marshal_def rt_size_eq(2) [OF R l_Authority] rt_put_eq(2) [OF R l_Authority] t_Params m_Params OracleParams_wire [OF R wp] rt_size_eq(1) [OF R c_Params] rt_put_eq(1) [OF R b_Params])
  have "api_MsgUpdateParams_marshal R [] (Some (api_of_MsgUpdateParams m)) = rt_buffer [] (MsgUpdateParams_Size m) bz"
    by (simp add: api_MsgUpdateParams_marshal_def size) (simp add: api_of_MsgUpdateParams_def bz_def rt_put_eq(3) [OF R] rt_size_message_def rt_marshal_message_def rt_put_message_def timestamp_size_def timestamp_marshal_def rt_size_eq(2) [OF R l_Authority] rt_put_eq(2) [OF R l_Authority] t_Params m_Params OracleParams_wire [OF R wp] rt_size_eq(1) [OF R c_Params] rt_put_eq(1) [OF R b_Params])
  moreover have "MsgUpdateParams_Marshal m = sized_buffer (MsgUpdateParams_Size m) (Ok bz)"
    by (simp add: MsgUpdateParams_Marshal_def MsgUpdateParams_MarshalToSizedBuffer_def bz_def rt_size_eq(2) [OF R l_Authority] rt_put_eq(2) [OF R l_Authority] t_Params m_Params OracleParams_wire [OF R wp] rt_size_eq(1) [OF R c_Params] rt_put_eq(1) [OF R b_Params])
  moreover have "length bz = MsgUpdateParams_Size m" by (simp add: bz_def MsgUpdateParams_Size_def rt_size_eq(2) [OF R l_Authority] rt_put_eq(2) [OF R l_Authority] t_Params m_Params OracleParams_wire [OF R wp] rt_size_eq(1) [OF R c_Params] rt_put_eq(1) [OF R b_Params])
  ultimately show "api_MsgUpdateParams_marshal R [] (Some (api_of_MsgUpdateParams m)) = MsgUpdateParams_Marshal m"
    by (simp add: rt_buffer_exact sized_buffer_exact)
qed

lemma MsgUpdateParams_view_wf: "runtime_laws R \<Longrightarrow> MsgUpdateParams_wf m \<Longrightarrow> api_MsgUpdateParams_wf R (api_of_MsgUpdateParams m)"
  using MsgUpdateParams_wire(1) [of R m] by (simp add: api_MsgUpdateParams_wf_def MsgUpdateParams_wf_def) (simp add: api_of_MsgUpdateParams_def OracleParams_view_wf)

interpretation MsgUpdateParams_same: same_wire "MsgUpdateParams_Size" "MsgUpdateParams_Marshal" "MsgUpdateParams_Unmarshal" "\<lambda>m. runtime_laws R \<and> MsgUpdateParams_wf m"
    "api_MsgUpdateParams_marshal R []" "\<lambda>bz. api_MsgUpdateParams_unmarshal R discardUnknown bz (Some zero_api_MsgUpdateParams)" "\<lambda>m. Some (api_of_MsgUpdateParams m)" for R discardUnknown
proof
  show "\<exists>bz. MsgUpdateParams_Marshal m = Ok bz \<and> length bz = MsgUpdateParams_Size m \<and> MsgUpdateParams_Unmarshal bz = Ok m"
    if "runtime_laws R \<and> MsgUpdateParams_wf m" for m
    using that by (blast intro: MsgUpdateParams_roundtrip)
next
  show "api_MsgUpdateParams_marshal R [] (Some (api_of_MsgUpdateParams m)) = MsgUpdateParams_Marshal m" if "runtime_laws R \<and> MsgUpdateParams_wf m" for m
    using that MsgUpdateParams_wire(2) by blast
next
  show "api_MsgUpdateParams_unmarshal R discardUnknown bz (Some zero_api_MsgUpdateParams) = Ok (Some (api_of_MsgUpdateParams m))"
    if "runtime_laws R \<and> MsgUpdateParams_wf m" and "api_MsgUpdateParams_marshal R [] (Some (api_of_MsgUpdateParams m)) = Ok bz" for m bz
    using that MsgUpdateParams_view_wf api_MsgUpdateParams_roundtrip by fastforce
qed

subsection \<open>AssetRecord\<close>

definition api_of_AssetRecord :: "AssetRecord \<Rightarrow> api_AssetRecord" where
  "api_of_AssetRecord m = \<lparr>api_ar_AssetId = ar_AssetId m, api_ar_Issuer = ar_Issuer m, api_ar_Name = ar_Name m, api_ar_Description = ar_Description m, api_ar_Status = ar_Status m, api_ar_OraclePair = ar_OraclePair m, api_ar_Denom = ar_Denom m, api_ar_Bond = ar_Bond m, api_ar_NotionalMinted = ar_NotionalMinted m, api_ar_AllowAll = ar_AllowAll m, api_ar_AttestedPrice = ar_AttestedPrice m, api_ar_AttestedAt = Some (timestamp_of (ar_AttestedAt m)), api_ar_CreatedAt = Some (timestamp_of (ar_CreatedAt m)), api_ar_SettledAt = Some (timestamp_of (ar_SettledAt m)), api_ar_unknownFields = []\<rparr>"

lemma AssetRecord_wire:
  assumes R: "runtime_laws R" and T: "timestamps_agree R T" and wf: "AssetRecord_wf T m"
  shows "api_AssetRecord_size R (Some (api_of_AssetRecord m)) = AssetRecord_Size T m"
    and "api_AssetRecord_marshal R [] (Some (api_of_AssetRecord m)) = AssetRecord_Marshal T m"
proof -
  have sz: "size_string (ar_AssetId m) + size_string (ar_Issuer m) + size_string (ar_Name m) + size_string (ar_Description m) + size_int64 (ar_Status m) + size_string (ar_OraclePair m) + size_string (ar_Denom m) + size_string (ar_Bond m) + size_string (ar_NotionalMinted m) + size_bool (ar_AllowAll m) + size_string (ar_AttestedPrice m) + size_bytes (SizeOfStdTime T (ar_AttestedAt m)) + size_bytes (SizeOfStdTime T (ar_CreatedAt m)) + size_bytes (SizeOfStdTime T (ar_SettledAt m)) < 2 ^ 63"
    using wf by (simp add: AssetRecord_wf_def AssetRecord_Size_def)
  have l_AssetId: "length (ar_AssetId m) < 2 ^ 63" using sz size_string_ge [of "ar_AssetId m"] by linarith
  have l_Issuer: "length (ar_Issuer m) < 2 ^ 63" using sz size_string_ge [of "ar_Issuer m"] by linarith
  have l_Name: "length (ar_Name m) < 2 ^ 63" using sz size_string_ge [of "ar_Name m"] by linarith
  have l_Description: "length (ar_Description m) < 2 ^ 63" using sz size_string_ge [of "ar_Description m"] by linarith
  have l_OraclePair: "length (ar_OraclePair m) < 2 ^ 63" using sz size_string_ge [of "ar_OraclePair m"] by linarith
  have l_Denom: "length (ar_Denom m) < 2 ^ 63" using sz size_string_ge [of "ar_Denom m"] by linarith
  have l_Bond: "length (ar_Bond m) < 2 ^ 63" using sz size_string_ge [of "ar_Bond m"] by linarith
  have l_NotionalMinted: "length (ar_NotionalMinted m) < 2 ^ 63" using sz size_string_ge [of "ar_NotionalMinted m"] by linarith
  have l_AttestedPrice: "length (ar_AttestedPrice m) < 2 ^ 63" using sz size_string_ge [of "ar_AttestedPrice m"] by linarith
  have "valid_time (ar_AttestedAt m)" using wf by (simp add: AssetRecord_wf_def)
  then obtain bz_AttestedAt where t_AttestedAt: "ts_Marshal R (timestamp_of (ar_AttestedAt m)) = Ok bz_AttestedAt" "StdTimeMarshalTo T (ar_AttestedAt m) = Ok bz_AttestedAt"
      "ts_Size R (timestamp_of (ar_AttestedAt m)) = length bz_AttestedAt" "SizeOfStdTime T (ar_AttestedAt m) = length bz_AttestedAt"
    by (rule agree_time [OF R T])
  have b_AttestedAt: "length bz_AttestedAt < 2 ^ 63" using sz by (simp add: t_AttestedAt size_bytes_def)
  have "valid_time (ar_CreatedAt m)" using wf by (simp add: AssetRecord_wf_def)
  then obtain bz_CreatedAt where t_CreatedAt: "ts_Marshal R (timestamp_of (ar_CreatedAt m)) = Ok bz_CreatedAt" "StdTimeMarshalTo T (ar_CreatedAt m) = Ok bz_CreatedAt"
      "ts_Size R (timestamp_of (ar_CreatedAt m)) = length bz_CreatedAt" "SizeOfStdTime T (ar_CreatedAt m) = length bz_CreatedAt"
    by (rule agree_time [OF R T])
  have b_CreatedAt: "length bz_CreatedAt < 2 ^ 63" using sz by (simp add: t_CreatedAt size_bytes_def)
  have "valid_time (ar_SettledAt m)" using wf by (simp add: AssetRecord_wf_def)
  then obtain bz_SettledAt where t_SettledAt: "ts_Marshal R (timestamp_of (ar_SettledAt m)) = Ok bz_SettledAt" "StdTimeMarshalTo T (ar_SettledAt m) = Ok bz_SettledAt"
      "ts_Size R (timestamp_of (ar_SettledAt m)) = length bz_SettledAt" "SizeOfStdTime T (ar_SettledAt m) = length bz_SettledAt"
    by (rule agree_time [OF R T])
  have b_SettledAt: "length bz_SettledAt < 2 ^ 63" using sz by (simp add: t_SettledAt size_bytes_def)
  define bz where "bz = put_string 10 (ar_AssetId m)
       (put_string 18 (ar_Issuer m)
       (put_string 26 (ar_Name m)
       (put_string 34 (ar_Description m)
       (put_int64 40 (ar_Status m)
       (put_string 50 (ar_OraclePair m)
       (put_string 58 (ar_Denom m)
       (put_string 66 (ar_Bond m)
       (put_string 74 (ar_NotionalMinted m)
       (put_bool 80 (ar_AllowAll m)
       (put_string 90 (ar_AttestedPrice m)
       (put_bytes 98 bz_AttestedAt
       (put_bytes 106 bz_CreatedAt
       (put_bytes 114 bz_SettledAt
       [])))))))))))))"
  show size: "api_AssetRecord_size R (Some (api_of_AssetRecord m)) = AssetRecord_Size T m"
    by (simp add: api_AssetRecord_size_def api_of_AssetRecord_def AssetRecord_Size_def rt_size_eq(3) [OF R] rt_size_message_def rt_marshal_message_def rt_put_message_def timestamp_size_def timestamp_marshal_def rt_size_eq(2) [OF R l_AssetId] rt_put_eq(2) [OF R l_AssetId] rt_size_eq(2) [OF R l_Issuer] rt_put_eq(2) [OF R l_Issuer] rt_size_eq(2) [OF R l_Name] rt_put_eq(2) [OF R l_Name] rt_size_eq(2) [OF R l_Description] rt_put_eq(2) [OF R l_Description] rt_size_eq(2) [OF R l_OraclePair] rt_put_eq(2) [OF R l_OraclePair] rt_size_eq(2) [OF R l_Denom] rt_put_eq(2) [OF R l_Denom] rt_size_eq(2) [OF R l_Bond] rt_put_eq(2) [OF R l_Bond] rt_size_eq(2) [OF R l_NotionalMinted] rt_put_eq(2) [OF R l_NotionalMinted] rt_size_eq(2) [OF R l_AttestedPrice] rt_put_eq(2) [OF R l_AttestedPrice] t_AttestedAt rt_size_eq(1) [OF R b_AttestedAt] rt_put_eq(1) [OF R b_AttestedAt] t_CreatedAt rt_size_eq(1) [OF R b_CreatedAt] rt_put_eq(1) [OF R b_CreatedAt] t_SettledAt rt_size_eq(1) [OF R b_SettledAt] rt_put_eq(1) [OF R b_SettledAt])
  have "api_AssetRecord_marshal R [] (Some (api_of_AssetRecord m)) = rt_buffer [] (AssetRecord_Size T m) bz"
    by (simp add: api_AssetRecord_marshal_def size) (simp add: api_of_AssetRecord_def bz_def rt_put_eq(3) [OF R] rt_size_message_def rt_marshal_message_def rt_put_message_def timestamp_size_def timestamp_marshal_def rt_size_eq(2) [OF R l_AssetId] rt_put_eq(2) [OF R l_AssetId] rt_size_eq(2) [OF R l_Issuer] rt_put_eq(2) [OF R l_Issuer] rt_size_eq(2) [OF R l_Name] rt_put_eq(2) [OF R l_Name] rt_size_eq(2) [OF R l_Description] rt_put_eq(2) [OF R l_Description] rt_size_eq(2) [OF R l_OraclePair] rt_put_eq(2) [OF R l_OraclePair] rt_size_eq(2) [OF R l_Denom] rt_put_eq(2) [OF R l_Denom] rt_size_eq(2) [OF R l_Bond] rt_put_eq(2) [OF R l_Bond] rt_size_eq(2) [OF R l_NotionalMinted] rt_put_eq(2) [OF R l_NotionalMinted] rt_size_eq(2) [OF R l_AttestedPrice] rt_put_eq(2) [OF R l_AttestedPrice] t_AttestedAt rt_size_eq(1) [OF R b_AttestedAt] rt_put_eq(1) [OF R b_AttestedAt] t_CreatedAt rt_size_eq(1) [OF R b_CreatedAt] rt_put_eq(1) [OF R b_CreatedAt] t_SettledAt rt_size_eq(1) [OF R b_SettledAt] rt_put_eq(1) [OF R b_SettledAt])
  moreover have "AssetRecord_Marshal T m = sized_buffer (AssetRecord_Size T m) (Ok bz)"
    by (simp add: AssetRecord_Marshal_def AssetRecord_MarshalToSizedBuffer_def bz_def rt_size_eq(2) [OF R l_AssetId] rt_put_eq(2) [OF R l_AssetId] rt_size_eq(2) [OF R l_Issuer] rt_put_eq(2) [OF R l_Issuer] rt_size_eq(2) [OF R l_Name] rt_put_eq(2) [OF R l_Name] rt_size_eq(2) [OF R l_Description] rt_put_eq(2) [OF R l_Description] rt_size_eq(2) [OF R l_OraclePair] rt_put_eq(2) [OF R l_OraclePair] rt_size_eq(2) [OF R l_Denom] rt_put_eq(2) [OF R l_Denom] rt_size_eq(2) [OF R l_Bond] rt_put_eq(2) [OF R l_Bond] rt_size_eq(2) [OF R l_NotionalMinted] rt_put_eq(2) [OF R l_NotionalMinted] rt_size_eq(2) [OF R l_AttestedPrice] rt_put_eq(2) [OF R l_AttestedPrice] t_AttestedAt rt_size_eq(1) [OF R b_AttestedAt] rt_put_eq(1) [OF R b_AttestedAt] t_CreatedAt rt_size_eq(1) [OF R b_CreatedAt] rt_put_eq(1) [OF R b_CreatedAt] t_SettledAt rt_size_eq(1) [OF R b_SettledAt] rt_put_eq(1) [OF R b_SettledAt])
  moreover have "length bz = AssetRecord_Size T m" by (simp add: bz_def AssetRecord_Size_def rt_size_eq(2) [OF R l_AssetId] rt_put_eq(2) [OF R l_AssetId] rt_size_eq(2) [OF R l_Issuer] rt_put_eq(2) [OF R l_Issuer] rt_size_eq(2) [OF R l_Name] rt_put_eq(2) [OF R l_Name] rt_size_eq(2) [OF R l_Description] rt_put_eq(2) [OF R l_Description] rt_size_eq(2) [OF R l_OraclePair] rt_put_eq(2) [OF R l_OraclePair] rt_size_eq(2) [OF R l_Denom] rt_put_eq(2) [OF R l_Denom] rt_size_eq(2) [OF R l_Bond] rt_put_eq(2) [OF R l_Bond] rt_size_eq(2) [OF R l_NotionalMinted] rt_put_eq(2) [OF R l_NotionalMinted] rt_size_eq(2) [OF R l_AttestedPrice] rt_put_eq(2) [OF R l_AttestedPrice] t_AttestedAt rt_size_eq(1) [OF R b_AttestedAt] rt_put_eq(1) [OF R b_AttestedAt] t_CreatedAt rt_size_eq(1) [OF R b_CreatedAt] rt_put_eq(1) [OF R b_CreatedAt] t_SettledAt rt_size_eq(1) [OF R b_SettledAt] rt_put_eq(1) [OF R b_SettledAt])
  ultimately show "api_AssetRecord_marshal R [] (Some (api_of_AssetRecord m)) = AssetRecord_Marshal T m"
    by (simp add: rt_buffer_exact sized_buffer_exact)
qed

lemma AssetRecord_view_wf: "runtime_laws R \<Longrightarrow> timestamps_agree R T \<Longrightarrow> AssetRecord_wf T m \<Longrightarrow> api_AssetRecord_wf R (api_of_AssetRecord m)"
  using AssetRecord_wire(1) [of R T m] by (simp add: api_AssetRecord_wf_def AssetRecord_wf_def) (simp add: api_of_AssetRecord_def valid_timestamp_of)

interpretation AssetRecord_same: same_wire "AssetRecord_Size T" "AssetRecord_Marshal T" "AssetRecord_Unmarshal T" "\<lambda>m. runtime_laws R \<and> timestamps_agree R T \<and> time_laws T \<and> AssetRecord_wf T m"
    "api_AssetRecord_marshal R []" "\<lambda>bz. api_AssetRecord_unmarshal R discardUnknown bz (Some zero_api_AssetRecord)" "\<lambda>m. Some (api_of_AssetRecord m)" for R T discardUnknown
proof
  show "\<exists>bz. AssetRecord_Marshal T m = Ok bz \<and> length bz = AssetRecord_Size T m \<and> AssetRecord_Unmarshal T bz = Ok m"
    if "runtime_laws R \<and> timestamps_agree R T \<and> time_laws T \<and> AssetRecord_wf T m" for m
    using that by (blast intro: AssetRecord_roundtrip)
next
  show "api_AssetRecord_marshal R [] (Some (api_of_AssetRecord m)) = AssetRecord_Marshal T m" if "runtime_laws R \<and> timestamps_agree R T \<and> time_laws T \<and> AssetRecord_wf T m" for m
    using that AssetRecord_wire(2) by blast
next
  show "api_AssetRecord_unmarshal R discardUnknown bz (Some zero_api_AssetRecord) = Ok (Some (api_of_AssetRecord m))"
    if "runtime_laws R \<and> timestamps_agree R T \<and> time_laws T \<and> AssetRecord_wf T m" and "api_AssetRecord_marshal R [] (Some (api_of_AssetRecord m)) = Ok bz" for m bz
    using that AssetRecord_view_wf api_AssetRecord_roundtrip by fastforce
qed

subsection \<open>RWAParams\<close>

definition api_of_RWAParams :: "RWAParams \<Rightarrow> api_RWAParams" where
  "api_of_RWAParams m = \<lparr>api_rp_MinIssuerBond = rp_MinIssuerBond m, api_rp_MintFeeRate = rp_MintFeeRate m, api_rp_SettleFeeRate = rp_SettleFeeRate m, api_rp_unknownFields = []\<rparr>"

lemma RWAParams_wire:
  assumes R: "runtime_laws R" and wf: "RWAParams_wf m"
  shows "api_RWAParams_size R (Some (api_of_RWAParams m)) = RWAParams_Size m"
    and "api_RWAParams_marshal R [] (Some (api_of_RWAParams m)) = RWAParams_Marshal m"
proof -
  have sz: "size_string (rp_MinIssuerBond m) + size_string (rp_MintFeeRate m) + size_string (rp_SettleFeeRate m) < 2 ^ 63"
    using wf by (simp add: RWAParams_wf_def RWAParams_Size_def)
  have l_MinIssuerBond: "length (rp_MinIssuerBond m) < 2 ^ 63" using sz size_string_ge [of "rp_MinIssuerBond m"] by linarith
  have l_MintFeeRate: "length (rp_MintFeeRate m) < 2 ^ 63" using sz size_string_ge [of "rp_MintFeeRate m"] by linarith
  have l_SettleFeeRate: "length (rp_SettleFeeRate m) < 2 ^ 63" using sz size_string_ge [of "rp_SettleFeeRate m"] by linarith
  define bz where "bz = put_string 10 (rp_MinIssuerBond m)
       (put_string 18 (rp_MintFeeRate m)
       (put_string 26 (rp_SettleFeeRate m)
       []))"
  show size: "api_RWAParams_size R (Some (api_of_RWAParams m)) = RWAParams_Size m"
    by (simp add: api_RWAParams_size_def api_of_RWAParams_def RWAParams_Size_def rt_size_eq(3) [OF R]  rt_size_eq(2) [OF R l_MinIssuerBond] rt_put_eq(2) [OF R l_MinIssuerBond] rt_size_eq(2) [OF R l_MintFeeRate] rt_put_eq(2) [OF R l_MintFeeRate] rt_size_eq(2) [OF R l_SettleFeeRate] rt_put_eq(2) [OF R l_SettleFeeRate])
  have "api_RWAParams_marshal R [] (Some (api_of_RWAParams m)) = rt_buffer [] (RWAParams_Size m) bz"
    by (simp add: api_RWAParams_marshal_def size) (simp add: api_of_RWAParams_def bz_def rt_put_eq(3) [OF R]  rt_size_eq(2) [OF R l_MinIssuerBond] rt_put_eq(2) [OF R l_MinIssuerBond] rt_size_eq(2) [OF R l_MintFeeRate] rt_put_eq(2) [OF R l_MintFeeRate] rt_size_eq(2) [OF R l_SettleFeeRate] rt_put_eq(2) [OF R l_SettleFeeRate])
  moreover have "RWAParams_Marshal m = sized_buffer (RWAParams_Size m) (Ok bz)"
    by (simp add: RWAParams_Marshal_def RWAParams_MarshalToSizedBuffer_def bz_def rt_size_eq(2) [OF R l_MinIssuerBond] rt_put_eq(2) [OF R l_MinIssuerBond] rt_size_eq(2) [OF R l_MintFeeRate] rt_put_eq(2) [OF R l_MintFeeRate] rt_size_eq(2) [OF R l_SettleFeeRate] rt_put_eq(2) [OF R l_SettleFeeRate])
  moreover have "length bz = RWAParams_Size m" by (simp add: bz_def RWAParams_Size_def rt_size_eq(2) [OF R l_MinIssuerBond] rt_put_eq(2) [OF R l_MinIssuerBond] rt_size_eq(2) [OF R l_MintFeeRate] rt_put_eq(2) [OF R l_MintFeeRate] rt_size_eq(2) [OF R l_SettleFeeRate] rt_put_eq(2) [OF R l_SettleFeeRate])
  ultimately show "api_RWAParams_marshal R [] (Some (api_of_RWAParams m)) = RWAParams_Marshal m"
    by (simp add: rt_buffer_exact sized_buffer_exact)
qed

lemma RWAParams_view_wf: "runtime_laws R \<Longrightarrow> RWAParams_wf m \<Longrightarrow> api_RWAParams_wf R (api_of_RWAParams m)"
  using RWAParams_wire(1) [of R m] by (simp add: api_RWAParams_wf_def RWAParams_wf_def) (simp add: api_of_RWAParams_def )

interpretation RWAParams_same: same_wire "RWAParams_Size" "RWAParams_Marshal" "RWAParams_Unmarshal" "\<lambda>m. runtime_laws R \<and> RWAParams_wf m"
    "api_RWAParams_marshal R []" "\<lambda>bz. api_RWAParams_unmarshal R discardUnknown bz (Some zero_api_RWAParams)" "\<lambda>m. Some (api_of_RWAParams m)" for R discardUnknown
proof
  show "\<exists>bz. RWAParams_Marshal m = Ok bz \<and> length bz = RWAParams_Size m \<and> RWAParams_Unmarshal bz = Ok m"
    if "runtime_laws R \<and> RWAParams_wf m" for m
    using that by (blast intro: RWAParams_roundtrip)
next
  show "api_RWAParams_marshal R [] (Some (api_of_RWAParams m)) = RWAParams_Marshal m" if "runtime_laws R \<and> RWAParams_wf m" for m
    using that RWAParams_wire(2) by blast
next
  show "api_RWAParams_unmarshal R discardUnknown bz (Some zero_api_RWAParams) = Ok (Some (api_of_RWAParams m))"
    if "runtime_laws R \<and> RWAParams_wf m" and "api_RWAParams_marshal R [] (Some (api_of_RWAParams m)) = Ok bz" for m bz
    using that RWAParams_view_wf api_RWAParams_roundtrip by fastforce
qed

subsection \<open>MsgRegisterAsset\<close>

definition api_of_MsgRegisterAsset :: "MsgRegisterAsset \<Rightarrow> api_MsgRegisterAsset" where
  "api_of_MsgRegisterAsset m = \<lparr>api_mra_Issuer = mra_Issuer m, api_mra_AssetId = mra_AssetId m, api_mra_Name = mra_Name m, api_mra_Description = mra_Description m, api_mra_OraclePair = mra_OraclePair m, api_mra_Bond = mra_Bond m, api_mra_unknownFields = []\<rparr>"

lemma MsgRegisterAsset_wire:
  assumes R: "runtime_laws R" and wf: "MsgRegisterAsset_wf m"
  shows "api_MsgRegisterAsset_size R (Some (api_of_MsgRegisterAsset m)) = MsgRegisterAsset_Size m"
    and "api_MsgRegisterAsset_marshal R [] (Some (api_of_MsgRegisterAsset m)) = MsgRegisterAsset_Marshal m"
proof -
  have sz: "size_string (mra_Issuer m) + size_string (mra_AssetId m) + size_string (mra_Name m) + size_string (mra_Description m) + size_string (mra_OraclePair m) + size_string (mra_Bond m) < 2 ^ 63"
    using wf by (simp add: MsgRegisterAsset_wf_def MsgRegisterAsset_Size_def)
  have l_Issuer: "length (mra_Issuer m) < 2 ^ 63" using sz size_string_ge [of "mra_Issuer m"] by linarith
  have l_AssetId: "length (mra_AssetId m) < 2 ^ 63" using sz size_string_ge [of "mra_AssetId m"] by linarith
  have l_Name: "length (mra_Name m) < 2 ^ 63" using sz size_string_ge [of "mra_Name m"] by linarith
  have l_Description: "length (mra_Description m) < 2 ^ 63" using sz size_string_ge [of "mra_Description m"] by linarith
  have l_OraclePair: "length (mra_OraclePair m) < 2 ^ 63" using sz size_string_ge [of "mra_OraclePair m"] by linarith
  have l_Bond: "length (mra_Bond m) < 2 ^ 63" using sz size_string_ge [of "mra_Bond m"] by linarith
  define bz where "bz = put_string 10 (mra_Issuer m)
       (put_string 18 (mra_AssetId m)
       (put_string 26 (mra_Name m)
       (put_string 34 (mra_Description m)
       (put_string 42 (mra_OraclePair m)
       (put_string 50 (mra_Bond m)
       [])))))"
  show size: "api_MsgRegisterAsset_size R (Some (api_of_MsgRegisterAsset m)) = MsgRegisterAsset_Size m"
    by (simp add: api_MsgRegisterAsset_size_def api_of_MsgRegisterAsset_def MsgRegisterAsset_Size_def rt_size_eq(3) [OF R]  rt_size_eq(2) [OF R l_Issuer] rt_put_eq(2) [OF R l_Issuer] rt_size_eq(2) [OF R l_AssetId] rt_put_eq(2) [OF R l_AssetId] rt_size_eq(2) [OF R l_Name] rt_put_eq(2) [OF R l_Name] rt_size_eq(2) [OF R l_Description] rt_put_eq(2) [OF R l_Description] rt_size_eq(2) [OF R l_OraclePair] rt_put_eq(2) [OF R l_OraclePair] rt_size_eq(2) [OF R l_Bond] rt_put_eq(2) [OF R l_Bond])
  have "api_MsgRegisterAsset_marshal R [] (Some (api_of_MsgRegisterAsset m)) = rt_buffer [] (MsgRegisterAsset_Size m) bz"
    by (simp add: api_MsgRegisterAsset_marshal_def size) (simp add: api_of_MsgRegisterAsset_def bz_def rt_put_eq(3) [OF R]  rt_size_eq(2) [OF R l_Issuer] rt_put_eq(2) [OF R l_Issuer] rt_size_eq(2) [OF R l_AssetId] rt_put_eq(2) [OF R l_AssetId] rt_size_eq(2) [OF R l_Name] rt_put_eq(2) [OF R l_Name] rt_size_eq(2) [OF R l_Description] rt_put_eq(2) [OF R l_Description] rt_size_eq(2) [OF R l_OraclePair] rt_put_eq(2) [OF R l_OraclePair] rt_size_eq(2) [OF R l_Bond] rt_put_eq(2) [OF R l_Bond])
  moreover have "MsgRegisterAsset_Marshal m = sized_buffer (MsgRegisterAsset_Size m) (Ok bz)"
    by (simp add: MsgRegisterAsset_Marshal_def MsgRegisterAsset_MarshalToSizedBuffer_def bz_def rt_size_eq(2) [OF R l_Issuer] rt_put_eq(2) [OF R l_Issuer] rt_size_eq(2) [OF R l_AssetId] rt_put_eq(2) [OF R l_AssetId] rt_size_eq(2) [OF R l_Name] rt_put_eq(2) [OF R l_Name] rt_size_eq(2) [OF R l_Description] rt_put_eq(2) [OF R l_Description] rt_size_eq(2) [OF R l_OraclePair] rt_put_eq(2) [OF R l_OraclePair] rt_size_eq(2) [OF R l_Bond] rt_put_eq(2) [OF R l_Bond])
  moreover have "length bz = MsgRegisterAsset_Size m" by (simp add: bz_def MsgRegisterAsset_Size_def rt_size_eq(2) [OF R l_Issuer] rt_put_eq(2) [OF R l_Issuer] rt_size_eq(2) [OF R l_AssetId] rt_put_eq(2) [OF R l_AssetId] rt_size_eq(2) [OF R l_Name] rt_put_eq(2) [OF R l_Name] rt_size_eq(2) [OF R l_Description] rt_put_eq(2) [OF R l_Description] rt_size_eq(2) [OF R l_OraclePair] rt_put_eq(2) [OF R l_OraclePair] rt_size_eq(2) [OF R l_Bond] rt_put_eq(2) [OF R l_Bond])
  ultimately show "api_MsgRegisterAsset_marshal R [] (Some (api_of_MsgRegisterAsset m)) = MsgRegisterAsset_Marshal m"
    by (simp add: rt_buffer_exact sized_buffer_exact)
qed

lemma MsgRegisterAsset_view_wf: "runtime_laws R \<Longrightarrow> MsgRegisterAsset_wf m \<Longrightarrow> api_MsgRegisterAsset_wf R (api_of_MsgRegisterAsset m)"
  using MsgRegisterAsset_wire(1) [of R m] by (simp add: api_MsgRegisterAsset_wf_def MsgRegisterAsset_wf_def) (simp add: api_of_MsgRegisterAsset_def )

interpretation MsgRegisterAsset_same: same_wire "MsgRegisterAsset_Size" "MsgRegisterAsset_Marshal" "MsgRegisterAsset_Unmarshal" "\<lambda>m. runtime_laws R \<and> MsgRegisterAsset_wf m"
    "api_MsgRegisterAsset_marshal R []" "\<lambda>bz. api_MsgRegisterAsset_unmarshal R discardUnknown bz (Some zero_api_MsgRegisterAsset)" "\<lambda>m. Some (api_of_MsgRegisterAsset m)" for R discardUnknown
proof
  show "\<exists>bz. MsgRegisterAsset_Marshal m = Ok bz \<and> length bz = MsgRegisterAsset_Size m \<and> MsgRegisterAsset_Unmarshal bz = Ok m"
    if "runtime_laws R \<and> MsgRegisterAsset_wf m" for m
    using that by (blast intro: MsgRegisterAsset_roundtrip)
next
  show "api_MsgRegisterAsset_marshal R [] (Some (api_of_MsgRegisterAsset m)) = MsgRegisterAsset_Marshal m" if "runtime_laws R \<and> MsgRegisterAsset_wf m" for m
    using that MsgRegisterAsset_wire(2) by blast
next
  show "api_MsgRegisterAsset_unmarshal R discardUnknown bz (Some zero_api_MsgRegisterAsset) = Ok (Some (api_of_MsgRegisterAsset m))"
    if "runtime_laws R \<and> MsgRegisterAsset_wf m" and "api_MsgRegisterAsset_marshal R [] (Some (api_of_MsgRegisterAsset m)) = Ok bz" for m bz
    using that MsgRegisterAsset_view_wf api_MsgRegisterAsset_roundtrip by fastforce
qed

subsection \<open>MsgMintRWA\<close>

definition api_of_MsgMintRWA :: "MsgMintRWA \<Rightarrow> api_MsgMintRWA" where
  "api_of_MsgMintRWA m = \<lparr>api_mmr_Issuer = mmr_Issuer m, api_mmr_AssetId = mmr_AssetId m, api_mmr_Notional = mmr_Notional m, api_mmr_unknownFields = []\<rparr>"

lemma MsgMintRWA_wire:
  assumes R: "runtime_laws R" and wf: "MsgMintRWA_wf m"
  shows "api_MsgMintRWA_size R (Some (api_of_MsgMintRWA m)) = MsgMintRWA_Size m"
    and "api_MsgMintRWA_marshal R [] (Some (api_of_MsgMintRWA m)) = MsgMintRWA_Marshal m"
proof -
  have sz: "size_string (mmr_Issuer m) + size_string (mmr_AssetId m) + size_string (mmr_Notional m) < 2 ^ 63"
    using wf by (simp add: MsgMintRWA_wf_def MsgMintRWA_Size_def)
  have l_Issuer: "length (mmr_Issuer m) < 2 ^ 63" using sz size_string_ge [of "mmr_Issuer m"] by linarith
  have l_AssetId: "length (mmr_AssetId m) < 2 ^ 63" using sz size_string_ge [of "mmr_AssetId m"] by linarith
  have l_Notional: "length (mmr_Notional m) < 2 ^ 63" using sz size_string_ge [of "mmr_Notional m"] by linarith
  define bz where "bz = put_string 10 (mmr_Issuer m)
       (put_string 18 (mmr_AssetId m)
       (put_string 26 (mmr_Notional m)
       []))"
  show size: "api_MsgMintRWA_size R (Some (api_of_MsgMintRWA m)) = MsgMintRWA_Size m"
    by (simp add: api_MsgMintRWA_size_def api_of_MsgMintRWA_def MsgMintRWA_Size_def rt_size_eq(3) [OF R]  rt_size_eq(2) [OF R l_Issuer] rt_put_eq(2) [OF R l_Issuer] rt_size_eq(2) [OF R l_AssetId] rt_put_eq(2) [OF R l_AssetId] rt_size_eq(2) [OF R l_Notional] rt_put_eq(2) [OF R l_Notional])
  have "api_MsgMintRWA_marshal R [] (Some (api_of_MsgMintRWA m)) = rt_buffer [] (MsgMintRWA_Size m) bz"
    by (simp add: api_MsgMintRWA_marshal_def size) (simp add: api_of_MsgMintRWA_def bz_def rt_put_eq(3) [OF R]  rt_size_eq(2) [OF R l_Issuer] rt_put_eq(2) [OF R l_Issuer] rt_size_eq(2) [OF R l_AssetId] rt_put_eq(2) [OF R l_AssetId] rt_size_eq(2) [OF R l_Notional] rt_put_eq(2) [OF R l_Notional])
  moreover have "MsgMintRWA_Marshal m = sized_buffer (MsgMintRWA_Size m) (Ok bz)"
    by (simp add: MsgMintRWA_Marshal_def MsgMintRWA_MarshalToSizedBuffer_def bz_def rt_size_eq(2) [OF R l_Issuer] rt_put_eq(2) [OF R l_Issuer] rt_size_eq(2) [OF R l_AssetId] rt_put_eq(2) [OF R l_AssetId] rt_size_eq(2) [OF R l_Notional] rt_put_eq(2) [OF R l_Notional])
  moreover have "length bz = MsgMintRWA_Size m" by (simp add: bz_def MsgMintRWA_Size_def rt_size_eq(2) [OF R l_Issuer] rt_put_eq(2) [OF R l_Issuer] rt_size_eq(2) [OF R l_AssetId] rt_put_eq(2) [OF R l_AssetId] rt_size_eq(2) [OF R l_Notional] rt_put_eq(2) [OF R l_Notional])
  ultimately show "api_MsgMintRWA_marshal R [] (Some (api_of_MsgMintRWA m)) = MsgMintRWA_Marshal m"
    by (simp add: rt_buffer_exact sized_buffer_exact)
qed

lemma MsgMintRWA_view_wf: "runtime_laws R \<Longrightarrow> MsgMintRWA_wf m \<Longrightarrow> api_MsgMintRWA_wf R (api_of_MsgMintRWA m)"
  using MsgMintRWA_wire(1) [of R m] by (simp add: api_MsgMintRWA_wf_def MsgMintRWA_wf_def) (simp add: api_of_MsgMintRWA_def )

interpretation MsgMintRWA_same: same_wire "MsgMintRWA_Size" "MsgMintRWA_Marshal" "MsgMintRWA_Unmarshal" "\<lambda>m. runtime_laws R \<and> MsgMintRWA_wf m"
    "api_MsgMintRWA_marshal R []" "\<lambda>bz. api_MsgMintRWA_unmarshal R discardUnknown bz (Some zero_api_MsgMintRWA)" "\<lambda>m. Some (api_of_MsgMintRWA m)" for R discardUnknown
proof
  show "\<exists>bz. MsgMintRWA_Marshal m = Ok bz \<and> length bz = MsgMintRWA_Size m \<and> MsgMintRWA_Unmarshal bz = Ok m"
    if "runtime_laws R \<and> MsgMintRWA_wf m" for m
    using that by (blast intro: MsgMintRWA_roundtrip)
next
  show "api_MsgMintRWA_marshal R [] (Some (api_of_MsgMintRWA m)) = MsgMintRWA_Marshal m" if "runtime_laws R \<and> MsgMintRWA_wf m" for m
    using that MsgMintRWA_wire(2) by blast
next
  show "api_MsgMintRWA_unmarshal R discardUnknown bz (Some zero_api_MsgMintRWA) = Ok (Some (api_of_MsgMintRWA m))"
    if "runtime_laws R \<and> MsgMintRWA_wf m" and "api_MsgMintRWA_marshal R [] (Some (api_of_MsgMintRWA m)) = Ok bz" for m bz
    using that MsgMintRWA_view_wf api_MsgMintRWA_roundtrip by fastforce
qed

subsection \<open>MsgTransferRWA\<close>

definition api_of_MsgTransferRWA :: "MsgTransferRWA \<Rightarrow> api_MsgTransferRWA" where
  "api_of_MsgTransferRWA m = \<lparr>api_mtr_Sender = mtr_Sender m, api_mtr_Recipient = mtr_Recipient m, api_mtr_AssetId = mtr_AssetId m, api_mtr_Amount = mtr_Amount m, api_mtr_unknownFields = []\<rparr>"

lemma MsgTransferRWA_wire:
  assumes R: "runtime_laws R" and wf: "MsgTransferRWA_wf m"
  shows "api_MsgTransferRWA_size R (Some (api_of_MsgTransferRWA m)) = MsgTransferRWA_Size m"
    and "api_MsgTransferRWA_marshal R [] (Some (api_of_MsgTransferRWA m)) = MsgTransferRWA_Marshal m"
proof -
  have sz: "size_string (mtr_Sender m) + size_string (mtr_Recipient m) + size_string (mtr_AssetId m) + size_string (mtr_Amount m) < 2 ^ 63"
    using wf by (simp add: MsgTransferRWA_wf_def MsgTransferRWA_Size_def)
  have l_Sender: "length (mtr_Sender m) < 2 ^ 63" using sz size_string_ge [of "mtr_Sender m"] by linarith
  have l_Recipient: "length (mtr_Recipient m) < 2 ^ 63" using sz size_string_ge [of "mtr_Recipient m"] by linarith
  have l_AssetId: "length (mtr_AssetId m) < 2 ^ 63" using sz size_string_ge [of "mtr_AssetId m"] by linarith
  have l_Amount: "length (mtr_Amount m) < 2 ^ 63" using sz size_string_ge [of "mtr_Amount m"] by linarith
  define bz where "bz = put_string 10 (mtr_Sender m)
       (put_string 18 (mtr_Recipient m)
       (put_string 26 (mtr_AssetId m)
       (put_string 34 (mtr_Amount m)
       [])))"
  show size: "api_MsgTransferRWA_size R (Some (api_of_MsgTransferRWA m)) = MsgTransferRWA_Size m"
    by (simp add: api_MsgTransferRWA_size_def api_of_MsgTransferRWA_def MsgTransferRWA_Size_def rt_size_eq(3) [OF R]  rt_size_eq(2) [OF R l_Sender] rt_put_eq(2) [OF R l_Sender] rt_size_eq(2) [OF R l_Recipient] rt_put_eq(2) [OF R l_Recipient] rt_size_eq(2) [OF R l_AssetId] rt_put_eq(2) [OF R l_AssetId] rt_size_eq(2) [OF R l_Amount] rt_put_eq(2) [OF R l_Amount])
  have "api_MsgTransferRWA_marshal R [] (Some (api_of_MsgTransferRWA m)) = rt_buffer [] (MsgTransferRWA_Size m) bz"
    by (simp add: api_MsgTransferRWA_marshal_def size) (simp add: api_of_MsgTransferRWA_def bz_def rt_put_eq(3) [OF R]  rt_size_eq(2) [OF R l_Sender] rt_put_eq(2) [OF R l_Sender] rt_size_eq(2) [OF R l_Recipient] rt_put_eq(2) [OF R l_Recipient] rt_size_eq(2) [OF R l_AssetId] rt_put_eq(2) [OF R l_AssetId] rt_size_eq(2) [OF R l_Amount] rt_put_eq(2) [OF R l_Amount])
  moreover have "MsgTransferRWA_Marshal m = sized_buffer (MsgTransferRWA_Size m) (Ok bz)"
    by (simp add: MsgTransferRWA_Marshal_def MsgTransferRWA_MarshalToSizedBuffer_def bz_def rt_size_eq(2) [OF R l_Sender] rt_put_eq(2) [OF R l_Sender] rt_size_eq(2) [OF R l_Recipient] rt_put_eq(2) [OF R l_Recipient] rt_size_eq(2) [OF R l_AssetId] rt_put_eq(2) [OF R l_AssetId] rt_size_eq(2) [OF R l_Amount] rt_put_eq(2) [OF R l_Amount])
  moreover have "length bz = MsgTransferRWA_Size m" by (simp add: bz_def MsgTransferRWA_Size_def rt_size_eq(2) [OF R l_Sender] rt_put_eq(2) [OF R l_Sender] rt_size_eq(2) [OF R l_Recipient] rt_put_eq(2) [OF R l_Recipient] rt_size_eq(2) [OF R l_AssetId] rt_put_eq(2) [OF R l_AssetId] rt_size_eq(2) [OF R l_Amount] rt_put_eq(2) [OF R l_Amount])
  ultimately show "api_MsgTransferRWA_marshal R [] (Some (api_of_MsgTransferRWA m)) = MsgTransferRWA_Marshal m"
    by (simp add: rt_buffer_exact sized_buffer_exact)
qed

lemma MsgTransferRWA_view_wf: "runtime_laws R \<Longrightarrow> MsgTransferRWA_wf m \<Longrightarrow> api_MsgTransferRWA_wf R (api_of_MsgTransferRWA m)"
  using MsgTransferRWA_wire(1) [of R m] by (simp add: api_MsgTransferRWA_wf_def MsgTransferRWA_wf_def) (simp add: api_of_MsgTransferRWA_def )

interpretation MsgTransferRWA_same: same_wire "MsgTransferRWA_Size" "MsgTransferRWA_Marshal" "MsgTransferRWA_Unmarshal" "\<lambda>m. runtime_laws R \<and> MsgTransferRWA_wf m"
    "api_MsgTransferRWA_marshal R []" "\<lambda>bz. api_MsgTransferRWA_unmarshal R discardUnknown bz (Some zero_api_MsgTransferRWA)" "\<lambda>m. Some (api_of_MsgTransferRWA m)" for R discardUnknown
proof
  show "\<exists>bz. MsgTransferRWA_Marshal m = Ok bz \<and> length bz = MsgTransferRWA_Size m \<and> MsgTransferRWA_Unmarshal bz = Ok m"
    if "runtime_laws R \<and> MsgTransferRWA_wf m" for m
    using that by (blast intro: MsgTransferRWA_roundtrip)
next
  show "api_MsgTransferRWA_marshal R [] (Some (api_of_MsgTransferRWA m)) = MsgTransferRWA_Marshal m" if "runtime_laws R \<and> MsgTransferRWA_wf m" for m
    using that MsgTransferRWA_wire(2) by blast
next
  show "api_MsgTransferRWA_unmarshal R discardUnknown bz (Some zero_api_MsgTransferRWA) = Ok (Some (api_of_MsgTransferRWA m))"
    if "runtime_laws R \<and> MsgTransferRWA_wf m" and "api_MsgTransferRWA_marshal R [] (Some (api_of_MsgTransferRWA m)) = Ok bz" for m bz
    using that MsgTransferRWA_view_wf api_MsgTransferRWA_roundtrip by fastforce
qed

subsection \<open>MsgUpdateRestrictions\<close>

definition api_of_MsgUpdateRestrictions :: "MsgUpdateRestrictions \<Rightarrow> api_MsgUpdateRestrictions" where
  "api_of_MsgUpdateRestrictions m = \<lparr>api_mur_Issuer = mur_Issuer m, api_mur_AssetId = mur_AssetId m, api_mur_AllowAll = mur_AllowAll m, api_mur_AddAllow = mur_AddAllow m, api_mur_DelAllow = mur_DelAllow m, api_mur_AddDeny = mur_AddDeny m, api_mur_DelDeny = mur_DelDeny m, api_mur_unknownFields = []\<rparr>"

lemma MsgUpdateRestrictions_wire:
  assumes R: "runtime_laws R" and wf: "MsgUpdateRestrictions_wf m"
  shows "api_MsgUpdateRestrictions_size R (Some (api_of_MsgUpdateRestrictions m)) = MsgUpdateRestrictions_Size m"
    and "api_MsgUpdateRestrictions_marshal R [] (Some (api_of_MsgUpdateRestrictions m)) = MsgUpdateRestrictions_Marshal m"
proof -
  have sz: "size_string (mur_Issuer m) + size_string (mur_AssetId m) + size_bool (mur_AllowAll m) + size_strings (mur_AddAllow m) + size_strings (mur_DelAllow m) + size_strings (mur_AddDeny m) + size_strings (mur_DelDeny m) < 2 ^ 63"
    using wf by (simp add: MsgUpdateRestrictions_wf_def MsgUpdateRestrictions_Size_def)
  have l_Issuer: "length (mur_Issuer m) < 2 ^ 63" using sz size_string_ge [of "mur_Issuer m"] by linarith
  have l_AssetId: "length (mur_AssetId m) < 2 ^ 63" using sz size_string_ge [of "mur_AssetId m"] by linarith
  have "size_strings (mur_AddAllow m) < 2 ^ 63" using sz by linarith
  then have l_AddAllow: "\<forall>s\<in>set (mur_AddAllow m). length s < 2 ^ 63"
    using size_strings_member le_less_trans by blast
  have "size_strings (mur_DelAllow m) < 2 ^ 63" using sz by linarith
  then have l_DelAllow: "\<forall>s\<in>set (mur_DelAllow m). length s < 2 ^ 63"
    using size_strings_member le_less_trans by blast
  have "size_strings (mur_AddDeny m) < 2 ^ 63" using sz by linarith
  then have l_AddDeny: "\<forall>s\<in>set (mur_AddDeny m). length s < 2 ^ 63"
    using size_strings_member le_less_trans by blast
  have "size_strings (mur_DelDeny m) < 2 ^ 63" using sz by linarith
  then have l_DelDeny: "\<forall>s\<in>set (mur_DelDeny m). length s < 2 ^ 63"
    using size_strings_member le_less_trans by blast
  define bz where "bz = put_string 10 (mur_Issuer m)
       (put_string 18 (mur_AssetId m)
       (put_bool 24 (mur_AllowAll m)
       (put_strings 34 (mur_AddAllow m)
       (put_strings 42 (mur_DelAllow m)
       (put_strings 50 (mur_AddDeny m)
       (put_strings 58 (mur_DelDeny m)
       []))))))"
  show size: "api_MsgUpdateRestrictions_size R (Some (api_of_MsgUpdateRestrictions m)) = MsgUpdateRestrictions_Size m"
    by (simp add: api_MsgUpdateRestrictions_size_def api_of_MsgUpdateRestrictions_def MsgUpdateRestrictions_Size_def rt_size_eq(3) [OF R]  rt_size_eq(2) [OF R l_Issuer] rt_put_eq(2) [OF R l_Issuer] rt_size_eq(2) [OF R l_AssetId] rt_put_eq(2) [OF R l_AssetId] rt_strings_eq [OF R l_AddAllow] rt_strings_eq [OF R l_DelAllow] rt_strings_eq [OF R l_AddDeny] rt_strings_eq [OF R l_DelDeny])
  have "api_MsgUpdateRestrictions_marshal R [] (Some (api_of_MsgUpdateRestrictions m)) = rt_buffer [] (MsgUpdateRestrictions_Size m) bz"
    by (simp add: api_MsgUpdateRestrictions_marshal_def size) (simp add: api_of_MsgUpdateRestrictions_def bz_def rt_put_eq(3) [OF R]  rt_size_eq(2) [OF R l_Issuer] rt_put_eq(2) [OF R l_Issuer] rt_size_eq(2) [OF R l_AssetId] rt_put_eq(2) [OF R l_AssetId] rt_strings_eq [OF R l_AddAllow] rt_strings_eq [OF R l_DelAllow] rt_strings_eq [OF R l_AddDeny] rt_strings_eq [OF R l_DelDeny])
  moreover have "MsgUpdateRestrictions_Marshal m = sized_buffer (MsgUpdateRestrictions_Size m) (Ok bz)"
    by (simp add: MsgUpdateRestrictions_Marshal_def MsgUpdateRestrictions_MarshalToSizedBuffer_def bz_def rt_size_eq(2) [OF R l_Issuer] rt_put_eq(2) [OF R l_Issuer] rt_size_eq(2) [OF R l_AssetId] rt_put_eq(2) [OF R l_AssetId] rt_strings_eq [OF R l_AddAllow] rt_strings_eq [OF R l_DelAllow] rt_strings_eq [OF R l_AddDeny] rt_strings_eq [OF R l_DelDeny])
  moreover have "length bz = MsgUpdateRestrictions_Size m" by (simp add: bz_def MsgUpdateRestrictions_Size_def rt_size_eq(2) [OF R l_Issuer] rt_put_eq(2) [OF R l_Issuer] rt_size_eq(2) [OF R l_AssetId] rt_put_eq(2) [OF R l_AssetId] rt_strings_eq [OF R l_AddAllow] rt_strings_eq [OF R l_DelAllow] rt_strings_eq [OF R l_AddDeny] rt_strings_eq [OF R l_DelDeny])
  ultimately show "api_MsgUpdateRestrictions_marshal R [] (Some (api_of_MsgUpdateRestrictions m)) = MsgUpdateRestrictions_Marshal m"
    by (simp add: rt_buffer_exact sized_buffer_exact)
qed

lemma MsgUpdateRestrictions_view_wf: "runtime_laws R \<Longrightarrow> MsgUpdateRestrictions_wf m \<Longrightarrow> api_MsgUpdateRestrictions_wf R (api_of_MsgUpdateRestrictions m)"
  using MsgUpdateRestrictions_wire(1) [of R m] by (simp add: api_MsgUpdateRestrictions_wf_def MsgUpdateRestrictions_wf_def) (simp add: api_of_MsgUpdateRestrictions_def )

interpretation MsgUpdateRestrictions_same: same_wire "MsgUpdateRestrictions_Size" "MsgUpdateRestrictions_Marshal" "MsgUpdateRestrictions_Unmarshal" "\<lambda>m. runtime_laws R \<and> MsgUpdateRestrictions_wf m"
    "api_MsgUpdateRestrictions_marshal R []" "\<lambda>bz. api_MsgUpdateRestrictions_unmarshal R discardUnknown bz (Some zero_api_MsgUpdateRestrictions)" "\<lambda>m. Some (api_of_MsgUpdateRestrictions m)" for R discardUnknown
proof
  show "\<exists>bz. MsgUpdateRestrictions_Marshal m = Ok bz \<and> length bz = MsgUpdateRestrictions_Size m \<and> MsgUpdateRestrictions_Unmarshal bz = Ok m"
    if "runtime_laws R \<and> MsgUpdateRestrictions_wf m" for m
    using that by (blast intro: MsgUpdateRestrictions_roundtrip)
next
  show "api_MsgUpdateRestrictions_marshal R [] (Some (api_of_MsgUpdateRestrictions m)) = MsgUpdateRestrictions_Marshal m" if "runtime_laws R \<and> MsgUpdateRestrictions_wf m" for m
    using that MsgUpdateRestrictions_wire(2) by blast
next
  show "api_MsgUpdateRestrictions_unmarshal R discardUnknown bz (Some zero_api_MsgUpdateRestrictions) = Ok (Some (api_of_MsgUpdateRestrictions m))"
    if "runtime_laws R \<and> MsgUpdateRestrictions_wf m" and "api_MsgUpdateRestrictions_marshal R [] (Some (api_of_MsgUpdateRestrictions m)) = Ok bz" for m bz
    using that MsgUpdateRestrictions_view_wf api_MsgUpdateRestrictions_roundtrip by fastforce
qed

subsection \<open>FeesParams\<close>

definition api_of_FeesParams :: "FeesParams \<Rightarrow> api_FeesParams" where
  "api_of_FeesParams m = \<lparr>api_fp_BurnRatio = fp_BurnRatio m, api_fp_DistributionRatio = fp_DistributionRatio m, api_fp_unknownFields = []\<rparr>"

lemma FeesParams_wire:
  assumes R: "runtime_laws R" and wf: "FeesParams_wf m"
  shows "api_FeesParams_size R (Some (api_of_FeesParams m)) = FeesParams_Size m"
    and "api_FeesParams_marshal R [] (Some (api_of_FeesParams m)) = FeesParams_Marshal m"
proof -
  have sz: "size_string (fp_BurnRatio m) + size_string (fp_DistributionRatio m) < 2 ^ 63"
    using wf by (simp add: FeesParams_wf_def FeesParams_Size_def)
  have l_BurnRatio: "length (fp_BurnRatio m) < 2 ^ 63" using sz size_string_ge [of "fp_BurnRatio m"] by linarith
  have l_DistributionRatio: "length (fp_DistributionRatio m) < 2 ^ 63" using sz size_string_ge [of "fp_DistributionRatio m"] by linarith
  define bz where "bz = put_string 10 (fp_BurnRatio m)
       (put_string 18 (fp_DistributionRatio m)
       [])"
  show size: "api_FeesParams_size R (Some (api_of_FeesParams m)) = FeesParams_Size m"
    by (simp add: api_FeesParams_size_def api_of_FeesParams_def FeesParams_Size_def rt_size_eq(3) [OF R]  rt_size_eq(2) [OF R l_BurnRatio] rt_put_eq(2) [OF R l_BurnRatio] rt_size_eq(2) [OF R l_DistributionRatio] rt_put_eq(2) [OF R l_DistributionRatio])
  have "api_FeesParams_marshal R [] (Some (api_of_FeesParams m)) = rt_buffer [] (FeesParams_Size m) bz"
    by (simp add: api_FeesParams_marshal_def size) (simp add: api_of_FeesParams_def bz_def rt_put_eq(3) [OF R]  rt_size_eq(2) [OF R l_BurnRatio] rt_put_eq(2) [OF R l_BurnRatio] rt_size_eq(2) [OF R l_DistributionRatio] rt_put_eq(2) [OF R l_DistributionRatio])
  moreover have "FeesParams_Marshal m = sized_buffer (FeesParams_Size m) (Ok bz)"
    by (simp add: FeesParams_Marshal_def FeesParams_MarshalToSizedBuffer_def bz_def rt_size_eq(2) [OF R l_BurnRatio] rt_put_eq(2) [OF R l_BurnRatio] rt_size_eq(2) [OF R l_DistributionRatio] rt_put_eq(2) [OF R l_DistributionRatio])
  moreover have "length bz = FeesParams_Size m" by (simp add: bz_def FeesParams_Size_def rt_size_eq(2) [OF R l_BurnRatio] rt_put_eq(2) [OF R l_BurnRatio] rt_size_eq(2) [OF R l_DistributionRatio] rt_put_eq(2) [OF R l_DistributionRatio])
  ultimately show "api_FeesParams_marshal R [] (Some (api_of_FeesParams m)) = FeesParams_Marshal m"
    by (simp add: rt_buffer_exact sized_buffer_exact)
qed

lemma FeesParams_view_wf: "runtime_laws R \<Longrightarrow> FeesParams_wf m \<Longrightarrow> api_FeesParams_wf R (api_of_FeesParams m)"
  using FeesParams_wire(1) [of R m] by (simp add: api_FeesParams_wf_def FeesParams_wf_def) (simp add: api_of_FeesParams_def )

interpretation FeesParams_same: same_wire "FeesParams_Size" "FeesParams_Marshal" "FeesParams_Unmarshal" "\<lambda>m. runtime_laws R \<and> FeesParams_wf m"
    "api_FeesParams_marshal R []" "\<lambda>bz. api_FeesParams_unmarshal R discardUnknown bz (Some zero_api_FeesParams)" "\<lambda>m. Some (api_of_FeesParams m)" for R discardUnknown
proof
  show "\<exists>bz. FeesParams_Marshal m = Ok bz \<and> length bz = FeesParams_Size m \<and> FeesParams_Unmarshal bz = Ok m"
    if "runtime_laws R \<and> FeesParams_wf m" for m
    using that by (blast intro: FeesParams_roundtrip)
next
  show "api_FeesParams_marshal R [] (Some (api_of_FeesParams m)) = FeesParams_Marshal m" if "runtime_laws R \<and> FeesParams_wf m" for m
    using that FeesParams_wire(2) by blast
next
  show "api_FeesParams_unmarshal R discardUnknown bz (Some zero_api_FeesParams) = Ok (Some (api_of_FeesParams m))"
    if "runtime_laws R \<and> FeesParams_wf m" and "api_FeesParams_marshal R [] (Some (api_of_FeesParams m)) = Ok bz" for m bz
    using that FeesParams_view_wf api_FeesParams_roundtrip by fastforce
qed

section \<open>A runtime\<close>

text \<open>
  The runtime's documented behaviour written out, to show that the laws can hold: a
  \<open>Timestamp\<close> has its seconds as field 1 and its nanoseconds as field 2.
\<close>

definition wire_timestamp :: "timestamp \<Rightarrow> bytes" where
  "wire_timestamp t = put_int64 8 (ts_Seconds t) (put_int64 16 (ts_Nanos t) [])"

definition wire_timestamp_field :: "timestamp handler" where
  "wire_timestamp_field fieldNum wireType pre cur t =
     (if fieldNum = 1 then field_int64 wireType cur (\<lambda>v t. t\<lparr>ts_Seconds := v\<rparr>) t
      else if fieldNum = 2 then field_enum wireType cur (\<lambda>v t. t\<lparr>ts_Nanos := v\<rparr>) t
      else field_skip pre t)"

definition wire_runtime :: pulsar_runtime where
  "wire_runtime = \<lparr>rt_Sov = sov, rt_EncodeVarint = encodeVarint, rt_Skip = skip,
     ts_Size = (\<lambda>t. length (wire_timestamp t)), ts_Marshal = (\<lambda>t. Ok (wire_timestamp t)),
     ts_Unmarshal = (\<lambda>bz t. unmarshal_loop wire_timestamp_field t 0 bz)\<rparr>"

definition wire_time :: time_lib where
  "wire_time = \<lparr>StdTimeMarshalTo = (\<lambda>t. Ok (wire_timestamp (timestamp_of t))),
     SizeOfStdTime = (\<lambda>t. length (wire_timestamp (timestamp_of t))),
     StdTimeUnmarshal = (\<lambda>bz. obind (unmarshal_loop wire_timestamp_field zero_timestamp 0 bz)
       (\<lambda>t. Ok (ts_Seconds t * 1000000000 + ts_Nanos t)))\<rparr>"

lemma wire_timestamp_handler:
  "wire_timestamp_field 1 0 pre cur t = field_int64 0 cur (\<lambda>v t. t\<lparr>ts_Seconds := v\<rparr>) t"
  "wire_timestamp_field 2 0 pre cur t = field_enum 0 cur (\<lambda>v t. t\<lparr>ts_Nanos := v\<rparr>) t"
  by (simp_all add: wire_timestamp_field_def)

lemma wire_timestamp_read:
  "is_i64 (ts_Seconds t) \<Longrightarrow> is_i32 (ts_Nanos t) \<Longrightarrow>
   unmarshal_loop wire_timestamp_field zero_timestamp 0 (wire_timestamp t) = Ok t"
  by (simp add: wire_timestamp_def zero_timestamp_def
      loop_int64 [where h = wire_timestamp_field, OF wire_timestamp_handler(1)]
      loop_enum [where h = wire_timestamp_field, OF wire_timestamp_handler(2)])

lemma wire_runtime_laws: "runtime_laws wire_runtime"
  by (simp add: runtime_laws_def wire_runtime_def length_encodeVarint wire_timestamp_read)

lemma wire_time_agrees: "timestamps_agree wire_runtime wire_time"
  by (simp add: timestamps_agree_def wire_runtime_def wire_time_def)

lemma wire_timestamp_short: "length (wire_timestamp t) < 128"
  using size_int64_le [of "ts_Seconds t"] size_int64_le [of "ts_Nanos t"] by (simp add: wire_timestamp_def)

lemma wire_time_laws: "time_laws wire_time"
  using valid_timestamp_of
  by (simp add: time_laws_def wire_time_def wire_timestamp_read wire_timestamp_short valid_timestamp_def)
    (simp add: timestamp_of_def)

section \<open>Clients and modules understand each other\<close>





text \<open>
  C38. A transaction message (setting a feeder, submitting a price, updating parameters,
  registering, minting, transferring or restricting an asset) that a client encodes with the \<open>api\<close> package is, byte for byte,
  the module's own encoding of that message, and the module decodes it to exactly the
  message the client built.
\<close>

theorem modules_read_client_messages:
  assumes R: "runtime_laws R"
  shows "(\<forall>m. MsgSetFeeder_wf m \<longrightarrow> read_by_module (api_MsgSetFeeder_marshal R []) MsgSetFeeder_Marshal MsgSetFeeder_Unmarshal (Some (api_of_MsgSetFeeder m)) m) \<and>
     (\<forall>m. MsgSubmitFeed_wf m \<longrightarrow> read_by_module (api_MsgSubmitFeed_marshal R []) MsgSubmitFeed_Marshal MsgSubmitFeed_Unmarshal (Some (api_of_MsgSubmitFeed m)) m) \<and>
     (\<forall>m. MsgUpdateParams_wf m \<longrightarrow> read_by_module (api_MsgUpdateParams_marshal R []) MsgUpdateParams_Marshal MsgUpdateParams_Unmarshal (Some (api_of_MsgUpdateParams m)) m) \<and>
     (\<forall>m. MsgRegisterAsset_wf m \<longrightarrow> read_by_module (api_MsgRegisterAsset_marshal R []) MsgRegisterAsset_Marshal MsgRegisterAsset_Unmarshal (Some (api_of_MsgRegisterAsset m)) m) \<and>
     (\<forall>m. MsgMintRWA_wf m \<longrightarrow> read_by_module (api_MsgMintRWA_marshal R []) MsgMintRWA_Marshal MsgMintRWA_Unmarshal (Some (api_of_MsgMintRWA m)) m) \<and>
     (\<forall>m. MsgTransferRWA_wf m \<longrightarrow> read_by_module (api_MsgTransferRWA_marshal R []) MsgTransferRWA_Marshal MsgTransferRWA_Unmarshal (Some (api_of_MsgTransferRWA m)) m) \<and>
     (\<forall>m. MsgUpdateRestrictions_wf m \<longrightarrow> read_by_module (api_MsgUpdateRestrictions_marshal R []) MsgUpdateRestrictions_Marshal MsgUpdateRestrictions_Unmarshal (Some (api_of_MsgUpdateRestrictions m)) m)"
  by (intro conjI allI impI) (simp_all add: R MsgSetFeeder_same.module_reads_client MsgSubmitFeed_same.module_reads_client MsgUpdateParams_same.module_reads_client MsgRegisterAsset_same.module_reads_client MsgMintRWA_same.module_reads_client MsgTransferRWA_same.module_reads_client MsgUpdateRestrictions_same.module_reads_client)

theorem modules_read_client_messages_witness:
  "read_by_module (api_MsgSubmitFeed_marshal wire_runtime []) MsgSubmitFeed_Marshal MsgSubmitFeed_Unmarshal
     (Some (api_of_MsgSubmitFeed \<lparr>msb_Feeder = ''f'', msb_Validator = ''v'', msb_Pair = ''p'', msb_Price = ''1''\<rparr>))
     \<lparr>msb_Feeder = ''f'', msb_Validator = ''v'', msb_Pair = ''p'', msb_Price = ''1''\<rparr>"
  using modules_read_client_messages [OF wire_runtime_laws]
  by (simp add: MsgSubmitFeed_wf_def MsgSubmitFeed_Size_def size_string_def size_bytes_def sov_small)

text \<open>
  C39. A client reads what the modules keep in their stores: decoding the stored bytes of a
  feed, a price, a history entry, an asset or a parameter set with the \<open>api\<close> package gives the
  message that was stored, whether or not unknown fields are to be discarded.
\<close>

theorem clients_read_stored_messages:
  assumes R: "runtime_laws R" and T: "timestamps_agree R T" "time_laws T"
  shows "(\<forall>m. OracleFeed_wf m \<longrightarrow> read_by_client (\<lambda>bz. api_OracleFeed_unmarshal R d bz (Some zero_api_OracleFeed)) OracleFeed_Marshal (Some (api_of_OracleFeed m)) m) \<and>
     (\<forall>m. AggregatedPrice_wf T m \<longrightarrow> read_by_client (\<lambda>bz. api_AggregatedPrice_unmarshal R d bz (Some zero_api_AggregatedPrice)) (AggregatedPrice_Marshal T) (Some (api_of_AggregatedPrice m)) m) \<and>
     (\<forall>m. TWAPEntry_wf T m \<longrightarrow> read_by_client (\<lambda>bz. api_TWAPEntry_unmarshal R d bz (Some zero_api_TWAPEntry)) (TWAPEntry_Marshal T) (Some (api_of_TWAPEntry m)) m) \<and>
     (\<forall>m. OracleParams_wf m \<longrightarrow> read_by_client (\<lambda>bz. api_OracleParams_unmarshal R d bz (Some zero_api_OracleParams)) OracleParams_Marshal (Some (api_of_OracleParams m)) m) \<and>
     (\<forall>m. AssetRecord_wf T m \<longrightarrow> read_by_client (\<lambda>bz. api_AssetRecord_unmarshal R d bz (Some zero_api_AssetRecord)) (AssetRecord_Marshal T) (Some (api_of_AssetRecord m)) m) \<and>
     (\<forall>m. RWAParams_wf m \<longrightarrow> read_by_client (\<lambda>bz. api_RWAParams_unmarshal R d bz (Some zero_api_RWAParams)) RWAParams_Marshal (Some (api_of_RWAParams m)) m) \<and>
     (\<forall>m. FeesParams_wf m \<longrightarrow> read_by_client (\<lambda>bz. api_FeesParams_unmarshal R d bz (Some zero_api_FeesParams)) FeesParams_Marshal (Some (api_of_FeesParams m)) m)"
  by (intro conjI allI impI) (simp_all add: R T OracleFeed_same.client_reads_module AggregatedPrice_same.client_reads_module TWAPEntry_same.client_reads_module OracleParams_same.client_reads_module AssetRecord_same.client_reads_module RWAParams_same.client_reads_module FeesParams_same.client_reads_module)

theorem clients_read_stored_messages_witness:
  "read_by_client (\<lambda>bz. api_TWAPEntry_unmarshal wire_runtime True bz (Some zero_api_TWAPEntry)) (TWAPEntry_Marshal wire_time)
     (Some (api_of_TWAPEntry \<lparr>te_Pair = ''p'', te_Price = ''1'', te_BlockTime = 0\<rparr>)) \<lparr>te_Pair = ''p'', te_Price = ''1'', te_BlockTime = 0\<rparr>"
  using clients_read_stored_messages [OF wire_runtime_laws wire_time_agrees wire_time_laws, of True]
  by (simp add: TWAPEntry_wf_def TWAPEntry_Size_def size_string_def size_bytes_def sov_small valid_time_def zero_time_def
      wire_time_def wire_timestamp_def timestamp_of_def put_int64_def)


end
