(* ===== verification/Spec2Isabelle.thy ===== *)
theory Spec2Isabelle
  imports App Feeder_Submit Pulsar_Wire
begin

text \<open>
  A verification development of the vertix chain: the modules \<open>x/oracle\<close>, \<open>x/fees\<close> and
  \<open>x/rwa\<close> of a Cosmos SDK application, the order in which the application runs them, the
  client packages under \<open>api\<close>, and the \<open>feeder\<close> process that supplies the oracle.

  \<^bold>\<open>The program.\<close> Validators (or feeder keys they delegate to) submit one price per pair and
  vote window to \<open>x/oracle\<close>. At the end of a window the end blocker publishes for every
  accepted pair with a quorum the stake-weighted median, appends it to a history for
  time-weighted averages, slashes outliers and validators that missed too many windows, and
  clears the feeds. \<open>x/rwa\<close> registers real-world assets against an issuer bond, attests them
  with an oracle price, mints and settles their factory denominations and restricts who may
  hold them. \<open>x/fees\<close> burns a share of the collected fees each block and keeps the books of
  what it burned. The feeder polls price providers, filters and medians the quotes and
  submits one transaction per vote window.

  \<^bold>\<open>The libraries.\<close>
  \<^item> \<open>Prelude\<close>: results (\<open>Ok\<close>, \<open>Err\<close> with the registered code, \<open>Panic\<close>), Go integers with
    their wrap-around, byte strings, time, \<open>sort.Slice\<close>.
  \<^item> \<open>Sdk\<close>: the libraries the code calls (\<open>cosmossdk.io/math\<close>, addresses, \<open>StdTime\<close>, the
    key-value store, staking, slashing, bank and distribution keepers) as records of
    functions, with what their documentation promises as named predicates (\<open>math_laws\<close>,
    \<open>addr_laws\<close>, \<open>time_laws\<close>, \<open>kv_laws\<close>, gathered in \<open>sdk_laws\<close>; \<open>bank_laws\<close>, \<open>slash_laws\<close>,
    \<open>staking_state\<close>), and the context every handler threads (the multistore, the foreign
    state, height, time, events). The locale \<open>price_feed\<close> is what a client of an oracle
    relies on; the oracle's \<open>GetPrice\<close> interprets it.
  \<^item> \<open>Reference\<close>: one concrete instance of all of them, proved to satisfy the laws.
  \<^item> \<open>Wire\<close>, \<open>Oracle_Messages\<close>, \<open>Fees_Messages\<close>, \<open>Rwa_Messages\<close>, \<open>Tx_Messages\<close>: the
    generated protobuf code of the stored messages (\<open>types.pb.go\<close>) and of the transaction
    messages (\<open>tx.pb.go\<close>) byte for byte, with a round trip per message through the locale
    \<open>message_codec\<close>.
  \<^item> \<open>Stores\<close>: families of keys in one store and the invariant of a family of typed records,
    the locale \<open>key_family\<close>, interpreted for every family of keys of the modules.

  \<^bold>\<open>The modules.\<close> Each has its operations in the order of the code's files, an abstract state
  (tables in place of bytes), the invariant of its store, and a lemma per operation that
  says when it succeeds and what it makes of the abstract state.
  \<^item> \<open>Oracle_Types\<close>, \<open>Oracle_Aggregate\<close>, \<open>Oracle_Keeper\<close>, \<open>Oracle_Twap\<close>, \<open>Oracle_EndBlock\<close>,
    \<open>Oracle_Server\<close>: \<open>x/oracle/types\<close> and \<open>x/oracle/keeper\<close>. The abstract state is
    \<open>oracle_state\<close>, the invariant \<open>oracle_inv\<close>. \<open>Oracle_Chain\<close> has the reachable states
    (\<open>oracle_reach\<close>) and the properties: the invariant holds there, the end blocker refines
    \<open>window_end\<close>, never halts, publishes the weighted median, resists a minority of stake and
    slashes nobody who reports; who may submit and who may change parameters; every answer of
    \<open>GetPrice\<close>; the round trip of genesis; and what goes wrong (findings in the manifest).
  \<^item> \<open>Fees\<close>: \<open>x/fees\<close>, what is burned and that both crisis invariants are kept.
  \<^item> \<open>Rwa_Types\<close>, \<open>Rwa_Keeper\<close>, \<open>Rwa_Server\<close>: \<open>x/rwa\<close>. The abstract state is \<open>rwa_state\<close>, the
    invariant \<open>rwa_inv\<close>; the locale \<open>attesting\<close> holds what attestation needs of an oracle.
    \<open>Rwa_Chain\<close> ties the records to the bank (\<open>rwa_backed\<close>) in every reachable state
    (\<open>rwa_reach\<close>): the crisis invariants hold, active assets are backed, a record only
    advances, the effect of minting and settling to the coin, the restriction on sends.
  \<^item> \<open>App\<close>: \<open>app/app_config.go\<close>, the order of genesis and of the end of a block, and the runs
    of the whole chain (\<open>app_reach\<close>). What each module assumes of the others is proved here:
    a run of the chain is a run of each module (\<open>app_reach_modules\<close>). Beyond the laws above
    it uses that slashing burns only bonded coins (\<open>slash_burns\<close>) and that the SDK's modules
    neither mint the denominations of \<open>x/rwa\<close> nor spend from its account (\<open>sdk_work\<close>).

  \<^bold>\<open>The clients.\<close>
  \<^item> \<open>Feeder_Price\<close>, \<open>Feeder_Submit\<close>: \<open>feeder/feeder\<close>: medians and filters, the cache, the
    providers over given HTTP answers, the price loop, message building, sequence numbers and
    the submit loop, with the robustness of the median, one submission per window, and an
    end to every tick.
  \<^item> \<open>Pulsar\<close>, \<open>Pulsar_Oracle\<close>, \<open>Pulsar_Rwa\<close>, \<open>Pulsar_Fees\<close>: the generated reflection and fast
    paths of \<open>api/vertix\<close>, through the locale \<open>reflected_message\<close>; \<open>Pulsar_Wire\<close> shows with
    the locale \<open>same_wire\<close> that they and the modules read and write the same bytes.

  The properties below span components: the end of a block of the whole application, an
  attestation on a price of the oracle, the feeder's messages in the handler of the chain,
  and the range of decoded integers.

  \<^bold>\<open>Bounds.\<close> Texts that are stored are shorter than \<open>2 ^ 16\<close> (oracle) and \<open>2 ^ 20\<close> (rwa)
  bytes, below the limit of a transaction. Prices that reach the oracle's end blocker are
  below \<open>2 ^ 255\<close> units: above it the outlier test overflows, which is a finding. Block times
  lie between 1970 and 2262, where \<open>UnixNano\<close> is exact. Amounts of fees are below \<open>2 ^ 255\<close>,
  so that the product with the burn ratio fits the library's decimals. The loops over
  bytes (writing a varint, skipping a field, decoding a message) recurse without a structural
  argument and are proved to terminate; no definition uses fuel.

  \<^bold>\<open>Not modelled.\<close> Gas and the revert of a failed transaction (a handler that fails returns
  no new state, and a failing call of a foreign keeper leaves its state as it was); the text
  of error messages and of the invariants' reports; logging and metrics; the generated code
  of the query and genesis messages and of the transaction messages with the same shape and
  fewer fields, the gRPC stubs, the gateways, descriptors and getters; the dependency
  injection of the application, IBC, upgrades, command lines, simulations, timers, network
  and file I/O.
\<close>

section \<open>The end of a block\<close>



lemma app_sampleD:
  assumes "app_sample c"
  shows app_sample_reach: "app_reach ref_env ref_view c" and app_sample_ext: "ext c = app_chain" and app_sample_time: "BlockTime c = ref_now"
    and app_sample_oracle: "oracle_of ref_env ref_view c =
      empty_oracle\<lparr>os_params := DefaultParams, os_prices := [''VTX:USD'' \<mapsto> sample_price (ref_now - 300 * Second)]\<rparr>"
    and app_sample_assets: "rw_assets (rwa_of ref_env ref_view c) = [''gold'' \<mapsto> app_asset]"
    and app_sample_fees: "fees_params ref_env ref_view c = Fees_DefaultParams ref_math" "cumulative_burned ref_env ref_view c = 0"
  using assms by (simp_all add: app_sample_def)

lemma ref_slashing: "slash_laws (env_keepers ref_env)" "slash_burns (env_keepers ref_env)"
  by (simp_all add: ref_slash_laws ref_slash_burns)

lemmas ref_app_laws = ref_sdk_laws ref_bank ref_slashing sample_module(2)


section \<open>The oracle and the assets\<close>

text \<open>
  C6. An attestation rests on a fresh price. In every state the application reaches, an
  asset is attested only by its issuer and only as a draft; then the oracle accepts the
  asset's pair and has published a positive price for it, no older than \<open>max_price_age\<close>
  seconds, and the text stored in the record reads back as exactly that price. The
  hypothesis excludes the ages for which the duration in the code wraps around.
\<close>

theorem AttestAsset_on_fresh_price:
  assumes "sdk_laws L view" and "bank_laws (env_keepers L)" and "slash_laws (env_keepers L)" and "slash_burns (env_keepers L)"
    and "rwa_account L" and "app_reach L view c" and "op_MaxPriceAge (os_params (oracle_of L view c)) \<le> 9223372036"
    and "AttestAsset L (GetPrice L) msg c = Ok c'"
  shows "app_reach L view c' \<and> (\<exists>a a' ap d. GetAsset L (maa_AssetId msg) c = Ok (Some a) \<and> ar_Issuer a = maa_Issuer msg \<and> ar_Status a = DRAFT \<and>
    ar_OraclePair a \<in> set (op_AcceptList (os_params (oracle_of L view c))) \<and> os_prices (oracle_of L view c) (ar_OraclePair a) = Some ap \<and>
    LegacyNewDecFromStr (env_math L) (ap_Price ap) = Ok d \<and> 0 < d \<and>
    BlockTime c - ap_BlockTime ap \<le> op_MaxPriceAge (os_params (oracle_of L view c)) * 1000000000 \<and>
    GetAsset L (maa_AssetId msg) c' = Ok (Some a') \<and> ar_Status a' = ATTESTED \<and> ar_AttestedAt a' = BlockTime c \<and>
    LegacyNewDecFromStr (env_math L) (ar_AttestedPrice a') = Ok d)"
proof -
  let ?S = "oracle_of L view c" and ?M = "env_math L"
  note L = assms(1) and mods = app_reach_modules [OF assms(1-6)]
  have inv: "oracle_inv L view c" using reach_good [OF L assms(3)] mods by (auto simp: oracle_good_def)
  have good: "rwa_good L view c" using rwa_reach_good [OF L assms(2,5)] mods by blast
  have slug: "slugRegex (maa_AssetId msg)" using assms(8) by (auto simp: AttestAsset_def MsgAttestAsset_ValidateBasic_def obind_eq_Ok)
  obtain a d where a: "rw_assets (rwa_of L view c) (maa_AssetId msg) = Some a" "ar_Issuer a = maa_Issuer msg" "ar_Status a = DRAFT"
    and d: "GetPrice L (ar_OraclePair a) c = Ok d"
    and did: "rwa_done L view c c' (put_asset (attested_record ?M (BlockTime c) d a) (rwa_of L view c)) (ext c)"
    using attest.AttestAsset_Ok [OF L good_inv [OF good] good_time [OF good] assms(8)] by blast
  obtain ap where ap: "ar_OraclePair a \<in> set (op_AcceptList (os_params ?S))" "os_prices ?S (ar_OraclePair a) = Some ap"
      "price_of ?M (ap_Price ap) = d" "time_sub (BlockTime c) (ap_BlockTime ap) \<le> dur_mul (op_MaxPriceAge (os_params ?S)) Second"
    using d by (auto simp: GetPrice_eq [OF L inv] Let_def split: if_splits option.splits)
  have "0 < op_MaxPriceAge (os_params ?S)"
    using GetParams_eq(2) [OF L inv] by (simp add: params_ok_def OracleParams_Validate_iff [OF sdk_math [OF L]] params_valid_def)
  then have "BlockTime c - ap_BlockTime ap \<le> op_MaxPriceAge (os_params ?S) * 1000000000"
    using time_sub_le [OF ap(4)] assms(7) by (simp add: dur_mul_def Second_def is_i64_def)
  moreover have "LegacyNewDecFromStr ?M (ap_Price ap) = Ok d" "0 < d" using price_ok_parse [OF inv_price(3) [OF inv ap(2)]] ap(3) by simp_all
  moreover have "LegacyNewDecFromStr ?M (dec_String ?M d) = Ok d" using oracle_feed.price_text [OF sdk_math [OF L] d] by blast
  moreover have "GetAsset L (maa_AssetId msg) c' = Ok (Some (attested_record ?M (BlockTime c) d a))"
    using did rwa_asset_id [OF good_inv [OF good] a(1)]
    by (simp add: GetAsset_eq [OF L _ slug_short [OF slug]] rwa_done_def attested_record_def)
  moreover have "app_reach L view c'" by (rule app_rwa [OF assms(6) next_attest [OF assms(8)]])
  ultimately show ?thesis
    using a ap(1,2) by (simp add: GetAsset_eq [OF L good_inv [OF good] slug_short [OF slug]], simp add: attested_record_def)
qed

definition sample_attest :: MsgAttestAsset where
  "sample_attest = \<lparr>maa_Issuer = ''vtx1I'', maa_AssetId = ''gold''\<rparr>"

lemma app_sample_attested:
  assumes c: "app_sample c"
  shows "\<exists>c'. AttestAsset ref_env (GetPrice ref_env) sample_attest c = Ok c'"
proof -
  note mods = app_reach_modules [OF ref_app_laws app_sample_reach [OF c]]
  have inv: "oracle_inv ref_env ref_view c" using reach_good [OF ref_sdk_laws ref_slashing(1)] mods by (auto simp: oracle_good_def)
  have good: "rwa_good ref_env ref_view c" using rwa_reach_good [OF ref_sdk_laws ref_bank sample_module(2)] mods by blast
  have price: "GetPrice ref_env ''VTX:USD'' c = Ok (102 * 10 ^ 16)"
    using VTX_USD_accepted
    by (simp add: GetPrice_eq [OF ref_sdk_laws inv] app_sample_oracle [OF c] app_sample_time [OF c])
      (simp add: sample_price_def sample_price_ok DefaultParams_def time_sub_def dur_mul_def i64_def Second_def)
  have asset: "ar_AssetId app_asset = ''gold''" "ar_Issuer app_asset = ''vtx1I''" "ar_Status app_asset = DRAFT" "ar_OraclePair app_asset = ''VTX:USD''"
    by (simp_all add: app_asset_def sample_asset_def)
  have req: "requireIssuer ref_env ''gold'' ''vtx1I'' c = Ok app_asset"
    using requireIssuer_Ok [OF ref_sdk_laws good_inv [OF good] sample_slug] by (simp add: app_sample_assets [OF c] asset)
  let ?a = "attested_record ref_math ref_now (102 * 10 ^ 16) app_asset"
  have "length (dec_String ref_math (102 * 10 ^ 16)) < 2 ^ 20"
    using dec_String_short [OF ref_math_laws, of "102 * 10 ^ 16"] by (simp add: dec_fits_def)
  then have "asset_ok ref_env ?a"
    using app_asset_ok by (simp add: asset_ok_def attested_record_def asset_small_def status_defs valid_time_def zero_time_def ref_now_def Second_def)
  then obtain c1 where "SetAsset ref_env ?a c = Ok c1" using SetAsset_step [OF ref_sdk_laws good_inv [OF good]] by blast
  then show ?thesis
    using sample_slug sample_issuer
    by (simp add: AttestAsset_def MsgAttestAsset_ValidateBasic_def sample_attest_def req asset price attested_record_def app_sample_time [OF c] ValidateAssetID_def require_address_def)
qed

theorem AttestAsset_on_fresh_price_witness:
  "\<exists>c c' a'. GetAsset ref_env ''gold'' c = Ok (Some app_asset) \<and> AttestAsset ref_env (GetPrice ref_env) sample_attest c = Ok c' \<and>
     GetAsset ref_env ''gold'' c' = Ok (Some a') \<and> LegacyNewDecFromStr ref_math (ar_AttestedPrice a') = Ok (102 * 10 ^ 16)"
proof -
  obtain c where c: "app_sample c" using app_sample_exists by blast
  obtain c' where c': "AttestAsset ref_env (GetPrice ref_env) sample_attest c = Ok c'" using app_sample_attested [OF c] by blast
  have "op_MaxPriceAge (os_params (oracle_of ref_env ref_view c)) \<le> 9223372036" by (simp add: app_sample_oracle [OF c] DefaultParams_def)
  note fresh = AttestAsset_on_fresh_price [OF ref_app_laws app_sample_reach [OF c] this c']
  have good: "rwa_good ref_env ref_view c"
    using rwa_reach_good [OF ref_sdk_laws ref_bank sample_module(2)] app_reach_modules [OF ref_app_laws app_sample_reach [OF c]] by blast
  have a: "GetAsset ref_env ''gold'' c = Ok (Some app_asset)"
    using GetAsset_eq [OF ref_sdk_laws good_inv [OF good], of "''gold''"] by (simp add: app_sample_assets [OF c])
  have "ar_OraclePair app_asset = ''VTX:USD''" by (simp add: app_asset_def)
  then show ?thesis
    using fresh c' a
    by (auto simp: sample_attest_def app_sample_oracle [OF c] sample_price_def sample_prices)
qed

section \<open>The feeder and the chain\<close>









section \<open>Decoded messages\<close>



end
